(* ===== verification/Prelude.thy ===== *)
theory Prelude
  imports Main "HOL-Library.AList" "HOL-Library.Char_ord" "HOL-Library.List_Lexorder"
begin

text \<open>
  Shared vocabulary of the development: the parts of the JavaScript run time that the
  signet packages rely on.

  \<^item> A JavaScript \<open>Map\<close> iterates in insertion order, and \<open>set\<close> on a present key keeps the
    key's place; \<open>js_map\<close> is an association list with \<open>map_set\<close> and \<open>map_delete\<close> that
    behave so. The interface the stores of the packages use is the locale \<open>key_store\<close>.
  \<^item> A JavaScript \<open>Set\<close> built from an array iterates in the order of first insertion:
    \<open>set_from\<close>.
  \<^item> An instant is the number of milliseconds since the epoch, an \<open>int\<close>. A \<open>Date\<close> holds at
    most 8.64e15 milliseconds either side of the epoch and \<open>toISOString\<close> throws a
    RangeError beyond; \<open>to_iso\<close> is that check. Instants are kept as numbers: the code writes
    them with \<open>toISOString\<close> and reads them back with \<open>new Date(...).getTime()\<close>.
  \<^item> A call that may throw returns a \<open>completion\<close>.
\<close>

section \<open>Collections of rewrite rules\<close>

named_theorems js_simps \<open>JavaScript collections, evaluated\<close>
named_theorems frame_simps \<open>fields that an operation leaves alone\<close>

section \<open>Maps with insertion order\<close>

type_synonym ('k, 'v) js_map = "('k \<times> 'v) list"

definition map_get :: "('k, 'v) js_map \<Rightarrow> 'k \<Rightarrow> 'v option" where
  "map_get m k = map_of m k"

definition map_set :: "'k \<Rightarrow> 'v \<Rightarrow> ('k, 'v) js_map \<Rightarrow> ('k, 'v) js_map" where
  "map_set k v m = AList.update k v m"

definition map_delete :: "'k \<Rightarrow> ('k, 'v) js_map \<Rightarrow> ('k, 'v) js_map" where
  "map_delete k m = AList.delete k m"

definition map_values :: "('k, 'v) js_map \<Rightarrow> 'v list" where
  "map_values m = map snd m"

definition map_keys :: "('k, 'v) js_map \<Rightarrow> 'k list" where
  "map_keys m = map fst m"

definition map_wf :: "('k, 'v) js_map \<Rightarrow> bool" where
  "map_wf m \<longleftrightarrow> distinct (map fst m)"

lemma map_get_Nil [simp]: "map_get [] k = None"
  by (simp add: map_get_def)

lemma map_get_set [simp]: "map_get (map_set k v m) = (map_get m)(k \<mapsto> v)"
  by (rule ext) (simp add: map_get_def map_set_def update_conv)

lemma map_get_delete [simp]: "map_get (map_delete k m) = (map_get m)(k := None)"
  by (rule ext) (simp add: map_get_def map_delete_def delete_conv)

lemma map_wf_Nil [simp]: "map_wf []"
  by (simp add: map_wf_def)

lemma map_wf_set [simp]: "map_wf m \<Longrightarrow> map_wf (map_set k v m)"
  by (simp add: map_wf_def map_set_def distinct_update)

lemma map_wf_delete [simp]: "map_wf m \<Longrightarrow> map_wf (map_delete k m)"
  by (simp add: map_wf_def map_delete_def distinct_delete)

lemma map_entry_iff: "map_wf m \<Longrightarrow> (k, v) \<in> set m \<longleftrightarrow> map_get m k = Some v"
  by (simp add: map_wf_def map_get_def)

lemma map_values_iff: "map_wf m \<Longrightarrow> v \<in> set (map_values m) \<longleftrightarrow> (\<exists>k. map_get m k = Some v)"
  by (force simp: map_values_def map_entry_iff [symmetric])

lemma map_get_in_values: "map_get m k = Some v \<Longrightarrow> v \<in> set (map_values m)"
  by (force simp: map_values_def map_get_def dest: map_of_SomeD)

lemma map_set_fresh: "map_get m k = None \<Longrightarrow> map_set k v m = m @ [(k, v)]"
  by (induction m) (auto simp: map_get_def map_set_def split: if_splits)

text \<open>Overwriting a present key keeps the order of the entries.\<close>

lemma map_keys_set_present:
  "map_get m k \<noteq> None \<Longrightarrow> map_keys (map_set k v m) = map_keys m"
  by (induction m) (auto simp: map_get_def map_set_def map_keys_def split: if_splits)

lemma map_set_present:
  "map_wf m \<Longrightarrow> map_get m k \<noteq> None \<Longrightarrow>
    map_set k v m = map (\<lambda>(k', v'). if k' = k then (k', v) else (k', v')) m"
proof (induction m)
  case Nil
  then show ?case by (simp add: map_get_def)
next
  case (Cons p m)
  obtain k' v' where p: "p = (k', v')" by (cases p)
  show ?case
  proof (cases "k' = k")
    case True
    with Cons.prems p have "k \<notin> fst ` set m" by (simp add: map_wf_def)
    then have "map (\<lambda>(k', v'). if k' = k then (k', v) else (k', v')) m = m"
      by (intro map_idI) force
    with True p show ?thesis by (simp add: map_set_def)
  next
    case False
    with Cons p show ?thesis by (simp add: map_set_def map_get_def map_wf_def)
  qed
qed

section \<open>The interface of a keyed store\<close>

text \<open>
  What every manager of the signet asks of the store behind it, and the facts about
  "all stored values" that follow from those laws alone.
\<close>

locale key_store =
  fixes empty :: "'m"
    and get :: "'m \<Rightarrow> 'k \<Rightarrow> 'v option"
    and put :: "'k \<Rightarrow> 'v \<Rightarrow> 'm \<Rightarrow> 'm"
    and del :: "'k \<Rightarrow> 'm \<Rightarrow> 'm"
    and vals :: "'m \<Rightarrow> 'v list"
    and wf :: "'m \<Rightarrow> bool"
  assumes wf_empty: "wf empty"
    and wf_put: "wf m \<Longrightarrow> wf (put k v m)"
    and wf_del: "wf m \<Longrightarrow> wf (del k m)"
    and get_empty: "get empty k = None"
    and get_put: "get (put k v m) = (get m)(k \<mapsto> v)"
    and get_del: "get (del k m) = (get m)(k := None)"
    and vals_iff: "wf m \<Longrightarrow> v \<in> set (vals m) \<longleftrightarrow> (\<exists>k. get m k = Some v)"
begin

lemma put_other: "k' \<noteq> k \<Longrightarrow> get (put k v m) k' = get m k'"
  by (simp add: get_put)

lemma all_put:
  assumes "\<And>k' v'. get m k' = Some v' \<Longrightarrow> P k' v'" and "P k v"
    and "get (put k v m) k'' = Some v''"
  shows "P k'' v''"
  using assms by (auto simp: get_put split: if_splits)

lemma all_del:
  assumes "\<And>k' v'. get m k' = Some v' \<Longrightarrow> P k' v'"
    and "get (del k m) k'' = Some v''"
  shows "P k'' v''"
  using assms by (auto simp: get_del split: if_splits)

lemma vals_put:
  "wf m \<Longrightarrow> set (vals (put k v m)) = insert v {v'. \<exists>k'. k' \<noteq> k \<and> get m k' = Some v'}"
  by (auto simp: vals_iff wf_put get_put split: if_splits)

lemma vals_del: "wf m \<Longrightarrow> set (vals (del k m)) = {v'. \<exists>k'. k' \<noteq> k \<and> get m k' = Some v'}"
  by (auto simp: vals_iff wf_del get_del split: if_splits)

end

interpretation jsm: key_store "[]" map_get map_set map_delete map_values map_wf
  by unfold_locales (auto simp: map_values_iff)

section \<open>Sets with insertion order\<close>

fun set_from_onto :: "'a list \<Rightarrow> 'a list \<Rightarrow> 'a list" where
  "set_from_onto acc [] = acc"
| "set_from_onto acc (x # xs) =
     set_from_onto (if x \<in> set acc then acc else acc @ [x]) xs"

definition set_from :: "'a list \<Rightarrow> 'a list" where
  "set_from xs = set_from_onto [] xs"

lemma set_from_onto_set: "set (set_from_onto acc xs) = set acc \<union> set xs"
  by (induction xs arbitrary: acc) auto

lemma set_from_onto_distinct: "distinct acc \<Longrightarrow> distinct (set_from_onto acc xs)"
  by (induction xs arbitrary: acc) auto

lemma set_set_from [simp]: "set (set_from xs) = set xs"
  by (simp add: set_from_def set_from_onto_set)

lemma distinct_set_from [simp]: "distinct (set_from xs)"
  by (simp add: set_from_def set_from_onto_distinct)

lemma set_from_eq_Nil [simp]: "set_from xs = [] \<longleftrightarrow> xs = []"
  using set_set_from [of xs] by (metis set_empty)

section \<open>Instants and completions\<close>

datatype js_exn = RangeError | TypeError | SyntaxError | HostError string

datatype 'a completion = Returned 'a | Threw js_exn

definition max_date_ms :: int where
  "max_date_ms = 8640000000000000"

definition to_iso :: "int \<Rightarrow> int completion" where
  "to_iso t = (if abs t \<le> max_date_ms then Returned t else Threw RangeError)"

lemma to_iso_Returned [simp]: "to_iso t = Returned u \<longleftrightarrow> u = t \<and> abs t \<le> max_date_ms"
  by (auto simp: to_iso_def)

section \<open>Lists and strings\<close>

definition starts_with :: "string \<Rightarrow> string \<Rightarrow> bool" where
  "starts_with p s \<longleftrightarrow> take (length p) s = p"

definition js_slice :: "nat \<Rightarrow> string \<Rightarrow> string" where
  "js_slice n s = drop n s"

lemma starts_with_append [simp]: "starts_with p (p @ s)"
  by (simp add: starts_with_def)

lemma starts_with_iff: "starts_with p s \<longleftrightarrow> (\<exists>t. s = p @ t)"
  by (metis append_take_drop_id starts_with_def append_eq_conv_conj)

lemma starts_with_split: "starts_with p s \<Longrightarrow> s = p @ js_slice (length p) s"
  by (simp add: starts_with_def js_slice_def) (metis append_take_drop_id)

lemma js_slice_append [simp]: "js_slice (length p) (p @ s) = s"
  by (simp add: js_slice_def)

fun join_with :: "string \<Rightarrow> string list \<Rightarrow> string" where
  "join_with sep [] = []"
| "join_with sep [x] = x"
| "join_with sep (x # y # zs) = x @ sep @ join_with sep (y # zs)"

fun find_first :: "('a \<Rightarrow> bool) \<Rightarrow> 'a list \<Rightarrow> 'a option" where
  "find_first P [] = None"
| "find_first P (x # xs) = (if P x then Some x else find_first P xs)"

lemma find_first_SomeD: "find_first P xs = Some x \<Longrightarrow> x \<in> set xs \<and> P x"
  by (induction xs) (auto split: if_splits)

lemma find_first_None: "find_first P xs = None \<longleftrightarrow> (\<forall>x \<in> set xs. \<not> P x)"
  by (induction xs) auto

lemma sort_key_set [simp]: "set (sort_key f xs) = set xs"
  by simp

lemma hd_sort_key_min:
  fixes f :: "'a \<Rightarrow> 'b::linorder"
  assumes "sort_key f xs = y # ys"
  shows "y \<in> set xs \<and> (\<forall>x \<in> set xs. f y \<le> f x)"
proof -
  have "set (sort_key f xs) = set xs" by simp
  with assms have s: "set xs = insert y (set ys)" by simp
  have "sorted (map f (sort_key f xs))" by simp
  with assms have "\<forall>x \<in> set ys. f y \<le> f x" by simp
  with s show ?thesis by auto
qed

text \<open>JavaScript \<open>split\<close> with a separator of one character.\<close>

fun split_on :: "char \<Rightarrow> string \<Rightarrow> string list" where
  "split_on c [] = [[]]"
| "split_on c (d # s) =
     (if d = c then [] # split_on c s
      else (case split_on c s of [] \<Rightarrow> [[d]] | p # ps \<Rightarrow> (d # p) # ps))"

end
