(* ===== verification/Errors.thy ===== *)
theory Errors
  imports Prelude
begin

text \<open>
  The error taxonomy of packages/schemas/src/errors and the envelopes the transports build
  from a handler's result (packages/contracts/src/result-envelope.ts,
  packages/ws/src/request-router.ts, packages/cli/src/output/exit-codes.ts).

  An error class is a constructor that carries the arguments of its static \<open>create\<close>; the
  fields the class derives from them (tag, code, category, message, context) are functions.
  A \<open>Result\<close> of the code is the sum \<open>signet_error + 'a\<close>, \<open>Inl\<close> for \<open>Result.err\<close>.
\<close>

section \<open>Categories and their transport metadata\<close>

datatype error_category =
  CatValidation | CatNotFound | CatPermission | CatAuth | CatInternal | CatTimeout
| CatCancelled | CatNetwork

record error_category_meta =
  exitCode :: int
  statusCode :: int
  jsonRpcCode :: int
  retryable :: bool

fun errorCategoryMeta :: "error_category \<Rightarrow> error_category_meta" where
  "errorCategoryMeta CatValidation =
     \<lparr>exitCode = 1, statusCode = 400, jsonRpcCode = -32602, retryable = False\<rparr>"
| "errorCategoryMeta CatNotFound =
     \<lparr>exitCode = 2, statusCode = 404, jsonRpcCode = -32007, retryable = False\<rparr>"
| "errorCategoryMeta CatPermission =
     \<lparr>exitCode = 4, statusCode = 403, jsonRpcCode = -32003, retryable = False\<rparr>"
| "errorCategoryMeta CatAuth =
     \<lparr>exitCode = 9, statusCode = 401, jsonRpcCode = -32000, retryable = False\<rparr>"
| "errorCategoryMeta CatInternal =
     \<lparr>exitCode = 8, statusCode = 500, jsonRpcCode = -32603, retryable = False\<rparr>"
| "errorCategoryMeta CatTimeout =
     \<lparr>exitCode = 5, statusCode = 504, jsonRpcCode = -32001, retryable = True\<rparr>"
| "errorCategoryMeta CatCancelled =
     \<lparr>exitCode = 130, statusCode = 499, jsonRpcCode = -32006, retryable = False\<rparr>"
| "errorCategoryMeta CatNetwork =
     \<lparr>exitCode = 6, statusCode = 503, jsonRpcCode = -32002, retryable = True\<rparr>"

text \<open>
  The fallback branch of \<open>exitCodeFromCategory\<close> covers a string outside the enumeration,
  which a value of type \<open>error_category\<close> cannot be; \<open>None\<close> stands for such a string.
\<close>

fun exitCodeFromCategory :: "error_category option \<Rightarrow> int" where
  "exitCodeFromCategory (Some c) = exitCode (errorCategoryMeta c)"
| "exitCodeFromCategory None = exitCode (errorCategoryMeta CatInternal)"

section \<open>Error classes\<close>

text \<open>\<open>CtxDiv a b\<close> is the number \<open>a / b\<close>.\<close>

datatype ctx_value =
  CtxStr string | CtxNum int | CtxDiv int int | CtxBool bool | CtxStrs "string list" | CtxUndefined

type_synonym ctx = "(string, ctx_value) js_map"

datatype signet_error =
  ValidationError string string ctx
| SealError string string
| NotFoundError string string
| PermissionError string "ctx option"
| AuthError string "ctx option"
| CredentialExpiredError string
| InternalError string "ctx option"
| TimeoutError string int
| CancelledError string
| NetworkError string string ctx

type_synonym 'a result = "signet_error + 'a"

fun error_tag :: "signet_error \<Rightarrow> string" where
  "error_tag (ValidationError _ _ _) = ''ValidationError''"
| "error_tag (SealError _ _) = ''SealError''"
| "error_tag (NotFoundError _ _) = ''NotFoundError''"
| "error_tag (PermissionError _ _) = ''PermissionError''"
| "error_tag (AuthError _ _) = ''AuthError''"
| "error_tag (CredentialExpiredError _) = ''CredentialExpiredError''"
| "error_tag (InternalError _ _) = ''InternalError''"
| "error_tag (TimeoutError _ _) = ''TimeoutError''"
| "error_tag (CancelledError _) = ''CancelledError''"
| "error_tag (NetworkError _ _ _) = ''NetworkError''"

fun error_code :: "signet_error \<Rightarrow> int" where
  "error_code (ValidationError _ _ _) = 1000"
| "error_code (SealError _ _) = 1010"
| "error_code (NotFoundError _ _) = 1100"
| "error_code (PermissionError _ _) = 1200"
| "error_code (AuthError _ _) = 1300"
| "error_code (CredentialExpiredError _) = 1310"
| "error_code (InternalError _ _) = 1400"
| "error_code (TimeoutError _ _) = 1500"
| "error_code (CancelledError _) = 1600"
| "error_code (NetworkError _ _ _) = 1700"

fun category_of :: "signet_error \<Rightarrow> error_category" where
  "category_of (ValidationError _ _ _) = CatValidation"
| "category_of (SealError _ _) = CatValidation"
| "category_of (NotFoundError _ _) = CatNotFound"
| "category_of (PermissionError _ _) = CatPermission"
| "category_of (AuthError _ _) = CatAuth"
| "category_of (CredentialExpiredError _) = CatAuth"
| "category_of (InternalError _ _) = CatInternal"
| "category_of (TimeoutError _ _) = CatTimeout"
| "category_of (CancelledError _) = CatCancelled"
| "category_of (NetworkError _ _ _) = CatNetwork"

text \<open>Decimal rendering of the number a template literal interpolates.\<close>

fun show_nat :: "nat \<Rightarrow> string" where
  "show_nat n = (if n < 10 then [char_of (48 + n)]
                 else show_nat (n div 10) @ [char_of (48 + n mod 10)])"

declare show_nat.simps [simp del]

definition show_int :: "int \<Rightarrow> string" where
  "show_int i = (if i < 0 then ''-'' @ show_nat (nat (- i)) else show_nat (nat i))"

definition quoted :: "string \<Rightarrow> string" where
  "quoted s = CHR 0x27 # s @ [CHR 0x27]"

fun error_message :: "signet_error \<Rightarrow> string" where
  "error_message (ValidationError field reason _) =
     ''Validation failed on '' @ quoted field @ '': '' @ reason"
| "error_message (SealError sealId reason) =
     ''Seal '' @ quoted sealId @ '': '' @ reason"
| "error_message (NotFoundError resourceType resourceId) =
     resourceType @ '' '' @ quoted resourceId @ '' not found''"
| "error_message (PermissionError m _) = m"
| "error_message (AuthError m _) = m"
| "error_message (CredentialExpiredError credentialId) =
     ''Credential '' @ quoted credentialId @ '' has expired''"
| "error_message (InternalError m _) = m"
| "error_message (TimeoutError operation timeoutMs) =
     ''Operation '' @ quoted operation @ '' timed out after ''
       @ show_int timeoutMs @ ''ms''"
| "error_message (CancelledError m) = m"
| "error_message (NetworkError endpoint reason _) =
     ''Network error reaching '' @ quoted endpoint @ '': '' @ reason"

text \<open>\<open>{...base, ...extra}\<close>: a key of \<open>extra\<close> overwrites the value and keeps the place.\<close>

definition spread :: "ctx \<Rightarrow> ctx \<Rightarrow> ctx" where
  "spread base extra = fold (\<lambda>(k, v) m. map_set k v m) extra base"

fun error_context :: "signet_error \<Rightarrow> ctx option" where
  "error_context (ValidationError field reason extra) =
     Some (spread [(''field'', CtxStr field), (''reason'', CtxStr reason)] extra)"
| "error_context (SealError sealId reason) =
     Some [(''sealId'', CtxStr sealId), (''reason'', CtxStr reason)]"
| "error_context (NotFoundError resourceType resourceId) =
     Some [(''resourceType'', CtxStr resourceType), (''resourceId'', CtxStr resourceId)]"
| "error_context (PermissionError _ c) = c"
| "error_context (AuthError _ c) = c"
| "error_context (CredentialExpiredError credentialId) =
     Some [(''credentialId'', CtxStr credentialId)]"
| "error_context (InternalError _ c) = c"
| "error_context (TimeoutError operation timeoutMs) =
     Some [(''operation'', CtxStr operation), (''timeoutMs'', CtxNum timeoutMs)]"
| "error_context (CancelledError _) = None"
| "error_context (NetworkError endpoint _ extra) =
     Some (spread [(''endpoint'', CtxStr endpoint)] extra)"

text \<open>\<open>matchError\<close> looks the handler up under the error's tag and applies it to the error.\<close>

definition matchError :: "signet_error \<Rightarrow> (string \<Rightarrow> signet_error \<Rightarrow> 'a) \<Rightarrow> 'a" where
  "matchError e handlers = handlers (error_tag e) e"

section \<open>Envelopes\<close>

record action_meta =
  am_requestId :: string
  am_timestamp :: int
  am_durationMs :: int

record pagination =
  pg_count :: nat
  pg_hasMore :: bool
  pg_nextCursor :: "string option"
  pg_total :: "nat option"

record action_error =
  ae_tag :: string
  ae_category :: error_category
  ae_message :: string
  ae_context :: "ctx option"

datatype 'a action_result =
  ActionOk 'a action_meta "pagination option"
| ActionFailed action_error action_meta

fun toActionResult :: "'a result \<Rightarrow> action_meta \<Rightarrow> pagination option \<Rightarrow> 'a action_result" where
  "toActionResult (Inr v) m pg = ActionOk v m pg"
| "toActionResult (Inl e) m pg =
     ActionFailed \<lparr>ae_tag = error_tag e, ae_category = category_of e,
                   ae_message = error_message e, ae_context = error_context e\<rparr> m"

record request_error =
  re_code :: int
  re_category :: error_category
  re_message :: string
  re_context :: "ctx option"

datatype 'a request_response =
  RequestSuccess string 'a
| RequestFailure string request_error

fun routeResponse :: "string \<Rightarrow> 'a result \<Rightarrow> 'a request_response" where
  "routeResponse requestId (Inr v) = RequestSuccess requestId v"
| "routeResponse requestId (Inl e) =
     RequestFailure requestId \<lparr>re_code = error_code e, re_category = category_of e,
                               re_message = error_message e, re_context = error_context e\<rparr>"

section \<open>Properties\<close>

text \<open>
  The numeric code a client receives determines the category (its hundreds), the error
  classes have pairwise different codes exactly when they have different tags, no two
  categories share an exit code, an HTTP status or a JSON-RPC code, and the retryable
  categories are the two that name a transient transport failure.
\<close>

theorem error_taxonomy_consistent:
  "(error_code e div 100 = error_code e' div 100 \<longleftrightarrow> category_of e = category_of e')
   \<and> (error_tag e = error_tag e' \<longleftrightarrow> error_code e = error_code e')
   \<and> inj (\<lambda>c. exitCode (errorCategoryMeta c))
   \<and> inj (\<lambda>c. statusCode (errorCategoryMeta c))
   \<and> inj (\<lambda>c. jsonRpcCode (errorCategoryMeta c))
   \<and> (retryable (errorCategoryMeta (category_of e)) \<longleftrightarrow>
        category_of e = CatTimeout \<or> category_of e = CatNetwork)"
proof (intro conjI)
  show "error_code e div 100 = error_code e' div 100 \<longleftrightarrow> category_of e = category_of e'"
    by (cases e; cases e'; simp)
  show "error_tag e = error_tag e' \<longleftrightarrow> error_code e = error_code e'"
    by (cases e; cases e'; simp)
  show "retryable (errorCategoryMeta (category_of e)) \<longleftrightarrow>
      category_of e = CatTimeout \<or> category_of e = CatNetwork"
    by (cases e; simp)
qed (rule injI; rename_tac x y; case_tac x; case_tac y; simp)+

end
