(* ===== verification/ResourceIds.thy ===== *)
theory ResourceIds
  imports Errors "HOL-Library.Word"
begin

text \<open>
  packages/schemas/src/resource-id.ts: prefixed resource identifiers, their schemas, the
  factory, the parser and the resolution of abbreviated identifiers. The eight random bytes
  of \<open>crypto.randomBytes\<close> are an argument of \<open>createResourceId\<close>.
\<close>

section \<open>Types and prefixes\<close>

datatype resource_type =
  RtOperator | RtInbox | RtConversation | RtPolicy | RtCredential | RtSeal | RtKey
| RtMessage | RtNetwork

fun RESOURCE_PREFIXES :: "resource_type \<Rightarrow> string" where
  "RESOURCE_PREFIXES RtOperator = ''op_''"
| "RESOURCE_PREFIXES RtInbox = ''inbox_''"
| "RESOURCE_PREFIXES RtConversation = ''conv_''"
| "RESOURCE_PREFIXES RtPolicy = ''policy_''"
| "RESOURCE_PREFIXES RtCredential = ''cred_''"
| "RESOURCE_PREFIXES RtSeal = ''seal_''"
| "RESOURCE_PREFIXES RtKey = ''key_''"
| "RESOURCE_PREFIXES RtMessage = ''msg_''"
| "RESOURCE_PREFIXES RtNetwork = ''xmtp_''"

text \<open>The loops over \<open>ALL_PREFIXES\<close> and the reverse lookup \<open>PREFIX_TO_TYPE\<close>: the types in
  the order of the object's keys, each with its prefix.\<close>

definition ALL_TYPES :: "resource_type list" where
  "ALL_TYPES = [RtOperator, RtInbox, RtConversation, RtPolicy, RtCredential, RtSeal, RtKey,
                RtMessage, RtNetwork]"

definition RESOURCE_ID_HEX_LENGTH :: nat where
  "RESOURCE_ID_HEX_LENGTH = 16"

definition is_hex_char :: "char \<Rightarrow> bool" where
  "is_hex_char c \<longleftrightarrow> c \<in> set ''0123456789abcdef''"

definition SHORT_ID_HEX :: "string \<Rightarrow> bool" where
  "SHORT_ID_HEX s \<longleftrightarrow> length s = RESOURCE_ID_HEX_LENGTH \<and> list_all is_hex_char s"

text \<open>\<open>createResourceIdSchema(prefix).safeParse(value).success\<close>\<close>

definition idSchema :: "resource_type \<Rightarrow> string \<Rightarrow> bool" where
  "idSchema t value =
     (if \<not> starts_with (RESOURCE_PREFIXES t) value then False
      else SHORT_ID_HEX (js_slice (length (RESOURCE_PREFIXES t)) value))"

definition anyResourceId :: "string \<Rightarrow> bool" where
  "anyResourceId value \<longleftrightarrow> list_ex (\<lambda>t. idSchema t value) ALL_TYPES"

section \<open>Factory and parser\<close>

definition hex_digit :: "nat \<Rightarrow> char" where
  "hex_digit n = ''0123456789abcdef'' ! n"

definition hex_byte :: "8 word \<Rightarrow> string" where
  "hex_byte b = [hex_digit (unat b div 16), hex_digit (unat b mod 16)]"

definition bytes_to_hex :: "8 word list \<Rightarrow> string" where
  "bytes_to_hex bs = concat (map hex_byte bs)"

definition createResourceId :: "resource_type \<Rightarrow> 8 word list \<Rightarrow> string" where
  "createResourceId t bytes = RESOURCE_PREFIXES t @ bytes_to_hex bytes"

record parsed_resource_id =
  pr_type :: resource_type
  pr_prefix :: string
  pr_shortId :: string
  pr_fullId :: string

fun parse_with :: "resource_type list \<Rightarrow> string \<Rightarrow> parsed_resource_id result" where
  "parse_with [] id' =
     Inl (ValidationError ''resourceId''
            (''Unrecognized resource ID prefix: '' @ CHR 0x22 # id' @ [CHR 0x22]) [])"
| "parse_with (t # ts) id' =
     (if starts_with (RESOURCE_PREFIXES t) id' then
        let shortId = js_slice (length (RESOURCE_PREFIXES t)) id' in
        if \<not> SHORT_ID_HEX shortId then
          Inl (ValidationError ''resourceId''
                 (''Resource IDs with prefix '' @ CHR 0x22 # RESOURCE_PREFIXES t
                  @ CHR 0x22 # '' must end with '' @ show_nat RESOURCE_ID_HEX_LENGTH
                  @ '' lowercase hex characters'')
                 [(''id'', CtxStr id'), (''prefix'', CtxStr (RESOURCE_PREFIXES t)),
                  (''shortId'', CtxStr shortId)])
        else Inr \<lparr>pr_type = t, pr_prefix = RESOURCE_PREFIXES t, pr_shortId = shortId,
                  pr_fullId = id'\<rparr>
      else parse_with ts id')"

definition parseResourceId :: "string \<Rightarrow> parsed_resource_id result" where
  "parseResourceId id' = parse_with ALL_TYPES id'"

section \<open>Short identifiers\<close>

fun extract_with :: "resource_type list \<Rightarrow> string \<Rightarrow> string option" where
  "extract_with [] id' = None"
| "extract_with (t # ts) id' =
     (if starts_with (RESOURCE_PREFIXES t) id' then
        let hex = js_slice (length (RESOURCE_PREFIXES t)) id' in
        (if SHORT_ID_HEX hex then Some hex else None)
      else extract_with ts id')"

definition extractHex :: "string \<Rightarrow> string option" where
  "extractHex id' = extract_with ALL_TYPES id'"

fun short_prefix :: "resource_type list \<Rightarrow> string \<Rightarrow> string option \<times> string" where
  "short_prefix [] shortId = (None, shortId)"
| "short_prefix (t # ts) shortId =
     (if starts_with (RESOURCE_PREFIXES t) shortId
      then (Some (RESOURCE_PREFIXES t), js_slice (length (RESOURCE_PREFIXES t)) shortId)
      else short_prefix ts shortId)"

definition short_match :: "string option \<Rightarrow> string \<Rightarrow> string \<Rightarrow> bool" where
  "short_match prefix hexPrefix candidate =
     (case prefix of
        Some p \<Rightarrow> (if \<not> starts_with p candidate then False
                   else (case extractHex candidate of
                           None \<Rightarrow> False | Some hex \<Rightarrow> starts_with hexPrefix hex))
      | None \<Rightarrow> (case extractHex candidate of
                   None \<Rightarrow> False | Some hex \<Rightarrow> starts_with hexPrefix hex))"

definition resolveShortId :: "string \<Rightarrow> string list \<Rightarrow> string result" where
  "resolveShortId shortId candidates =
     (if anyResourceId shortId then
        (if shortId \<in> set candidates then Inr shortId
         else Inl (NotFoundError ''resource'' shortId))
      else
        (case short_prefix ALL_TYPES shortId of (prefix, hexPrefix) \<Rightarrow>
           if hexPrefix = [] \<or> \<not> list_all is_hex_char hexPrefix then
             Inl (ValidationError ''shortId''
                    ''Short ID must be lowercase hex or a full resource ID''
                    [(''shortId'', CtxStr shortId)])
           else
             (case filter (short_match prefix hexPrefix) candidates of
                [] \<Rightarrow> Inl (NotFoundError ''resource'' shortId)
              | [m] \<Rightarrow> Inr m
              | m # m' # ms \<Rightarrow>
                  Inl (ValidationError ''shortId'' ''Ambiguous short ID''
                         [(''shortId'', CtxStr shortId),
                          (''suggestions'', CtxStrs (m # m' # ms))]))))"

section \<open>Lemmas\<close>

lemma hex_digit_in: "n < 16 \<Longrightarrow> is_hex_char (hex_digit n)"
  unfolding is_hex_char_def hex_digit_def by (rule nth_mem) simp

lemma hex_digit_inj: "m < 16 \<Longrightarrow> n < 16 \<Longrightarrow> hex_digit m = hex_digit n \<longleftrightarrow> m = n"
  unfolding hex_digit_def by (rule nth_eq_iff_index_eq) simp_all

lemma byte_digits: "unat (b :: 8 word) div 16 < 16" "unat b mod 16 < 16"
proof -
  have "unat b < 256" using unsigned_less [of b] by simp
  then show "unat b div 16 < 16" by simp
qed simp

lemma hex_byte_inj: "hex_byte a = hex_byte b \<longleftrightarrow> a = b"
proof
  assume "hex_byte a = hex_byte b"
  then have "unat a div 16 = unat b div 16" "unat a mod 16 = unat b mod 16"
    by (simp_all add: hex_byte_def hex_digit_inj byte_digits)
  then have "unat a = unat b" by (metis div_mult_mod_eq)
  then show "a = b" by (rule unsigned_word_eqI)
qed simp

lemma length_bytes_to_hex: "length (bytes_to_hex bs) = 2 * length bs"
  by (induction bs) (simp_all add: bytes_to_hex_def hex_byte_def)

lemma bytes_to_hex_hex: "list_all is_hex_char (bytes_to_hex bs)"
  by (induction bs) (simp_all add: bytes_to_hex_def hex_byte_def hex_digit_in byte_digits)

lemma bytes_to_hex_inj:
  "length as = length bs \<Longrightarrow> bytes_to_hex as = bytes_to_hex bs \<longleftrightarrow> as = bs"
proof (induction as bs rule: list_induct2)
  case Nil
  then show ?case by simp
next
  case (Cons a as b bs)
  have "bytes_to_hex (a # as) = bytes_to_hex (b # bs) \<longleftrightarrow>
      hex_byte a = hex_byte b \<and> bytes_to_hex as = bytes_to_hex bs"
    by (simp add: bytes_to_hex_def hex_byte_def)
  with Cons show ?case by (simp add: hex_byte_inj)
qed

lemma SHORT_ID_HEX_bytes: "length bs = 8 \<Longrightarrow> SHORT_ID_HEX (bytes_to_hex bs)"
  by (simp add: SHORT_ID_HEX_def RESOURCE_ID_HEX_LENGTH_def length_bytes_to_hex bytes_to_hex_hex)

text \<open>No prefix is a prefix of another: the first matching prefix is the only one.\<close>

lemma prefix_unique:
  "starts_with (RESOURCE_PREFIXES t) s \<Longrightarrow> starts_with (RESOURCE_PREFIXES u) s \<Longrightarrow> t = u"
  by (cases t; cases u) (auto simp: starts_with_iff)

lemma prefix_in_all [simp]: "t \<in> set ALL_TYPES"
  by (cases t) (simp_all add: ALL_TYPES_def)

lemma parse_with_prefix:
  "t \<in> set ts \<Longrightarrow> starts_with (RESOURCE_PREFIXES t) s \<Longrightarrow> parse_with ts s = parse_with [t] s"
proof (induction ts)
  case Nil
  then show ?case by simp
next
  case (Cons u ts)
  show ?case
  proof (cases "starts_with (RESOURCE_PREFIXES u) s")
    case True
    then have "u = t" using Cons.prems(2) by (rule prefix_unique)
    with True show ?thesis by simp
  next
    case False
    with Cons show ?thesis by auto
  qed
qed

lemma extract_with_prefix:
  "t \<in> set ts \<Longrightarrow> starts_with (RESOURCE_PREFIXES t) s \<Longrightarrow>
    extract_with ts s = extract_with [t] s"
proof (induction ts)
  case Nil
  then show ?case by simp
next
  case (Cons u ts)
  then show ?case by (cases "starts_with (RESOURCE_PREFIXES u) s") (auto dest: prefix_unique)
qed

lemma extract_with_Some:
  "extract_with ts s = Some hex \<Longrightarrow> \<exists>t. s = RESOURCE_PREFIXES t @ hex \<and> SHORT_ID_HEX hex"
  by (induction ts) (auto simp: Let_def dest: starts_with_split split: if_splits)

lemma extractHex_iff:
  "extractHex s = Some hex \<longleftrightarrow> (\<exists>t. s = RESOURCE_PREFIXES t @ hex \<and> SHORT_ID_HEX hex)"
proof
  show "extractHex s = Some hex \<Longrightarrow> \<exists>t. s = RESOURCE_PREFIXES t @ hex \<and> SHORT_ID_HEX hex"
    unfolding extractHex_def by (rule extract_with_Some)
next
  assume "\<exists>t. s = RESOURCE_PREFIXES t @ hex \<and> SHORT_ID_HEX hex"
  then obtain t where s: "s = RESOURCE_PREFIXES t @ hex" and h: "SHORT_ID_HEX hex" by blast
  then have "starts_with (RESOURCE_PREFIXES t) s" by simp
  from extract_with_prefix [OF prefix_in_all this] s h
  show "extractHex s = Some hex" by (simp add: extractHex_def)
qed

lemma idSchema_iff: "idSchema t s \<longleftrightarrow> (\<exists>hex. s = RESOURCE_PREFIXES t @ hex \<and> SHORT_ID_HEX hex)"
  unfolding idSchema_def starts_with_iff by auto

lemma anyResourceId_iff: "anyResourceId s \<longleftrightarrow> extractHex s \<noteq> None"
proof -
  have "anyResourceId s \<longleftrightarrow> (\<exists>t. idSchema t s)"
    using prefix_in_all by (auto simp: anyResourceId_def list_ex_iff)
  then show ?thesis by (metis extractHex_iff idSchema_iff not_Some_eq)
qed

section \<open>Properties\<close>

text \<open>
  The factory and the parser agree: an identifier made from a type and eight random bytes
  passes the schema of that type and of no other, parses back to that type with the hex
  digits of the bytes, and two such identifiers are equal only for the same type and bytes.
\<close>

theorem resource_id_roundtrip:
  assumes "length bytes = 8" and "length bytes' = 8"
  shows "parseResourceId (createResourceId t bytes) =
           Inr \<lparr>pr_type = t, pr_prefix = RESOURCE_PREFIXES t, pr_shortId = bytes_to_hex bytes,
                pr_fullId = createResourceId t bytes\<rparr>
         \<and> (idSchema u (createResourceId t bytes) \<longleftrightarrow> u = t)
         \<and> (createResourceId t bytes = createResourceId u bytes' \<longleftrightarrow> t = u \<and> bytes = bytes')"
proof (intro conjI)
  let ?id = "createResourceId t bytes"
  have sw: "starts_with (RESOURCE_PREFIXES t) ?id" by (simp add: createResourceId_def)
  show "parseResourceId ?id = Inr \<lparr>pr_type = t, pr_prefix = RESOURCE_PREFIXES t,
      pr_shortId = bytes_to_hex bytes, pr_fullId = ?id\<rparr>"
    using parse_with_prefix [OF prefix_in_all sw] SHORT_ID_HEX_bytes [OF assms(1)]
    by (simp add: parseResourceId_def createResourceId_def Let_def)
  show "idSchema u ?id \<longleftrightarrow> u = t"
    using SHORT_ID_HEX_bytes [OF assms(1)] prefix_unique [OF sw, of u]
    by (auto simp: idSchema_iff createResourceId_def)
  show "?id = createResourceId u bytes' \<longleftrightarrow> t = u \<and> bytes = bytes'"
    using assms prefix_unique [OF sw, of u]
    by (auto simp: createResourceId_def bytes_to_hex_inj)
qed

theorem resource_id_roundtrip_witness:
  "length [1, 2, 3, 4, 5, 6, 7, 255 :: 8 word] = 8 \<and>
   parseResourceId (createResourceId RtSeal [1, 2, 3, 4, 5, 6, 7, 255]) =
     Inr \<lparr>pr_type = RtSeal, pr_prefix = ''seal_'',
          pr_shortId = bytes_to_hex [1, 2, 3, 4, 5, 6, 7, 255],
          pr_fullId = createResourceId RtSeal [1, 2, 3, 4, 5, 6, 7, 255]\<rparr>"
  using resource_id_roundtrip [of "[1, 2, 3, 4, 5, 6, 7, 255]" "[1, 2, 3, 4, 5, 6, 7, 255]"
      RtSeal RtSeal] by simp

text \<open>
  What it means for a short identifier to abbreviate a full one: a non-empty prefix of its
  hex digits, given alone or behind the identifier's own type prefix.
\<close>

definition abbreviates :: "string \<Rightarrow> string \<Rightarrow> bool" where
  "abbreviates s full \<longleftrightarrow> (\<exists>t digits rest.
     full = RESOURCE_PREFIXES t @ digits @ rest \<and> SHORT_ID_HEX (digits @ rest) \<and> digits \<noteq> []
     \<and> (s = digits \<or> s = RESOURCE_PREFIXES t @ digits))"

lemma prefix_not_hex: "\<not> list_all is_hex_char (RESOURCE_PREFIXES t @ s)"
  by (cases t) (simp_all add: is_hex_char_def)

lemma short_prefix_Some:
  "t \<in> set ts \<Longrightarrow> starts_with (RESOURCE_PREFIXES t) s \<Longrightarrow>
    short_prefix ts s = (Some (RESOURCE_PREFIXES t), js_slice (length (RESOURCE_PREFIXES t)) s)"
proof (induction ts)
  case Nil
  then show ?case by simp
next
  case (Cons u ts)
  then show ?case by (cases "starts_with (RESOURCE_PREFIXES u) s") (auto dest: prefix_unique)
qed

lemma short_prefix_None:
  "(\<And>t. \<not> starts_with (RESOURCE_PREFIXES t) s) \<Longrightarrow> short_prefix ts s = (None, s)"
  by (induction ts) auto

lemma abbreviates_prefixed:
  "abbreviates (RESOURCE_PREFIXES t @ d) c \<longleftrightarrow>
     d \<noteq> [] \<and> short_match (Some (RESOURCE_PREFIXES t)) d c" (is "?L \<longleftrightarrow> ?R")
proof
  assume ?L
  then obtain u e rest where c: "c = RESOURCE_PREFIXES u @ e @ rest"
    and h: "SHORT_ID_HEX (e @ rest)" "e \<noteq> []"
    and s: "RESOURCE_PREFIXES t @ d = e \<or> RESOURCE_PREFIXES t @ d = RESOURCE_PREFIXES u @ e"
    by (auto simp: abbreviates_def)
  from h(1) have "list_all is_hex_char e" by (simp add: SHORT_ID_HEX_def)
  with s have eq: "RESOURCE_PREFIXES t @ d = RESOURCE_PREFIXES u @ e"
    using prefix_not_hex by metis
  then have "t = u" using prefix_unique starts_with_append by metis
  with eq c h extractHex_iff [of c "e @ rest"] show ?R by (auto simp: short_match_def)
next
  assume ?R
  then obtain hex rest where sw: "starts_with (RESOURCE_PREFIXES t) c" "extractHex c = Some hex"
    and d: "d \<noteq> []" "hex = d @ rest"
    by (auto simp: short_match_def starts_with_iff split: if_splits option.splits)
  from sw(2) obtain u where c: "c = RESOURCE_PREFIXES u @ hex" "SHORT_ID_HEX hex"
    by (auto simp: extractHex_iff)
  with sw(1) have "u = t" using prefix_unique starts_with_append by metis
  with c d show ?L unfolding abbreviates_def by blast
qed

lemma abbreviates_bare:
  assumes "\<And>t. \<not> starts_with (RESOURCE_PREFIXES t) s"
  shows "abbreviates s c \<longleftrightarrow> s \<noteq> [] \<and> short_match None s c" (is "?L \<longleftrightarrow> ?R")
proof
  from assms have ns: "s \<noteq> RESOURCE_PREFIXES t @ d" for t d by (metis starts_with_append)
  assume ?L
  with ns show ?R
    by (auto simp: abbreviates_def short_match_def extractHex_iff [THEN iffD2, OF exI, OF conjI])
next
  assume ?R
  then obtain hex rest where "extractHex c = Some hex" "s \<noteq> []" "hex = s @ rest"
    by (auto simp: short_match_def starts_with_iff split: option.splits)
  then show ?L unfolding abbreviates_def extractHex_iff by blast
qed

lemma abbreviates_hex:
  "abbreviates s c \<Longrightarrow> short_prefix ALL_TYPES s = (p, d) \<Longrightarrow> d \<noteq> [] \<and> list_all is_hex_char d"
proof (cases "\<exists>t. starts_with (RESOURCE_PREFIXES t) s")
  case True
  assume a: "abbreviates s c" and sp: "short_prefix ALL_TYPES s = (p, d)"
  from True obtain t where t: "starts_with (RESOURCE_PREFIXES t) s" by blast
  with short_prefix_Some [OF prefix_in_all t] sp have s: "s = RESOURCE_PREFIXES t @ d"
    by (auto dest: starts_with_split)
  with a have "d \<noteq> [] \<and> short_match (Some (RESOURCE_PREFIXES t)) d c"
    by (simp add: abbreviates_prefixed)
  then show ?thesis
    by (auto simp: short_match_def extractHex_iff starts_with_iff SHORT_ID_HEX_def
        split: if_splits option.splits)
next
  case False
  assume a: "abbreviates s c" and "short_prefix ALL_TYPES s = (p, d)"
  with False short_prefix_None [of s] have d: "d = s" by auto
  from False have "s \<noteq> RESOURCE_PREFIXES t @ e" for t e by (metis starts_with_append)
  with a d show ?thesis
    by (auto simp: abbreviates_def SHORT_ID_HEX_def)
qed

lemma short_match_abbreviates:
  assumes "short_prefix ALL_TYPES s = (p, d)" and "d \<noteq> []"
  shows "short_match p d c \<longleftrightarrow> abbreviates s c"
proof (cases "\<exists>t. starts_with (RESOURCE_PREFIXES t) s")
  case True
  then obtain t where t: "starts_with (RESOURCE_PREFIXES t) s" by blast
  with short_prefix_Some [OF prefix_in_all t] assms
  have "s = RESOURCE_PREFIXES t @ d" "p = Some (RESOURCE_PREFIXES t)"
    by (auto dest: starts_with_split)
  with assms(2) show ?thesis by (simp add: abbreviates_prefixed)
next
  case False
  with short_prefix_None [of s] assms show ?thesis by (auto simp: abbreviates_bare)
qed

text \<open>
  C33. Short-identifier resolution is sound, complete and never guesses: a full identifier
  resolves to itself exactly when it is a candidate, and any other string resolves to \<open>r\<close>
  exactly when one entry of the candidate list, \<open>r\<close>, is abbreviated by it.
\<close>

theorem resolveShortId_iff:
  "resolveShortId s candidates = Inr r \<longleftrightarrow>
     (if anyResourceId s then r = s \<and> r \<in> set candidates
      else filter (abbreviates s) candidates = [r])"
proof (cases "anyResourceId s")
  case True
  then show ?thesis by (auto simp: resolveShortId_def)
next
  case False
  obtain p d where sp: "short_prefix ALL_TYPES s = (p, d)" by (cases "short_prefix ALL_TYPES s")
  show ?thesis
  proof (cases "d = [] \<or> \<not> list_all is_hex_char d")
    case True
    with sp abbreviates_hex have "\<not> abbreviates s c" for c by blast
    then have "filter (abbreviates s) candidates = []" by (simp add: filter_empty_conv)
    with False sp True show ?thesis by (simp add: resolveShortId_def)
  next
    case valid: False
    with sp have "filter (short_match p d) candidates = filter (abbreviates s) candidates"
      by (intro filter_cong) (simp_all add: short_match_abbreviates)
    with False sp valid show ?thesis
      by (simp add: resolveShortId_def split: list.splits)
  qed
qed

end
