(* ===== verification/Scopes.thy ===== *)
theory Scopes
  imports ResourceIds
begin

text \<open>
  packages/schemas/src/permission-scopes.ts and policy.ts: the thirty permission scopes,
  their six categories, allow/deny scope sets with deny-wins resolution, and the merge of a
  reusable policy with inline overrides. A scope is a constructor; \<open>scope_name\<close> is its wire
  string and \<open>parse_scope\<close> the enumeration's \<open>safeParse\<close>.
\<close>

section \<open>Scopes and categories\<close>

datatype scope_category =
  CatMessaging | CatGroupManagement | CatMetadata | CatAccess | CatObservation | CatEgress

datatype permission_scope =
  ScSend | ScReply | ScReact | ScReadReceipt | ScAttachment | ScAddMember |
  ScRemoveMember | ScPromoteAdmin | ScDemoteAdmin | ScUpdatePermission | ScUpdateName |
  ScUpdateDescription | ScUpdateImage | ScInvite | ScJoin | ScLeave | ScCreateGroup |
  ScCreateDm | ScReadMessages | ScReadHistory | ScListMembers | ScListConversations |
  ScReadPermissions | ScStreamMessages | ScStreamConversations | ScForwardToProvider |
  ScStoreExcerpts | ScUseForMemory | ScQuoteRevealed | ScSummarize

fun scope_name :: "permission_scope \<Rightarrow> string" where
  "scope_name ScSend = ''send''"
| "scope_name ScReply = ''reply''"
| "scope_name ScReact = ''react''"
| "scope_name ScReadReceipt = ''read-receipt''"
| "scope_name ScAttachment = ''attachment''"
| "scope_name ScAddMember = ''add-member''"
| "scope_name ScRemoveMember = ''remove-member''"
| "scope_name ScPromoteAdmin = ''promote-admin''"
| "scope_name ScDemoteAdmin = ''demote-admin''"
| "scope_name ScUpdatePermission = ''update-permission''"
| "scope_name ScUpdateName = ''update-name''"
| "scope_name ScUpdateDescription = ''update-description''"
| "scope_name ScUpdateImage = ''update-image''"
| "scope_name ScInvite = ''invite''"
| "scope_name ScJoin = ''join''"
| "scope_name ScLeave = ''leave''"
| "scope_name ScCreateGroup = ''create-group''"
| "scope_name ScCreateDm = ''create-dm''"
| "scope_name ScReadMessages = ''read-messages''"
| "scope_name ScReadHistory = ''read-history''"
| "scope_name ScListMembers = ''list-members''"
| "scope_name ScListConversations = ''list-conversations''"
| "scope_name ScReadPermissions = ''read-permissions''"
| "scope_name ScStreamMessages = ''stream-messages''"
| "scope_name ScStreamConversations = ''stream-conversations''"
| "scope_name ScForwardToProvider = ''forward-to-provider''"
| "scope_name ScStoreExcerpts = ''store-excerpts''"
| "scope_name ScUseForMemory = ''use-for-memory''"
| "scope_name ScQuoteRevealed = ''quote-revealed''"
| "scope_name ScSummarize = ''summarize''"

definition PERMISSION_SCOPE_VALUES :: "permission_scope list" where
  "PERMISSION_SCOPE_VALUES =
    [ScSend, ScReply, ScReact, ScReadReceipt, ScAttachment, ScAddMember,
     ScRemoveMember, ScPromoteAdmin, ScDemoteAdmin, ScUpdatePermission, ScUpdateName,
     ScUpdateDescription, ScUpdateImage, ScInvite, ScJoin, ScLeave, ScCreateGroup,
     ScCreateDm, ScReadMessages, ScReadHistory, ScListMembers, ScListConversations,
     ScReadPermissions, ScStreamMessages, ScStreamConversations, ScForwardToProvider,
     ScStoreExcerpts, ScUseForMemory, ScQuoteRevealed, ScSummarize]"

fun SCOPES_BY_CATEGORY :: "scope_category \<Rightarrow> permission_scope list" where
  "SCOPES_BY_CATEGORY CatMessaging =
     [ScSend, ScReply, ScReact, ScReadReceipt, ScAttachment]"
| "SCOPES_BY_CATEGORY CatGroupManagement =
     [ScAddMember, ScRemoveMember, ScPromoteAdmin, ScDemoteAdmin, ScUpdatePermission]"
| "SCOPES_BY_CATEGORY CatMetadata =
     [ScUpdateName, ScUpdateDescription, ScUpdateImage]"
| "SCOPES_BY_CATEGORY CatAccess =
     [ScInvite, ScJoin, ScLeave, ScCreateGroup, ScCreateDm]"
| "SCOPES_BY_CATEGORY CatObservation =
     [ScReadMessages, ScReadHistory, ScListMembers, ScListConversations,
      ScReadPermissions, ScStreamMessages, ScStreamConversations]"
| "SCOPES_BY_CATEGORY CatEgress =
     [ScForwardToProvider, ScStoreExcerpts, ScUseForMemory, ScQuoteRevealed,
      ScSummarize]"

definition parse_scope :: "string \<Rightarrow> permission_scope option" where
  "parse_scope s = find_first (\<lambda>p. scope_name p = s) PERMISSION_SCOPE_VALUES"

definition isScopeInCategory :: "permission_scope \<Rightarrow> scope_category \<Rightarrow> bool" where
  "isScopeInCategory scope category \<longleftrightarrow> scope \<in> set (SCOPES_BY_CATEGORY category)"

lemma scope_name_inject [simp]: "scope_name s = scope_name t \<longleftrightarrow> s = t"
  by (cases s; cases t; simp)

lemma scope_in_values [simp]: "s \<in> set PERMISSION_SCOPE_VALUES"
  by (cases s) (simp_all add: PERMISSION_SCOPE_VALUES_def)

text \<open>Scopes compare as their wire strings, which is how the code sorts and compares them.\<close>

instantiation permission_scope :: linorder
begin

definition less_eq_permission_scope :: "permission_scope \<Rightarrow> permission_scope \<Rightarrow> bool" where
  "s \<le> t \<longleftrightarrow> scope_name s \<le> scope_name t"

definition less_permission_scope :: "permission_scope \<Rightarrow> permission_scope \<Rightarrow> bool" where
  "s < t \<longleftrightarrow> scope_name s < scope_name t"

instance
  by intro_classes (auto simp: less_eq_permission_scope_def less_permission_scope_def less_le not_le)

end

section \<open>Scope sets\<close>

record scope_set =
  allow :: "permission_scope list"
  deny :: "permission_scope list"

text \<open>
  The resolved set is a JavaScript \<open>Set\<close> in the order of the allow list; the loop adds a
  scope unless it is denied.
\<close>

fun resolve_loop ::
  "permission_scope list \<Rightarrow> permission_scope list \<Rightarrow> permission_scope list \<Rightarrow>
   permission_scope list" where
  "resolve_loop denied acc [] = acc"
| "resolve_loop denied acc (scope # rest) =
     (if scope \<notin> set denied
      then resolve_loop denied (if scope \<in> set acc then acc else acc @ [scope]) rest
      else resolve_loop denied acc rest)"

definition resolveScopeSet :: "scope_set \<Rightarrow> permission_scope list" where
  "resolveScopeSet scopeSet = resolve_loop (set_from (deny scopeSet)) [] (allow scopeSet)"

definition isScopeAllowed :: "permission_scope \<Rightarrow> permission_scope list \<Rightarrow> bool" where
  "isScopeAllowed scope resolved \<longleftrightarrow> scope \<in> set resolved"

text \<open>What a scope set permits.\<close>

definition effective :: "scope_set \<Rightarrow> permission_scope set" where
  "effective s = set (allow s) - set (deny s)"

lemma resolve_loop_set:
  "set (resolve_loop denied acc xs) = set acc \<union> (set xs - set denied)"
  by (induction xs arbitrary: acc) auto

lemma resolve_loop_distinct: "distinct acc \<Longrightarrow> distinct (resolve_loop denied acc xs)"
  by (induction xs arbitrary: acc) auto

lemma resolveScopeSet_set [simp]: "set (resolveScopeSet s) = effective s"
  by (simp add: resolveScopeSet_def resolve_loop_set effective_def)

lemma resolveScopeSet_distinct [simp]: "distinct (resolveScopeSet s)"
  by (simp add: resolveScopeSet_def resolve_loop_distinct)

section \<open>Policies\<close>

record policy_config =
  pc_label :: string
  pc_allow :: "permission_scope list"
  pc_deny :: "permission_scope list"

record policy_record =
  pol_id :: string
  pol_config :: policy_config
  pol_createdAt :: int
  pol_updatedAt :: int

definition resolvePolicy ::
  "policy_config \<Rightarrow> permission_scope list option \<Rightarrow> permission_scope list option \<Rightarrow> scope_set" where
  "resolvePolicy policy inlineAllow inlineDeny =
     \<lparr>allow = pc_allow policy @ (case inlineAllow of None \<Rightarrow> [] | Some a \<Rightarrow> a),
      deny = pc_deny policy @ (case inlineDeny of None \<Rightarrow> [] | Some d \<Rightarrow> d)\<rparr>"

lemma effective_resolvePolicy:
  "effective (resolvePolicy p ia id') =
     (set (pc_allow p) \<union> (case ia of None \<Rightarrow> {} | Some a \<Rightarrow> set a))
     - (set (pc_deny p) \<union> (case id' of None \<Rightarrow> {} | Some d \<Rightarrow> set d))"
  by (auto simp: effective_def resolvePolicy_def split: option.splits)

section \<open>Properties\<close>

text \<open>
  The scope vocabulary is closed and partitioned: the wire string of every scope parses
  back to it and nothing else parses, and every scope lies in exactly one category.
\<close>

theorem scope_vocabulary:
  "parse_scope (scope_name s) = Some s
   \<and> (parse_scope w = Some s \<longleftrightarrow> w = scope_name s)
   \<and> (\<exists>!c. isScopeInCategory s c)
   \<and> distinct PERMISSION_SCOPE_VALUES \<and> length PERMISSION_SCOPE_VALUES = 30"
proof (intro conjI)
  have ff: "find_first (\<lambda>p. scope_name p = scope_name s) xs = (if s \<in> set xs then Some s else None)"
    for xs by (induction xs) auto
  then show 1: "parse_scope (scope_name s) = Some s" by (simp add: parse_scope_def)
  show "parse_scope w = Some s \<longleftrightarrow> w = scope_name s"
    using 1 by (auto simp: parse_scope_def dest: find_first_SomeD)
  show "\<exists>!c. isScopeInCategory s c"
  proof (rule ex_ex1I)
    show "\<exists>c. isScopeInCategory s c"
      by (cases s) (simp_all add: isScopeInCategory_def,
          (rule exI [of _ CatMessaging], simp; fail | rule exI [of _ CatGroupManagement], simp; fail
           | rule exI [of _ CatMetadata], simp; fail | rule exI [of _ CatAccess], simp; fail
           | rule exI [of _ CatObservation], simp; fail | rule exI [of _ CatEgress], simp; fail)+)
    show "c = d" if "isScopeInCategory s c" "isScopeInCategory s d" for c d
      using that by (cases c; cases d; auto simp: isScopeInCategory_def)
  qed
  show "distinct PERMISSION_SCOPE_VALUES" "length PERMISSION_SCOPE_VALUES = 30"
    by (simp_all add: PERMISSION_SCOPE_VALUES_def)
qed

text \<open>
  Deny always wins, also through a policy: a scope resolved from a policy merged with
  inline overrides is allowed exactly when the policy or the inline list allows it and
  neither denies it, and adding denials can only shrink what is resolved.
\<close>

theorem deny_wins:
  "(isScopeAllowed s (resolveScopeSet (resolvePolicy p (Some ia) (Some di))) \<longleftrightarrow>
      (s \<in> set (pc_allow p) \<or> s \<in> set ia) \<and> s \<notin> set (pc_deny p) \<and> s \<notin> set di)
   \<and> set (resolveScopeSet (resolvePolicy p (Some ia) (Some (di @ extra))))
       \<subseteq> set (resolveScopeSet (resolvePolicy p (Some ia) (Some di)))"
  by (auto simp: isScopeAllowed_def effective_resolvePolicy)

end
