(* ===== verification/PolicyEngine.thy ===== *)
theory PolicyEngine
  imports Scopes
begin

text \<open>
  packages/policy: the effective content-type allowlist, the permission validators of
  outbound requests, the projection pipeline for inbound messages, the materiality of a
  policy delta and the scope guard. Decoded message content is a type variable; the wire
  strings of scopes, chats and content types are strings, and a \<open>ReadonlySet\<close> is the list
  of its elements.
\<close>

section \<open>Effective content-type allowlist\<close>

definition BASELINE_CONTENT_TYPES :: "string list" where
  "BASELINE_CONTENT_TYPES =
    [''xmtp.org/text:1.0'', ''xmtp.org/reaction:1.0'', ''xmtp.org/reply:1.0'',
     ''xmtp.org/readReceipt:1.0'', ''xmtp.org/groupUpdated:1.0'']"

fun allowlist_loop ::
  "string list \<Rightarrow> string list \<Rightarrow> string list \<Rightarrow> string list \<Rightarrow> string list" where
  "allowlist_loop baselineSet signetSet acc [] = acc"
| "allowlist_loop baselineSet signetSet acc (ct # rest) =
     (if ct \<in> set baselineSet \<and> ct \<in> set signetSet
      then allowlist_loop baselineSet signetSet (if ct \<in> set acc then acc else acc @ [ct]) rest
      else allowlist_loop baselineSet signetSet acc rest)"

definition resolveEffectiveAllowlist ::
  "string list \<Rightarrow> string list \<Rightarrow> string list \<Rightarrow> string list result" where
  "resolveEffectiveAllowlist baseline signetAllowlist agentAllowlist =
     (let effective = allowlist_loop (set_from baseline) signetAllowlist [] agentAllowlist in
      if length effective = 0
      then Inl (ValidationError ''contentTypes''
             ''Effective content type allowlist is empty: no types are permitted across baseline, signet, and agent allowlists''
             [])
      else Inr effective)"

lemma allowlist_loop_set:
  "set (allowlist_loop b s acc xs) = set acc \<union> (set xs \<inter> set b \<inter> set s)"
  by (induction xs arbitrary: acc) auto

section \<open>Permission validators\<close>

record send_validation =
  draftOnly :: bool

definition denied :: "string \<Rightarrow> signet_error" where
  "denied scope = PermissionError (''Permission denied: '' @ scope)
                    (Some [(''scope'', CtxStr scope)])"

definition checkChatInScope :: "string \<Rightarrow> string list \<Rightarrow> unit result" where
  "checkChatInScope chatId chatIds =
     (if chatId \<notin> set chatIds
      then Inl (PermissionError
             (''Chat '' @ quoted chatId @ '' is not in the credential'' @ [CHR 0x27]
              @ ''s scoped conversations'')
             (Some [(''chatId'', CtxStr chatId)]))
      else Inr ())"

definition validateSendMessage ::
  "string \<Rightarrow> string list \<Rightarrow> string list \<Rightarrow> send_validation result" where
  "validateSendMessage groupId scopes chatIds =
     (case checkChatInScope groupId chatIds of
        Inl e \<Rightarrow> Inl e
      | Inr _ \<Rightarrow> if ''send'' \<notin> set scopes then Inl (denied ''send'')
                 else Inr \<lparr>draftOnly = False\<rparr>)"

definition validateSendReply :: "string \<Rightarrow> string list \<Rightarrow> string list \<Rightarrow> unit result" where
  "validateSendReply groupId scopes chatIds =
     (case checkChatInScope groupId chatIds of
        Inl e \<Rightarrow> Inl e
      | Inr _ \<Rightarrow> if ''reply'' \<notin> set scopes then Inl (denied ''reply'') else Inr ())"

definition validateSendReaction :: "string \<Rightarrow> string list \<Rightarrow> string list \<Rightarrow> unit result" where
  "validateSendReaction groupId scopes chatIds =
     (case checkChatInScope groupId chatIds of
        Inl e \<Rightarrow> Inl e
      | Inr _ \<Rightarrow> if ''react'' \<notin> set scopes then Inl (denied ''react'') else Inr ())"

definition validateGroupManagement ::
  "string \<Rightarrow> string \<Rightarrow> string list \<Rightarrow> string list \<Rightarrow> unit result" where
  "validateGroupManagement scope groupId scopes chatIds =
     (case checkChatInScope groupId chatIds of
        Inl e \<Rightarrow> Inl e
      | Inr _ \<Rightarrow> if scope \<notin> set scopes then Inl (denied scope) else Inr ())"

definition validateEgress :: "string \<Rightarrow> string list \<Rightarrow> unit result" where
  "validateEgress scope scopes =
     (if scope \<notin> set scopes then Inl (denied scope) else Inr ())"

text \<open>The contract the validators of chat-scoped requests share.\<close>

locale chat_validator =
  fixes validate :: "string \<Rightarrow> string list \<Rightarrow> string list \<Rightarrow> 'a result"
    and needed :: string
  assumes accepts: "groupId \<in> set chatIds \<Longrightarrow> needed \<in> set scopes \<Longrightarrow>
      \<exists>v. validate groupId scopes chatIds = Inr v"
    and out_of_chat: "groupId \<notin> set chatIds \<Longrightarrow>
      \<exists>m. validate groupId scopes chatIds = Inl (PermissionError m (Some [(''chatId'', CtxStr groupId)]))"
    and out_of_scope: "groupId \<in> set chatIds \<Longrightarrow> needed \<notin> set scopes \<Longrightarrow>
      validate groupId scopes chatIds = Inl (denied needed)"
begin

lemma accepts_iff:
  "(\<exists>v. validate g scopes chatIds = Inr v) \<longleftrightarrow> g \<in> set chatIds \<and> needed \<in> set scopes"
  using accepts [of g chatIds scopes] out_of_chat [of g chatIds scopes]
    out_of_scope [of g chatIds scopes] by force

lemma refuses_as_permission:
  "validate g scopes chatIds = Inl e \<Longrightarrow> category_of e = CatPermission"
  using accepts [of g chatIds scopes] out_of_chat [of g chatIds scopes]
    out_of_scope [of g chatIds scopes]
  by (cases "g \<in> set chatIds"; cases "needed \<in> set scopes") (auto simp: denied_def)

lemma grows:
  assumes "validate g scopes chatIds = Inr v"
    and "set scopes \<subseteq> set scopes'" and "set chatIds \<subseteq> set chatIds'"
  shows "\<exists>v'. validate g scopes' chatIds' = Inr v'"
proof -
  from assms(1) have "g \<in> set chatIds \<and> needed \<in> set scopes" using accepts_iff by blast
  with assms(2,3) show ?thesis using accepts_iff by blast
qed

end

lemmas validator_defs = validateSendMessage_def validateSendReply_def validateSendReaction_def
  validateGroupManagement_def checkChatInScope_def

interpretation send_v: chat_validator validateSendMessage "''send''"
  by unfold_locales (auto simp: validator_defs)

interpretation reply_v: chat_validator validateSendReply "''reply''"
  by unfold_locales (auto simp: validator_defs)

interpretation react_v: chat_validator validateSendReaction "''react''"
  by unfold_locales (auto simp: validator_defs)

interpretation group_v: chat_validator "validateGroupManagement scope" scope for scope
  by unfold_locales (auto simp: validator_defs)

section \<open>Projection pipeline\<close>

datatype visibility = VVisible | VHistorical | VHidden | VRevealed | VRedacted

record 'c raw_message =
  rm_messageId :: string
  rm_groupId :: string
  rm_senderInboxId :: string
  rm_contentType :: string
  rm_content :: 'c
  rm_sentAt :: string
  rm_threadId :: "string option"
  rm_sealId :: "string option"
  rm_isHistorical :: "bool option"

record 'c message_event =
  me_messageId :: string
  me_groupId :: string
  me_senderInboxId :: string
  me_contentType :: string
  me_content :: "'c option"
  me_visibility :: visibility
  me_sentAt :: string
  me_sealId :: "string option"
  me_threadId :: "string option"

datatype 'c projection = Emit "'c message_event" | Drop

definition isInScope :: "'c raw_message \<Rightarrow> string list \<Rightarrow> bool" where
  "isInScope message chatIds \<longleftrightarrow> rm_groupId message \<in> set chatIds"

definition isContentTypeAllowed :: "string \<Rightarrow> string list \<Rightarrow> bool" where
  "isContentTypeAllowed contentType allowlist \<longleftrightarrow> contentType \<in> set allowlist"

definition resolveVisibility :: "string list \<Rightarrow> bool \<Rightarrow> visibility" where
  "resolveVisibility scopes isRevealed =
     (if ''read-messages'' \<in> set scopes then VVisible
      else if isRevealed then VRevealed else VHidden)"

text \<open>A replaced content is \<open>null\<close>, here \<open>None\<close>.\<close>

fun projectContent :: "'c \<Rightarrow> string \<Rightarrow> visibility \<Rightarrow> 'c option" where
  "projectContent content contentType VVisible = Some content"
| "projectContent content contentType VHistorical = Some content"
| "projectContent content contentType VRevealed = Some content"
| "projectContent content contentType VRedacted = None"
| "projectContent content contentType VHidden = None"

definition projectMessage ::
  "'c raw_message \<Rightarrow> string list \<Rightarrow> string list \<Rightarrow> string list \<Rightarrow> bool \<Rightarrow> 'c projection" where
  "projectMessage message scopes chatIds effectiveAllowlist isRevealed =
     (if \<not> isInScope message chatIds then Drop
      else if \<not> isContentTypeAllowed (rm_contentType message) effectiveAllowlist then Drop
      else
        let baseVisibility = resolveVisibility scopes isRevealed in
        if baseVisibility = VHidden then Drop
        else if rm_isHistorical message = Some True \<and> ''read-history'' \<notin> set scopes then Drop
        else
          let visibility =
                (if rm_isHistorical message = Some True \<and> baseVisibility = VVisible
                 then VHistorical else baseVisibility);
              content = projectContent (rm_content message) (rm_contentType message) visibility
          in Emit \<lparr>me_messageId = rm_messageId message, me_groupId = rm_groupId message,
                   me_senderInboxId = rm_senderInboxId message,
                   me_contentType = rm_contentType message, me_content = content,
                   me_visibility = visibility, me_sentAt = rm_sentAt message,
                   me_sealId = rm_sealId message, me_threadId = rm_threadId message\<rparr>)"

text \<open>The abstract view: who may read a message at all.\<close>

definition may_read ::
  "'c raw_message \<Rightarrow> string list \<Rightarrow> string list \<Rightarrow> string list \<Rightarrow> bool \<Rightarrow> bool" where
  "may_read m scopes chatIds types revealed \<longleftrightarrow>
     rm_groupId m \<in> set chatIds \<and> rm_contentType m \<in> set types
     \<and> (''read-messages'' \<in> set scopes \<or> revealed)
     \<and> (rm_isHistorical m = Some True \<longrightarrow> ''read-history'' \<in> set scopes)"

lemma projectMessage_emits:
  "projectMessage m scopes chatIds types revealed = Emit e \<longleftrightarrow>
     may_read m scopes chatIds types revealed \<and>
     e = \<lparr>me_messageId = rm_messageId m, me_groupId = rm_groupId m,
          me_senderInboxId = rm_senderInboxId m, me_contentType = rm_contentType m,
          me_content = Some (rm_content m),
          me_visibility = (if ''read-messages'' \<notin> set scopes then VRevealed
                           else if rm_isHistorical m = Some True then VHistorical else VVisible),
          me_sentAt = rm_sentAt m, me_sealId = rm_sealId m, me_threadId = rm_threadId m\<rparr>"
  by (auto simp: projectMessage_def may_read_def isInScope_def isContentTypeAllowed_def
      resolveVisibility_def Let_def)

section \<open>Policy deltas and their materiality\<close>

datatype grant = GAllow | GDeny

record scope_change =
  ch_scope :: permission_scope
  ch_from :: grant
  ch_to :: grant

record policy_delta =
  added :: "permission_scope list"
  removed :: "permission_scope list"
  changed :: "scope_change list"

datatype delta_arg = SingleDelta policy_delta | ManyDeltas "policy_delta list"

fun normalizeDeltas :: "delta_arg \<Rightarrow> policy_delta list" where
  "normalizeDeltas (ManyDeltas ds) = ds"
| "normalizeDeltas (SingleDelta d) = [d]"

definition isSingleDeltaMaterial :: "policy_delta \<Rightarrow> bool" where
  "isSingleDeltaMaterial d \<longleftrightarrow>
     length (added d) > 0 \<or> length (removed d) > 0 \<or> length (changed d) > 0"

definition isMaterialChange :: "delta_arg \<Rightarrow> bool" where
  "isMaterialChange ds \<longleftrightarrow> list_ex isSingleDeltaMaterial (normalizeDeltas ds)"

definition isSingleDeltaEscalation :: "policy_delta \<Rightarrow> bool" where
  "isSingleDeltaEscalation d \<longleftrightarrow>
     length (added d) > 0 \<or> list_ex (\<lambda>change. ch_to change = GAllow) (changed d)"

definition requiresReauthorization :: "delta_arg \<Rightarrow> bool" where
  "requiresReauthorization ds \<longleftrightarrow> list_ex isSingleDeltaEscalation (normalizeDeltas ds)"

section \<open>Scope guard\<close>

text \<open>The credential lookup behind the guard is its argument, as in the code.\<close>

definition scope_guard_check ::
  "(string \<Rightarrow> scope_set result) \<Rightarrow> permission_scope \<Rightarrow> string \<Rightarrow> bool result" where
  "scope_guard_check lookup scope credentialId =
     (case lookup credentialId of
        Inl e \<Rightarrow> Inl e
      | Inr scopes \<Rightarrow> Inr (scope \<in> set (resolveScopeSet scopes)))"

definition scope_guard_effectiveScopes ::
  "(string \<Rightarrow> scope_set result) \<Rightarrow> string \<Rightarrow> scope_set result" where
  "scope_guard_effectiveScopes lookup credentialId = lookup credentialId"

section \<open>Properties\<close>

text \<open>
  The effective allowlist is exactly the intersection of the baseline, signet and agent
  lists, without duplicates, and an empty intersection is refused rather than returned.
\<close>

theorem effective_allowlist_is_intersection:
  "(resolveEffectiveAllowlist baseline signet agent = Inr types \<longrightarrow>
      set types = set baseline \<inter> set signet \<inter> set agent \<and> types \<noteq> [])
   \<and> ((\<exists>e. resolveEffectiveAllowlist baseline signet agent = Inl e) \<longleftrightarrow>
      set baseline \<inter> set signet \<inter> set agent = {})"
proof -
  let ?l = "allowlist_loop (set_from baseline) signet [] agent"
  have s: "set ?l = set baseline \<inter> set signet \<inter> set agent"
    by (auto simp: allowlist_loop_set)
  show ?thesis
    using s by (auto simp: resolveEffectiveAllowlist_def Let_def simp flip: set_empty)
qed

theorem effective_allowlist_is_intersection_witness:
  "set [''xmtp.org/text:1.0''] =
     set BASELINE_CONTENT_TYPES \<inter> set [''xmtp.org/text:1.0''] \<inter> set [''xmtp.org/text:1.0'', ''a/b:1.0'']"
proof -
  have "resolveEffectiveAllowlist BASELINE_CONTENT_TYPES [''xmtp.org/text:1.0'']
      [''xmtp.org/text:1.0'', ''a/b:1.0''] = Inr [''xmtp.org/text:1.0'']"
    by code_simp
  then show ?thesis
    using effective_allowlist_is_intersection [of BASELINE_CONTENT_TYPES "[''xmtp.org/text:1.0'']"
        "[''xmtp.org/text:1.0'', ''a/b:1.0'']" "[''xmtp.org/text:1.0'']"] by blast
qed


text \<open>
  Narrowing a credential never discloses more: when the effective scopes, the chats and
  the content types of one credential are contained in another's, every message the narrower
  one is shown is shown to the wider one with the same content.
\<close>

theorem narrowing_never_discloses:
  assumes "effective narrow \<subseteq> effective wide"
    and "set chats' \<subseteq> set chats" and "set types' \<subseteq> set types"
    and "projectMessage m (map scope_name (resolveScopeSet narrow)) chats' types' revealed = Emit e'"
  shows "\<exists>e. projectMessage m (map scope_name (resolveScopeSet wide)) chats types revealed = Emit e
           \<and> me_content e = me_content e' \<and> me_messageId e = me_messageId e'"
proof -
  let ?n = "map scope_name (resolveScopeSet narrow)" and ?w = "map scope_name (resolveScopeSet wide)"
  have sub: "set ?n \<subseteq> set ?w" using assms(1) by auto
  from assms(4) have r: "may_read m ?n chats' types' revealed"
    and c: "me_content e' = Some (rm_content m)" "me_messageId e' = rm_messageId m"
    by (simp_all add: projectMessage_emits)
  from r sub assms(2,3) have "may_read m ?w chats types revealed"
    unfolding may_read_def by blast
  with c show ?thesis by (simp add: projectMessage_emits)
qed

theorem narrowing_never_discloses_witness:
  "\<exists>e. projectMessage
     \<lparr>rm_messageId = ''m'', rm_groupId = ''g'', rm_senderInboxId = ''i'', rm_contentType = ''t'',
      rm_content = (7 :: int), rm_sentAt = ''s'', rm_threadId = None, rm_sealId = None,
      rm_isHistorical = None\<rparr>
     (map scope_name (resolveScopeSet \<lparr>allow = [ScReadMessages, ScSend], deny = []\<rparr>))
     [''g'', ''h''] [''t''] False = Emit e \<and> me_content e = Some 7 \<and> me_messageId e = ''m''"
proof -
  let ?m = "\<lparr>rm_messageId = ''m'', rm_groupId = ''g'', rm_senderInboxId = ''i'',
      rm_contentType = ''t'', rm_content = (7 :: int), rm_sentAt = ''s'', rm_threadId = None,
      rm_sealId = None, rm_isHistorical = None\<rparr>"
  let ?n = "\<lparr>allow = [ScReadMessages, ScSend], deny = [ScSend]\<rparr>"
  let ?e = "\<lparr>me_messageId = ''m'', me_groupId = ''g'', me_senderInboxId = ''i'',
      me_contentType = ''t'', me_content = Some (7 :: int), me_visibility = VVisible,
      me_sentAt = ''s'', me_sealId = None, me_threadId = None\<rparr>"
  have h: "projectMessage ?m (map scope_name (resolveScopeSet ?n)) [''g''] [''t''] False = Emit ?e"
    by code_simp
  show ?thesis
    using narrowing_never_discloses [OF _ _ _ h,
        of "\<lparr>allow = [ScReadMessages, ScSend], deny = []\<rparr>" "[''g'', ''h'']" "[''t'']"]
    by (simp add: effective_def)
qed

text \<open>
  The validators of outbound requests enforce the credential: a message, reply, reaction
  or group-management request passes exactly when its chat is one of the credential's and
  the scope it needs is effective (so a denied scope is unusable even when also allowed), an
  egress request exactly when its scope is effective, and every refusal is a permission error.
\<close>

theorem outbound_requests_need_effective_scope:
  fixes ss :: scope_set
  defines "scopes \<equiv> map scope_name (resolveScopeSet ss)"
  shows "((\<exists>v. validateSendMessage g scopes chats = Inr v) \<longleftrightarrow> g \<in> set chats \<and> ScSend \<in> effective ss)
    \<and> ((\<exists>v. validateSendReply g scopes chats = Inr v) \<longleftrightarrow> g \<in> set chats \<and> ScReply \<in> effective ss)
    \<and> ((\<exists>v. validateSendReaction g scopes chats = Inr v) \<longleftrightarrow> g \<in> set chats \<and> ScReact \<in> effective ss)
    \<and> ((\<exists>v. validateGroupManagement (scope_name s) g scopes chats = Inr v) \<longleftrightarrow>
         g \<in> set chats \<and> s \<in> effective ss)
    \<and> ((\<exists>v. validateEgress (scope_name s) scopes = Inr v) \<longleftrightarrow> s \<in> effective ss)
    \<and> {e. validateSendMessage g scopes chats = Inl e \<or> validateSendReply g scopes chats = Inl e
          \<or> validateSendReaction g scopes chats = Inl e
          \<or> validateGroupManagement (scope_name s) g scopes chats = Inl e
          \<or> validateEgress (scope_name s) scopes = Inl e} \<subseteq> {e. category_of e = CatPermission}"
proof (intro conjI)
  have n: "scope_name t \<in> set scopes \<longleftrightarrow> t \<in> effective ss" for t
    by (auto simp: scopes_def image_iff)
  note ns = n [of ScSend, simplified] n [of ScReply, simplified] n [of ScReact, simplified]
  show "(\<exists>v. validateSendMessage g scopes chats = Inr v) \<longleftrightarrow> g \<in> set chats \<and> ScSend \<in> effective ss"
    using send_v.accepts_iff [of g scopes chats] by (simp add: ns)
  show "(\<exists>v. validateSendReply g scopes chats = Inr v) \<longleftrightarrow> g \<in> set chats \<and> ScReply \<in> effective ss"
    using reply_v.accepts_iff [of g scopes chats] by (simp add: ns)
  show "(\<exists>v. validateSendReaction g scopes chats = Inr v) \<longleftrightarrow> g \<in> set chats \<and> ScReact \<in> effective ss"
    using react_v.accepts_iff [of g scopes chats] by (simp add: ns)
  show "(\<exists>v. validateGroupManagement (scope_name s) g scopes chats = Inr v) \<longleftrightarrow>
      g \<in> set chats \<and> s \<in> effective ss"
    using group_v.accepts_iff [of "scope_name s" g scopes chats] by (simp add: n)
  show "(\<exists>v. validateEgress (scope_name s) scopes = Inr v) \<longleftrightarrow> s \<in> effective ss"
    by (simp add: validateEgress_def n)
  show "{e. validateSendMessage g scopes chats = Inl e \<or> validateSendReply g scopes chats = Inl e
      \<or> validateSendReaction g scopes chats = Inl e
      \<or> validateGroupManagement (scope_name s) g scopes chats = Inl e
      \<or> validateEgress (scope_name s) scopes = Inl e} \<subseteq> {e. category_of e = CatPermission}"
    using send_v.refuses_as_permission reply_v.refuses_as_permission
      react_v.refuses_as_permission group_v.refuses_as_permission
    by (auto simp: validateEgress_def denied_def split: if_splits)
qed

end
