(* ===== verification/RevealState.thy ===== *)
theory RevealState
  imports PolicyEngine
begin

text \<open>
  packages/policy/src/reveal-state.ts with the types of packages/schemas/src/reveal.ts: the
  in-memory store of reveal grants of one credential.

  \<open>new Date(text).getTime()\<close> of a text that comes from outside (a grant's expiry, the ends of
  a time window, the time a message was sent) is the parameter \<open>parse_date\<close>, with \<open>None\<close>
  for NaN: beyond the ISO format its value is up to the host and its time zone. A
  comparison with NaN is false, which is how \<open>None\<close> is treated. The clock reading of
  \<open>Date.now()\<close> is an argument.
\<close>

section \<open>Grants\<close>

datatype reveal_scope = RevMessage | RevThread | RevTimeWindow | RevContentType | RevSender

record reveal_request =
  rr_revealId :: string
  rr_groupId :: string
  rr_scope :: reveal_scope
  rr_targetId :: string
  rr_requestedBy :: string
  rr_expiresAt :: "string option"

record reveal_access =
  ra_revealId :: string
  ra_grantedAt :: int
  ra_grantedBy :: string
  ra_expiresAt :: "string option"

record reveal_entry =
  re_access :: reveal_access
  re_request :: reveal_request

type_synonym reveal_store = "reveal_entry list"

type_synonym date_parser = "string \<Rightarrow> int option"

definition createRevealStateStore :: reveal_store where
  "createRevealStateStore = []"

section \<open>Operations\<close>

definition reveal_record :: "reveal_access \<Rightarrow> reveal_request \<Rightarrow> reveal_store \<Rightarrow> reveal_store" where
  "reveal_record access request entries = entries @ [\<lparr>re_access = access, re_request = request\<rparr>]"

definition entry_expired :: "date_parser \<Rightarrow> int \<Rightarrow> reveal_entry \<Rightarrow> bool" where
  "entry_expired parse_date now entry =
     (case ra_expiresAt (re_access entry) of
        None \<Rightarrow> False
      | Some e \<Rightarrow> (case parse_date e of None \<Rightarrow> False | Some t \<Rightarrow> t \<le> now))"

text \<open>The part of a window target before the first bar, and the part after it.\<close>

definition before_bar :: "string \<Rightarrow> string" where
  "before_bar s = takeWhile (\<lambda>c. c \<noteq> CHR ''|'') s"

definition after_bar :: "string \<Rightarrow> string" where
  "after_bar s = drop (length (before_bar s) + 1) s"

fun entry_covers ::
  "date_parser \<Rightarrow> reveal_scope \<Rightarrow> string \<Rightarrow> string \<Rightarrow> string option \<Rightarrow> string \<Rightarrow> string \<Rightarrow>
   string \<Rightarrow> bool" where
  "entry_covers parse_date RevMessage target messageId threadId sender contentType sentAt =
     (target = messageId)"
| "entry_covers parse_date RevThread target messageId threadId sender contentType sentAt =
     (Some target = threadId)"
| "entry_covers parse_date RevSender target messageId threadId sender contentType sentAt =
     (target = sender)"
| "entry_covers parse_date RevContentType target messageId threadId sender contentType sentAt =
     (target = contentType)"
| "entry_covers parse_date RevTimeWindow target messageId threadId sender contentType sentAt =
     (if CHR ''|'' \<notin> set target then False
      else (case (parse_date (before_bar target), parse_date (after_bar target)) of
              (Some windowStart, Some windowEnd) \<Rightarrow>
                (case parse_date sentAt of
                   None \<Rightarrow> False
                 | Some t \<Rightarrow> windowStart \<le> t \<and> t \<le> windowEnd)
            | _ \<Rightarrow> False))"

definition isRevealed ::
  "date_parser \<Rightarrow> int \<Rightarrow> string \<Rightarrow> string \<Rightarrow> string option \<Rightarrow> string \<Rightarrow> string \<Rightarrow> string \<Rightarrow>
   reveal_store \<Rightarrow> bool" where
  "isRevealed parse_date now messageId groupId threadId sender contentType sentAt entries =
     list_ex (\<lambda>entry.
       (if entry_expired parse_date now entry then False
        else if rr_groupId (re_request entry) \<noteq> groupId then False
        else entry_covers parse_date (rr_scope (re_request entry)) (rr_targetId (re_request entry))
               messageId threadId sender contentType sentAt)) entries"

text \<open>The loop of \<open>expireStale\<close> runs from the last index down and splices in place.\<close>

fun expire_loop ::
  "date_parser \<Rightarrow> int \<Rightarrow> nat \<Rightarrow> reveal_store \<Rightarrow> nat \<Rightarrow> reveal_store \<times> nat" where
  "expire_loop parse_date now 0 entries n = (entries, n)"
| "expire_loop parse_date now (Suc i) entries n =
     (if i < length entries \<and> entry_expired parse_date now (entries ! i)
      then expire_loop parse_date now i (take i entries @ drop (Suc i) entries) (n + 1)
      else expire_loop parse_date now i entries n)"

definition expireStale :: "date_parser \<Rightarrow> int \<Rightarrow> reveal_store \<Rightarrow> reveal_store \<times> nat" where
  "expireStale parse_date now entries = expire_loop parse_date now (length entries) entries 0"

definition reveal_snapshot :: "reveal_store \<Rightarrow> reveal_entry list" where
  "reveal_snapshot entries =
     map (\<lambda>e. \<lparr>re_access = re_access e, re_request = re_request e\<rparr>) entries"

definition reveal_restore :: "reveal_entry list \<Rightarrow> reveal_store \<Rightarrow> reveal_store" where
  "reveal_restore snapshot entries =
     foldl (\<lambda>acc e. acc @ [\<lparr>re_access = re_access e, re_request = re_request e\<rparr>]) [] snapshot"

section \<open>Lemmas\<close>

lemma expire_loop_eq:
  "i \<le> length entries \<Longrightarrow>
    expire_loop d now i entries n =
      (filter (\<lambda>e. \<not> entry_expired d now e) (take i entries) @ drop i entries,
       n + length (filter (entry_expired d now) (take i entries)))"
proof (induction i arbitrary: entries n)
  case 0
  then show ?case by simp
next
  case (Suc i)
  then have i: "i < length entries" by simp
  note t = take_Suc_conv_app_nth [OF i]
  show ?case
  proof (cases "entry_expired d now (entries ! i)")
    case True
    have "i \<le> length (take i entries @ drop (Suc i) entries)" using i by simp
    from Suc.IH [OF this] True i show ?thesis by (simp add: t)
  next
    case False
    have "drop i entries = entries ! i # drop (Suc i) entries" using i by (rule Cons_nth_drop_Suc [symmetric])
    with Suc.IH [of entries n] False i show ?thesis by (simp add: t)
  qed
qed

lemma expireStale_eq:
  "expireStale d now entries =
     (filter (\<lambda>e. \<not> entry_expired d now e) entries,
      length (filter (entry_expired d now) entries))"
  by (simp add: expireStale_def expire_loop_eq)

lemma entry_expired_mono: "entry_expired d now e \<Longrightarrow> now \<le> now' \<Longrightarrow> entry_expired d now' e"
  by (auto simp: entry_expired_def split: option.splits)

lemma reveal_entry_eta [simp]: "\<lparr>re_access = re_access e, re_request = re_request e\<rparr> = e"
  by (cases e) simp

lemma window_covers_iff:
  "entry_covers d RevTimeWindow target mid tid sender ct sent \<longleftrightarrow> CHR ''|'' \<in> set target \<and>
     (\<exists>a b t. d (before_bar target) = Some a \<and> d (after_bar target) = Some b
        \<and> d sent = Some t \<and> a \<le> t \<and> t \<le> b)"
  by (cases "d (before_bar target)"; cases "d (after_bar target)"; cases "d sent"; simp)

lemma reveal_snapshot_id [simp]: "reveal_snapshot entries = entries"
  by (simp add: reveal_snapshot_def)

lemma reveal_restore_eq [simp]: "reveal_restore snapshot entries = snapshot"
proof -
  have "foldl (\<lambda>acc e. acc @ [\<lparr>re_access = re_access e, re_request = re_request e\<rparr>]) acc xs = acc @ xs"
    for acc and xs :: "reveal_entry list"
    by (induction xs arbitrary: acc) simp_all
  then show ?thesis by (simp add: reveal_restore_def)
qed

lemma isRevealed_iff:
  "isRevealed d now mid gid tid snd' ct sent entries \<longleftrightarrow>
     (\<exists>e \<in> set entries. \<not> entry_expired d now e \<and> rr_groupId (re_request e) = gid
        \<and> entry_covers d (rr_scope (re_request e)) (rr_targetId (re_request e)) mid tid snd' ct sent)"
  by (auto simp: isRevealed_def list_ex_iff)

section \<open>The interface the credential manager relies on\<close>

text \<open>
  The contract \<open>RevealStateStore\<close> of packages/contracts: \<open>shows now m s\<close> stands for
  \<open>isRevealed\<close> on a message \<open>m\<close>. Time only takes grants away, recording only adds, sweeping
  at an instant changes nothing at that instant or later, and restoring an empty snapshot
  reveals nothing.
\<close>

locale reveal_contract =
  fixes shows_at :: "int \<Rightarrow> 'msg \<Rightarrow> 's \<Rightarrow> bool"
    and record_grant :: "'g \<Rightarrow> 's \<Rightarrow> 's"
    and sweep :: "int \<Rightarrow> 's \<Rightarrow> 's"
    and snapshot :: "'s \<Rightarrow> 'snap"
    and restore :: "'snap \<Rightarrow> 's \<Rightarrow> 's"
    and no_grants :: "'snap"
  assumes decays: "now \<le> now' \<Longrightarrow> shows_at now' m s \<Longrightarrow> shows_at now m s"
    and record_adds: "shows_at now m s \<Longrightarrow> shows_at now m (record_grant g s)"
    and sweep_silent: "now \<le> now' \<Longrightarrow> shows_at now' m (sweep now s) = shows_at now' m s"
    and restore_snapshot: "shows_at now m (restore (snapshot s) s') = shows_at now m s"
    and restore_none: "\<not> shows_at now m (restore no_grants s)"
begin

lemma sweep_idle: "now \<le> now' \<Longrightarrow> shows_at now' m (sweep now (sweep now s)) = shows_at now' m s"
  by (simp add: sweep_silent)

lemma cleared_stays_hidden: "\<not> shows_at now' m (sweep now (restore no_grants s))" if "now \<le> now'"
  using that by (simp add: sweep_silent restore_none)

lemma hidden_later: "\<not> shows_at now m s \<Longrightarrow> now \<le> now' \<Longrightarrow> \<not> shows_at now' m (sweep now s)"
  using decays sweep_silent by blast

end

record message_key =
  mk_messageId :: string
  mk_groupId :: string
  mk_threadId :: "string option"
  mk_sender :: string
  mk_contentType :: string
  mk_sentAt :: string

definition shows_key :: "date_parser \<Rightarrow> int \<Rightarrow> message_key \<Rightarrow> reveal_store \<Rightarrow> bool" where
  "shows_key d now m s = isRevealed d now (mk_messageId m) (mk_groupId m) (mk_threadId m)
     (mk_sender m) (mk_contentType m) (mk_sentAt m) s"

interpretation reveal: reveal_contract "shows_key d" "\<lambda>(a, r). reveal_record a r"
    "\<lambda>now s. fst (expireStale d now s)" reveal_snapshot reveal_restore "[]"
  for d
proof unfold_locales
  show "shows_key d now m s" if "now \<le> now'" "shows_key d now' m s" for now now' m s
    using that entry_expired_mono by (fastforce simp: shows_key_def isRevealed_iff)
  show "shows_key d now m ((case g of (a, r) \<Rightarrow> reveal_record a r) s)"
    if "shows_key d now m s" for now m s g
    using that by (cases g) (auto simp: shows_key_def isRevealed_iff reveal_record_def)
  show "shows_key d now' m (fst (expireStale d now s)) = shows_key d now' m s"
    if "now \<le> now'" for now now' m s
    using that entry_expired_mono by (auto simp: shows_key_def isRevealed_iff expireStale_eq)
qed (simp_all add: shows_key_def isRevealed_def)

section \<open>Properties\<close>

text \<open>
  The in-place sweep removes exactly the expired grants, keeps the order of the others
  and returns how many it removed, and nobody can tell that it ran: a message is revealed at
  that instant or later after the sweep exactly when it was without it.
\<close>

theorem expireStale_exact_and_silent:
  assumes "now \<le> now'"
  shows "expireStale d now entries =
           (filter (\<lambda>e. \<not> entry_expired d now e) entries,
            length (filter (entry_expired d now) entries))
         \<and> shows_key d now' m (fst (expireStale d now entries)) = shows_key d now' m entries"
  using reveal.sweep_silent [OF assms] by (simp add: expireStale_eq)

theorem expireStale_exact_and_silent_witness:
  "(5::int) \<le> 6 \<and> (let e = (\<lambda>t. \<lparr>re_access = \<lparr>ra_revealId = ''r'', ra_grantedAt = 0,
        ra_grantedBy = ''o'', ra_expiresAt = t\<rparr>,
      re_request = \<lparr>rr_revealId = ''r'', rr_groupId = ''g'', rr_scope = RevSender,
        rr_targetId = ''alice'', rr_requestedBy = ''o'', rr_expiresAt = t\<rparr>\<rparr>);
      d = (\<lambda>s. if s = ''early'' then Some 5 else if s = ''late'' then Some 9 else None)
    in expireStale d 5 [e (Some ''early''), e None, e (Some ''late'')]
       = ([e None, e (Some ''late'')], 1))"
  using expireStale_exact_and_silent [of 5 6
      "\<lambda>s. if s = ''early'' then Some 5 else if s = ''late'' then Some 9 else None"]
  by (simp add: Let_def entry_expired_def)



end
