(* ===== verification/Json.thy ===== *)
theory Json
  imports Errors "HOL-Library.Multiset" "HOL-Library.Word"
begin

text \<open>
  JSON values and the two canonical forms the packages derive from \<open>JSON.stringify\<close>:
  packages/seals/src/canonicalize.ts (object keys sorted, arrays kept in order, UTF-8 bytes;
  what is signed) and packages/sessions/src/policy-hash.ts (object keys and array items
  sorted; what is hashed to detect equal policies).

  An object is the list of its own enumerable fields whose value is not \<open>undefined\<close>
  (\<open>stringify\<close> drops the others); field names are the record fields of the packages, none of
  which is an array index, so the order of insertion is the order of enumeration. Numbers
  are the integers the records hold. A character is a UTF-16 code unit below 256.
\<close>

section \<open>Values and JSON.stringify\<close>

datatype json =
  JNull | JBool bool | JNum int | JStr string | JArr "json list" | JObj "(string \<times> json) list"

definition hex4 :: "nat \<Rightarrow> string" where
  "hex4 n = ''00'' @ [''0123456789abcdef'' ! (n div 16), ''0123456789abcdef'' ! (n mod 16)]"

definition json_char :: "char \<Rightarrow> string" where
  "json_char c =
     (let n = (of_char c :: nat) in
      if c = CHR 0x22 then [CHR 0x5C, CHR 0x22]
      else if c = CHR 0x5C then [CHR 0x5C, CHR 0x5C]
      else if n = 8 then [CHR 0x5C, CHR ''b'']
      else if n = 9 then [CHR 0x5C, CHR ''t'']
      else if n = 10 then [CHR 0x5C, CHR ''n'']
      else if n = 12 then [CHR 0x5C, CHR ''f'']
      else if n = 13 then [CHR 0x5C, CHR ''r'']
      else if n < 32 then [CHR 0x5C, CHR ''u''] @ hex4 n
      else [c])"

definition json_quote :: "string \<Rightarrow> string" where
  "json_quote s = CHR 0x22 # concat (map json_char s) @ [CHR 0x22]"

text \<open>An array or object is rendered head first: the tail functions render the separators,
  the remaining elements and the closing bracket.\<close>

fun stringify :: "json \<Rightarrow> string"
  and stringify_items :: "json list \<Rightarrow> string"
  and stringify_fields :: "(string \<times> json) list \<Rightarrow> string" where
  "stringify JNull = ''null''"
| "stringify (JBool b) = (if b then ''true'' else ''false'')"
| "stringify (JNum i) = show_int i"
| "stringify (JStr s) = json_quote s"
| "stringify (JArr []) = ''[]''"
| "stringify (JArr (v # vs)) = ''['' @ stringify v @ stringify_items vs"
| "stringify (JObj []) = ''{}''"
| "stringify (JObj ((k, v) # fs)) =
     ''{'' @ json_quote k @ '':'' @ stringify v @ stringify_fields fs"
| "stringify_items [] = '']''"
| "stringify_items (v # vs) = '','' @ stringify v @ stringify_items vs"
| "stringify_fields [] = ''}''"
| "stringify_fields ((k, v) # fs) =
     '','' @ json_quote k @ '':'' @ stringify v @ stringify_fields fs"

section \<open>TextEncoder\<close>

definition utf8_char :: "char \<Rightarrow> 8 word list" where
  "utf8_char c =
     (let n = (of_char c :: nat) in
      if n < 128 then [of_nat n] else [of_nat (192 + n div 64), of_nat (128 + n mod 64)])"

definition utf8 :: "string \<Rightarrow> 8 word list" where
  "utf8 s = concat (map utf8_char s)"

section \<open>Canonical form for signing\<close>

fun sortKeys :: "json \<Rightarrow> json" where
  "sortKeys (JArr vs) = JArr (map sortKeys vs)"
| "sortKeys (JObj fs) = JObj (sort_key fst (map (\<lambda>(k, v). (k, sortKeys v)) fs))"
| "sortKeys v = v"

definition canonicalize :: "json \<Rightarrow> 8 word list" where
  "canonicalize value = utf8 (stringify (sortKeys value))"

section \<open>Canonical form for policy hashes\<close>

text \<open>
  \<open>localeCompare\<close> orders strings by their collation keys; the keys are the host's, the
  parameter \<open>collate\<close>. \<open>Bun.hash(...).toString(16)\<close> is the parameter \<open>bun_hash\<close>.
\<close>

fun normalize :: "(string \<Rightarrow> string) \<Rightarrow> json \<Rightarrow> json" where
  "normalize collate (JArr vs) =
     JArr (sort_key (\<lambda>v. collate (stringify v)) (map (normalize collate) vs))"
| "normalize collate (JObj fs) =
     JObj (sort_key fst (map (\<lambda>(k, v). (k, normalize collate v)) fs))"
| "normalize collate v = v"

definition policy_canonicalize :: "(string \<Rightarrow> string) \<Rightarrow> json \<Rightarrow> string" where
  "policy_canonicalize collate value = stringify (normalize collate value)"

section \<open>Decimal numerals\<close>

definition is_digit :: "char \<Rightarrow> bool" where
  "is_digit c \<longleftrightarrow> c \<in> set ''0123456789''"

definition digit_value :: "char \<Rightarrow> nat" where
  "digit_value c = of_char c - 48"

definition numeral_value :: "string \<Rightarrow> nat" where
  "numeral_value s = foldl (\<lambda>a c. 10 * a + digit_value c) 0 s"

lemma digit_char: "n < 10 \<Longrightarrow> is_digit (char_of (48 + n)) \<and> digit_value (char_of (48 + n)) = n"
proof -
  assume "n < 10"
  then have "n = 0 \<or> n = 1 \<or> n = 2 \<or> n = 3 \<or> n = 4 \<or> n = 5 \<or> n = 6 \<or> n = 7 \<or> n = 8 \<or> n = 9"
    by arith
  then show ?thesis by (elim disjE; simp only:; code_simp)
qed

lemma show_nat_digits: "list_all is_digit (show_nat n) \<and> show_nat n \<noteq> []"
proof (induction n rule: show_nat.induct)
  case (1 n)
  then show ?case
    using digit_char [of n] digit_char [of "n mod 10"]
    by (cases "n < 10") (simp_all add: show_nat.simps [of n])
qed

lemma show_nat_value: "numeral_value (show_nat n) = n"
proof (induction n rule: show_nat.induct)
  case (1 n)
  then show ?case
    using digit_char [of n] digit_char [of "n mod 10"]
    by (cases "n < 10") (simp_all add: show_nat.simps [of n] numeral_value_def)
qed

lemma show_nat_inj [simp]: "show_nat m = show_nat n \<longleftrightarrow> m = n"
  by (metis show_nat_value)

lemma digits_split:
  assumes "list_all is_digit xs" "list_all is_digit ys"
    and "r = [] \<or> \<not> is_digit (hd r)" "s = [] \<or> \<not> is_digit (hd s)"
    and "xs @ r = ys @ s"
  shows "xs = ys \<and> r = s"
proof -
  have t: "takeWhile is_digit (zs @ q) = zs" if "list_all is_digit zs" "q = [] \<or> \<not> is_digit (hd q)"
    for zs q using that by (induction zs) (auto simp: takeWhile_eq_Nil_iff)
  from t [OF assms(1,3)] t [OF assms(2,4)] assms(5) show ?thesis by simp
qed

definition delimited :: "string \<Rightarrow> bool" where
  "delimited r \<longleftrightarrow> r = [] \<or> hd r \<in> set '',]}''"

lemma delimited_not_digit: "delimited r \<Longrightarrow> r = [] \<or> \<not> is_digit (hd r)"
  by (auto simp: delimited_def is_digit_def)

lemma show_int_first: "\<exists>c cs. show_int i = c # cs \<and> (c = CHR ''-'' \<or> is_digit c)"
  using show_nat_digits [of "nat i"] by (cases "show_nat (nat i)") (auto simp: show_int_def)

lemma show_int_split:
  assumes "show_int i @ r = show_int j @ s" "delimited r" "delimited s"
  shows "i = j \<and> r = s"
proof -
  have minus: "show_nat n @ q \<noteq> CHR ''-'' # q'" for n q q'
    using show_nat_digits [of n] by (cases "show_nat n") (auto simp: is_digit_def)
  have pos: "m = n \<and> r = s" if "show_nat m @ r = show_nat n @ s" for m n
    using digits_split [OF _ _ _ _ that] show_nat_digits assms(2,3) delimited_not_digit by auto
  show ?thesis
  proof (cases "i < 0"; cases "j < 0")
    assume "i < 0" "j < 0"
    with assms(1) pos [of "nat (- i)" "nat (- j)"] show ?thesis by (auto simp: show_int_def)
  next
    assume "\<not> i < 0" "\<not> j < 0"
    with assms(1) pos [of "nat i" "nat j"] show ?thesis by (auto simp: show_int_def)
  qed (use assms(1) minus minus [symmetric] in \<open>auto simp: show_int_def\<close>)
qed

section \<open>Strings are self-delimiting\<close>

lemma json_char_shape:
  "json_char c = [c] \<and> c \<noteq> CHR 0x22 \<and> c \<noteq> CHR 0x5C
   \<or> (\<exists>d ds. json_char c = CHR 0x5C # d # ds)"
  by (auto simp: json_char_def Let_def)

lemma hex_nth_inj:
  "m < 16 \<Longrightarrow> n < 16 \<Longrightarrow> ''0123456789abcdef'' ! m = ''0123456789abcdef'' ! n \<longleftrightarrow> m = n"
  by (rule nth_eq_iff_index_eq) simp_all

definition hex_value :: "char \<Rightarrow> nat" where
  "hex_value c = length (takeWhile (\<lambda>d. d \<noteq> c) ''0123456789abcdef'')"

lemma hex_value_nth: "n < 16 \<Longrightarrow> hex_value (''0123456789abcdef'' ! n) = n"
proof -
  assume "n < 16"
  then have "n \<in> set [0..<16]" by simp
  moreover have "\<forall>n \<in> set [0..<16]. hex_value (''0123456789abcdef'' ! n) = n" by code_simp
  ultimately show ?thesis by blast
qed

text \<open>Reading one character back: what makes the escapes unambiguous.\<close>

definition unescape :: "char \<Rightarrow> char" where
  "unescape d =
     (if d = CHR ''b'' then CHR 0x08 else if d = CHR ''t'' then CHR 0x09
      else if d = CHR ''n'' then CHR 0x0A else if d = CHR ''f'' then CHR 0x0C
      else if d = CHR ''r'' then CHR 0x0D else d)"

fun json_unchar :: "string \<Rightarrow> (char \<times> string) option" where
  "json_unchar [] = None"
| "json_unchar (c # r) =
     (if c \<noteq> CHR 0x5C then Some (c, r)
      else (case r of
              [] \<Rightarrow> None
            | d # q \<Rightarrow>
                if d = CHR ''u''
                then Some (char_of (16 * hex_value (q ! 2) + hex_value (q ! 3)), drop 4 q)
                else Some (unescape d, q)))"

lemma control_chars:
  shows char_of_8: "char_of (8 :: nat) = CHR 0x08" and char_of_9: "char_of (9 :: nat) = CHR 0x09"
    and char_of_10: "char_of (10 :: nat) = CHR 0x0A" and char_of_12: "char_of (12 :: nat) = CHR 0x0C"
    and char_of_13: "char_of (13 :: nat) = CHR 0x0D"
  by code_simp+

lemma json_unchar_char: "json_unchar (json_char c @ r) = Some (c, r)"
proof -
  let ?n = "of_char c :: nat"
  have c: "c = char_of ?n" by simp
  consider "?n = 8" | "?n = 9" | "?n = 10" | "?n = 12" | "?n = 13"
    | "?n < 32" "?n \<notin> {8, 9, 10, 12, 13}" | "32 \<le> ?n" by fastforce
  then show ?thesis
  proof cases
    case 1 then have "c = CHR 0x08" by (metis c char_of_8)
    then show ?thesis by (simp add: json_char_def unescape_def)
  next
    case 2 then have "c = CHR 0x09" by (metis c char_of_9)
    then show ?thesis by (simp add: json_char_def unescape_def)
  next
    case 3 then have "c = CHR 0x0A" by (metis c char_of_10)
    then show ?thesis by (simp add: json_char_def unescape_def)
  next
    case 4 then have "c = CHR 0x0C" by (metis c char_of_12)
    then show ?thesis by (simp add: json_char_def unescape_def)
  next
    case 5 then have "c = CHR 0x0D" by (metis c char_of_13)
    then show ?thesis by (simp add: json_char_def unescape_def)
  next
    case 6
    then have ne: "c \<noteq> CHR 0x22" "c \<noteq> CHR 0x5C" by auto
    from 6 have d: "?n div 16 < 16" by linarith
    have jc: "json_char c = [CHR 0x5C, CHR ''u''] @ hex4 ?n"
      using 6 ne by (simp add: json_char_def Let_def)
    have "16 * (?n div 16) + ?n mod 16 = ?n" by simp
    then show ?thesis
      unfolding jc by (simp add: hex4_def hex_value_nth [OF d] hex_value_nth del: One_nat_def)
  next
    case 7
    then show ?thesis by (auto simp: json_char_def Let_def unescape_def)
  qed
qed

lemma json_char_split: "json_char c @ r = json_char d @ s \<longleftrightarrow> c = d \<and> r = s"
  using json_unchar_char by (metis option.inject prod.inject)

lemma json_quote_tail:
  "concat (map json_char a) @ CHR 0x22 # r = concat (map json_char b) @ CHR 0x22 # s
    \<Longrightarrow> a = b \<and> r = s"
proof (induction a arbitrary: b)
  case Nil
  show ?case
  proof (cases b)
    case (Cons d b')
    with Nil json_char_shape [of d] show ?thesis by auto
  qed (use Nil in simp)
next
  case (Cons c a)
  show ?case
  proof (cases b)
    case Nil
    with Cons.prems json_char_shape [of c] show ?thesis by auto
  next
    case (Cons d b')
    with Cons.prems Cons.IH [of b'] show ?thesis by (auto simp: json_char_split)
  qed
qed

lemma json_quote_split: "json_quote a @ r = json_quote b @ s \<longleftrightarrow> a = b \<and> r = s"
  using json_quote_tail [of a r b s] by (auto simp: json_quote_def)

lemma json_quote_inj [simp]: "json_quote a = json_quote b \<longleftrightarrow> a = b"
  using json_quote_split [of a "[]" b "[]"] by simp

section \<open>JSON.stringify is injective\<close>

fun json_kind :: "json \<Rightarrow> nat" where
  "json_kind JNull = 0"
| "json_kind (JBool _) = 1"
| "json_kind (JNum _) = 2"
| "json_kind (JStr _) = 3"
| "json_kind (JArr _) = 4"
| "json_kind (JObj _) = 5"

definition char_kind :: "char \<Rightarrow> nat" where
  "char_kind c =
     (if c = CHR ''n'' then 0 else if c = CHR ''t'' \<or> c = CHR ''f'' then 1
      else if c = CHR ''-'' \<or> is_digit c then 2 else if c = CHR 0x22 then 3
      else if c = CHR ''['' then 4 else if c = CHR ''{'' then 5 else 6)"

lemma is_digit_not: "is_digit c \<Longrightarrow> c \<noteq> CHR ''n'' \<and> c \<noteq> CHR ''t'' \<and> c \<noteq> CHR ''f''"
  by (auto simp: is_digit_def)

lemma char_kind_simps [simp]:
  "char_kind CHR ''n'' = 0" "char_kind CHR ''t'' = 1" "char_kind CHR ''f'' = 1"
  "char_kind CHR 0x22 = 3" "char_kind CHR ''['' = 4" "char_kind CHR ''{'' = 5"
  "char_kind CHR '']'' = 6" "char_kind CHR ''}'' = 6"
  by code_simp+

lemma stringify_kind: "\<exists>c t. stringify v = c # t \<and> char_kind c = json_kind v"
proof (cases v)
  case (JNum i)
  from show_int_first obtain c cs where "show_int i = c # cs" and c: "c = CHR ''-'' \<or> is_digit c"
    by blast
  moreover from c is_digit_not have "char_kind c = 2" unfolding char_kind_def by auto
  ultimately show ?thesis using JNum by simp
next
  case JNull
  then show ?thesis by simp
next
  case (JBool b)
  then show ?thesis by (cases b) simp_all
next
  case (JStr t)
  then show ?thesis by (simp add: json_quote_def)
next
  case (JArr vs)
  then show ?thesis by (cases vs) simp_all
next
  case (JObj fs)
  then show ?thesis by (cases fs rule: stringify_fields.cases) simp_all
qed

lemma stringify_same_kind:
  "stringify v @ r = stringify w @ s \<Longrightarrow> json_kind v = json_kind w"
  using stringify_kind [of v] stringify_kind [of w] by auto

lemma delimited_items [simp]: "delimited (stringify_items vs @ r)"
  by (cases vs) (simp_all add: delimited_def)

lemma delimited_fields [simp]: "delimited (stringify_fields fs @ r)"
  by (cases fs rule: stringify_fields.cases) (simp_all add: delimited_def)

lemma stringify_not_close: "stringify v @ r \<noteq> CHR '']'' # s" "stringify v @ r \<noteq> CHR ''}'' # s"
  using stringify_kind [of v] by (cases v; auto)+

lemma stringify_split:
  "stringify v @ r = stringify w @ s \<Longrightarrow> delimited r \<Longrightarrow> delimited s \<Longrightarrow> v = w \<and> r = s"
  "stringify_items vs @ r = stringify_items ws @ s \<Longrightarrow> vs = ws \<and> r = s"
  "stringify_fields fs @ r = stringify_fields gs @ s \<Longrightarrow> fs = gs \<and> r = s"
proof (induction v and vs and fs arbitrary: w r s and ws r s and gs r s
    rule: stringify_stringify_items_stringify_fields.induct)
  case 1
  then show ?case using stringify_same_kind [OF 1(1)] by (cases w) auto
next
  case (2 b)
  then show ?case using stringify_same_kind [OF 2(1)] by (cases w) (auto split: if_splits)
next
  case (3 i)
  then show ?case using stringify_same_kind [OF 3(1)] by (cases w) (auto dest: show_int_split)
next
  case (4 a)
  then show ?case using stringify_same_kind [OF 4(1)] by (cases w) (auto simp: json_quote_split)
next
  case 5
  then show ?case
    using stringify_same_kind [OF 5(1)] stringify_not_close [symmetric]
    by (cases w rule: stringify.cases) auto
next
  case (6 v vs)
  from stringify_same_kind [OF 6(3)] obtain ws where w: "w = JArr ws" by (cases w) auto
  show ?case
  proof (cases ws)
    case Nil
    with w 6(3) stringify_not_close show ?thesis by auto
  next
    case (Cons w' ws')
    with w 6(3) have "stringify v @ stringify_items vs @ r = stringify w' @ stringify_items ws' @ s"
      by simp
    from 6(1) [OF this] 6(2) Cons w show ?thesis by auto
  qed
next
  case 7
  then show ?case
    using stringify_same_kind [OF 7(1)]
    by (cases w rule: stringify.cases) (auto simp: json_quote_def)
next
  case (8 k v fs)
  from stringify_same_kind [OF 8(3)] obtain gs where w: "w = JObj gs" by (cases w) auto
  show ?case
  proof (cases gs)
    case Nil
    with w 8(3) show ?thesis by (simp add: json_quote_def)
  next
    case (Cons g gs')
    obtain k' v' where g: "g = (k', v')" by (cases g)
    from 8(3) w Cons g have eq: "k = k'"
      "stringify v @ stringify_fields fs @ r = stringify v' @ stringify_fields gs' @ s"
      by (simp_all add: json_quote_split)
    from 8(1) [OF eq(2)] 8(2) Cons w g eq(1) show ?thesis by auto
  qed
next
  case 9
  from 9 show ?case by (cases ws) simp_all
next
  case (10 v vs)
  show ?case
  proof (cases ws)
    case Nil
    with 10(3) show ?thesis by simp
  next
    case (Cons w' ws')
    with 10(3) have "stringify v @ stringify_items vs @ r = stringify w' @ stringify_items ws' @ s"
      by simp
    from 10(1) [OF this] 10(2) Cons show ?thesis by auto
  qed
next
  case 11
  from 11 show ?case by (cases gs rule: stringify_fields.cases) simp_all
next
  case (12 k v fs)
  show ?case
  proof (cases gs)
    case Nil
    with 12(3) show ?thesis by simp
  next
    case (Cons g gs')
    obtain k' v' where g: "g = (k', v')" by (cases g)
    from 12(3) Cons g have eq: "k = k'"
      "stringify v @ stringify_fields fs @ r = stringify v' @ stringify_fields gs' @ s"
      by (simp_all add: json_quote_split)
    from 12(1) [OF eq(2)] 12(2) Cons g eq(1) show ?thesis by auto
  qed
qed

lemma stringify_inj [simp]: "stringify v = stringify w \<longleftrightarrow> v = w"
  using stringify_split(1) [of v "[]" w "[]"] by (auto simp: delimited_def)

section \<open>UTF-8 is injective\<close>

lemma of_nat_byte: "m < 256 \<Longrightarrow> n < 256 \<Longrightarrow> (of_nat m :: 8 word) = of_nat n \<longleftrightarrow> m = n"
proof
  assume "m < 256" "n < 256" "(of_nat m :: 8 word) = of_nat n"
  then have "unat (of_nat m :: 8 word) = unat (of_nat n :: 8 word)" by simp
  with \<open>m < 256\<close> \<open>n < 256\<close> show "m = n" by (simp add: unsigned_of_nat take_bit_eq_mod)
qed simp

lemma utf8_char_split: "utf8_char c @ r = utf8_char d @ s \<longleftrightarrow> c = d \<and> r = s"
proof -
  let ?m = "of_char c :: nat" and ?n = "of_char d :: nat"
  have b: "?m < 256" "?n < 256" by simp_all
  have inj: "c = d \<longleftrightarrow> ?m = ?n" by simp
  have q: "?m = ?n \<longleftrightarrow> ?m div 64 = ?n div 64 \<and> ?m mod 64 = ?n mod 64"
    by (metis div_mult_mod_eq)
  have d: "192 + ?m div 64 < 256" "192 + ?n div 64 < 256"
    "128 + ?m mod 64 < 256" "128 + ?n mod 64 < 256" using b by linarith+
  have lo: "(of_nat ?m :: 8 word) \<noteq> of_nat (192 + ?n div 64)" if "?m < 128"
    using of_nat_byte [OF b(1) d(2)] that by simp
  have hi: "(of_nat (192 + ?m div 64) :: 8 word) \<noteq> of_nat ?n" if "?n < 128"
    using of_nat_byte [OF d(1) b(2)] that by simp
  show ?thesis
  proof (cases "?m < 128 \<longleftrightarrow> ?n < 128")
    case True
    have q': "c = d \<longleftrightarrow> ?m div 64 = ?n div 64 \<and> ?m mod 64 = ?n mod 64"
      using inj q by blast
    show ?thesis
    proof (cases "?n < 128")
      case low: True
      with True show ?thesis
        using of_nat_byte [OF b] by (simp add: utf8_char_def Let_def)
    next
      case high: False
      with True show ?thesis
        using of_nat_byte [OF d(1,2)] of_nat_byte [OF d(3,4)]
        unfolding q' by (simp add: utf8_char_def Let_def del: of_nat_add)
    qed
  next
    case False
    then have "?m \<noteq> ?n" by auto
    with False lo hi show ?thesis
      unfolding utf8_char_def Let_def inj
      by (cases "?n < 128") (simp_all del: of_nat_add)
  qed
qed

lemma utf8_char_nonempty: "utf8_char c \<noteq> []"
  by (simp add: utf8_char_def Let_def)

lemma utf8_inj [simp]: "utf8 s = utf8 t \<longleftrightarrow> s = t"
proof
  show "utf8 s = utf8 t \<Longrightarrow> s = t"
  proof (induction s arbitrary: t)
    case Nil
    then show ?case using utf8_char_nonempty by (cases t) (auto simp: utf8_def)
  next
    case (Cons c s)
    show ?case
    proof (cases t)
      case Nil
      with Cons.prems utf8_char_nonempty [of c] show ?thesis by (simp add: utf8_def)
    next
      case (Cons d t')
      with Cons.prems have "utf8_char c @ utf8 s = utf8_char d @ utf8 t'" by (simp add: utf8_def)
      with Cons Cons.IH [of t'] show ?thesis by (simp add: utf8_char_split)
    qed
  qed
qed simp

section \<open>Structural equality up to field order\<close>

text \<open>Every object of a value has each field name once, as a JavaScript object does.\<close>

fun wf_json :: "json \<Rightarrow> bool" where
  "wf_json (JArr vs) \<longleftrightarrow> (\<forall>v \<in> set vs. wf_json v)"
| "wf_json (JObj fs) \<longleftrightarrow> distinct (map fst fs) \<and> (\<forall>p \<in> set fs. wf_json (snd p))"
| "wf_json _ \<longleftrightarrow> True"

inductive same_value :: "json \<Rightarrow> json \<Rightarrow> bool" where
  sv_refl: "same_value v v"
| sv_arr: "list_all2 same_value vs ws \<Longrightarrow> same_value (JArr vs) (JArr ws)"
| sv_fields: "list_all2 (\<lambda>f g. fst f = fst g \<and> same_value (snd f) (snd g)) fs gs \<Longrightarrow>
     same_value (JObj fs) (JObj gs)"
| sv_order: "mset fs = mset gs \<Longrightarrow> distinct (map fst fs) \<Longrightarrow> same_value (JObj fs) (JObj gs)"
| sv_sym: "same_value v w \<Longrightarrow> same_value w v"
| sv_trans: "same_value u v \<Longrightarrow> same_value v w \<Longrightarrow> same_value u w"

lemma sort_key_perm:
  assumes "mset xs = mset ys" and "distinct (map f xs)"
  shows "sort_key f xs = sort_key f ys"
  using assms by (intro sort_key_inj_key_eq) (simp_all add: distinct_map)

lemma sortKeys_fields:
  "sortKeys (JObj fs) = JObj (sort_key fst (map (\<lambda>f. (fst f, sortKeys (snd f))) fs))"
  by (simp add: case_prod_beta')

lemma same_value_sorted: "same_value v w \<Longrightarrow> sortKeys v = sortKeys w"
proof (induction rule: same_value.induct)
  case (sv_arr vs ws)
  then have "map sortKeys vs = map sortKeys ws"
    by (induction rule: list_all2_induct) auto
  then show ?case by simp
next
  case (sv_fields fs gs)
  then have "map (\<lambda>f. (fst f, sortKeys (snd f))) fs = map (\<lambda>f. (fst f, sortKeys (snd f))) gs"
    by (induction rule: list_all2_induct) auto
  then show ?case by (simp only: sortKeys_fields)
next
  case (sv_order fs gs)
  then have "mset (map (\<lambda>f. (fst f, sortKeys (snd f))) fs) = mset (map (\<lambda>f. (fst f, sortKeys (snd f))) gs)"
    by (simp add: mset_map)
  moreover have "distinct (map fst (map (\<lambda>f. (fst f, sortKeys (snd f))) fs))"
    using sv_order by (simp add: comp_def)
  ultimately show ?case
    unfolding sortKeys_fields by (simp only: sort_key_perm)
qed auto

lemma sorted_same_value: "wf_json v \<Longrightarrow> same_value v (sortKeys v)"
proof (induction v rule: sortKeys.induct)
  case (1 vs)
  then have "list_all2 same_value vs (map sortKeys vs)"
    by (auto simp: list_all2_map2 intro: list.rel_refl_strong)
  then show ?case by (simp add: sv_arr)
next
  case (2 fs)
  let ?gs = "map (\<lambda>f. (fst f, sortKeys (snd f))) fs"
  have "list_all2 (\<lambda>f g. fst f = fst g \<and> same_value (snd f) (snd g)) fs ?gs"
    using 2 by (auto simp: list_all2_map2 intro!: list.rel_refl_strong)
  then have "same_value (JObj fs) (JObj ?gs)" by (rule sv_fields)
  moreover have "same_value (JObj ?gs) (JObj (sort_key fst ?gs))"
    using 2(2) by (intro sv_order) (simp_all add: comp_def)
  ultimately show ?case unfolding sortKeys_fields by (rule sv_trans)
qed (simp_all add: sv_refl)

section \<open>Properties\<close>

text \<open>
  C32. The bytes that are signed identify the value up to the order of object fields: two
  values have the same canonical bytes exactly when they are the same value up to reordering
  the fields of their objects, at any depth. So a signature does not depend on the order in
  which a seal was assembled, and no two different payloads share a signature.
\<close>

theorem canonicalize_iff_same_value:
  assumes "wf_json v" and "wf_json w"
  shows "canonicalize v = canonicalize w \<longleftrightarrow> same_value v w"
proof
  assume "canonicalize v = canonicalize w"
  then have "sortKeys v = sortKeys w" by (simp add: canonicalize_def)
  with assms show "same_value v w" by (metis sorted_same_value sv_sym sv_trans)
qed (simp add: canonicalize_def same_value_sorted)

theorem canonicalize_iff_same_value_witness:
  "canonicalize (JObj [(''b'', JNum 1), (''a'', JArr [JNull, JBool True])])
     = canonicalize (JObj [(''a'', JArr [JNull, JBool True]), (''b'', JNum 1)])"
proof -
  have "same_value (JObj [(''b'', JNum 1), (''a'', JArr [JNull, JBool True])])
      (JObj [(''a'', JArr [JNull, JBool True]), (''b'', JNum 1)])"
    by (rule sv_order) simp_all
  then show ?thesis
    by (subst canonicalize_iff_same_value) simp_all
qed

end
