(* ===== verification/Materiality.thy ===== *)
theory Materiality
  imports RevealState Json
begin

text \<open>
  packages/sessions/src/materiality.ts (is a scope change an escalation?) and
  policy-hash.ts (are two policies the same for deduplication?).
\<close>

section \<open>Scope changes\<close>

record materiality_check =
  isMaterial :: bool
  mc_reason :: "string option"
  mc_delta :: policy_delta
  mc_requiresReauthorization :: bool

text \<open>One step of the loop over \<open>allScopes\<close>: where a scope goes in the delta.\<close>

definition materiality_step ::
  "scope_set \<Rightarrow> scope_set \<Rightarrow> permission_scope \<Rightarrow> policy_delta \<Rightarrow> policy_delta" where
  "materiality_step old new scope delta =
     (let oldAllowed = (scope \<in> set (allow old) \<and> scope \<notin> set (deny old));
          newAllowed = (scope \<in> set (allow new) \<and> scope \<notin> set (deny new)) in
      if oldAllowed = newAllowed then delta
      else if \<not> oldAllowed \<and> newAllowed then
        (if scope \<in> set (allow old) \<or> scope \<in> set (deny old)
         then delta\<lparr>changed := changed delta @
                [\<lparr>ch_scope = scope, ch_from = GDeny, ch_to = GAllow\<rparr>]\<rparr>
         else delta\<lparr>added := added delta @ [scope]\<rparr>)
      else if scope \<in> set (deny new)
      then delta\<lparr>changed := changed delta @
             [\<lparr>ch_scope = scope, ch_from = GAllow, ch_to = GDeny\<rparr>]\<rparr>
      else delta\<lparr>removed := removed delta @ [scope]\<rparr>)"

definition empty_delta :: policy_delta where
  "empty_delta = \<lparr>added = [], removed = [], changed = []\<rparr>"

definition allScopes :: "scope_set \<Rightarrow> scope_set \<Rightarrow> permission_scope list" where
  "allScopes old new =
     set_from (set_from (allow old) @ set_from (deny old) @ set_from (allow new)
               @ set_from (deny new))"

definition scope_delta :: "scope_set \<Rightarrow> scope_set \<Rightarrow> policy_delta" where
  "scope_delta old new =
     fold (materiality_step old new) (allScopes old new) empty_delta"

fun grant_name :: "grant \<Rightarrow> string" where
  "grant_name GAllow = ''allow''"
| "grant_name GDeny = ''deny''"

definition buildReason :: "policy_delta \<Rightarrow> string" where
  "buildReason delta =
     ''Material change: '' @ join_with ''; ''
       ((if length (added delta) > 0
         then [''added: '' @ join_with '', '' (map scope_name (added delta))] else []) @
        (if length (removed delta) > 0
         then [''removed: '' @ join_with '', '' (map scope_name (removed delta))] else []) @
        (if length (changed delta) > 0
         then [''changed: '' @ join_with '', ''
                 (map (\<lambda>c. scope_name (ch_scope c) @ '' ('' @ grant_name (ch_from c) @ '' -> ''
                            @ grant_name (ch_to c) @ '')'') (changed delta))] else []))"

definition checkMateriality :: "scope_set \<Rightarrow> scope_set \<Rightarrow> materiality_check" where
  "checkMateriality old new =
     (let delta = scope_delta old new;
          material = (length (added delta) > 0 \<or> length (removed delta) > 0
                      \<or> length (changed delta) > 0);
          escalations = filter (\<lambda>c. ch_to c = GAllow) (changed delta)
      in \<lparr>isMaterial = material,
          mc_reason = (if material then Some (buildReason delta) else None),
          mc_delta = delta,
          mc_requiresReauthorization = (length (added delta) > 0 \<or> length escalations > 0)\<rparr>)"

section \<open>Policy hashes\<close>

definition scopes_json :: "permission_scope list \<Rightarrow> json" where
  "scopes_json ss = JArr (map (\<lambda>s. JStr (scope_name s)) ss)"

definition policy_json :: "scope_set \<Rightarrow> string list option \<Rightarrow> json" where
  "policy_json scopes chatIds =
     JObj [(''scopes'', JObj [(''allow'', scopes_json (allow scopes)),
                              (''deny'', scopes_json (deny scopes))]),
           (''chatIds'', JArr (map JStr (case chatIds of None \<Rightarrow> [] | Some cs \<Rightarrow> cs)))]"

definition computePolicyHash ::
  "(string \<Rightarrow> string) \<Rightarrow> (string \<Rightarrow> string) \<Rightarrow> scope_set \<Rightarrow> string list option \<Rightarrow> string" where
  "computePolicyHash collate bun_hash scopes chatIds =
     bun_hash (policy_canonicalize collate (policy_json scopes chatIds))"

section \<open>Lemmas on the delta\<close>

text \<open>What the loop has collected after the scopes \<open>S\<close>.\<close>

definition delta_invariant ::
  "scope_set \<Rightarrow> scope_set \<Rightarrow> permission_scope set \<Rightarrow> policy_delta \<Rightarrow> bool" where
  "delta_invariant old new S d \<longleftrightarrow>
     set (added d) = {s \<in> S. s \<in> effective new \<and> s \<notin> set (allow old) \<union> set (deny old)}
     \<and> set (removed d) = {s \<in> S. s \<in> effective old \<and> s \<notin> effective new \<and> s \<notin> set (deny new)}
     \<and> set (changed d) =
         {\<lparr>ch_scope = s, ch_from = GDeny, ch_to = GAllow\<rparr> |s. s \<in> S \<and> s \<in> effective new
            \<and> s \<notin> effective old \<and> s \<in> set (allow old) \<union> set (deny old)}
         \<union> {\<lparr>ch_scope = s, ch_from = GAllow, ch_to = GDeny\<rparr> |s. s \<in> S \<and> s \<in> effective old
            \<and> s \<notin> effective new \<and> s \<in> set (deny new)}"

lemma delta_invariant_empty: "delta_invariant old new {} empty_delta"
  by (simp add: delta_invariant_def empty_delta_def)

lemma delta_invariant_step:
  assumes "delta_invariant old new S d"
  shows "delta_invariant old new (insert s S) (materiality_step old new s d)"
proof -
  consider "s \<in> effective old \<longleftrightarrow> s \<in> effective new"
    | "s \<notin> effective old" "s \<in> effective new" "s \<in> set (allow old) \<union> set (deny old)"
    | "s \<notin> effective old" "s \<in> effective new" "s \<notin> set (allow old) \<union> set (deny old)"
    | "s \<in> effective old" "s \<notin> effective new" "s \<in> set (deny new)"
    | "s \<in> effective old" "s \<notin> effective new" "s \<notin> set (deny new)"
    by blast
  then show ?thesis
  proof cases
    case 1
    then have "materiality_step old new s d = d"
      by (simp add: materiality_step_def Let_def effective_def)
    with assms 1 show ?thesis by (auto simp: delta_invariant_def effective_def)
  next
    case 2
    then have "materiality_step old new s d =
        d\<lparr>changed := changed d @ [\<lparr>ch_scope = s, ch_from = GDeny, ch_to = GAllow\<rparr>]\<rparr>"
      by (auto simp: materiality_step_def Let_def effective_def)
    with assms 2 show ?thesis unfolding delta_invariant_def by auto
  next
    case 3
    then have "materiality_step old new s d = d\<lparr>added := added d @ [s]\<rparr>"
      by (auto simp: materiality_step_def Let_def effective_def)
    with assms 3 show ?thesis unfolding delta_invariant_def by auto
  next
    case 4
    then have "materiality_step old new s d =
        d\<lparr>changed := changed d @ [\<lparr>ch_scope = s, ch_from = GAllow, ch_to = GDeny\<rparr>]\<rparr>"
      by (auto simp: materiality_step_def Let_def effective_def)
    with assms 4 show ?thesis unfolding delta_invariant_def by auto
  next
    case 5
    then have "materiality_step old new s d = d\<lparr>removed := removed d @ [s]\<rparr>"
      by (auto simp: materiality_step_def Let_def effective_def)
    with assms 5 show ?thesis unfolding delta_invariant_def by auto
  qed
qed

lemma delta_invariant_fold:
  "delta_invariant old new S d \<Longrightarrow>
    delta_invariant old new (S \<union> set xs) (fold (materiality_step old new) xs d)"
proof (induction xs arbitrary: S d)
  case Nil
  then show ?case by simp
next
  case (Cons x xs)
  from Cons.IH [OF delta_invariant_step [OF Cons.prems]] show ?case by simp
qed

lemma allScopes_set:
  "set (allScopes old new) = set (allow old) \<union> set (deny old) \<union> set (allow new) \<union> set (deny new)"
  by (auto simp: allScopes_def)

lemma scope_delta_sets:
  "set (added (scope_delta old new)) = effective new - (set (allow old) \<union> set (deny old))"
  "set (removed (scope_delta old new)) = effective old - effective new - set (deny new)"
  "set (changed (scope_delta old new)) =
     {\<lparr>ch_scope = s, ch_from = GDeny, ch_to = GAllow\<rparr> |s.
        s \<in> (effective new - effective old) \<inter> (set (allow old) \<union> set (deny old))}
     \<union> {\<lparr>ch_scope = s, ch_from = GAllow, ch_to = GDeny\<rparr> |s.
        s \<in> (effective old - effective new) \<inter> set (deny new)}"
proof -
  have inv: "delta_invariant old new (set (allScopes old new)) (scope_delta old new)"
    using delta_invariant_fold [OF delta_invariant_empty, of old new "allScopes old new"]
    by (simp add: scope_delta_def)
  have sub: "effective old \<subseteq> set (allScopes old new)" "effective new \<subseteq> set (allScopes old new)"
    by (auto simp: effective_def allScopes_set)
  show "set (added (scope_delta old new)) = effective new - (set (allow old) \<union> set (deny old))"
    "set (removed (scope_delta old new)) = effective old - effective new - set (deny new)"
    "set (changed (scope_delta old new)) =
     {\<lparr>ch_scope = s, ch_from = GDeny, ch_to = GAllow\<rparr> |s.
        s \<in> (effective new - effective old) \<inter> (set (allow old) \<union> set (deny old))}
     \<union> {\<lparr>ch_scope = s, ch_from = GAllow, ch_to = GDeny\<rparr> |s.
        s \<in> (effective old - effective new) \<inter> set (deny new)}"
    using inv sub unfolding delta_invariant_def by auto
qed

lemma new_split:
  "effective new - effective old =
     (effective new - (set (allow old) \<union> set (deny old)))
     \<union> (effective new - effective old) \<inter> (set (allow old) \<union> set (deny old))"
  by (auto simp: effective_def)

lemma material_iff:
  "isMaterial (checkMateriality old new) \<longleftrightarrow> effective old \<noteq> effective new"
proof -
  let ?d = "scope_delta old new"
  have "isMaterial (checkMateriality old new) \<longleftrightarrow>
      set (added ?d) \<noteq> {} \<or> set (removed ?d) \<noteq> {} \<or> set (changed ?d) \<noteq> {}"
    by (simp add: checkMateriality_def Let_def)
  also have "\<dots> \<longleftrightarrow> effective new - effective old \<noteq> {} \<or> effective old - effective new \<noteq> {}"
    unfolding scope_delta_sets by (auto simp: effective_def)
  finally show ?thesis by auto
qed

lemma escalations_iff:
  "(\<exists>c \<in> set (changed (scope_delta old new)). ch_to c = GAllow) \<longleftrightarrow>
     (effective new - effective old) \<inter> (set (allow old) \<union> set (deny old)) \<noteq> {}"
  (is "?l \<longleftrightarrow> ?r")
proof
  assume ?l
  then obtain c where c: "c \<in> set (changed (scope_delta old new))" "ch_to c = GAllow" by blast
  from c(1) show ?r unfolding scope_delta_sets(3)
  proof (elim UnE CollectE exE conjE)
    fix s assume "c = \<lparr>ch_scope = s, ch_from = GAllow, ch_to = GDeny\<rparr>"
    with c(2) show ?r by simp
  qed blast
next
  assume ?r
  then obtain s where
    "s \<in> (effective new - effective old) \<inter> (set (allow old) \<union> set (deny old))" by blast
  then have "\<lparr>ch_scope = s, ch_from = GDeny, ch_to = GAllow\<rparr> \<in> set (changed (scope_delta old new))"
    unfolding scope_delta_sets(3) by blast
  then show ?l by (rule rev_bexI) simp
qed

lemma reauth_iff:
  "mc_requiresReauthorization (checkMateriality old new) \<longleftrightarrow> \<not> effective new \<subseteq> effective old"
proof -
  let ?d = "scope_delta old new"
  have "mc_requiresReauthorization (checkMateriality old new) \<longleftrightarrow>
      set (added ?d) \<noteq> {} \<or> (\<exists>c \<in> set (changed ?d). ch_to c = GAllow)"
    by (auto simp: checkMateriality_def Let_def filter_empty_conv)
  also have "\<dots> \<longleftrightarrow> effective new - effective old \<noteq> {}"
    unfolding escalations_iff scope_delta_sets(1) using new_split [of new old] by blast
  finally show ?thesis by auto
qed

section \<open>Lemmas on policy hashes\<close>

lemma sort_key_mset_iff:
  assumes "inj_on f (set xs \<union> set ys)"
  shows "sort_key f xs = sort_key f ys \<longleftrightarrow> mset xs = mset ys"
proof
  assume "mset xs = mset ys"
  moreover from assms have "inj_on f (set xs)" by (rule inj_on_subset) simp
  ultimately show "sort_key f xs = sort_key f ys" by (intro sort_key_inj_key_eq) simp_all
qed (metis mset_sort)

lemma normalize_strings:
  "normalize collate (JArr (map JStr ss)) = JArr (sort_key (\<lambda>v. collate (stringify v)) (map JStr ss))"
  by (simp add: comp_def)

lemma policy_canonical_eq:
  "policy_canonicalize collate (policy_json s cs) =
     stringify (JObj [(''chatIds'', normalize collate
                          (JArr (map JStr (case cs of None \<Rightarrow> [] | Some c \<Rightarrow> c)))),
                      (''scopes'', JObj [(''allow'', normalize collate (scopes_json (allow s))),
                                         (''deny'', normalize collate (scopes_json (deny s)))])])"
  by (simp add: policy_canonicalize_def policy_json_def)

lemma normalize_strings_eq:
  assumes "inj collate"
  shows "normalize collate (JArr (map JStr as)) = normalize collate (JArr (map JStr bs))
     \<longleftrightarrow> mset as = mset bs"
proof -
  have "inj_on (\<lambda>v. collate (stringify v)) A" for A
    by (rule inj_onI) (simp add: inj_eq [OF assms] stringify_inj)
  then have "normalize collate (JArr (map JStr as)) = normalize collate (JArr (map JStr bs))
      \<longleftrightarrow> mset (map JStr as) = mset (map JStr bs)"
    unfolding normalize_strings by (simp add: sort_key_mset_iff)
  also have "\<dots> \<longleftrightarrow> mset as = mset bs"
    using inj_eq [OF multiset.inj_map [of JStr], of "mset as" "mset bs"] by (simp add: inj_def)
  finally show ?thesis .
qed

lemma normalize_scopes_eq:
  assumes "inj collate"
  shows "normalize collate (scopes_json as) = normalize collate (scopes_json bs)
     \<longleftrightarrow> mset as = mset bs"
proof -
  have "scopes_json ss = JArr (map JStr (map scope_name ss))" for ss
    by (simp add: scopes_json_def)
  then have "normalize collate (scopes_json as) = normalize collate (scopes_json bs)
      \<longleftrightarrow> image_mset scope_name (mset as) = image_mset scope_name (mset bs)"
    by (simp only: normalize_strings_eq [OF assms] mset_map)
  also have "\<dots> \<longleftrightarrow> mset as = mset bs"
    using inj_eq [OF multiset.inj_map [of scope_name], of "mset as" "mset bs"]
    by (simp add: inj_def)
  finally show ?thesis .
qed

section \<open>Properties\<close>

text \<open>
  The materiality check is exact: a change is material exactly when it changes the set of
  effective scopes (moving a scope between "denied" and "absent" is not), it needs
  reauthorization exactly when it makes a scope effective that was not, a reason is given
  exactly for material changes, and the verdicts agree with those the policy package derives
  from the delta alone.
\<close>

theorem materiality_is_exact:
  "(isMaterial (checkMateriality old new) \<longleftrightarrow> effective old \<noteq> effective new)
   \<and> (mc_requiresReauthorization (checkMateriality old new) \<longleftrightarrow> \<not> effective new \<subseteq> effective old)
   \<and> (mc_reason (checkMateriality old new) = None \<longleftrightarrow> effective old = effective new)
   \<and> isMaterialChange (SingleDelta (mc_delta (checkMateriality old new)))
        = isMaterial (checkMateriality old new)
   \<and> requiresReauthorization (SingleDelta (mc_delta (checkMateriality old new)))
        = mc_requiresReauthorization (checkMateriality old new)"
proof (intro conjI material_iff reauth_iff)
  show "mc_reason (checkMateriality old new) = None \<longleftrightarrow> effective old = effective new"
    using material_iff [of old new] by (auto simp: checkMateriality_def Let_def)
  show "isMaterialChange (SingleDelta (mc_delta (checkMateriality old new)))
      = isMaterial (checkMateriality old new)"
    by (simp add: isMaterialChange_def isSingleDeltaMaterial_def checkMateriality_def Let_def)
  show "requiresReauthorization (SingleDelta (mc_delta (checkMateriality old new)))
      = mc_requiresReauthorization (checkMateriality old new)"
    by (auto simp: requiresReauthorization_def isSingleDeltaEscalation_def checkMateriality_def
        Let_def list_ex_iff filter_empty_conv)
qed

text \<open>
  C26. The string a policy hash is computed from identifies the policy up to order: two
  policies have the same canonical form exactly when their allow lists, deny lists and chat
  lists have the same elements with the same multiplicities (a missing chat list counts as
  the empty one). So equal policies always get the same hash, and two different ones get the
  same only by a collision of the hash function, whatever the total order
  \<open>localeCompare\<close> sorts by.
\<close>

theorem policy_hash_input_identifies_policy:
  assumes "inj collate"
  shows "policy_canonicalize collate (policy_json s cs)
           = policy_canonicalize collate (policy_json s' cs')
     \<longleftrightarrow> mset (allow s) = mset (allow s') \<and> mset (deny s) = mset (deny s')
         \<and> mset (case cs of None \<Rightarrow> [] | Some c \<Rightarrow> c) = mset (case cs' of None \<Rightarrow> [] | Some c \<Rightarrow> c)"
  unfolding policy_canonical_eq stringify_inj json.inject list.inject prod.inject
    normalize_strings_eq [OF assms] normalize_scopes_eq [OF assms]
  by auto

theorem policy_hash_input_identifies_policy_witness:
  "policy_canonicalize id (policy_json \<lparr>allow = [ScSend, ScReply], deny = [ScReact]\<rparr> None)
     = policy_canonicalize id (policy_json \<lparr>allow = [ScReply, ScSend], deny = [ScReact]\<rparr> (Some []))
   \<and> computePolicyHash id id \<lparr>allow = [ScSend, ScReply], deny = [ScReact]\<rparr> None
     \<noteq> computePolicyHash id id \<lparr>allow = [ScSend], deny = [ScReact]\<rparr> None"
  unfolding computePolicyHash_def id_apply [of "policy_canonicalize _ _"]
    policy_hash_input_identifies_policy [OF inj_on_id]
  by simp

end
