(* ===== verification/CredentialManager.thy ===== *)
theory CredentialManager
  imports Materiality
begin

text \<open>
  packages/sessions/src/credential-manager.ts: the in-memory life cycle of credentials.

  The closure's maps are the fields of \<open>cred_store\<close>; the two optional hooks are recorded in
  logs, in the order they are called. Every reading of the clock is an argument, and so are
  the random credential id and token of an issuance (their freshness is a hypothesis where it
  matters). Instants are kept as milliseconds. \<open>toISOString\<close> of a reading of the clock cannot
  fail; of an expiry computed from a configured time to live it can (\<open>to_iso\<close>).
\<close>

section \<open>Configuration and records\<close>

record credential_manager_config =
  defaultTtlSeconds :: int
  maxConcurrentPerOperator :: int
  tokenByteLength :: int
  renewalWindowSeconds :: int
  heartbeatGracePeriod :: int

text \<open>The host's \<open>localeCompare\<close> order and \<open>Bun.hash\<close>, which policy hashes use.\<close>

record cm_env = credential_manager_config +
  host_collate :: "string \<Rightarrow> string"
  host_hash :: "string \<Rightarrow> string"

definition DEFAULT_CONFIG :: credential_manager_config where
  "DEFAULT_CONFIG =
     \<lparr>defaultTtlSeconds = 3600, maxConcurrentPerOperator = 3, tokenByteLength = 32,
      renewalWindowSeconds = 300, heartbeatGracePeriod = 3\<rparr>"

datatype credential_status = StPending | StActive | StExpired | StRevoked

datatype revocation_reason =
  OwnerInitiated | CredentialExpired | HeartbeatTimeout | PolicyViolation
| ReauthorizationRequired

record credential_config =
  cfg_operatorId :: string
  cfg_chatIds :: "string list"
  cfg_policyId :: "string option"
  cfg_allow :: "permission_scope list option"
  cfg_deny :: "permission_scope list option"
  cfg_ttlSeconds :: "int option"

record credential_record =
  cr_credentialId :: string
  cr_token :: string
  cr_operatorId :: string
  cr_chatIds :: "string list"
  cr_effectiveScopes :: scope_set
  cr_resolvedScopes :: "permission_scope list"
  cr_policyHash :: string
  cr_status :: credential_status
  cr_heartbeatInterval :: int
  cr_lastHeartbeat :: int
  cr_issuedAt :: int
  cr_expiresAt :: int
  cr_issuedBy :: string
  cr_ttlMs :: int
  cr_revokedAt :: "int option"
  cr_revocationReason :: "revocation_reason option"

text \<open>\<open>Partial<InternalCredentialRecord>\<close>: \<open>None\<close> is \<open>undefined\<close>.\<close>

record record_updates =
  up_credentialId :: "string option"
  up_token :: "string option"
  up_operatorId :: "string option"
  up_chatIds :: "string list option"
  up_effectiveScopes :: "scope_set option"
  up_resolvedScopes :: "permission_scope list option"
  up_policyHash :: "string option"
  up_status :: "credential_status option"
  up_heartbeatInterval :: "int option"
  up_lastHeartbeat :: "int option"
  up_issuedAt :: "int option"
  up_expiresAt :: "int option"
  up_issuedBy :: "string option"
  up_ttlMs :: "int option"
  up_revokedAt :: "int option option"
  up_revocationReason :: "revocation_reason option option"

definition no_updates :: record_updates where
  "no_updates =
     \<lparr>up_credentialId = None, up_token = None, up_operatorId = None, up_chatIds = None,
      up_effectiveScopes = None, up_resolvedScopes = None, up_policyHash = None,
      up_status = None, up_heartbeatInterval = None, up_lastHeartbeat = None,
      up_issuedAt = None, up_expiresAt = None, up_issuedBy = None, up_ttlMs = None,
      up_revokedAt = None, up_revocationReason = None\<rparr>"

record cred_store =
  byId :: "(string, credential_record) js_map"
  byToken :: "(string, string) js_map"
  byOperator :: "(string, string list) js_map"
  revealStates :: "(string, reveal_store) js_map"
  mutatedCalls :: "string list"
  revokedCalls :: "credential_record list"

definition empty_cred_store :: cred_store where
  "empty_cred_store =
     \<lparr>byId = [], byToken = [], byOperator = [], revealStates = [],
      mutatedCalls = [], revokedCalls = []\<rparr>"

section \<open>Helpers of the closure\<close>

fun or_else :: "'a option \<Rightarrow> 'a \<Rightarrow> 'a" where
  "or_else (Some x) _ = x"
| "or_else None y = y"

definition upsertRecord :: "credential_record \<Rightarrow> cred_store \<Rightarrow> cred_store" where
  "upsertRecord r s =
     (let operatorCreds = or_else (map_get (byOperator s) (cr_operatorId r)) [];
          i = cr_credentialId r
      in s\<lparr>byId := map_set i r (byId s),
           byToken := map_set (cr_token r) i (byToken s),
           byOperator := map_set (cr_operatorId r)
             (if i \<in> set operatorCreds then operatorCreds else operatorCreds @ [i])
             (byOperator s)\<rparr>)"

definition apply_updates :: "record_updates \<Rightarrow> credential_record \<Rightarrow> credential_record" where
  "apply_updates u r =
     \<lparr>cr_credentialId = or_else (up_credentialId u) (cr_credentialId r),
      cr_token = or_else (up_token u) (cr_token r),
      cr_operatorId = or_else (up_operatorId u) (cr_operatorId r),
      cr_chatIds = or_else (up_chatIds u) (cr_chatIds r),
      cr_effectiveScopes = or_else (up_effectiveScopes u) (cr_effectiveScopes r),
      cr_resolvedScopes = or_else (up_resolvedScopes u) (cr_resolvedScopes r),
      cr_policyHash = or_else (up_policyHash u) (cr_policyHash r),
      cr_status = or_else (up_status u) (cr_status r),
      cr_heartbeatInterval = or_else (up_heartbeatInterval u) (cr_heartbeatInterval r),
      cr_lastHeartbeat = or_else (up_lastHeartbeat u) (cr_lastHeartbeat r),
      cr_issuedAt = or_else (up_issuedAt u) (cr_issuedAt r),
      cr_expiresAt = or_else (up_expiresAt u) (cr_expiresAt r),
      cr_issuedBy = or_else (up_issuedBy u) (cr_issuedBy r),
      cr_ttlMs = or_else (up_ttlMs u) (cr_ttlMs r),
      cr_revokedAt = or_else (up_revokedAt u) (cr_revokedAt r),
      cr_revocationReason = or_else (up_revocationReason u) (cr_revocationReason r)\<rparr>"

definition policy_relevant :: "record_updates \<Rightarrow> bool" where
  "policy_relevant u \<longleftrightarrow>
     up_effectiveScopes u \<noteq> None \<or> up_status u \<noteq> None \<or> up_revokedAt u \<noteq> None
     \<or> up_policyHash u \<noteq> None"

definition mutateRecord ::
  "string \<Rightarrow> record_updates \<Rightarrow> cred_store \<Rightarrow> credential_record result \<times> cred_store" where
  "mutateRecord credentialId updates s =
     (case map_get (byId s) credentialId of
        None \<Rightarrow>
          (Inl (InternalError (''Credential '' @ credentialId @ '' not found in store'') None), s)
      | Some existing \<Rightarrow>
          let updated = apply_updates updates existing;
              s' = s\<lparr>byId := map_set credentialId updated (byId s)\<rparr>
          in (Inr updated,
              if policy_relevant updates
              then s'\<lparr>mutatedCalls := mutatedCalls s' @ [credentialId]\<rparr> else s'))"

fun collect_active ::
  "(string, credential_record) js_map \<Rightarrow> string list \<Rightarrow> credential_record list" where
  "collect_active m [] = []"
| "collect_active m (i # ids) =
     (case map_get m i of
        Some r \<Rightarrow> if cr_status r = StActive then r # collect_active m ids
                  else collect_active m ids
      | None \<Rightarrow> collect_active m ids)"

definition getActiveForOperator :: "string \<Rightarrow> cred_store \<Rightarrow> credential_record list" where
  "getActiveForOperator operatorId s =
     (case map_get (byOperator s) operatorId of
        None \<Rightarrow> []
      | Some ids \<Rightarrow> collect_active (byId s) ids)"

definition cleanupRevealState :: "string \<Rightarrow> cred_store \<Rightarrow> cred_store" where
  "cleanupRevealState credentialId s =
     (case map_get (revealStates s) credentialId of
        None \<Rightarrow> s
      | Some store \<Rightarrow>
          s\<lparr>revealStates := map_set credentialId (reveal_restore [] store) (revealStates s)\<rparr>)"

definition revokeRecord ::
  "int \<Rightarrow> string \<Rightarrow> revocation_reason \<Rightarrow> cred_store \<Rightarrow> credential_record result \<times> cred_store" where
  "revokeRecord now credentialId reason s =
     (case mutateRecord credentialId
             (no_updates\<lparr>up_status := Some StRevoked, up_revokedAt := Some (Some now),
                         up_revocationReason := Some (Some reason)\<rparr>)
             (cleanupRevealState credentialId s) of
        (Inr r, s') \<Rightarrow> (Inr r, s'\<lparr>revokedCalls := revokedCalls s' @ [r]\<rparr>)
      | (Inl e, s') \<Rightarrow> (Inl e, s'))"

definition buildScopeSet :: "credential_config \<Rightarrow> scope_set" where
  "buildScopeSet cfg = \<lparr>allow = or_else (cfg_allow cfg) [], deny = or_else (cfg_deny cfg) []\<rparr>"

definition policyHash :: "cm_env \<Rightarrow> scope_set \<Rightarrow> string list \<Rightarrow> string" where
  "policyHash env scopes chatIds =
     computePolicyHash (host_collate env) (host_hash env) scopes (Some chatIds)"

section \<open>Operations\<close>

record issue_options =
  io_credentialId :: "string option"
  io_issuedBy :: "string option"

text \<open>
  The three readings of the clock in an issuance: for the revocation of the evicted
  credential, for \<open>issuedAt\<close>, and for the expiry.
\<close>

record issue_clock =
  t_evict :: int
  t_issue :: int
  t_expiry :: int

text \<open>Eviction of the oldest active credential once the limit is reached.\<close>

definition evict_oldest ::
  "cm_env \<Rightarrow> int \<Rightarrow> string \<Rightarrow> cred_store \<Rightarrow> unit result \<times> cred_store" where
  "evict_oldest env now operatorId s =
     (let activeCredentials = getActiveForOperator operatorId s in
      if maxConcurrentPerOperator env \<le> int (length activeCredentials)
      then (case sort_key cr_issuedAt activeCredentials of
              [] \<Rightarrow> (Inr (), s)
            | oldest # _ \<Rightarrow>
                (case revokeRecord now (cr_credentialId oldest) PolicyViolation s of
                   (Inl e, s') \<Rightarrow> (Inl e, s')
                 | (Inr _, s') \<Rightarrow> (Inr (), s')))
      else (Inr (), s))"

definition new_record ::
  "cm_env \<Rightarrow> issue_clock \<Rightarrow> string \<Rightarrow> string \<Rightarrow> credential_config \<Rightarrow> issue_options \<Rightarrow> int \<Rightarrow>
   credential_record" where
  "new_record env clk freshId freshToken cfg opts expiresAt =
     (let scopes = buildScopeSet cfg in
      \<lparr>cr_credentialId = or_else (io_credentialId opts) freshId,
       cr_token = freshToken,
       cr_operatorId = cfg_operatorId cfg,
       cr_chatIds = cfg_chatIds cfg,
       cr_effectiveScopes = scopes,
       cr_resolvedScopes = resolveScopeSet scopes,
       cr_policyHash = policyHash env scopes (cfg_chatIds cfg),
       cr_status = StActive,
       cr_heartbeatInterval = 30,
       cr_lastHeartbeat = t_issue clk,
       cr_issuedAt = t_issue clk,
       cr_expiresAt = expiresAt,
       cr_issuedBy = or_else (io_issuedBy opts) ''owner'',
       cr_ttlMs = or_else (cfg_ttlSeconds cfg) (defaultTtlSeconds env) * 1000,
       cr_revokedAt = None,
       cr_revocationReason = None\<rparr>)"

definition issueCredential ::
  "cm_env \<Rightarrow> issue_clock \<Rightarrow> string \<Rightarrow> string \<Rightarrow> credential_config \<Rightarrow> issue_options \<Rightarrow> cred_store \<Rightarrow>
   credential_record result completion \<times> cred_store" where
  "issueCredential env clk freshId freshToken cfg opts s =
     (let hash = policyHash env (buildScopeSet cfg) (cfg_chatIds cfg) in
      case evict_oldest env (t_evict clk) (cfg_operatorId cfg) s of
        (Inl e, s') \<Rightarrow> (Returned (Inl e), s')
      | (Inr _, s') \<Rightarrow>
          (case find_first (\<lambda>c. cr_policyHash c = hash)
                  (getActiveForOperator (cfg_operatorId cfg) s') of
             Some existing \<Rightarrow> (Returned (Inr existing), s')
           | None \<Rightarrow>
               (case to_iso (t_expiry clk
                        + or_else (cfg_ttlSeconds cfg) (defaultTtlSeconds env) * 1000) of
                  Threw x \<Rightarrow> (Threw x, s')
                | Returned expiresAt \<Rightarrow>
                    let r = new_record env clk freshId freshToken cfg opts expiresAt
                    in (Returned (Inr r), upsertRecord r s'))))"

text \<open>The empty credential id is falsy: \<open>if (!credentialId)\<close>.\<close>

definition getCredentialByToken ::
  "int \<Rightarrow> string \<Rightarrow> cred_store \<Rightarrow> credential_record result \<times> cred_store" where
  "getCredentialByToken now token s =
     (case map_get (byToken s) token of
        None \<Rightarrow> (Inl (NotFoundError ''credential'' token), s)
      | Some credentialId \<Rightarrow>
          if credentialId = [] then (Inl (NotFoundError ''credential'' token), s)
          else (case map_get (byId s) credentialId of
                  None \<Rightarrow> (Inl (NotFoundError ''credential'' token), s)
                | Some r \<Rightarrow>
                    if now \<ge> cr_expiresAt r
                    then (Inl (CredentialExpiredError credentialId),
                          snd (mutateRecord credentialId
                                 (no_updates\<lparr>up_status := Some StExpired\<rparr>) s))
                    else if cr_status r \<noteq> StActive
                    then (Inl (CredentialExpiredError credentialId), s)
                    else (Inr r, s)))"

definition getCredentialById :: "string \<Rightarrow> cred_store \<Rightarrow> credential_record result" where
  "getCredentialById credentialId s =
     (case map_get (byId s) credentialId of
        None \<Rightarrow> Inl (NotFoundError ''credential'' credentialId)
      | Some r \<Rightarrow> Inr r)"

definition listCredentials :: "string option \<Rightarrow> cred_store \<Rightarrow> credential_record list" where
  "listCredentials operatorId s =
     (case operatorId of
        Some i \<Rightarrow> getActiveForOperator i s
      | None \<Rightarrow> filter (\<lambda>r. cr_status r = StActive) (map_values (byId s)))"

text \<open>
  The guard that heartbeats, renewals and scope updates share: the record must exist and be
  active. The failure of the mutation behind it is mapped to "not found".
\<close>

definition with_active ::
  "string \<Rightarrow> (credential_record \<Rightarrow> 'a result \<times> cred_store) \<Rightarrow> cred_store \<Rightarrow> 'a result \<times> cred_store" where
  "with_active credentialId k s =
     (case map_get (byId s) credentialId of
        None \<Rightarrow> (Inl (NotFoundError ''credential'' credentialId), s)
      | Some r \<Rightarrow>
          if cr_status r \<noteq> StActive then (Inl (CredentialExpiredError credentialId), s)
          else k r)"

definition or_not_found ::
  "string \<Rightarrow> ('b \<Rightarrow> 'a) \<Rightarrow> 'b result \<times> cred_store \<Rightarrow> 'a result \<times> cred_store" where
  "or_not_found credentialId f res =
     (case res of
        (Inr v, s') \<Rightarrow> (Inr (f v), s')
      | (Inl _, s') \<Rightarrow> (Inl (NotFoundError ''credential'' credentialId), s'))"

definition recordHeartbeat :: "int \<Rightarrow> string \<Rightarrow> cred_store \<Rightarrow> unit result \<times> cred_store" where
  "recordHeartbeat now credentialId s =
     with_active credentialId
       (\<lambda>r. or_not_found credentialId (\<lambda>_. ())
          (mutateRecord credentialId (no_updates\<lparr>up_lastHeartbeat := Some now\<rparr>) s)) s"

text \<open>
  \<open>t_window\<close> and \<open>t_new\<close> are the two clock readings. The remaining time is compared in
  milliseconds; the context of the error holds it in seconds. The new expiry is beyond the
  range of dates only by an exception, which leaves the store alone.
\<close>

definition renewCredential ::
  "cm_env \<Rightarrow> int \<Rightarrow> int \<Rightarrow> string \<Rightarrow> cred_store \<Rightarrow>
   credential_record result completion \<times> cred_store" where
  "renewCredential env t_window t_new credentialId s =
     (case map_get (byId s) credentialId of
        None \<Rightarrow> (Returned (Inl (NotFoundError ''credential'' credentialId)), s)
      | Some r \<Rightarrow>
          if cr_status r \<noteq> StActive
          then (Returned (Inl (CredentialExpiredError credentialId)), s)
          else
            let remainingMs = cr_expiresAt r - t_window in
            if remainingMs > renewalWindowSeconds env * 1000
            then (Returned (Inl (AuthError ''Not in renewal window''
                    (Some [(''credentialId'', CtxStr credentialId),
                           (''remainingSeconds'', CtxDiv remainingMs 1000),
                           (''renewalWindowSeconds'', CtxNum (renewalWindowSeconds env))]))), s)
            else (case to_iso (t_new + cr_ttlMs r) of
                    Threw x \<Rightarrow> (Threw x, s)
                  | Returned newExpiresAt \<Rightarrow>
                      (case or_not_found credentialId id
                              (mutateRecord credentialId
                                 (no_updates\<lparr>up_expiresAt := Some newExpiresAt\<rparr>) s) of
                         (res, s') \<Rightarrow> (Returned res, s'))))"

definition updateCredentialScopes ::
  "cm_env \<Rightarrow> string \<Rightarrow> scope_set \<Rightarrow> cred_store \<Rightarrow> credential_record result \<times> cred_store" where
  "updateCredentialScopes env credentialId scopes s =
     with_active credentialId
       (\<lambda>r. or_not_found credentialId id
          (mutateRecord credentialId
             (no_updates\<lparr>up_effectiveScopes := Some scopes,
                         up_resolvedScopes := Some (resolveScopeSet scopes),
                         up_policyHash := Some (policyHash env scopes (cr_chatIds r))\<rparr>) s)) s"

definition revokeCredential ::
  "int \<Rightarrow> string \<Rightarrow> revocation_reason \<Rightarrow> cred_store \<Rightarrow> credential_record result \<times> cred_store" where
  "revokeCredential now credentialId reason s =
     (case map_get (byId s) credentialId of
        None \<Rightarrow> (Inl (NotFoundError ''credential'' credentialId), s)
      | Some _ \<Rightarrow> or_not_found credentialId id (revokeRecord now credentialId reason s))"

text \<open>\<open>clock\<close> gives the reading taken when a credential is revoked.\<close>

fun revoke_each ::
  "(string \<Rightarrow> int) \<Rightarrow> revocation_reason \<Rightarrow> credential_record list \<Rightarrow> cred_store \<Rightarrow>
   credential_record list \<times> cred_store" where
  "revoke_each clock reason [] s = ([], s)"
| "revoke_each clock reason (c # cs) s =
     (case revokeRecord (clock (cr_credentialId c)) (cr_credentialId c) reason s of
        (Inr r, s') \<Rightarrow> (case revoke_each clock reason cs s' of (rs, s'') \<Rightarrow> (r # rs, s''))
      | (Inl _, s') \<Rightarrow> revoke_each clock reason cs s')"

definition revokeAllCredentials ::
  "(string \<Rightarrow> int) \<Rightarrow> string \<Rightarrow> revocation_reason \<Rightarrow> cred_store \<Rightarrow>
   credential_record list \<times> cred_store" where
  "revokeAllCredentials clock operatorId reason s =
     revoke_each clock reason (getActiveForOperator operatorId s) s"

text \<open>
  The code returns the store object itself, which later calls mutate through the reference;
  here the store of credential \<open>i\<close> is the entry of \<open>revealStates\<close> under \<open>i\<close>, and
  \<open>grantReveal\<close> is \<open>store.record\<close> on the object \<open>getRevealState\<close> returned.
\<close>

definition getRevealState :: "string \<Rightarrow> cred_store \<Rightarrow> reveal_store result \<times> cred_store" where
  "getRevealState credentialId s =
     (case map_get (byId s) credentialId of
        None \<Rightarrow> (Inl (NotFoundError ''credential'' credentialId), s)
      | Some _ \<Rightarrow>
          (case map_get (revealStates s) credentialId of
             Some store \<Rightarrow> (Inr store, s)
           | None \<Rightarrow> (Inr createRevealStateStore,
               s\<lparr>revealStates := map_set credentialId createRevealStateStore (revealStates s)\<rparr>)))"

definition grantReveal ::
  "string \<Rightarrow> reveal_access \<Rightarrow> reveal_request \<Rightarrow> cred_store \<Rightarrow> unit result \<times> cred_store" where
  "grantReveal credentialId access request s =
     (case getRevealState credentialId s of
        (Inl e, s') \<Rightarrow> (Inl e, s')
      | (Inr store, s') \<Rightarrow> (Inr (),
          s'\<lparr>revealStates :=
               map_set credentialId (reveal_record access request store) (revealStates s')\<rparr>))"

definition setCredentialStatus ::
  "string \<Rightarrow> credential_status \<Rightarrow> cred_store \<Rightarrow> credential_record result \<times> cred_store" where
  "setCredentialStatus credentialId status s =
     (case map_get (byId s) credentialId of
        None \<Rightarrow> (Inl (NotFoundError ''credential'' credentialId), s)
      | Some _ \<Rightarrow> or_not_found credentialId id
          (mutateRecord credentialId (no_updates\<lparr>up_status := Some status\<rparr>) s))"

definition credential_checkMateriality ::
  "string \<Rightarrow> scope_set \<Rightarrow> cred_store \<Rightarrow> materiality_check result" where
  "credential_checkMateriality credentialId newScopes s =
     (case map_get (byId s) credentialId of
        None \<Rightarrow> Inl (NotFoundError ''credential'' credentialId)
      | Some r \<Rightarrow> Inr (checkMateriality (cr_effectiveScopes r) newScopes))"

definition heartbeat_deadline :: "cm_env \<Rightarrow> credential_record \<Rightarrow> int" where
  "heartbeat_deadline env r =
     cr_lastHeartbeat r + cr_heartbeatInterval r * 1000 + heartbeatGracePeriod env * 1000"

definition isHeartbeatStale :: "cm_env \<Rightarrow> int \<Rightarrow> string \<Rightarrow> cred_store \<Rightarrow> bool result" where
  "isHeartbeatStale env now credentialId s =
     (case map_get (byId s) credentialId of
        None \<Rightarrow> Inl (NotFoundError ''credential'' credentialId)
      | Some r \<Rightarrow> if cr_status r \<noteq> StActive then Inr False
                  else Inr (now \<ge> heartbeat_deadline env r))"

text \<open>
  The sweep visits the ids of \<open>byId\<close> in order and reads each record when it gets there;
  it changes no key, so the keys are those at its start.
\<close>

definition sweep_one ::
  "cm_env \<Rightarrow> int \<Rightarrow> (string \<Rightarrow> int) \<Rightarrow> credential_record \<Rightarrow> cred_store \<Rightarrow>
   (credential_record result \<times> cred_store) option" where
  "sweep_one env now clock r s =
     (if now \<ge> cr_expiresAt r
      then Some (mutateRecord (cr_credentialId r) (no_updates\<lparr>up_status := Some StExpired\<rparr>)
                   (cleanupRevealState (cr_credentialId r) s))
      else if now \<ge> heartbeat_deadline env r
      then Some (revokeRecord (clock (cr_credentialId r)) (cr_credentialId r) HeartbeatTimeout s)
      else None)"

fun sweep_loop ::
  "cm_env \<Rightarrow> int \<Rightarrow> (string \<Rightarrow> int) \<Rightarrow> string list \<Rightarrow> cred_store \<Rightarrow>
   credential_record list \<times> cred_store" where
  "sweep_loop env now clock [] s = ([], s)"
| "sweep_loop env now clock (i # ids) s =
     (case map_get (byId s) i of
        None \<Rightarrow> sweep_loop env now clock ids s
      | Some r \<Rightarrow>
          if cr_status r \<noteq> StActive then sweep_loop env now clock ids s
          else (case sweep_one env now clock r s of
                  None \<Rightarrow> sweep_loop env now clock ids s
                | Some (Inr r', s') \<Rightarrow>
                    (case sweep_loop env now clock ids s' of (rs, s'') \<Rightarrow> (r' # rs, s''))
                | Some (Inl _, s') \<Rightarrow> sweep_loop env now clock ids s'))"

definition sweepExpired ::
  "cm_env \<Rightarrow> int \<Rightarrow> (string \<Rightarrow> int) \<Rightarrow> cred_store \<Rightarrow> credential_record list \<times> cred_store" where
  "sweepExpired env now clock s = sweep_loop env now clock (map_keys (byId s)) s"

section \<open>The operations on one record\<close>

definition expire_rec :: "credential_record \<Rightarrow> credential_record" where
  "expire_rec r = r\<lparr>cr_status := StExpired\<rparr>"

definition revoke_rec :: "int \<Rightarrow> revocation_reason \<Rightarrow> credential_record \<Rightarrow> credential_record" where
  "revoke_rec t reason r =
     r\<lparr>cr_status := StRevoked, cr_revokedAt := Some t, cr_revocationReason := Some reason\<rparr>"

definition rescope_rec :: "cm_env \<Rightarrow> scope_set \<Rightarrow> credential_record \<Rightarrow> credential_record" where
  "rescope_rec env scopes r =
     r\<lparr>cr_effectiveScopes := scopes, cr_resolvedScopes := resolveScopeSet scopes,
       cr_policyHash := policyHash env scopes (cr_chatIds r)\<rparr>"

lemma or_else_simps [simp]: "or_else (Some x) y = x" "or_else None y = y"
  by simp_all

lemma apply_updates_simps [simp]:
  "apply_updates (no_updates\<lparr>up_status := Some st\<rparr>) r = r\<lparr>cr_status := st\<rparr>"
  "apply_updates (no_updates\<lparr>up_status := Some StRevoked, up_revokedAt := Some (Some t),
     up_revocationReason := Some (Some reason)\<rparr>) r = revoke_rec t reason r"
  "apply_updates (no_updates\<lparr>up_lastHeartbeat := Some t\<rparr>) r = r\<lparr>cr_lastHeartbeat := t\<rparr>"
  "apply_updates (no_updates\<lparr>up_expiresAt := Some t\<rparr>) r = r\<lparr>cr_expiresAt := t\<rparr>"
  by (simp_all add: apply_updates_def no_updates_def revoke_rec_def)

lemma apply_rescope [simp]:
  "cs = cr_chatIds r \<Longrightarrow> apply_updates (no_updates\<lparr>up_effectiveScopes := Some sc,
     up_resolvedScopes := Some (resolveScopeSet sc), up_policyHash := Some (policyHash env sc cs)\<rparr>) r
   = rescope_rec env sc r"
  by (simp add: apply_updates_def no_updates_def rescope_rec_def)

lemma policy_relevant_simps [simp]:
  "policy_relevant (no_updates\<lparr>up_status := Some st\<rparr>)"
  "policy_relevant (no_updates\<lparr>up_status := Some StRevoked, up_revokedAt := Some (Some t),
     up_revocationReason := Some (Some reason)\<rparr>)"
  "policy_relevant (no_updates\<lparr>up_effectiveScopes := Some sc, up_resolvedScopes := x,
     up_policyHash := y\<rparr>)"
  "\<not> policy_relevant (no_updates\<lparr>up_lastHeartbeat := Some t\<rparr>)"
  "\<not> policy_relevant (no_updates\<lparr>up_expiresAt := Some t\<rparr>)"
  by (simp_all add: policy_relevant_def no_updates_def)

lemma cleanup_frame [simp]:
  "byId (cleanupRevealState i s) = byId s"
  "byToken (cleanupRevealState i s) = byToken s"
  "byOperator (cleanupRevealState i s) = byOperator s"
  "mutatedCalls (cleanupRevealState i s) = mutatedCalls s"
  "revokedCalls (cleanupRevealState i s) = revokedCalls s"
  by (simp_all add: cleanupRevealState_def split: option.split)

text \<open>A store after \<open>mutateRecord\<close> and \<open>revokeRecord\<close> of a present record.\<close>

lemma mutateRecord_present:
  assumes "map_get (byId s) i = Some r"
  shows "mutateRecord i u s =
    (Inr (apply_updates u r),
     s\<lparr>byId := map_set i (apply_updates u r) (byId s),
       mutatedCalls := mutatedCalls s @ (if policy_relevant u then [i] else [])\<rparr>)"
  using assms by (simp add: mutateRecord_def Let_def)

lemma revokeRecord_present:
  assumes "map_get (byId s) i = Some r"
  shows "revokeRecord now i reason s =
    (Inr (revoke_rec now reason r),
     (cleanupRevealState i s)
       \<lparr>byId := map_set i (revoke_rec now reason r) (byId s),
        mutatedCalls := mutatedCalls s @ [i],
        revokedCalls := revokedCalls s @ [revoke_rec now reason r]\<rparr>)"
proof -
  have "map_get (byId (cleanupRevealState i s)) i = Some r" using assms by simp
  from mutateRecord_present [OF this] show ?thesis by (simp add: revokeRecord_def)
qed

lemma mutateRecord_absent:
  "map_get (byId s) i = None \<Longrightarrow> snd (mutateRecord i u s) = s"
  by (simp add: mutateRecord_def)

section \<open>How a store may evolve\<close>

text \<open>
  Every operation but an issuance leaves the indexes and the keys alone and changes each
  record by steps of a relation \<open>R\<close>.
\<close>

definition evolves ::
  "(credential_record \<Rightarrow> credential_record \<Rightarrow> bool) \<Rightarrow> cred_store \<Rightarrow> cred_store \<Rightarrow> bool" where
  "evolves R s s' \<longleftrightarrow>
     byToken s' = byToken s \<and> byOperator s' = byOperator s
     \<and> map_keys (byId s') = map_keys (byId s)
     \<and> (\<forall>i. rel_option R (map_get (byId s) i) (map_get (byId s') i))"

lemma evolves_put:
  assumes "\<And>r. R r r" and "map_get (byId s) i = Some r" and "R r r'"
    and "byId s' = map_set i r' (byId s)"
    and "byToken s' = byToken s" and "byOperator s' = byOperator s"
  shows "evolves R s s'"
  using assms by (auto simp: evolves_def map_keys_set_present option.rel_refl)

lemma evolves_frame:
  assumes "\<And>r. R r r"
    and "byId s' = byId s" and "byToken s' = byToken s" and "byOperator s' = byOperator s"
  shows "evolves R s s'"
  using assms by (simp add: evolves_def option.rel_refl)

lemma evolves_trans:
  assumes "\<And>a b c. R a b \<Longrightarrow> R b c \<Longrightarrow> R a c"
    and "evolves R s t" and "evolves R t u"
  shows "evolves R s u"
proof -
  have "rel_option R x z" if "rel_option R x y" "rel_option R y z" for x y z
    using that assms(1) by (cases x; cases y; cases z) auto
  with assms(2,3) show ?thesis unfolding evolves_def by metis
qed

lemma evolvesD:
  "evolves R s s' \<Longrightarrow> map_get (byId s) i = Some r \<Longrightarrow> \<exists>r'. map_get (byId s') i = Some r' \<and> R r r'"
  unfolding evolves_def by (metis option_rel_Some1)

lemma evolvesD':
  "evolves R s s' \<Longrightarrow> map_get (byId s') i = Some r' \<Longrightarrow> \<exists>r. map_get (byId s) i = Some r \<and> R r r'"
  unfolding evolves_def by (metis option_rel_Some2)

text \<open>The state after one round of the sweep's loop.\<close>

definition sweep_visit ::
  "cm_env \<Rightarrow> int \<Rightarrow> (string \<Rightarrow> int) \<Rightarrow> string \<Rightarrow> cred_store \<Rightarrow> cred_store" where
  "sweep_visit env now clock i s =
     (case map_get (byId s) i of
        None \<Rightarrow> s
      | Some r \<Rightarrow> if cr_status r \<noteq> StActive then s
                  else (case sweep_one env now clock r s of None \<Rightarrow> s | Some p \<Rightarrow> snd p))"

lemma sweep_loop_snd:
  "snd (sweep_loop env now clock (i # ids) s)
     = snd (sweep_loop env now clock ids (sweep_visit env now clock i s))"
  by (simp add: sweep_visit_def split: option.split prod.split sum.split)

declare sweep_loop.simps(2) [simp del]

text \<open>
  A relation on stores that contains the elementary updates of the life cycle (heartbeats,
  renewals, expiry, revocation, changes of the reveal state) contains every operation that is
  composed of them.
\<close>

locale store_steps =
  fixes E :: "cred_store \<Rightarrow> cred_store \<Rightarrow> bool"
  assumes E_refl: "E s s"
    and E_trans: "E s s' \<Longrightarrow> E s' s'' \<Longrightarrow> E s s''"
    and E_expire: "E s (snd (mutateRecord i (no_updates\<lparr>up_status := Some StExpired\<rparr>) s))"
    and E_heartbeat: "E s (snd (mutateRecord i (no_updates\<lparr>up_lastHeartbeat := Some t\<rparr>) s))"
    and E_renew: "E s (snd (mutateRecord i (no_updates\<lparr>up_expiresAt := Some t\<rparr>) s))"
    and E_revoke: "E s (snd (revokeRecord t i reason s))"
    and E_reveals: "E s (s\<lparr>revealStates := m\<rparr>)"
begin

lemma E_cleanup: "E s (cleanupRevealState i s)"
  by (simp add: cleanupRevealState_def E_refl E_reveals split: option.split)

lemma E_or_nf: "snd (or_not_found i f p) = snd p"
  by (simp add: or_not_found_def split: prod.split sum.split)

lemma by_token: "E s (snd (getCredentialByToken now token s))"
  by (simp add: getCredentialByToken_def E_expire E_refl split: option.split)

lemma heartbeat: "E s (snd (recordHeartbeat now i s))"
  by (simp add: recordHeartbeat_def with_active_def E_or_nf E_heartbeat E_refl split: option.split)

lemma renew: "E s (snd (renewCredential env t1 t2 i s))"
  by (simp add: renewCredential_def Let_def case_prod_unfold E_or_nf E_renew E_refl
      split: option.split completion.split)

lemma revoke_cred: "E s (snd (revokeCredential now i reason s))"
  by (simp add: revokeCredential_def E_or_nf E_revoke E_refl split: option.split)

lemma revoke_each: "E s (snd (revoke_each clock reason cs s))"
proof (induction cs arbitrary: s)
  case Nil
  then show ?case by (simp add: E_refl)
next
  case (Cons c cs)
  let ?p = "revokeRecord (clock (cr_credentialId c)) (cr_credentialId c) reason s"
  have "E s (snd (revoke_each clock reason cs (snd ?p)))"
    by (rule E_trans [OF E_revoke Cons.IH])
  then show ?case by (auto split: prod.split sum.split)
qed

lemma revoke_all: "E s (snd (revokeAllCredentials clock op reason s))"
  by (simp add: revokeAllCredentials_def revoke_each)

lemma sweep_one: "sweep_one env now clock r s = Some p \<Longrightarrow> E s (snd p)"
  using E_revoke E_trans [OF E_cleanup E_expire] by (auto simp: sweep_one_def split: if_splits)

lemma sweep_visit: "E s (sweep_visit env now clock i s)"
  by (auto simp: sweep_visit_def E_refl dest: sweep_one split: option.split)

lemma sweep_loop: "E s (snd (sweep_loop env now clock ids s))"
  by (induction ids arbitrary: s) (auto simp: sweep_loop_snd E_refl intro: E_trans [OF sweep_visit])

lemma sweep: "E s (snd (sweepExpired env now clock s))"
  by (simp add: sweepExpired_def sweep_loop)

lemma reveal_state: "E s (snd (getRevealState i s))"
  by (simp add: getRevealState_def E_refl E_reveals split: option.split)

lemma grant: "E s (snd (grantReveal i a q s))"
  using E_trans [OF reveal_state E_reveals]
  by (auto simp: grantReveal_def split: prod.split sum.split) (metis reveal_state snd_conv E_trans)+

lemma evict: "E s (snd (evict_oldest env now op s))"
proof -
  have "E s (snd (case p of (Inl e, s') \<Rightarrow> (Inl e, s') | (Inr r, s') \<Rightarrow> (Inr (), s')))"
    if "E s (snd p)" for p :: "credential_record result \<times> cred_store"
    using that by (auto split: prod.split sum.split)
  from this [OF E_revoke] show ?thesis
    by (auto simp: evict_oldest_def Let_def E_refl split: list.split)
qed

end

text \<open>A relation on records that the life cycle of one record stays inside.\<close>

locale life_cycle =
  fixes R :: "credential_record \<Rightarrow> credential_record \<Rightarrow> bool"
  assumes R_refl: "R r r"
    and R_trans: "R r r' \<Longrightarrow> R r' r'' \<Longrightarrow> R r r''"
    and R_expire: "R r (r\<lparr>cr_status := StExpired\<rparr>)"
    and R_revoke: "R r (revoke_rec t reason r)"
    and R_heartbeat: "R r (r\<lparr>cr_lastHeartbeat := t\<rparr>)"
    and R_renew: "R r (r\<lparr>cr_expiresAt := t\<rparr>)"
begin

lemma trans: "evolves R s t \<Longrightarrow> evolves R t u \<Longrightarrow> evolves R s u"
  by (rule evolves_trans [of R, OF R_trans])

lemma frame: "byId s' = byId s \<Longrightarrow> byToken s' = byToken s \<Longrightarrow> byOperator s' = byOperator s
    \<Longrightarrow> evolves R s s'"
  by (rule evolves_frame [of R, OF R_refl])

lemma mutate:
  assumes "\<And>r. map_get (byId s) i = Some r \<Longrightarrow> R r (apply_updates u r)"
  shows "evolves R s (snd (mutateRecord i u s))"
proof (cases "map_get (byId s) i")
  case None
  then show ?thesis by (simp add: mutateRecord_absent frame)
next
  case (Some r)
  show ?thesis
    by (rule evolves_put [of R, OF R_refl Some assms [OF Some]])
      (simp_all add: mutateRecord_present [OF Some])
qed

lemma revoke_step: "evolves R s (snd (revokeRecord now i reason s))"
proof -
  have "evolves R s (snd (mutateRecord i
      (no_updates\<lparr>up_status := Some StRevoked, up_revokedAt := Some (Some now),
         up_revocationReason := Some (Some reason)\<rparr>) (cleanupRevealState i s)))"
    by (rule trans [OF frame mutate]) (simp_all add: R_revoke)
  then show ?thesis
    by (auto simp: revokeRecord_def evolves_def split: prod.split sum.split)
qed

end

sublocale life_cycle \<subseteq> store_steps "evolves R"
proof unfold_locales
  show "evolves R s u" if "evolves R s t" "evolves R t u" for s t u using that by (rule trans)
qed (simp_all add: frame mutate revoke_step R_expire R_heartbeat R_renew)

context life_cycle begin

lemma set_status:
  "(\<And>r. R r (r\<lparr>cr_status := st\<rparr>)) \<Longrightarrow> evolves R s (snd (setCredentialStatus i st s))"
  by (simp add: setCredentialStatus_def E_or_nf mutate E_refl split: option.split)

lemma rescope:
  assumes "\<And>r. map_get (byId s) i = Some r \<Longrightarrow> cr_status r = StActive \<Longrightarrow> R r (rescope_rec env sc r)"
  shows "evolves R s (snd (updateCredentialScopes env i sc s))"
  using assms mutate [of s i]
  by (auto simp: updateCredentialScopes_def with_active_def E_or_nf E_refl split: option.split)

end

section \<open>The calls of a client\<close>

datatype cm_call =
  CallIssue issue_clock string string credential_config issue_options
| CallByToken int string
| CallHeartbeat int string
| CallRenew int int string
| CallUpdateScopes string scope_set
| CallRevoke int string revocation_reason
| CallRevokeAll "string \<Rightarrow> int" string revocation_reason
| CallRevealState string
| CallGrantReveal string reveal_access reveal_request
| CallSetStatus string credential_status
| CallSweep int "string \<Rightarrow> int"

fun cm_next :: "cm_env \<Rightarrow> cm_call \<Rightarrow> cred_store \<Rightarrow> cred_store" where
  "cm_next env (CallIssue clk i t cfg opts) s = snd (issueCredential env clk i t cfg opts s)"
| "cm_next env (CallByToken now token) s = snd (getCredentialByToken now token s)"
| "cm_next env (CallHeartbeat now i) s = snd (recordHeartbeat now i s)"
| "cm_next env (CallRenew t1 t2 i) s = snd (renewCredential env t1 t2 i s)"
| "cm_next env (CallUpdateScopes i sc) s = snd (updateCredentialScopes env i sc s)"
| "cm_next env (CallRevoke now i reason) s = snd (revokeCredential now i reason s)"
| "cm_next env (CallRevokeAll clock op reason) s = snd (revokeAllCredentials clock op reason s)"
| "cm_next env (CallRevealState i) s = snd (getRevealState i s)"
| "cm_next env (CallGrantReveal i a q) s = snd (grantReveal i a q s)"
| "cm_next env (CallSetStatus i st) s = snd (setCredentialStatus i st s)"
| "cm_next env (CallSweep now clock) s = snd (sweepExpired env now clock s)"

text \<open>
  Random ids and tokens are new and not empty, and the one caller of
  \<open>setCredentialStatus\<close> (packages/cli/src/ws/request-handler.ts) only suspends: it passes
  \<open>pending\<close>.
\<close>

fun fresh_call :: "cm_call \<Rightarrow> cred_store \<Rightarrow> bool" where
  "fresh_call (CallIssue clk i t cfg opts) s \<longleftrightarrow>
     or_else (io_credentialId opts) i \<noteq> []
     \<and> map_get (byId s) (or_else (io_credentialId opts) i) = None
     \<and> map_get (byToken s) t = None"
| "fresh_call (CallSetStatus i st) s \<longleftrightarrow> st \<noteq> StActive"
| "fresh_call _ s \<longleftrightarrow> True"

inductive cm_steps :: "cm_env \<Rightarrow> cred_store \<Rightarrow> cred_store \<Rightarrow> bool" for env where
  cm_refl: "cm_steps env s s"
| cm_call: "cm_steps env s s' \<Longrightarrow> fresh_call c s' \<Longrightarrow> cm_steps env s (cm_next env c s')"

definition cm_reachable :: "cm_env \<Rightarrow> cred_store \<Rightarrow> bool" where
  "cm_reachable env s \<longleftrightarrow> cm_steps env empty_cred_store s"

lemma cm_reachable_induct [consumes 1, case_names init call]:
  assumes "cm_reachable env s" and "P empty_cred_store"
    and "\<And>s c. cm_reachable env s \<Longrightarrow> P s \<Longrightarrow> fresh_call c s \<Longrightarrow> P (cm_next env c s)"
  shows "P s"
proof -
  have "P s" if "cm_steps env e s" "e = empty_cred_store" for e
    using that by (induction rule: cm_steps.induct) (simp_all add: assms(2,3) cm_reachable_def)
  with assms(1) show ?thesis by (simp add: cm_reachable_def)
qed

lemma cm_steps_reachable: "cm_steps env s s' \<Longrightarrow> cm_reachable env s \<Longrightarrow> cm_reachable env s'"
  by (induction rule: cm_steps.induct) (auto simp: cm_reachable_def intro: cm_call)

text \<open>An issuance evicts, and then adds at most one record that is new in every respect.\<close>

lemma issue_cases:
  obtains (kept) "snd (issueCredential env clk i t cfg opts s)
      = snd (evict_oldest env (t_evict clk) (cfg_operatorId cfg) s)"
  | (issued) e where "snd (issueCredential env clk i t cfg opts s)
      = upsertRecord (new_record env clk i t cfg opts e)
          (snd (evict_oldest env (t_evict clk) (cfg_operatorId cfg) s))"
    and "fst (issueCredential env clk i t cfg opts s)
      = Returned (Inr (new_record env clk i t cfg opts e))"
    and "fst (evict_oldest env (t_evict clk) (cfg_operatorId cfg) s) = Inr ()"
proof -
  obtain q s1 where p: "evict_oldest env (t_evict clk) (cfg_operatorId cfg) s = (q, s1)"
    by fastforce
  show thesis
  proof (cases q)
    case (Inl e)
    with p show ?thesis by (intro kept) (simp add: issueCredential_def Let_def)
  next
    case (Inr u)
    show ?thesis
    proof (cases "find_first (\<lambda>c. cr_policyHash c = policyHash env (buildScopeSet cfg) (cfg_chatIds cfg))
        (getActiveForOperator (cfg_operatorId cfg) s1)")
      case (Some r)
      with p Inr show ?thesis by (intro kept) (simp add: issueCredential_def Let_def)
    next
      case None
      show ?thesis
      proof (cases "to_iso (t_expiry clk
          + or_else (cfg_ttlSeconds cfg) (defaultTtlSeconds env) * 1000)")
        case (Returned e)
        with p Inr None show ?thesis
          by (intro issued [of e]) (simp_all add: issueCredential_def Let_def del: to_iso_Returned)
      next
        case (Threw x)
        with p Inr None show ?thesis by (intro kept) (simp add: issueCredential_def Let_def)
      qed
    qed
  qed
qed

text \<open>Every other call evolves the store by a relation that also allows what it does.\<close>

context life_cycle begin

lemma other_call:
  assumes "\<And>clk i t cfg opts. c \<noteq> CallIssue clk i t cfg opts"
    and "\<And>i st r. c = CallSetStatus i st \<Longrightarrow> R r (r\<lparr>cr_status := st\<rparr>)"
    and "\<And>i sc r. c = CallUpdateScopes i sc \<Longrightarrow> R r (rescope_rec env sc r)"
  shows "evolves R s (cm_next env c s)"
proof (cases c)
  case (CallIssue clk i t cfg opts)
  with assms(1) show ?thesis by blast
qed (use assms(2,3) in \<open>simp_all add: by_token heartbeat renew revoke_cred revoke_all reveal_state
    grant set_status sweep rescope\<close>)

end

end
