(* ===== verification/CredentialLifecycle.thy ===== *)
theory CredentialLifecycle
  imports CredentialManager
begin

text \<open>
  What the credential manager guarantees over its life: well-formed indexes, the limit on
  active credentials of an operator, the finality of revocation, what the sweep and the hooks
  do. The properties are stated for the stores a client can reach (\<open>cm_reachable\<close>).
\<close>

section \<open>Well-formed stores\<close>

definition record_consistent :: "cm_env \<Rightarrow> credential_record \<Rightarrow> bool" where
  "record_consistent env r \<longleftrightarrow>
     cr_resolvedScopes r = resolveScopeSet (cr_effectiveScopes r)
     \<and> cr_policyHash r = policyHash env (cr_effectiveScopes r) (cr_chatIds r)
     \<and> (cr_status r = StActive \<longrightarrow> cr_revokedAt r = None)
     \<and> (cr_revokedAt r = None \<longleftrightarrow> cr_revocationReason r = None)"

definition same_identity :: "cm_env \<Rightarrow> credential_record \<Rightarrow> credential_record \<Rightarrow> bool" where
  "same_identity env r r' \<longleftrightarrow>
     cr_credentialId r' = cr_credentialId r \<and> cr_token r' = cr_token r
     \<and> cr_operatorId r' = cr_operatorId r \<and> cr_chatIds r' = cr_chatIds r
     \<and> cr_issuedAt r' = cr_issuedAt r \<and> cr_issuedBy r' = cr_issuedBy r
     \<and> cr_ttlMs r' = cr_ttlMs r \<and> cr_heartbeatInterval r' = cr_heartbeatInterval r
     \<and> (cr_status r \<noteq> StActive \<longrightarrow> cr_status r' \<noteq> StActive)
     \<and> (record_consistent env r \<longrightarrow> record_consistent env r')"

lemma same_identity_trans:
  "same_identity env a b \<Longrightarrow> same_identity env b c \<Longrightarrow> same_identity env a c"
  by (auto simp: same_identity_def)

interpretation ident: life_cycle "same_identity env" for env
  by unfold_locales
    (auto simp: same_identity_def record_consistent_def revoke_rec_def)

definition store_wf :: "cm_env \<Rightarrow> cred_store \<Rightarrow> bool" where
  "store_wf env s \<longleftrightarrow>
     map_wf (byId s)
     \<and> (\<forall>i r. map_get (byId s) i = Some r \<longrightarrow>
          i \<noteq> [] \<and> cr_credentialId r = i \<and> record_consistent env r
          \<and> map_get (byToken s) (cr_token r) = Some i
          \<and> (\<exists>ids. map_get (byOperator s) (cr_operatorId r) = Some ids \<and> i \<in> set ids))
     \<and> (\<forall>t i. map_get (byToken s) t = Some i \<longrightarrow>
          (\<exists>r. map_get (byId s) i = Some r \<and> cr_token r = t))
     \<and> (\<forall>op ids. map_get (byOperator s) op = Some ids \<longrightarrow>
          distinct ids
          \<and> (\<forall>i \<in> set ids. \<exists>r. map_get (byId s) i = Some r \<and> cr_operatorId r = op))"

lemma store_wf_empty: "store_wf env empty_cred_store"
  by (simp add: store_wf_def empty_cred_store_def)

lemma store_wfD:
  assumes "store_wf env s" and "map_get (byId s) i = Some r"
  shows "i \<noteq> []" "cr_credentialId r = i" "record_consistent env r"
    "map_get (byToken s) (cr_token r) = Some i"
    "\<exists>ids. map_get (byOperator s) (cr_operatorId r) = Some ids \<and> i \<in> set ids"
  using assms unfolding store_wf_def by blast+

lemma store_wf_tokenD:
  "store_wf env s \<Longrightarrow> map_get (byToken s) t = Some i \<Longrightarrow>
     \<exists>r. map_get (byId s) i = Some r \<and> cr_token r = t"
  unfolding store_wf_def by blast

lemma store_wf_operatorD:
  assumes "store_wf env s" and "map_get (byOperator s) op = Some ids"
  shows "distinct ids" "i \<in> set ids \<Longrightarrow> \<exists>r. map_get (byId s) i = Some r \<and> cr_operatorId r = op"
  using assms unfolding store_wf_def by blast+

lemma store_wf_evolves:
  assumes wf: "store_wf env s" and ev: "evolves (same_identity env) s s'"
  shows "store_wf env s'"
proof -
  have idx: "byToken s' = byToken s" "byOperator s' = byOperator s"
    and keys: "map_keys (byId s') = map_keys (byId s)"
    using ev by (simp_all add: evolves_def)
  have fwd: "\<exists>r'. map_get (byId s') i = Some r' \<and> same_identity env r r'"
    if "map_get (byId s) i = Some r" for i r
    using evolvesD [OF ev that] .
  show ?thesis
    unfolding store_wf_def
  proof (intro conjI allI impI ballI)
    show "map_wf (byId s')" using wf keys by (simp add: store_wf_def map_wf_def map_keys_def)
  next
    fix i r' assume "map_get (byId s') i = Some r'"
    from evolvesD' [OF ev this] obtain r where r: "map_get (byId s) i = Some r"
      and step: "same_identity env r r'" by blast
    note w = store_wfD [OF wf r]
    show "i \<noteq> []" by (rule w(1))
    show "cr_credentialId r' = i" "record_consistent env r'"
      "map_get (byToken s') (cr_token r') = Some i"
      "\<exists>ids. map_get (byOperator s') (cr_operatorId r') = Some ids \<and> i \<in> set ids"
      using w step by (simp_all add: same_identity_def idx)
  next
    fix t i assume "map_get (byToken s') t = Some i"
    then show "\<exists>r. map_get (byId s') i = Some r \<and> cr_token r = t"
      using store_wf_tokenD [OF wf, of t i] fwd by (fastforce simp: idx same_identity_def)
  next
    fix op ids assume "map_get (byOperator s') op = Some ids"
    then have o: "map_get (byOperator s) op = Some ids" by (simp add: idx)
    then show "distinct ids" using store_wf_operatorD(1) [OF wf] by blast
    fix i assume "i \<in> set ids"
    with store_wf_operatorD(2) [OF wf o] obtain r
      where "map_get (byId s) i = Some r" "cr_operatorId r = op" by blast
    with fwd [of i r] show "\<exists>r. map_get (byId s') i = Some r \<and> cr_operatorId r = op"
      by (auto simp: same_identity_def)
  qed
qed

lemma upsert_simps:
  "byId (upsertRecord r s) = map_set (cr_credentialId r) r (byId s)"
  "byToken (upsertRecord r s) = map_set (cr_token r) (cr_credentialId r) (byToken s)"
  "revealStates (upsertRecord r s) = revealStates s"
  "mutatedCalls (upsertRecord r s) = mutatedCalls s"
  "revokedCalls (upsertRecord r s) = revokedCalls s"
  by (simp_all add: upsertRecord_def Let_def)

lemma upsert_operator:
  "map_get (byOperator (upsertRecord r s)) op =
     (if op = cr_operatorId r
      then let ids = or_else (map_get (byOperator s) op) [] in
           Some (if cr_credentialId r \<in> set ids then ids else ids @ [cr_credentialId r])
      else map_get (byOperator s) op)"
  by (simp add: upsertRecord_def Let_def)

lemma store_wf_upsert:
  assumes wf: "store_wf env s" and "record_consistent env r"
    and new: "cr_credentialId r \<noteq> []" "map_get (byId s) (cr_credentialId r) = None"
      "map_get (byToken s) (cr_token r) = None"
  shows "store_wf env (upsertRecord r s)"
proof -
  have fresh: "cr_credentialId r \<notin> set ids" if "map_get (byOperator s) op = Some ids" for op ids
    using store_wf_operatorD(2) [OF wf that] new(2) by force
  have other: "i \<noteq> cr_credentialId r \<and> cr_token r' \<noteq> cr_token r"
    if "map_get (byId s) i = Some r'" for i r'
    using that new(2,3) store_wfD(4) [OF wf that] by force
  show ?thesis
    unfolding store_wf_def upsert_operator upsert_simps
  proof (intro conjI allI impI ballI)
    show "map_wf (map_set (cr_credentialId r) r (byId s))"
      using wf by (simp add: store_wf_def)
  next
    fix i r'
    assume g: "map_get (map_set (cr_credentialId r) r (byId s)) i = Some r'"
    have d: "i = cr_credentialId r \<and> r' = r \<or>
        map_get (byId s) i = Some r' \<and> i \<noteq> cr_credentialId r \<and> cr_token r' \<noteq> cr_token r"
      using g other [of i r'] by (auto split: if_splits)
    show "i \<noteq> []" "cr_credentialId r' = i" "record_consistent env r'"
      using d assms(2) new(1) store_wfD(1-3) [OF wf, of i r'] by auto
    show "map_get (map_set (cr_token r) (cr_credentialId r) (byToken s)) (cr_token r') = Some i"
      using d store_wfD(4) [OF wf, of i r'] by auto
    show "\<exists>ids. (if cr_operatorId r' = cr_operatorId r
        then let ids = or_else (map_get (byOperator s) (cr_operatorId r')) [] in
             Some (if cr_credentialId r \<in> set ids then ids else ids @ [cr_credentialId r])
        else map_get (byOperator s) (cr_operatorId r')) = Some ids \<and> i \<in> set ids"
      using d store_wfD(5) [OF wf, of i r'] by (auto simp: Let_def)
  next
    fix t i assume "map_get (map_set (cr_token r) (cr_credentialId r) (byToken s)) t = Some i"
    then have "t = cr_token r \<and> i = cr_credentialId r \<or> map_get (byToken s) t = Some i"
      by (auto split: if_splits)
    then show "\<exists>r'. map_get (map_set (cr_credentialId r) r (byId s)) i = Some r' \<and> cr_token r' = t"
      using store_wf_tokenD [OF wf, of t i] new(2) by auto
  next
    fix op ids
    assume g: "(if op = cr_operatorId r
        then let ids = or_else (map_get (byOperator s) op) [] in
             Some (if cr_credentialId r \<in> set ids then ids else ids @ [cr_credentialId r])
        else map_get (byOperator s) op) = Some ids"
    show "distinct ids"
      using g store_wf_operatorD(1) [OF wf, of op] fresh [of op]
      by (cases "map_get (byOperator s) op") (auto simp: Let_def split: if_splits)
    fix i assume i: "i \<in> set ids"
    have "i = cr_credentialId r \<and> op = cr_operatorId r
        \<or> (\<exists>js. map_get (byOperator s) op = Some js \<and> i \<in> set js)"
      using g i by (cases "map_get (byOperator s) op") (auto simp: Let_def split: if_splits)
    then show "\<exists>r'. map_get (map_set (cr_credentialId r) r (byId s)) i = Some r'
        \<and> cr_operatorId r' = op"
      using store_wf_operatorD(2) [OF wf, of op] new(2) by fastforce
  qed
qed

lemma new_record_simps [simp]:
  "cr_credentialId (new_record env clk i t cfg opts e) = or_else (io_credentialId opts) i"
  "cr_token (new_record env clk i t cfg opts e) = t"
  "cr_operatorId (new_record env clk i t cfg opts e) = cfg_operatorId cfg"
  "cr_status (new_record env clk i t cfg opts e) = StActive"
  "cr_revokedAt (new_record env clk i t cfg opts e) = None"
  "cr_effectiveScopes (new_record env clk i t cfg opts e) = buildScopeSet cfg"
  "cr_chatIds (new_record env clk i t cfg opts e) = cfg_chatIds cfg"
  "cr_issuedAt (new_record env clk i t cfg opts e) = t_issue clk"
  "cr_expiresAt (new_record env clk i t cfg opts e) = e"
  "cr_policyHash (new_record env clk i t cfg opts e)
     = policyHash env (buildScopeSet cfg) (cfg_chatIds cfg)"
  "record_consistent env (new_record env clk i t cfg opts e)"
  by (simp_all add: new_record_def record_consistent_def Let_def)

lemma rescope_identity: "same_identity env r (rescope_rec env sc r)"
  by (simp add: same_identity_def record_consistent_def rescope_rec_def)

lemma status_identity: "st \<noteq> StActive \<Longrightarrow> same_identity env r (r\<lparr>cr_status := st\<rparr>)"
  by (simp add: same_identity_def record_consistent_def)

text \<open>A fresh call evolves the store, and an issuance may then add one new record.\<close>

lemma fresh_call_cases:
  assumes "fresh_call c s"
  obtains (evolved) "evolves (same_identity env) s (cm_next env c s)"
  | (issued) clk i t cfg opts e s1 where "c = CallIssue clk i t cfg opts"
    and "evolves (same_identity env) s s1"
    and "s1 = snd (evict_oldest env (t_evict clk) (cfg_operatorId cfg) s)"
    and "cm_next env c s = upsertRecord (new_record env clk i t cfg opts e) s1"
proof (cases "\<exists>clk i t cfg opts. c = CallIssue clk i t cfg opts")
  case False
  have "evolves (same_identity env) s (cm_next env c s)"
    by (rule ident.other_call)
      (use False assms in \<open>auto intro: status_identity rescope_identity\<close>)
  then show thesis by (rule evolved)
next
  case True
  then obtain clk i t cfg opts where c: "c = CallIssue clk i t cfg opts" by blast
  have ev: "evolves (same_identity env) s
      (snd (evict_oldest env (t_evict clk) (cfg_operatorId cfg) s))" by (rule ident.evict)
  show thesis
    by (cases rule: issue_cases [of env clk i t cfg opts s])
      (use c ev in \<open>auto intro: evolved issued\<close>)
qed

lemma cm_next_wf:
  assumes "store_wf env s" and "fresh_call c s"
  shows "store_wf env (cm_next env c s)"
  using assms(2)
proof (cases rule: fresh_call_cases [where env = env])
  case evolved
  with assms(1) show ?thesis by (rule store_wf_evolves)
next
  case (issued clk i t cfg opts e s1)
  let ?r = "new_record env clk i t cfg opts e"
  have "map_get (byId s1) (cr_credentialId ?r) = None"
    using assms(2) issued(1) evolvesD' [OF issued(2)] by (cases rule: option.exhaust) fastforce+
  moreover have "map_get (byToken s1) (cr_token ?r) = None" "cr_credentialId ?r \<noteq> []"
    using assms(2) issued(1,2) by (auto simp: evolves_def)
  ultimately show ?thesis
    unfolding issued(4) by (intro store_wf_upsert store_wf_evolves [OF assms(1) issued(2)]) simp_all
qed

lemma reachable_wf: "cm_reachable env s \<Longrightarrow> store_wf env s"
  by (induction rule: cm_reachable_induct) (auto simp: store_wf_empty intro: cm_next_wf)

section \<open>Inactive credentials stay inactive\<close>

text \<open>An inactive credential keeps its token and stays inactive, whatever a client calls.\<close>

definition inactive_at :: "string \<Rightarrow> string \<Rightarrow> cred_store \<Rightarrow> bool" where
  "inactive_at i t s \<longleftrightarrow>
     (\<exists>r. map_get (byId s) i = Some r \<and> cr_token r = t \<and> cr_status r \<noteq> StActive)
     \<and> map_get (byToken s) t = Some i"

lemma inactive_evolves:
  assumes "inactive_at i t s" and "evolves (same_identity env) s s'"
  shows "inactive_at i t s'"
proof -
  from assms(1) obtain r where r: "map_get (byId s) i = Some r" "cr_token r = t"
    "cr_status r \<noteq> StActive" "map_get (byToken s) t = Some i" by (auto simp: inactive_at_def)
  from evolvesD [OF assms(2) r(1)] obtain r' where "map_get (byId s') i = Some r'"
    "same_identity env r r'" by blast
  with r assms(2) show ?thesis by (auto simp: inactive_at_def same_identity_def evolves_def)
qed

lemma inactive_next:
  assumes "inactive_at i t s" and "fresh_call c s"
  shows "inactive_at i t (cm_next env c s)"
  using assms(2)
proof (cases rule: fresh_call_cases [where env = env])
  case evolved
  with assms(1) show ?thesis by (rule inactive_evolves)
next
  case (issued clk j u cfg opts e s1)
  have s1: "inactive_at i t s1" by (rule inactive_evolves [OF assms(1) issued(2)])
  have "map_get (byId s) i \<noteq> None" "map_get (byToken s) t \<noteq> None"
    using assms(1) by (auto simp: inactive_at_def)
  then have "i \<noteq> or_else (io_credentialId opts) j" "t \<noteq> u"
    using assms(2) issued(1) by auto
  with s1 show ?thesis by (simp add: issued(4) inactive_at_def upsert_simps)
qed

lemma inactive_steps: "cm_steps env s s' \<Longrightarrow> inactive_at i t s \<Longrightarrow> inactive_at i t s'"
  by (induction rule: cm_steps.induct) (auto intro: inactive_next)

section \<open>How many credentials of an operator are active\<close>

definition is_active :: "cred_store \<Rightarrow> string \<Rightarrow> bool" where
  "is_active s i \<longleftrightarrow>
     (case map_get (byId s) i of None \<Rightarrow> False | Some r \<Rightarrow> cr_status r = StActive)"

definition operator_ids :: "string \<Rightarrow> cred_store \<Rightarrow> string list" where
  "operator_ids op s = or_else (map_get (byOperator s) op) []"

lemma length_collect_active:
  "length (collect_active (byId s) ids) = length (filter (is_active s) ids)"
  by (induction ids) (auto simp: is_active_def split: option.splits)

lemma collect_active_set:
  "set (collect_active m ids)
     = {r. \<exists>i \<in> set ids. map_get m i = Some r \<and> cr_status r = StActive}"
  by (induction ids) (auto split: option.splits)

lemma active_count: "length (getActiveForOperator op s) = length (filter (is_active s) (operator_ids op s))"
  by (simp add: getActiveForOperator_def operator_ids_def length_collect_active split: option.split)

lemma active_set:
  "r \<in> set (getActiveForOperator op s) \<longleftrightarrow>
     (\<exists>i \<in> set (operator_ids op s). map_get (byId s) i = Some r \<and> cr_status r = StActive)"
  by (cases "map_get (byOperator s) op")
    (auto simp: getActiveForOperator_def operator_ids_def collect_active_set)

lemma active_of_operator:
  assumes "store_wf env s"
  shows "r \<in> set (getActiveForOperator op s) \<longleftrightarrow>
    map_get (byId s) (cr_credentialId r) = Some r \<and> cr_operatorId r = op \<and> cr_status r = StActive"
proof
  assume "r \<in> set (getActiveForOperator op s)"
  then obtain i ids where i: "map_get (byOperator s) op = Some ids" "i \<in> set ids"
    "map_get (byId s) i = Some r" "cr_status r = StActive"
    by (cases "map_get (byOperator s) op") (auto simp: active_set operator_ids_def)
  with store_wf_operatorD(2) [OF assms i(1), of i] store_wfD(2) [OF assms i(3)]
  show "map_get (byId s) (cr_credentialId r) = Some r \<and> cr_operatorId r = op \<and> cr_status r = StActive"
    by auto
next
  assume r: "map_get (byId s) (cr_credentialId r) = Some r \<and> cr_operatorId r = op
    \<and> cr_status r = StActive"
  with store_wfD(5) [OF assms, of "cr_credentialId r" r]
  show "r \<in> set (getActiveForOperator op s)" by (auto simp: active_set operator_ids_def)
qed

lemma active_evolves:
  assumes "evolves (same_identity env) s s'"
  shows "is_active s' i \<Longrightarrow> is_active s i" and "operator_ids op s' = operator_ids op s"
proof -
  show "is_active s i" if "is_active s' i"
  proof -
    from that obtain r' where "map_get (byId s') i = Some r'" "cr_status r' = StActive"
      by (auto simp: is_active_def split: option.splits)
    with evolvesD' [OF assms] show ?thesis by (fastforce simp: is_active_def same_identity_def)
  qed
  show "operator_ids op s' = operator_ids op s"
    using assms by (simp add: operator_ids_def evolves_def)
qed

lemma filter_shrinks:
  "(\<And>x. Q x \<Longrightarrow> P x) \<Longrightarrow> length (filter Q xs) \<le> length (filter P xs)"
  by (induction xs) (auto intro: le_SucI)

lemma filter_shrinks_strictly:
  "(\<And>x. Q x \<Longrightarrow> P x) \<Longrightarrow> y \<in> set xs \<Longrightarrow> P y \<Longrightarrow> \<not> Q y \<Longrightarrow>
    length (filter Q xs) < length (filter P xs)"
proof (induction xs)
  case (Cons x xs)
  have "length (filter Q xs) \<le> length (filter P xs)" using Cons.prems(1) by (rule filter_shrinks)
  with Cons show ?case by (cases "y = x") auto
qed simp

lemma active_count_evolves:
  "evolves (same_identity env) s s' \<Longrightarrow>
    length (getActiveForOperator op s') \<le> length (getActiveForOperator op s)"
  by (simp add: active_count active_evolves filter_shrinks)

text \<open>The eviction: nothing below the limit, otherwise the oldest active credential goes.\<close>

lemma evict_below:
  "int (length (getActiveForOperator op s)) < maxConcurrentPerOperator env \<Longrightarrow>
    evict_oldest env now op s = (Inr (), s)"
  by (simp add: evict_oldest_def Let_def)

lemma evict_at_limit:
  assumes "store_wf env s" and "maxConcurrentPerOperator env \<le> int (length (getActiveForOperator op s))"
    and "getActiveForOperator op s \<noteq> []"
  obtains oldest where "oldest \<in> set (getActiveForOperator op s)"
    and "\<forall>r \<in> set (getActiveForOperator op s). cr_issuedAt oldest \<le> cr_issuedAt r"
    and "evict_oldest env now op s
      = (Inr (), snd (revokeRecord now (cr_credentialId oldest) PolicyViolation s))"
proof -
  obtain oldest rest where o: "sort_key cr_issuedAt (getActiveForOperator op s) = oldest # rest"
    using assms(3) by (metis length_sort length_0_conv list.exhaust)
  from hd_sort_key_min [OF this] have m: "oldest \<in> set (getActiveForOperator op s)"
    "\<forall>r \<in> set (getActiveForOperator op s). cr_issuedAt oldest \<le> cr_issuedAt r" by auto
  from m(1) have "map_get (byId s) (cr_credentialId oldest) = Some oldest"
    using active_of_operator [OF assms(1)] by blast
  note rp = revokeRecord_present [OF this, of now PolicyViolation]
  have "evict_oldest env now op s
      = (Inr (), snd (revokeRecord now (cr_credentialId oldest) PolicyViolation s))"
    using assms(2) o by (simp add: evict_oldest_def Let_def rp)
  with m show thesis by (rule that)
qed

lemma evict_makes_room:
  assumes "store_wf env s"
    and "int (length (getActiveForOperator op s)) \<le> max 1 (maxConcurrentPerOperator env)"
  shows "int (length (getActiveForOperator op (snd (evict_oldest env now op s)))) + 1
    \<le> max 1 (maxConcurrentPerOperator env)"
proof -
  let ?n = "int (length (getActiveForOperator op s))" and ?max = "maxConcurrentPerOperator env"
  consider "?n < ?max" | "?max \<le> ?n" "getActiveForOperator op s = []"
    | "?max \<le> ?n" "getActiveForOperator op s \<noteq> []" by linarith
  then show ?thesis
  proof cases
    case 1
    then show ?thesis by (simp add: evict_below)
  next
    case 2
    then show ?thesis by (simp add: evict_oldest_def)
  next
    case 3
    obtain old where old: "old \<in> set (getActiveForOperator op s)"
      and ev: "evict_oldest env now op s
        = (Inr (), snd (revokeRecord now (cr_credentialId old) PolicyViolation s))"
      using evict_at_limit [OF assms(1) 3] by metis
    let ?i = "cr_credentialId old" and ?s = "snd (revokeRecord now (cr_credentialId old) PolicyViolation s)"
    have g: "map_get (byId s) ?i = Some old" and st: "cr_status old = StActive"
      using old active_of_operator [OF assms(1)] by blast+
    have e: "evolves (same_identity env) s ?s" by (rule ident.E_revoke)
    have "?i \<in> set (operator_ids op s)"
      using old store_wfD(2) [OF assms(1)] by (auto simp: active_set)
    moreover have "is_active s ?i" using g st by (simp add: is_active_def)
    moreover have "\<not> is_active ?s ?i"
      by (simp add: revokeRecord_present [OF g] is_active_def revoke_rec_def)
    ultimately have "length (getActiveForOperator op ?s) < length (getActiveForOperator op s)"
      unfolding active_count active_evolves(2) [OF e]
      using filter_shrinks_strictly [of "is_active ?s" "is_active s", OF active_evolves(1) [OF e]]
      by blast
    with assms(2) ev show ?thesis by simp
  qed
qed

lemma operator_ids_upsert:
  assumes "store_wf env s" and "map_get (byId s) (cr_credentialId r) = None"
  shows "operator_ids op (upsertRecord r s) =
    (if op = cr_operatorId r then operator_ids op s @ [cr_credentialId r] else operator_ids op s)"
proof -
  have "cr_credentialId r \<notin> set (operator_ids op s)"
    using store_wf_operatorD(2) [OF assms(1), of op _ "cr_credentialId r"] assms(2)
    by (cases "map_get (byOperator s) op") (auto simp: operator_ids_def)
  then show ?thesis by (auto simp: operator_ids_def upsert_operator Let_def)
qed

lemma active_count_upsert:
  assumes "store_wf env s" and "map_get (byId s) (cr_credentialId r) = None"
  shows "length (getActiveForOperator op (upsertRecord r s))
    \<le> length (getActiveForOperator op s) + (if op = cr_operatorId r then 1 else 0)"
proof -
  have "cr_credentialId r \<notin> set (operator_ids op s)"
    using store_wf_operatorD(2) [OF assms(1), of op _ "cr_credentialId r"] assms(2)
    by (cases "map_get (byOperator s) op") (auto simp: operator_ids_def)
  then have "filter (is_active (upsertRecord r s)) (operator_ids op s)
      = filter (is_active s) (operator_ids op s)"
    by (intro filter_cong) (auto simp: is_active_def upsert_simps)
  then show ?thesis
    by (cases "op = cr_operatorId r") (simp_all add: active_count operator_ids_upsert [OF assms])
qed

definition within_limit :: "cm_env \<Rightarrow> cred_store \<Rightarrow> bool" where
  "within_limit env s \<longleftrightarrow>
     (\<forall>op. int (length (getActiveForOperator op s)) \<le> max 1 (maxConcurrentPerOperator env))"

lemma within_limit_evolves:
  assumes "within_limit env s" and "evolves (same_identity env) s s'"
  shows "within_limit env s'"
proof -
  have "int (length (getActiveForOperator op s')) \<le> int (length (getActiveForOperator op s))" for op
    using active_count_evolves [OF assms(2), of op] by simp
  with assms(1) show ?thesis unfolding within_limit_def by (meson order_trans)
qed

lemma within_limit_next:
  assumes wf: "store_wf env s" and lim: "within_limit env s" and fresh: "fresh_call c s"
  shows "within_limit env (cm_next env c s)"
  using fresh
proof (cases rule: fresh_call_cases [where env = env])
  case evolved
  with lim show ?thesis by (rule within_limit_evolves)
next
  case (issued clk i t cfg opts e s1)
  have w1: "store_wf env s1" by (rule store_wf_evolves [OF wf issued(2)])
  have "map_get (byId s1) (or_else (io_credentialId opts) i) = None"
    using fresh issued(1) evolvesD' [OF issued(2)] by (cases rule: option.exhaust) fastforce+
  then have n: "length (getActiveForOperator op (cm_next env c s)) \<le>
      length (getActiveForOperator op s1) + (if op = cfg_operatorId cfg then 1 else 0)" for op
    unfolding issued(4)
    using active_count_upsert [OF w1, of "new_record env clk i t cfg opts e" op] by simp
  have room: "int (length (getActiveForOperator (cfg_operatorId cfg) s1)) + 1
      \<le> max 1 (maxConcurrentPerOperator env)"
    unfolding issued(3) using lim by (intro evict_makes_room [OF wf]) (simp add: within_limit_def)
  have "int (length (getActiveForOperator op (cm_next env c s))) \<le> max 1 (maxConcurrentPerOperator env)" for op
  proof (cases "op = cfg_operatorId cfg")
    case True
    with n [of op] room show ?thesis by simp
  next
    case False
    with n [of op] within_limit_evolves [OF lim issued(2)] show ?thesis
      unfolding within_limit_def by (smt (verit) add_0_right of_nat_mono)
  qed
  then show ?thesis by (simp add: within_limit_def)
qed

lemma within_limit_empty: "within_limit env empty_cred_store"
  by (simp add: within_limit_def getActiveForOperator_def empty_cred_store_def)

lemma reachable_within_limit: "cm_reachable env s \<Longrightarrow> within_limit env s"
  by (induction rule: cm_reachable_induct)
    (auto simp: within_limit_empty intro: within_limit_next reachable_wf)

section \<open>What the hooks are told\<close>

definition policy_part ::
  "credential_record \<Rightarrow> scope_set \<times> string \<times> credential_status \<times> int option" where
  "policy_part r = (cr_effectiveScopes r, cr_policyHash r, cr_status r, cr_revokedAt r)"

definition revocation_part ::
  "credential_record \<Rightarrow> string \<times> int option \<times> revocation_reason option" where
  "revocation_part r = (cr_credentialId r, cr_revokedAt r, cr_revocationReason r)"

text \<open>
  Between two states, the change of every record that the mutation hook must hear of has been
  reported under its key, and every change of its revocation to the revocation hook.
\<close>

definition reported :: "cred_store \<Rightarrow> cred_store \<Rightarrow> bool" where
  "reported s s' \<longleftrightarrow> (\<exists>ms rs.
     mutatedCalls s' = mutatedCalls s @ ms \<and> revokedCalls s' = revokedCalls s @ rs
     \<and> (\<forall>i r. map_get (byId s) i = Some r \<longrightarrow>
          (\<exists>r'. map_get (byId s') i = Some r'
             \<and> (policy_part r' \<noteq> policy_part r \<longrightarrow> i \<in> set ms)
             \<and> (revocation_part r' \<noteq> revocation_part r \<longrightarrow>
                  revocation_part r' \<in> set (map revocation_part rs)))))"

lemma reportedI:
  assumes "mutatedCalls s' = mutatedCalls s @ ms" and "revokedCalls s' = revokedCalls s @ rs"
    and "\<And>i r. map_get (byId s) i = Some r \<Longrightarrow>
      \<exists>r'. map_get (byId s') i = Some r'
        \<and> (policy_part r' \<noteq> policy_part r \<longrightarrow> i \<in> set ms)
        \<and> (revocation_part r' \<noteq> revocation_part r \<longrightarrow>
             revocation_part r' \<in> set (map revocation_part rs))"
  shows "reported s s'"
  using assms unfolding reported_def by blast

lemma reported_frame:
  "byId s' = byId s \<Longrightarrow> mutatedCalls s' = mutatedCalls s \<Longrightarrow> revokedCalls s' = revokedCalls s
    \<Longrightarrow> reported s s'"
  by (rule reportedI [of _ _ "[]" "[]"]) simp_all

lemma reported_trans:
  assumes "reported s t" and "reported t u"
  shows "reported s u"
proof -
  from assms(1) obtain ms rs where
    st: "mutatedCalls t = mutatedCalls s @ ms" "revokedCalls t = revokedCalls s @ rs"
    and a: "\<And>i r. map_get (byId s) i = Some r \<Longrightarrow>
      \<exists>r'. map_get (byId t) i = Some r'
        \<and> (policy_part r' \<noteq> policy_part r \<longrightarrow> i \<in> set ms)
        \<and> (revocation_part r' \<noteq> revocation_part r \<longrightarrow>
             revocation_part r' \<in> set (map revocation_part rs))"
    unfolding reported_def by blast
  from assms(2) obtain ms' rs' where
    tu: "mutatedCalls u = mutatedCalls t @ ms'" "revokedCalls u = revokedCalls t @ rs'"
    and b: "\<And>i r. map_get (byId t) i = Some r \<Longrightarrow>
      \<exists>r'. map_get (byId u) i = Some r'
        \<and> (policy_part r' \<noteq> policy_part r \<longrightarrow> i \<in> set ms')
        \<and> (revocation_part r' \<noteq> revocation_part r \<longrightarrow>
             revocation_part r' \<in> set (map revocation_part rs'))"
    unfolding reported_def by blast
  show ?thesis
  proof (rule reportedI [of _ _ "ms @ ms'" "rs @ rs'"])
    fix i r assume "map_get (byId s) i = Some r"
    from a [OF this] obtain r' where r': "map_get (byId t) i = Some r'"
      "policy_part r' \<noteq> policy_part r \<longrightarrow> i \<in> set ms"
      "revocation_part r' \<noteq> revocation_part r \<longrightarrow> revocation_part r' \<in> set (map revocation_part rs)"
      by blast
    from b [OF r'(1)] obtain r'' where "map_get (byId u) i = Some r''"
      "policy_part r'' \<noteq> policy_part r' \<longrightarrow> i \<in> set ms'"
      "revocation_part r'' \<noteq> revocation_part r' \<longrightarrow>
         revocation_part r'' \<in> set (map revocation_part rs')"
      by blast
    with r'(2,3) show "\<exists>r''. map_get (byId u) i = Some r''
        \<and> (policy_part r'' \<noteq> policy_part r \<longrightarrow> i \<in> set (ms @ ms'))
        \<and> (revocation_part r'' \<noteq> revocation_part r \<longrightarrow>
             revocation_part r'' \<in> set (map revocation_part (rs @ rs')))"
      unfolding set_append map_append by (metis UnI1 UnI2)
  qed (simp_all add: st tu)
qed

lemma reported_mutate:
  assumes "\<And>r. map_get (byId s) i = Some r \<Longrightarrow>
      revocation_part (apply_updates u r) = revocation_part r
      \<and> (policy_relevant u \<or> policy_part (apply_updates u r) = policy_part r)"
  shows "reported s (snd (mutateRecord i u s))"
proof (cases "map_get (byId s) i")
  case None
  then show ?thesis by (simp add: mutateRecord_absent reported_frame)
next
  case (Some r)
  show ?thesis
    by (rule reportedI [of _ _ "if policy_relevant u then [i] else []" "[]"])
      (use assms [OF Some] Some in \<open>auto simp: mutateRecord_present [OF Some]\<close>)
qed

lemma reported_revoke: "reported s (snd (revokeRecord t i reason s))"
proof (cases "map_get (byId s) i")
  case None
  then show ?thesis
    by (intro reported_frame) (simp_all add: revokeRecord_def mutateRecord_def)
next
  case (Some r)
  show ?thesis
    by (rule reportedI [of _ _ "[i]" "[revoke_rec t reason r]"])
      (auto simp: revokeRecord_present [OF Some])
qed

interpretation report: store_steps reported
proof unfold_locales
  show "reported s s''" if "reported s s'" "reported s' s''" for s s' s''
    using that by (rule reported_trans)
qed (simp_all add: reported_frame reported_mutate reported_revoke policy_part_def revocation_part_def)

lemma reported_next:
  assumes "fresh_call c s"
  shows "reported s (cm_next env c s)"
proof (cases c)
  case (CallIssue clk i t cfg opts)
  let ?s1 = "snd (evict_oldest env (t_evict clk) (cfg_operatorId cfg) s)"
  have ev: "reported s ?s1" by (rule report.evict)
  have ev': "evolves (same_identity env) s ?s1" by (rule ident.evict)
  show ?thesis
  proof (cases rule: issue_cases [of env clk i t cfg opts s])
    case kept
    with CallIssue ev show ?thesis by simp
  next
    case (issued e)
    have "map_get (byId ?s1) (or_else (io_credentialId opts) i) = None"
      using assms CallIssue evolvesD' [OF ev']
      by (cases rule: option.exhaust) fastforce+
    then have "reported ?s1 (upsertRecord (new_record env clk i t cfg opts e) ?s1)"
      by (intro reportedI [of _ _ "[]" "[]"]) (auto simp: upsert_simps)
    with ev show ?thesis using CallIssue issued(1) by (auto intro: reported_trans)
  qed
next
  case (CallUpdateScopes i sc)
  have "reported s (snd (mutateRecord i (no_updates\<lparr>up_effectiveScopes := Some sc,
      up_resolvedScopes := Some (resolveScopeSet sc), up_policyHash := Some (policyHash env sc (cr_chatIds r))\<rparr>) s))"
    if "map_get (byId s) i = Some r" for r
    by (rule reported_mutate) (use that in \<open>simp add: rescope_rec_def revocation_part_def\<close>)
  with CallUpdateScopes show ?thesis
    by (auto simp: updateCredentialScopes_def with_active_def report.E_or_nf report.E_refl
        split: option.split)
next
  case (CallSetStatus i st)
  have "reported s (snd (mutateRecord i (no_updates\<lparr>up_status := Some st\<rparr>) s))"
    by (rule reported_mutate) (simp add: revocation_part_def)
  with CallSetStatus show ?thesis
    by (simp add: setCredentialStatus_def report.E_or_nf report.E_refl split: option.split)
qed (simp_all add: report.by_token report.heartbeat report.renew report.revoke_cred
    report.revoke_all report.reveal_state report.grant report.sweep)

section \<open>The sweep, as a map over the records\<close>

definition due :: "cm_env \<Rightarrow> int \<Rightarrow> credential_record \<Rightarrow> bool" where
  "due env now r \<longleftrightarrow>
     cr_status r = StActive \<and> (now \<ge> cr_expiresAt r \<or> now \<ge> heartbeat_deadline env r)"

definition swept :: "cm_env \<Rightarrow> int \<Rightarrow> (string \<Rightarrow> int) \<Rightarrow> credential_record \<Rightarrow> credential_record" where
  "swept env now clock r =
     (if \<not> due env now r then r
      else if now \<ge> cr_expiresAt r then r\<lparr>cr_status := StExpired\<rparr>
      else revoke_rec (clock (cr_credentialId r)) HeartbeatTimeout r)"

definition keyed :: "cred_store \<Rightarrow> bool" where
  "keyed s \<longleftrightarrow> (\<forall>i r. map_get (byId s) i = Some r \<longrightarrow> cr_credentialId r = i)"

definition no_reveals :: "string \<Rightarrow> cred_store \<Rightarrow> bool" where
  "no_reveals i s \<longleftrightarrow> or_else (map_get (revealStates s) i) [] = []"

lemma no_reveals_cleanup: "no_reveals i (cleanupRevealState i s)"
  by (cases "map_get (revealStates s) i") (simp_all add: no_reveals_def cleanupRevealState_def)

lemma cleanup_other:
  "j \<noteq> i \<Longrightarrow> map_get (revealStates (cleanupRevealState i s)) j = map_get (revealStates s) j"
  by (simp add: cleanupRevealState_def split: option.split)

lemma sweep_one_eq:
  assumes "map_get (byId s) i = Some r" and "cr_credentialId r = i" and "cr_status r = StActive"
  shows "\<not> due env now r \<Longrightarrow> sweep_one env now clock r s = None"
    and "due env now r \<Longrightarrow> \<exists>s'. sweep_one env now clock r s = Some (Inr (swept env now clock r), s')
      \<and> byId s' = map_set i (swept env now clock r) (byId s)
      \<and> revealStates s' = revealStates (cleanupRevealState i s)"
proof -
  have g: "map_get (byId (cleanupRevealState i s)) i = Some r" using assms(1) by simp
  show "\<not> due env now r \<Longrightarrow> sweep_one env now clock r s = None"
    using assms by (auto simp: sweep_one_def due_def)
  assume d: "due env now r"
  show "\<exists>s'. sweep_one env now clock r s = Some (Inr (swept env now clock r), s')
      \<and> byId s' = map_set i (swept env now clock r) (byId s)
      \<and> revealStates s' = revealStates (cleanupRevealState i s)"
    using d assms(2) mutateRecord_present [OF g] revokeRecord_present [OF assms(1)]
    by (auto simp: sweep_one_def swept_def due_def)
qed

lemma swept_id [simp]: "cr_credentialId (swept env now clock r) = cr_credentialId r"
  by (simp add: swept_def revoke_rec_def)

text \<open>The loop from any position: what it returns and what it leaves.\<close>

lemma sweep_loop_eq:
  assumes "keyed s" and "distinct ids"
  shows "fst (sweep_loop env now clock ids s)
           = map (swept env now clock) (filter (due env now) (List.map_filter (map_get (byId s)) ids))
    \<and> map_get (byId (snd (sweep_loop env now clock ids s))) j
           = (if j \<in> set ids then map_option (swept env now clock) (map_get (byId s) j)
              else map_get (byId s) j)
    \<and> (no_reveals j s \<or> j \<in> set ids \<and> (\<exists>r. map_get (byId s) j = Some r \<and> due env now r)
         \<longrightarrow> no_reveals j (snd (sweep_loop env now clock ids s)))"
  using assms
proof (induction ids arbitrary: s)
  case Nil
  then show ?case by (simp add: map_filter_simps)
next
  case (Cons i ids)
  note IH = Cons.IH [OF _ distinct.simps(2) [THEN iffD1, THEN conjunct2, OF Cons.prems(2)]]
  have nd: "i \<notin> set ids" using Cons.prems(2) by simp
  show ?case
  proof (cases "map_get (byId s) i")
    case None
    with IH [OF Cons.prems(1)] nd show ?thesis
      by (auto simp: sweep_loop.simps(2) map_filter_simps)
  next
    case (Some r)
    have k: "cr_credentialId r = i" using Cons.prems(1) Some by (simp add: keyed_def)
    show ?thesis
    proof (cases "due env now r")
      case False
      then have sw: "swept env now clock r = r" by (simp add: swept_def)
      have "sweep_loop env now clock (i # ids) s = sweep_loop env now clock ids s"
        using Some sweep_one_eq(1) [OF Some k _ False] by (simp add: sweep_loop.simps(2))
      with IH [OF Cons.prems(1)] nd Some False sw show ?thesis by (auto simp: map_filter_simps)
    next
      case True
      then have st: "cr_status r = StActive" by (simp add: due_def)
      from sweep_one_eq(2) [OF Some k st True] obtain s' where
        one: "sweep_one env now clock r s = Some (Inr (swept env now clock r), s')"
        and by': "byId s' = map_set i (swept env now clock r) (byId s)"
        and rv: "revealStates s' = revealStates (cleanupRevealState i s)" by blast
      have k': "keyed s'" using Cons.prems(1) k by (simp add: keyed_def by')
      have same: "map_get (byId s') j = map_get (byId s) j" if "j \<in> set ids" for j
        using that nd by (auto simp: by')
      have mf: "List.map_filter (map_get (byId s')) ids = List.map_filter (map_get (byId s)) ids"
        using same by (induction ids) (auto simp: map_filter_simps split: option.split)
      have nr: "no_reveals j s' \<longleftrightarrow> j = i \<or> no_reveals j s"
        using no_reveals_cleanup [of i s] cleanup_other [of j i s]
        by (cases "j = i") (simp_all add: no_reveals_def rv)
      have lp: "sweep_loop env now clock (i # ids) s =
          (swept env now clock r # fst (sweep_loop env now clock ids s'),
           snd (sweep_loop env now clock ids s'))"
        by (simp add: sweep_loop.simps(2) Some st one split: prod.split)
      note ih = IH [OF k', unfolded mf]
      have here: "map_get (byId s') i = Some (swept env now clock r)" by (simp add: by')
      have there: "map_get (byId s') j = map_get (byId s) j" if "j \<noteq> i" using that by (simp add: by')
      show ?thesis
        unfolding lp fst_conv snd_conv
      proof (intro conjI)
        show "swept env now clock r # fst (sweep_loop env now clock ids s') =
            map (swept env now clock)
              (filter (due env now) (List.map_filter (map_get (byId s)) (i # ids)))"
          using ih Some True by (simp add: map_filter_simps)
        show "map_get (byId (snd (sweep_loop env now clock ids s'))) j =
            (if j \<in> set (i # ids) then map_option (swept env now clock) (map_get (byId s) j)
             else map_get (byId s) j)"
          using ih nd Some here there by (cases "j = i") auto
        show "no_reveals j s \<or> j \<in> set (i # ids) \<and>
            (\<exists>r. map_get (byId s) j = Some r \<and> due env now r) \<longrightarrow>
            no_reveals j (snd (sweep_loop env now clock ids s'))"
          using ih nr there by (cases "j = i") auto
      qed
    qed
  qed
qed

lemma map_filter_keys: "map_wf m \<Longrightarrow> List.map_filter (map_get m) (map_keys m) = map_values m"
proof (induction m)
  case (Cons p m)
  obtain k v where p: "p = (k, v)" by (cases p)
  have same: "map_get ((k, v) # m) j = map_get m j" if "j \<in> set (map_keys m)" for j
    using that Cons.prems p by (auto simp: map_wf_def map_get_def map_keys_def)
  have "List.map_filter (map_get ((k, v) # m)) ks = List.map_filter (map_get m) ks"
    if "set ks \<subseteq> set (map_keys m)" for ks
    using that same by (induction ks) (auto simp: map_filter_simps split: option.split)
  with Cons p show ?case
    by (simp add: map_filter_simps map_keys_def map_values_def map_wf_def map_get_def [of "_ # _" k])
qed (simp add: map_keys_def map_values_def map_filter_simps)

lemma map_get_keys: "map_get m j \<noteq> None \<longleftrightarrow> j \<in> set (map_keys m)"
  by (auto simp: map_get_def map_keys_def map_of_eq_None_iff)

lemma sweepExpired_eq:
  assumes "store_wf env s"
  shows "fst (sweepExpired env now clock s)
           = map (swept env now clock) (filter (due env now) (map_values (byId s)))"
    and "map_get (byId (snd (sweepExpired env now clock s))) j
           = map_option (swept env now clock) (map_get (byId s) j)"
    and "map_get (byId s) j = Some r \<Longrightarrow> due env now r \<Longrightarrow>
           no_reveals j (snd (sweepExpired env now clock s))"
proof -
  have k: "keyed s" using store_wfD(2) [OF assms] by (simp add: keyed_def)
  have w: "map_wf (byId s)" using assms by (simp add: store_wf_def)
  then have d: "distinct (map_keys (byId s))" by (simp add: map_wf_def map_keys_def)
  note eq = sweep_loop_eq [OF k d, of env now clock j]
  show "fst (sweepExpired env now clock s)
      = map (swept env now clock) (filter (due env now) (map_values (byId s)))"
    using eq by (simp add: sweepExpired_def map_filter_keys [OF w])
  show "map_get (byId (snd (sweepExpired env now clock s))) j
      = map_option (swept env now clock) (map_get (byId s) j)"
    using eq map_get_keys [of "byId s" j] by (auto simp: sweepExpired_def split: if_splits)
  show "no_reveals j (snd (sweepExpired env now clock s))"
    if "map_get (byId s) j = Some r" "due env now r"
    using eq that map_get_keys [of "byId s" j] by (auto simp: sweepExpired_def)
qed

lemma swept_not_due: "\<not> due env now (swept env now clock r)"
  by (simp add: swept_def due_def revoke_rec_def)

section \<open>Properties\<close>

text \<open>
  C11. The three indexes of the credential manager always agree: every credential is stored
  under its own id, is found by its token and listed under its operator, no token and no
  operator entry dangles, the resolved scopes and the policy hash are those of the scopes it
  holds, and an active credential has no revocation date.
\<close>

theorem credential_store_invariant:
  assumes "cm_reachable env s"
  shows "(\<forall>i r. map_get (byId s) i = Some r \<longrightarrow>
            cr_credentialId r = i \<and> map_get (byToken s) (cr_token r) = Some i
            \<and> i \<in> set (operator_ids (cr_operatorId r) s)
            \<and> cr_resolvedScopes r = resolveScopeSet (cr_effectiveScopes r)
            \<and> cr_policyHash r = policyHash env (cr_effectiveScopes r) (cr_chatIds r)
            \<and> (cr_status r = StActive \<longrightarrow> cr_revokedAt r = None))
       \<and> (\<forall>t i. map_get (byToken s) t = Some i \<longrightarrow>
            (\<exists>r. map_get (byId s) i = Some r \<and> cr_token r = t))
       \<and> (\<forall>op. distinct (operator_ids op s) \<and>
            (\<forall>i \<in> set (operator_ids op s). \<exists>r. map_get (byId s) i = Some r \<and> cr_operatorId r = op))"
proof -
  note wf = reachable_wf [OF assms]
  have "i \<in> set (operator_ids (cr_operatorId r) s)" if "map_get (byId s) i = Some r" for i r
    using store_wfD(5) [OF wf that] by (auto simp: operator_ids_def)
  moreover have "distinct (operator_ids op s) \<and>
      (\<forall>i \<in> set (operator_ids op s). \<exists>r. map_get (byId s) i = Some r \<and> cr_operatorId r = op)" for op
    using store_wf_operatorD [OF wf, of op]
    by (cases "map_get (byOperator s) op") (auto simp: operator_ids_def)
  ultimately show ?thesis
    using store_wfD(2-4) [OF wf] store_wf_tokenD [OF wf] by (auto simp: record_consistent_def)
qed

text \<open>A small store, in which the properties are tried: one operator, limit two.\<close>

definition demo_env :: cm_env where
  "demo_env =
     \<lparr>defaultTtlSeconds = 3600, maxConcurrentPerOperator = 2, tokenByteLength = 32,
      renewalWindowSeconds = 300, heartbeatGracePeriod = 3,
      host_collate = (\<lambda>s. s), host_hash = (\<lambda>s. s)\<rparr>"

definition demo_config :: "permission_scope list \<Rightarrow> credential_config" where
  "demo_config scopes =
     \<lparr>cfg_operatorId = ''op_1'', cfg_chatIds = [''conv_1''], cfg_policyId = None,
      cfg_allow = Some scopes, cfg_deny = None, cfg_ttlSeconds = None\<rparr>"

definition demo_issue :: "int \<Rightarrow> string \<Rightarrow> permission_scope list \<Rightarrow> cm_call" where
  "demo_issue t i scopes =
     CallIssue \<lparr>t_evict = t, t_issue = t, t_expiry = t\<rparr> i (''token-of-'' @ i) (demo_config scopes)
       \<lparr>io_credentialId = None, io_issuedBy = None\<rparr>"

definition demo_store :: "nat \<Rightarrow> cred_store" where
  "demo_store n = foldl (\<lambda>s c. cm_next demo_env c s) empty_cred_store
     (take n [demo_issue 1000 ''cred_a'' [ScSend], demo_issue 2000 ''cred_b'' [ScReply],
              demo_issue 3000 ''cred_c'' [ScReact]])"

lemma demo_fresh:
  "fresh_call (demo_issue 1000 ''cred_a'' [ScSend]) (demo_store 0)"
  "fresh_call (demo_issue 2000 ''cred_b'' [ScReply]) (demo_store 1)"
  "fresh_call (demo_issue 3000 ''cred_c'' [ScReact]) (demo_store 2)"
  by code_simp+

lemma demo_store_Suc:
  "demo_store 0 = empty_cred_store"
  "demo_store 1 = cm_next demo_env (demo_issue 1000 ''cred_a'' [ScSend]) (demo_store 0)"
  "demo_store 2 = cm_next demo_env (demo_issue 2000 ''cred_b'' [ScReply]) (demo_store 1)"
  "demo_store 3 = cm_next demo_env (demo_issue 3000 ''cred_c'' [ScReact]) (demo_store 2)"
  by (simp_all add: demo_store_def eval_nat_numeral del: cm_next.simps)

lemma demo_reachable: "cm_reachable demo_env (demo_store 2)" "cm_reachable demo_env (demo_store 3)"
proof -
  have "cm_steps demo_env empty_cred_store (demo_store 1)"
    using cm_call [OF cm_refl, OF demo_fresh(1), of demo_env]
    by (simp only: demo_store_Suc(1,2))
  from cm_call [OF this demo_fresh(2)] have two: "cm_steps demo_env empty_cred_store (demo_store 2)"
    by (simp only: demo_store_Suc(3))
  from cm_call [OF this demo_fresh(3)] have "cm_steps demo_env empty_cred_store (demo_store 3)"
    by (simp only: demo_store_Suc(4))
  with two show "cm_reachable demo_env (demo_store 2)" "cm_reachable demo_env (demo_store 3)"
    by (simp_all only: cm_reachable_def)
qed

theorem credential_store_invariant_witness:
  "\<exists>r. map_get (byId (demo_store 3)) ''cred_c'' = Some r
     \<and> map_get (byToken (demo_store 3)) (cr_token r) = Some ''cred_c''"
proof -
  have "map_get (byId (demo_store 3)) ''cred_c'' \<noteq> None" by code_simp
  then obtain r where "map_get (byId (demo_store 3)) ''cred_c'' = Some r" by blast
  with credential_store_invariant [OF demo_reachable(2)] show ?thesis by blast
qed

text \<open>
  C10. An operator never holds more active credentials than the configured maximum (or one,
  when the maximum is not positive), whatever its clients call.
\<close>

theorem concurrency_limit:
  assumes "cm_reachable env s"
  shows "int (length (getActiveForOperator op s)) \<le> max 1 (maxConcurrentPerOperator env)"
  using reachable_within_limit [OF assms] by (simp add: within_limit_def)

theorem concurrency_limit_witness:
  "int (length (getActiveForOperator ''op_1'' (demo_store 3))) \<le> 2
   \<and> map (\<lambda>r. cr_credentialId r) (getActiveForOperator ''op_1'' (demo_store 3)) = [''cred_b'', ''cred_c'']"
proof
  have "max 1 (maxConcurrentPerOperator demo_env) = 2" by code_simp
  with concurrency_limit [OF demo_reachable(2), of "''op_1''"]
  show "int (length (getActiveForOperator ''op_1'' (demo_store 3))) \<le> 2" by simp
  show "map (\<lambda>r. cr_credentialId r) (getActiveForOperator ''op_1'' (demo_store 3)) = [''cred_b'', ''cred_c'']"
    by code_simp
qed

text \<open>
  C9. A bearer token opens exactly one active credential and only before its expiry: the
  lookup succeeds just when the stored credential with that token is active and unexpired, an
  unknown token is "not found", and every other failure is "credential expired".
\<close>

theorem token_lookup_exact:
  assumes "cm_reachable env s"
  shows "(fst (getCredentialByToken now token s) = Inr r \<longleftrightarrow>
            map_get (byId s) (cr_credentialId r) = Some r \<and> cr_token r = token
            \<and> cr_status r = StActive \<and> now < cr_expiresAt r)
       \<and> (fst (getCredentialByToken now token s) = Inl (NotFoundError ''credential'' token) \<longleftrightarrow>
            (\<forall>i r. map_get (byId s) i = Some r \<longrightarrow> cr_token r \<noteq> token))
       \<and> (fst (getCredentialByToken now token s) = Inl (CredentialExpiredError i) \<longleftrightarrow>
            (\<exists>r. map_get (byId s) i = Some r \<and> cr_token r = token
               \<and> (cr_status r \<noteq> StActive \<or> cr_expiresAt r \<le> now)))"
proof -
  note wf = reachable_wf [OF assms]
  show ?thesis
  proof (cases "map_get (byToken s) token")
    case None
    have "cr_token r \<noteq> token" if "map_get (byId s) i = Some r" for i r
      using store_wfD(4) [OF wf that] None by auto
    with None show ?thesis by (auto simp: getCredentialByToken_def)
  next
    case (Some j)
    from store_wf_tokenD [OF wf Some] obtain q where q: "map_get (byId s) j = Some q" "cr_token q = token"
      by blast
    note w = store_wfD [OF wf q(1)]
    have uniq: "i = j \<and> r = q" if "map_get (byId s) i = Some r" "cr_token r = token" for i r
      using store_wfD(4) [OF wf that(1)] that q Some by auto
    have res: "fst (getCredentialByToken now token s) =
        (if cr_expiresAt q \<le> now \<or> cr_status q \<noteq> StActive then Inl (CredentialExpiredError j)
         else Inr q)"
      using Some q(1) w(1) by (simp add: getCredentialByToken_def)
    show ?thesis
      unfolding res
    proof (intro conjI)
      show "((if cr_expiresAt q \<le> now \<or> cr_status q \<noteq> StActive then Inl (CredentialExpiredError j)
          else Inr q) = Inr r) \<longleftrightarrow>
          map_get (byId s) (cr_credentialId r) = Some r \<and> cr_token r = token
          \<and> cr_status r = StActive \<and> now < cr_expiresAt r"
        using q w(2) uniq [of "cr_credentialId r" r] by (auto simp: not_le)
      show "((if cr_expiresAt q \<le> now \<or> cr_status q \<noteq> StActive then Inl (CredentialExpiredError j)
          else Inr q) = Inl (NotFoundError ''credential'' token)) \<longleftrightarrow>
          (\<forall>i r. map_get (byId s) i = Some r \<longrightarrow> cr_token r \<noteq> token)"
        using q by auto
      show "((if cr_expiresAt q \<le> now \<or> cr_status q \<noteq> StActive then Inl (CredentialExpiredError j)
          else Inr q) = Inl (CredentialExpiredError i)) \<longleftrightarrow>
          (\<exists>r. map_get (byId s) i = Some r \<and> cr_token r = token
             \<and> (cr_status r \<noteq> StActive \<or> cr_expiresAt r \<le> now))"
      proof -
        have "(\<exists>r. map_get (byId s) i = Some r \<and> cr_token r = token \<and> P r) \<longleftrightarrow> i = j \<and> P q" for P
          using q uniq by blast
        then show ?thesis by auto
      qed
    qed
  qed
qed

theorem token_lookup_exact_witness:
  "(\<exists>r. fst (getCredentialByToken 4000 ''token-of-cred_c'' (demo_store 3)) = Inr r)
   \<and> fst (getCredentialByToken 4000 ''token-of-cred_a'' (demo_store 3))
       = Inl (CredentialExpiredError ''cred_a'')
   \<and> fst (getCredentialByToken 4000 ''other'' (demo_store 3))
       \<noteq> Inl (CredentialExpiredError ''cred_a'')"
proof (intro conjI)
  let ?s = "demo_store 3"
  have c: "map_option (\<lambda>r. (cr_credentialId r, cr_token r, cr_status r, cr_expiresAt r))
      (map_get (byId ?s) ''cred_c'') = Some (''cred_c'', ''token-of-cred_c'', StActive, 3603000)"
    by code_simp
  obtain r where "map_get (byId ?s) ''cred_c'' = Some r" "cr_credentialId r = ''cred_c''"
    "cr_token r = ''token-of-cred_c''" "cr_status r = StActive" "4000 < cr_expiresAt r"
    by (cases "map_get (byId ?s) ''cred_c''") (use c in auto)
  then have "fst (getCredentialByToken 4000 ''token-of-cred_c'' ?s) = Inr r"
    using token_lookup_exact [OF demo_reachable(2), of 4000 "''token-of-cred_c''" r] by metis
  then show "\<exists>r. fst (getCredentialByToken 4000 ''token-of-cred_c'' ?s) = Inr r" ..
  have "map_option (\<lambda>r. (cr_token r, cr_status r)) (map_get (byId ?s) ''cred_a'')
      = Some (''token-of-cred_a'', StRevoked)" by code_simp
  then obtain r where "map_get (byId ?s) ''cred_a'' = Some r" "cr_token r = ''token-of-cred_a''"
    "cr_status r \<noteq> StActive"
    by (cases "map_get (byId ?s) ''cred_a''") auto
  then show "fst (getCredentialByToken 4000 ''token-of-cred_a'' ?s)
      = Inl (CredentialExpiredError ''cred_a'')"
    using token_lookup_exact [OF demo_reachable(2), of 4000 "''token-of-cred_a''" _ "''cred_a''"]
    by blast
  show "fst (getCredentialByToken 4000 ''other'' ?s) \<noteq> Inl (CredentialExpiredError ''cred_a'')"
    by code_simp
qed

text \<open>
  C1. Revocation is final. Once a revocation has succeeded, the credential's reveal grants
  are gone, and whatever clients call afterwards, its token never opens it again, it is in no
  list of active credentials, and no heartbeat, renewal or scope update of it succeeds.
\<close>

theorem revocation_is_final:
  assumes "cm_reachable env s" and "revokeCredential now i reason s = (Inr r, s1)"
    and "cm_steps env s1 s2"
  shows "no_reveals i s1
    \<and> fst (getCredentialByToken now' (cr_token r) s2) = Inl (CredentialExpiredError i)
    \<and> (\<forall>q \<in> set (listCredentials op s2). cr_credentialId q \<noteq> i)
    \<and> fst (recordHeartbeat now' i s2) = Inl (CredentialExpiredError i)
    \<and> fst (renewCredential env now' now'' i s2) = Returned (Inl (CredentialExpiredError i))
    \<and> fst (updateCredentialScopes env i scopes s2) = Inl (CredentialExpiredError i)"
proof -
  note wf = reachable_wf [OF assms(1)]
  have "\<exists>q. map_get (byId s) i = Some q"
    using assms(2) by (cases "map_get (byId s) i") (simp_all add: revokeCredential_def)
  then obtain q where q: "map_get (byId s) i = Some q" ..
  note w = store_wfD [OF wf q]
  have s1: "s1 = snd (revokeRecord now i reason s)" and r: "r = revoke_rec now reason q"
    using assms(2) q revokeRecord_present [OF q, of now reason]
    by (auto simp: revokeCredential_def or_not_found_def)
  have t: "cr_token r = cr_token q" by (simp add: r revoke_rec_def)
  have "inactive_at i (cr_token r) s1"
    using w(4) by (simp add: s1 t revokeRecord_present [OF q] inactive_at_def revoke_rec_def)
  from inactive_steps [OF assms(3) this] obtain p where
    p: "map_get (byId s2) i = Some p" "cr_token p = cr_token r" "cr_status p \<noteq> StActive"
      "map_get (byToken s2) (cr_token r) = Some i" by (auto simp: inactive_at_def)
  have "cm_reachable env s1"
    using cm_call [OF assms(1) [unfolded cm_reachable_def], of "CallRevoke now i reason"] assms(2)
    by (simp add: cm_reachable_def)
  then have wf2: "store_wf env s2" by (intro reachable_wf cm_steps_reachable [OF assms(3)])
  have lists: "cr_credentialId q' \<noteq> i" if "q' \<in> set (listCredentials op s2)" for q'
  proof -
    have "map_wf (byId s2)" using wf2 by (simp add: store_wf_def)
    then have "\<exists>k. map_get (byId s2) k = Some q' \<and> cr_status q' = StActive"
      using that by (auto simp: listCredentials_def active_set map_values_iff split: option.splits)
    then show ?thesis using store_wfD(2) [OF wf2] p(1,3) by auto
  qed
  have "no_reveals i s1"
    using no_reveals_cleanup [of i s] by (simp add: s1 revokeRecord_present [OF q] no_reveals_def)
  with p store_wfD(1) [OF wf2 p(1)] lists show ?thesis
    by (simp add: getCredentialByToken_def recordHeartbeat_def renewCredential_def
        updateCredentialScopes_def with_active_def)
qed

theorem revocation_is_final_witness:
  "fst (getCredentialByToken 9000 ''token-of-cred_c''
      (snd (revokeCredential 5000 ''cred_c'' OwnerInitiated (demo_store 3))))
     = Inl (CredentialExpiredError ''cred_c'')"
proof -
  let ?p = "revokeCredential 5000 ''cred_c'' OwnerInitiated (demo_store 3)"
  obtain r s1 where p: "?p = (r, s1)" by fastforce
  have "(case fst ?p of Inr q \<Rightarrow> cr_token q = ''token-of-cred_c'' | Inl _ \<Rightarrow> False)" by code_simp
  then obtain q where q: "?p = (Inr q, s1)" "cr_token q = ''token-of-cred_c''"
    using p by (cases r) auto
  have "fst (getCredentialByToken 9000 (cr_token q) s1) = Inl (CredentialExpiredError ''cred_c'')"
    using revocation_is_final [OF demo_reachable(2) q(1) cm_refl, of 9000] by blast
  with q show ?thesis by simp
qed

text \<open>
  The sweep is exact. It changes a record just when the credential is active and past its
  expiry or its heartbeat deadline: past the expiry it becomes expired, otherwise it is
  revoked for a heartbeat timeout; the changed records are what it returns, in store order.
  Afterwards no active credential is due, and a swept credential has no reveal grants left.
\<close>

theorem sweep_exact:
  assumes "cm_reachable env s"
  shows "map_get (byId (snd (sweepExpired env now clock s))) i =
           (case map_get (byId s) i of
              None \<Rightarrow> None
            | Some r \<Rightarrow> Some
                (if cr_status r \<noteq> StActive then r
                 else if cr_expiresAt r \<le> now then r\<lparr>cr_status := StExpired\<rparr>
                 else if heartbeat_deadline env r \<le> now
                 then r\<lparr>cr_status := StRevoked, cr_revokedAt := Some (clock i),
                        cr_revocationReason := Some HeartbeatTimeout\<rparr>
                 else r))
    \<and> fst (sweepExpired env now clock s)
        = map (swept env now clock) (filter (due env now) (map_values (byId s)))
    \<and> isHeartbeatStale env now i (snd (sweepExpired env now clock s)) \<noteq> Inr True
    \<and> (\<forall>r. map_get (byId s) i = Some r \<longrightarrow> due env now r \<longrightarrow>
         no_reveals i (snd (sweepExpired env now clock s)))"
proof (intro conjI)
  note wf = reachable_wf [OF assms]
  note eq = sweepExpired_eq [OF wf]
  show "map_get (byId (snd (sweepExpired env now clock s))) i =
           (case map_get (byId s) i of
              None \<Rightarrow> None
            | Some r \<Rightarrow> Some
                (if cr_status r \<noteq> StActive then r
                 else if cr_expiresAt r \<le> now then r\<lparr>cr_status := StExpired\<rparr>
                 else if heartbeat_deadline env r \<le> now
                 then r\<lparr>cr_status := StRevoked, cr_revokedAt := Some (clock i),
                        cr_revocationReason := Some HeartbeatTimeout\<rparr>
                 else r))"
  proof (cases "map_get (byId s) i")
    case (Some r)
    have "cr_credentialId r = i" by (rule store_wfD(2) [OF wf Some])
    then show ?thesis by (simp add: eq(2) Some swept_def due_def revoke_rec_def)
  qed (simp add: eq(2))
  show "isHeartbeatStale env now i (snd (sweepExpired env now clock s)) \<noteq> Inr True"
  proof (cases "map_get (byId s) i")
    case (Some r)
    have "\<not> due env now (swept env now clock r)" by (rule swept_not_due)
    then show ?thesis by (auto simp: isHeartbeatStale_def eq(2) Some due_def)
  qed (simp add: isHeartbeatStale_def eq(2))
qed (use sweepExpired_eq [OF reachable_wf [OF assms]] in auto)

theorem sweep_exact_witness:
  "map_get (byId (snd (sweepExpired demo_env 36000 (\<lambda>_. 36000) (demo_store 3)))) ''cred_c''
     = map_option (\<lambda>r. r\<lparr>cr_status := StRevoked, cr_revokedAt := Some 36000,
                         cr_revocationReason := Some HeartbeatTimeout\<rparr>)
         (map_get (byId (demo_store 3)) ''cred_c'')"
proof -
  have "(case map_get (byId (demo_store 3)) ''cred_c'' of None \<Rightarrow> False
      | Some r \<Rightarrow> cr_status r = StActive \<and> \<not> cr_expiresAt r \<le> 36000
          \<and> heartbeat_deadline demo_env r \<le> 36000)" by code_simp
  then obtain r where r: "map_get (byId (demo_store 3)) ''cred_c'' = Some r" "cr_status r = StActive"
    "\<not> cr_expiresAt r \<le> 36000" "heartbeat_deadline demo_env r \<le> 36000"
    by (cases "map_get (byId (demo_store 3)) ''cred_c''") auto
  from sweep_exact [OF demo_reachable(2), of 36000 "\<lambda>_. 36000" "''cred_c''"]
  show ?thesis unfolding r(1) option.simps using r by simp
qed

text \<open>
  The hooks hear of everything: on every call, each credential whose scopes, policy
  hash, status or revocation date changed is passed to the mutation hook (so a cache that
  listens is never stale), and each new revocation, with its date and reason, to the
  revocation hook; nothing already reported is lost.
\<close>

theorem hooks_hear_every_change:
  assumes "fresh_call c s"
  shows "\<exists>ms rs. mutatedCalls (cm_next env c s) = mutatedCalls s @ ms
    \<and> revokedCalls (cm_next env c s) = revokedCalls s @ rs
    \<and> (\<forall>i r. map_get (byId s) i = Some r \<longrightarrow>
         (\<exists>r'. map_get (byId (cm_next env c s)) i = Some r'
            \<and> (policy_part r' \<noteq> policy_part r \<longrightarrow> i \<in> set ms)
            \<and> (revocation_part r' \<noteq> revocation_part r \<longrightarrow>
                 revocation_part r' \<in> set (map revocation_part rs))))"
  using reported_next [OF assms, of env] by (simp add: reported_def)

theorem hooks_hear_every_change_witness:
  "\<exists>ms rs. mutatedCalls (demo_store 3) = mutatedCalls (demo_store 2) @ ms
     \<and> revokedCalls (demo_store 3) = revokedCalls (demo_store 2) @ rs \<and> ''cred_a'' \<in> set ms"
proof -
  have st: "map_option cr_status (map_get (byId (demo_store 2)) ''cred_a'') = Some StActive"
    "map_option cr_status (map_get (byId (demo_store 3)) ''cred_a'') = Some StRevoked"
    by code_simp+
  obtain r where r: "map_get (byId (demo_store 2)) ''cred_a'' = Some r" "cr_status r = StActive"
    using st(1) by blast
  from hooks_hear_every_change [OF demo_fresh(3), of demo_env] obtain ms rs where
    ms: "mutatedCalls (demo_store 3) = mutatedCalls (demo_store 2) @ ms"
      "revokedCalls (demo_store 3) = revokedCalls (demo_store 2) @ rs"
    and h: "\<And>i r. map_get (byId (demo_store 2)) i = Some r \<Longrightarrow>
      \<exists>r'. map_get (byId (demo_store 3)) i = Some r' \<and> (policy_part r' \<noteq> policy_part r \<longrightarrow> i \<in> set ms)"
    unfolding demo_store_Suc(4) by blast
  from h [OF r(1)] obtain r' where "map_get (byId (demo_store 3)) ''cred_a'' = Some r'"
    "policy_part r' \<noteq> policy_part r \<longrightarrow> ''cred_a'' \<in> set ms" by blast
  with st(2) r(2) have "''cred_a'' \<in> set ms" by (simp add: policy_part_def)
  with ms show ?thesis by blast
qed

definition only_oldest_evicted :: "cm_env \<Rightarrow> int \<Rightarrow> string \<Rightarrow> cred_store \<Rightarrow> cred_store \<Rightarrow> bool" where
  "only_oldest_evicted env now op s s' \<longleftrightarrow>
     (\<exists>evicted. \<forall>j q. map_get (byId s) j = Some q \<longrightarrow>
        (if j \<in> set_option evicted
         then q \<in> set (getActiveForOperator op s)
           \<and> maxConcurrentPerOperator env \<le> int (length (getActiveForOperator op s))
           \<and> (\<forall>p \<in> set (getActiveForOperator op s). cr_issuedAt q \<le> cr_issuedAt p)
           \<and> map_get (byId s') j = Some (revoke_rec now PolicyViolation q)
         else map_get (byId s') j = Some q))"

lemma evict_only_oldest:
  assumes "store_wf env s"
  shows "only_oldest_evicted env now op s (snd (evict_oldest env now op s))"
proof (cases "maxConcurrentPerOperator env \<le> int (length (getActiveForOperator op s))
    \<and> getActiveForOperator op s \<noteq> []")
  case True
  then obtain old where old: "old \<in> set (getActiveForOperator op s)"
    "\<forall>r \<in> set (getActiveForOperator op s). cr_issuedAt old \<le> cr_issuedAt r"
    and ev: "evict_oldest env now op s
      = (Inr (), snd (revokeRecord now (cr_credentialId old) PolicyViolation s))"
    using evict_at_limit [OF assms] by metis
  have g: "map_get (byId s) (cr_credentialId old) = Some old"
    using old(1) active_of_operator [OF assms] by blast
  show ?thesis
    unfolding only_oldest_evicted_def
    by (rule exI [of _ "Some (cr_credentialId old)"])
      (use old True g in \<open>auto simp: ev revokeRecord_present [OF g]\<close>)
next
  case False
  then have "snd (evict_oldest env now op s) = s"
    by (auto simp: evict_oldest_def Let_def)
  then show ?thesis
    unfolding only_oldest_evicted_def by (intro exI [of _ None]) simp
qed

lemma still_active:
  assumes wf: "store_wf env s" and wf1: "store_wf env s1"
    and only: "only_oldest_evicted env now op s s1" and ev: "evolves (same_identity env) s s1"
    and r: "r \<in> set (getActiveForOperator op s1)"
  shows "r \<in> set (getActiveForOperator op s)"
proof -
  have g: "map_get (byId s1) (cr_credentialId r) = Some r" "cr_operatorId r = op"
    "cr_status r = StActive" using r active_of_operator [OF wf1] by blast+
  from evolvesD' [OF ev g(1)] obtain p where p: "map_get (byId s) (cr_credentialId r) = Some p"
    by blast
  have "map_get (byId s1) (cr_credentialId r) = Some (revoke_rec now PolicyViolation p)
      \<or> map_get (byId s1) (cr_credentialId r) = Some p"
    using only p unfolding only_oldest_evicted_def by metis
  with g(1,3) have "r = p" by (auto simp: revoke_rec_def)
  with p g show ?thesis using active_of_operator [OF wf] by blast
qed

lemma only_oldest_upsert:
  assumes "map_get (byId s) (cr_credentialId r) = None" and "only_oldest_evicted env now op s s1"
  shows "only_oldest_evicted env now op s (upsertRecord r s1)"
proof -
  have "map_get (byId (upsertRecord r s1)) j = map_get (byId s1) j" if "map_get (byId s) j = Some q" for j q
    using that assms(1) by (auto simp: upsert_simps)
  with assms(2) show ?thesis unfolding only_oldest_evicted_def by (metis (no_types, lifting))
qed

text \<open>
  Issuing. A successful issuance returns an active credential of the operator that has
  the policy hash of the request and is stored; it is either one that was already active (the
  same policy) or a new one with the request's scopes and chats, issued now for the requested
  time. At most one other credential changes: an active one of the same operator, when the
  limit was reached, and then one with the earliest issue date, which is revoked.
\<close>

theorem issue_outcome:
  assumes "cm_reachable env s" and "fresh_call (CallIssue clk i t cfg opts) s"
    and "issueCredential env clk i t cfg opts s = (Returned (Inr r), s')"
  shows "map_get (byId s') (cr_credentialId r) = Some r \<and> cr_status r = StActive
    \<and> cr_operatorId r = cfg_operatorId cfg
    \<and> cr_policyHash r = policyHash env (buildScopeSet cfg) (cfg_chatIds cfg)
    \<and> (r \<in> set (getActiveForOperator (cfg_operatorId cfg) s)
       \<or> map_get (byId s) (cr_credentialId r) = None \<and> cr_token r = t
         \<and> cr_effectiveScopes r = buildScopeSet cfg \<and> cr_chatIds r = cfg_chatIds cfg
         \<and> cr_issuedAt r = t_issue clk
         \<and> cr_expiresAt r = t_expiry clk + or_else (cfg_ttlSeconds cfg) (defaultTtlSeconds env) * 1000)
    \<and> only_oldest_evicted env (t_evict clk) (cfg_operatorId cfg) s s'"
proof -
  let ?op = "cfg_operatorId cfg"
  let ?hash = "policyHash env (buildScopeSet cfg) (cfg_chatIds cfg)"
  note wf = reachable_wf [OF assms(1)]
  obtain q s1 where ev: "evict_oldest env (t_evict clk) ?op s = (q, s1)" by fastforce
  then have s1: "s1 = snd (evict_oldest env (t_evict clk) ?op s)" by simp
  have evo: "evolves (same_identity env) s s1" unfolding s1 by (rule ident.evict)
  have wf1: "store_wf env s1" by (rule store_wf_evolves [OF wf evo])
  have only: "only_oldest_evicted env (t_evict clk) ?op s s1" unfolding s1 by (rule evict_only_oldest [OF wf])
  have "q = Inr ()" using assms(3) ev by (cases q) (simp_all add: issueCredential_def Let_def)
  then have issue: "(case find_first (\<lambda>c. cr_policyHash c = ?hash) (getActiveForOperator ?op s1) of
         Some existing \<Rightarrow> (Returned (Inr existing), s1)
       | None \<Rightarrow>
           (case to_iso (t_expiry clk + or_else (cfg_ttlSeconds cfg) (defaultTtlSeconds env) * 1000) of
              Threw x \<Rightarrow> (Threw x, s1)
            | Returned e \<Rightarrow> (let p = new_record env clk i t cfg opts e in
                (Returned (Inr p), upsertRecord p s1))))
      = (Returned (Inr r) :: credential_record result completion, s')"
    using assms(3) ev by (simp add: issueCredential_def Let_def [of "policyHash _ _ _"])
  show ?thesis
  proof (cases "find_first (\<lambda>c. cr_policyHash c = ?hash) (getActiveForOperator ?op s1)")
    case (Some r1)
    with issue have old: "r1 = r" "s1 = s'" by simp_all
    from find_first_SomeD [OF Some] have r: "r \<in> set (getActiveForOperator ?op s1)"
      "cr_policyHash r = ?hash" by (simp_all add: old)
    have "r \<in> set (getActiveForOperator ?op s)" by (rule still_active [OF wf wf1 only evo r(1)])
    with r only show ?thesis using active_of_operator [OF wf1, of r ?op] by (simp add: old)
  next
    case None
    let ?t = "t_expiry clk + or_else (cfg_ttlSeconds cfg) (defaultTtlSeconds env) * 1000"
    from issue None have new: "to_iso ?t = Returned ?t" "r = new_record env clk i t cfg opts ?t"
      "s' = upsertRecord r s1"
      by (cases "to_iso ?t"; simp add: Let_def)+
    have none: "map_get (byId s) (cr_credentialId r) = None"
      using assms(2) new(2) by simp
    then have "only_oldest_evicted env (t_evict clk) ?op s s'"
      using only unfolding new(3) by (rule only_oldest_upsert)
    with none show ?thesis by (simp add: new(2,3) upsert_simps)
  qed
qed

theorem issue_outcome_witness:
  "\<exists>r s'. issueCredential demo_env \<lparr>t_evict = 3000, t_issue = 3000, t_expiry = 3000\<rparr> ''cred_c''
       ''token-of-cred_c'' (demo_config [ScReact]) \<lparr>io_credentialId = None, io_issuedBy = None\<rparr>
       (demo_store 2) = (Returned (Inr r), s')
     \<and> map_get (byId s') (cr_credentialId r) = Some r \<and> cr_expiresAt r = 3603000"
proof -
  let ?p = "issueCredential demo_env \<lparr>t_evict = 3000, t_issue = 3000, t_expiry = 3000\<rparr> ''cred_c''
       ''token-of-cred_c'' (demo_config [ScReact]) \<lparr>io_credentialId = None, io_issuedBy = None\<rparr>
       (demo_store 2)"
  have "(case fst ?p of Returned (Inr r) \<Rightarrow> cr_expiresAt r = 3603000 | _ \<Rightarrow> False)" by code_simp
  then obtain r where r: "?p = (Returned (Inr r), snd ?p)" "cr_expiresAt r = 3603000"
    by (cases ?p) (auto split: completion.splits sum.splits)
  from issue_outcome [OF demo_reachable(1) demo_fresh(3) [unfolded demo_issue_def, simplified append.simps] r(1)] r
  show ?thesis by blast
qed

text \<open>
  Renewal. A renewal succeeds exactly when the credential is active and its remaining
  time, read from the clock, is within the renewal window; it then moves the expiry, and
  nothing else in the store, to one full time to live after the second reading. Every other
  outcome leaves the store as it was. (A credential past its expiry that no sweep has visited
  yet still counts as active here.)
\<close>

theorem renewal_exact:
  "(renewCredential env t1 t2 i s = (Returned (Inr r'), s') \<longleftrightarrow>
      (\<exists>r. map_get (byId s) i = Some r \<and> cr_status r = StActive
         \<and> cr_expiresAt r - t1 \<le> renewalWindowSeconds env * 1000
         \<and> \<bar>t2 + cr_ttlMs r\<bar> \<le> max_date_ms
         \<and> r' = r\<lparr>cr_expiresAt := t2 + cr_ttlMs r\<rparr>
         \<and> s' = s\<lparr>byId := map_set i r' (byId s)\<rparr>))
   \<and> (snd (renewCredential env t1 t2 i s) = s
      \<or> (\<exists>r'. fst (renewCredential env t1 t2 i s) = Returned (Inr r')))"
proof (cases "map_get (byId s) i")
  case (Some r)
  note m = mutateRecord_present [OF Some]
  show ?thesis
    by (auto simp: renewCredential_def Some Let_def or_not_found_def m to_iso_def)
qed (simp add: renewCredential_def)

end
