(* ===== verification/JsDate.thy ===== *)
theory JsDate
  imports Errors
begin

text \<open>
  \<open>Date.prototype.toISOString\<close>: the calendar day of an instant (proleptic Gregorian, UTC)
  and its text. Years outside 0..9999 are written with a sign and six digits.
\<close>

definition ms_per_day :: int where
  "ms_per_day = 86400000"

text \<open>Year, month and day of a number of days since 1970-01-01, by 400-year eras from March.\<close>

definition civil_from_days :: "int \<Rightarrow> int \<times> int \<times> int" where
  "civil_from_days days =
     (let z = days + 719468;
          era = z div 146097;
          doe = z mod 146097;
          yoe = (doe - doe div 1460 + doe div 36524 - doe div 146096) div 365;
          doy = doe - (365 * yoe + yoe div 4 - yoe div 100);
          mp = (5 * doy + 2) div 153;
          d = doy - (153 * mp + 2) div 5 + 1;
          m = (if mp < 10 then mp + 3 else mp - 9);
          y = yoe + era * 400
      in (if m \<le> 2 then y + 1 else y, m, d))"

definition pad :: "nat \<Rightarrow> int \<Rightarrow> string" where
  "pad w n = (let s = show_int n in replicate (w - length s) CHR ''0'' @ s)"

definition iso_year :: "int \<Rightarrow> string" where
  "iso_year y = (if 0 \<le> y \<and> y \<le> 9999 then pad 4 y
                 else if y < 0 then ''-'' @ pad 6 (- y) else ''+'' @ pad 6 y)"

definition iso_string :: "int \<Rightarrow> string" where
  "iso_string ms =
     (case civil_from_days (ms div ms_per_day) of
        (y, m, d) \<Rightarrow>
          let t = ms mod ms_per_day in
          iso_year y @ ''-'' @ pad 2 m @ ''-'' @ pad 2 d @ ''T''
          @ pad 2 (t div 3600000) @ '':'' @ pad 2 (t div 60000 mod 60) @ '':''
          @ pad 2 (t div 1000 mod 60) @ ''.'' @ pad 3 (t mod 1000) @ ''Z'')"

end
