(* ===== verification/SealChain.thy ===== *)
theory SealChain
  imports RevealState ResourceIds JsDate "HOL-Library.Multiset"
begin

text \<open>
  Seals: the payload types of packages/schemas/src/seal.ts, operator.ts and
  claim-provenance.ts, the difference of two payloads (packages/seals/src/compute-delta.ts)
  and the validation of a chain (packages/seals/src/chain-validator.ts). \<open>issuedAt\<close> is kept
  in milliseconds; the timestamps that come from outside stay strings.
\<close>

section \<open>Payloads\<close>

datatype scope_mode = PerChat | Shared

datatype trust_tier = TierUnverified | TierSourceVerified | TierReproducible | TierRuntimeAttested

datatype inference_mode = InfLocal | InfCloud | InfHybrid

datatype egress_scope = EgNone | EgProviderOnly | EgUnrestricted

datatype hosting_mode = HostSelf | HostCloud | HostTee

record operator_disclosures =
  od_inferenceMode :: "inference_mode option"
  od_inferenceProviders :: "string list option"
  od_contentEgressScope :: "egress_scope option"
  od_retentionAtProvider :: "string option"
  od_hostingMode :: "hosting_mode option"

datatype claim_provenance = PvVerified | PvObserved | PvDeclared

record provenance_record =
  pv_source :: claim_provenance
  pv_attestedBy :: "string option"
  pv_attestedAt :: "string option"
  pv_expiresAt :: "string option"

type_synonym provenance_map = "(string, provenance_record) js_map"

record admin_access =
  aa_operatorId :: string
  aa_expiresAt :: string

record seal_payload =
  sp_sealId :: string
  sp_credentialId :: string
  sp_operatorId :: string
  sp_chatId :: string
  sp_scopeMode :: scope_mode
  sp_permissions :: scope_set
  sp_adminAccess :: "admin_access option"
  sp_issuedAt :: int
  sp_bypassed :: bool
  sp_trustTier :: "trust_tier option"
  sp_operatorDisclosures :: "operator_disclosures option"
  sp_provenanceMap :: "provenance_map option"

record seal_chain =
  sc_current :: seal_payload
  sc_previous :: "seal_payload option"
  sc_delta :: policy_delta

record seal_envelope =
  se_chain :: seal_chain
  se_signature :: string
  se_keyId :: string

section \<open>The schema of a payload\<close>

lemma pred_option_code [code]:
  "pred_option P None = True"
  "pred_option P (Some x) = P x"
  by simp_all

definition OPERATOR_DISCLOSURE_PROVENANCE_KEYS :: "string list" where
  "OPERATOR_DISCLOSURE_PROVENANCE_KEYS =
     [''inferenceMode'', ''inferenceProviders'', ''contentEgressScope'',
      ''retentionAtProvider'', ''hostingMode'']"

definition SUPPORTED_PROVENANCE_KEYS :: "string list" where
  "SUPPORTED_PROVENANCE_KEYS = OPERATOR_DISCLOSURE_PROVENANCE_KEYS @ [''trustTier'']"

definition discloses :: "operator_disclosures \<Rightarrow> string \<Rightarrow> bool" where
  "discloses d key =
     (if key = ''inferenceMode'' then od_inferenceMode d \<noteq> None
      else if key = ''inferenceProviders'' then od_inferenceProviders d \<noteq> None
      else if key = ''contentEgressScope'' then od_contentEgressScope d \<noteq> None
      else if key = ''retentionAtProvider'' then od_retentionAtProvider d \<noteq> None
      else if key = ''hostingMode'' then od_hostingMode d \<noteq> None
      else False)"

text \<open>
  \<open>z.string().datetime()\<close> is a regular expression of the zod library: the parameter
  \<open>is_datetime\<close>.
\<close>

definition provenance_record_ok :: "(string \<Rightarrow> bool) \<Rightarrow> provenance_record \<Rightarrow> bool" where
  "provenance_record_ok is_datetime r \<longleftrightarrow>
     pred_option is_datetime (pv_attestedAt r) \<and> pred_option is_datetime (pv_expiresAt r)"

definition provenance_map_ok :: "(string \<Rightarrow> bool) \<Rightarrow> provenance_map \<Rightarrow> bool" where
  "provenance_map_ok is_datetime m \<longleftrightarrow>
     list_all (\<lambda>(key, r). key \<in> set SUPPORTED_PROVENANCE_KEYS \<and> provenance_record_ok is_datetime r) m"

definition provenance_backed :: "seal_payload \<Rightarrow> bool" where
  "provenance_backed p =
     (case sp_provenanceMap p of
        None \<Rightarrow> True
      | Some m \<Rightarrow>
          list_all (\<lambda>key. if map_get m key \<noteq> None
                          then (case sp_operatorDisclosures p of
                                  None \<Rightarrow> False | Some d \<Rightarrow> discloses d key)
                          else True) OPERATOR_DISCLOSURE_PROVENANCE_KEYS
          \<and> (if map_get m ''trustTier'' \<noteq> None then sp_trustTier p \<noteq> None else True))"

definition SealPayload_ok :: "(string \<Rightarrow> bool) \<Rightarrow> seal_payload \<Rightarrow> bool" where
  "SealPayload_ok is_datetime p \<longleftrightarrow>
     idSchema RtSeal (sp_sealId p) \<and> idSchema RtCredential (sp_credentialId p)
     \<and> idSchema RtOperator (sp_operatorId p) \<and> idSchema RtConversation (sp_chatId p)
     \<and> pred_option (\<lambda>a. (idSchema RtOperator (aa_operatorId a) \<or> aa_operatorId a = ''owner'')
          \<and> is_datetime (aa_expiresAt a)) (sp_adminAccess p)
     \<and> is_datetime (iso_string (sp_issuedAt p))
     \<and> pred_option (provenance_map_ok is_datetime) (sp_provenanceMap p)
     \<and> provenance_backed p"

section \<open>The difference of two payloads\<close>

definition change :: "grant \<Rightarrow> grant \<Rightarrow> permission_scope \<Rightarrow> scope_change" where
  "change f t s = \<lparr>ch_scope = s, ch_from = f, ch_to = t\<rparr>"

text \<open>
  The six loops of the code, each over a \<open>Set\<close> built from one of the lists. A loop that
  only pushes the scopes that satisfy a test is a \<open>filter\<close>.
\<close>

definition scopes_delta :: "scope_set \<Rightarrow> scope_set \<Rightarrow> policy_delta" where
  "scopes_delta prev new =
     (let prevAllow = set_from (allow prev); nextAllow = set_from (allow new);
          prevDeny = set_from (deny prev); nextDeny = set_from (deny new);
          newlyAllowed = filter (\<lambda>s. s \<notin> set prevAllow) nextAllow;
          noLongerAllowed = filter (\<lambda>s. s \<notin> set nextAllow) prevAllow
      in \<lparr>added =
            filter (\<lambda>s. s \<notin> set prevDeny) newlyAllowed
            @ filter (\<lambda>s. s \<notin> set nextDeny \<and> s \<notin> set nextAllow) prevDeny,
          removed =
            filter (\<lambda>s. s \<notin> set nextDeny) noLongerAllowed
            @ filter (\<lambda>s. s \<notin> set prevDeny \<and> s \<notin> set prevAllow) nextDeny,
          changed =
            map (change GDeny GAllow) (filter (\<lambda>s. s \<in> set prevDeny) newlyAllowed)
            @ map (change GAllow GDeny) (filter (\<lambda>s. s \<in> set nextDeny) noLongerAllowed)
            @ map (change GAllow GDeny)
                (filter (\<lambda>s. s \<notin> set prevDeny \<and> s \<in> set prevAllow \<and> s \<in> set nextAllow) nextDeny)
            @ map (change GDeny GAllow)
                (filter (\<lambda>s. s \<notin> set nextDeny \<and> s \<in> set prevAllow \<and> s \<in> set nextAllow) prevDeny)\<rparr>)"

definition computePayloadDelta :: "seal_payload \<Rightarrow> seal_payload \<Rightarrow> policy_delta" where
  "computePayloadDelta previous new = scopes_delta (sp_permissions previous) (sp_permissions new)"

definition first_delta :: policy_delta where
  "first_delta = \<lparr>added = [], removed = [], changed = []\<rparr>"

section \<open>Chains\<close>

definition chain_error :: "string \<Rightarrow> signet_error" where
  "chain_error reason = ValidationError ''chain'' reason []"

definition validateSealChain :: "seal_chain \<Rightarrow> unit result" where
  "validateSealChain chain =
     (case sc_previous chain of
        None \<Rightarrow> Inr ()
      | Some previous \<Rightarrow>
          let current = sc_current chain in
          if sp_operatorId current \<noteq> sp_operatorId previous
          then Inl (chain_error ''Operator mismatch: current and previous seal must belong to the same operator'')
          else if sp_credentialId current \<noteq> sp_credentialId previous
          then Inl (chain_error ''Credential mismatch: current and previous seal must belong to the same credential'')
          else if sp_chatId current \<noteq> sp_chatId previous
          then Inl (chain_error ''Chat mismatch: current and previous seal must belong to the same chat'')
          else if sp_issuedAt current < sp_issuedAt previous
          then Inl (chain_error ''issuedAt of current seal must not be before previous seal'')
          else Inr ())"

text \<open>
  The comparison sorts scope names by their UTF-16 units. The comparator of \<open>sortChanges\<close>
  answers 1 for equal scopes, whose order is then up to the engine; \<open>sort_key\<close> keeps it.
\<close>

definition deltaEquals :: "policy_delta \<Rightarrow> policy_delta \<Rightarrow> bool" where
  "deltaEquals a b =
     (if length (added a) \<noteq> length (added b) then False
      else if length (removed a) \<noteq> length (removed b) then False
      else if length (changed a) \<noteq> length (changed b) then False
      else sort_key scope_name (added a) = sort_key scope_name (added b)
         \<and> sort_key scope_name (removed a) = sort_key scope_name (removed b)
         \<and> list_all2 (\<lambda>v other. ch_scope v = ch_scope other \<and> ch_from v = ch_from other
              \<and> ch_to v = ch_to other)
            (sort_key (\<lambda>c. scope_name (ch_scope c)) (changed a))
            (sort_key (\<lambda>c. scope_name (ch_scope c)) (changed b)))"

definition verifyChainDelta :: "seal_chain \<Rightarrow> unit result" where
  "verifyChainDelta chain =
     (let expected = (case sc_previous chain of
                        None \<Rightarrow> first_delta
                      | Some previous \<Rightarrow> computePayloadDelta previous (sc_current chain))
      in if \<not> deltaEquals expected (sc_delta chain)
         then Inl (chain_error ''Delta mismatch: stored delta does not match recomputed delta'')
         else Inr ())"

section \<open>Lemmas on the delta\<close>

lemma scopes_delta_added:
  "set (added (scopes_delta prev new)) =
     (set (allow new) - set (allow prev) - set (deny prev))
     \<union> (set (deny prev) - set (deny new) - set (allow new))"
  by (auto simp: scopes_delta_def Let_def)

lemma scopes_delta_removed:
  "set (removed (scopes_delta prev new)) =
     (set (allow prev) - set (allow new) - set (deny new))
     \<union> (set (deny new) - set (deny prev) - set (allow prev))"
  by (auto simp: scopes_delta_def Let_def)

definition scopes_opened :: "scope_set \<Rightarrow> scope_set \<Rightarrow> permission_scope set" where
  "scopes_opened prev new =
     (set (allow new) \<inter> set (deny prev) - set (allow prev))
     \<union> (set (allow prev) \<inter> set (allow new) \<inter> set (deny prev) - set (deny new))"

definition scopes_closed :: "scope_set \<Rightarrow> scope_set \<Rightarrow> permission_scope set" where
  "scopes_closed prev new =
     (set (allow prev) \<inter> set (deny new) - set (allow new))
     \<union> (set (allow prev) \<inter> set (allow new) \<inter> set (deny new) - set (deny prev))"

lemma scopes_delta_changed:
  "set (changed (scopes_delta prev new)) =
     change GDeny GAllow ` scopes_opened prev new \<union> change GAllow GDeny ` scopes_closed prev new"
  by (auto simp: scopes_delta_def Let_def scopes_opened_def scopes_closed_def)

lemma change_simps [simp]:
  "ch_scope (change f t s) = s" "ch_from (change f t s) = f" "ch_to (change f t s) = t"
  "change f t s = change f' t' s' \<longleftrightarrow> f = f' \<and> t = t' \<and> s = s'"
  by (auto simp: change_def)

text \<open>A computed delta names each changed scope once.\<close>

lemma scopes_delta_distinct: "distinct (map ch_scope (changed (scopes_delta prev new)))"
proof -
  have "map ch_scope (map (change f t) ss) = ss" for f t ss by (simp add: comp_def)
  then show ?thesis by (auto simp: scopes_delta_def Let_def)
qed

lemma same_change:
  "(\<lambda>v other. ch_scope v = ch_scope other \<and> ch_from v = ch_from other \<and> ch_to v = ch_to other)
     = ((=) :: scope_change \<Rightarrow> scope_change \<Rightarrow> bool)"
  by (intro ext iffI) (auto intro: scope_change.equality)

lemma sort_scopes_iff: "sort_key scope_name xs = sort_key scope_name ys \<longleftrightarrow> mset xs = mset ys"
proof
  assume "mset xs = mset ys"
  then show "sort_key scope_name xs = sort_key scope_name ys"
    by (intro sort_key_inj_key_eq) (simp_all add: inj_on_def)
qed (metis mset_sort)

lemma sort_changes_iff:
  assumes "distinct (map ch_scope xs)"
  shows "sort_key (\<lambda>c. scope_name (ch_scope c)) xs = sort_key (\<lambda>c. scope_name (ch_scope c)) ys
    \<longleftrightarrow> mset xs = mset ys"
proof
  assume m: "mset xs = mset ys"
  have "inj_on (\<lambda>c. scope_name (ch_scope c)) (set xs)"
    using assms by (simp add: distinct_map inj_on_def)
  then show "sort_key (\<lambda>c. scope_name (ch_scope c)) xs = sort_key (\<lambda>c. scope_name (ch_scope c)) ys"
    using m by (intro sort_key_inj_key_eq) simp_all
qed (metis mset_sort)

lemma deltaEquals_iff:
  assumes "distinct (map ch_scope (changed a))"
  shows "deltaEquals a b \<longleftrightarrow>
    mset (added a) = mset (added b) \<and> mset (removed a) = mset (removed b)
    \<and> mset (changed a) = mset (changed b)"
  unfolding deltaEquals_def same_change list.rel_eq sort_scopes_iff sort_changes_iff [OF assms]
  by (metis size_mset)

section \<open>Properties\<close>

text \<open>
  The delta of two seals misses nothing. It is empty exactly when both lists hold the
  same scopes; every scope that became effective is reported as added or as a change to
  "allow", and every one that stopped being effective as removed or as a change to "deny".
\<close>

theorem payload_delta_misses_nothing:
  fixes p n :: seal_payload
  defines "d \<equiv> computePayloadDelta p n"
  shows "(\<not> isMaterialChange (SingleDelta d) \<longleftrightarrow>
            set (allow (sp_permissions p)) = set (allow (sp_permissions n))
            \<and> set (deny (sp_permissions p)) = set (deny (sp_permissions n)))
    \<and> effective (sp_permissions n) - effective (sp_permissions p)
        \<subseteq> set (added d) \<union> {s. change GDeny GAllow s \<in> set (changed d)}
    \<and> effective (sp_permissions p) - effective (sp_permissions n)
        \<subseteq> set (removed d) \<union> {s. change GAllow GDeny s \<in> set (changed d)}"
proof (intro conjI)
  have d: "d = scopes_delta (sp_permissions p) (sp_permissions n)"
    by (simp add: d_def computePayloadDelta_def)
  note sets = scopes_delta_added scopes_delta_removed scopes_delta_changed scopes_opened_def
    scopes_closed_def
  have "\<not> isMaterialChange (SingleDelta d) \<longleftrightarrow>
      set (added d) = {} \<and> set (removed d) = {} \<and> set (changed d) = {}"
    by (auto simp: isMaterialChange_def isSingleDeltaMaterial_def)
  also have "\<dots> \<longleftrightarrow> set (allow (sp_permissions p)) = set (allow (sp_permissions n))
      \<and> set (deny (sp_permissions p)) = set (deny (sp_permissions n))"
    unfolding d sets by blast
  finally show "\<not> isMaterialChange (SingleDelta d) \<longleftrightarrow>
      set (allow (sp_permissions p)) = set (allow (sp_permissions n))
      \<and> set (deny (sp_permissions p)) = set (deny (sp_permissions n))" .
  show "effective (sp_permissions n) - effective (sp_permissions p)
      \<subseteq> set (added d) \<union> {s. change GDeny GAllow s \<in> set (changed d)}"
    unfolding d sets effective_def by blast
  show "effective (sp_permissions p) - effective (sp_permissions n)
      \<subseteq> set (removed d) \<union> {s. change GAllow GDeny s \<in> set (changed d)}"
    unfolding d sets effective_def by blast
qed

text \<open>
  C29. The stored delta of a chain is accepted exactly when it is the recomputed one up to the
  order of its entries, and a chain is accepted exactly when it has no predecessor or one of
  the same operator, credential and chat that is not younger.
\<close>

theorem chain_validation_exact:
  "(verifyChainDelta chain = Inr () \<longleftrightarrow>
      (let expected = (case sc_previous chain of
                         None \<Rightarrow> first_delta
                       | Some p \<Rightarrow> computePayloadDelta p (sc_current chain)) in
       mset (added expected) = mset (added (sc_delta chain))
       \<and> mset (removed expected) = mset (removed (sc_delta chain))
       \<and> mset (changed expected) = mset (changed (sc_delta chain))))
   \<and> (validateSealChain chain = Inr () \<longleftrightarrow>
        pred_option (\<lambda>p. sp_operatorId (sc_current chain) = sp_operatorId p
          \<and> sp_credentialId (sc_current chain) = sp_credentialId p
          \<and> sp_chatId (sc_current chain) = sp_chatId p
          \<and> sp_issuedAt p \<le> sp_issuedAt (sc_current chain)) (sc_previous chain))"
proof
  have "distinct (map ch_scope (changed (case sc_previous chain of
      None \<Rightarrow> first_delta | Some p \<Rightarrow> computePayloadDelta p (sc_current chain))))"
    by (simp add: first_delta_def computePayloadDelta_def scopes_delta_distinct split: option.split)
  then show "verifyChainDelta chain = Inr () \<longleftrightarrow>
      (let expected = (case sc_previous chain of
                         None \<Rightarrow> first_delta
                       | Some p \<Rightarrow> computePayloadDelta p (sc_current chain)) in
       mset (added expected) = mset (added (sc_delta chain))
       \<and> mset (removed expected) = mset (removed (sc_delta chain))
       \<and> mset (changed expected) = mset (changed (sc_delta chain)))"
    by (simp add: verifyChainDelta_def Let_def deltaEquals_iff)
  show "validateSealChain chain = Inr () \<longleftrightarrow>
      pred_option (\<lambda>p. sp_operatorId (sc_current chain) = sp_operatorId p
          \<and> sp_credentialId (sc_current chain) = sp_credentialId p
          \<and> sp_chatId (sc_current chain) = sp_chatId p
          \<and> sp_issuedAt p \<le> sp_issuedAt (sc_current chain)) (sc_previous chain)"
    by (auto simp: validateSealChain_def Let_def split: option.split)
qed

end
