(* ===== verification/SealManager.thy ===== *)
theory SealManager
  imports SealChain Json
begin

text \<open>
  packages/seals/src/build.ts and manager.ts, and the resolver of seal inputs in
  packages/cli/src/seal-input-resolver.ts.

  The four collections of the manager's closure are the fields of \<open>seal_state\<close>. An operation
  that awaits the signer and the publisher is written in two parts, what it does before the
  first await of them and what it records after the last, so that the operations can be run
  whole or interleaved. The signer and the publisher are injected, and so are arguments; the
  seal id that \<open>generateSealId\<close> draws and the clock reading are arguments too.
\<close>

section \<open>JSON of the nested metadata\<close>

fun inference_mode_name :: "inference_mode \<Rightarrow> string" where
  "inference_mode_name InfLocal = ''local''"
| "inference_mode_name InfCloud = ''cloud''"
| "inference_mode_name InfHybrid = ''hybrid''"

fun egress_scope_name :: "egress_scope \<Rightarrow> string" where
  "egress_scope_name EgNone = ''none''"
| "egress_scope_name EgProviderOnly = ''provider-only''"
| "egress_scope_name EgUnrestricted = ''unrestricted''"

fun hosting_mode_name :: "hosting_mode \<Rightarrow> string" where
  "hosting_mode_name HostSelf = ''self-hosted''"
| "hosting_mode_name HostCloud = ''cloud''"
| "hosting_mode_name HostTee = ''tee''"

fun claim_provenance_name :: "claim_provenance \<Rightarrow> string" where
  "claim_provenance_name PvVerified = ''verified''"
| "claim_provenance_name PvObserved = ''observed''"
| "claim_provenance_name PvDeclared = ''declared''"

text \<open>A field whose value is \<open>undefined\<close> is dropped by \<open>JSON.stringify\<close>.\<close>

fun opt_field :: "string \<Rightarrow> json option \<Rightarrow> (string \<times> json) list" where
  "opt_field k None = []"
| "opt_field k (Some v) = [(k, v)]"

definition admin_access_json :: "admin_access \<Rightarrow> json" where
  "admin_access_json a =
     JObj [(''operatorId'', JStr (aa_operatorId a)), (''expiresAt'', JStr (aa_expiresAt a))]"

definition disclosures_json :: "operator_disclosures \<Rightarrow> json" where
  "disclosures_json d = JObj
     (opt_field ''inferenceMode'' (map_option (\<lambda>m. JStr (inference_mode_name m)) (od_inferenceMode d))
      @ opt_field ''inferenceProviders''
          (map_option (\<lambda>ps. JArr (map JStr ps)) (od_inferenceProviders d))
      @ opt_field ''contentEgressScope''
          (map_option (\<lambda>e. JStr (egress_scope_name e)) (od_contentEgressScope d))
      @ opt_field ''retentionAtProvider'' (map_option JStr (od_retentionAtProvider d))
      @ opt_field ''hostingMode''
          (map_option (\<lambda>h. JStr (hosting_mode_name h)) (od_hostingMode d)))"

definition provenance_record_json :: "provenance_record \<Rightarrow> json" where
  "provenance_record_json r = JObj
     ((''source'', JStr (claim_provenance_name (pv_source r)))
      # opt_field ''attestedBy'' (map_option JStr (pv_attestedBy r))
      @ opt_field ''attestedAt'' (map_option JStr (pv_attestedAt r))
      @ opt_field ''expiresAt'' (map_option JStr (pv_expiresAt r)))"

definition provenance_json :: "provenance_map \<Rightarrow> json" where
  "provenance_json m = JObj (map (\<lambda>(k, r). (k, provenance_record_json r)) m)"

text \<open>
  \<open>JSON.stringify(undefined)\<close> is \<open>undefined\<close>, which the encoder turns into no bytes. Decoding
  the encoded text gives the text back.
\<close>

definition stableSerialize :: "json option \<Rightarrow> string" where
  "stableSerialize value = (case value of None \<Rightarrow> [] | Some v \<Rightarrow> stringify (sortKeys v))"

section \<open>Building a seal\<close>

record seal_input =
  si_credentialId :: string
  si_operatorId :: string
  si_chatId :: string
  si_scopeMode :: scope_mode
  si_permissions :: scope_set
  si_adminAccess :: "admin_access option"
  si_bypassed :: bool
  si_trustTier :: "trust_tier option"
  si_operatorDisclosures :: "operator_disclosures option"
  si_provenanceMap :: "provenance_map option"

text \<open>The parts of zod that decide whether a payload parses, and what it says if not.\<close>

record zod_host =
  zod_is_datetime :: "string \<Rightarrow> bool"
  zod_message :: "seal_payload \<Rightarrow> string"

definition raw_payload :: "string \<Rightarrow> int \<Rightarrow> seal_input \<Rightarrow> seal_payload" where
  "raw_payload sealId now input =
     \<lparr>sp_sealId = sealId, sp_credentialId = si_credentialId input,
      sp_operatorId = si_operatorId input, sp_chatId = si_chatId input,
      sp_scopeMode = si_scopeMode input, sp_permissions = si_permissions input,
      sp_adminAccess = si_adminAccess input, sp_issuedAt = now,
      sp_bypassed = si_bypassed input, sp_trustTier = si_trustTier input,
      sp_operatorDisclosures = si_operatorDisclosures input,
      sp_provenanceMap = si_provenanceMap input\<rparr>"

text \<open>The serialized bytes that the result also carries are not read by the manager.\<close>

definition buildSeal ::
  "zod_host \<Rightarrow> string \<Rightarrow> int \<Rightarrow> seal_input \<Rightarrow> seal_payload option \<Rightarrow> seal_chain result" where
  "buildSeal zod sealId now input previousPayload =
     (let current = raw_payload sealId now input in
      if \<not> SealPayload_ok (zod_is_datetime zod) current
      then Inl (ValidationError ''seal'' (zod_message zod current) [])
      else Inr \<lparr>sc_current = current, sc_previous = previousPayload,
                sc_delta = (case previousPayload of
                              None \<Rightarrow> first_delta
                            | Some p \<Rightarrow> computePayloadDelta p current)\<rparr>)"

section \<open>State of the manager\<close>

record seal_state =
  currentSeals :: "(string, seal_envelope) js_map"
  sealsById :: "(string, seal_envelope) js_map"
  inputsBySealId :: "(string, seal_input) js_map"
  revokedPairs :: "string list"

definition empty_seal_state :: seal_state where
  "empty_seal_state =
     \<lparr>currentSeals = [], sealsById = [], inputsBySealId = [], revokedPairs = []\<rparr>"

definition chainKey :: "string \<Rightarrow> string \<Rightarrow> string" where
  "chainKey credentialId chatId = credentialId @ '':'' @ chatId"

abbreviation head_payload :: "seal_envelope \<Rightarrow> seal_payload" where
  "head_payload e \<equiv> sc_current (se_chain e)"

abbreviation seal_id :: "seal_envelope \<Rightarrow> string" where
  "seal_id e \<equiv> sp_sealId (head_payload e)"

definition hasInputChanges :: "seal_input \<Rightarrow> seal_input \<Rightarrow> bool" where
  "hasInputChanges previous new \<longleftrightarrow>
     si_credentialId previous \<noteq> si_credentialId new
     \<or> si_operatorId previous \<noteq> si_operatorId new
     \<or> si_chatId previous \<noteq> si_chatId new
     \<or> si_scopeMode previous \<noteq> si_scopeMode new
     \<or> stableSerialize (map_option admin_access_json (si_adminAccess previous))
         \<noteq> stableSerialize (map_option admin_access_json (si_adminAccess new))
     \<or> si_trustTier previous \<noteq> si_trustTier new
     \<or> stableSerialize (map_option disclosures_json (si_operatorDisclosures previous))
         \<noteq> stableSerialize (map_option disclosures_json (si_operatorDisclosures new))
     \<or> stableSerialize (map_option provenance_json (si_provenanceMap previous))
         \<noteq> stableSerialize (map_option provenance_json (si_provenanceMap new))"

section \<open>Issue, refresh and revoke\<close>

text \<open>What an operation does before the signer is awaited: it answers, or a chain is to be
  signed, published to a chat and recorded under a key.\<close>

datatype seal_plan =
  Answer "seal_envelope result"
| Publish string string seal_chain seal_input

text \<open>The current seal of the pair, if nothing the seal discloses has changed.\<close>

definition unchanged_seal :: "seal_input \<Rightarrow> string \<Rightarrow> seal_state \<Rightarrow> seal_envelope option" where
  "unchanged_seal input key s =
     (case map_get (currentSeals s) key of
        None \<Rightarrow> None
      | Some previous \<Rightarrow>
          (case map_get (inputsBySealId s) (seal_id previous) of
             None \<Rightarrow> None
           | Some previousInput \<Rightarrow>
               let policyDelta = computePayloadDelta (head_payload previous)
                     ((head_payload previous)\<lparr>sp_permissions := si_permissions input,
                        sp_scopeMode := si_scopeMode input,
                        sp_adminAccess := si_adminAccess input\<rparr>)
               in if \<not> isMaterialChange (SingleDelta policyDelta)
                     \<and> \<not> hasInputChanges previousInput input
                  then Some previous else None))"

definition issue_plan ::
  "zod_host \<Rightarrow> seal_input result \<Rightarrow> string \<Rightarrow> string \<Rightarrow> int \<Rightarrow> seal_state \<Rightarrow> seal_plan" where
  "issue_plan zod inputResult chatId sealId now s =
     (case inputResult of
        Inl e \<Rightarrow> Answer (Inl e)
      | Inr input \<Rightarrow>
          let key = chainKey (si_credentialId input) chatId in
          if key \<in> set (revokedPairs s)
          then Answer (Inl (SealError [] ''Cannot issue seal for revoked credential+chat''))
          else (case unchanged_seal input key s of
                  Some previous \<Rightarrow> Answer (Inr previous)
                | None \<Rightarrow>
                    (case buildSeal zod sealId now input
                            (map_option head_payload (map_get (currentSeals s) key)) of
                       Inl e \<Rightarrow> Answer (Inl e)
                     | Inr chain \<Rightarrow> Publish key chatId chain input)))"

definition refresh_plan ::
  "zod_host \<Rightarrow> string \<Rightarrow> string \<Rightarrow> int \<Rightarrow> seal_state \<Rightarrow> seal_plan" where
  "refresh_plan zod sealId newId now s =
     (case map_get (sealsById s) sealId of
        None \<Rightarrow> Answer (Inl (SealError sealId ''Seal not found''))
      | Some existing \<Rightarrow>
          (case map_get (inputsBySealId s) sealId of
             None \<Rightarrow> Answer (Inl (SealError sealId ''Input not found for seal''))
           | Some input \<Rightarrow>
               let current = head_payload existing;
                   key = chainKey (sp_credentialId current) (sp_chatId current) in
               if map_option seal_id (map_get (currentSeals s) key) \<noteq> Some sealId
               then Answer (Inl (SealError sealId ''Only the current head seal can be refreshed''))
               else if key \<in> set (revokedPairs s)
               then Answer (Inl (SealError sealId
                      ''Cannot refresh: credential+chat pair has been revoked''))
               else (case buildSeal zod newId now input (Some current) of
                       Inl e \<Rightarrow> Answer (Inl e)
                     | Inr chain \<Rightarrow> Publish key (sp_chatId current) chain input)))"

definition record_seal :: "string \<Rightarrow> seal_envelope \<Rightarrow> seal_input \<Rightarrow> seal_state \<Rightarrow> seal_state" where
  "record_seal key envelope input s =
     s\<lparr>currentSeals := map_set key envelope (currentSeals s),
       sealsById := map_set (seal_id envelope) envelope (sealsById s),
       inputsBySealId := map_set (seal_id envelope) input (inputsBySealId s)\<rparr>"

text \<open>The signer returns an envelope around the current payload; its chain is replaced.\<close>

definition run_plan ::
  "(seal_payload \<Rightarrow> seal_envelope result) \<Rightarrow> (string \<Rightarrow> seal_envelope \<Rightarrow> unit result) \<Rightarrow>
   seal_plan \<Rightarrow> seal_state \<Rightarrow> seal_envelope result \<times> seal_state" where
  "run_plan sign publish plan s =
     (case plan of
        Answer r \<Rightarrow> (r, s)
      | Publish key chatId chain input \<Rightarrow>
          (case sign (sc_current chain) of
             Inl e \<Rightarrow> (Inl e, s)
           | Inr stamped \<Rightarrow>
               let envelope = stamped\<lparr>se_chain := chain\<rparr> in
               (case publish chatId envelope of
                  Inl e \<Rightarrow> (Inl e, s)
                | Inr _ \<Rightarrow> (Inr envelope, record_seal key envelope input s))))"

definition seal_issue where
  "seal_issue zod sign publish inputResult chatId sealId now s =
     run_plan sign publish (issue_plan zod inputResult chatId sealId now s) s"

definition seal_refresh where
  "seal_refresh zod sign publish sealId newId now s =
     run_plan sign publish (refresh_plan zod sealId newId now s) s"

datatype agent_revocation_reason =
  AgOwnerInitiated | AgCredentialExpired | AgAdminRemoved | AgHeartbeatTimeout | AgPolicyViolation

record revocation_seal =
  rs_sealId :: string
  rs_previousSealId :: string
  rs_operatorId :: string
  rs_credentialId :: string
  rs_chatId :: string
  rs_reason :: agent_revocation_reason
  rs_revokedAt :: int
  rs_issuer :: string

definition RevocationSeal_ok :: "(string \<Rightarrow> bool) \<Rightarrow> revocation_seal \<Rightarrow> bool" where
  "RevocationSeal_ok is_datetime r \<longleftrightarrow>
     idSchema RtSeal (rs_sealId r) \<and> idSchema RtSeal (rs_previousSealId r)
     \<and> idSchema RtOperator (rs_operatorId r) \<and> idSchema RtCredential (rs_credentialId r)
     \<and> idSchema RtConversation (rs_chatId r) \<and> is_datetime (iso_string (rs_revokedAt r))"

datatype revoke_plan = RevokeError signet_error | RevokePublish string revocation_seal

definition plan_revocation ::
  "(string \<Rightarrow> bool) \<Rightarrow> (revocation_seal \<Rightarrow> string) \<Rightarrow> string \<Rightarrow> agent_revocation_reason \<Rightarrow>
   string \<Rightarrow> int \<Rightarrow> seal_state \<Rightarrow> revoke_plan" where
  "plan_revocation is_datetime message sealId reason newId now s =
     (case map_get (sealsById s) sealId of
        None \<Rightarrow> RevokeError (SealError sealId ''Seal not found'')
      | Some existing \<Rightarrow>
          let current = head_payload existing;
              key = chainKey (sp_credentialId current) (sp_chatId current) in
          if key \<in> set (revokedPairs s)
          then RevokeError (SealError sealId ''Credential+chat already revoked'')
          else
            let revocation =
                  \<lparr>rs_sealId = newId, rs_previousSealId = sealId,
                   rs_operatorId = sp_operatorId current,
                   rs_credentialId = sp_credentialId current, rs_chatId = sp_chatId current,
                   rs_reason = reason, rs_revokedAt = now, rs_issuer = ''signet''\<rparr>
            in if \<not> RevocationSeal_ok is_datetime revocation
               then RevokeError (ValidationError ''revocation'' (message revocation) [])
               else RevokePublish key revocation)"

definition record_revocation :: "string \<Rightarrow> seal_state \<Rightarrow> seal_state" where
  "record_revocation key s =
     s\<lparr>revokedPairs := (if key \<in> set (revokedPairs s) then revokedPairs s
                        else revokedPairs s @ [key]),
       currentSeals := map_delete key (currentSeals s)\<rparr>"

definition seal_revoke ::
  "(string \<Rightarrow> bool) \<Rightarrow> (revocation_seal \<Rightarrow> string) \<Rightarrow> (revocation_seal \<Rightarrow> 'sig result) \<Rightarrow>
   (string \<Rightarrow> 'sig \<Rightarrow> unit result) \<Rightarrow> string \<Rightarrow> agent_revocation_reason \<Rightarrow> string \<Rightarrow> int \<Rightarrow>
   seal_state \<Rightarrow> unit result \<times> seal_state" where
  "seal_revoke is_datetime message signRevocation publishRevocation sealId reason newId now s =
     (case plan_revocation is_datetime message sealId reason newId now s of
        RevokeError e \<Rightarrow> (Inl e, s)
      | RevokePublish key revocation \<Rightarrow>
          (case signRevocation revocation of
             Inl e \<Rightarrow> (Inl e, s)
           | Inr stamped \<Rightarrow>
               (case publishRevocation (rs_chatId revocation) stamped of
                  Inl e \<Rightarrow> (Inl e, s)
                | Inr _ \<Rightarrow> (Inr (), record_revocation key s))))"

section \<open>Queries\<close>

definition seal_current :: "string \<Rightarrow> string \<Rightarrow> seal_state \<Rightarrow> seal_envelope option" where
  "seal_current credentialId chatId s = map_get (currentSeals s) (chainKey credentialId chatId)"

definition matchesFilter :: "string option \<Rightarrow> string option \<Rightarrow> seal_envelope \<Rightarrow> bool" where
  "matchesFilter chatId credentialId e =
     (if (case chatId of None \<Rightarrow> False | Some c \<Rightarrow> sp_chatId (head_payload e) \<noteq> c) then False
      else if (case credentialId of None \<Rightarrow> False | Some c \<Rightarrow> sp_credentialId (head_payload e) \<noteq> c)
      then False
      else True)"

definition newest_first :: "seal_envelope list \<Rightarrow> seal_envelope list" where
  "newest_first es = sort_key (\<lambda>e. - sp_issuedAt (head_payload e)) es"

definition seal_list :: "string option \<Rightarrow> string option \<Rightarrow> seal_state \<Rightarrow> seal_envelope list" where
  "seal_list chatId credentialId s =
     newest_first (filter (matchesFilter chatId credentialId) (map_values (currentSeals s)))"

definition seal_lookup :: "string \<Rightarrow> seal_state \<Rightarrow> seal_envelope result" where
  "seal_lookup sealId s =
     (case map_get (sealsById s) sealId of
        None \<Rightarrow> Inl (SealError sealId ''Seal not found'')
      | Some e \<Rightarrow> Inr e)"

definition previous_id :: "seal_envelope \<Rightarrow> string option" where
  "previous_id e = map_option sp_sealId (sc_previous (se_chain e))"

definition findHistoryHead :: "seal_envelope list \<Rightarrow> seal_envelope option" where
  "findHistoryHead envelopes =
     (let referenced = set_from (List.map_filter previous_id envelopes)
      in find_first (\<lambda>e. seal_id e \<notin> set referenced) envelopes)"

text \<open>The cursor's next position; the empty id is falsy.\<close>

definition predecessor :: "(string, seal_envelope) js_map \<Rightarrow> seal_envelope \<Rightarrow> seal_envelope option" where
  "predecessor m e =
     (case previous_id e of
        None \<Rightarrow> None
      | Some i \<Rightarrow> if i = [] then None else map_get m i)"

definition unseen :: "(string, seal_envelope) js_map \<Rightarrow> string list \<Rightarrow> string set" where
  "unseen m seen = seal_id ` set (map_values m) - set seen"

function history_loop ::
  "(string, seal_envelope) js_map \<Rightarrow> string list \<Rightarrow> seal_envelope option \<Rightarrow> seal_envelope list" where
  "history_loop m seen None = []"
| "history_loop m seen (Some e) =
     (if seal_id e \<in> set seen then []
      else e # history_loop m (seal_id e # seen) (predecessor m e))"
  by pat_completeness auto

text \<open>Every cursor after the first is a stored seal, so the loop visits each stored id at most
  once, and its head.\<close>

termination
proof (relation "measure (\<lambda>(m, seen, cursor). 2 * card (unseen m seen)
    + (case cursor of None \<Rightarrow> 0 | Some e \<Rightarrow> if seal_id e \<in> seal_id ` set (map_values m) then 1 else 2))")
  fix m :: "(string, seal_envelope) js_map" and seen and e :: seal_envelope
  assume new: "seal_id e \<notin> set seen"
  let ?ids = "seal_id ` set (map_values m)"
  have next_in: "seal_id e' \<in> ?ids" if "predecessor m e = Some e'" for e'
    using that by (auto simp: predecessor_def split: option.splits if_splits dest: map_get_in_values)
  have next_le: "(case predecessor m e of None \<Rightarrow> 0
      | Some e' \<Rightarrow> if seal_id e' \<in> ?ids then 1 else 2) \<le> (1 :: nat)"
    using next_in by (auto split: option.split)
  have sub: "unseen m (seal_id e # seen) = unseen m seen - {seal_id e}"
    by (auto simp: unseen_def)
  have fin: "finite (unseen m seen)" by (simp add: unseen_def)
  show "((m, seal_id e # seen, predecessor m e), (m, seen, Some e))
    \<in> measure (\<lambda>(m, seen, cursor). 2 * card (unseen m seen)
        + (case cursor of None \<Rightarrow> 0 | Some e \<Rightarrow> if seal_id e \<in> seal_id ` set (map_values m) then 1 else 2))"
  proof (cases "seal_id e \<in> ?ids")
    case True
    with new have "seal_id e \<in> unseen m seen" by (simp add: unseen_def)
    with fin have "card (unseen m (seal_id e # seen)) < card (unseen m seen)"
      unfolding sub by (rule card_Diff1_less)
    with next_le True show ?thesis by simp
  next
    case False
    then have "unseen m (seal_id e # seen) = unseen m seen" unfolding sub by (auto simp: unseen_def)
    with next_le False show ?thesis by simp
  qed
qed simp

definition seal_history :: "string \<Rightarrow> string \<Rightarrow> seal_state \<Rightarrow> seal_envelope list" where
  "seal_history credentialId chatId s =
     (let envelopes = filter (\<lambda>e. sp_credentialId (head_payload e) = credentialId
                                \<and> sp_chatId (head_payload e) = chatId)
                        (map_values (sealsById s)) in
      if length envelopes = 0 then []
      else
        let start = (case map_get (currentSeals s) (chainKey credentialId chatId) of
                       Some e \<Rightarrow> Some e
                     | None \<Rightarrow>
                         (case findHistoryHead envelopes of
                            Some e \<Rightarrow> Some e
                          | None \<Rightarrow> Some (newest_first envelopes ! 0)))
        in history_loop (sealsById s) [] start)"

definition needsRenewal :: "int \<Rightarrow> seal_payload \<Rightarrow> bool" where
  "needsRenewal now payload \<longleftrightarrow> now \<ge> sp_issuedAt payload + 64800000"

section \<open>The production resolver of seal inputs\<close>

definition buildSealProvenanceMap :: "operator_disclosures option \<Rightarrow> provenance_map" where
  "buildSealProvenanceMap disclosures =
     (let mark = (\<lambda>src. \<lparr>pv_source = src, pv_attestedBy = None, pv_attestedAt = None,
                          pv_expiresAt = None\<rparr>) in
      [(''trustTier'', mark PvVerified)]
      @ map (\<lambda>key. (key, mark PvDeclared))
          (filter (\<lambda>key. (case disclosures of None \<Rightarrow> False | Some d \<Rightarrow> discloses d key))
             OPERATOR_DISCLOSURE_PROVENANCE_KEYS))"

text \<open>What the resolver reads of a credential and of an operator.\<close>

record resolved_credential =
  rc_operatorId :: string
  rc_chatIds :: "string list"
  rc_allow :: "permission_scope list option"
  rc_deny :: "permission_scope list option"

record resolved_operator =
  ro_scopeMode :: scope_mode
  ro_operatorDisclosures :: "operator_disclosures option"

definition resolveSealInput ::
  "(string \<Rightarrow> resolved_credential result) \<Rightarrow> (string \<Rightarrow> resolved_operator result) \<Rightarrow> trust_tier \<Rightarrow>
   (string \<Rightarrow> admin_access option) \<Rightarrow> string \<Rightarrow> string \<Rightarrow> seal_input result" where
  "resolveSealInput credentials operators trustTier lookupAdminAccess credentialId chatId =
     (case credentials credentialId of
        Inl e \<Rightarrow> Inl e
      | Inr cred \<Rightarrow>
          (case operators (rc_operatorId cred) of
             Inl e \<Rightarrow> Inl e
           | Inr oper \<Rightarrow>
               (case checkChatInScope chatId (rc_chatIds cred) of
                  Inl e \<Rightarrow> Inl (PermissionError (error_message e)
                    (Some (spread (case error_context e of None \<Rightarrow> [] | Some c \<Rightarrow> c)
                             [(''credentialId'', CtxStr credentialId)])))
                | Inr _ \<Rightarrow> Inr
                    \<lparr>si_credentialId = credentialId, si_operatorId = rc_operatorId cred,
                     si_chatId = chatId, si_scopeMode = ro_scopeMode oper,
                     si_permissions =
                       \<lparr>allow = (case rc_allow cred of None \<Rightarrow> [] | Some a \<Rightarrow> a),
                        deny = (case rc_deny cred of None \<Rightarrow> [] | Some d \<Rightarrow> d)\<rparr>,
                     si_adminAccess = lookupAdminAccess chatId, si_bypassed = False,
                     si_trustTier = Some trustTier,
                     si_operatorDisclosures = ro_operatorDisclosures oper,
                     si_provenanceMap =
                       Some (buildSealProvenanceMap (ro_operatorDisclosures oper))\<rparr>)))"

end
