(* ===== verification/SealLifecycle.thy ===== *)
theory SealLifecycle
  imports SealManager
begin

text \<open>
  What the seal manager guarantees, for operations that run one after the other
  (\<open>seal_reachable\<close>) and for operations interleaved at their awaits (\<open>seal_interleaved\<close>).
\<close>

section \<open>Keys of a chain\<close>

abbreviation key_of :: "seal_envelope \<Rightarrow> string" where
  "key_of e \<equiv> chainKey (sp_credentialId (head_payload e)) (sp_chatId (head_payload e))"

lemma id_no_colon:
  assumes "idSchema t x"
  shows "CHR '':'' \<notin> set x"
proof -
  have p: "CHR '':'' \<notin> set (RESOURCE_PREFIXES t)" by (cases t) simp_all
  have h: "CHR '':'' \<notin> set s" if "SHORT_ID_HEX s" for s
  proof
    assume "CHR '':'' \<in> set s"
    with that have "is_hex_char (CHR '':'')" by (simp add: SHORT_ID_HEX_def list_all_iff)
    then show False by (simp add: is_hex_char_def)
  qed
  from assms have "starts_with (RESOURCE_PREFIXES t) x"
    "SHORT_ID_HEX (js_slice (length (RESOURCE_PREFIXES t)) x)"
    by (auto simp: idSchema_def split: if_splits)
  then show ?thesis using p h starts_with_split by (metis Un_iff set_append)
qed

lemma chainKey_inj:
  assumes "CHR '':'' \<notin> set c'" and "CHR '':'' \<notin> set h'"
  shows "chainKey c h = chainKey c' h' \<longleftrightarrow> c = c' \<and> h = h'"
proof
  let ?n = "\<lambda>s. length (filter (\<lambda>x. x = CHR '':'') s)"
  assume eq: "chainKey c h = chainKey c' h'"
  have zero: "?n s = 0 \<longleftrightarrow> CHR '':'' \<notin> set s" for s by (auto simp: filter_empty_conv)
  from eq have "?n (chainKey c h) = ?n (chainKey c' h')" by simp
  then have "?n c = 0" using assms zero [of c'] zero [of h'] by (simp add: chainKey_def)
  then have c: "CHR '':'' \<notin> set c" using zero [of c] by blast
  have tw: "takeWhile (\<lambda>x. x \<noteq> CHR '':'') (chainKey a b) = a" if "CHR '':'' \<notin> set a" for a b
    using that by (induction a) (auto simp: chainKey_def)
  have "c = c'" using tw [OF c, of h] tw [OF assms(1), of h'] eq by simp
  with eq show "c = c' \<and> h = h'" by (simp add: chainKey_def)
qed simp

lemma payload_no_colon:
  "SealPayload_ok d p \<Longrightarrow> CHR '':'' \<notin> set (sp_credentialId p) \<and> CHR '':'' \<notin> set (sp_chatId p)"
  using id_no_colon by (auto simp: SealPayload_ok_def)

section \<open>Operations interleaved at their awaits\<close>

text \<open>
  A job is an operation between its check and its recording: its signature and its message
  are on the way. It may finish, or fail and be dropped.
\<close>

datatype seal_job = SealJob string seal_envelope seal_input | RevokeJob string

fun job_ids :: "seal_job \<Rightarrow> string list" where
  "job_ids (SealJob k e i) = [seal_id e]"
| "job_ids (RevokeJob k) = []"

definition unused_id :: "string \<Rightarrow> seal_state \<Rightarrow> seal_job list \<Rightarrow> bool" where
  "unused_id i s jobs \<longleftrightarrow> map_get (sealsById s) i = None \<and> i \<notin> set (concat (map job_ids jobs))"

text \<open>The resolver answers for the chat it was asked about, as the production one does.\<close>

inductive seal_interleaved :: "zod_host \<Rightarrow> seal_state \<Rightarrow> seal_job list \<Rightarrow> bool" for zod where
  si_init: "seal_interleaved zod empty_seal_state []"
| si_issue: "seal_interleaved zod s jobs \<Longrightarrow> si_chatId input = chatId \<Longrightarrow> unused_id sealId s jobs \<Longrightarrow>
    issue_plan zod (Inr input) chatId sealId now s = Publish key chat chain input' \<Longrightarrow>
    seal_interleaved zod s (jobs @ [SealJob key (stamped\<lparr>se_chain := chain\<rparr>) input'])"
| si_refresh: "seal_interleaved zod s jobs \<Longrightarrow> unused_id newId s jobs \<Longrightarrow>
    refresh_plan zod sealId newId now s = Publish key chat chain input' \<Longrightarrow>
    seal_interleaved zod s (jobs @ [SealJob key (stamped\<lparr>se_chain := chain\<rparr>) input'])"
| si_revoke: "seal_interleaved zod s jobs \<Longrightarrow>
    plan_revocation (zod_is_datetime zod) msg sealId reason newId now s = RevokePublish key rvk \<Longrightarrow>
    seal_interleaved zod s (jobs @ [RevokeJob key])"
| si_seal_done: "seal_interleaved zod s (js @ SealJob key e input # js') \<Longrightarrow>
    seal_interleaved zod (record_seal key e input s) (js @ js')"
| si_revoke_done: "seal_interleaved zod s (js @ RevokeJob key # js') \<Longrightarrow>
    seal_interleaved zod (record_revocation key s) (js @ js')"
| si_failed: "seal_interleaved zod s (js @ job # js') \<Longrightarrow> seal_interleaved zod s (js @ js')"

text \<open>A seal that was built by the manager, given the seals recorded so far.\<close>

definition built_seal :: "zod_host \<Rightarrow> (string, seal_envelope) js_map \<Rightarrow> seal_envelope \<Rightarrow> seal_input \<Rightarrow> bool" where
  "built_seal zod m e input \<longleftrightarrow>
     SealPayload_ok (zod_is_datetime zod) (head_payload e)
     \<and> head_payload e = raw_payload (seal_id e) (sp_issuedAt (head_payload e)) input
     \<and> verifyChainDelta (se_chain e) = Inr ()
     \<and> pred_option (\<lambda>p. \<exists>e'. map_get m (sp_sealId p) = Some e' \<and> head_payload e' = p
          \<and> key_of e' = key_of e) (sc_previous (se_chain e))"

definition job_ok :: "zod_host \<Rightarrow> seal_state \<Rightarrow> seal_job \<Rightarrow> bool" where
  "job_ok zod s j = (case j of
     RevokeJob k \<Rightarrow> True
   | SealJob k e input \<Rightarrow> k = key_of e \<and> built_seal zod (sealsById s) e input
       \<and> map_get (sealsById s) (seal_id e) = None)"

definition seals_wf :: "zod_host \<Rightarrow> seal_state \<Rightarrow> seal_job list \<Rightarrow> bool" where
  "seals_wf zod s jobs \<longleftrightarrow>
     map_wf (sealsById s)
     \<and> (\<forall>i e. map_get (sealsById s) i = Some e \<longrightarrow> seal_id e = i
          \<and> (\<exists>input. map_get (inputsBySealId s) i = Some input \<and> built_seal zod (sealsById s) e input))
     \<and> (\<forall>k e. map_get (currentSeals s) k = Some e \<longrightarrow>
          key_of e = k \<and> map_get (sealsById s) (seal_id e) = Some e)
     \<and> distinct (concat (map job_ids jobs))
     \<and> (\<forall>j \<in> set jobs. job_ok zod s j)"

lemma seals_wf_byId:
  assumes "seals_wf zod s jobs" and "map_get (sealsById s) i = Some e"
  shows "seal_id e = i"
    and "\<exists>input. map_get (inputsBySealId s) i = Some input \<and> built_seal zod (sealsById s) e input"
  using assms unfolding seals_wf_def by blast+

lemma seals_wf_current:
  assumes "seals_wf zod s jobs" and "map_get (currentSeals s) k = Some e"
  shows "key_of e = k" and "map_get (sealsById s) (seal_id e) = Some e"
  using assms unfolding seals_wf_def by blast+

lemma first_delta_verified: "deltaEquals first_delta first_delta"
  by (simp add: deltaEquals_def first_delta_def)

lemma delta_verified: "deltaEquals (computePayloadDelta p q) (computePayloadDelta p q)"
  by (simp add: deltaEquals_iff computePayloadDelta_def scopes_delta_distinct)

text \<open>What a successful build yields.\<close>

lemma buildSeal_built:
  assumes "buildSeal zod i now input (map_option head_payload previous) = Inr chain"
    and "\<And>p. previous = Some p \<Longrightarrow> map_get m (seal_id p) = Some p
      \<and> key_of p = chainKey (si_credentialId input) (si_chatId input)"
  shows "built_seal zod m (stamped\<lparr>se_chain := chain\<rparr>) input"
    and "sc_current chain = raw_payload i now input"
    and "sc_previous chain = map_option head_payload previous"
proof -
  from assms(1) have ok: "SealPayload_ok (zod_is_datetime zod) (raw_payload i now input)"
    and chain: "chain = \<lparr>sc_current = raw_payload i now input,
      sc_previous = map_option head_payload previous,
      sc_delta = (case map_option head_payload previous of
                    None \<Rightarrow> first_delta
                  | Some p \<Rightarrow> computePayloadDelta p (raw_payload i now input))\<rparr>"
    by (simp_all add: buildSeal_def Let_def split: if_splits)
  show "sc_current chain = raw_payload i now input" "sc_previous chain = map_option head_payload previous"
    by (simp_all add: chain)
  have "verifyChainDelta chain = Inr ()"
    by (cases previous) (simp_all add: verifyChainDelta_def chain first_delta_verified delta_verified)
  then show "built_seal zod m (stamped\<lparr>se_chain := chain\<rparr>) input"
    using ok assms(2) by (cases previous) (auto simp: built_seal_def chain raw_payload_def)
qed

lemma issue_plan_publish:
  assumes "issue_plan zod (Inr input) chatId i now s = Publish key chat chain input'"
  shows "key = chainKey (si_credentialId input) chatId" "chat = chatId" "input' = input"
    "key \<notin> set (revokedPairs s)"
    "buildSeal zod i now input (map_option head_payload (map_get (currentSeals s) key)) = Inr chain"
    "unchanged_seal input key s = None"
proof -
  let ?k = "chainKey (si_credentialId input) chatId"
  have r: "?k \<notin> set (revokedPairs s)"
    using assms by (cases "?k \<in> set (revokedPairs s)") (simp_all add: issue_plan_def Let_def)
  have u: "unchanged_seal input ?k s = None"
    using assms r by (cases "unchanged_seal input ?k s") (simp_all add: issue_plan_def Let_def)
  obtain c where c: "buildSeal zod i now input (map_option head_payload (map_get (currentSeals s) ?k)) = Inr c"
    using assms r u
    by (cases "buildSeal zod i now input (map_option head_payload (map_get (currentSeals s) ?k))")
      (simp_all add: issue_plan_def Let_def)
  have eqs: "key = ?k" "chat = chatId" "chain = c" "input' = input"
    using assms r u c by (auto simp: issue_plan_def Let_def)
  show "key = ?k" "chat = chatId" "input' = input" by (rule eqs)+
  show "key \<notin> set (revokedPairs s)" "unchanged_seal input key s = None"
    "buildSeal zod i now input (map_option head_payload (map_get (currentSeals s) key)) = Inr chain"
    unfolding eqs(1,3) by (rule r u c)+
qed

lemma refresh_plan_publish:
  assumes "refresh_plan zod sealId i now s = Publish key chat chain input"
  obtains old where "map_get (sealsById s) sealId = Some old"
    "map_get (inputsBySealId s) sealId = Some input" "key = key_of old"
    "map_option seal_id (map_get (currentSeals s) key) = Some sealId"
    "key \<notin> set (revokedPairs s)" "chat = sp_chatId (head_payload old)"
    "buildSeal zod i now input (Some (head_payload old)) = Inr chain"
proof -
  obtain old where o: "map_get (sealsById s) sealId = Some old"
    using assms by (cases "map_get (sealsById s) sealId") (simp_all add: refresh_plan_def)
  obtain inp where inp: "map_get (inputsBySealId s) sealId = Some inp"
    using assms o by (cases "map_get (inputsBySealId s) sealId") (simp_all add: refresh_plan_def)
  have h: "map_option seal_id (map_get (currentSeals s) (key_of old)) = Some sealId"
    using assms o inp
    by (cases "map_option seal_id (map_get (currentSeals s) (key_of old)) = Some sealId")
      (simp_all add: refresh_plan_def Let_def)
  then obtain cur where cur: "map_get (currentSeals s) (key_of old) = Some cur" "seal_id cur = sealId"
    by auto
  have r: "key_of old \<notin> set (revokedPairs s)"
    using assms o inp cur by (cases "key_of old \<in> set (revokedPairs s)")
      (simp_all add: refresh_plan_def Let_def)
  obtain c where c: "buildSeal zod i now inp (Some (head_payload old)) = Inr c"
    using assms o inp cur r by (cases "buildSeal zod i now inp (Some (head_payload old))")
      (simp_all add: refresh_plan_def Let_def)
  have "key = key_of old" "chat = sp_chatId (head_payload old)" "chain = c" "input = inp"
    using assms o inp cur r c by (auto simp: refresh_plan_def Let_def)
  with o inp h r c show thesis by (intro that [of old]) simp_all
qed

lemma built_seal_mono:
  assumes "built_seal zod (sealsById s) e input"
    and "map_get (sealsById s) i = None"
  shows "built_seal zod (map_set i e' (sealsById s)) e input"
  using assms unfolding built_seal_def by (auto simp: option.pred_set)

lemma built_seal_ids:
  assumes "built_seal zod m e input"
  shows "sp_credentialId (head_payload e) = si_credentialId input"
    and "sp_chatId (head_payload e) = si_chatId input"
proof -
  from assms obtain i t where "head_payload e = raw_payload i t input" by (auto simp: built_seal_def)
  then show "sp_credentialId (head_payload e) = si_credentialId input"
    "sp_chatId (head_payload e) = si_chatId input" by (simp_all add: raw_payload_def)
qed

lemma record_seal_simps [simp]:
  "sealsById (record_seal k e input s) = map_set (seal_id e) e (sealsById s)"
  "currentSeals (record_seal k e input s) = map_set k e (currentSeals s)"
  "inputsBySealId (record_seal k e input s) = map_set (seal_id e) input (inputsBySealId s)"
  "revokedPairs (record_seal k e input s) = revokedPairs s"
  by (simp_all add: record_seal_def)

text \<open>Adding a job.\<close>

lemma seals_wf_add_seal:
  assumes "seals_wf zod s jobs" and "unused_id (seal_id e) s jobs" and "k = key_of e"
    and "built_seal zod (sealsById s) e input"
  shows "seals_wf zod s (jobs @ [SealJob k e input])"
  using assms by (auto simp: seals_wf_def job_ok_def unused_id_def)

lemma seals_wf_fewer:
  assumes "seals_wf zod s (js @ job # js')"
  shows "seals_wf zod s (js @ js')"
  using assms by (auto simp: seals_wf_def)

lemma seals_wf_record:
  assumes "seals_wf zod s (js @ SealJob k e input # js')"
  shows "seals_wf zod (record_seal k e input s) (js @ js')"
proof -
  let ?m = "map_set (seal_id e) e (sealsById s)"
  have j: "k = key_of e" "built_seal zod (sealsById s) e input"
    "map_get (sealsById s) (seal_id e) = None"
    using assms by (auto simp: seals_wf_def job_ok_def)
  have others: "job_ok zod (record_seal k e input s) j" if "j \<in> set (js @ js')" for j
  proof (cases j)
    case (SealJob k' e' input')
    with that assms have "job_ok zod s j" "seal_id e' \<noteq> seal_id e"
      by (auto simp: seals_wf_def)
    with SealJob j(3) show ?thesis by (auto simp: job_ok_def record_seal_def built_seal_mono)
  qed (simp add: job_ok_def)
  have byId: "seal_id e' = i \<and> (\<exists>inp. ((map_get (inputsBySealId s))(seal_id e \<mapsto> input)) i = Some inp
      \<and> built_seal zod ?m e' inp)"
    if "map_get ?m i = Some e'" for i e'
  proof (cases "i = seal_id e")
    case True
    with that j(2,3) show ?thesis by (simp add: built_seal_mono)
  next
    case False
    with that assms j(3) show ?thesis
      by (fastforce simp: seals_wf_def dest: built_seal_mono [where e' = e])
  qed
  have cur: "key_of e' = k' \<and> map_get ?m (seal_id e') = Some e'"
    if "((map_get (currentSeals s))(k \<mapsto> e)) k' = Some e'" for k' e'
  proof (cases "k' = k")
    case True
    with that j(1) show ?thesis by simp
  next
    case False
    with that assms have "key_of e' = k'" "map_get (sealsById s) (seal_id e') = Some e'"
      by (auto simp: seals_wf_def)
    with j(3) show ?thesis by auto
  qed
  show ?thesis
    unfolding seals_wf_def
  proof (intro conjI)
    show "map_wf (sealsById (record_seal k e input s))"
      using assms by (simp add: seals_wf_def record_seal_def)
    show "distinct (concat (map job_ids (js @ js')))" using assms by (auto simp: seals_wf_def)
    show "\<forall>j \<in> set (js @ js'). job_ok zod (record_seal k e input s) j" using others by blast
    show "\<forall>i e'. map_get (sealsById (record_seal k e input s)) i = Some e' \<longrightarrow> seal_id e' = i
        \<and> (\<exists>inp. map_get (inputsBySealId (record_seal k e input s)) i = Some inp
           \<and> built_seal zod (sealsById (record_seal k e input s)) e' inp)"
    proof (intro allI impI)
      fix i e' assume "map_get (sealsById (record_seal k e input s)) i = Some e'"
      then have "map_get ?m i = Some e'" by (simp only: record_seal_simps)
      from byId [OF this] show "seal_id e' = i
          \<and> (\<exists>inp. map_get (inputsBySealId (record_seal k e input s)) i = Some inp
             \<and> built_seal zod (sealsById (record_seal k e input s)) e' inp)"
        by (simp only: record_seal_simps map_get_set)
    qed
    show "\<forall>k' e'. map_get (currentSeals (record_seal k e input s)) k' = Some e' \<longrightarrow>
        key_of e' = k' \<and> map_get (sealsById (record_seal k e input s)) (seal_id e') = Some e'"
    proof (intro allI impI)
      fix k' e' assume "map_get (currentSeals (record_seal k e input s)) k' = Some e'"
      then have "((map_get (currentSeals s))(k \<mapsto> e)) k' = Some e'"
        by (simp only: record_seal_simps map_get_set)
      from cur [OF this] show "key_of e' = k'
          \<and> map_get (sealsById (record_seal k e input s)) (seal_id e') = Some e'"
        by (simp only: record_seal_simps)
    qed
  qed
qed

lemma seals_wf_revoke:
  assumes "seals_wf zod s (js @ RevokeJob k # js')"
  shows "seals_wf zod (record_revocation k s) (js @ js')"
proof -
  have "job_ok zod (record_revocation k s) j = job_ok zod s j" for j
    by (simp add: job_ok_def record_revocation_def split: seal_job.split)
  with seals_wf_fewer [OF assms] show ?thesis
    by (auto simp: seals_wf_def record_revocation_def split: if_splits)
qed

lemma interleaved_wf: "seal_interleaved zod s jobs \<Longrightarrow> seals_wf zod s jobs"
proof (induction rule: seal_interleaved.induct)
  case si_init
  then show ?case by (simp add: seals_wf_def empty_seal_state_def)
next
  case (si_issue s jobs input chatId sealId now key chat chain input' stamped)
  note p = issue_plan_publish [OF si_issue.hyps(4)]
  have "map_get (sealsById s) (seal_id q) = Some q
      \<and> key_of q = chainKey (si_credentialId input) (si_chatId input)"
    if "map_get (currentSeals s) key = Some q" for q
    using that si_issue.IH p(1) si_issue.hyps(2) unfolding seals_wf_def by blast
  note b = buildSeal_built [OF p(5) this]
  have "built_seal zod (sealsById s) (stamped\<lparr>se_chain := chain\<rparr>) input" by (rule b(1))
  then show ?case
    using si_issue.IH si_issue.hyps(2,3) p(1,3) b(2)
    by (intro seals_wf_add_seal) (simp_all add: raw_payload_def)
next
  case (si_refresh s jobs newId sealId now key chat chain input' stamped)
  obtain old where o: "map_get (sealsById s) sealId = Some old"
    "map_get (inputsBySealId s) sealId = Some input'" "key = key_of old"
    "buildSeal zod newId now input' (map_option head_payload (Some old)) = Inr chain"
    by (rule refresh_plan_publish [OF si_refresh.hyps(3)], rule that) simp_all
  have old: "seal_id old = sealId" by (rule seals_wf_byId(1) [OF si_refresh.IH o(1)])
  have bo: "built_seal zod (sealsById s) old input'"
    using seals_wf_byId(2) [OF si_refresh.IH o(1)] o(2) by (metis option.inject)
  then have k: "key_of old = chainKey (si_credentialId input') (si_chatId input')"
    using built_seal_ids [OF bo] by simp
  have "map_get (sealsById s) (seal_id q) = Some q
      \<and> key_of q = chainKey (si_credentialId input') (si_chatId input')" if "Some old = Some q" for q
    using that o(1) old k by (metis option.inject)
  note b = buildSeal_built [OF o(4) this]
  have "built_seal zod (sealsById s) (stamped\<lparr>se_chain := chain\<rparr>) input'" by (rule b(1))
  then show ?case
    using si_refresh.IH si_refresh.hyps(2) o(3) k b(2)
    by (intro seals_wf_add_seal) (simp_all add: raw_payload_def)
next
  case (si_revoke s jobs msg sealId reason newId now key rvk)
  from si_revoke.IH show ?case by (auto simp: seals_wf_def job_ok_def)
next
  case (si_seal_done s js key e input js')
  from si_seal_done.IH show ?case by (rule seals_wf_record)
next
  case (si_revoke_done s js key js')
  from si_revoke_done.IH show ?case by (rule seals_wf_revoke)
next
  case (si_failed s js job js')
  from si_failed.IH show ?case by (rule seals_wf_fewer)
qed

section \<open>Operations one after the other\<close>

inductive seal_runs :: "zod_host \<Rightarrow> seal_state \<Rightarrow> seal_state \<Rightarrow> bool" for zod s0 where
  sr_refl: "seal_runs zod s0 s0"
| sr_issue: "seal_runs zod s0 s \<Longrightarrow> (\<And>input. r = Inr input \<Longrightarrow> si_chatId input = chatId) \<Longrightarrow>
    unused_id sealId s [] \<Longrightarrow>
    seal_runs zod s0 (snd (seal_issue zod sign publish r chatId sealId now s))"
| sr_refresh: "seal_runs zod s0 s \<Longrightarrow> unused_id newId s [] \<Longrightarrow>
    seal_runs zod s0 (snd (seal_refresh zod sign publish sealId newId now s))"
| sr_revoke: "seal_runs zod s0 s \<Longrightarrow>
    seal_runs zod s0 (snd (seal_revoke (zod_is_datetime zod) msg signRevocation
      (publishRevocation :: string \<Rightarrow> string \<Rightarrow> unit result) sealId reason newId now s))"

abbreviation seal_reachable :: "zod_host \<Rightarrow> seal_state \<Rightarrow> bool" where
  "seal_reachable zod s \<equiv> seal_runs zod empty_seal_state s"

lemma run_plan_cases:
  obtains (same) "snd (run_plan sign publish plan s) = s"
  | (recorded) key chat chain input stamped where "plan = Publish key chat chain input"
    "snd (run_plan sign publish plan s) = record_seal key (stamped\<lparr>se_chain := chain\<rparr>) input s"
    "fst (run_plan sign publish plan s) = Inr (stamped\<lparr>se_chain := chain\<rparr>)"
proof (cases plan)
  case (Answer r)
  then show thesis by (intro same) (simp add: run_plan_def)
next
  case (Publish key chat chain input)
  show thesis
  proof (cases "sign (sc_current chain)")
    case (Inl e)
    with Publish show thesis by (intro same) (simp add: run_plan_def)
  next
    case (Inr stamped)
    show thesis
    proof (cases "publish chat (stamped\<lparr>se_chain := chain\<rparr>)")
      case (Inl e)
      with Publish Inr show thesis by (intro same) (simp add: run_plan_def)
    next
      case inr: (Inr u)
      show thesis
        by (rule recorded [of key chat chain input stamped])
          (use Publish Inr inr in \<open>simp_all add: run_plan_def Let_def\<close>)
    qed
  qed
qed

lemma revoke_cases:
  obtains (same) e where
    "seal_revoke d msg signRevocation publishRevocation sealId reason newId now s = (Inl e, s)"
  | (revoked) key rvk where "plan_revocation d msg sealId reason newId now s = RevokePublish key rvk"
    "seal_revoke d msg signRevocation publishRevocation sealId reason newId now s
       = (Inr (), record_revocation key s)"
proof (cases "plan_revocation d msg sealId reason newId now s")
  case (RevokeError e)
  then show thesis by (intro same [of e]) (simp add: seal_revoke_def)
next
  case (RevokePublish key rvk)
  show thesis
  proof (cases "signRevocation rvk")
    case (Inl e)
    with RevokePublish show thesis by (intro same [of e]) (simp add: seal_revoke_def)
  next
    case (Inr sig)
    show thesis
    proof (cases "publishRevocation (rs_chatId rvk) sig")
      case (Inl e)
      with RevokePublish Inr show thesis by (intro same [of e]) (simp add: seal_revoke_def)
    next
      case inr: (Inr u)
      with RevokePublish Inr show thesis by (intro revoked) (simp_all add: seal_revoke_def)
    qed
  qed
qed

text \<open>A run of whole operations is an interleaving with no job left over.\<close>

lemma runs_interleaved:
  "seal_runs zod s0 s \<Longrightarrow> seal_interleaved zod s0 [] \<Longrightarrow> seal_interleaved zod s []"
proof (induction rule: seal_runs.induct)
  case sr_refl
  then show ?case .
next
  case (sr_issue s r chatId sealId sign publish now)
  show ?case
  proof (cases rule: run_plan_cases [of sign publish "issue_plan zod r chatId sealId now s" s])
    case same
    with sr_issue show ?thesis by (simp add: seal_issue_def)
  next
    case (recorded key chat chain input stamped)
    obtain inp where r: "r = Inr inp" using recorded(1) by (cases r) (simp_all add: issue_plan_def)
    from si_issue [OF sr_issue.IH [OF sr_issue.prems] sr_issue.hyps(2) [OF r] sr_issue.hyps(3) recorded(1) [unfolded r], of stamped]
    have "seal_interleaved zod s ([] @ SealJob key (stamped\<lparr>se_chain := chain\<rparr>) input # [])" by simp
    from si_seal_done [OF this] recorded(2) show ?thesis by (simp add: seal_issue_def)
  qed
next
  case (sr_refresh s newId sign publish sealId now)
  show ?case
  proof (cases rule: run_plan_cases [of sign publish "refresh_plan zod sealId newId now s" s])
    case same
    with sr_refresh show ?thesis by (simp add: seal_refresh_def)
  next
    case (recorded key chat chain input stamped)
    from si_refresh [OF sr_refresh.IH [OF sr_refresh.prems] sr_refresh.hyps(2) recorded(1), of stamped]
    have "seal_interleaved zod s ([] @ SealJob key (stamped\<lparr>se_chain := chain\<rparr>) input # [])" by simp
    from si_seal_done [OF this] recorded(2) show ?thesis by (simp add: seal_refresh_def)
  qed
next
  case (sr_revoke s msg signRevocation publishRevocation sealId reason newId now)
  show ?case
  proof (cases rule: revoke_cases [of "zod_is_datetime zod" msg signRevocation publishRevocation sealId
      reason newId now s])
    case (same e)
    with sr_revoke.IH [OF sr_revoke.prems] show ?thesis by simp
  next
    case (revoked key rvk)
    from si_revoke [OF sr_revoke.IH [OF sr_revoke.prems] revoked(1)]
    have "seal_interleaved zod s ([] @ RevokeJob key # [])" by simp
    from si_revoke_done [OF this] revoked(2) show ?thesis by simp
  qed
qed

lemma seal_reachable_wf: "seal_reachable zod s \<Longrightarrow> seals_wf zod s []"
  by (rule interleaved_wf [OF runs_interleaved [OF _ si_init]])

section \<open>One chain per credential and chat\<close>

text \<open>A chain, newest seal first.\<close>

fun linked :: "seal_envelope list \<Rightarrow> bool" where
  "linked [] \<longleftrightarrow> True"
| "linked [e] \<longleftrightarrow> sc_previous (se_chain e) = None"
| "linked (e # e' # es) \<longleftrightarrow>
     sc_previous (se_chain e) = Some (head_payload e') \<and> linked (e' # es)"

definition seals_of :: "string \<Rightarrow> seal_state \<Rightarrow> seal_envelope set" where
  "seals_of k s = {e. map_get (sealsById s) (seal_id e) = Some e \<and> key_of e = k}"

definition chain_for :: "seal_state \<Rightarrow> string \<Rightarrow> seal_envelope list \<Rightarrow> bool" where
  "chain_for s k cs \<longleftrightarrow>
     set cs = seals_of k s \<and> linked cs \<and> distinct (map seal_id cs)
     \<and> map_get (currentSeals s) k
         = (if k \<in> set (revokedPairs s) \<or> cs = [] then None else Some (hd cs))"

definition chained :: "seal_state \<Rightarrow> bool" where
  "chained s \<longleftrightarrow> (\<forall>k. \<exists>cs. chain_for s k cs)"

lemma linked_Cons:
  "linked (e # cs) \<longleftrightarrow>
     sc_previous (se_chain e) = map_option head_payload (if cs = [] then None else Some (hd cs))
     \<and> linked cs"
  by (cases cs) auto

lemma chained_record:
  assumes "chained s" and new: "map_get (sealsById s) (seal_id e) = None"
    and k: "key_of e = k" "k \<notin> set (revokedPairs s)"
    and prev: "sc_previous (se_chain e) = map_option head_payload (map_get (currentSeals s) k)"
  shows "chained (record_seal k e input s)"
  unfolding chained_def
proof
  fix k'
  from assms(1) obtain cs where cs: "chain_for s k' cs" by (auto simp: chained_def)
  have fresh: "seal_id e' \<noteq> seal_id e" if "map_get (sealsById s) (seal_id e') = Some e'" for e'
    using that new by auto
  show "\<exists>cs. chain_for (record_seal k e input s) k' cs"
  proof (cases "k' = k")
    case False
    then have "seals_of k' (record_seal k e input s) = seals_of k' s"
      using fresh k(1) by (auto simp: seals_of_def)
    with cs False show ?thesis by (auto simp: chain_for_def)
  next
    case True
    have "seals_of k (record_seal k e input s) = insert e (seals_of k s)"
      using fresh k(1) by (auto simp: seals_of_def)
    moreover have "seal_id e \<notin> set (map seal_id cs)"
      using cs fresh unfolding chain_for_def seals_of_def by fastforce
    ultimately have "chain_for (record_seal k e input s) k (e # cs)"
      using cs prev k(2) True by (simp add: chain_for_def linked_Cons)
    with True show ?thesis by blast
  qed
qed

lemma chained_revoke:
  assumes "chained s"
  shows "chained (record_revocation k s)"
  unfolding chained_def
proof
  fix k'
  from assms obtain cs where "chain_for s k' cs" by (auto simp: chained_def)
  then have "chain_for (record_revocation k s) k' cs"
    by (auto simp: chain_for_def record_revocation_def seals_of_def)
  then show "\<exists>cs. chain_for (record_revocation k s) k' cs" ..
qed

lemma reachable_chained: "seal_reachable zod s \<Longrightarrow> chained s"
proof (induction rule: seal_runs.induct)
  case sr_refl
  have "chain_for empty_seal_state k []" for k
    by (simp add: chain_for_def seals_of_def empty_seal_state_def)
  then show ?case unfolding chained_def by blast
next
  case (sr_issue s r chatId sealId sign publish now)
  have wf: "seals_wf zod s []" by (rule seal_reachable_wf [OF sr_issue.hyps(1)])
  show ?case
  proof (cases rule: run_plan_cases [of sign publish "issue_plan zod r chatId sealId now s" s])
    case same
    with sr_issue show ?thesis by (simp add: seal_issue_def)
  next
    case (recorded key chat chain input stamped)
    obtain inp where r: "r = Inr inp" using recorded(1) by (cases r) (simp_all add: issue_plan_def)
    note p = issue_plan_publish [OF recorded(1) [unfolded r]]
    have c: "map_get (sealsById s) (seal_id q) = Some q
        \<and> key_of q = chainKey (si_credentialId inp) (si_chatId inp)"
      if "map_get (currentSeals s) key = Some q" for q
      using seals_wf_current [OF wf that] p(1) sr_issue.hyps(2) [OF r] by simp
    note b = buildSeal_built(2,3) [OF p(5) c]
    have "chained (record_seal key (stamped\<lparr>se_chain := chain\<rparr>) input s)"
      using sr_issue.IH sr_issue.hyps(3) p(1,4) b sr_issue.hyps(2) [OF r]
      by (intro chained_record) (simp_all add: raw_payload_def unused_id_def)
    then show ?thesis by (simp add: seal_issue_def recorded(2))
  qed
next
  case (sr_refresh s newId sign publish sealId now)
  have wf: "seals_wf zod s []" by (rule seal_reachable_wf [OF sr_refresh.hyps(1)])
  show ?case
  proof (cases rule: run_plan_cases [of sign publish "refresh_plan zod sealId newId now s" s])
    case same
    with sr_refresh show ?thesis by (simp add: seal_refresh_def)
  next
    case (recorded key chat chain input stamped)
    obtain old where o: "map_get (sealsById s) sealId = Some old"
      "map_get (inputsBySealId s) sealId = Some input" "key = key_of old"
      "map_option seal_id (map_get (currentSeals s) key) = Some sealId"
      "key \<notin> set (revokedPairs s)"
      "buildSeal zod newId now input (map_option head_payload (Some old)) = Inr chain"
      by (rule refresh_plan_publish [OF recorded(1)], rule that) simp_all
    obtain cur where cur: "map_get (currentSeals s) key = Some cur" "seal_id cur = sealId"
      using o(4) by blast
    have same: "cur = old" using seals_wf_current(2) [OF wf cur(1)] cur(2) o(1) by simp
    have bo: "built_seal zod (sealsById s) old input"
      using seals_wf_byId(2) [OF wf o(1)] o(2) by (metis option.inject)
    have c: "map_get (sealsById s) (seal_id q) = Some q
        \<and> key_of q = chainKey (si_credentialId input) (si_chatId input)" if "Some old = Some q" for q
      using that o(1) seals_wf_byId(1) [OF wf o(1)] built_seal_ids [OF bo] by (metis option.inject)
    note b = buildSeal_built(2,3) [OF o(6) c]
    have "chained (record_seal key (stamped\<lparr>se_chain := chain\<rparr>) input s)"
      using sr_refresh.IH sr_refresh.hyps(2) o(3,5) b built_seal_ids [OF bo] cur(1) same
      by (intro chained_record) (simp_all add: raw_payload_def unused_id_def)
    then show ?thesis by (simp add: seal_refresh_def recorded(2))
  qed
next
  case (sr_revoke s msg signRevocation publishRevocation sealId reason newId now)
  show ?case
  proof (cases rule: revoke_cases [of "zod_is_datetime zod" msg signRevocation publishRevocation sealId
      reason newId now s])
    case (same e)
    with sr_revoke.IH show ?thesis by simp
  next
    case (revoked key rvk)
    with chained_revoke [OF sr_revoke.IH, of key] show ?thesis by simp
  qed
qed

section \<open>The history of a chain\<close>

lemma linked_previous:
  "linked cs \<Longrightarrow> List.map_filter previous_id cs = map seal_id (tl cs)"
proof (induction cs rule: linked.induct)
  case (3 e e' es)
  then show ?case by (simp add: previous_id_def map_filter_simps)
qed (simp_all add: previous_id_def map_filter_simps)

lemma history_of_chain:
  assumes "linked cs" and "\<And>e. e \<in> set cs \<Longrightarrow> map_get m (seal_id e) = Some e \<and> seal_id e \<noteq> []"
    and "distinct (map seal_id cs)" and "set (map seal_id cs) \<inter> set seen = {}"
  shows "history_loop m seen (if cs = [] then None else Some (hd cs)) = cs"
  using assms
proof (induction cs arbitrary: seen)
  case (Cons e cs)
  have "predecessor m e = (if cs = [] then None else Some (hd cs))"
    using Cons.prems(1,2) by (cases cs) (auto simp: predecessor_def previous_id_def linked_Cons)
  moreover have "history_loop m (seal_id e # seen) (if cs = [] then None else Some (hd cs)) = cs"
    using Cons.prems by (intro Cons.IH) (auto simp: linked_Cons)
  ultimately show ?case using Cons.prems(4) by simp
qed simp

lemma find_unreferenced:
  assumes "set es = set cs" and "cs \<noteq> []" and "linked cs" and "distinct (map seal_id cs)"
  shows "findHistoryHead es = Some (hd cs)"
proof -
  have "set (List.map_filter previous_id es) = set (List.map_filter previous_id cs)"
    using assms(1) by (simp add: List.map_filter_def)
  then have ref: "set (List.map_filter previous_id es) = seal_id ` set (tl cs)"
    using linked_previous [OF assms(3)] by simp
  have only: "e \<in> set cs \<Longrightarrow> seal_id e \<notin> seal_id ` set (tl cs) \<longleftrightarrow> e = hd cs" for e
    using assms(2,4) by (cases cs) auto
  have "hd cs \<in> set es" using assms(1,2) by simp
  then obtain e where e: "find_first (\<lambda>e. seal_id e \<notin> seal_id ` set (tl cs)) es = Some e"
    using only assms(1,2) by (metis find_first_None hd_in_set not_None_eq)
  from find_first_SomeD [OF this] only assms(1) have "e = hd cs" by metis
  with e ref show ?thesis by (simp add: findHistoryHead_def Let_def)
qed

lemma seal_ids_nonempty: "seals_wf zod s jobs \<Longrightarrow> map_get (sealsById s) i = Some e \<Longrightarrow> i \<noteq> []"
proof -
  assume wf: "seals_wf zod s jobs" and i: "map_get (sealsById s) i = Some e"
  from seals_wf_byId [OF wf i] have "idSchema RtSeal i"
    by (auto simp: built_seal_def SealPayload_ok_def)
  then show "i \<noteq> []" by (auto simp: idSchema_def starts_with_def split: if_splits)
qed

lemma history_is_chain:
  assumes wf: "seals_wf zod s []" and cs: "chain_for s (chainKey c h) cs"
    and some: "e \<in> seals_of (chainKey c h) s"
    and pair: "\<And>e. e \<in> seals_of (chainKey c h) s \<Longrightarrow>
      sp_credentialId (head_payload e) = c \<and> sp_chatId (head_payload e) = h"
  shows "seal_history c h s = cs"
proof -
  let ?es = "filter (\<lambda>e. sp_credentialId (head_payload e) = c \<and> sp_chatId (head_payload e) = h)
    (map_values (sealsById s))"
  have mw: "map_wf (sealsById s)" using wf by (simp add: seals_wf_def)
  have es: "set ?es = seals_of (chainKey c h) s"
  proof (intro set_eqI iffI)
    fix x assume x: "x \<in> set ?es"
    then obtain i where "map_get (sealsById s) i = Some x" using mw by (auto simp: map_values_iff)
    with seals_wf_byId(1) [OF wf this] x show "x \<in> seals_of (chainKey c h) s"
      by (auto simp: seals_of_def)
  next
    fix x assume x: "x \<in> seals_of (chainKey c h) s"
    then have "x \<in> set (map_values (sealsById s))" using mw by (auto simp: seals_of_def map_values_iff)
    with pair [OF x] show "x \<in> set ?es" by simp
  qed
  have c: "set cs = seals_of (chainKey c h) s" "linked cs" "distinct (map seal_id cs)"
    "map_get (currentSeals s) (chainKey c h)
       = (if chainKey c h \<in> set (revokedPairs s) \<or> cs = [] then None else Some (hd cs))"
    using cs by (simp_all add: chain_for_def)
  have "cs \<noteq> []" "e \<in> set ?es" using some c(1) unfolding es by auto
  then have ne: "cs \<noteq> []" "?es \<noteq> []" by (metis, metis list.set(1) empty_iff)
  have "findHistoryHead ?es = Some (hd cs)"
    by (rule find_unreferenced) (use es c ne in auto)
  moreover have "history_loop (sealsById s) [] (if cs = [] then None else Some (hd cs)) = cs"
    using c seal_ids_nonempty [OF wf] by (intro history_of_chain) (auto simp: seals_of_def)
  ultimately show ?thesis
    using ne c(4) by (simp add: seal_history_def Let_def split: if_splits)
qed

section \<open>Revoked pairs\<close>

lemma revoked_stays: "seal_runs zod s0 s \<Longrightarrow> k \<in> set (revokedPairs s0) \<Longrightarrow> k \<in> set (revokedPairs s)"
proof (induction rule: seal_runs.induct)
  case (sr_issue s r chatId sealId sign publish now)
  then show ?case
    by (cases rule: run_plan_cases [of sign publish "issue_plan zod r chatId sealId now s" s])
      (simp_all add: seal_issue_def)
next
  case (sr_refresh s newId sign publish sealId now)
  then show ?case
    by (cases rule: run_plan_cases [of sign publish "refresh_plan zod sealId newId now s" s])
      (simp_all add: seal_refresh_def)
next
  case (sr_revoke s msg signRevocation publishRevocation sealId reason newId now)
  then show ?case
    by (cases rule: revoke_cases [of "zod_is_datetime zod" msg signRevocation publishRevocation sealId
      reason newId now s]) (simp_all add: record_revocation_def)
qed

lemma runs_append: "seal_runs zod s1 s2 \<Longrightarrow> seal_runs zod s0 s1 \<Longrightarrow> seal_runs zod s0 s2"
proof (induction rule: seal_runs.induct)
  case (sr_issue s r chatId sealId sign publish now)
  from seal_runs.sr_issue [OF sr_issue.IH [OF sr_issue.prems] sr_issue.hyps(2,3)] show ?case .
next
  case (sr_refresh s newId sign publish sealId now)
  from seal_runs.sr_refresh [OF sr_refresh.IH [OF sr_refresh.prems] sr_refresh.hyps(2)] show ?case .
next
  case (sr_revoke s msg signRevocation publishRevocation sealId reason newId now)
  from seal_runs.sr_revoke [OF sr_revoke.IH [OF sr_revoke.prems]] show ?case .
qed

lemma plan_revocation_publish:
  assumes "plan_revocation d msg sealId reason newId now s = RevokePublish key rvk"
  obtains e where "map_get (sealsById s) sealId = Some e" "key = key_of e"
    "key \<notin> set (revokedPairs s)"
proof -
  obtain e where e: "map_get (sealsById s) sealId = Some e"
    using assms by (cases "map_get (sealsById s) sealId") (simp_all add: plan_revocation_def)
  have k: "key_of e \<notin> set (revokedPairs s)"
    using assms e by (cases "key_of e \<in> set (revokedPairs s)") (simp_all add: plan_revocation_def Let_def)
  have "key = key_of e"
    using assms e k by (auto simp: plan_revocation_def Let_def split: if_splits)
  with e k show thesis by (intro that) simp_all
qed

section \<open>Properties\<close>


text \<open>A concrete run: two seals for one credential in one chat.\<close>

definition demo_zod :: zod_host where
  "demo_zod = \<lparr>zod_is_datetime = (\<lambda>_. True), zod_message = (\<lambda>_. ''invalid'')\<rparr>"

definition demo_cred :: string where "demo_cred = ''cred_00000000000000aa''"

definition demo_chat :: string where "demo_chat = ''conv_00000000000000bb''"

definition demo_input :: "permission_scope list \<Rightarrow> admin_access option \<Rightarrow> seal_input" where
  "demo_input scopes access =
     \<lparr>si_credentialId = demo_cred, si_operatorId = ''op_00000000000000cc'',
      si_chatId = demo_chat, si_scopeMode = PerChat,
      si_permissions = \<lparr>allow = scopes, deny = []\<rparr>, si_adminAccess = access,
      si_bypassed = False, si_trustTier = None, si_operatorDisclosures = None,
      si_provenanceMap = None\<rparr>"

definition demo_sign :: "seal_payload \<Rightarrow> seal_envelope result" where
  "demo_sign p = Inr \<lparr>se_chain = \<lparr>sc_current = p, sc_previous = None, sc_delta = first_delta\<rparr>,
                      se_signature = ''sig'', se_keyId = ''key_00000000000000dd''\<rparr>"

definition demo_publish :: "string \<Rightarrow> 'a \<Rightarrow> unit result" where
  "demo_publish chat e = Inr ()"

definition demo_seal_id :: "char \<Rightarrow> string" where
  "demo_seal_id c = ''seal_000000000000000'' @ [c]"

definition seal_store_1 :: seal_state where
  "seal_store_1 = snd (seal_issue demo_zod demo_sign demo_publish
     (Inr (demo_input [ScSend] None)) demo_chat (demo_seal_id (CHR ''1'')) 1000 empty_seal_state)"

definition seal_store_2 :: seal_state where
  "seal_store_2 = snd (seal_refresh demo_zod demo_sign demo_publish
     (demo_seal_id (CHR ''1'')) (demo_seal_id (CHR ''2'')) 2000 seal_store_1)"

lemma demo_seal_reachable:
  "seal_reachable demo_zod seal_store_1" "seal_reachable demo_zod seal_store_2"
proof -
  have f: "unused_id (demo_seal_id (CHR ''1'')) empty_seal_state []"
    "unused_id (demo_seal_id (CHR ''2'')) seal_store_1 []" by code_simp+
  show one: "seal_reachable demo_zod seal_store_1"
    unfolding seal_store_1_def
    by (rule sr_issue [OF sr_refl]) (use f(1) in \<open>auto simp: demo_input_def\<close>)
  show "seal_reachable demo_zod seal_store_2"
    unfolding seal_store_2_def by (rule sr_refresh [OF one f(2)])
qed


text \<open>
  C27. Every seal on record is well built, however issues, refreshes and revocations
  interleave: it is stored under its id, satisfies the payload schema, discloses exactly the
  input it was built from, carries the true delta to its predecessor, and that predecessor is
  itself on record for the same credential and chat; and every current seal is on record for
  the pair it is current for.
\<close>

theorem recorded_seals_well_built:
  assumes "seal_interleaved zod s jobs"
  shows "(\<forall>i e. map_get (sealsById s) i = Some e \<longrightarrow>
            seal_id e = i \<and> SealPayload_ok (zod_is_datetime zod) (head_payload e)
            \<and> (\<exists>input now. map_get (inputsBySealId s) i = Some input
                 \<and> head_payload e = raw_payload i now input)
            \<and> verifyChainDelta (se_chain e) = Inr ()
            \<and> pred_option (\<lambda>p. \<exists>e'. map_get (sealsById s) (sp_sealId p) = Some e'
                 \<and> head_payload e' = p \<and> key_of e' = key_of e) (sc_previous (se_chain e)))
       \<and> (\<forall>k e. map_get (currentSeals s) k = Some e \<longrightarrow>
            key_of e = k \<and> map_get (sealsById s) (seal_id e) = Some e)"
proof (intro conjI allI impI)
  note wf = interleaved_wf [OF assms]
  fix i e assume e: "map_get (sealsById s) i = Some e"
  note one = seals_wf_byId [OF wf e]
  show "seal_id e = i" by (rule one(1))
  from one(2) obtain input where input: "map_get (inputsBySealId s) i = Some input"
    "built_seal zod (sealsById s) e input" by blast
  then show "SealPayload_ok (zod_is_datetime zod) (head_payload e)"
    "verifyChainDelta (se_chain e) = Inr ()"
    "pred_option (\<lambda>p. \<exists>e'. map_get (sealsById s) (sp_sealId p) = Some e'
       \<and> head_payload e' = p \<and> key_of e' = key_of e) (sc_previous (se_chain e))"
    unfolding built_seal_def by blast+
  from input(2) have "head_payload e = raw_payload (seal_id e) (sp_issuedAt (head_payload e)) input"
    unfolding built_seal_def by blast
  with input(1) one(1) show "\<exists>input now. map_get (inputsBySealId s) i = Some input
      \<and> head_payload e = raw_payload i now input" by metis
next
  note wf = interleaved_wf [OF assms]
  fix k e assume e: "map_get (currentSeals s) k = Some e"
  show "key_of e = k" "map_get (sealsById s) (seal_id e) = Some e"
    by (rule seals_wf_current [OF wf e])+
qed

theorem recorded_seals_well_built_witness:
  "\<exists>e. map_get (sealsById seal_store_2) (demo_seal_id (CHR ''2'')) = Some e
     \<and> verifyChainDelta (se_chain e) = Inr ()"
proof -
  have "map_get (sealsById seal_store_2) (demo_seal_id (CHR ''2'')) \<noteq> None" by code_simp
  then obtain e where "map_get (sealsById seal_store_2) (demo_seal_id (CHR ''2'')) = Some e" by blast
  with recorded_seals_well_built [OF runs_interleaved [OF demo_seal_reachable(2) si_init]]
  show ?thesis by blast
qed

text \<open>
  C26. Revoking a seal is final, as long as operations run one after the other: afterwards,
  whatever is issued, refreshed or revoked, the pair has no current seal, issuing for it is
  refused, and none of its seals can be refreshed or revoked again. (Interleaved operations
  can undo it, see below.)
\<close>

theorem seal_revocation_is_final:
  assumes "seal_reachable zod s" and "map_get (sealsById s) sealId = Some e"
    and "seal_revoke (zod_is_datetime zod) msg sr (pr :: string \<Rightarrow> string \<Rightarrow> unit result)
           sealId reason newId now s = (Inr (), s1)"
    and "seal_runs zod s1 s2"
    and "si_credentialId input = sp_credentialId (head_payload e)"
    and "chat = sp_chatId (head_payload e)"
    and "map_get (sealsById s2) j = Some e'" and "key_of e' = key_of e"
  shows "seal_current (sp_credentialId (head_payload e)) chat s2 = None
    \<and> seal_issue zod sign publish (Inr input) chat i t s2
        = (Inl (SealError [] ''Cannot issue seal for revoked credential+chat''), s2)
    \<and> seal_refresh zod sign publish j i t s2
        = (Inl (SealError j ''Only the current head seal can be refreshed''), s2)
    \<and> seal_revoke (zod_is_datetime zod) msg sr pr j reason' i t s2
        = (Inl (SealError j ''Credential+chat already revoked''), s2)"
proof -
  obtain key rvk where r: "plan_revocation (zod_is_datetime zod) msg sealId reason newId now s
      = RevokePublish key rvk" "s1 = record_revocation key s"
    using assms(3) by (cases rule: revoke_cases [of "zod_is_datetime zod" msg sr pr sealId reason newId now s]) auto
  have key: "key = key_of e"
    by (rule plan_revocation_publish [OF r(1)]) (use assms(2) in simp)
  have "seal_reachable zod s1"
    using sr_revoke [OF assms(1), of msg sr pr sealId reason newId now] assms(3) by simp
  then have s2: "seal_reachable zod s2" by (rule runs_append [OF assms(4)])
  then obtain cs where cs: "chain_for s2 (key_of e) cs"
    using reachable_chained [OF s2] by (auto simp: chained_def)
  have "key_of e \<in> set (revokedPairs s1)" by (simp add: r(2) key record_revocation_def)
  then have rev: "key_of e \<in> set (revokedPairs s2)" by (rule revoked_stays [OF assms(4)])
  have cur: "map_get (currentSeals s2) (key_of e) = None"
    using cs rev by (simp add: chain_for_def)
  obtain inp where inp: "map_get (inputsBySealId s2) j = Some inp"
    using seals_wf_byId(2) [OF seal_reachable_wf [OF s2] assms(7)] by blast
  show ?thesis
    using cur rev assms(5-8) inp
    by (simp add: seal_current_def seal_issue_def issue_plan_def seal_refresh_def refresh_plan_def
        seal_revoke_def plan_revocation_def run_plan_def Let_def)
qed

definition seal_store_3 :: "unit result \<times> seal_state" where
  "seal_store_3 = seal_revoke (zod_is_datetime demo_zod) (\<lambda>_. ''invalid'') (\<lambda>_. Inr ''sig'')
     demo_publish (demo_seal_id (CHR ''2'')) AgOwnerInitiated (demo_seal_id (CHR ''3'')) 3000
     seal_store_2"

theorem seal_revocation_is_final_witness:
  "seal_current demo_cred demo_chat (snd seal_store_3) = None
   \<and> (\<exists>err. fst (seal_issue demo_zod demo_sign demo_publish (Inr (demo_input [ScReact] None))
       demo_chat (demo_seal_id (CHR ''4'')) 4000 (snd seal_store_3)) = Inl err)"
proof -
  have "fst seal_store_3 = Inr ()" by code_simp
  then have r: "seal_store_3 = (Inr (), snd seal_store_3)" by (metis prod.collapse)
  have n: "map_get (sealsById seal_store_2) (demo_seal_id (CHR ''2'')) \<noteq> None"
    "map_option (\<lambda>e. (sp_credentialId (head_payload e), sp_chatId (head_payload e)))
       (map_get (sealsById seal_store_2) (demo_seal_id (CHR ''2''))) = Some (demo_cred, demo_chat)"
    "map_get (sealsById (snd seal_store_3)) (demo_seal_id (CHR ''2''))
       = map_get (sealsById seal_store_2) (demo_seal_id (CHR ''2''))"
    by code_simp+
  obtain e where e: "map_get (sealsById seal_store_2) (demo_seal_id (CHR ''2'')) = Some e"
    "sp_credentialId (head_payload e) = demo_cred" "sp_chatId (head_payload e) = demo_chat"
    using n(2) by blast
  have i: "si_credentialId (demo_input [ScReact] None) = sp_credentialId (head_payload e)"
    by (simp add: demo_input_def e(2))
  from seal_revocation_is_final [OF demo_seal_reachable(2) e(1) r [unfolded seal_store_3_def] sr_refl i
      e(3) [symmetric] n(3) [unfolded e(1) seal_store_3_def] refl,
      of demo_sign demo_publish "demo_seal_id (CHR ''4'')" 4000]
  show ?thesis unfolding e(2) by (simp add: seal_store_3_def)
qed

text \<open>
  C18. The checks of an issuance are not repeated after its awaits, so interleaving can undo a
  revocation: there is an interleaving of one issuance with one revocation of the same pair,
  all of whose steps are the manager's own, after which no operation is pending, the pair is
  revoked and yet has a current seal, which was published after the revocation and cannot be
  revoked any more.
\<close>

definition race_plan :: seal_plan where
  "race_plan = issue_plan demo_zod (Inr (demo_input [ScSend, ScReact] None)) demo_chat
     (demo_seal_id (CHR ''5'')) 5000 seal_store_2"

definition race_envelope :: "seal_envelope" where
  "race_envelope = (case race_plan of
     Publish key chat chain input \<Rightarrow>
       \<lparr>se_chain = chain, se_signature = ''sig'', se_keyId = ''key_00000000000000dd''\<rparr>
   | Answer r \<Rightarrow> undefined)"

definition race_state :: seal_state where
  "race_state = record_seal (chainKey demo_cred demo_chat) race_envelope
     (demo_input [ScSend, ScReact] None)
     (record_revocation (chainKey demo_cred demo_chat) seal_store_2)"

lemma race_reachable: "seal_interleaved demo_zod race_state []"
proof -
  let ?k = "chainKey demo_cred demo_chat" and ?in = "demo_input [ScSend, ScReact] None"
  let ?job = "SealJob ?k race_envelope ?in"
  have start: "seal_interleaved demo_zod seal_store_2 []"
    by (rule runs_interleaved [OF demo_seal_reachable(2) si_init])
  have fresh: "unused_id (demo_seal_id (CHR ''5'')) seal_store_2 []" by code_simp
  have shape: "case race_plan of Answer r \<Rightarrow> False
      | Publish key chat chain input \<Rightarrow> key = ?k \<and> input = ?in" by code_simp
  obtain chat chain where plan: "race_plan = Publish ?k chat chain ?in"
  proof (cases race_plan)
    case (Publish k chat chain input)
    have "k = ?k \<and> input = ?in" using shape unfolding Publish by (simp only: seal_plan.case)
    with Publish have "race_plan = Publish ?k chat chain ?in" by (simp only:)
    then show thesis by (rule that)
  next
    case (Answer r)
    have False using shape unfolding Answer by (simp only: seal_plan.case)
    then show thesis ..
  qed
  have env: "race_envelope =
      \<lparr>se_chain = chain, se_signature = ''sig'', se_keyId = ''key_00000000000000dd''\<rparr>"
    by (simp add: race_envelope_def plan)
  have "si_chatId ?in = demo_chat" by (simp add: demo_input_def)
  from si_issue [OF start this fresh plan [unfolded race_plan_def],
      of "\<lparr>se_chain = chain, se_signature = ''sig'', se_keyId = ''key_00000000000000dd''\<rparr>"]
  have one: "seal_interleaved demo_zod seal_store_2 [?job]" by (simp add: env)
  have "case plan_revocation (zod_is_datetime demo_zod) (\<lambda>_. ''invalid'') (demo_seal_id (CHR ''2''))
      AgOwnerInitiated (demo_seal_id (CHR ''3'')) 3000 seal_store_2 of
      RevokeError e \<Rightarrow> False | RevokePublish key rvk \<Rightarrow> key = ?k" by code_simp
  then obtain rvk where "plan_revocation (zod_is_datetime demo_zod) (\<lambda>_. ''invalid'')
      (demo_seal_id (CHR ''2'')) AgOwnerInitiated (demo_seal_id (CHR ''3'')) 3000 seal_store_2
      = RevokePublish ?k rvk"
    by (auto split: revoke_plan.splits)
  from si_revoke [OF one this] have "seal_interleaved demo_zod seal_store_2 ([?job] @ RevokeJob ?k # [])"
    by simp
  from si_revoke_done [OF this]
  have "seal_interleaved demo_zod (record_revocation ?k seal_store_2) ([] @ ?job # [])" by simp
  from si_seal_done [OF this] show ?thesis by (simp add: race_state_def)
qed

theorem interleaving_revives_revoked_pair:
  "\<exists>s e. seal_interleaved demo_zod s []
     \<and> chainKey demo_cred demo_chat \<in> set (revokedPairs s)
     \<and> seal_current demo_cred demo_chat s = Some e
     \<and> fst (seal_revoke (zod_is_datetime demo_zod) (\<lambda>_. ''invalid'') (\<lambda>_. Inr ''sig'') demo_publish
         (seal_id e) AgOwnerInitiated (demo_seal_id (CHR ''6'')) 6000 s)
         = Inl (SealError (seal_id e) ''Credential+chat already revoked'')"
proof (intro exI conjI)
  show "seal_interleaved demo_zod race_state []" by (rule race_reachable)
  show "chainKey demo_cred demo_chat \<in> set (revokedPairs race_state)"
    by (simp add: race_state_def record_revocation_def)
  show "seal_current demo_cred demo_chat race_state = Some race_envelope"
    by (simp add: race_state_def seal_current_def)
  show "fst (seal_revoke (zod_is_datetime demo_zod) (\<lambda>_. ''invalid'') (\<lambda>_. Inr ''sig'') demo_publish
      (seal_id race_envelope) AgOwnerInitiated (demo_seal_id (CHR ''6'')) 6000 race_state)
      = Inl (SealError (seal_id race_envelope) ''Credential+chat already revoked'')"
    by code_simp
qed

text \<open>
  A refresh republishes the disclosure it finds on record. It does not resolve the input
  again: the new payload is the old one with a new id and date, so an administrator's read
  access that started or ended since then is not shown by the refreshed seal.
\<close>

theorem refresh_keeps_disclosure:
  assumes "seal_interleaved zod s jobs"
    and "seal_refresh zod sign publish sealId newId now s = (Inr e, s')"
  shows "\<exists>old. map_get (sealsById s) sealId = Some old
    \<and> head_payload e = (head_payload old)\<lparr>sp_sealId := newId, sp_issuedAt := now\<rparr>
    \<and> sp_adminAccess (head_payload e) = sp_adminAccess (head_payload old)
    \<and> seal_current (sp_credentialId (head_payload old)) (sp_chatId (head_payload old)) s' = Some e"
proof -
  note wf = interleaved_wf [OF assms(1)]
  obtain key chat chain input where plan: "refresh_plan zod sealId newId now s = Publish key chat chain input"
    using assms(2) by (cases "refresh_plan zod sealId newId now s")
      (auto simp: seal_refresh_def run_plan_def refresh_plan_def Let_def
        split: option.splits if_splits sum.splits)
  obtain old where o: "map_get (sealsById s) sealId = Some old"
    "map_get (inputsBySealId s) sealId = Some input" "key = key_of old"
    "buildSeal zod newId now input (map_option head_payload (Some old)) = Inr chain"
    by (rule refresh_plan_publish [OF plan], rule that) simp_all
  have e: "se_chain e = chain" "s' = record_seal key e input s"
    using assms(2) plan
    by (auto simp: seal_refresh_def run_plan_def Let_def split: sum.splits)
  have cur: "sc_current chain = raw_payload newId now input"
    using o(4) by (auto simp: buildSeal_def Let_def split: if_splits)
  obtain input' where "map_get (inputsBySealId s) sealId = Some input'"
    "built_seal zod (sealsById s) old input'" using seals_wf_byId(2) [OF wf o(1)] by blast
  with o(2) have "built_seal zod (sealsById s) old input" by simp
  then have "head_payload old = raw_payload (seal_id old) (sp_issuedAt (head_payload old)) input"
    unfolding built_seal_def by blast
  then obtain i t where old: "head_payload old = raw_payload i t input" by blast
  have p: "head_payload e = (head_payload old)\<lparr>sp_sealId := newId, sp_issuedAt := now\<rparr>"
    unfolding e(1) cur old by (simp add: raw_payload_def)
  have a: "sp_adminAccess (head_payload e) = sp_adminAccess (head_payload old)"
    unfolding p by simp
  have "seal_current (sp_credentialId (head_payload old)) (sp_chatId (head_payload old)) s' = Some e"
    by (simp add: seal_current_def e(2) o(3))
  with o(1) p a show ?thesis by blast
qed

theorem refresh_keeps_disclosure_witness:
  "\<exists>e s'. seal_refresh demo_zod demo_sign demo_publish (demo_seal_id (CHR ''1''))
       (demo_seal_id (CHR ''2'')) 2000 seal_store_1 = (Inr e, s')
     \<and> sp_adminAccess (head_payload e) = None \<and> sp_issuedAt (head_payload e) = 2000"
proof -
  let ?p = "seal_refresh demo_zod demo_sign demo_publish (demo_seal_id (CHR ''1''))
       (demo_seal_id (CHR ''2'')) 2000 seal_store_1"
  have "case fst ?p of Inl _ \<Rightarrow> False | Inr e \<Rightarrow> True" by code_simp
  then obtain e where p: "?p = (Inr e, snd ?p)" by (cases ?p) (auto split: sum.splits)
  have adm: "map_option (\<lambda>e. sp_adminAccess (head_payload e))
      (map_get (sealsById seal_store_1) (demo_seal_id (CHR ''1''))) = Some None" by code_simp
  from refresh_keeps_disclosure [OF runs_interleaved [OF demo_seal_reachable(1) si_init] p] obtain old where
    old: "map_get (sealsById seal_store_1) (demo_seal_id (CHR ''1'')) = Some old"
      "head_payload e = (head_payload old)\<lparr>sp_sealId := demo_seal_id (CHR ''2''), sp_issuedAt := 2000\<rparr>"
    by blast
  with adm have "sp_adminAccess (head_payload e) = None \<and> sp_issuedAt (head_payload e) = 2000" by simp
  with p show ?thesis by blast
qed

text \<open>
  What the production resolver discloses can always be sealed as far as provenance goes:
  the input it returns is for the credential and chat asked for, the chat is one of the
  credential's, every claim marked in its provenance map is disclosed by the same input, every
  disclosed claim is marked as declared and the trust tier as verified.
\<close>

theorem resolved_input_is_backed:
  assumes "resolveSealInput credentials operators tier access c h = Inr input"
  shows "si_credentialId input = c \<and> si_chatId input = h
    \<and> (\<exists>cred oper. credentials c = Inr cred \<and> operators (rc_operatorId cred) = Inr oper
         \<and> h \<in> set (rc_chatIds cred) \<and> si_operatorDisclosures input = ro_operatorDisclosures oper)
    \<and> provenance_backed (raw_payload i t input)
    \<and> pred_option (provenance_map_ok is_datetime) (si_provenanceMap input)
    \<and> (\<exists>m. si_provenanceMap input = Some m
         \<and> map_option pv_source (map_get m ''trustTier'') = Some PvVerified
         \<and> (\<forall>key \<in> set OPERATOR_DISCLOSURE_PROVENANCE_KEYS.
              map_option pv_source (map_get m key) =
                (if (case si_operatorDisclosures input of None \<Rightarrow> False | Some d \<Rightarrow> discloses d key)
                 then Some PvDeclared else None)))"
proof -
  obtain cred where cred: "credentials c = Inr cred"
    using assms by (cases "credentials c") (simp_all add: resolveSealInput_def)
  obtain oper where oper: "operators (rc_operatorId cred) = Inr oper"
    using assms cred by (cases "operators (rc_operatorId cred)") (simp_all add: resolveSealInput_def)
  have scope: "checkChatInScope h (rc_chatIds cred) = Inr ()"
    using assms cred oper by (cases "checkChatInScope h (rc_chatIds cred)")
      (simp_all add: resolveSealInput_def)
  let ?d = "ro_operatorDisclosures oper"
  let ?says = "\<lambda>key. case ?d of None \<Rightarrow> False | Some d \<Rightarrow> discloses d key"
  have input: "si_credentialId input = c" "si_chatId input = h" "si_operatorDisclosures input = ?d"
    "si_provenanceMap input = Some (buildSealProvenanceMap ?d)" "si_trustTier input = Some tier"
    using assms cred oper scope by (auto simp: resolveSealInput_def)
  have keys: "map_get (buildSealProvenanceMap ?d) key =
      (if key = ''trustTier'' then Some \<lparr>pv_source = PvVerified, pv_attestedBy = None,
         pv_attestedAt = None, pv_expiresAt = None\<rparr>
       else if key \<in> set OPERATOR_DISCLOSURE_PROVENANCE_KEYS \<and> ?says key
       then Some \<lparr>pv_source = PvDeclared, pv_attestedBy = None, pv_attestedAt = None,
         pv_expiresAt = None\<rparr> else None)" for key
    by (auto simp: buildSealProvenanceMap_def Let_def map_get_def map_of_map_restrict
        restrict_map_def comp_def)
  have "''trustTier'' \<notin> set OPERATOR_DISCLOSURE_PROVENANCE_KEYS"
    by (simp add: OPERATOR_DISCLOSURE_PROVENANCE_KEYS_def)
  note tt = this
  then have "\<forall>key \<in> set OPERATOR_DISCLOSURE_PROVENANCE_KEYS.
      map_option pv_source (map_get (buildSealProvenanceMap ?d) key) =
        (if ?says key then Some PvDeclared else None)"
    by (auto simp: keys)
  moreover have "provenance_backed (raw_payload i t input)"
    using tt
    by (auto simp: provenance_backed_def raw_payload_def input keys list_all_iff split: option.split)
  moreover have "provenance_map_ok is_datetime (buildSealProvenanceMap ?d)"
    by (auto simp: provenance_map_ok_def buildSealProvenanceMap_def Let_def list_all_iff
        provenance_record_ok_def SUPPORTED_PROVENANCE_KEYS_def)
  moreover have "h \<in> set (rc_chatIds cred)"
    using scope by (simp add: checkChatInScope_def split: if_splits)
  ultimately show ?thesis using input cred oper keys [of "''trustTier''"] by simp
qed

theorem resolved_input_is_backed_witness:
  "\<exists>input. resolveSealInput
       (\<lambda>_. Inr \<lparr>rc_operatorId = ''op_1'', rc_chatIds = [''conv_1''], rc_allow = Some [ScSend],
               rc_deny = None\<rparr>)
       (\<lambda>_. Inr \<lparr>ro_scopeMode = PerChat, ro_operatorDisclosures =
          Some \<lparr>od_inferenceMode = Some InfLocal, od_inferenceProviders = None,
                od_contentEgressScope = None, od_retentionAtProvider = None,
                od_hostingMode = None\<rparr>\<rparr>)
       TierUnverified (\<lambda>_. None) ''cred_1'' ''conv_1'' = Inr input
     \<and> si_chatId input = ''conv_1'' \<and> provenance_backed (raw_payload ''seal_1'' 0 input)"
proof -
  let ?r = "resolveSealInput
       (\<lambda>_. Inr \<lparr>rc_operatorId = ''op_1'', rc_chatIds = [''conv_1''], rc_allow = Some [ScSend],
               rc_deny = None\<rparr>)
       (\<lambda>_. Inr \<lparr>ro_scopeMode = PerChat, ro_operatorDisclosures =
          Some \<lparr>od_inferenceMode = Some InfLocal, od_inferenceProviders = None,
                od_contentEgressScope = None, od_retentionAtProvider = None,
                od_hostingMode = None\<rparr>\<rparr>)
       TierUnverified (\<lambda>_. None) ''cred_1'' ''conv_1''"
  have "case ?r of Inl _ \<Rightarrow> False | Inr _ \<Rightarrow> True" by code_simp
  then obtain input where r: "?r = Inr input" by (cases ?r) simp_all
  from resolved_input_is_backed [OF r] r show ?thesis by blast
qed

end
