(* ===== verification/Managers.thy ===== *)
theory Managers
  imports CredentialLifecycle SealChain
begin

text \<open>
  packages/sessions/src/operator-manager.ts and policy-manager.ts: the in-memory registries of
  operators and policies, and the wiring of packages/cli/src/start.ts that revokes an
  operator's credentials before the operator is removed.

  The closures' maps are \<open>operator_store\<close> and \<open>policy_store\<close>; the random id and the reading of
  the clock are arguments. The schemas decide as zod does on values of the declared types: what
  can still fail there is the empty label and the form of an inbox id, and the first issue in
  the order of the keys is reported. Only the wording of zod's own message for the empty label
  is a parameter. Records are kept by value; that \<open>create\<close> stores the caller's object is not
  modelled.
\<close>

section \<open>Operators: data\<close>

datatype operator_role = RoleOperator | RoleAdmin | RoleSuperadmin

datatype wallet_provider = WalletInternal | WalletOws

datatype operator_status = OpActive | OpSuspended | OpRemoved

fun role_name :: "operator_role \<Rightarrow> string" where
  "role_name RoleOperator = ''operator''"
| "role_name RoleAdmin = ''admin''"
| "role_name RoleSuperadmin = ''superadmin''"

record operator_config =
  oc_label :: string
  oc_role :: operator_role
  oc_scopeMode :: scope_mode
  oc_provider :: wallet_provider
  oc_walletId :: "string option"
  oc_inboxIds :: "string list option"
  oc_operatorDisclosures :: "operator_disclosures option"

text \<open>
  \<open>Partial<OperatorConfigType>\<close>: the outer \<open>None\<close> is an absent key. The optional keys may
  also be present with the value \<open>undefined\<close>, which clears them.
\<close>

record operator_changes =
  och_label :: "string option"
  och_role :: "operator_role option"
  och_scopeMode :: "scope_mode option"
  och_provider :: "wallet_provider option"
  och_walletId :: "string option option"
  och_inboxIds :: "string list option option"
  och_operatorDisclosures :: "operator_disclosures option option"

record operator_record =
  op_id :: string
  op_config :: operator_config
  op_createdAt :: int
  op_createdBy :: string
  op_status :: operator_status

type_synonym operator_store = "(string, operator_record) js_map"

section \<open>Operators: operations\<close>

fun first_bad_inbox :: "nat \<Rightarrow> string list \<Rightarrow> nat option" where
  "first_bad_inbox k [] = None"
| "first_bad_inbox k (i # is) =
     (if idSchema RtInbox i then first_bad_inbox (Suc k) is else Some k)"

definition inbox_message :: string where
  "inbox_message = ''Must start with '' @ quoted (RESOURCE_PREFIXES RtInbox) @ '' followed by ''
     @ show_nat RESOURCE_ID_HEX_LENGTH @ '' lowercase hex characters''"

definition validate_operator :: "string \<Rightarrow> operator_config \<Rightarrow> signet_error option" where
  "validate_operator empty_message config =
     (if oc_label config = [] then Some (ValidationError ''label'' empty_message [])
      else (case oc_inboxIds config of
              None \<Rightarrow> None
            | Some inboxIds \<Rightarrow>
                (case first_bad_inbox 0 inboxIds of
                   None \<Rightarrow> None
                 | Some k \<Rightarrow> Some (ValidationError
                     (join_with ''.'' [''inboxIds'', show_nat k]) inbox_message []))))"

definition operator_create ::
  "string \<Rightarrow> operator_config \<Rightarrow> string \<Rightarrow> int \<Rightarrow> operator_store \<Rightarrow>
   operator_record result \<times> operator_store" where
  "operator_create empty_message config freshId now store =
     (case validate_operator empty_message config of
        Some e \<Rightarrow> (Inl e, store)
      | None \<Rightarrow>
          if oc_role config = RoleSuperadmin
          then (Inl (PermissionError
                  ''Cannot create operator with superadmin role without owner authorization''
                  (Some [(''role'', CtxStr (role_name (oc_role config)))])), store)
          else
            let r = \<lparr>op_id = freshId, op_config = config, op_createdAt = now,
                     op_createdBy = ''owner'', op_status = OpActive\<rparr>
            in (Inr r, map_set freshId r store))"

definition operator_list :: "operator_store \<Rightarrow> operator_record list" where
  "operator_list store = filter (\<lambda>r. op_status r \<noteq> OpRemoved) (map_values store)"

definition operator_lookup :: "string \<Rightarrow> operator_store \<Rightarrow> operator_record result" where
  "operator_lookup operatorId store =
     (case map_get store operatorId of
        None \<Rightarrow> Inl (NotFoundError ''operator'' operatorId)
      | Some r \<Rightarrow> Inr r)"

definition merge_operator :: "operator_changes \<Rightarrow> operator_config \<Rightarrow> operator_config" where
  "merge_operator ch c =
     \<lparr>oc_label = or_else (och_label ch) (oc_label c),
      oc_role = or_else (och_role ch) (oc_role c),
      oc_scopeMode = or_else (och_scopeMode ch) (oc_scopeMode c),
      oc_provider = or_else (och_provider ch) (oc_provider c),
      oc_walletId = or_else (och_walletId ch) (oc_walletId c),
      oc_inboxIds = or_else (och_inboxIds ch) (oc_inboxIds c),
      oc_operatorDisclosures = or_else (och_operatorDisclosures ch) (oc_operatorDisclosures c)\<rparr>"

definition operator_update ::
  "string \<Rightarrow> string \<Rightarrow> operator_changes \<Rightarrow> operator_store \<Rightarrow>
   operator_record result \<times> operator_store" where
  "operator_update empty_message operatorId changes store =
     (case map_get store operatorId of
        None \<Rightarrow> (Inl (NotFoundError ''operator'' operatorId), store)
      | Some existing \<Rightarrow>
          if och_role changes = Some RoleSuperadmin
          then (Inl (PermissionError ''Cannot escalate operator role to superadmin''
                  (Some [(''operatorId'', CtxStr operatorId),
                         (''requestedRole'', CtxStr ''superadmin'')])), store)
          else
            let merged = merge_operator changes (op_config existing) in
            (case validate_operator empty_message merged of
               Some e \<Rightarrow> (Inl e, store)
             | None \<Rightarrow>
                 let updated = existing\<lparr>op_config := merged\<rparr>
                 in (Inr updated, map_set operatorId updated store)))"

text \<open>
  The hook acts on a world \<open>'w\<close> outside the registry and is awaited; \<open>during\<close> is what other
  calls do to the registry before the removal goes on. The removal writes back the record it
  read before.
\<close>

definition operator_remove ::
  "(string \<Rightarrow> revocation_reason \<Rightarrow> 'w \<Rightarrow> unit result \<times> 'w) option \<Rightarrow>
   (operator_store \<Rightarrow> operator_store) \<Rightarrow> string \<Rightarrow> operator_store \<Rightarrow> 'w \<Rightarrow>
   unit result \<times> operator_store \<times> 'w" where
  "operator_remove revokeCredentials during operatorId store w =
     (case map_get store operatorId of
        None \<Rightarrow> (Inl (NotFoundError ''operator'' operatorId), store, w)
      | Some existing \<Rightarrow>
          let removed = existing\<lparr>op_status := OpRemoved\<rparr> in
          (case revokeCredentials of
             None \<Rightarrow> (Inr (), map_set operatorId removed store, w)
           | Some hook \<Rightarrow>
               (case hook operatorId OwnerInitiated w of
                  (Inl e, w') \<Rightarrow> (Inl e, during store, w')
                | (Inr _, w') \<Rightarrow> (Inr (), map_set operatorId removed (during store), w'))))"

text \<open>The hook that the daemon installs (packages/cli/src/start.ts).\<close>

definition production_revoke ::
  "(string \<Rightarrow> int) \<Rightarrow> string \<Rightarrow> revocation_reason \<Rightarrow> cred_store option \<Rightarrow>
   unit result \<times> cred_store option" where
  "production_revoke clock operatorId reason mgr =
     (case mgr of
        None \<Rightarrow> (Inr (), None)
      | Some s \<Rightarrow> (Inr (), Some (snd (revokeAllCredentials clock operatorId reason s))))"

section \<open>Policies: operations\<close>

record policy_changes =
  pch_label :: "string option"
  pch_allow :: "permission_scope list option"
  pch_deny :: "permission_scope list option"

type_synonym policy_store = "(string, policy_record) js_map"

definition validate_policy :: "string \<Rightarrow> policy_config \<Rightarrow> signet_error option" where
  "validate_policy empty_message config =
     (if pc_label config = [] then Some (ValidationError ''label'' empty_message []) else None)"

definition policy_create ::
  "string \<Rightarrow> policy_config \<Rightarrow> string \<Rightarrow> int \<Rightarrow> policy_store \<Rightarrow>
   policy_record result \<times> policy_store" where
  "policy_create empty_message config freshId now store =
     (case validate_policy empty_message config of
        Some e \<Rightarrow> (Inl e, store)
      | None \<Rightarrow>
          let r = \<lparr>pol_id = freshId, pol_config = config, pol_createdAt = now, pol_updatedAt = now\<rparr>
          in (Inr r, map_set freshId r store))"

definition policy_list :: "policy_store \<Rightarrow> policy_record list" where
  "policy_list store = map_values store"

definition policy_lookup :: "string \<Rightarrow> policy_store \<Rightarrow> policy_record result" where
  "policy_lookup policyId store =
     (case map_get store policyId of
        None \<Rightarrow> Inl (NotFoundError ''policy'' policyId)
      | Some r \<Rightarrow> Inr r)"

definition merge_policy :: "policy_changes \<Rightarrow> policy_config \<Rightarrow> policy_config" where
  "merge_policy ch c =
     \<lparr>pc_label = or_else (pch_label ch) (pc_label c),
      pc_allow = or_else (pch_allow ch) (pc_allow c),
      pc_deny = or_else (pch_deny ch) (pc_deny c)\<rparr>"

definition policy_update ::
  "string \<Rightarrow> string \<Rightarrow> policy_changes \<Rightarrow> int \<Rightarrow> policy_store \<Rightarrow>
   policy_record result \<times> policy_store" where
  "policy_update empty_message policyId changes now store =
     (case map_get store policyId of
        None \<Rightarrow> (Inl (NotFoundError ''policy'' policyId), store)
      | Some existing \<Rightarrow>
          let merged = merge_policy changes (pol_config existing) in
          (case validate_policy empty_message merged of
             Some e \<Rightarrow> (Inl e, store)
           | None \<Rightarrow>
               let updated = existing\<lparr>pol_config := merged, pol_updatedAt := now\<rparr>
               in (Inr updated, map_set policyId updated store)))"

definition policy_remove :: "string \<Rightarrow> policy_store \<Rightarrow> unit result \<times> policy_store" where
  "policy_remove policyId store =
     (case map_get store policyId of
        None \<Rightarrow> (Inl (NotFoundError ''policy'' policyId), store)
      | Some _ \<Rightarrow> (Inr (), map_delete policyId store))"


section \<open>The actions of the command line\<close>

text \<open>
  packages/sessions/src/operator-actions.ts and policy-actions.ts name an entry by its id or by
  its label; a label must be unique among the listed entries.
\<close>

definition resolve_label ::
  "string \<Rightarrow> string \<Rightarrow> string \<Rightarrow> (string \<times> string) list \<Rightarrow> string result" where
  "resolve_label what field wanted entries =
     (case filter (\<lambda>(i, label). label = wanted) entries of
        [] \<Rightarrow> Inl (NotFoundError what wanted)
      | [(i, _)] \<Rightarrow> Inr i
      | many \<Rightarrow> Inl (ValidationError field (''Ambiguous '' @ what @ '' label'')
                  [(''label'', CtxStr wanted), (''matchingIds'', CtxStrs (map fst many))]))"

definition resolveOperatorId :: "operator_store \<Rightarrow> string \<Rightarrow> string result" where
  "resolveOperatorId store idOrLabel =
     (if starts_with ''op_'' idOrLabel
      then (if idSchema RtOperator idOrLabel then Inr idOrLabel
            else Inl (ValidationError ''operatorId''
                        (''Invalid operator ID format: '' @ idOrLabel) []))
      else resolve_label ''operator'' ''operatorId'' idOrLabel
             (map (\<lambda>r. (op_id r, oc_label (op_config r))) (operator_list store)))"

definition resolvePolicyId :: "policy_store \<Rightarrow> string \<Rightarrow> string result" where
  "resolvePolicyId store idOrLabel =
     (if starts_with ''policy_'' idOrLabel
      then (if idSchema RtPolicy idOrLabel then Inr idOrLabel
            else Inl (ValidationError ''policyId''
                        (''Invalid policy ID format: '' @ idOrLabel) []))
      else resolve_label ''policy'' ''policyId'' idOrLabel
             (map (\<lambda>r. (pol_id r, pc_label (pol_config r))) (policy_list store)))"

definition operator_info_action :: "string \<Rightarrow> operator_store \<Rightarrow> operator_record result" where
  "operator_info_action idOrLabel store =
     (case resolveOperatorId store idOrLabel of
        Inl e \<Rightarrow> Inl e | Inr i \<Rightarrow> operator_lookup i store)"

definition operator_update_action ::
  "string \<Rightarrow> string \<Rightarrow> operator_changes \<Rightarrow> operator_store \<Rightarrow>
   operator_record result \<times> operator_store" where
  "operator_update_action empty_message idOrLabel changes store =
     (case resolveOperatorId store idOrLabel of
        Inl e \<Rightarrow> (Inl e, store) | Inr i \<Rightarrow> operator_update empty_message i changes store)"

definition operator_remove_action ::
  "(string \<Rightarrow> revocation_reason \<Rightarrow> 'w \<Rightarrow> unit result \<times> 'w) option \<Rightarrow>
   (operator_store \<Rightarrow> operator_store) \<Rightarrow> string \<Rightarrow> operator_store \<Rightarrow> 'w \<Rightarrow>
   unit result \<times> operator_store \<times> 'w" where
  "operator_remove_action hook during idOrLabel store w =
     (case resolveOperatorId store idOrLabel of
        Inl e \<Rightarrow> (Inl e, store, w) | Inr i \<Rightarrow> operator_remove hook during i store w)"

definition policy_info_action :: "string \<Rightarrow> policy_store \<Rightarrow> policy_record result" where
  "policy_info_action idOrLabel store =
     (case resolvePolicyId store idOrLabel of
        Inl e \<Rightarrow> Inl e | Inr i \<Rightarrow> policy_lookup i store)"

definition policy_update_action ::
  "string \<Rightarrow> string \<Rightarrow> policy_changes \<Rightarrow> int \<Rightarrow> policy_store \<Rightarrow>
   policy_record result \<times> policy_store" where
  "policy_update_action empty_message idOrLabel changes now store =
     (case resolvePolicyId store idOrLabel of
        Inl e \<Rightarrow> (Inl e, store) | Inr i \<Rightarrow> policy_update empty_message i changes now store)"

definition policy_remove_action :: "string \<Rightarrow> policy_store \<Rightarrow> unit result \<times> policy_store" where
  "policy_remove_action idOrLabel store =
     (case resolvePolicyId store idOrLabel of
        Inl e \<Rightarrow> (Inl e, store) | Inr i \<Rightarrow> policy_remove i store)"

lemma resolve_label_iff:
  "resolve_label what field wanted entries = Inr i \<longleftrightarrow>
     filter (\<lambda>(i, label). label = wanted) entries = [(i, wanted)]"
proof -
  define m where "m = filter (\<lambda>(i, label). label = wanted) entries"
  have all: "snd p = wanted" if "p \<in> set m" for p using that by (auto simp: m_def)
  have "resolve_label what field wanted entries = Inr i \<longleftrightarrow> m = [(i, wanted)]"
  proof (cases m)
    case Nil
    then show ?thesis by (simp add: resolve_label_def m_def [symmetric])
  next
    case (Cons p rest)
    then have "p = (fst p, wanted)" using all [of p] by (cases p) simp
    with Cons show ?thesis
      by (cases p; cases rest) (auto simp: resolve_label_def m_def [symmetric])
  qed
  then show ?thesis by (simp only: m_def)
qed

section \<open>Revoking all credentials of an operator\<close>

lemma collect_active_distinct:
  assumes "store_wf env s" and "distinct ids"
    and "\<And>i. i \<in> set ids \<Longrightarrow> map_get (byId s) i \<noteq> None"
  shows "distinct (map cr_credentialId (collect_active (byId s) ids))"
  using assms(2,3)
proof (induction ids)
  case (Cons i ids)
  obtain r where r: "map_get (byId s) i = Some r" using Cons.prems(2) [of i] by auto
  have "cr_credentialId c \<in> set ids" if "c \<in> set (collect_active (byId s) ids)" for c
    using that store_wfD(2) [OF assms(1)] by (auto simp: collect_active_set)
  then have "cr_credentialId r \<notin> cr_credentialId ` set (collect_active (byId s) ids)"
    using Cons.prems(1) store_wfD(2) [OF assms(1) r] by auto
  with Cons r show ?case by simp
qed simp

lemma active_distinct:
  assumes "store_wf env s"
  shows "distinct (map cr_credentialId (getActiveForOperator op s))"
proof (cases "map_get (byOperator s) op")
  case (Some ids)
  with store_wf_operatorD [OF assms Some] have "distinct (map cr_credentialId (collect_active (byId s) ids))"
    by (intro collect_active_distinct [OF assms]) auto
  with Some show ?thesis by (simp add: getActiveForOperator_def)
qed (simp add: getActiveForOperator_def)

lemma revoke_each_eq:
  assumes "distinct (map cr_credentialId cs)"
    and "\<And>c. c \<in> set cs \<Longrightarrow> map_get (byId s) (cr_credentialId c) = Some c"
  shows "revoke_each clock reason cs s
      = (map (\<lambda>c. revoke_rec (clock (cr_credentialId c)) reason c) cs,
         snd (revoke_each clock reason cs s))
    \<and> (\<forall>i. map_get (byId (snd (revoke_each clock reason cs s))) i =
        (if i \<in> cr_credentialId ` set cs
         then map_option (revoke_rec (clock i) reason) (map_get (byId s) i)
         else map_get (byId s) i))
    \<and> revokedCalls (snd (revoke_each clock reason cs s)) = revokedCalls s
        @ map (\<lambda>c. revoke_rec (clock (cr_credentialId c)) reason c) cs"
  using assms
proof (induction cs arbitrary: s)
  case (Cons c cs)
  let ?i = "cr_credentialId c"
  have c: "map_get (byId s) ?i = Some c" using Cons.prems(2) by simp
  note rv = revokeRecord_present [OF c, of "clock ?i" reason]
  let ?s1 = "snd (revokeRecord (clock ?i) ?i reason s)"
  have get1: "map_get (byId ?s1) = (map_get (byId s))(?i \<mapsto> revoke_rec (clock ?i) reason c)"
    by (simp add: rv)
  have calls1: "revokedCalls ?s1 = revokedCalls s @ [revoke_rec (clock ?i) reason c]"
    by (simp add: rv)
  have step: "revoke_each clock reason (c # cs) s =
      (revoke_rec (clock ?i) reason c # fst (revoke_each clock reason cs ?s1),
       snd (revoke_each clock reason cs ?s1))"
    by (simp add: rv split: prod.split)
  have "map_get (byId ?s1) (cr_credentialId d) = Some d" if "d \<in> set cs" for d
  proof -
    have "cr_credentialId d \<in> cr_credentialId ` set cs" using that by (rule imageI)
    with Cons.prems(1) have "cr_credentialId d \<noteq> ?i" by auto
    with Cons.prems(2) that show ?thesis by (simp add: get1)
  qed
  with Cons.IH [of ?s1] Cons.prems(1)
  have IH: "fst (revoke_each clock reason cs ?s1)
        = map (\<lambda>c. revoke_rec (clock (cr_credentialId c)) reason c) cs"
    and got: "\<And>j. map_get (byId (snd (revoke_each clock reason cs ?s1))) j =
        (if j \<in> cr_credentialId ` set cs
         then map_option (revoke_rec (clock j) reason) (map_get (byId ?s1) j)
         else map_get (byId ?s1) j)"
    and calls: "revokedCalls (snd (revoke_each clock reason cs ?s1)) = revokedCalls ?s1
        @ map (\<lambda>c. revoke_rec (clock (cr_credentialId c)) reason c) cs"
    by (simp_all add: prod_eq_iff)
  show ?case
    using Cons.prems(1) c by (auto simp: step IH got get1 calls calls1 simp del: revoke_each.simps(2))
qed simp

text \<open>Exactly the operator's active credentials are revoked; nothing else changes status.\<close>

lemma revokeAll_eq:
  assumes "store_wf env s"
  shows "map_get (byId (snd (revokeAllCredentials clock op reason s))) i =
      map_option (\<lambda>r. if cr_operatorId r = op \<and> cr_status r = StActive
                      then revoke_rec (clock i) reason r else r) (map_get (byId s) i)"
proof -
  let ?cs = "getActiveForOperator op s"
  have mem: "c \<in> set ?cs \<longleftrightarrow> map_get (byId s) (cr_credentialId c) = Some c
      \<and> cr_operatorId c = op \<and> cr_status c = StActive" for c
    by (rule active_of_operator [OF assms])
  have "i \<in> cr_credentialId ` set ?cs \<longleftrightarrow>
      (\<exists>r. map_get (byId s) i = Some r \<and> cr_operatorId r = op \<and> cr_status r = StActive)"
    using mem store_wfD(2) [OF assms] by force
  moreover have "\<forall>i. map_get (byId (snd (revokeAllCredentials clock op reason s))) i =
        (if i \<in> cr_credentialId ` set ?cs
         then map_option (revoke_rec (clock i) reason) (map_get (byId s) i)
         else map_get (byId s) i)"
    using revoke_each_eq [OF active_distinct [OF assms, of op], of s clock reason] mem
    by (simp add: revokeAllCredentials_def)
  ultimately show ?thesis by (cases "map_get (byId s) i") auto
qed

section \<open>Reachable registries\<close>

text \<open>
  Calls run whole, except that others may run while a removal awaits its hook: \<open>during\<close> is
  then a sequence of calls itself.
\<close>

inductive registry_steps :: "string \<Rightarrow> operator_store \<Rightarrow> operator_store \<Rightarrow> bool" for em where
  rg_refl: "registry_steps em s s"
| rg_create: "registry_steps em s s' \<Longrightarrow> map_get s' i = None \<Longrightarrow>
    registry_steps em s (snd (operator_create em config i now s'))"
| rg_update: "registry_steps em s s' \<Longrightarrow> registry_steps em s (snd (operator_update em i changes s'))"
| rg_remove: "registry_steps em s s' \<Longrightarrow> registry_steps em s' (during s') \<Longrightarrow>
    registry_steps em s (fst (snd (operator_remove hook during i s' (w :: cred_store option))))"

definition operator_ok :: "string \<Rightarrow> string \<Rightarrow> operator_record \<Rightarrow> bool" where
  "operator_ok em i r \<longleftrightarrow>
     op_id r = i \<and> op_createdBy r = ''owner'' \<and> op_status r \<noteq> OpSuspended
     \<and> oc_role (op_config r) \<noteq> RoleSuperadmin \<and> validate_operator em (op_config r) = None"

definition registry_ok :: "string \<Rightarrow> operator_store \<Rightarrow> bool" where
  "registry_ok em s \<longleftrightarrow> map_wf s \<and> (\<forall>i r. map_get s i = Some r \<longrightarrow> operator_ok em i r)"

lemma registry_okD: "registry_ok em s \<Longrightarrow> map_get s i = Some r \<Longrightarrow> operator_ok em i r"
  by (simp add: registry_ok_def)

lemma registry_ok_put: "registry_ok em s \<Longrightarrow> operator_ok em i r \<Longrightarrow> registry_ok em (map_set i r s)"
  by (simp add: registry_ok_def)

lemma create_cases:
  obtains (refused) "snd (operator_create em config i now s) = s"
  | (created) r where "operator_create em config i now s = (Inr r, map_set i r s)"
    "operator_ok em i r" "op_status r = OpActive" "op_config r = config"
proof (cases "validate_operator em config = None \<and> oc_role config \<noteq> RoleSuperadmin")
  case True
  then show ?thesis
    by (intro created [of "\<lparr>op_id = i, op_config = config, op_createdAt = now,
          op_createdBy = ''owner'', op_status = OpActive\<rparr>"])
      (simp_all add: operator_create_def Let_def operator_ok_def)
next
  case False
  then show ?thesis
    by (intro refused) (auto simp: operator_create_def split: option.split)
qed

lemma update_cases:
  obtains (refused) "snd (operator_update em i changes s) = s"
  | (updated) r where "map_get s i = Some r" "och_role changes \<noteq> Some RoleSuperadmin"
    "validate_operator em (merge_operator changes (op_config r)) = None"
    "operator_update em i changes s =
      (Inr (r\<lparr>op_config := merge_operator changes (op_config r)\<rparr>),
       map_set i (r\<lparr>op_config := merge_operator changes (op_config r)\<rparr>) s)"
proof (cases "map_get s i")
  case None
  then show ?thesis by (intro refused) (simp add: operator_update_def)
next
  case (Some r)
  show ?thesis
  proof (cases "och_role changes \<noteq> Some RoleSuperadmin
      \<and> validate_operator em (merge_operator changes (op_config r)) = None")
    case True
    with Some show ?thesis by (intro updated [of r]) (simp_all add: operator_update_def Let_def)
  next
    case False
    with Some show ?thesis
      by (intro refused) (auto simp: operator_update_def Let_def split: option.split)
  qed
qed

lemma update_ok:
  assumes "operator_ok em i r" and "och_role changes \<noteq> Some RoleSuperadmin"
    and "validate_operator em (merge_operator changes (op_config r)) = None"
  shows "operator_ok em i (r\<lparr>op_config := merge_operator changes (op_config r)\<rparr>)"
  using assms by (cases "och_role changes") (auto simp: operator_ok_def merge_operator_def)

lemma remove_cases:
  obtains (refused) "fst (snd (operator_remove hook during i s w)) = s"
  | (aborted) "fst (snd (operator_remove hook during i s w)) = during s"
  | (removed) r t where "map_get s i = Some r" "t = s \<or> t = during s"
    "fst (snd (operator_remove hook during i s w)) = map_set i (r\<lparr>op_status := OpRemoved\<rparr>) t"
proof (cases "map_get s i")
  case None
  then show ?thesis by (intro refused) (simp add: operator_remove_def)
next
  case (Some r)
  show ?thesis
  proof (cases hook)
    case None
    with Some show ?thesis by (intro removed [of r s]) (simp_all add: operator_remove_def Let_def)
  next
    case h: (Some h)
    obtain q w' where q: "h i OwnerInitiated w = (q, w')" by fastforce
    show ?thesis
    proof (cases q)
      case (Inl e)
      with Some h q show ?thesis by (intro aborted) (simp add: operator_remove_def Let_def)
    next
      case (Inr u)
      with Some h q show ?thesis
        by (intro removed [of r "during s"]) (simp_all add: operator_remove_def Let_def)
    qed
  qed
qed

lemma registry_steps_ok:
  "registry_steps em s s' \<Longrightarrow> registry_ok em s \<Longrightarrow> registry_ok em s'"
proof (induction rule: registry_steps.induct)
  case (rg_create s s' i config now)
  then show ?case
    by (cases rule: create_cases [of em config i now s']) (auto intro: registry_ok_put)
next
  case (rg_update s s' i changes)
  then have ok: "registry_ok em s'" by simp
  show ?case
  proof (cases rule: update_cases [of em i changes s'])
    case (updated r)
    with registry_ok_put [OF ok update_ok [OF registry_okD [OF ok updated(1)] updated(2,3)]]
    show ?thesis by simp
  qed (use ok in simp)
next
  case (rg_remove s s' during hook i w)
  then have ok: "registry_ok em s'" "registry_ok em (during s')" by simp_all
  show ?case
  proof (cases rule: remove_cases [of hook during i s' w])
    case (removed r t)
    from registry_okD [OF ok(1) removed(1)] have "operator_ok em i (r\<lparr>op_status := OpRemoved\<rparr>)"
      by (simp add: operator_ok_def)
    with removed ok show ?thesis by (auto intro: registry_ok_put)
  qed (use ok in simp_all)
qed

text \<open>Once removed, a record stays removed.\<close>

definition removed_at :: "string \<Rightarrow> operator_store \<Rightarrow> bool" where
  "removed_at i s \<longleftrightarrow> (\<exists>r. map_get s i = Some r \<and> op_status r = OpRemoved)"

lemma removed_at_put:
  "removed_at i s \<Longrightarrow> (j = i \<Longrightarrow> op_status r = OpRemoved) \<Longrightarrow> removed_at i (map_set j r s)"
  by (auto simp: removed_at_def)

lemma removed_stays: "registry_steps em s s' \<Longrightarrow> removed_at i s \<Longrightarrow> removed_at i s'"
proof (induction rule: registry_steps.induct)
  case (rg_create s s' j config now)
  then show ?case
    by (cases rule: create_cases [of em config j now s'])
      (auto simp: removed_at_def)
next
  case (rg_update s s' j changes)
  then have i: "removed_at i s'" by simp
  show ?case
  proof (cases rule: update_cases [of em j changes s'])
    case (updated r)
    with i show ?thesis by (auto intro!: removed_at_put simp: removed_at_def)
  qed (use i in simp)
next
  case (rg_remove s s' during hook j w)
  then have i: "removed_at i s'" "removed_at i (during s')" by simp_all
  show ?case
  proof (cases rule: remove_cases [of hook during j s' w])
    case (removed r t)
    with i show ?thesis by (auto intro: removed_at_put)
  qed (use i in simp_all)
qed

lemma removed_not_listed:
  assumes "registry_ok em s" and "removed_at i s"
  shows "\<forall>r \<in> set (operator_list s). op_id r \<noteq> i"
proof
  fix r assume "r \<in> set (operator_list s)"
  then have r: "r \<in> set (map_values s)" "op_status r \<noteq> OpRemoved" by (simp_all add: operator_list_def)
  from assms(1) r(1) obtain j where j: "map_get s j = Some r"
    by (auto simp: registry_ok_def jsm.vals_iff)
  with registry_okD [OF assms(1) j] have "j = op_id r" by (simp add: operator_ok_def)
  with assms(2) r(2) j show "op_id r \<noteq> i" by (auto simp: removed_at_def)
qed

section \<open>Properties\<close>

text \<open>
  No operator becomes a superadmin: whatever calls run, and also while removals wait, every
  registered operator was created by the owner under its own id, has a valid configuration and
  a role below superadmin; creating or promoting one is refused with a permission error that
  leaves the registry alone; the list shows exactly the operators that are not removed.
\<close>

theorem no_superadmin_without_owner:
  assumes "registry_steps em [] s" and "map_get s i = Some r"
  shows "op_id r = i \<and> op_createdBy r = ''owner'' \<and> oc_role (op_config r) \<noteq> RoleSuperadmin
    \<and> validate_operator em (op_config r) = None
    \<and> (r \<in> set (operator_list s) \<longleftrightarrow> op_status r = OpActive)
    \<and> (let (res, s') = operator_update em i (changes\<lparr>och_role := Some RoleSuperadmin\<rparr>) s in
         s' = s \<and> (\<exists>m c. res = Inl (PermissionError m c)))
    \<and> snd (operator_create em (config\<lparr>oc_role := RoleSuperadmin\<rparr>) j now s) = s"
proof -
  have ok: "registry_ok em s"
    by (rule registry_steps_ok [OF assms(1)]) (simp add: registry_ok_def)
  then have wf: "map_wf s" by (simp add: registry_ok_def)
  from registry_okD [OF ok assms(2)] have r: "operator_ok em i r" .
  have "op_status r \<noteq> OpRemoved \<longleftrightarrow> op_status r = OpActive"
    using r by (cases "op_status r") (auto simp: operator_ok_def)
  with r wf assms(2) show ?thesis
    by (auto simp: operator_ok_def operator_list_def jsm.vals_iff operator_update_def
        operator_create_def split: option.split)
qed

text \<open>
  Removing an operator is final and takes its credentials with it: the removal succeeds,
  every active credential of the operator is revoked as owner-initiated and no other changes,
  and however the registry is used while the removal waits and afterwards, the operator is
  never listed again and its record stays removed.
\<close>

theorem operator_removal_is_final:
  assumes "cm_reachable env cs" and "registry_steps em [] store" and "map_get store i = Some r"
    and "registry_steps em store (during store)"
    and rm: "operator_remove (Some (production_revoke clock)) during i store (Some cs)
          = (res, store', Some cs')"
    and later: "registry_steps em store' store''"
  shows "res = Inr () \<and> getActiveForOperator i cs' = []
    \<and> map_get (byId cs') j = map_option (\<lambda>c.
          if cr_operatorId c = i \<and> cr_status c = StActive then revoke_rec (clock j) OwnerInitiated c
          else c) (map_get (byId cs) j)
    \<and> (\<forall>r' \<in> set (operator_list store''). op_id r' \<noteq> i)
    \<and> (\<exists>r'. operator_lookup i store'' = Inr r' \<and> op_status r' = OpRemoved)"
proof -
  from assms(3) rm have eqs: "res = Inr ()"
    "store' = map_set i (r\<lparr>op_status := OpRemoved\<rparr>) (during store)"
    "cs' = snd (revokeAllCredentials clock i OwnerInitiated cs)"
    by (auto simp: operator_remove_def production_revoke_def Let_def)
  have wf: "store_wf env cs" by (rule reachable_wf [OF assms(1)])
  have "evolves (same_identity env) cs cs'" unfolding eqs by (rule ident.revoke_all)
  with wf have wf': "store_wf env cs'" by (rule store_wf_evolves)
  have got: "map_get (byId cs') j = map_option (\<lambda>c.
          if cr_operatorId c = i \<and> cr_status c = StActive then revoke_rec (clock j) OwnerInitiated c
          else c) (map_get (byId cs) j)" for j
    unfolding eqs by (rule revokeAll_eq [OF wf])
  have "c \<notin> set (getActiveForOperator i cs')" for c
  proof
    assume "c \<in> set (getActiveForOperator i cs')"
    then obtain z where "cr_operatorId c = i" "cr_status c = StActive"
      and "(if cr_operatorId z = i \<and> cr_status z = StActive
            then revoke_rec (clock (cr_credentialId c)) OwnerInitiated z else z) = c"
      unfolding active_of_operator [OF wf'] got map_option_eq_Some by blast
    moreover have "cr_status (revoke_rec t q z) = StRevoked" for t q by (simp add: revoke_rec_def)
    ultimately show False by (metis credential_status.distinct(9))
  qed
  then have none: "getActiveForOperator i cs' = []" by (metis list.set_intros(1) neq_Nil_conv)
  have steps: "registry_steps em store store'"
    using rg_remove [where during = during and hook = "Some (production_revoke clock)"
        and w = "Some cs" and i = i, OF rg_refl assms(4)] rm by simp
  have "registry_ok em []" by (simp add: registry_ok_def)
  with assms(2) steps later have ok: "registry_ok em store''" by (blast intro: registry_steps_ok)
  have gone: "removed_at i store''"
    by (rule removed_stays [OF later]) (simp add: eqs removed_at_def)
  then have "\<exists>r'. operator_lookup i store'' = Inr r' \<and> op_status r' = OpRemoved"
    by (auto simp: removed_at_def operator_lookup_def)
  with eqs(1) none got removed_not_listed [OF ok gone] show ?thesis by blast
qed

text \<open>Witnesses: an administrator with credentials, updated while the removal waits.\<close>

definition demo_operator :: operator_config where
  "demo_operator =
     \<lparr>oc_label = ''bot'', oc_role = RoleAdmin, oc_scopeMode = PerChat, oc_provider = WalletInternal,
      oc_walletId = None, oc_inboxIds = Some [''inbox_0123456789abcdef''],
      oc_operatorDisclosures = None\<rparr>"

definition demo_registry :: operator_store where
  "demo_registry = snd (operator_create ''empty'' demo_operator ''op_1'' 500 [])"

definition demo_changes :: operator_changes where
  "demo_changes =
     \<lparr>och_label = Some ''bot 2'', och_role = None, och_scopeMode = None, och_provider = None,
      och_walletId = None, och_inboxIds = Some None, och_operatorDisclosures = None\<rparr>"

definition demo_during :: "operator_store \<Rightarrow> operator_store" where
  "demo_during s = snd (operator_update ''empty'' ''op_1'' demo_changes s)"

lemma demo_registry_steps:
  "registry_steps ''empty'' [] demo_registry" "registry_steps em s (snd (operator_update em i ch s))"
  "registry_steps ''empty'' s (demo_during s)"
  unfolding demo_registry_def demo_during_def
  by (rule rg_create [OF rg_refl], simp) (rule rg_update [OF rg_refl])+

lemma demo_registry_get:
  "map_get demo_registry ''op_1'' = Some \<lparr>op_id = ''op_1'', op_config = demo_operator,
     op_createdAt = 500, op_createdBy = ''owner'', op_status = OpActive\<rparr>"
  by code_simp

theorem no_superadmin_without_owner_witness:
  "op_createdBy (the (map_get demo_registry ''op_1'')) = ''owner''
   \<and> oc_role demo_operator = RoleAdmin"
  using no_superadmin_without_owner [OF demo_registry_steps(1) demo_registry_get]
  by (simp add: demo_registry_get demo_operator_def)

theorem operator_removal_is_final_witness:
  "\<exists>store' cs'. operator_remove (Some (production_revoke (\<lambda>_. 9000))) demo_during ''op_1''
       demo_registry (Some (demo_store 3)) = (Inr (), store', Some cs')
     \<and> getActiveForOperator ''op_1'' (demo_store 3) \<noteq> []
     \<and> getActiveForOperator ''op_1'' cs' = []
     \<and> oc_label (op_config (the (map_get store' ''op_1''))) = ''bot''"
proof -
  let ?rm = "operator_remove (Some (production_revoke (\<lambda>_. 9000))) demo_during ''op_1''
       demo_registry (Some (demo_store 3))"
  have "\<exists>res store' cs'. ?rm = (res, store', Some cs')"
    by (simp add: operator_remove_def demo_registry_get Let_def production_revoke_def)
  then obtain res store' cs' where rm: "?rm = (res, store', Some cs')" by blast
  from operator_removal_is_final [where during = demo_during, OF demo_reachable(2)
      demo_registry_steps(1) demo_registry_get demo_registry_steps(3) rm rg_refl]
  have "res = Inr ()" "getActiveForOperator ''op_1'' cs' = []" by blast+
  moreover have "getActiveForOperator ''op_1'' (demo_store 3) \<noteq> []" by code_simp
  moreover have "oc_label (op_config (the (map_get store' ''op_1''))) = ''bot''"
    using rm by (auto simp: operator_remove_def demo_registry_get Let_def production_revoke_def
        demo_operator_def)
  ultimately show ?thesis using rm by blast
qed

end
