(* ===== verification/CredentialService.thy ===== *)
theory CredentialService
  imports Managers
begin

text \<open>
  packages/sessions/src/service.ts: the public face of the credential manager, which resolves
  policies, keeps the store swept, shows records without their tokens and turns a widening of
  scopes into a revocation; and the action of update-actions.ts, which does the same for the
  command line.

  The policy registry is a \<open>policy_store\<close> (or absent). An operation that awaits a lookup
  takes \<open>resume\<close>: what other calls did to the credential store before it went on. Clock
  readings, the new id and the new token are arguments; the digest of \<open>fingerprintToken\<close>
  (Web Crypto) is a parameter.
\<close>

section \<open>Records of the contract\<close>

record schema_credential =
  sc_id :: string
  sc_config :: credential_config
  sc_inboxIds :: "string list"
  sc_status :: credential_status
  sc_issuedAt :: int
  sc_expiresAt :: int
  sc_issuedBy :: string

record contract_credential = schema_credential +
  cc_credentialId :: string
  cc_operatorId :: string
  cc_effectiveScopes :: scope_set
  cc_isExpired :: bool
  cc_lastHeartbeat :: int

record issued_credential =
  ic_token :: string
  ic_credential :: schema_credential

record credential_renewal =
  rn_credentialId :: string
  rn_operatorId :: string
  rn_fingerprint :: string
  rn_issuedAt :: int
  rn_expiresAt :: int

definition toSchemaCredentialRecord :: "credential_record \<Rightarrow> schema_credential" where
  "toSchemaCredentialRecord r =
     \<lparr>sc_id = cr_credentialId r,
      sc_config = \<lparr>cfg_operatorId = cr_operatorId r, cfg_chatIds = cr_chatIds r,
        cfg_policyId = None, cfg_allow = Some (allow (cr_effectiveScopes r)),
        cfg_deny = Some (deny (cr_effectiveScopes r)), cfg_ttlSeconds = None\<rparr>,
      sc_inboxIds = [], sc_status = cr_status r, sc_issuedAt = cr_issuedAt r,
      sc_expiresAt = cr_expiresAt r, sc_issuedBy = cr_issuedBy r\<rparr>"

definition toCredentialRecord :: "int \<Rightarrow> credential_record \<Rightarrow> contract_credential" where
  "toCredentialRecord now r =
     schema_credential.extend (toSchemaCredentialRecord r)
       (contract_credential.fields (cr_credentialId r) (cr_operatorId r) (cr_effectiveScopes r)
          (cr_status r = StExpired \<or> cr_expiresAt r \<le> now) (cr_lastHeartbeat r))"

definition toIssuedCredential :: "credential_record \<Rightarrow> issued_credential" where
  "toIssuedCredential r =
     \<lparr>ic_token = cr_token r, ic_credential = toSchemaCredentialRecord r\<rparr>"

definition resolvePolicyScopes ::
  "policy_store option \<Rightarrow> string \<Rightarrow> permission_scope list option \<Rightarrow>
   permission_scope list option \<Rightarrow> scope_set result" where
  "resolvePolicyScopes policyManager policyId inlineAllow inlineDeny =
     (case policyManager of
        None \<Rightarrow> Inl (NotFoundError ''policy'' policyId)
      | Some policies \<Rightarrow>
          (case policy_lookup policyId policies of
             Inl e \<Rightarrow> Inl e
           | Inr r \<Rightarrow> Inr (resolvePolicy (pol_config r) inlineAllow inlineDeny)))"

section \<open>Issue, list, look up, revoke and renew\<close>

definition service_issue ::
  "cm_env \<Rightarrow> policy_store option \<Rightarrow> int \<Rightarrow> (string \<Rightarrow> int) \<Rightarrow> (cred_store \<Rightarrow> cred_store) \<Rightarrow>
   issue_clock \<Rightarrow> string \<Rightarrow> string \<Rightarrow> credential_config \<Rightarrow> string option \<Rightarrow> cred_store \<Rightarrow>
   issued_credential result completion \<times> cred_store" where
  "service_issue env policies sweepNow sweepClock resume clk newId newToken cfg issuedBy s =
     (let s1 = snd (sweepExpired env sweepNow sweepClock s);
          (resolved, s2) =
            (case cfg_policyId cfg of
               None \<Rightarrow> (Inr cfg, s1)
             | Some policyId \<Rightarrow>
                 ((case resolvePolicyScopes policies policyId (cfg_allow cfg) (cfg_deny cfg) of
                     Inl e \<Rightarrow> Inl e
                   | Inr sc \<Rightarrow> Inr (cfg\<lparr>cfg_allow := Some (allow sc), cfg_deny := Some (deny sc)\<rparr>)),
                  resume s1))
      in case resolved of
           Inl e \<Rightarrow> (Returned (Inl e), s2)
         | Inr resolvedConfig \<Rightarrow>
             (case issueCredential env clk newId newToken resolvedConfig
                     \<lparr>io_credentialId = Some newId, io_issuedBy = issuedBy\<rparr> s2 of
                (Threw x, s3) \<Rightarrow> (Threw x, s3)
              | (Returned (Inl e), s3) \<Rightarrow> (Returned (Inl e), s3)
              | (Returned (Inr created), s3) \<Rightarrow>
                  (Returned (Inr (toIssuedCredential created)), s3)))"

definition service_list ::
  "cm_env \<Rightarrow> int \<Rightarrow> (string \<Rightarrow> int) \<Rightarrow> int \<Rightarrow> string option \<Rightarrow> cred_store \<Rightarrow>
   contract_credential list \<times> cred_store" where
  "service_list env sweepNow sweepClock now operatorId s =
     (let s1 = snd (sweepExpired env sweepNow sweepClock s)
      in (map (toCredentialRecord now) (listCredentials operatorId s1), s1))"

definition service_lookup ::
  "cm_env \<Rightarrow> int \<Rightarrow> (string \<Rightarrow> int) \<Rightarrow> int \<Rightarrow> string \<Rightarrow> cred_store \<Rightarrow>
   contract_credential result \<times> cred_store" where
  "service_lookup env sweepNow sweepClock now credentialId s =
     (let s1 = snd (sweepExpired env sweepNow sweepClock s)
      in case getCredentialById credentialId s1 of
           Inl e \<Rightarrow> (Inl e, s1)
         | Inr r \<Rightarrow> (Inr (toCredentialRecord now r), s1))"

definition service_lookupByToken ::
  "int \<Rightarrow> int \<Rightarrow> string \<Rightarrow> cred_store \<Rightarrow> contract_credential result \<times> cred_store" where
  "service_lookupByToken t now token s =
     (case getCredentialByToken t token s of
        (Inl e, s') \<Rightarrow> (Inl e, s')
      | (Inr r, s') \<Rightarrow> (Inr (toCredentialRecord now r), s'))"

definition service_revoke ::
  "int \<Rightarrow> string \<Rightarrow> revocation_reason \<Rightarrow> cred_store \<Rightarrow> unit result \<times> cred_store" where
  "service_revoke t credentialId reason s =
     (case revokeCredential t credentialId reason s of
        (Inl e, s') \<Rightarrow> (Inl e, s')
      | (Inr _, s') \<Rightarrow> (Inr (), s'))"

definition service_renew ::
  "cm_env \<Rightarrow> (string \<Rightarrow> string) \<Rightarrow> int \<Rightarrow> int \<Rightarrow> string \<Rightarrow> cred_store \<Rightarrow>
   credential_renewal result completion \<times> cred_store" where
  "service_renew env fingerprintToken t_window t_new credentialId s =
     (case renewCredential env t_window t_new credentialId s of
        (Threw x, s') \<Rightarrow> (Threw x, s')
      | (Returned (Inl e), s') \<Rightarrow> (Returned (Inl e), s')
      | (Returned (Inr r), s') \<Rightarrow>
          (Returned (Inr \<lparr>rn_credentialId = cr_credentialId r, rn_operatorId = cr_operatorId r,
             rn_fingerprint = fingerprintToken (cr_token r), rn_issuedAt = cr_issuedAt r,
             rn_expiresAt = cr_expiresAt r\<rparr>), s'))"

section \<open>Changing scopes\<close>

text \<open>
  The tail that the service and the action share: check materiality, then revoke or rescope.
\<close>

datatype scope_change =
  Reauthorized materiality_check credential_record
| Rescoped materiality_check credential_record

fun changed_record :: "scope_change \<Rightarrow> credential_record" where
  "changed_record (Reauthorized _ r) = r"
| "changed_record (Rescoped _ r) = r"

definition change_scopes ::
  "cm_env \<Rightarrow> int \<Rightarrow> string \<Rightarrow> scope_set \<Rightarrow> cred_store \<Rightarrow> scope_change result \<times> cred_store" where
  "change_scopes env t credentialId nextScopes s =
     (case credential_checkMateriality credentialId nextScopes s of
        Inl e \<Rightarrow> (Inl e, s)
      | Inr check \<Rightarrow>
          if mc_requiresReauthorization check
          then (case revokeCredential t credentialId ReauthorizationRequired s of
                  (Inl e, s') \<Rightarrow> (Inl e, s')
                | (Inr r, s') \<Rightarrow> (Inr (Reauthorized check r), s'))
          else (case updateCredentialScopes env credentialId nextScopes s of
                  (Inl e, s') \<Rightarrow> (Inl e, s')
                | (Inr r, s') \<Rightarrow> (Inr (Rescoped check r), s')))"

text \<open>\<open>Partial<CredentialConfigType>\<close>: \<open>None\<close> is \<open>undefined\<close>.\<close>

record credential_changes =
  chg_operatorId :: "string option"
  chg_chatIds :: "string list option"
  chg_policyId :: "string option"
  chg_allow :: "permission_scope list option"
  chg_deny :: "permission_scope list option"
  chg_ttlSeconds :: "int option"

definition service_update ::
  "cm_env \<Rightarrow> policy_store option \<Rightarrow> (cred_store \<Rightarrow> cred_store) \<Rightarrow> int \<Rightarrow> int \<Rightarrow> string \<Rightarrow>
   credential_changes \<Rightarrow> cred_store \<Rightarrow> contract_credential result \<times> cred_store" where
  "service_update env policies resume t now credentialId changes s =
     (case getCredentialById credentialId s of
        Inl e \<Rightarrow> (Inl e, s)
      | Inr current \<Rightarrow>
          if chg_operatorId changes \<noteq> None \<or> chg_chatIds changes \<noteq> None
             \<or> chg_ttlSeconds changes \<noteq> None
          then (Inl (ValidationError ''changes''
                  ''Credential updates only support allow/deny/policyId changes'' []), s)
          else if chg_allow changes = None \<and> chg_deny changes = None \<and> chg_policyId changes = None
          then (Inr (toCredentialRecord now current), s)
          else
            let (scopes, s1) =
              (case chg_policyId changes of
                 None \<Rightarrow>
                   (Inr \<lparr>allow = or_else (chg_allow changes) (allow (cr_effectiveScopes current)),
                         deny = or_else (chg_deny changes) (deny (cr_effectiveScopes current))\<rparr>, s)
               | Some policyId \<Rightarrow>
                   (resolvePolicyScopes policies policyId (chg_allow changes) (chg_deny changes),
                    resume s))
            in case scopes of
                 Inl e \<Rightarrow> (Inl e, s1)
               | Inr nextScopes \<Rightarrow>
                   (case change_scopes env t credentialId nextScopes s1 of
                      (Inl e, s2) \<Rightarrow> (Inl e, s2)
                    | (Inr ch, s2) \<Rightarrow> (Inr (toCredentialRecord now (changed_record ch)), s2)))"

record scopes_update_result =
  su_updated :: bool
  su_material :: bool
  su_reason :: "string option"

fun status_name :: "credential_status \<Rightarrow> string" where
  "status_name StPending = ''pending''"
| "status_name StActive = ''active''"
| "status_name StExpired = ''expired''"
| "status_name StRevoked = ''revoked''"

definition update_scopes_action ::
  "cm_env \<Rightarrow> int \<Rightarrow> (string \<Rightarrow> int) \<Rightarrow> int \<Rightarrow> (cred_store \<Rightarrow> cred_store) \<Rightarrow> int \<Rightarrow> string \<Rightarrow>
   scope_set \<Rightarrow> cred_store \<Rightarrow> scopes_update_result result \<times> cred_store" where
  "update_scopes_action env sweepNow sweepClock now resume t credentialId scopes s =
     (case service_lookup env sweepNow sweepClock now credentialId s of
        (Inl e, s1) \<Rightarrow> (Inl e, resume s1)
      | (Inr credential, s1) \<Rightarrow>
          if sc_status credential \<noteq> StActive
          then (Inl (AuthError ''Credential is not active''
                  (Some [(''credentialId'', CtxStr credentialId),
                         (''status'', CtxStr (status_name (sc_status credential)))])), resume s1)
          else (case change_scopes env t credentialId scopes (resume s1) of
                  (Inl e, s2) \<Rightarrow> (Inl e, s2)
                | (Inr (Reauthorized check _), s2) \<Rightarrow>
                    (Inr \<lparr>su_updated = False, su_material = True, su_reason = mc_reason check\<rparr>, s2)
                | (Inr (Rescoped check _), s2) \<Rightarrow>
                    (Inr \<lparr>su_updated = True, su_material = isMaterial check,
                          su_reason = mc_reason check\<rparr>, s2)))"

section \<open>What a change of scopes does\<close>

lemma change_scopes_absent:
  "map_get (byId s) i = None \<Longrightarrow>
     change_scopes env t i sc s = (Inl (NotFoundError ''credential'' i), s)"
  by (simp add: change_scopes_def credential_checkMateriality_def)

lemma change_scopes_widening:
  assumes "map_get (byId s) i = Some r" and "\<not> effective sc \<subseteq> effective (cr_effectiveScopes r)"
  shows "change_scopes env t i sc s =
    (Inr (Reauthorized (checkMateriality (cr_effectiveScopes r) sc) (revoke_rec t ReauthorizationRequired r)),
     snd (revokeRecord t i ReauthorizationRequired s))"
  using assms revokeRecord_present [OF assms(1), of t ReauthorizationRequired]
  by (simp add: change_scopes_def credential_checkMateriality_def reauth_iff revokeCredential_def
      or_not_found_def)

lemma change_scopes_narrowing:
  assumes "map_get (byId s) i = Some r" and "effective sc \<subseteq> effective (cr_effectiveScopes r)"
  shows "change_scopes env t i sc s =
    (if cr_status r = StActive
     then (Inr (Rescoped (checkMateriality (cr_effectiveScopes r) sc) (rescope_rec env sc r)),
           s\<lparr>byId := map_set i (rescope_rec env sc r) (byId s),
             mutatedCalls := mutatedCalls s @ [i]\<rparr>)
     else (Inl (CredentialExpiredError i), s))"
  using assms mutateRecord_present [OF assms(1)]
  by (simp add: change_scopes_def credential_checkMateriality_def reauth_iff updateCredentialScopes_def
      with_active_def or_not_found_def)

text \<open>
  One credential may lose scopes or its life; nothing else changes, and no identity does.
\<close>

definition narrows :: "string \<Rightarrow> cred_store \<Rightarrow> cred_store \<Rightarrow> bool" where
  "narrows i s s' \<longleftrightarrow>
     byToken s' = byToken s \<and> byOperator s' = byOperator s \<and>
     (\<forall>j. j \<noteq> i \<longrightarrow> map_get (byId s') j = map_get (byId s) j) \<and>
     rel_option (\<lambda>r r'. cr_credentialId r' = cr_credentialId r \<and> cr_token r' = cr_token r
         \<and> cr_operatorId r' = cr_operatorId r \<and> cr_chatIds r' = cr_chatIds r
         \<and> cr_expiresAt r' = cr_expiresAt r
         \<and> effective (cr_effectiveScopes r') \<subseteq> effective (cr_effectiveScopes r)
         \<and> (cr_status r' = StActive \<longrightarrow> cr_status r = StActive))
       (map_get (byId s) i) (map_get (byId s') i)"

lemma narrows_refl: "narrows i s s"
  by (simp add: narrows_def option.rel_refl)

lemma change_scopes_narrows: "narrows i s (snd (change_scopes env t i sc s))"
proof (cases "map_get (byId s) i")
  case None
  then show ?thesis by (simp add: change_scopes_absent narrows_refl)
next
  case (Some r)
  show ?thesis
  proof (cases "effective sc \<subseteq> effective (cr_effectiveScopes r)")
    case True
    with change_scopes_narrowing [OF Some True] Some show ?thesis
      by (simp add: narrows_def rescope_rec_def option.rel_refl)
  next
    case False
    with change_scopes_widening [OF Some False] revokeRecord_present [OF Some] Some show ?thesis
      by (simp add: narrows_def revoke_rec_def)
  qed
qed

lemma service_update_narrows:
  "\<exists>b \<in> {s, resume s}. narrows i b (snd (service_update env policies resume t now i ch s))"
proof -
  have tail: "narrows i b (snd (case change_scopes env t i sc b of
      (Inl e, s2) \<Rightarrow> (Inl e, s2) | (Inr c, s2) \<Rightarrow> (Inr (toCredentialRecord now (changed_record c)), s2)))"
    for sc b
    using change_scopes_narrows [of i b env t sc] by (auto split: prod.split sum.split)
  show ?thesis
    by (auto simp: service_update_def Let_def narrows_refl
        intro: tail split: sum.split option.split)
qed

lemma update_action_narrows:
  "narrows i (resume (snd (sweepExpired env sn sc s)))
     (snd (update_scopes_action env sn sc now resume t i scopes s))"
proof -
  have tail: "narrows i b (snd (case change_scopes env t i scopes b of
        (Inl e, s2) \<Rightarrow> (Inl e, s2) | (Inr (Reauthorized c r), s2) \<Rightarrow> (Inr (f c), s2)
      | (Inr (Rescoped c r), s2) \<Rightarrow> (Inr (g c), s2)))" for b f g
    using change_scopes_narrows [of i b env t scopes]
    by (auto split: prod.split sum.split scope_change.split)
  show ?thesis
    by (auto simp: update_scopes_action_def service_lookup_def Let_def narrows_refl
        intro: tail split: sum.split)
qed

section \<open>Properties\<close>


lemma demo_cred_c: "\<exists>r. map_get (byId (demo_store 3)) ''cred_c'' = Some r
    \<and> effective (cr_effectiveScopes r) = {ScReact} \<and> cr_status r = StActive"
proof -
  have "map_option (\<lambda>r. (resolveScopeSet (cr_effectiveScopes r), cr_status r))
      (map_get (byId (demo_store 3)) ''cred_c'') = Some ([ScReact], StActive)"
    by code_simp
  then obtain r where "map_get (byId (demo_store 3)) ''cred_c'' = Some r"
    "resolveScopeSet (cr_effectiveScopes r) = [ScReact]" "cr_status r = StActive" by auto
  then show ?thesis using resolveScopeSet_set [of "cr_effectiveScopes r"] by simp
qed


end
