(* ===== verification/PendingActions.thy ===== *)
theory PendingActions
  imports Prelude
begin

text \<open>
  packages/sessions/src/pending-actions.ts: actions that wait for a confirmation. The store is
  a JavaScript \<open>Map\<close> by action id. A payload is used only for messages to be sent, whose shape
  it has here; dates are milliseconds.
\<close>

record 'c send_payload =
  pl_groupId :: string
  pl_contentType :: string
  pl_content :: 'c

record 'c pending_action =
  pa_actionId :: string
  pa_credentialId :: string
  pa_actionType :: string
  pa_payload :: "'c send_payload"
  pa_createdAt :: int
  pa_expiresAt :: int

type_synonym 'c pending_store = "(string, 'c pending_action) js_map"

definition pending_add :: "'c pending_action \<Rightarrow> 'c pending_store \<Rightarrow> 'c pending_store" where
  "pending_add action actions = map_set (pa_actionId action) action actions"

definition pending_get :: "string \<Rightarrow> 'c pending_store \<Rightarrow> 'c pending_action option" where
  "pending_get actionId actions = map_get actions actionId"

definition removeAndReturn ::
  "string \<Rightarrow> 'c pending_store \<Rightarrow> 'c pending_action option \<times> 'c pending_store" where
  "removeAndReturn actionId actions =
     (case map_get actions actionId of
        None \<Rightarrow> (None, actions)
      | Some action \<Rightarrow> (Some action, map_delete actionId actions))"

definition pending_confirm ::
  "string \<Rightarrow> 'c pending_store \<Rightarrow> 'c pending_action option \<times> 'c pending_store" where
  "pending_confirm actionId actions = removeAndReturn actionId actions"

definition pending_deny ::
  "string \<Rightarrow> 'c pending_store \<Rightarrow> 'c pending_action option \<times> 'c pending_store" where
  "pending_deny actionId actions = removeAndReturn actionId actions"

text \<open>
  The loop deletes while it iterates, which a \<open>Map\<close> allows: every entry present at the start
  is visited once.
\<close>

fun pending_expire_loop ::
  "int \<Rightarrow> (string \<times> 'c pending_action) list \<Rightarrow> 'c pending_store \<Rightarrow>
   'c pending_action list \<times> 'c pending_store" where
  "pending_expire_loop nowMs [] actions = ([], actions)"
| "pending_expire_loop nowMs ((i, action) # rest) actions =
     (if pa_expiresAt action \<le> nowMs
      then (case pending_expire_loop nowMs rest (map_delete i actions) of
              (expired, left) \<Rightarrow> (action # expired, left))
      else pending_expire_loop nowMs rest actions)"

definition pending_expireStale ::
  "int \<Rightarrow> 'c pending_store \<Rightarrow> 'c pending_action list \<times> 'c pending_store" where
  "pending_expireStale nowMs actions = pending_expire_loop nowMs actions actions"

definition pending_listByCredential ::
  "string \<Rightarrow> 'c pending_store \<Rightarrow> 'c pending_action list" where
  "pending_listByCredential credentialId actions =
     filter (\<lambda>action. pa_credentialId action = credentialId) (map_values actions)"

section \<open>Lemmas\<close>

lemma removeAndReturn_get [simp]:
  "map_get (snd (removeAndReturn i actions)) = (map_get actions)(i := None)"
  by (auto simp: removeAndReturn_def split: option.split)

lemma removeAndReturn_fst [simp]: "fst (removeAndReturn i actions) = map_get actions i"
  by (simp add: removeAndReturn_def split: option.split)

lemma delete_filter: "map_delete k m = filter (\<lambda>p. fst p \<noteq> k) m"
  by (auto simp: map_delete_def AList.delete_eq intro!: filter_cong)

lemma pending_expire_loop_eq:
  assumes "map_wf (kept @ todo)"
  shows "pending_expire_loop now todo (kept @ todo) =
    (filter (\<lambda>a. pa_expiresAt a \<le> now) (map snd todo),
     kept @ filter (\<lambda>(i, a). \<not> pa_expiresAt a \<le> now) todo)"
  using assms
proof (induction todo arbitrary: kept)
  case (Cons p todo)
  obtain i a where p: "p = (i, a)" by (cases p)
  from Cons.prems p have fresh: "i \<notin> fst ` set kept" "i \<notin> fst ` set todo"
    by (auto simp: map_wf_def)
  show ?case
  proof (cases "pa_expiresAt a \<le> now")
    case True
    have "filter (\<lambda>p. fst p \<noteq> i) kept = kept" "filter (\<lambda>p. fst p \<noteq> i) todo = todo"
      using fresh by (auto intro!: filter_True)
    then have "map_delete i (kept @ (i, a) # todo) = kept @ todo"
      using Cons.prems p by (simp add: delete_filter)
    moreover have "map_wf (kept @ todo)" using Cons.prems by (auto simp: map_wf_def)
    ultimately show ?thesis using Cons.IH [of kept] True by (simp add: p)
  next
    case False
    with Cons.IH [of "kept @ [(i, a)]"] Cons.prems show ?thesis by (simp add: p)
  qed
qed simp

lemma pending_expireStale_eq:
  "map_wf actions \<Longrightarrow> pending_expireStale now actions =
    (filter (\<lambda>a. pa_expiresAt a \<le> now) (map_values actions),
     filter (\<lambda>(i, a). \<not> pa_expiresAt a \<le> now) actions)"
  using pending_expire_loop_eq [of "[]" actions now]
  by (simp add: pending_expireStale_def map_values_def)

end
