(* ===== verification/RequestHandler.thy ===== *)
theory RequestHandler
  imports CredentialService PendingActions SealManager
begin

text \<open>
  packages/cli/src/ws/request-handler.ts and event-projector.ts: what a harness may do over its
  connection, and which events it gets to see.

  The world of a request holds the credential store, the pending actions, the messages handed
  to the core, the events broadcast and the expired actions reported. The core, the seal
  manager's \<open>current\<close> and the creation of message bindings are injected, so they are arguments
  (\<open>handler_deps\<close>); where the handler awaits one of them, a field \<open>hd_during_...\<close> says what other
  calls did meanwhile. The dates of records are milliseconds, so an \<open>expiresAt\<close> is never empty.
  \<open>isHeartbeatStale\<close> does not throw in the model, so the \<open>catch\<close> around it is not needed.
\<close>

section \<open>State, dependencies and requests\<close>

record 'c replay_message =
  rp_messageId :: string
  rp_groupId :: string
  rp_senderInboxId :: string
  rp_contentType :: string
  rp_content :: 'c
  rp_sentAt :: string
  rp_threadId :: "string option"

record 'c revealed_event =
  rv_messageId :: string
  rv_groupId :: string
  rv_contentType :: string
  rv_content :: "'c option"
  rv_revealId :: string

record 'c ws_world =
  ww_creds :: cred_store
  ww_pending :: "'c pending_store"
  ww_sent :: "'c send_payload list"
  ww_events :: "(string \<times> 'c revealed_event) list"
  ww_expired :: "'c pending_action list"

record handler_clock =
  hc_stale :: int
  hc_sweep :: int
  hc_sweepEach :: "string \<Rightarrow> int"
  hc_view :: int
  hc_now :: int
  hc_reveal :: "string \<Rightarrow> int"

record ('c, 'b) handler_deps =
  hd_env :: cm_env
  hd_parse_date :: date_parser
  hd_internal :: bool
  hd_pending :: bool
  hd_ready :: "unit result"
  hd_during_ready :: "'c ws_world \<Rightarrow> 'c ws_world"
  hd_during_lookup :: "'c ws_world \<Rightarrow> 'c ws_world"
  hd_send :: "'c send_payload \<Rightarrow> string result"
  hd_seal :: "(string \<Rightarrow> string \<Rightarrow> seal_envelope option result) option"
  hd_binding :: "(string \<Rightarrow> string \<Rightarrow> contract_credential \<Rightarrow> 'b result) option"
  hd_listMessages :: "(string \<Rightarrow> 'c replay_message list result) option"
  hd_during_list :: "'c ws_world \<Rightarrow> 'c ws_world"
  hd_broadcast :: bool

datatype 'c harness_request =
  ReqSendMessage "'c send_payload"
| ReqHeartbeat string
| ReqRevealContent reveal_request
| ReqUpdateScopes "permission_scope list option" "permission_scope list option"
| ReqConfirmAction string bool
| ReqSendReply
| ReqSendReaction

record 'b provenance_metadata =
  pm_credentialId :: string
  pm_operatorId :: string
  pm_binding :: 'b

datatype 'b harness_response =
  RespSent string "'b provenance_metadata option"
| RespNull
| RespAccess reveal_access
| RespScopes scopes_update_result
| RespDenied string
| RespMessageId string

definition resolveScopes :: "contract_credential \<Rightarrow> string list" where
  "resolveScopes credential = map scope_name (resolveScopeSet (cc_effectiveScopes credential))"

definition resolveChatIds :: "contract_credential \<Rightarrow> string list" where
  "resolveChatIds credential = cfg_chatIds (sc_config credential)"

section \<open>Sending a message\<close>

definition attach_provenance ::
  "('c, 'b) handler_deps \<Rightarrow> string \<Rightarrow> string \<Rightarrow> contract_credential \<Rightarrow> 'b harness_response result" where
  "attach_provenance deps messageId groupId credential =
     (case (hd_seal deps, hd_binding deps) of
        (Some seal, Some binding) \<Rightarrow>
          (case seal (cc_credentialId credential) groupId of
             Inr (Some envelope) \<Rightarrow>
               (case binding messageId (seal_id envelope) credential of
                  Inl e \<Rightarrow> Inl e
                | Inr b \<Rightarrow> Inr (RespSent messageId (Some
                    \<lparr>pm_credentialId = sp_credentialId (head_payload envelope),
                     pm_operatorId = sp_operatorId (head_payload envelope), pm_binding = b\<rparr>)))
           | _ \<Rightarrow> Inr (RespSent messageId None))
      | _ \<Rightarrow> Inr (RespSent messageId None))"

definition handleSendMessage ::
  "('c, 'b) handler_deps \<Rightarrow> handler_clock \<Rightarrow> 'c send_payload \<Rightarrow> contract_credential \<Rightarrow> 'c ws_world \<Rightarrow>
   'b harness_response result \<times> 'c ws_world" where
  "handleSendMessage deps clk request credential w =
     (case validateSendMessage (pl_groupId request) (resolveScopes credential)
             (resolveChatIds credential) of
        Inl e \<Rightarrow> (Inl e, w)
      | Inr _ \<Rightarrow>
          let w1 = hd_during_ready deps w in
          (case hd_ready deps of
             Inl e \<Rightarrow> (Inl e, w1)
           | Inr _ \<Rightarrow>
               (case service_lookup (hd_env deps) (hc_sweep clk) (hc_sweepEach clk) (hc_view clk)
                       (cc_credentialId credential) (ww_creds w1) of
                  (freshResult, creds) \<Rightarrow>
                    let w2 = hd_during_lookup deps (w1\<lparr>ww_creds := creds\<rparr>) in
                    (case freshResult of
                       Inl e \<Rightarrow> (Inl e, w2)
                     | Inr fresh \<Rightarrow>
                         if sc_status fresh \<noteq> StActive
                         then (Inl (AuthError (''Credential is '' @ status_name (sc_status fresh)
                                 @ '' -- cannot send messages'') None), w2)
                         else
                           let w3 = w2\<lparr>ww_sent := ww_sent w2 @ [request]\<rparr> in
                           (case hd_send deps request of
                              Inl e \<Rightarrow> (Inl e, w3)
                            | Inr messageId \<Rightarrow>
                                (attach_provenance deps messageId (pl_groupId request) credential,
                                 w3))))))"

section \<open>Heartbeats and reveals\<close>

definition handleHeartbeat ::
  "('c, 'b) handler_deps \<Rightarrow> handler_clock \<Rightarrow> string \<Rightarrow> contract_credential \<Rightarrow> 'c ws_world \<Rightarrow>
   'b harness_response result \<times> 'c ws_world" where
  "handleHeartbeat deps clk credentialId credential w =
     (if credentialId \<noteq> cc_credentialId credential
      then (Inl (AuthError ''Heartbeat credential does not match authenticated credential''
              (Some [(''authenticatedCredentialId'', CtxStr (cc_credentialId credential)),
                     (''requestedCredentialId'', CtxStr credentialId)])), w)
      else if \<not> hd_internal deps then (Inr RespNull, w)
      else (case recordHeartbeat (hc_now clk) (cc_credentialId credential) (ww_creds w) of
              (Inl e, s) \<Rightarrow> (Inl e, w\<lparr>ww_creds := s\<rparr>)
            | (Inr _, s) \<Rightarrow> (Inr RespNull, w\<lparr>ww_creds := s\<rparr>)))"

text \<open>One historical message of the replay; \<open>store\<close> is the credential's grants at that time.\<close>

definition replay_one ::
  "('c, 'b) handler_deps \<Rightarrow> handler_clock \<Rightarrow> contract_credential \<Rightarrow> reveal_access \<Rightarrow> reveal_store \<Rightarrow>
   'c replay_message \<Rightarrow> (string \<times> 'c revealed_event) option" where
  "replay_one deps clk credential access store msg =
     (if \<not> isRevealed (hd_parse_date deps) (hc_reveal clk (rp_messageId msg)) (rp_messageId msg)
             (rp_groupId msg) (rp_threadId msg) (rp_senderInboxId msg) (rp_contentType msg)
             (rp_sentAt msg) store
      then None
      else
        (case projectMessage
                \<lparr>rm_messageId = rp_messageId msg, rm_groupId = rp_groupId msg,
                 rm_senderInboxId = rp_senderInboxId msg, rm_contentType = rp_contentType msg,
                 rm_content = rp_content msg, rm_sentAt = rp_sentAt msg,
                 rm_threadId = rp_threadId msg, rm_sealId = None, rm_isHistorical = Some True\<rparr>
                (resolveScopes credential) (resolveChatIds credential) [rp_contentType msg] True of
           Drop \<Rightarrow> None
         | Emit e \<Rightarrow> Some (cc_credentialId credential,
             \<lparr>rv_messageId = rp_messageId msg, rv_groupId = rp_groupId msg,
              rv_contentType = rp_contentType msg, rv_content = me_content e,
              rv_revealId = ra_revealId access\<rparr>)))"

definition handleRevealContent ::
  "('c, 'b) handler_deps \<Rightarrow> handler_clock \<Rightarrow> reveal_request \<Rightarrow> contract_credential \<Rightarrow> 'c ws_world \<Rightarrow>
   'b harness_response result \<times> 'c ws_world" where
  "handleRevealContent deps clk reveal credential w =
     (if \<not> hd_internal deps
      then (Inl (InternalError ''Internal credential manager not available'' None), w)
      else
        let access = \<lparr>ra_revealId = rr_revealId reveal, ra_grantedAt = hc_now clk,
                      ra_grantedBy = rr_requestedBy reveal, ra_expiresAt = rr_expiresAt reveal\<rparr> in
        (case grantReveal (cc_credentialId credential) access reveal (ww_creds w) of
           (Inl e, s) \<Rightarrow> (Inl e, w\<lparr>ww_creds := s\<rparr>)
         | (Inr _, s) \<Rightarrow>
             let w1 = w\<lparr>ww_creds := s\<rparr> in
             (case hd_listMessages deps of
                None \<Rightarrow> (Inr (RespAccess access), w1)
              | Some listMessages \<Rightarrow>
                  if \<not> hd_broadcast deps then (Inr (RespAccess access), w1)
                  else
                    let w2 = hd_during_list deps w1 in
                    (case listMessages (rr_groupId reveal) of
                       Inl _ \<Rightarrow> (Inr (RespAccess access), w2)
                     | Inr messages \<Rightarrow>
                         let store = or_else (map_get (revealStates (ww_creds w2))
                               (cc_credentialId credential)) createRevealStateStore
                         in (Inr (RespAccess access),
                             w2\<lparr>ww_events := ww_events w2
                                  @ List.map_filter (replay_one deps clk credential access store)
                                      messages\<rparr>)))))"

section \<open>Scopes and confirmations\<close>

definition handleUpdateScopes ::
  "('c, 'b) handler_deps \<Rightarrow> permission_scope list option \<Rightarrow> permission_scope list option \<Rightarrow>
   contract_credential \<Rightarrow> 'c ws_world \<Rightarrow> 'b harness_response result \<times> 'c ws_world" where
  "handleUpdateScopes deps newAllow newDeny credential w =
     (if \<not> hd_internal deps
      then (Inl (InternalError ''Internal credential manager not available'' None), w)
      else
        let i = cc_credentialId credential;
            newScopes = \<lparr>allow = or_else newAllow (allow (cc_effectiveScopes credential)),
                         deny = or_else newDeny (deny (cc_effectiveScopes credential))\<rparr> in
        (case credential_checkMateriality i newScopes (ww_creds w) of
           Inl e \<Rightarrow> (Inl e, w)
         | Inr check \<Rightarrow>
             if mc_requiresReauthorization check
             then (Inr (RespScopes \<lparr>su_updated = False, su_material = True,
                                    su_reason = mc_reason check\<rparr>),
                   w\<lparr>ww_creds := snd (setCredentialStatus i StPending (ww_creds w))\<rparr>)
             else (case updateCredentialScopes (hd_env deps) i newScopes (ww_creds w) of
                     (Inl e, s) \<Rightarrow> (Inl e, w\<lparr>ww_creds := s\<rparr>)
                   | (Inr _, s) \<Rightarrow>
                       (Inr (RespScopes \<lparr>su_updated = True, su_material = isMaterial check,
                          su_reason = (if isMaterial check then mc_reason check else None)\<rparr>),
                        w\<lparr>ww_creds := s\<rparr>))))"

text \<open>What a confirmation does once the action has left the store.\<close>

definition execute_action ::
  "('c, 'b) handler_deps \<Rightarrow> 'c pending_action \<Rightarrow> 'c ws_world \<Rightarrow>
   'b harness_response result \<times> 'c ws_world" where
  "execute_action deps action w =
     (if pa_actionType action = ''send_message''
      then
        let w1 = hd_during_ready deps w in
        (case hd_ready deps of
           Inl e \<Rightarrow> (Inl e, w1)
         | Inr _ \<Rightarrow>
             let w2 = w1\<lparr>ww_sent := ww_sent w1 @ [pa_payload action]\<rparr> in
             (case hd_send deps (pa_payload action) of
                Inl e \<Rightarrow> (Inl e, w2)
              | Inr messageId \<Rightarrow> (Inr (RespMessageId messageId), w2)))
      else (Inl (InternalError (''Unknown pending action type: '' @ pa_actionType action) None), w))"

definition handleConfirmAction ::
  "('c, 'b) handler_deps \<Rightarrow> handler_clock \<Rightarrow> string \<Rightarrow> bool \<Rightarrow> contract_credential \<Rightarrow> 'c ws_world \<Rightarrow>
   'b harness_response result \<times> 'c ws_world" where
  "handleConfirmAction deps clk actionId confirmed credential w =
     (if \<not> hd_pending deps
      then (Inl (InternalError ''Pending action store not available'' None), w)
      else
        (case pending_get actionId (ww_pending w) of
           None \<Rightarrow> (Inl (NotFoundError ''PendingAction'' actionId), w)
         | Some pending \<Rightarrow>
             let denied = w\<lparr>ww_pending := snd (pending_deny actionId (ww_pending w))\<rparr> in
             if pa_credentialId pending \<noteq> cc_credentialId credential
             then (Inl (PermissionError ''Pending action does not belong to this credential''
                     (Some [(''actionId'', CtxStr actionId),
                            (''credentialId'', CtxStr (cc_credentialId credential))])), w)
             else if pa_expiresAt pending < hc_now clk
             then (Inl (PermissionError ''Pending action has expired''
                     (Some [(''actionId'', CtxStr actionId),
                            (''expiresAt'', CtxNum (pa_expiresAt pending))])),
                   denied\<lparr>ww_expired := ww_expired denied @ [pending]\<rparr>)
             else if \<not> confirmed then (Inr (RespDenied actionId), denied)
             else
               (case (if pa_actionType pending = ''send_message''
                      then (case validateSendMessage (pl_groupId (pa_payload pending))
                                   (resolveScopes credential) (resolveChatIds credential) of
                              Inl e \<Rightarrow> Some e | Inr _ \<Rightarrow> None)
                      else None) of
                  Some e \<Rightarrow> (Inl e, denied)
                | None \<Rightarrow>
                    (case pending_confirm actionId (ww_pending w) of
                       (None, actions) \<Rightarrow>
                         (Inl (NotFoundError ''PendingAction'' actionId), w\<lparr>ww_pending := actions\<rparr>)
                     | (Some action, actions) \<Rightarrow>
                         execute_action deps action (w\<lparr>ww_pending := actions\<rparr>)))))"

section \<open>The handler\<close>

fun request_type :: "'c harness_request \<Rightarrow> string" where
  "request_type (ReqSendMessage _) = ''send_message''"
| "request_type (ReqHeartbeat _) = ''heartbeat''"
| "request_type (ReqRevealContent _) = ''reveal_content''"
| "request_type (ReqUpdateScopes _ _) = ''update_scopes''"
| "request_type (ReqConfirmAction _ _) = ''confirm_action''"
| "request_type ReqSendReply = ''send_reply''"
| "request_type ReqSendReaction = ''send_reaction''"

fun dispatch_request ::
  "('c, 'b) handler_deps \<Rightarrow> handler_clock \<Rightarrow> 'c harness_request \<Rightarrow> contract_credential \<Rightarrow>
   'c ws_world \<Rightarrow> 'b harness_response result \<times> 'c ws_world" where
  "dispatch_request deps clk (ReqSendMessage r) c w = handleSendMessage deps clk r c w"
| "dispatch_request deps clk (ReqHeartbeat i) c w = handleHeartbeat deps clk i c w"
| "dispatch_request deps clk (ReqRevealContent r) c w = handleRevealContent deps clk r c w"
| "dispatch_request deps clk (ReqUpdateScopes a d) c w = handleUpdateScopes deps a d c w"
| "dispatch_request deps clk (ReqConfirmAction i b) c w = handleConfirmAction deps clk i b c w"
| "dispatch_request deps clk r c w =
     (Inl (InternalError (''Harness request type '' @ [CHR 0x27] @ request_type r @ [CHR 0x27]
             @ '' is not supported'') None), w)"

definition handle_request ::
  "('c, 'b) handler_deps \<Rightarrow> handler_clock \<Rightarrow> 'c harness_request \<Rightarrow> contract_credential \<Rightarrow>
   'c ws_world \<Rightarrow> 'b harness_response result \<times> 'c ws_world" where
  "handle_request deps clk request credential w =
     (if request_type request \<noteq> ''heartbeat'' \<and> hd_internal deps
         \<and> isHeartbeatStale (hd_env deps) (hc_stale clk) (cc_credentialId credential) (ww_creds w)
             = Inr True
      then (Inl (AuthError ''Credential heartbeat is stale -- send a heartbeat before making requests''
              None), w)
      else dispatch_request deps clk request credential w)"

section \<open>The event projector\<close>

record 'c visible_event =
  ve_messageId :: string
  ve_groupId :: string
  ve_senderInboxId :: string
  ve_contentType :: string
  ve_content :: 'c
  ve_visibility :: visibility
  ve_sentAt :: string
  ve_sealId :: "string option"
  ve_threadId :: "string option"

datatype ('c, 'o) signet_event = MessageVisible "'c visible_event" | OtherEvent 'o

datatype ('c, 'o) projected_event = Projected "'c message_event" | PassedOn 'o | Withheld

text \<open>\<open>getChatIds\<close> narrows the chats at run time; an empty answer means no override.\<close>

definition projectEvent ::
  "date_parser \<Rightarrow> int \<Rightarrow> (string \<Rightarrow> reveal_store option) \<Rightarrow> (string \<Rightarrow> string list) option \<Rightarrow>
   ('c, 'o) signet_event \<Rightarrow> contract_credential \<Rightarrow> ('c, 'o) projected_event" where
  "projectEvent parse_date now getRevealState' getChatIds event credential =
     (case event of
        OtherEvent x \<Rightarrow> PassedOn x
      | MessageVisible e \<Rightarrow>
          let revealed = (case getRevealState' (cc_credentialId credential) of
                None \<Rightarrow> False
              | Some store \<Rightarrow> isRevealed parse_date now (ve_messageId e) (ve_groupId e)
                  (ve_threadId e) (ve_senderInboxId e) (ve_contentType e) (ve_sentAt e) store);
              configured = resolveChatIds credential;
              resolved = (case getChatIds of None \<Rightarrow> configured | Some f \<Rightarrow> f (cc_credentialId credential));
              chatIds = (if resolved \<noteq> [] then resolved else configured)
          in (case projectMessage
                     \<lparr>rm_messageId = ve_messageId e, rm_groupId = ve_groupId e,
                      rm_senderInboxId = ve_senderInboxId e, rm_contentType = ve_contentType e,
                      rm_content = ve_content e, rm_sentAt = ve_sentAt e,
                      rm_threadId = ve_threadId e, rm_sealId = ve_sealId e,
                      rm_isHistorical = Some (ve_visibility e = VHistorical)\<rparr>
                     (resolveScopes credential) chatIds [ve_contentType e] revealed of
                Drop \<Rightarrow> Withheld
              | Emit m \<Rightarrow> Projected m))"

section \<open>When a message may be sent\<close>

lemma send_allowed:
  "(\<exists>v. validateSendMessage g (resolveScopes c) chats = Inr v) \<longleftrightarrow>
     g \<in> set chats \<and> ScSend \<in> effective (cc_effectiveScopes c)"
proof -
  have "scope_name ScSend \<in> scope_name ` effective (cc_effectiveScopes c)
      \<longleftrightarrow> ScSend \<in> effective (cc_effectiveScopes c)"
    by (rule inj_image_mem_iff) (simp add: inj_def)
  then show ?thesis using send_v.accepts_iff [of g "resolveScopes c" chats]
    by (simp add: resolveScopes_def)
qed

text \<open>The credential is active and not expired when the handler looks it up again.\<close>

definition seen_active :: "('c, 'b) handler_deps \<Rightarrow> handler_clock \<Rightarrow> string \<Rightarrow> 'c ws_world \<Rightarrow> bool" where
  "seen_active deps clk i w \<longleftrightarrow>
     (\<exists>r. map_get (byId (snd (sweepExpired (hd_env deps) (hc_sweep clk) (hc_sweepEach clk)
             (ww_creds (hd_during_ready deps w))))) i = Some r \<and> cr_status r = StActive)"

lemma lookup_status:
  "service_lookup env t f now i s = (Inr fresh, s') \<Longrightarrow>
     \<exists>r. map_get (byId (snd (sweepExpired env t f s))) i = Some r \<and> cr_status r = sc_status fresh"
  by (auto simp: service_lookup_def getCredentialById_def Let_def toCredentialRecord_def
      toSchemaCredentialRecord_def schema_credential.defs contract_credential.defs
      split: option.splits)

text \<open>What other calls do meanwhile is not counted among the messages of this one.\<close>

definition sends_apart :: "('c, 'b) handler_deps \<Rightarrow> bool" where
  "sends_apart deps \<longleftrightarrow>
     (\<forall>w. ww_sent (hd_during_ready deps w) = ww_sent w \<and> ww_sent (hd_during_lookup deps w) = ww_sent w
          \<and> ww_sent (hd_during_list deps w) = ww_sent w)"

lemma send_message_sent:
  assumes "sends_apart deps" and "handleSendMessage deps clk p c w = (res, w')"
  shows "ww_sent w' = ww_sent w
    \<or> ww_sent w' = ww_sent w @ [p] \<and> pl_groupId p \<in> set (resolveChatIds c)
      \<and> ScSend \<in> effective (cc_effectiveScopes c) \<and> seen_active deps clk (cc_credentialId c) w"
proof (cases "validateSendMessage (pl_groupId p) (resolveScopes c) (resolveChatIds c)")
  case (Inl e)
  with assms(2) show ?thesis by (simp add: handleSendMessage_def)
next
  case valid: (Inr v)
  then have ok: "pl_groupId p \<in> set (resolveChatIds c)" "ScSend \<in> effective (cc_effectiveScopes c)"
    using send_allowed by blast+
  note same = assms(1) [unfolded sends_apart_def]
  let ?look = "service_lookup (hd_env deps) (hc_sweep clk) (hc_sweepEach clk) (hc_view clk)
    (cc_credentialId c) (ww_creds (hd_during_ready deps w))"
  show ?thesis
  proof (cases "hd_ready deps")
    case (Inl e)
    with assms(2) valid same show ?thesis by (auto simp: handleSendMessage_def Let_def)
  next
    case ready: (Inr u)
    obtain q s where look: "?look = (q, s)" by fastforce
    show ?thesis
    proof (cases "\<exists>fresh. q = Inr fresh \<and> sc_status fresh = StActive")
      case True
      then obtain fresh where fresh: "q = Inr fresh" "sc_status fresh = StActive" by blast
      with lookup_status [of "hd_env deps"] look
      have "seen_active deps clk (cc_credentialId c) w" unfolding seen_active_def by metis
      moreover have "ww_sent w' = ww_sent w @ [p]"
        using assms(2) valid ready look fresh same
        by (auto simp: handleSendMessage_def Let_def split: sum.splits)
      ultimately show ?thesis using ok by blast
    next
      case False
      with assms(2) valid ready look same have "ww_sent w' = ww_sent w"
        by (cases q) (auto simp: handleSendMessage_def Let_def)
      then show ?thesis ..
    qed
  qed
qed

text \<open>A confirmation that is in order takes the action out before anything is executed.\<close>

definition confirmable :: "handler_clock \<Rightarrow> contract_credential \<Rightarrow> 'c pending_action \<Rightarrow> bool" where
  "confirmable clk c pa \<longleftrightarrow>
     pa_credentialId pa = cc_credentialId c \<and> hc_now clk \<le> pa_expiresAt pa
     \<and> (pa_actionType pa = ''send_message'' \<longrightarrow>
          pl_groupId (pa_payload pa) \<in> set (resolveChatIds c)
          \<and> ScSend \<in> effective (cc_effectiveScopes c))"

abbreviation without_action :: "string \<Rightarrow> 'c ws_world \<Rightarrow> 'c ws_world" where
  "without_action i w \<equiv> w\<lparr>ww_pending := map_delete i (ww_pending w)\<rparr>"

lemma confirm_cases:
  assumes "hd_pending deps"
  obtains (absent) "map_get (ww_pending w) i = None"
      "handleConfirmAction deps clk i b c w = (Inl (NotFoundError ''PendingAction'' i), w)"
  | (foreign) pa e where "map_get (ww_pending w) i = Some pa"
      "pa_credentialId pa \<noteq> cc_credentialId c" "handleConfirmAction deps clk i b c w = (Inl e, w)"
  | (dropped) pa res x where "map_get (ww_pending w) i = Some pa"
      "pa_credentialId pa = cc_credentialId c" "\<not> (b \<and> confirmable clk c pa)"
      "handleConfirmAction deps clk i b c w = (res, (without_action i w)\<lparr>ww_expired := x\<rparr>)"
  | (executed) pa where "map_get (ww_pending w) i = Some pa" "b" "confirmable clk c pa"
      "handleConfirmAction deps clk i b c w = execute_action deps pa (without_action i w)"
proof (cases "map_get (ww_pending w) i")
  case None
  with assms show ?thesis by (intro absent) (simp_all add: handleConfirmAction_def pending_get_def)
next
  case (Some pa)
  note get = this
  have del: "snd (removeAndReturn i (ww_pending w)) = map_delete i (ww_pending w)"
    "removeAndReturn i (ww_pending w) = (Some pa, map_delete i (ww_pending w))"
    using get by (simp_all add: removeAndReturn_def)
  note simps = handleConfirmAction_def pending_get_def pending_deny_def pending_confirm_def Let_def
  let ?valid = "validateSendMessage (pl_groupId (pa_payload pa)) (resolveScopes c) (resolveChatIds c)"
  have valid: "(\<exists>v. ?valid = Inr v) \<longleftrightarrow> pl_groupId (pa_payload pa) \<in> set (resolveChatIds c)
      \<and> ScSend \<in> effective (cc_effectiveScopes c)" by (rule send_allowed)
  consider (other) "pa_credentialId pa \<noteq> cc_credentialId c"
    | (late) "pa_credentialId pa = cc_credentialId c" "pa_expiresAt pa < hc_now clk"
    | (no) "pa_credentialId pa = cc_credentialId c" "\<not> pa_expiresAt pa < hc_now clk" "\<not> b"
    | (bad) e where "pa_credentialId pa = cc_credentialId c" "\<not> pa_expiresAt pa < hc_now clk" "b"
        "pa_actionType pa = ''send_message''" "?valid = Inl e"
    | (good) "pa_credentialId pa = cc_credentialId c" "\<not> pa_expiresAt pa < hc_now clk" "b"
        "pa_actionType pa = ''send_message'' \<longrightarrow> (\<exists>v. ?valid = Inr v)"
    by (cases ?valid) auto
  then show ?thesis
  proof cases
    case other
    with assms get show ?thesis by (intro foreign [of pa]) (simp_all add: simps)
  next
    case late
    with assms get del show ?thesis
      by (intro dropped [of pa _ "ww_expired w @ [pa]"]) (simp_all add: simps confirmable_def)
  next
    case no
    with assms get del show ?thesis
      by (intro dropped [of pa _ "ww_expired w"]) (simp_all add: simps)
  next
    case bad
    with assms get del valid show ?thesis
      by (intro dropped [of pa _ "ww_expired w"]) (simp_all add: simps confirmable_def)
  next
    case good
    then have "confirmable clk c pa" using valid by (simp add: confirmable_def)
    moreover have "(if pa_actionType pa = ''send_message''
        then (case ?valid of Inl e \<Rightarrow> Some e | Inr _ \<Rightarrow> None) else None) = None"
      using good(4) by auto
    ultimately show ?thesis using assms get del good
      by (intro executed [of pa]) (simp_all add: simps)
  qed
qed

lemma execute_sent:
  assumes "sends_apart deps" and "execute_action deps pa w = (res, w')"
  shows "ww_sent w' = ww_sent w
    \<or> ww_sent w' = ww_sent w @ [pa_payload pa] \<and> pa_actionType pa = ''send_message''"
proof (cases "pa_actionType pa = ''send_message'' \<and> hd_ready deps = Inr ()")
  case True
  with assms show ?thesis
    by (auto simp: execute_action_def sends_apart_def Let_def split: sum.splits)
next
  case False
  with assms show ?thesis
    by (cases "hd_ready deps") (auto simp: execute_action_def sends_apart_def Let_def split: if_splits)
qed

lemma confirm_sent:
  assumes "sends_apart deps" and "handleConfirmAction deps clk i b c w = (res, w')"
  shows "ww_sent w' = ww_sent w
    \<or> (\<exists>pa. ww_sent w' = ww_sent w @ [pa_payload pa] \<and> map_get (ww_pending w) i = Some pa
         \<and> b \<and> confirmable clk c pa \<and> pa_actionType pa = ''send_message'')"
proof (cases "hd_pending deps")
  case True
  then show ?thesis
  proof (cases rule: confirm_cases [of deps w i clk b c])
    case (executed pa)
    with assms(2) have ex: "execute_action deps pa (without_action i w) = (res, w')" by simp
    from execute_sent [OF assms(1) ex] executed show ?thesis by auto
  qed (use assms(2) in auto)
qed (use assms(2) in \<open>simp add: handleConfirmAction_def\<close>)

lemma other_requests_send_nothing:
  assumes "sends_apart deps" and "\<And>p. req \<noteq> ReqSendMessage p" and "\<And>i b. req \<noteq> ReqConfirmAction i b"
  shows "ww_sent (snd (dispatch_request deps clk req c w)) = ww_sent w"
proof (cases req)
  case (ReqRevealContent r)
  have "ww_sent (hd_during_list deps v) = ww_sent v" for v using assms(1) by (simp add: sends_apart_def)
  with ReqRevealContent show ?thesis
    by (auto simp: handleRevealContent_def Let_def split: prod.split sum.split option.split)
next
  case (ReqUpdateScopes a d)
  then show ?thesis
    by (auto simp: handleUpdateScopes_def Let_def split: prod.split sum.split)
next
  case (ReqHeartbeat i)
  then show ?thesis by (auto simp: handleHeartbeat_def split: prod.split sum.split)
qed (use assms in auto)

section \<open>What a harness sees\<close>

lemma scope_resolved: "scope_name x \<in> set (resolveScopes c) \<longleftrightarrow> x \<in> effective (cc_effectiveScopes c)"
proof -
  have "scope_name x \<in> scope_name ` effective (cc_effectiveScopes c)
      \<longleftrightarrow> x \<in> effective (cc_effectiveScopes c)"
    by (rule inj_image_mem_iff) (simp add: inj_def)
  then show ?thesis by (simp add: resolveScopes_def)
qed

lemmas read_scopes = scope_resolved [of ScReadMessages, simplified]
  scope_resolved [of ScReadHistory, simplified]

text \<open>The grants a projection consults, and the chats it admits.\<close>

definition event_revealed ::
  "date_parser \<Rightarrow> int \<Rightarrow> (string \<Rightarrow> reveal_store option) \<Rightarrow> contract_credential \<Rightarrow>
   'c visible_event \<Rightarrow> bool" where
  "event_revealed parse_date now stores c e \<longleftrightarrow>
     (\<exists>store. stores (cc_credentialId c) = Some store
        \<and> isRevealed parse_date now (ve_messageId e) (ve_groupId e) (ve_threadId e)
            (ve_senderInboxId e) (ve_contentType e) (ve_sentAt e) store)"

definition event_chats :: "(string \<Rightarrow> string list) option \<Rightarrow> contract_credential \<Rightarrow> string list" where
  "event_chats getChatIds c =
     (case getChatIds of
        None \<Rightarrow> resolveChatIds c
      | Some f \<Rightarrow> if f (cc_credentialId c) = [] then resolveChatIds c else f (cc_credentialId c))"

lemma projectEvent_eq:
  "projectEvent pd now stores chats (MessageVisible e) c =
     (case projectMessage
         \<lparr>rm_messageId = ve_messageId e, rm_groupId = ve_groupId e,
          rm_senderInboxId = ve_senderInboxId e, rm_contentType = ve_contentType e,
          rm_content = ve_content e, rm_sentAt = ve_sentAt e,
          rm_threadId = ve_threadId e, rm_sealId = ve_sealId e,
          rm_isHistorical = Some (ve_visibility e = VHistorical)\<rparr>
         (resolveScopes c) (event_chats chats c) [ve_contentType e] (event_revealed pd now stores c e) of
        Drop \<Rightarrow> Withheld | Emit m \<Rightarrow> Projected m)"
proof -
  have "(case stores (cc_credentialId c) of None \<Rightarrow> False
        | Some store \<Rightarrow> isRevealed pd now (ve_messageId e) (ve_groupId e) (ve_threadId e)
            (ve_senderInboxId e) (ve_contentType e) (ve_sentAt e) store)
      = event_revealed pd now stores c e"
    by (simp add: event_revealed_def split: option.split)
  moreover have "(let configured = resolveChatIds c;
        resolved = (case chats of None \<Rightarrow> configured | Some f \<Rightarrow> f (cc_credentialId c))
      in if resolved \<noteq> [] then resolved else configured) = event_chats chats c"
    by (simp add: event_chats_def Let_def split: option.split)
  ultimately show ?thesis by (simp add: projectEvent_def Let_def)
qed

lemma projected_iff:
  "projectEvent pd now stores chats (MessageVisible e) c = Projected m \<longleftrightarrow>
     ve_groupId e \<in> set (event_chats chats c)
     \<and> (ScReadMessages \<in> effective (cc_effectiveScopes c) \<or> event_revealed pd now stores c e)
     \<and> (ve_visibility e = VHistorical \<longrightarrow> ScReadHistory \<in> effective (cc_effectiveScopes c))
     \<and> m = \<lparr>me_messageId = ve_messageId e, me_groupId = ve_groupId e,
            me_senderInboxId = ve_senderInboxId e, me_contentType = ve_contentType e,
            me_content = Some (ve_content e),
            me_visibility = (if ScReadMessages \<notin> effective (cc_effectiveScopes c) then VRevealed
                             else if ve_visibility e = VHistorical then VHistorical else VVisible),
            me_sentAt = ve_sentAt e, me_sealId = ve_sealId e, me_threadId = ve_threadId e\<rparr>"
proof -
  have "projectEvent pd now stores chats (MessageVisible e) c = Projected m \<longleftrightarrow>
      projectMessage
         \<lparr>rm_messageId = ve_messageId e, rm_groupId = ve_groupId e,
          rm_senderInboxId = ve_senderInboxId e, rm_contentType = ve_contentType e,
          rm_content = ve_content e, rm_sentAt = ve_sentAt e,
          rm_threadId = ve_threadId e, rm_sealId = ve_sealId e,
          rm_isHistorical = Some (ve_visibility e = VHistorical)\<rparr>
         (resolveScopes c) (event_chats chats c) [ve_contentType e] (event_revealed pd now stores c e)
       = Emit m"
    by (simp add: projectEvent_eq split: projection.split)
  then show ?thesis
    by (simp add: projectMessage_emits may_read_def read_scopes conj_assoc cong: if_cong)
qed

lemma projectEvent_other [simp]:
  "projectEvent pd now stores chats (MessageVisible e) c \<noteq> PassedOn y"
  "projectEvent pd now stores chats (OtherEvent x) c = PassedOn x"
  by (simp add: projectEvent_eq split: projection.split) (simp add: projectEvent_def)

lemma grantReveal_present:
  assumes "map_get (byId s) i = Some r"
  shows "\<exists>old. grantReveal i access q s = (Inr (), snd (grantReveal i access q s))
    \<and> map_get (revealStates (snd (grantReveal i access q s))) i
        = Some (old @ [\<lparr>re_access = access, re_request = q\<rparr>])"
  using assms
  by (cases "map_get (revealStates s) i")
    (simp_all add: grantReveal_def getRevealState_def reveal_record_def)

section \<open>Properties\<close>

text \<open>
  C2. A harness request hands at most one message to the core, and only with authority: the
  heartbeat is not stale, the chat is one of the credential's and the send scope is effective;
  the message is the requested one, and then the stored credential was seen active and
  unexpired after the core became ready, or the payload of an unexpired pending action of this
  very credential that the request confirms.
\<close>

theorem messages_leave_only_with_authority:
  assumes "sends_apart deps" and "handle_request deps clk req c w = (res, w')"
  shows "ww_sent w' = ww_sent w
    \<or> (\<exists>p. ww_sent w' = ww_sent w @ [p]
        \<and> pl_groupId p \<in> set (resolveChatIds c) \<and> ScSend \<in> effective (cc_effectiveScopes c)
        \<and> \<not> (hd_internal deps \<and> isHeartbeatStale (hd_env deps) (hc_stale clk) (cc_credentialId c)
               (ww_creds w) = Inr True)
        \<and> (req = ReqSendMessage p \<and> seen_active deps clk (cc_credentialId c) w
           \<or> (\<exists>i pa. req = ReqConfirmAction i True \<and> map_get (ww_pending w) i = Some pa
                \<and> pa_payload pa = p \<and> pa_credentialId pa = cc_credentialId c
                \<and> hc_now clk \<le> pa_expiresAt pa)))"
proof (cases "request_type req \<noteq> ''heartbeat'' \<and> hd_internal deps
    \<and> isHeartbeatStale (hd_env deps) (hc_stale clk) (cc_credentialId c) (ww_creds w) = Inr True")
  case True
  with assms(2) show ?thesis by (simp add: handle_request_def)
next
  case False
  with assms(2) have d: "dispatch_request deps clk req c w = (res, w')"
    by (simp only: handle_request_def if_False)
  show ?thesis
  proof (cases req)
    case (ReqSendMessage p)
    with d send_message_sent [OF assms(1)] False show ?thesis by auto
  next
    case (ReqConfirmAction i b)
    with d have "handleConfirmAction deps clk i b c w = (res, w')" by simp
    from confirm_sent [OF assms(1) this] ReqConfirmAction False show ?thesis
      by (auto simp: confirmable_def)
  qed (use d False other_requests_send_nothing [OF assms(1), of req clk c w] in auto)
qed

text \<open>
  A pending action is used at most once: however it was answered, and whatever ran in
  between without queueing it anew, a second confirmation by its credential finds nothing,
  sends nothing and changes nothing.
\<close>

theorem pending_action_used_once:
  assumes "hd_pending deps" and "map_get (ww_pending w) i = Some pa"
    and "pa_credentialId pa = cc_credentialId c"
    and "handleConfirmAction deps clk i b c w = (res, w1)"
    and "\<And>v. map_get (ww_pending v) i = None \<Longrightarrow> map_get (ww_pending (hd_during_ready deps v)) i = None"
  shows "handleConfirmAction deps clk' i b' c' w1 = (Inl (NotFoundError ''PendingAction'' i), w1)"
proof -
  have gone: "map_get (ww_pending w1) i = None"
    using assms(1)
  proof (cases rule: confirm_cases [of deps w i clk b c])
    case (executed pa')
    have "map_get (ww_pending (snd (execute_action deps pa' (without_action i w)))) i = None"
      using assms(5) [of "without_action i w"]
      by (auto simp: execute_action_def Let_def split: sum.split)
    with executed assms(4) show ?thesis by simp
  qed (use assms in auto)
  show ?thesis
    by (cases rule: confirm_cases [OF assms(1), of w1 i clk' b' c']) (use gone in simp_all)
qed

text \<open>
  C35. The two ways to send a message treat a revocation during the wait for the core
  differently: \<open>send_message\<close> looks the credential up again and sends nothing unless it is
  active; a confirmed action is sent whatever has become of the credential.
\<close>

theorem confirmation_ignores_revocation:
  assumes "hd_pending deps" and "hd_ready deps = Inr ()" and "sends_apart deps"
    and "map_get (ww_pending w) i = Some pa" and "pa_actionType pa = ''send_message''"
    and "pa_credentialId pa = cc_credentialId c" and "hc_now clk \<le> pa_expiresAt pa"
    and "pl_groupId (pa_payload pa) \<in> set (resolveChatIds c)"
    and "ScSend \<in> effective (cc_effectiveScopes c)"
    and "\<not> seen_active deps clk (cc_credentialId c) w"
  shows "ww_sent (snd (handleSendMessage deps clk (pa_payload pa) c w)) = ww_sent w
    \<and> ww_sent (snd (handleConfirmAction deps clk i True c w)) = ww_sent w @ [pa_payload pa]"
proof
  show "ww_sent (snd (handleSendMessage deps clk (pa_payload pa) c w)) = ww_sent w"
    using send_message_sent [OF assms(3) surjective_pairing] assms(10) by blast
  have ok: "confirmable clk c pa" using assms(6-9) by (simp add: confirmable_def)
  show "ww_sent (snd (handleConfirmAction deps clk i True c w)) = ww_sent w @ [pa_payload pa]"
    using assms(1)
  proof (cases rule: confirm_cases [of deps w i clk True c])
    case (executed pa')
    with assms(2-5) show ?thesis
      by (auto simp: execute_action_def Let_def sends_apart_def split: sum.split)
  qed (use assms ok in auto)
qed

text \<open>
  The projector lets a message through exactly when its chat is one of the credential's (or
  of the narrower run-time list), it may be read or a grant covers it, and history is readable
  if it is historical; then the content is the original one. Other events pass unchanged.
\<close>

theorem event_projection_exact:
  "(projectEvent pd now stores chats (MessageVisible e) c = Projected m \<longleftrightarrow>
      ve_groupId e \<in> set (event_chats chats c)
      \<and> (ScReadMessages \<in> effective (cc_effectiveScopes c) \<or> event_revealed pd now stores c e)
      \<and> (ve_visibility e \<noteq> VHistorical \<or> ScReadHistory \<in> effective (cc_effectiveScopes c))
      \<and> m = \<lparr>me_messageId = ve_messageId e, me_groupId = ve_groupId e,
             me_senderInboxId = ve_senderInboxId e, me_contentType = ve_contentType e,
             me_content = Some (ve_content e),
             me_visibility = (if ScReadMessages \<notin> effective (cc_effectiveScopes c) then VRevealed
                              else if ve_visibility e = VHistorical then VHistorical else VVisible),
             me_sentAt = ve_sentAt e, me_sealId = ve_sealId e, me_threadId = ve_threadId e\<rparr>)
   \<and> projectEvent pd now stores chats (MessageVisible e) c \<noteq> PassedOn y
   \<and> projectEvent pd now stores chats (OtherEvent x) c = PassedOn x"
  unfolding projected_iff by auto

text \<open>
  C36. A harness grants itself reveals: a \<open>reveal_content\<close> request is honoured at once, in the
  name of whatever inbox it states, for any stored credential. A credential that may not read
  messages is shown none of them before, and after asking for a content type without an expiry
  it is shown the full content of every message of that type in the chat.
\<close>

theorem self_granted_reveal_discloses:
  assumes "hd_internal deps" and "hd_listMessages deps = None"
    and "map_get (byId (ww_creds w)) (cc_credentialId c) = Some r"
    and "ScReadMessages \<notin> effective (cc_effectiveScopes c)"
    and "map_get (revealStates (ww_creds w)) (cc_credentialId c) = None"
    and "rr_scope q = RevContentType" and "rr_expiresAt q = None"
    and "rr_groupId q \<in> set (resolveChatIds c)"
    and "ve_groupId e = rr_groupId q" and "ve_contentType e = rr_targetId q"
    and "ve_visibility e = VVisible"
    and "handleRevealContent deps clk q c w = (res, w')"
  shows "projectEvent pd now (map_get (revealStates (ww_creds w))) None (MessageVisible e) c = Withheld
    \<and> res = Inr (RespAccess \<lparr>ra_revealId = rr_revealId q, ra_grantedAt = hc_now clk,
                ra_grantedBy = rr_requestedBy q, ra_expiresAt = None\<rparr>)
    \<and> (\<exists>m. projectEvent pd now (map_get (revealStates (ww_creds w'))) None (MessageVisible e) c
             = Projected m \<and> me_content m = Some (ve_content e))"
proof -
  let ?a = "\<lparr>ra_revealId = rr_revealId q, ra_grantedAt = hc_now clk,
      ra_grantedBy = rr_requestedBy q, ra_expiresAt = rr_expiresAt q\<rparr>"
  from grantReveal_present [OF assms(3), of ?a q] obtain old where
    grant: "grantReveal (cc_credentialId c) ?a q (ww_creds w)
        = (Inr (), snd (grantReveal (cc_credentialId c) ?a q (ww_creds w)))"
    and stored: "map_get (revealStates (snd (grantReveal (cc_credentialId c) ?a q (ww_creds w))))
        (cc_credentialId c) = Some (old @ [\<lparr>re_access = ?a, re_request = q\<rparr>])" by blast
  have res: "res = Inr (RespAccess ?a)"
    and w': "ww_creds w' = snd (grantReveal (cc_credentialId c) ?a q (ww_creds w))"
    using assms(1,2,12) grant by (auto simp: handleRevealContent_def Let_def split: prod.splits sum.splits)
  have "event_revealed pd now (map_get (revealStates (ww_creds w'))) c e"
    unfolding event_revealed_def w' stored
    using assms(6,7,9,10) by (auto simp: isRevealed_iff entry_expired_def)
  then have after: "projectEvent pd now (map_get (revealStates (ww_creds w'))) None (MessageVisible e) c
      = Projected m \<Longrightarrow> me_content m = Some (ve_content e)"
    "\<exists>m. projectEvent pd now (map_get (revealStates (ww_creds w'))) None (MessageVisible e) c
      = Projected m" for m
    using assms(8,9,11) by (auto simp: projected_iff event_chats_def)
  have "projectEvent pd now (map_get (revealStates (ww_creds w))) None (MessageVisible e) c \<noteq> Projected m" for m
    using assms(4,5) by (simp add: projected_iff event_revealed_def)
  moreover have "projectEvent pd now (map_get (revealStates (ww_creds w))) None (MessageVisible e) c
      \<noteq> PassedOn y" for y by simp
  ultimately have "projectEvent pd now (map_get (revealStates (ww_creds w))) None (MessageVisible e) c
      = Withheld" by (metis projected_event.exhaust)
  with res after assms(7) show ?thesis by auto
qed

text \<open>
  Witnesses, over the demonstration store: \<open>cred_c\<close> is active, \<open>cred_a\<close> was revoked to make room
  for it.
\<close>

definition demo_view :: "string \<Rightarrow> contract_credential" where
  "demo_view i =
     \<lparr>sc_id = i, sc_config = \<lparr>cfg_operatorId = ''op_1'', cfg_chatIds = [''conv_1''],
        cfg_policyId = None, cfg_allow = Some [ScSend], cfg_deny = Some [], cfg_ttlSeconds = None\<rparr>,
      sc_inboxIds = [], sc_status = StActive, sc_issuedAt = 1000, sc_expiresAt = 3601000,
      sc_issuedBy = ''owner'', cc_credentialId = i, cc_operatorId = ''op_1'',
      cc_effectiveScopes = \<lparr>allow = [ScSend], deny = []\<rparr>, cc_isExpired = False,
      cc_lastHeartbeat = 1000\<rparr>"

definition demo_deps :: "(string, unit) handler_deps" where
  "demo_deps =
     \<lparr>hd_env = demo_env, hd_parse_date = (\<lambda>_. None), hd_internal = True, hd_pending = True,
      hd_ready = Inr (), hd_during_ready = (\<lambda>w. w), hd_during_lookup = (\<lambda>w. w),
      hd_send = (\<lambda>_. Inr ''msg''), hd_seal = None, hd_binding = None, hd_listMessages = None,
      hd_during_list = (\<lambda>w. w), hd_broadcast = True\<rparr>"

definition demo_clock :: handler_clock where
  "demo_clock =
     \<lparr>hc_stale = 4000, hc_sweep = 4000, hc_sweepEach = (\<lambda>_. 4000), hc_view = 4000, hc_now = 4000,
      hc_reveal = (\<lambda>_. 4000)\<rparr>"

definition demo_payload :: "string send_payload" where
  "demo_payload = \<lparr>pl_groupId = ''conv_1'', pl_contentType = ''text'', pl_content = ''hello''\<rparr>"

definition demo_action :: "string \<Rightarrow> string pending_action" where
  "demo_action i =
     \<lparr>pa_actionId = ''act_1'', pa_credentialId = i, pa_actionType = ''send_message'',
      pa_payload = demo_payload, pa_createdAt = 3500, pa_expiresAt = 9000\<rparr>"

definition demo_world :: "string \<Rightarrow> string ws_world" where
  "demo_world i =
     \<lparr>ww_creds = demo_store 3, ww_pending = pending_add (demo_action i) [], ww_sent = [],
      ww_events = [], ww_expired = []\<rparr>"

lemma demo_deps_simps [simp]:
  "hd_internal demo_deps" "hd_pending demo_deps" "hd_ready demo_deps = Inr ()"
  "hd_during_ready demo_deps w = w" "hd_listMessages demo_deps = None" "sends_apart demo_deps"
  by (simp_all add: demo_deps_def sends_apart_def)

lemma demo_view_simps [simp]:
  "cc_credentialId (demo_view i) = i" "resolveChatIds (demo_view i) = [''conv_1'']"
  "effective (cc_effectiveScopes (demo_view i)) = {ScSend}"
  by (simp_all add: demo_view_def resolveChatIds_def effective_def)

lemma demo_pending: "map_get (ww_pending (demo_world i)) ''act_1'' = Some (demo_action i)"
  by (simp add: demo_world_def pending_add_def demo_action_def)

theorem messages_leave_only_with_authority_witness:
  "ww_sent (snd (handle_request demo_deps demo_clock (ReqSendMessage demo_payload)
       (demo_view ''cred_c'') (demo_world ''cred_c''))) = [demo_payload]
   \<and> seen_active demo_deps demo_clock ''cred_c'' (demo_world ''cred_c'')"
proof -
  let ?r = "handle_request demo_deps demo_clock (ReqSendMessage demo_payload)
       (demo_view ''cred_c'') (demo_world ''cred_c'')"
  have sent: "ww_sent (snd ?r) = [demo_payload]" by code_simp
  have "ww_sent (demo_world ''cred_c'') = []" by (simp add: demo_world_def)
  with messages_leave_only_with_authority [OF demo_deps_simps(6) surjective_pairing, of demo_clock
      "ReqSendMessage demo_payload" "demo_view ''cred_c''" "demo_world ''cred_c''"] sent
  show ?thesis by auto
qed

theorem pending_action_used_once_witness:
  "let (res, w) = handleConfirmAction demo_deps demo_clock ''act_1'' True (demo_view ''cred_c'')
         (demo_world ''cred_c'')
   in ww_sent w = [demo_payload]
      \<and> handleConfirmAction demo_deps demo_clock ''act_1'' True (demo_view ''cred_c'') w
          = (Inl (NotFoundError ''PendingAction'' ''act_1''), w)"
proof -
  let ?r = "handleConfirmAction demo_deps demo_clock ''act_1'' True (demo_view ''cred_c'')
         (demo_world ''cred_c'')"
  have "ww_sent (snd ?r) = [demo_payload]" by code_simp
  moreover have own: "pa_credentialId (demo_action ''cred_c'') = cc_credentialId (demo_view ''cred_c'')"
    by (simp add: demo_action_def)
  have "handleConfirmAction demo_deps demo_clock ''act_1'' True (demo_view ''cred_c'') (snd ?r)
      = (Inl (NotFoundError ''PendingAction'' ''act_1''), snd ?r)"
    by (rule pending_action_used_once [OF demo_deps_simps(2) demo_pending own surjective_pairing])
      (simp only: demo_deps_simps)
  ultimately show ?thesis by (simp only: case_prod_unfold Let_def)
qed

theorem confirmation_ignores_revocation_witness:
  "map_option cr_status (map_get (byId (demo_store 3)) ''cred_a'') = Some StRevoked
   \<and> ww_sent (snd (handleConfirmAction demo_deps demo_clock ''act_1'' True (demo_view ''cred_a'')
       (demo_world ''cred_a''))) = [demo_payload]"
proof -
  have st: "map_option cr_status (map_get (byId (snd (sweepExpired demo_env 4000 (\<lambda>_. 4000)
      (demo_store 3)))) ''cred_a'') = Some StRevoked" by code_simp
  have gone: "\<not> seen_active demo_deps demo_clock (cc_credentialId (demo_view ''cred_a''))
      (demo_world ''cred_a'')"
    using st by (auto simp: seen_active_def demo_deps_def demo_clock_def demo_world_def)
  have "ww_sent (snd (handleConfirmAction demo_deps demo_clock ''act_1'' True (demo_view ''cred_a'')
       (demo_world ''cred_a''))) = ww_sent (demo_world ''cred_a'') @ [pa_payload (demo_action ''cred_a'')]"
    by (rule confirmation_ignores_revocation
        [OF demo_deps_simps(2,3,6) demo_pending _ _ _ _ _ gone, THEN conjunct2])
      (simp_all add: demo_action_def demo_payload_def demo_clock_def)
  moreover have "map_option cr_status (map_get (byId (demo_store 3)) ''cred_a'') = Some StRevoked"
    by code_simp
  ultimately show ?thesis by (simp add: demo_world_def demo_action_def)
qed

definition demo_reveal :: reveal_request where
  "demo_reveal =
     \<lparr>rr_revealId = ''rev_1'', rr_groupId = ''conv_1'', rr_scope = RevContentType,
      rr_targetId = ''text'', rr_requestedBy = ''anyone'', rr_expiresAt = None\<rparr>"

definition demo_event :: "string visible_event" where
  "demo_event =
     \<lparr>ve_messageId = ''m1'', ve_groupId = ''conv_1'', ve_senderInboxId = ''inbox'',
      ve_contentType = ''text'', ve_content = ''secret'', ve_visibility = VVisible,
      ve_sentAt = ''now'', ve_sealId = None, ve_threadId = None\<rparr>"

theorem self_granted_reveal_discloses_witness:
  "\<exists>w' m. snd (handleRevealContent demo_deps demo_clock demo_reveal (demo_view ''cred_a'')
        (demo_world ''cred_a'')) = w'
    \<and> (projectEvent (\<lambda>_. None) 5000 (map_get (revealStates (ww_creds w'))) None
         (MessageVisible demo_event) (demo_view ''cred_a'') :: (string, unit) projected_event) = Projected m
    \<and> me_content m = Some ''secret''"
proof -
  obtain r where r: "map_get (byId (ww_creds (demo_world ''cred_a''))) (cc_credentialId (demo_view ''cred_a''))
      = Some r"
  proof -
    have "map_get (byId (demo_store 3)) ''cred_a'' \<noteq> None" by code_simp
    with that show ?thesis by (auto simp: demo_world_def)
  qed
  have none: "map_get (revealStates (ww_creds (demo_world ''cred_a''))) (cc_credentialId (demo_view ''cred_a''))
      = None" by code_simp
  have "\<exists>m. (projectEvent (\<lambda>_. None) 5000 (map_get (revealStates (ww_creds (snd
        (handleRevealContent demo_deps demo_clock demo_reveal (demo_view ''cred_a'')
          (demo_world ''cred_a'')))))) None
         (MessageVisible demo_event) (demo_view ''cred_a'') :: (string, unit) projected_event) = Projected m
      \<and> me_content m = Some (ve_content demo_event)"
    by (rule self_granted_reveal_discloses [OF demo_deps_simps(1,5) r _ none _ _ _ _ _ _
          surjective_pairing, THEN conjunct2, THEN conjunct2])
      (simp_all add: demo_reveal_def demo_event_def)
  then show ?thesis by (auto simp: demo_event_def)
qed

end
