(* ===== verification/ReplayBuffer.thy ===== *)
theory ReplayBuffer
  imports Prelude
begin

text \<open>
  packages/ws/src/replay-buffer.ts and event-broadcaster.ts: the circular buffer of sequenced
  frames that a credential keeps for its harness to resume from, and the numbering of frames.

  The array of the buffer is a list of options of the length \<open>cap\<close>, \<open>None\<close> for \<open>undefined\<close>; an
  index is taken modulo the capacity as in the code, so no access is out of range when the
  capacity is positive, which the configuration schema demands. The locale \<open>bounded_log\<close> is the
  contract the server relies on: a log that keeps the last \<open>cap\<close> items.
\<close>

section \<open>The circular buffer\<close>

record 'a circular_buffer =
  cb_cap :: nat
  cb_buffer :: "'a option list"
  cb_head :: nat
  cb_count :: nat

definition new_buffer :: "nat \<Rightarrow> 'a circular_buffer" where
  "new_buffer cap = \<lparr>cb_cap = cap, cb_buffer = replicate cap None, cb_head = 0, cb_count = 0\<rparr>"

definition buffer_push :: "'a \<Rightarrow> 'a circular_buffer \<Rightarrow> 'a circular_buffer" where
  "buffer_push item b =
     b\<lparr>cb_buffer := (cb_buffer b)[cb_head b := Some item],
       cb_head := (cb_head b + 1) mod cb_cap b,
       cb_count := (if cb_count b < cb_cap b then cb_count b + 1 else cb_count b)\<rparr>"

definition buffer_start :: "'a circular_buffer \<Rightarrow> nat" where
  "buffer_start b = (if cb_count b < cb_cap b then 0 else cb_head b)"

definition buffer_oldest :: "'a circular_buffer \<Rightarrow> 'a option" where
  "buffer_oldest b = (if cb_count b = 0 then None else cb_buffer b ! buffer_start b)"

text \<open>The loop over \<open>i\<close> from 0 to \<open>count\<close>.\<close>

definition buffer_slots :: "'a circular_buffer \<Rightarrow> 'a option list" where
  "buffer_slots b =
     map (\<lambda>i. cb_buffer b ! ((buffer_start b + i) mod cb_cap b)) [0..<cb_count b]"

definition itemsSince :: "('a \<Rightarrow> bool) \<Rightarrow> 'a circular_buffer \<Rightarrow> 'a list" where
  "itemsSince predicate b =
     List.map_filter (\<lambda>slot. case slot of None \<Rightarrow> None
                             | Some item \<Rightarrow> if predicate item then Some item else None)
       (buffer_slots b)"

definition buffer_toArray :: "'a circular_buffer \<Rightarrow> 'a list" where
  "buffer_toArray b = List.map_filter id (buffer_slots b)"

definition buffer_clear :: "'a circular_buffer \<Rightarrow> 'a circular_buffer" where
  "buffer_clear b =
     b\<lparr>cb_buffer := map (\<lambda>_. None) (cb_buffer b), cb_head := 0, cb_count := 0\<rparr>"

section \<open>Refinement to the last items pushed\<close>

definition last_items :: "nat \<Rightarrow> 'a list \<Rightarrow> 'a list" where
  "last_items n xs = drop (length xs - n) xs"

text \<open>\<open>buffer_holds b xs\<close>: the buffer is well formed and holds \<open>xs\<close>, oldest first.\<close>

definition buffer_holds :: "'a circular_buffer \<Rightarrow> 'a list \<Rightarrow> bool" where
  "buffer_holds b xs \<longleftrightarrow>
     0 < cb_cap b \<and> length (cb_buffer b) = cb_cap b \<and> cb_count b = length xs
     \<and> length xs \<le> cb_cap b \<and> cb_head b < cb_cap b
     \<and> (length xs < cb_cap b \<longrightarrow> cb_head b = length xs)
     \<and> (\<forall>i < length xs. cb_buffer b ! ((buffer_start b + i) mod cb_cap b) = Some (xs ! i))"

lemma holds_new: "0 < cap \<Longrightarrow> buffer_holds (new_buffer cap) []"
  by (simp add: buffer_holds_def new_buffer_def)

lemma holds_slots: "buffer_holds b xs \<Longrightarrow> buffer_slots b = map Some xs"
  by (auto simp: buffer_holds_def buffer_slots_def intro: nth_equalityI)

lemma holds_items: "buffer_holds b xs \<Longrightarrow> itemsSince P b = filter P xs"
proof -
  assume "buffer_holds b xs"
  then have "buffer_slots b = map Some xs" by (rule holds_slots)
  moreover have "List.map_filter (\<lambda>slot. case slot of None \<Rightarrow> None
      | Some item \<Rightarrow> if P item then Some item else None) (map Some xs) = filter P xs"
    by (induction xs) (simp_all add: List.map_filter_simps)
  ultimately show ?thesis by (simp add: itemsSince_def)
qed

lemma holds_array: "buffer_holds b xs \<Longrightarrow> buffer_toArray b = xs"
proof -
  assume "buffer_holds b xs"
  then have "buffer_slots b = map Some xs" by (rule holds_slots)
  moreover have "List.map_filter id (map Some xs) = xs"
    by (induction xs) (simp_all add: List.map_filter_simps)
  ultimately show ?thesis by (simp add: buffer_toArray_def)
qed

lemma holds_oldest:
  assumes "buffer_holds b xs"
  shows "buffer_oldest b = (case xs of [] \<Rightarrow> None | x # _ \<Rightarrow> Some x)"
proof (cases xs)
  case (Cons x rest)
  with assms have "cb_buffer b ! ((buffer_start b + 0) mod cb_cap b) = Some (xs ! 0)"
    unfolding buffer_holds_def by blast
  moreover have "buffer_start b < cb_cap b"
    using assms by (auto simp: buffer_holds_def buffer_start_def)
  ultimately show ?thesis using Cons assms by (simp add: buffer_oldest_def buffer_holds_def)
qed (use assms in \<open>simp add: buffer_oldest_def buffer_holds_def\<close>)

lemma holds_clear: "buffer_holds b xs \<Longrightarrow> buffer_holds (buffer_clear b) []"
  by (simp add: buffer_holds_def buffer_clear_def)

lemma mod_add_less: "(i::nat) < n \<Longrightarrow> j < n \<Longrightarrow> (i + j) mod n = (if i + j < n then i + j else i + j - n)"
  by (simp add: mod_if)

lemma holds_push:
  assumes "buffer_holds b xs"
  shows "buffer_holds (buffer_push x b) (last_items (cb_cap b) (xs @ [x]))"
proof (cases "length xs < cb_cap b")
  case True
  with assms have b: "cb_head b = length xs" "length (cb_buffer b) = cb_cap b" "cb_count b = length xs"
    and slot: "\<And>i. i < length xs \<Longrightarrow> cb_buffer b ! i = Some (xs ! i)"
    by (auto simp: buffer_holds_def buffer_start_def)
  have last: "last_items (cb_cap b) (xs @ [x]) = xs @ [x]" using True by (simp add: last_items_def)
  show ?thesis
  proof (cases "length xs + 1 < cb_cap b")
    case True
    with b slot show ?thesis
      unfolding last by (auto simp: buffer_holds_def buffer_push_def buffer_start_def nth_append nth_list_update
          less_Suc_eq)
  next
    case False
    with True have "cb_cap b = Suc (length xs)" by simp
    with b slot show ?thesis
      unfolding last by (auto simp: buffer_holds_def buffer_push_def buffer_start_def nth_append nth_list_update
          less_Suc_eq)
  qed
next
  case False
  with assms have b: "length xs = cb_cap b" "length (cb_buffer b) = cb_cap b" "cb_count b = cb_cap b"
    "cb_head b < cb_cap b" "0 < cb_cap b"
    and slot: "\<And>i. i < cb_cap b \<Longrightarrow> cb_buffer b ! ((cb_head b + i) mod cb_cap b) = Some (xs ! i)"
    by (auto simp: buffer_holds_def buffer_start_def)
  have last: "last_items (cb_cap b) (xs @ [x]) = tl xs @ [x]"
    using b(1,5) by (cases xs) (simp_all add: last_items_def)
  have "(cb_buffer b)[cb_head b := Some x] ! (((cb_head b + 1) mod cb_cap b + i) mod cb_cap b)
      = Some ((tl xs @ [x]) ! i)" if i: "i < cb_cap b" for i
  proof -
    have idx: "((cb_head b + 1) mod cb_cap b + i) mod cb_cap b = (cb_head b + Suc i) mod cb_cap b"
      by (simp add: mod_add_left_eq)
    show ?thesis
    proof (cases "Suc i < cb_cap b")
      case True
      then have ne: "(cb_head b + Suc i) mod cb_cap b \<noteq> cb_head b"
        using b(4) unfolding mod_add_less [OF b(4) True] by auto
      from True b(1) have "i < length (tl xs)" by simp
      then have "(tl xs @ [x]) ! i = xs ! Suc i" by (simp add: nth_append nth_tl)
      with slot [OF True] ne show ?thesis unfolding idx by simp
    next
      case False
      with i have i': "Suc i = cb_cap b" by simp
      with b(1) have "i = length (tl xs)" by simp
      then have "(tl xs @ [x]) ! i = x" by (simp only: nth_append_length)
      moreover note i'
      ultimately show ?thesis unfolding idx using b(2,4) by simp
    qed
  qed
  with b show ?thesis
    unfolding last by (auto simp: buffer_holds_def buffer_push_def buffer_start_def)
qed

section \<open>The contract of a replay log\<close>

text \<open>
  A log of a fixed positive capacity: \<open>holds\<close> relates it to what it contains. Numbered frames
  pushed one after the other then stay a gapless run of numbers, and asking for what follows a
  number yields exactly that.
\<close>

record 'e sequenced_frame =
  sf_seq :: nat
  sf_event :: 'e

definition gapless :: "nat \<Rightarrow> 'e sequenced_frame list \<Rightarrow> bool" where
  "gapless next xs \<longleftrightarrow> length xs < next \<and> map sf_seq xs = [next - length xs..<next]"

locale bounded_log =
  fixes cap :: nat
    and holds :: "'l \<Rightarrow> 'e sequenced_frame list \<Rightarrow> bool"
    and push :: "'e sequenced_frame \<Rightarrow> 'l \<Rightarrow> 'l"
    and oldest :: "'l \<Rightarrow> 'e sequenced_frame option"
    and since :: "('e sequenced_frame \<Rightarrow> bool) \<Rightarrow> 'l \<Rightarrow> 'e sequenced_frame list"
  assumes cap_pos: "0 < cap"
    and holds_push: "holds l xs \<Longrightarrow> holds (push x l) (last_items cap (xs @ [x]))"
    and holds_oldest: "holds l xs \<Longrightarrow> oldest l = (case xs of [] \<Rightarrow> None | x # _ \<Rightarrow> Some x)"
    and holds_since: "holds l xs \<Longrightarrow> since P l = filter P xs"
begin

definition log_ok :: "nat \<Rightarrow> 'l \<Rightarrow> bool" where
  "log_ok next l \<longleftrightarrow> (\<exists>xs. holds l xs \<and> gapless next xs \<and> (xs = [] \<longrightarrow> next = 1))"

lemma gapless_push:
  assumes "gapless next xs" and "sf_seq x = next"
  shows "gapless (Suc next) (last_items cap (xs @ [x]))"
proof -
  have "map sf_seq (xs @ [x]) = [next - length xs..<Suc next]"
    using assms by (simp add: gapless_def)
  moreover have "map sf_seq (last_items cap ys) = drop (length ys - cap) (map sf_seq ys)" for ys
    by (simp add: last_items_def drop_map)
  ultimately have "map sf_seq (last_items cap (xs @ [x]))
      = drop (Suc (length xs) - cap) [next - length xs..<Suc next]"
    by (metis length_append_singleton)
  also have "\<dots> = [next - length xs + (Suc (length xs) - cap)..<Suc next]"
    by (rule drop_upt)
  also have "next - length xs + (Suc (length xs) - cap) = Suc next - length (last_items cap (xs @ [x]))"
    using assms(1) cap_pos by (simp add: gapless_def last_items_def)
  finally show ?thesis using assms(1) by (auto simp: gapless_def last_items_def)
qed

lemma log_ok_push: "log_ok next l \<Longrightarrow> sf_seq x = next \<Longrightarrow> log_ok (Suc next) (push x l)"
proof -
  assume "log_ok next l" and x: "sf_seq x = next"
  then obtain xs where "holds l xs" "gapless next xs" by (auto simp: log_ok_def)
  moreover have "last_items cap (xs @ [x]) \<noteq> []" using cap_pos by (simp add: last_items_def)
  ultimately show ?thesis unfolding log_ok_def using holds_push gapless_push x by blast
qed

text \<open>What is replayed is complete, unless the log says that it no longer goes back far enough.\<close>

lemma replay_complete:
  assumes "log_ok next l" and "lastSeen < next"
    and "\<And>f. oldest l = Some f \<Longrightarrow> sf_seq f \<le> lastSeen + 1"
  shows "map sf_seq (since (\<lambda>f. sf_seq f > lastSeen) l) = [lastSeen + 1..<next]"
proof -
  from assms(1) obtain xs where xs: "holds l xs" "gapless next xs" "xs = [] \<longrightarrow> next = 1"
    by (auto simp: log_ok_def)
  have low: "next - length xs \<le> lastSeen + 1"
  proof (cases xs)
    case Nil
    with xs(3) show ?thesis by simp
  next
    case (Cons x rest)
    then have "oldest l = Some x" using holds_oldest [OF xs(1)] by simp
    moreover have "sf_seq x = next - length xs" 
      using xs(2) Cons by (auto simp: gapless_def upt_conv_Cons)
    ultimately show ?thesis using assms(3) by auto
  qed
  have split: "[next - length xs..<next] = [next - length xs..<lastSeen + 1] @ [lastSeen + 1..<next]"
    using upt_add_eq_append [OF low, of "next - (lastSeen + 1)"] assms(2) by simp
  have "map sf_seq (since (\<lambda>f. sf_seq f > lastSeen) l) = map sf_seq (filter (\<lambda>f. sf_seq f > lastSeen) xs)"
    using holds_since [OF xs(1)] by simp
  also have "\<dots> = filter (\<lambda>n. lastSeen < n) (map sf_seq xs)"
    by (simp add: filter_map comp_def)
  also have "\<dots> = filter (\<lambda>n. lastSeen < n) [next - length xs..<next]"
    using xs(2) by (simp only: gapless_def)
  also have "\<dots> = [lastSeen + 1..<next]"
    unfolding split by (auto simp: filter_empty_conv filter_id_conv)
  finally show ?thesis .
qed

end

definition cap_holds :: "nat \<Rightarrow> 'a circular_buffer \<Rightarrow> 'a list \<Rightarrow> bool" where
  "cap_holds cap b xs \<longleftrightarrow> cb_cap b = Suc cap \<and> buffer_holds b xs"

lemma push_cap [simp]: "cb_cap (buffer_push x b) = cb_cap b"
  by (simp add: buffer_push_def)

interpretation ring: bounded_log "Suc cap" "cap_holds cap" buffer_push buffer_oldest itemsSince for cap
proof unfold_locales
  show "0 < Suc cap" by simp
  fix l :: "'a sequenced_frame circular_buffer" and xs :: "'a sequenced_frame list"
    and x :: "'a sequenced_frame" and P
  assume l: "cap_holds cap l xs"
  then show "cap_holds cap (buffer_push x l) (last_items (Suc cap) (xs @ [x]))"
    using holds_push [of l xs x] by (simp add: cap_holds_def)
  from l show "buffer_oldest l = (case xs of [] \<Rightarrow> None | x # _ \<Rightarrow> Some x)"
    by (simp add: cap_holds_def holds_oldest)
  from l show "itemsSince P l = filter P xs" by (simp add: cap_holds_def holds_items)
qed

section \<open>Numbering frames\<close>

record 'e replay_state =
  rs_buffer :: "'e sequenced_frame circular_buffer"
  rs_nextSeq :: nat

definition new_replay_state :: "nat \<Rightarrow> 'e replay_state" where
  "new_replay_state replayBufferSize = \<lparr>rs_buffer = new_buffer replayBufferSize, rs_nextSeq = 1\<rparr>"

definition sequenceEvent :: "'e replay_state \<Rightarrow> 'e \<Rightarrow> 'e sequenced_frame \<times> 'e replay_state" where
  "sequenceEvent st event =
     (let frame = \<lparr>sf_seq = rs_nextSeq st, sf_event = event\<rparr>
      in (frame, st\<lparr>rs_nextSeq := rs_nextSeq st + 1, rs_buffer := buffer_push frame (rs_buffer st)\<rparr>))"

definition replay_ok :: "nat \<Rightarrow> 'e replay_state \<Rightarrow> bool" where
  "replay_ok cap st \<longleftrightarrow> ring.log_ok cap (rs_nextSeq st) (rs_buffer st)"

lemma replay_ok_new: "replay_ok cap (new_replay_state (Suc cap))"
  unfolding replay_ok_def ring.log_ok_def new_replay_state_def
  by (rule exI [of _ "[]"]) (simp add: cap_holds_def holds_new gapless_def, simp add: new_buffer_def)

lemma replay_ok_sequence: "replay_ok cap st \<Longrightarrow> replay_ok cap (snd (sequenceEvent st e))"
  by (simp add: replay_ok_def sequenceEvent_def Let_def ring.log_ok_push)

end
