(* ===== verification/WsServer.thy ===== *)
theory WsServer
  imports CredentialService ReplayBuffer
begin

text \<open>
  packages/ws/src: the connection state machine, backpressure, the registry and the server that
  authenticates harnesses, routes their requests and broadcasts events to them.

  A handler that awaits is cut at its awaits: \<open>auth_begin\<close>, \<open>auth_lookup\<close> and \<open>auth_finish\<close> are
  the three stretches of \<open>handleAuthFrame\<close>, and so on; whatever the model runs between two of
  them is what the event loop may run there. A connection keeps the frames handed to its socket
  in \<open>cn_outbox\<close> and the codes it was closed with in \<open>cn_closeCodes\<close>; that the socket is closed
  is a later call of \<open>on_close\<close>. The result of \<open>ws.send\<close> for the n-th frame of a connection is
  \<open>sv_wire\<close>. What zod, the token lookup, the credential lookup, the request handler and the
  projector answer are arguments.
\<close>

section \<open>Connection phases\<close>

datatype connection_phase = Authenticating | PhActive | Draining | PhClosed

fun VALID_TRANSITIONS :: "connection_phase \<Rightarrow> connection_phase list" where
  "VALID_TRANSITIONS Authenticating = [PhActive, PhClosed]"
| "VALID_TRANSITIONS PhActive = [Draining, PhClosed]"
| "VALID_TRANSITIONS Draining = [PhClosed]"
| "VALID_TRANSITIONS PhClosed = []"

definition canTransition :: "connection_phase \<Rightarrow> connection_phase \<Rightarrow> bool" where
  "canTransition from_phase to_phase \<longleftrightarrow> to_phase \<in> set (VALID_TRANSITIONS from_phase)"

definition NORMAL :: int where "NORMAL = 1000"
definition GOING_AWAY :: int where "GOING_AWAY = 1001"
definition AUTH_FAILED :: int where "AUTH_FAILED = 4001"
definition AUTH_TIMEOUT :: int where "AUTH_TIMEOUT = 4002"
definition CREDENTIAL_EXPIRED :: int where "CREDENTIAL_EXPIRED = 4003"
definition CREDENTIAL_REVOKED :: int where "CREDENTIAL_REVOKED = 4004"
definition POLICY_CHANGE :: int where "POLICY_CHANGE = 4005"
definition BACKPRESSURE :: int where "BACKPRESSURE = 4008"
definition PROTOCOL_ERROR :: int where "PROTOCOL_ERROR = 4009"
definition DEAD_CONNECTION :: int where "DEAD_CONNECTION = 4010"
definition RATE_LIMITED :: int where "RATE_LIMITED = 1008"

fun status_close_code :: "credential_status \<Rightarrow> int" where
  "status_close_code StRevoked = CREDENTIAL_REVOKED"
| "status_close_code StExpired = CREDENTIAL_EXPIRED"
| "status_close_code _ = POLICY_CHANGE"

section \<open>Backpressure\<close>

record backpressure =
  bp_soft :: nat
  bp_hard :: nat
  bp_depth :: nat
  bp_notified :: bool

datatype backpressure_state = BpOk | BpWarning | BpExceeded

definition new_backpressure :: "nat \<Rightarrow> nat \<Rightarrow> backpressure" where
  "new_backpressure soft hard = \<lparr>bp_soft = soft, bp_hard = hard, bp_depth = 0, bp_notified = False\<rparr>"

definition bp_state :: "backpressure \<Rightarrow> backpressure_state" where
  "bp_state b = (if bp_hard b \<le> bp_depth b then BpExceeded
                 else if bp_soft b \<le> bp_depth b then BpWarning else BpOk)"

definition bp_increment :: "backpressure \<Rightarrow> backpressure" where
  "bp_increment b = b\<lparr>bp_depth := bp_depth b + 1\<rparr>"

definition bp_decrement :: "backpressure \<Rightarrow> backpressure" where
  "bp_decrement b = (if bp_depth b > 0 then b\<lparr>bp_depth := bp_depth b - 1\<rparr> else b)"

definition bp_markNotified :: "backpressure \<Rightarrow> backpressure" where
  "bp_markNotified b = b\<lparr>bp_notified := True\<rparr>"

definition bp_reset :: "backpressure \<Rightarrow> backpressure" where
  "bp_reset b = b\<lparr>bp_depth := 0, bp_notified := False\<rparr>"

section \<open>Frames, connections and the server\<close>

datatype 'e server_event =
  HeartbeatEvent string int
| RecoveryComplete int
| ShutdownNotice string
| AppEvent 'e

record auth_frame =
  af_token :: string
  af_lastSeenSeq :: "nat option"

datatype ('e, 'r) out_frame =
  SequencedOut "'e server_event sequenced_frame"
| AuthErrorOut int string
| AuthenticatedOut string contract_credential string "nat option"
| BackpressureOut nat nat
| ResponseOut "'r request_response"

record in_flight =
  if_timer :: nat
  if_sentAt :: int

record ('e, 'r) connection =
  cn_phase :: connection_phase
  cn_credential :: "contract_credential option"
  cn_credentialId :: "string option"
  cn_operatorId :: "string option"
  cn_replay :: "string option"
  cn_backpressure :: backpressure
  cn_authTimer :: bool
  cn_heartbeatTimer :: bool
  cn_inFlight :: "(string, in_flight) js_map"
  cn_timers :: "nat list"
  cn_nextTimer :: nat
  cn_lastActivity :: int
  cn_messageCount :: int
  cn_windowStart :: int
  cn_outbox :: "('e, 'r) out_frame list"
  cn_closeCodes :: "int list"

record ws_config =
  wc_heartbeatIntervalMs :: int
  wc_missedHeartbeats :: int
  wc_requestTimeoutMs :: int
  wc_replayBufferSize :: nat
  wc_softLimit :: nat
  wc_hardLimit :: nat
  wc_rateLimitWindowMs :: int
  wc_rateLimitMaxMessages :: "int option"

definition WsServerConfig_ok :: "ws_config \<Rightarrow> bool" where
  "WsServerConfig_ok c \<longleftrightarrow>
     0 < wc_heartbeatIntervalMs c \<and> 0 < wc_missedHeartbeats c \<and> 0 < wc_requestTimeoutMs c
     \<and> 0 < wc_replayBufferSize c \<and> 0 < wc_softLimit c \<and> 0 < wc_hardLimit c
     \<and> 0 < wc_rateLimitWindowMs c
     \<and> (case wc_rateLimitMaxMessages c of None \<Rightarrow> True | Some m \<Rightarrow> 0 < m)
     \<and> wc_softLimit c < wc_hardLimit c"

definition default_ws_config :: ws_config where
  "default_ws_config =
     \<lparr>wc_heartbeatIntervalMs = 30000, wc_missedHeartbeats = 3, wc_requestTimeoutMs = 30000,
      wc_replayBufferSize = 1000, wc_softLimit = 64, wc_hardLimit = 256,
      wc_rateLimitWindowMs = 1000, wc_rateLimitMaxMessages = None\<rparr>"

record 'e pending_invalidation =
  pi_refcount :: nat
  pi_generation :: nat
  pi_events :: "'e list"

datatype server_phase = SvIdle | SvListening | SvDraining | SvStopped

record ('e, 'r) ws_server =
  sv_config :: ws_config
  sv_wire :: "string \<Rightarrow> nat \<Rightarrow> int"
  sv_project :: "('e \<Rightarrow> contract_credential \<Rightarrow> 'e option) option"
  sv_conns :: "(string, ('e, 'r) connection) js_map"
  sv_registry :: "string list"
  sv_states :: "(string, 'e server_event replay_state) js_map"
  sv_pending :: "(string, 'e pending_invalidation) js_map"
  sv_gen :: nat
  sv_state :: server_phase

definition createWsServer ::
  "ws_config \<Rightarrow> (string \<Rightarrow> nat \<Rightarrow> int) \<Rightarrow> ('e \<Rightarrow> contract_credential \<Rightarrow> 'e option) option \<Rightarrow>
   ('e, 'r) ws_server" where
  "createWsServer config wire project =
     \<lparr>sv_config = config, sv_wire = wire, sv_project = project, sv_conns = [], sv_registry = [],
      sv_states = [], sv_pending = [], sv_gen = 0, sv_state = SvIdle\<rparr>"

definition createConnectionState :: "nat \<Rightarrow> nat \<Rightarrow> int \<Rightarrow> ('e, 'r) connection" where
  "createConnectionState softLimit hardLimit now =
     \<lparr>cn_phase = Authenticating, cn_credential = None, cn_credentialId = None,
      cn_operatorId = None, cn_replay = None,
      cn_backpressure = new_backpressure softLimit hardLimit, cn_authTimer = False,
      cn_heartbeatTimer = False, cn_inFlight = [], cn_timers = [], cn_nextTimer = 0,
      cn_lastActivity = now, cn_messageCount = 0, cn_windowStart = now, cn_outbox = [],
      cn_closeCodes = []\<rparr>"

definition transition :: "connection_phase \<Rightarrow> ('e, 'r) connection \<Rightarrow> ('e, 'r) connection" where
  "transition to_phase c =
     (if \<not> canTransition (cn_phase c) to_phase then c else c\<lparr>cn_phase := to_phase\<rparr>)"

text \<open>\<open>ws.data\<close> is mutated in place.\<close>

definition on_conn ::
  "string \<Rightarrow> (('e, 'r) connection \<Rightarrow> ('e, 'r) connection) \<Rightarrow> ('e, 'r) ws_server \<Rightarrow> ('e, 'r) ws_server" where
  "on_conn i f sv =
     (case map_get (sv_conns sv) i of
        None \<Rightarrow> sv
      | Some c \<Rightarrow> sv\<lparr>sv_conns := map_set i (f c) (sv_conns sv)\<rparr>)"

definition close_ws :: "string \<Rightarrow> int \<Rightarrow> ('e, 'r) ws_server \<Rightarrow> ('e, 'r) ws_server" where
  "close_ws i code = on_conn i (\<lambda>c. c\<lparr>cn_closeCodes := cn_closeCodes c @ [code]\<rparr>)"

section \<open>The registry\<close>

definition registry_add :: "string \<Rightarrow> ('e, 'r) ws_server \<Rightarrow> ('e, 'r) ws_server" where
  "registry_add i sv =
     sv\<lparr>sv_registry := (if i \<in> set (sv_registry sv) then sv_registry sv else sv_registry sv @ [i])\<rparr>"

definition registry_remove :: "string \<Rightarrow> ('e, 'r) ws_server \<Rightarrow> ('e, 'r) ws_server" where
  "registry_remove i sv = sv\<lparr>sv_registry := filter (\<lambda>j. j \<noteq> i) (sv_registry sv)\<rparr>"

definition getByCredentialId :: "string \<Rightarrow> ('e, 'r) ws_server \<Rightarrow> string list" where
  "getByCredentialId credentialId sv =
     filter (\<lambda>i. case map_get (sv_conns sv) i of
                   None \<Rightarrow> False | Some c \<Rightarrow> cn_credentialId c = Some credentialId) (sv_registry sv)"

definition getByOperatorId :: "string \<Rightarrow> ('e, 'r) ws_server \<Rightarrow> string list" where
  "getByOperatorId operatorId sv =
     filter (\<lambda>i. case map_get (sv_conns sv) i of
                   None \<Rightarrow> False | Some c \<Rightarrow> cn_operatorId c = Some operatorId) (sv_registry sv)"

section \<open>Sending\<close>

definition sendJson :: "string \<Rightarrow> ('e, 'r) out_frame \<Rightarrow> ('e, 'r) ws_server \<Rightarrow> ('e, 'r) ws_server" where
  "sendJson i data sv =
     on_conn i (\<lambda>c. c\<lparr>cn_outbox := cn_outbox c @ [data],
       cn_backpressure := (if sv_wire sv i (length (cn_outbox c)) = -1
                           then bp_increment (cn_backpressure c) else cn_backpressure c)\<rparr>) sv"

definition conn_bp :: "string \<Rightarrow> ('e, 'r) ws_server \<Rightarrow> backpressure option" where
  "conn_bp i sv = map_option cn_backpressure (map_get (sv_conns sv) i)"

definition check_backpressure :: "string \<Rightarrow> ('e, 'r) ws_server \<Rightarrow> ('e, 'r) ws_server" where
  "check_backpressure i sv =
     (case conn_bp i sv of
        None \<Rightarrow> sv
      | Some b \<Rightarrow>
          if bp_state b = BpExceeded then close_ws i BACKPRESSURE sv
          else if bp_state b = BpWarning \<and> \<not> bp_notified b then
            let sv1 = on_conn i (\<lambda>c. c\<lparr>cn_backpressure := bp_markNotified (cn_backpressure c)\<rparr>) sv;
                sv2 = sendJson i (BackpressureOut (bp_depth b) (wc_hardLimit (sv_config sv))) sv1
            in (case conn_bp i sv2 of
                  None \<Rightarrow> sv2
                | Some b' \<Rightarrow> if bp_state b' = BpExceeded then close_ws i BACKPRESSURE sv2 else sv2)
          else sv)"

definition sendSequenced ::
  "string \<Rightarrow> 'e server_event \<Rightarrow> ('e, 'r) ws_server \<Rightarrow> ('e, 'r) ws_server" where
  "sendSequenced i event sv =
     (case map_get (sv_conns sv) i of
        None \<Rightarrow> sv
      | Some c \<Rightarrow>
          (case cn_replay c of
             None \<Rightarrow> sv
           | Some k \<Rightarrow>
               (case map_get (sv_states sv) k of
                  None \<Rightarrow> sv
                | Some st \<Rightarrow>
                    (case sequenceEvent st event of
                       (frame, st') \<Rightarrow>
                         check_backpressure i
                           (sendJson i (SequencedOut frame)
                              (sv\<lparr>sv_states := map_set k st' (sv_states sv)\<rparr>))))))"

definition getOrCreateCredentialState ::
  "string \<Rightarrow> ('e, 'r) ws_server \<Rightarrow> 'e server_event replay_state \<times> ('e, 'r) ws_server" where
  "getOrCreateCredentialState credentialId sv =
     (case map_get (sv_states sv) credentialId of
        Some st \<Rightarrow> (st, sv)
      | None \<Rightarrow>
          let st = new_replay_state (wc_replayBufferSize (sv_config sv))
          in (st, sv\<lparr>sv_states := map_set credentialId st (sv_states sv)\<rparr>))"

definition cleanupConnection :: "string \<Rightarrow> ('e, 'r) ws_server \<Rightarrow> ('e, 'r) ws_server" where
  "cleanupConnection i sv =
     on_conn i (transition PhClosed)
       (registry_remove i
          (on_conn i (\<lambda>c. c\<lparr>cn_authTimer := False, cn_heartbeatTimer := False, cn_inFlight := [],
             cn_timers := filter (\<lambda>t. t \<notin> if_timer ` set (map_values (cn_inFlight c)))
                            (cn_timers c)\<rparr>) sv))"

definition stopHeartbeat :: "string \<Rightarrow> ('e, 'r) ws_server \<Rightarrow> ('e, 'r) ws_server" where
  "stopHeartbeat i = on_conn i (\<lambda>c. c\<lparr>cn_heartbeatTimer := False\<rparr>)"

definition startHeartbeat :: "string \<Rightarrow> ('e, 'r) ws_server \<Rightarrow> ('e, 'r) ws_server" where
  "startHeartbeat i =
     on_conn i (\<lambda>c. if cn_credential c = None then c else c\<lparr>cn_heartbeatTimer := True\<rparr>)"

section \<open>Authentication\<close>

definition handleAuth :: "contract_credential result \<Rightarrow> contract_credential result" where
  "handleAuth lookup =
     (case lookup of
        Inl e \<Rightarrow> Inl e
      | Inr credential \<Rightarrow>
          if sc_status credential \<noteq> StActive
          then Inl (AuthError (''Credential '' @ cc_credentialId credential @ '' is not active'')
                 (Some [(''credentialId'', CtxStr (cc_credentialId credential)),
                        (''status'', CtxStr (status_name (sc_status credential)))]))
          else Inr credential)"

text \<open>Up to the lookup of the token: the frame to look up, if the handler goes on.\<close>

definition auth_begin ::
  "string \<Rightarrow> auth_frame option \<Rightarrow> ('e, 'r) ws_server \<Rightarrow> auth_frame option \<times> ('e, 'r) ws_server" where
  "auth_begin i parsed sv =
     (case map_get (sv_conns sv) i of
        None \<Rightarrow> (None, sv)
      | Some c \<Rightarrow>
          if cn_phase c \<noteq> Authenticating then (None, sv)
          else
            let sv1 = on_conn i (\<lambda>c. c\<lparr>cn_authTimer := False\<rparr>) sv in
            (case parsed of
               None \<Rightarrow> (None, close_ws i PROTOCOL_ERROR
                         (sendJson i (AuthErrorOut PROTOCOL_ERROR ''Invalid auth frame'') sv1))
             | Some frame \<Rightarrow> (Some frame, sv1)))"

record 'e auth_resume =
  ar_token :: string
  ar_credential :: contract_credential
  ar_resumedFrom :: "nat option"
  ar_recovery :: bool
  ar_frames :: "'e server_event sequenced_frame list"

definition plan_replay ::
  "nat option \<Rightarrow> 'e server_event replay_state \<Rightarrow>
   nat option \<times> bool \<times> 'e server_event sequenced_frame list" where
  "plan_replay lastSeenSeq st =
     (case lastSeenSeq of
        None \<Rightarrow> (None, False, [])
      | Some lastSeen \<Rightarrow>
          if (case buffer_oldest (rs_buffer st) of
                None \<Rightarrow> False | Some f \<Rightarrow> sf_seq f > lastSeen + 1)
          then (None, True, [])
          else
            let frames = itemsSince (\<lambda>f. sf_seq f > lastSeen) (rs_buffer st)
            in (if frames \<noteq> [] then Some lastSeen else None, False, frames))"

text \<open>From the answer of the lookup to the wait for the token's fingerprint.\<close>

definition auth_lookup ::
  "string \<Rightarrow> auth_frame \<Rightarrow> contract_credential result \<Rightarrow> ('e, 'r) ws_server \<Rightarrow>
   'e auth_resume option \<times> ('e, 'r) ws_server" where
  "auth_lookup i frame lookup sv =
     (case handleAuth lookup of
        Inl e \<Rightarrow> (None, close_ws i AUTH_FAILED
                   (sendJson i (AuthErrorOut AUTH_FAILED (error_message e)) sv))
      | Inr credential \<Rightarrow>
          let sv1 = on_conn i (\<lambda>c. transition PhActive
                      (c\<lparr>cn_credential := Some credential,
                         cn_credentialId := Some (cc_credentialId credential),
                         cn_operatorId := Some (cc_operatorId credential)\<rparr>)) sv;
              (st, sv2) = getOrCreateCredentialState (cc_credentialId credential) sv1;
              sv3 = registry_add i
                      (on_conn i (\<lambda>c. c\<lparr>cn_replay := Some (cc_credentialId credential)\<rparr>) sv2);
              (resumedFrom, recovery, frames) = plan_replay (af_lastSeenSeq frame) st
          in (Some \<lparr>ar_token = af_token frame, ar_credential = credential,
                    ar_resumedFrom = resumedFrom, ar_recovery = recovery, ar_frames = frames\<rparr>, sv3))"

definition auth_finish ::
  "(string \<Rightarrow> string) \<Rightarrow> string \<Rightarrow> 'e auth_resume \<Rightarrow> int \<Rightarrow> ('e, 'r) ws_server \<Rightarrow> ('e, 'r) ws_server" where
  "auth_finish fingerprint i r now sv =
     (let sv1 = sendJson i (AuthenticatedOut i (ar_credential r) (fingerprint (ar_token r))
                  (ar_resumedFrom r)) sv;
          sv2 = (if ar_recovery r then sendSequenced i (RecoveryComplete now) sv1 else sv1);
          sv3 = (if \<not> ar_recovery r
                 then foldl (\<lambda>s f. sendJson i (SequencedOut f) s) sv2 (ar_frames r) else sv2)
      in startHeartbeat i sv3)"

section \<open>Requests\<close>

text \<open>How a frame parses as a request: its id, its type and the request itself.\<close>

datatype 'q request_parse =
  RequestParsed string string 'q
| RequestBad string
| RequestMalformed

definition request_begin ::
  "string \<Rightarrow> ('e, 'r) ws_server \<Rightarrow> string option \<times> ('e, 'r) ws_server" where
  "request_begin i sv =
     (case map_get (sv_conns sv) i of
        None \<Rightarrow> (None, sv)
      | Some c \<Rightarrow>
          (case cn_credential c of
             None \<Rightarrow> (None, close_ws i PROTOCOL_ERROR sv)
           | Some cached \<Rightarrow> (Some (cc_credentialId cached), sv)))"

text \<open>
  The refresh that requests, heartbeats and invalidations share: a connection of a credential
  that is gone or not active is closed.
\<close>

definition apply_lookup ::
  "string \<Rightarrow> contract_credential result \<Rightarrow> ('e, 'r) ws_server \<Rightarrow> ('e, 'r) ws_server" where
  "apply_lookup i lookup sv =
     (case lookup of
        Inl _ \<Rightarrow> stopHeartbeat i (close_ws i CREDENTIAL_REVOKED sv)
      | Inr fresh \<Rightarrow>
          let sv1 = on_conn i (\<lambda>c. c\<lparr>cn_credential := Some fresh\<rparr>) sv in
          if sc_status fresh \<noteq> StActive
          then stopHeartbeat i (close_ws i (status_close_code (sc_status fresh)) sv1)
          else sv1)"

abbreviation lookup_active :: "contract_credential result \<Rightarrow> bool" where
  "lookup_active lookup \<equiv> (\<exists>fresh. lookup = Inr fresh \<and> sc_status fresh = StActive)"

definition invalid_request_error :: request_error where
  "invalid_request_error =
     \<lparr>re_code = 1000, re_category = CatValidation, re_message = ''Invalid request frame'',
      re_context = None\<rparr>"

definition internal_request_error :: request_error where
  "internal_request_error =
     \<lparr>re_code = 1400, re_category = CatInternal, re_message = ''Internal error'', re_context = None\<rparr>"

definition timeout_request_error :: "string \<Rightarrow> int \<Rightarrow> request_error" where
  "timeout_request_error operation timeoutMs =
     \<lparr>re_code = 1500, re_category = CatTimeout, re_message = ''Request timed out'',
      re_context = Some [(''operation'', CtxStr operation), (''timeoutMs'', CtxNum timeoutMs)]\<rparr>"

record 'q request_run =
  rq_id :: string
  rq_type :: string
  rq_request :: 'q
  rq_credential :: contract_credential

definition request_lookup ::
  "string \<Rightarrow> contract_credential result \<Rightarrow> 'q request_parse \<Rightarrow> int \<Rightarrow> ('e, 'r) ws_server \<Rightarrow>
   'q request_run option \<times> ('e, 'r) ws_server" where
  "request_lookup i lookup parsed now sv =
     (let sv1 = apply_lookup i lookup sv in
      case lookup of
        Inl _ \<Rightarrow> (None, sv1)
      | Inr credential \<Rightarrow>
          if sc_status credential \<noteq> StActive then (None, sv1)
          else (case parsed of
                  RequestBad requestId \<Rightarrow>
                    (None, sendJson i (ResponseOut (RequestFailure requestId invalid_request_error)) sv1)
                | RequestMalformed \<Rightarrow> (None, close_ws i PROTOCOL_ERROR sv1)
                | RequestParsed requestId requestType request \<Rightarrow>
                    (Some \<lparr>rq_id = requestId, rq_type = requestType, rq_request = request,
                           rq_credential = credential\<rparr>,
                     on_conn i (\<lambda>c. c\<lparr>cn_inFlight := map_set requestId
                          \<lparr>if_timer = cn_nextTimer c, if_sentAt = now\<rparr> (cn_inFlight c),
                        cn_timers := cn_timers c @ [cn_nextTimer c],
                        cn_nextTimer := cn_nextTimer c + 1\<rparr>) sv1)))"

text \<open>The timer that was armed for a request fires.\<close>

definition request_timeout ::
  "string \<Rightarrow> nat \<Rightarrow> string \<Rightarrow> string \<Rightarrow> ('e, 'r) ws_server \<Rightarrow> ('e, 'r) ws_server" where
  "request_timeout i timer requestId requestType sv =
     (case map_get (sv_conns sv) i of
        None \<Rightarrow> sv
      | Some c \<Rightarrow>
          if timer \<notin> set (cn_timers c) then sv
          else sendJson i (ResponseOut (RequestFailure requestId
                 (timeout_request_error requestType (wc_requestTimeoutMs (sv_config sv)))))
                 (on_conn i (\<lambda>c. c\<lparr>cn_timers := removeAll timer (cn_timers c),
                                    cn_inFlight := map_delete requestId (cn_inFlight c)\<rparr>) sv))"

text \<open>
  The handler has answered, or thrown (\<open>None\<close>); requests that may change scopes or grants are
  followed by another lookup, whose answer is \<open>refresh\<close>.
\<close>

definition request_finish ::
  "string \<Rightarrow> 'q request_run \<Rightarrow> 'r request_response option \<Rightarrow> contract_credential result \<Rightarrow>
   ('e, 'r) ws_server \<Rightarrow> ('e, 'r) ws_server" where
  "request_finish i run response refresh sv =
     (let sv1 = (case (response, refresh) of
                   (Some _, Inr fresh) \<Rightarrow>
                     if rq_type run = ''update_scopes'' \<or> rq_type run = ''reveal_content''
                     then on_conn i (\<lambda>c. c\<lparr>cn_credential := Some fresh\<rparr>) sv else sv
                 | _ \<Rightarrow> sv)
      in case map_get (sv_conns sv1) i of
           None \<Rightarrow> sv1
         | Some c \<Rightarrow>
             (case map_get (cn_inFlight c) (rq_id run) of
                None \<Rightarrow> sv1
              | Some entry \<Rightarrow>
                  sendJson i (ResponseOut (case response of
                      Some r \<Rightarrow> r | None \<Rightarrow> RequestFailure (rq_id run) internal_request_error))
                    (on_conn i (\<lambda>c. c\<lparr>cn_timers := removeAll (if_timer entry) (cn_timers c),
                       cn_inFlight := map_delete (rq_id run) (cn_inFlight c)\<rparr>) sv1)))"

section \<open>Broadcasts and invalidations\<close>

definition deliver :: "'e \<Rightarrow> ('e, 'r) ws_server \<Rightarrow> string \<Rightarrow> ('e, 'r) ws_server" where
  "deliver event sv i =
     (case map_get (sv_conns sv) i of
        None \<Rightarrow> sv
      | Some c \<Rightarrow>
          if cn_phase c \<noteq> PhActive then sv
          else (case cn_credential c of
                  None \<Rightarrow> sv
                | Some credential \<Rightarrow>
                    if sc_status credential \<noteq> StActive then sv
                    else (case sv_project sv of
                            None \<Rightarrow> sendSequenced i (AppEvent event) sv
                          | Some project \<Rightarrow>
                              (case project event credential of
                                 None \<Rightarrow> sv
                               | Some projected \<Rightarrow> sendSequenced i (AppEvent projected) sv))))"

definition broadcastToCredential ::
  "string \<Rightarrow> 'e \<Rightarrow> ('e, 'r) ws_server \<Rightarrow> ('e, 'r) ws_server" where
  "broadcastToCredential credentialId event sv =
     (case map_get (sv_pending sv) credentialId of
        Some p \<Rightarrow> sv\<lparr>sv_pending := map_set credentialId
                       (p\<lparr>pi_events := pi_events p @ [event]\<rparr>) (sv_pending sv)\<rparr>
      | None \<Rightarrow> foldl (deliver event) sv (getByCredentialId credentialId sv))"

definition invalidate_begin :: "string \<Rightarrow> ('e, 'r) ws_server \<Rightarrow> nat \<times> ('e, 'r) ws_server" where
  "invalidate_begin credentialId sv =
     (let myGen = sv_gen sv + 1;
          entry = (case map_get (sv_pending sv) credentialId of
                     Some p \<Rightarrow> p\<lparr>pi_refcount := pi_refcount p + 1, pi_generation := myGen\<rparr>
                   | None \<Rightarrow> \<lparr>pi_refcount = 1, pi_generation = myGen, pi_events = []\<rparr>)
      in (myGen, sv\<lparr>sv_gen := myGen, sv_pending := map_set credentialId entry (sv_pending sv)\<rparr>))"

definition invalidate_one ::
  "contract_credential result \<Rightarrow> ('e, 'r) ws_server \<Rightarrow> string \<Rightarrow> ('e, 'r) ws_server" where
  "invalidate_one lookup sv i =
     (case map_get (sv_conns sv) i of
        None \<Rightarrow> sv
      | Some c \<Rightarrow> if cn_phase c \<noteq> PhActive then sv else apply_lookup i lookup sv)"

text \<open>The \<open>finally\<close> block: the last invalidation to end drains the queue.\<close>

definition invalidate_drain :: "string \<Rightarrow> ('e, 'r) ws_server \<Rightarrow> ('e, 'r) ws_server" where
  "invalidate_drain credentialId sv =
     (case map_get (sv_pending sv) credentialId of
        None \<Rightarrow> sv
      | Some p \<Rightarrow>
          if pi_refcount p \<le> 1
          then foldl (\<lambda>s event. broadcastToCredential credentialId event s)
                 (sv\<lparr>sv_pending := map_delete credentialId (sv_pending sv)\<rparr>) (pi_events p)
          else sv\<lparr>sv_pending := map_set credentialId (p\<lparr>pi_refcount := pi_refcount p - 1\<rparr>)
                                  (sv_pending sv)\<rparr>)"

definition invalidate_finish ::
  "string \<Rightarrow> nat \<Rightarrow> contract_credential result \<Rightarrow> ('e, 'r) ws_server \<Rightarrow> ('e, 'r) ws_server" where
  "invalidate_finish credentialId myGen lookup sv =
     invalidate_drain credentialId
       (case map_get (sv_pending sv) credentialId of
          None \<Rightarrow> sv
        | Some p \<Rightarrow>
            if pi_generation p \<noteq> myGen then sv
            else foldl (invalidate_one lookup) sv (getByCredentialId credentialId sv))"

section \<open>Heartbeats and the socket's own events\<close>

definition heartbeat_begin ::
  "string \<Rightarrow> string \<Rightarrow> int \<Rightarrow> ('e, 'r) ws_server \<Rightarrow> string option \<times> ('e, 'r) ws_server" where
  "heartbeat_begin i startedFor now sv =
     (case map_get (sv_conns sv) i of
        None \<Rightarrow> (None, sv)
      | Some c \<Rightarrow>
          if \<not> cn_heartbeatTimer c \<or> cn_phase c \<noteq> PhActive then (None, sv)
          else if now - cn_lastActivity c
                    > wc_missedHeartbeats (sv_config sv) * wc_heartbeatIntervalMs (sv_config sv)
          then (None, close_ws i DEAD_CONNECTION sv)
          else (Some (case cn_credential c of None \<Rightarrow> startedFor | Some r \<Rightarrow> cc_credentialId r), sv))"

definition heartbeat_finish ::
  "string \<Rightarrow> string \<Rightarrow> contract_credential result \<Rightarrow> int \<Rightarrow> ('e, 'r) ws_server \<Rightarrow> ('e, 'r) ws_server" where
  "heartbeat_finish i credentialId lookup now sv =
     (let sv1 = apply_lookup i lookup sv in
      case lookup of
        Inl _ \<Rightarrow> sv1
      | Inr fresh \<Rightarrow> if sc_status fresh \<noteq> StActive then sv1
                     else sendSequenced i (HeartbeatEvent credentialId now) sv1)"

definition on_upgrade :: "string \<Rightarrow> int \<Rightarrow> ('e, 'r) ws_server \<Rightarrow> ('e, 'r) ws_server" where
  "on_upgrade i now sv =
     sv\<lparr>sv_conns := map_set i (createConnectionState (wc_softLimit (sv_config sv))
          (wc_hardLimit (sv_config sv)) now) (sv_conns sv)\<rparr>"

definition on_open :: "string \<Rightarrow> ('e, 'r) ws_server \<Rightarrow> ('e, 'r) ws_server" where
  "on_open i sv =
     (if sv_state sv = SvDraining \<or> sv_state sv = SvStopped then close_ws i GOING_AWAY sv
      else on_conn i (\<lambda>c. c\<lparr>cn_authTimer := True\<rparr>) sv)"

definition on_auth_timeout :: "string \<Rightarrow> ('e, 'r) ws_server \<Rightarrow> ('e, 'r) ws_server" where
  "on_auth_timeout i sv =
     (case map_get (sv_conns sv) i of
        None \<Rightarrow> sv
      | Some c \<Rightarrow>
          if cn_authTimer c \<and> cn_phase c = Authenticating
          then close_ws i AUTH_TIMEOUT (sendJson i (AuthErrorOut AUTH_TIMEOUT ''Auth timeout'') sv)
          else sv)"

text \<open>What \<open>message\<close> does before it hands the frame on, and to which handler.\<close>

datatype message_route = ToAuth | ToRequest | Ignored

definition rate_limited :: "ws_config \<Rightarrow> int \<Rightarrow> ('e, 'r) connection \<Rightarrow> bool \<times> ('e, 'r) connection" where
  "rate_limited config now c =
     (case wc_rateLimitMaxMessages config of
        None \<Rightarrow> (False, c)
      | Some limit \<Rightarrow>
          if now - cn_windowStart c \<ge> wc_rateLimitWindowMs config
          then (False, c\<lparr>cn_messageCount := 1, cn_windowStart := now\<rparr>)
          else (cn_messageCount c + 1 > limit, c\<lparr>cn_messageCount := cn_messageCount c + 1\<rparr>))"

definition on_message ::
  "string \<Rightarrow> bool \<Rightarrow> int \<Rightarrow> ('e, 'r) ws_server \<Rightarrow> message_route \<times> ('e, 'r) ws_server" where
  "on_message i is_json now sv =
     (case map_get (sv_conns sv) i of
        None \<Rightarrow> (Ignored, sv)
      | Some c \<Rightarrow>
          if cn_phase c = PhClosed then (Ignored, sv)
          else
            (case rate_limited (sv_config sv) now (c\<lparr>cn_lastActivity := now\<rparr>) of
               (limited, c') \<Rightarrow>
                 let sv1 = on_conn i (\<lambda>_. c') sv in
                 if limited then (Ignored, close_ws i RATE_LIMITED sv1)
                 else if \<not> is_json then (Ignored, close_ws i PROTOCOL_ERROR sv1)
                 else (case cn_phase c of
                         Authenticating \<Rightarrow> (ToAuth, sv1)
                       | PhActive \<Rightarrow> (ToRequest, sv1)
                       | _ \<Rightarrow> (Ignored, sv1))))"

definition on_close :: "string \<Rightarrow> ('e, 'r) ws_server \<Rightarrow> ('e, 'r) ws_server" where
  "on_close i = cleanupConnection i"

definition on_drain :: "string \<Rightarrow> ('e, 'r) ws_server \<Rightarrow> ('e, 'r) ws_server" where
  "on_drain i = on_conn i (\<lambda>c. c\<lparr>cn_backpressure := bp_reset (cn_backpressure c)\<rparr>)"

section \<open>Start and stop\<close>

text \<open>\<open>bind\<close> is what \<open>Bun.serve\<close> does: a port, no port, or an exception with a message.\<close>

datatype bind_result = Bound nat | BoundWithoutPort | BindFailed string

definition server_start :: "bind_result \<Rightarrow> ('e, 'r) ws_server \<Rightarrow> nat result \<times> ('e, 'r) ws_server" where
  "server_start bind sv =
     (if sv_state sv \<noteq> SvIdle
      then (Inl (InternalError ''Server is not in idle state'' None), sv)
      else (case bind of
              Bound port \<Rightarrow> (Inr port, sv\<lparr>sv_state := SvListening\<rparr>)
            | BoundWithoutPort \<Rightarrow>
                (Inl (InternalError ''Server started but port is undefined'' None),
                 sv\<lparr>sv_state := SvListening\<rparr>)
            | BindFailed message \<Rightarrow>
                (Inl (InternalError (''Failed to start server: '' @ message) None), sv)))"

definition drain_one :: "('e, 'r) ws_server \<Rightarrow> string \<Rightarrow> ('e, 'r) ws_server" where
  "drain_one sv i =
     (case map_get (sv_conns sv) i of
        None \<Rightarrow> sv
      | Some c \<Rightarrow>
          (case cn_credential c of
             None \<Rightarrow> sv
           | Some r \<Rightarrow>
               if cn_phase c = PhActive
               then on_conn i (transition Draining)
                      (sendSequenced i (ShutdownNotice (cc_credentialId r)) sv)
               else sv))"

definition stop_begin :: "('e, 'r) ws_server \<Rightarrow> unit result \<times> ('e, 'r) ws_server" where
  "stop_begin sv =
     (if sv_state sv \<noteq> SvListening
      then (Inl (InternalError ''Server is not listening'' None), sv)
      else (Inr (), foldl drain_one (sv\<lparr>sv_state := SvDraining\<rparr>) (sv_registry sv)))"

definition has_in_flight :: "('e, 'r) ws_server \<Rightarrow> bool" where
  "has_in_flight sv =
     list_ex (\<lambda>i. case map_get (sv_conns sv) i of
                    None \<Rightarrow> False | Some c \<Rightarrow> cn_inFlight c \<noteq> []) (sv_registry sv)"

text \<open>
  When nothing is in flight or the deadline has passed the remaining connections are closed;
  they are cleaned up, and the server is stopped, fifty milliseconds later.
\<close>

definition stop_close :: "('e, 'r) ws_server \<Rightarrow> string list \<times> ('e, 'r) ws_server" where
  "stop_close sv =
     (sv_registry sv, foldl (\<lambda>s i. close_ws i GOING_AWAY s) sv (sv_registry sv))"

definition stop_finish :: "string list \<Rightarrow> ('e, 'r) ws_server \<Rightarrow> ('e, 'r) ws_server" where
  "stop_finish remaining sv =
     (foldl (\<lambda>s i. cleanupConnection i s) sv remaining)
       \<lparr>sv_states := [], sv_state := SvStopped\<rparr>"

end
