(* ===== verification/WsSafety.thy ===== *)
theory WsSafety
  imports WsServer
begin

text \<open>
  What the WebSocket server guarantees under every interleaving of its handlers: resumption is
  complete or announced as incomplete, broadcasts reach only connections that may see them, and
  an invalidation holds them back. Also what it does not: frames may reach a resuming harness
  out of order, and a connection that closes while it authenticates is never forgotten.
\<close>

section \<open>Steps\<close>

text \<open>The request itself is only passed on; here it is its text.\<close>

datatype ('e, 'r) ws_step =
  StUpgrade string int
| StOpen string
| StAuthTimeout string
| StMessage string bool int
| StAuthBegin string "auth_frame option"
| StAuthLookup string auth_frame "contract_credential result"
| StAuthFinish "string \<Rightarrow> string" string "'e auth_resume" int
| StRequestBegin string
| StRequestLookup string "contract_credential result" "string request_parse" int
| StRequestTimeout string nat string string
| StRequestFinish string "string request_run" "'r request_response option" "contract_credential result"
| StBroadcast string 'e
| StInvalidateBegin string
| StInvalidateFinish string nat "contract_credential result"
| StHeartbeatBegin string string int
| StHeartbeatFinish string string "contract_credential result" int
| StClose string
| StDrain string
| StStart bind_result
| StStopBegin
| StStopClose
| StStopFinish "string list"

fun ws_next :: "('e, 'r) ws_step \<Rightarrow> ('e, 'r) ws_server \<Rightarrow> ('e, 'r) ws_server" where
  "ws_next (StUpgrade i now) sv = on_upgrade i now sv"
| "ws_next (StOpen i) sv = on_open i sv"
| "ws_next (StAuthTimeout i) sv = on_auth_timeout i sv"
| "ws_next (StMessage i j now) sv = snd (on_message i j now sv)"
| "ws_next (StAuthBegin i f) sv = snd (auth_begin i f sv)"
| "ws_next (StAuthLookup i f l) sv = snd (auth_lookup i f l sv)"
| "ws_next (StAuthFinish fp i r now) sv = auth_finish fp i r now sv"
| "ws_next (StRequestBegin i) sv = snd (request_begin i sv)"
| "ws_next (StRequestLookup i l p now) sv = snd (request_lookup i l p now sv)"
| "ws_next (StRequestTimeout i t q ty) sv = request_timeout i t q ty sv"
| "ws_next (StRequestFinish i run resp l) sv = request_finish i run resp l sv"
| "ws_next (StBroadcast k e) sv = broadcastToCredential k e sv"
| "ws_next (StInvalidateBegin k) sv = snd (invalidate_begin k sv)"
| "ws_next (StInvalidateFinish k g l) sv = invalidate_finish k g l sv"
| "ws_next (StHeartbeatBegin i k now) sv = snd (heartbeat_begin i k now sv)"
| "ws_next (StHeartbeatFinish i k l now) sv = heartbeat_finish i k l now sv"
| "ws_next (StClose i) sv = on_close i sv"
| "ws_next (StDrain i) sv = on_drain i sv"
| "ws_next (StStart b) sv = snd (server_start b sv)"
| "ws_next StStopBegin sv = snd (stop_begin sv)"
| "ws_next StStopClose sv = snd (stop_close sv)"
| "ws_next (StStopFinish ids) sv = stop_finish ids sv"

inductive ws_reachable :: "ws_config \<Rightarrow> ('e, 'r) ws_server \<Rightarrow> bool" for config where
  wr_init: "ws_reachable config (createWsServer config wire project)"
| wr_step: "ws_reachable config sv \<Longrightarrow> ws_reachable config (ws_next step sv)"

section \<open>What a step may do to the replay states\<close>

text \<open>
  Every operation of the server is composed of changes of connections, of the registry and of
  the queues, of frames being numbered, of fresh replay states and of their removal.
\<close>

locale server_steps =
  fixes E :: "('e, 'r) ws_server \<Rightarrow> ('e, 'r) ws_server \<Rightarrow> bool"
  assumes E_refl: "E sv sv"
    and E_trans: "E s t \<Longrightarrow> E t u \<Longrightarrow> E s u"
    and E_conns: "E sv (sv\<lparr>sv_conns := m\<rparr>)"
    and E_add: "E sv (registry_add i sv)"
    and E_remove: "E sv (registry_remove i sv)"
    and E_pending: "E sv (sv\<lparr>sv_pending := p\<rparr>)"
    and E_gen: "E sv (sv\<lparr>sv_gen := g\<rparr>)"
    and E_state: "E sv (sv\<lparr>sv_state := st\<rparr>)"
    and E_clear: "E sv (sv\<lparr>sv_states := []\<rparr>)"
    and E_sequence: "map_get (sv_states sv) k = Some rs \<Longrightarrow>
        E sv (sv\<lparr>sv_states := map_set k (snd (sequenceEvent rs e)) (sv_states sv)\<rparr>)"
    and E_create: "map_get (sv_states sv) k = None \<Longrightarrow>
        E sv (sv\<lparr>sv_states := map_set k (new_replay_state (wc_replayBufferSize (sv_config sv)))
                   (sv_states sv)\<rparr>)"
begin

lemma e_on_conn: "E sv (on_conn i f sv)"
  by (simp add: on_conn_def E_refl E_conns split: option.split)

lemma e_close: "E sv (close_ws i code sv)"
  by (simp add: close_ws_def e_on_conn)

lemma e_json: "E sv (sendJson i d sv)"
  by (simp add: sendJson_def e_on_conn)

lemma e_foldl:
  assumes "\<And>s x. E s (f s x)"
  shows "E s (foldl f s xs)"
proof (induction xs arbitrary: s)
  case (Cons x xs)
  show ?case using E_trans [OF assms Cons.IH] by simp
qed (simp add: E_refl)

lemma e_check: "E sv (check_backpressure i sv)"
proof -
  have warn: "E sv (sendJson i d (on_conn i f sv))" for d f
    by (rule E_trans [OF e_on_conn e_json])
  have warn2: "E sv (close_ws j code (sendJson i d (on_conn i f sv)))" for d f j code
    by (rule E_trans [OF warn e_close])
  show ?thesis
    by (auto simp: check_backpressure_def Let_def E_refl e_close warn warn2 split: option.split)
qed

lemma e_sequenced: "E sv (sendSequenced i e sv)"
proof -
  have "E sv (check_backpressure i (sendJson i d (sv\<lparr>sv_states := map_set k (snd (sequenceEvent rs e))
          (sv_states sv)\<rparr>)))" if "map_get (sv_states sv) k = Some rs" for k rs d
    by (rule E_trans [OF E_trans [OF E_sequence [OF that] e_json] e_check])
  then show ?thesis
    by (auto simp: sendSequenced_def E_refl case_prod_unfold split: option.split)
qed

lemma e_create: "E sv (snd (getOrCreateCredentialState k sv))"
  by (simp add: getOrCreateCredentialState_def Let_def E_refl E_create split: option.split)

lemma e_cleanup: "E sv (cleanupConnection i sv)"
  unfolding cleanupConnection_def
  by (rule E_trans [OF e_on_conn E_trans [OF E_remove e_on_conn]])

lemma e_heartbeats: "E sv (stopHeartbeat i sv)" "E sv (startHeartbeat i sv)"
  by (simp_all add: stopHeartbeat_def startHeartbeat_def e_on_conn)

lemma e_apply_lookup: "E sv (apply_lookup i l sv)"
  using E_trans [OF e_close e_heartbeats(1)] E_trans [OF e_on_conn E_trans [OF e_close e_heartbeats(1)]]
  by (simp add: apply_lookup_def Let_def e_on_conn split: sum.split)

lemma e_auth_begin: "E sv (snd (auth_begin i f sv))"
  using E_trans [OF e_on_conn E_trans [OF e_json e_close]]
  by (simp add: auth_begin_def Let_def E_refl e_on_conn split: option.split)

lemma e_auth_lookup: "E sv (snd (auth_lookup i f l sv))"
proof -
  have "E sv (registry_add i (on_conn i g (snd (getOrCreateCredentialState k (on_conn i h sv)))))"
    for g h k
    by (rule E_trans [OF e_on_conn E_trans [OF e_create E_trans [OF e_on_conn E_add]]])
  then show ?thesis
    using E_trans [OF e_json e_close]
    by (simp add: auth_lookup_def Let_def case_prod_unfold split: sum.split)
qed

lemma e_auth_finish: "E sv (auth_finish fp i r now sv)"
proof -
  have "E s (foldl (\<lambda>s f. sendJson i (SequencedOut f) s) s xs)" for s xs by (rule e_foldl) (rule e_json)
  then have "E s (if b then foldl (\<lambda>s f. sendJson i (SequencedOut f) s) s xs else s)" for s xs b
    by (simp add: E_refl)
  moreover have "E s (if b then sendSequenced i e s else s)" for s b e by (simp add: e_sequenced E_refl)
  ultimately show ?thesis
    unfolding auth_finish_def Let_def
    by (meson E_trans e_json e_heartbeats(2))
qed

lemma e_requests:
  "E sv (snd (request_begin i sv))" "E sv (snd (request_lookup i l p now sv))"
  "E sv (request_timeout i t q ty sv)" "E sv (request_finish i run resp l sv)"
proof -
  show "E sv (snd (request_begin i sv))"
    by (simp add: request_begin_def E_refl e_close split: option.split)
  show "E sv (snd (request_lookup i l p now sv))"
    using E_trans [OF e_apply_lookup e_json] E_trans [OF e_apply_lookup e_close]
      E_trans [OF e_apply_lookup e_on_conn]
    by (simp add: request_lookup_def Let_def e_apply_lookup split: sum.split request_parse.split)
  show "E sv (request_timeout i t q ty sv)"
    using E_trans [OF e_on_conn e_json]
    by (simp add: request_timeout_def E_refl split: option.split)
  have tail: "E s (case map_get (sv_conns s) i of None \<Rightarrow> s
      | Some c \<Rightarrow> (case map_get (cn_inFlight c) (rq_id run) of None \<Rightarrow> s
          | Some entry \<Rightarrow> sendJson i (d entry) (on_conn i (g entry) s)))" for s d g
    using E_trans [OF e_on_conn e_json] by (simp add: E_refl split: option.split)
  have head: "E sv (case (resp, l) of (Some _, Inr fresh) \<Rightarrow> if b then on_conn i (h fresh) sv else sv
      | _ \<Rightarrow> sv)" for b h
    by (simp add: E_refl e_on_conn split: option.split sum.split)
  show "E sv (request_finish i run resp l sv)"
    unfolding request_finish_def Let_def by (rule E_trans [OF head tail])
qed

lemma e_broadcast: "E sv (broadcastToCredential k e sv)"
proof -
  have "E s (deliver e s i)" for s i
    by (simp add: deliver_def E_refl e_sequenced split: option.split)
  then show ?thesis
    by (simp add: broadcastToCredential_def E_pending e_foldl split: option.split)
qed

lemma e_invalidate: "E sv (snd (invalidate_begin k sv))" "E sv (invalidate_finish k g l sv)"
proof -
  have "E sv ((sv\<lparr>sv_gen := x\<rparr>)\<lparr>sv_pending := y\<rparr>)" for x y by (rule E_trans [OF E_gen E_pending])
  then show "E sv (snd (invalidate_begin k sv))" by (simp add: invalidate_begin_def Let_def)
  have one: "E s (invalidate_one l s i)" for s i
    by (simp add: invalidate_one_def E_refl e_apply_lookup split: option.split)
  have drain: "E s (invalidate_drain k s)" for s
  proof -
    have "E s (foldl (\<lambda>s event. broadcastToCredential k event s) (s\<lparr>sv_pending := p\<rparr>) es)" for p es
      by (rule E_trans [OF E_pending e_foldl]) (rule e_broadcast)
    then show ?thesis by (simp add: invalidate_drain_def E_refl E_pending split: option.split)
  qed
  have "E sv (foldl (invalidate_one l) sv ids)" for ids by (rule e_foldl) (rule one)
  then show "E sv (invalidate_finish k g l sv)"
    using drain E_trans [OF _ drain]
    by (simp add: invalidate_finish_def split: option.split)
qed

lemma e_heartbeat: "E sv (snd (heartbeat_begin i k now sv))" "E sv (heartbeat_finish i k l now sv)"
  using E_trans [OF e_apply_lookup e_sequenced]
  by (simp_all add: heartbeat_begin_def heartbeat_finish_def Let_def E_refl e_close e_apply_lookup
      split: option.split sum.split)

lemma e_socket:
  "E sv (on_upgrade i now sv)" "E sv (on_open i sv)" "E sv (on_auth_timeout i sv)"
  "E sv (snd (on_message i j now sv))" "E sv (on_close i sv)" "E sv (on_drain i sv)"
proof -
  show "E sv (on_auth_timeout i sv)" using E_trans [OF e_json e_close]
    by (simp add: on_auth_timeout_def E_refl split: option.split)
  show "E sv (snd (on_message i j now sv))"
    using E_trans [OF e_on_conn e_close]
    by (simp add: on_message_def Let_def E_refl e_on_conn case_prod_unfold
        split: option.split connection_phase.split)
qed (simp_all add: on_upgrade_def on_open_def on_close_def on_drain_def E_conns e_close e_on_conn
    e_cleanup)

lemma e_lifecycle:
  "E sv (snd (server_start b sv))" "E sv (snd (stop_begin sv))" "E sv (snd (stop_close sv))"
  "E sv (stop_finish ids sv)"
proof -
  show "E sv (snd (server_start b sv))"
    by (simp add: server_start_def E_refl E_state split: bind_result.split)
  have "E s (drain_one s i)" for s i
    using E_trans [OF e_sequenced e_on_conn]
    by (simp add: drain_one_def E_refl split: option.split)
  then have "E s (foldl drain_one s ids)" for s ids by (rule e_foldl)
  then have "E sv (foldl drain_one (sv\<lparr>sv_state := SvDraining\<rparr>) ids)" for ids
    by (rule E_trans [OF E_state])
  then show "E sv (snd (stop_begin sv))"
    by (simp add: stop_begin_def E_refl)
  show "E sv (snd (stop_close sv))" by (simp add: stop_close_def e_foldl e_close)
  have "E sv (foldl (\<lambda>s i. cleanupConnection i s) sv ids)" by (rule e_foldl) (rule e_cleanup)
  from E_trans [OF E_trans [OF this E_clear] E_state]
  show "E sv (stop_finish ids sv)" by (simp add: stop_finish_def)
qed

lemmas e_all = e_auth_begin e_auth_lookup e_auth_finish e_requests e_broadcast e_invalidate
  e_heartbeat e_socket e_lifecycle

lemma e_next: "E sv (ws_next step sv)"
  by (cases step) (simp_all add: e_all)

end

section \<open>Replay states stay gapless\<close>

definition replays_ok :: "('e, 'r) ws_server \<Rightarrow> bool" where
  "replays_ok sv \<longleftrightarrow>
     (\<forall>k st. map_get (sv_states sv) k = Some st \<longrightarrow>
        replay_ok (wc_replayBufferSize (sv_config sv) - 1) st)"

definition keeps_replays :: "('e, 'r) ws_server \<Rightarrow> ('e, 'r) ws_server \<Rightarrow> bool" where
  "keeps_replays sv sv' \<longleftrightarrow>
     sv_config sv' = sv_config sv
     \<and> (0 < wc_replayBufferSize (sv_config sv) \<and> replays_ok sv \<longrightarrow> replays_ok sv')"

interpretation replays: server_steps keeps_replays
proof unfold_locales
  fix sv :: "('e, 'r) ws_server" and k e rs
  assume "map_get (sv_states sv) k = Some rs"
  then show "keeps_replays sv (sv\<lparr>sv_states := map_set k (snd (sequenceEvent rs e)) (sv_states sv)\<rparr>)"
    by (auto simp: keeps_replays_def replays_ok_def replay_ok_sequence)
next
  fix sv :: "('e, 'r) ws_server" and k
  have "replay_ok (n - 1) (new_replay_state n)" if "0 < n" for n
    using replay_ok_new [of "n - 1"] that by simp
  then show "keeps_replays sv (sv\<lparr>sv_states := map_set k
      (new_replay_state (wc_replayBufferSize (sv_config sv))) (sv_states sv)\<rparr>)"
    by (auto simp: keeps_replays_def replays_ok_def)
qed (auto simp: keeps_replays_def replays_ok_def registry_add_def registry_remove_def)

lemma reachable_replays:
  assumes "ws_reachable config sv" and "0 < wc_replayBufferSize config"
  shows "sv_config sv = config \<and> replays_ok sv"
  using assms(1)
proof (induction rule: ws_reachable.induct)
  case (wr_init wire project)
  show ?case by (simp add: createWsServer_def replays_ok_def)
next
  case (wr_step sv step)
  with replays.e_next [of sv step] assms(2) show ?case by (simp add: keeps_replays_def)
qed


section \<open>Who is sent what\<close>

definition keeps_registry :: "('e, 'r) ws_server \<Rightarrow> ('e, 'r) ws_server \<Rightarrow> bool" where
  "keeps_registry sv sv' \<longleftrightarrow> (distinct (sv_registry sv) \<longrightarrow> distinct (sv_registry sv'))"

interpretation registry: server_steps keeps_registry
  by unfold_locales (auto simp: keeps_registry_def registry_add_def registry_remove_def)

lemma reachable_registry: "ws_reachable config sv \<Longrightarrow> distinct (sv_registry sv)"
proof (induction rule: ws_reachable.induct)
  case (wr_step sv step)
  with registry.e_next [of sv step] show ?case by (simp add: keeps_registry_def)
qed (simp add: createWsServer_def)

lemma on_conn_get [simp]:
  "map_get (sv_conns (on_conn i f sv)) j =
     (if j = i then map_option f (map_get (sv_conns sv) i) else map_get (sv_conns sv) j)"
  by (simp add: on_conn_def split: option.split)

lemma on_conn_frame [simp]:
  "sv_registry (on_conn i f sv) = sv_registry sv" "sv_pending (on_conn i f sv) = sv_pending sv"
  "sv_project (on_conn i f sv) = sv_project sv" "sv_config (on_conn i f sv) = sv_config sv"
  "sv_states (on_conn i f sv) = sv_states sv" "sv_wire (on_conn i f sv) = sv_wire sv"
  by (simp_all add: on_conn_def split: option.split)

abbreviation is_warning :: "('e, 'r) out_frame \<Rightarrow> bool" where
  "is_warning f \<equiv> (\<exists>a b. f = BackpressureOut a b)"

text \<open>
  \<open>gains fs sv sv' i\<close>: between the two states connection \<open>i\<close> was handed the frames \<open>fs\<close> and
  otherwise at most had its backpressure counted and its socket closed.
\<close>

definition gains ::
  "('e, 'r) out_frame list \<Rightarrow> ('e, 'r) connection \<Rightarrow> ('e, 'r) connection \<Rightarrow> bool" where
  "gains fs c c' \<longleftrightarrow>
     cn_outbox c' = cn_outbox c @ fs \<and> cn_phase c' = cn_phase c
     \<and> cn_credential c' = cn_credential c \<and> cn_credentialId c' = cn_credentialId c
     \<and> cn_replay c' = cn_replay c"

lemma gains_refl: "gains [] c c"
  by (simp add: gains_def)

lemma gains_trans: "gains fs a b \<Longrightarrow> gains gs b c \<Longrightarrow> gains (fs @ gs) a c"
  by (simp add: gains_def)

lemma close_gains:
  "map_get (sv_conns sv) i = Some c \<Longrightarrow>
     \<exists>c'. map_get (sv_conns (close_ws i code sv)) i = Some c' \<and> gains [] c c'"
  by (simp add: close_ws_def gains_def)

lemma json_gains:
  "map_get (sv_conns sv) i = Some c \<Longrightarrow>
     \<exists>c'. map_get (sv_conns (sendJson i d sv)) i = Some c' \<and> gains [d] c c'"
  by (simp add: sendJson_def gains_def)

lemma check_gains:
  assumes "map_get (sv_conns sv) i = Some c"
  shows "\<exists>c' fs. map_get (sv_conns (check_backpressure i sv)) i = Some c' \<and> gains fs c c'
    \<and> (\<forall>f \<in> set fs. is_warning f)"
proof -
  let ?b = "cn_backpressure c"
  let ?sv1 = "on_conn i (\<lambda>c. c\<lparr>cn_backpressure := bp_markNotified (cn_backpressure c)\<rparr>) sv"
  let ?d = "BackpressureOut (bp_depth ?b) (wc_hardLimit (sv_config sv))"
  let ?sv2 = "sendJson i ?d ?sv1"
  have bp: "conn_bp i sv = Some ?b" using assms by (simp add: conn_bp_def)
  obtain c1 where c1: "map_get (sv_conns ?sv1) i = Some c1" "gains [] c c1"
    using assms by (simp add: gains_def)
  from json_gains [OF c1(1), of ?d] obtain c2 where
    c2: "map_get (sv_conns ?sv2) i = Some c2" "gains [?d] c1 c2" by blast
  from close_gains [OF c2(1), of BACKPRESSURE] obtain c3 where
    c3: "map_get (sv_conns (close_ws i BACKPRESSURE ?sv2)) i = Some c3" "gains [] c2 c3" by blast
  have g2: "gains [?d] c c2" "gains [?d] c c3"
    using gains_trans [OF c1(2) c2(2)] gains_trans [OF gains_trans [OF c1(2) c2(2)] c3(2)] by simp_all
  have bp2: "conn_bp i ?sv2 = Some (cn_backpressure c2)" using c2(1) by (simp add: conn_bp_def)
  consider (over) "bp_state ?b = BpExceeded" | (warn) "bp_state ?b = BpWarning" "\<not> bp_notified ?b"
    | (fine) "bp_state ?b \<noteq> BpExceeded" "\<not> (bp_state ?b = BpWarning \<and> \<not> bp_notified ?b)" by blast
  then show ?thesis
  proof cases
    case over
    with close_gains [OF assms, of BACKPRESSURE] bp show ?thesis
      by (fastforce simp: check_backpressure_def)
  next
    case warn
    have res: "check_backpressure i sv
        = (if bp_state (cn_backpressure c2) = BpExceeded then close_ws i BACKPRESSURE ?sv2 else ?sv2)"
      using warn bp bp2 by (simp add: check_backpressure_def Let_def)
    show ?thesis
    proof (cases "bp_state (cn_backpressure c2) = BpExceeded")
      case True
      then have "check_backpressure i sv = close_ws i BACKPRESSURE ?sv2" using res by simp
      with c3(1) g2(2) show ?thesis by (intro exI [of _ c3] exI [of _ "[?d]"]) simp
    next
      case False
      then have "check_backpressure i sv = ?sv2" using res by simp
      with c2(1) g2(1) show ?thesis by (intro exI [of _ c2] exI [of _ "[?d]"]) simp
    qed
  next
    case fine
    then have "check_backpressure i sv = sv" using bp by (auto simp: check_backpressure_def)
    with assms gains_refl show ?thesis by (intro exI [of _ c] exI [of _ "[]"]) simp
  qed
qed

lemma close_frame [simp]:
  "sv_registry (close_ws i d sv) = sv_registry sv" "sv_pending (close_ws i d sv) = sv_pending sv"
  "sv_project (close_ws i d sv) = sv_project sv" "sv_states (close_ws i d sv) = sv_states sv"
  "j \<noteq> i \<Longrightarrow> map_get (sv_conns (close_ws i d sv)) j = map_get (sv_conns sv) j"
  by (simp_all add: close_ws_def)

lemma json_frame [simp]:
  "sv_registry (sendJson i m sv) = sv_registry sv" "sv_pending (sendJson i m sv) = sv_pending sv"
  "sv_project (sendJson i m sv) = sv_project sv" "sv_states (sendJson i m sv) = sv_states sv"
  "j \<noteq> i \<Longrightarrow> map_get (sv_conns (sendJson i m sv)) j = map_get (sv_conns sv) j"
  by (simp_all add: sendJson_def)

lemma check_frame [simp]:
  "sv_registry (check_backpressure i sv) = sv_registry sv"
  "sv_pending (check_backpressure i sv) = sv_pending sv"
  "sv_project (check_backpressure i sv) = sv_project sv"
  "j \<noteq> i \<Longrightarrow> map_get (sv_conns (check_backpressure i sv)) j = map_get (sv_conns sv) j"
  by (simp_all add: check_backpressure_def Let_def split: option.split)

lemma sequenced_frame [simp]:
  "sv_registry (sendSequenced i e sv) = sv_registry sv"
  "sv_pending (sendSequenced i e sv) = sv_pending sv"
  "sv_project (sendSequenced i e sv) = sv_project sv"
  "j \<noteq> i \<Longrightarrow> map_get (sv_conns (sendSequenced i e sv)) j = map_get (sv_conns sv) j"
  by (simp_all add: sendSequenced_def case_prod_unfold split: option.split)

text \<open>A numbered event is either not sent at all or first in what is handed over.\<close>

lemma sequenced_gains:
  assumes "map_get (sv_conns sv) i = Some c"
  shows "\<exists>c' fs. map_get (sv_conns (sendSequenced i e sv)) i = Some c' \<and> gains fs c c'
    \<and> (fs = [] \<and> c' = c \<or> (\<exists>n ws. fs = SequencedOut \<lparr>sf_seq = n, sf_event = e\<rparr> # ws
          \<and> (\<forall>f \<in> set ws. is_warning f)))"
proof (cases "\<exists>k st. cn_replay c = Some k \<and> map_get (sv_states sv) k = Some st")
  case True
  then obtain k st where k: "cn_replay c = Some k" "map_get (sv_states sv) k = Some st" by blast
  let ?f = "\<lparr>sf_seq = rs_nextSeq st, sf_event = e\<rparr>"
  let ?sv = "sv\<lparr>sv_states := map_set k (snd (sequenceEvent st e)) (sv_states sv)\<rparr>"
  have sent: "sendSequenced i e sv = check_backpressure i (sendJson i (SequencedOut ?f) ?sv)"
    using assms k by (simp add: sendSequenced_def sequenceEvent_def Let_def)
  have "map_get (sv_conns ?sv) i = Some c" using assms by simp
  from json_gains [OF this] obtain c1 where
    c1: "map_get (sv_conns (sendJson i (SequencedOut ?f) ?sv)) i = Some c1"
      "gains [SequencedOut ?f] c c1" by blast
  from check_gains [OF c1(1)] obtain c' ws where
    c': "map_get (sv_conns (sendSequenced i e sv)) i = Some c'" "gains ws c1 c'"
      "\<forall>f \<in> set ws. is_warning f" unfolding sent by blast
  from gains_trans [OF c1(2) c'(2)] have "gains (SequencedOut ?f # ws) c c'" by simp
  with c' show ?thesis by blast
next
  case False
  then have "sendSequenced i e sv = sv"
    using assms by (auto simp: sendSequenced_def split: option.split)
  with assms gains_refl show ?thesis by auto
qed

text \<open>What a broadcast may show a connection.\<close>

definition shown :: "('e, 'r) ws_server \<Rightarrow> ('e, 'r) connection \<Rightarrow> 'e \<Rightarrow> 'e \<Rightarrow> bool" where
  "shown sv c e p \<longleftrightarrow>
     cn_phase c = PhActive \<and> (\<exists>cred. cn_credential c = Some cred \<and> sc_status cred = StActive
       \<and> (case sv_project sv of None \<Rightarrow> p = e | Some project \<Rightarrow> project e cred = Some p))"

lemma deliver_gains:
  assumes "map_get (sv_conns sv) i = Some c"
  shows "\<exists>c' fs. map_get (sv_conns (deliver e sv i)) i = Some c' \<and> gains fs c c'
    \<and> (fs = [] \<and> c' = c \<or> (\<exists>p n ws. shown sv c e p
          \<and> fs = SequencedOut \<lparr>sf_seq = n, sf_event = AppEvent p\<rparr> # ws \<and> (\<forall>f \<in> set ws. is_warning f)))"
proof (cases "\<exists>p. shown sv c e p")
  case True
  then obtain p where p: "shown sv c e p" by blast
  then have "deliver e sv i = sendSequenced i (AppEvent p) sv"
    using assms by (auto simp: deliver_def shown_def split: option.splits)
  with sequenced_gains [OF assms, of "AppEvent p"] p show ?thesis by metis
next
  case False
  then have "deliver e sv i = sv"
    using assms by (auto simp: deliver_def shown_def split: option.splits)
  with assms gains_refl show ?thesis by auto
qed

lemma deliver_frame [simp]:
  "sv_registry (deliver e sv i) = sv_registry sv" "sv_pending (deliver e sv i) = sv_pending sv"
  "sv_project (deliver e sv i) = sv_project sv"
  "j \<noteq> i \<Longrightarrow> map_get (sv_conns (deliver e sv i)) j = map_get (sv_conns sv) j"
  by (simp_all add: deliver_def split: option.split)

lemma deliver_all:
  assumes "map_get (sv_conns sv) i = Some c" and "distinct ids"
  shows "\<exists>c' fs. map_get (sv_conns (foldl (deliver e) sv ids)) i = Some c' \<and> gains fs c c'
    \<and> (fs = [] \<and> c' = c \<or> i \<in> set ids \<and> (\<exists>p n ws. shown sv c e p
          \<and> fs = SequencedOut \<lparr>sf_seq = n, sf_event = AppEvent p\<rparr> # ws \<and> (\<forall>f \<in> set ws. is_warning f)))"
  using assms
proof (induction ids arbitrary: sv)
  case Nil
  then show ?case using gains_refl by auto
next
  case (Cons j ids)
  show ?case
  proof (cases "j = i")
    case True
    from deliver_gains [OF Cons.prems(1), of e] obtain c' fs where
      c': "map_get (sv_conns (deliver e sv i)) i = Some c'" "gains fs c c'"
      "fs = [] \<and> c' = c \<or> (\<exists>p n ws. shown sv c e p
          \<and> fs = SequencedOut \<lparr>sf_seq = n, sf_event = AppEvent p\<rparr> # ws \<and> (\<forall>f \<in> set ws. is_warning f))"
      by blast
    have "i \<notin> set ids" using Cons.prems(2) True by simp
    then have rest: "map_get (sv_conns (foldl (deliver e) s ids)) i = map_get (sv_conns s) i" for s
      by (induction ids arbitrary: s) simp_all
    show ?thesis unfolding foldl_Cons True rest using c' by auto
  next
    case False
    then have "map_get (sv_conns (deliver e sv j)) i = Some c" using Cons.prems(1) by simp
    moreover have sh: "shown (deliver e sv j) c e p \<longleftrightarrow> shown sv c e p" for p
      by (simp add: shown_def)
    moreover have "distinct ids" using Cons.prems(2) by simp
    ultimately show ?thesis using Cons.IH [of "deliver e sv j"]
      unfolding foldl_Cons sh by (metis list.set_intros(2))
  qed
qed

lemma credential_ids:
  "i \<in> set (getByCredentialId k sv) \<longleftrightarrow>
     i \<in> set (sv_registry sv) \<and> (\<exists>c. map_get (sv_conns sv) i = Some c \<and> cn_credentialId c = Some k)"
  by (auto simp: getByCredentialId_def split: option.splits)

text \<open>
  C3. A broadcast touches a connection only to show it the event: in every reachable server the
  connection is registered, active and authenticated for that credential, its cached record is
  active and the projector lets the event through for that record; and it is sent the projected
  event once, followed at most by a backpressure warning.
\<close>

theorem broadcast_only_to_authorized:
  assumes "ws_reachable config sv" and "map_get (sv_conns sv) i = Some c"
    and "map_get (sv_conns (broadcastToCredential k e sv)) i = Some c'" and "c' \<noteq> c"
  shows "map_get (sv_pending sv) k = None \<and> i \<in> set (sv_registry sv)
    \<and> cn_credentialId c = Some k \<and> cn_phase c = PhActive
    \<and> (\<exists>cred p n ws. cn_credential c = Some cred \<and> sc_status cred = StActive
         \<and> (case sv_project sv of None \<Rightarrow> p = e | Some project \<Rightarrow> project e cred = Some p)
         \<and> cn_outbox c' = cn_outbox c @ SequencedOut \<lparr>sf_seq = n, sf_event = AppEvent p\<rparr> # ws
         \<and> (\<forall>f \<in> set ws. is_warning f))"
proof (cases "map_get (sv_pending sv) k")
  case (Some p)
  with assms(2-4) show ?thesis by (simp add: broadcastToCredential_def)
next
  case None
  let ?ids = "getByCredentialId k sv"
  have "distinct ?ids" using reachable_registry [OF assms(1)] by (simp add: getByCredentialId_def)
  from deliver_all [OF assms(2) this, of e] obtain d fs where
    d: "map_get (sv_conns (foldl (deliver e) sv ?ids)) i = Some d" "gains fs c d"
    "fs = [] \<and> d = c \<or> i \<in> set ?ids \<and> (\<exists>p n ws. shown sv c e p
        \<and> fs = SequencedOut \<lparr>sf_seq = n, sf_event = AppEvent p\<rparr> # ws \<and> (\<forall>f \<in> set ws. is_warning f))"
    by blast
  have "d = c'" using d(1) assms(3) None by (simp add: broadcastToCredential_def)
  with d(3) assms(4) obtain p n ws where "i \<in> set ?ids" "shown sv c e p"
    "fs = SequencedOut \<lparr>sf_seq = n, sf_event = AppEvent p\<rparr> # ws" "\<forall>f \<in> set ws. is_warning f" by blast
  with d(2) \<open>d = c'\<close> None assms(2) show ?thesis
    by (auto simp: shown_def gains_def credential_ids)
qed

section \<open>Invalidations\<close>

lemma broadcast_queued:
  "map_get (sv_pending sv) k = Some p \<Longrightarrow>
     broadcastToCredential k e sv =
       sv\<lparr>sv_pending := map_set k (p\<lparr>pi_events := pi_events p @ [e]\<rparr>) (sv_pending sv)\<rparr>"
  by (simp add: broadcastToCredential_def)

lemma deliver_foldl_frame [simp]:
  "sv_registry (foldl (deliver e) sv ids) = sv_registry sv"
  "sv_pending (foldl (deliver e) sv ids) = sv_pending sv"
  "sv_project (foldl (deliver e) sv ids) = sv_project sv"
  by (induction ids arbitrary: sv) simp_all

text \<open>Draining a queue: every frame a connection gets stems from a queued event.\<close>

definition from_queue :: "('e, 'r) ws_server \<Rightarrow> ('e, 'r) connection \<Rightarrow> 'e list \<Rightarrow> ('e, 'r) out_frame \<Rightarrow> bool" where
  "from_queue sv c es f \<longleftrightarrow> is_warning f \<or>
     (\<exists>e \<in> set es. \<exists>p n. shown sv c e p \<and> f = SequencedOut \<lparr>sf_seq = n, sf_event = AppEvent p\<rparr>)"

lemma shown_gains:
  "gains fs c c' \<Longrightarrow> sv_project sv' = sv_project sv \<Longrightarrow> shown sv' c' e p = shown sv c e p"
  by (auto simp: gains_def shown_def)

lemma drain_queue:
  assumes "map_get (sv_conns sv) i = Some c" and "map_get (sv_pending sv) k = None"
    and "distinct (sv_registry sv)"
  shows "\<exists>c' fs. map_get (sv_conns (foldl (\<lambda>s e. broadcastToCredential k e s) sv es)) i = Some c'
    \<and> gains fs c c' \<and> (\<forall>f \<in> set fs. from_queue sv c es f)
    \<and> (fs \<noteq> [] \<longrightarrow> i \<in> set (sv_registry sv) \<and> cn_credentialId c = Some k)"
  using assms
proof (induction es arbitrary: sv c)
  case Nil
  then show ?case by (intro exI [of _ c] exI [of _ "[]"]) (simp add: gains_refl)
next
  case (Cons e es)
  let ?ids = "getByCredentialId k sv"
  have b: "broadcastToCredential k e sv = foldl (deliver e) sv ?ids"
    using Cons.prems(2) by (simp add: broadcastToCredential_def)
  have "distinct ?ids" using Cons.prems(3) by (simp add: getByCredentialId_def)
  from deliver_all [OF Cons.prems(1) this, of e] obtain d fs where
    d: "map_get (sv_conns (foldl (deliver e) sv ?ids)) i = Some d" "gains fs c d"
    "fs = [] \<or> (\<exists>p n ws. shown sv c e p
        \<and> fs = SequencedOut \<lparr>sf_seq = n, sf_event = AppEvent p\<rparr> # ws \<and> (\<forall>f \<in> set ws. is_warning f))"
    "fs \<noteq> [] \<longrightarrow> i \<in> set ?ids"
    by blast
  have idc: "cn_credentialId d = cn_credentialId c" using d(2) by (simp add: gains_def)
  have who: "fs \<noteq> [] \<longrightarrow> i \<in> set (sv_registry sv) \<and> cn_credentialId c = Some k"
    using d(4) Cons.prems(1) by (auto simp: credential_ids)
  from Cons.IH [OF d(1)] Cons.prems(2,3) obtain c' gs where
    c': "map_get (sv_conns (foldl (\<lambda>s e. broadcastToCredential k e s)
          (foldl (deliver e) sv ?ids) es)) i = Some c'" "gains gs d c'"
    "\<forall>f \<in> set gs. from_queue (foldl (deliver e) sv ?ids) d es f"
    "gs \<noteq> [] \<longrightarrow> i \<in> set (sv_registry sv) \<and> cn_credentialId d = Some k" by auto
  have same: "shown (foldl (deliver e) sv ?ids) d x p = shown sv c x p" for x p
    by (rule shown_gains [OF d(2)]) simp
  have "from_queue sv c (e # es) f" if "f \<in> set (fs @ gs)" for f
  proof (cases "f \<in> set gs")
    case True
    with c'(3) show ?thesis by (auto simp: from_queue_def same)
  next
    case False
    with that have f: "f \<in> set fs" by simp
    with d(3) obtain p n ws where ws: "shown sv c e p"
      "fs = SequencedOut \<lparr>sf_seq = n, sf_event = AppEvent p\<rparr> # ws" "\<forall>f \<in> set ws. is_warning f"
      by (metis empty_iff list.set(1))
    with f have "f = SequencedOut \<lparr>sf_seq = n, sf_event = AppEvent p\<rparr> \<or> is_warning f" by auto
    with ws(1) show ?thesis unfolding from_queue_def by (metis list.set_intros(1))
  qed
  moreover have "fs @ gs \<noteq> [] \<longrightarrow> i \<in> set (sv_registry sv) \<and> cn_credentialId c = Some k"
    using who c'(4) idc by auto
  ultimately show ?case using c'(1) gains_trans [OF d(2) c'(2)] unfolding foldl_Cons b by blast
qed

lemma invalidate_one_get:
  assumes "map_get (sv_conns sv) i = Some c"
  shows "\<exists>c'. map_get (sv_conns (invalidate_one (Inr fresh) sv j)) i = Some c'
    \<and> cn_outbox c' = cn_outbox c \<and> cn_phase c' = cn_phase c \<and> cn_credentialId c' = cn_credentialId c
    \<and> (cn_credential c' = cn_credential c \<or> cn_credential c' = Some fresh)
    \<and> (j = i \<and> cn_phase c = PhActive \<longrightarrow> cn_credential c' = Some fresh)"
  using assms
  by (cases "j = i")
    (auto simp: invalidate_one_def apply_lookup_def Let_def stopHeartbeat_def close_ws_def
      split: option.split)

lemma invalidate_all:
  assumes "map_get (sv_conns sv) i = Some c"
  shows "\<exists>c'. map_get (sv_conns (foldl (invalidate_one (Inr fresh)) sv ids)) i = Some c'
    \<and> cn_outbox c' = cn_outbox c \<and> cn_phase c' = cn_phase c \<and> cn_credentialId c' = cn_credentialId c
    \<and> (cn_credential c' = cn_credential c \<or> cn_credential c' = Some fresh)
    \<and> (i \<in> set ids \<and> cn_phase c = PhActive \<longrightarrow> cn_credential c' = Some fresh)"
  using assms
proof (induction ids arbitrary: sv c)
  case (Cons j ids)
  from invalidate_one_get [OF Cons.prems, of fresh j] obtain d where
    d: "map_get (sv_conns (invalidate_one (Inr fresh) sv j)) i = Some d"
      "cn_outbox d = cn_outbox c" "cn_phase d = cn_phase c" "cn_credentialId d = cn_credentialId c"
      "cn_credential d = cn_credential c \<or> cn_credential d = Some fresh"
      "j = i \<and> cn_phase c = PhActive \<longrightarrow> cn_credential d = Some fresh" by blast
  from Cons.IH [OF d(1)] d show ?case unfolding foldl_Cons by (metis set_ConsD)
qed auto

lemma invalidate_one_frame [simp]:
  "sv_registry (invalidate_one l sv j) = sv_registry sv"
  "sv_pending (invalidate_one l sv j) = sv_pending sv"
  "sv_project (invalidate_one l sv j) = sv_project sv"
  by (simp_all add: invalidate_one_def apply_lookup_def Let_def stopHeartbeat_def
      split: option.split sum.split)

lemma invalidate_foldl_frame [simp]:
  "sv_registry (foldl (invalidate_one l) sv ids) = sv_registry sv"
  "sv_pending (foldl (invalidate_one l) sv ids) = sv_pending sv"
  "sv_project (foldl (invalidate_one l) sv ids) = sv_project sv"
  by (induction ids arbitrary: sv) simp_all


section \<open>Two races, and the witnesses\<close>

definition ws_run :: "('e, 'r) ws_step list \<Rightarrow> ('e, 'r) ws_server \<Rightarrow> ('e, 'r) ws_server" where
  "ws_run steps sv = foldl (\<lambda>s step. ws_next step s) sv steps"

lemma ws_run_reachable: "ws_reachable config sv \<Longrightarrow> ws_reachable config (ws_run steps sv)"
  unfolding ws_run_def by (induction steps arbitrary: sv) (simp_all add: wr_step)

definition demo_ws_config :: ws_config where
  "demo_ws_config = default_ws_config\<lparr>wc_replayBufferSize := 4\<rparr>"

definition demo_record :: contract_credential where
  "demo_record =
     \<lparr>sc_id = ''cred_1'', sc_config = \<lparr>cfg_operatorId = ''op_1'', cfg_chatIds = [''conv_1''],
        cfg_policyId = None, cfg_allow = Some [], cfg_deny = Some [], cfg_ttlSeconds = None\<rparr>,
      sc_inboxIds = [], sc_status = StActive, sc_issuedAt = 0, sc_expiresAt = 3600000,
      sc_issuedBy = ''owner'', cc_credentialId = ''cred_1'', cc_operatorId = ''op_1'',
      cc_effectiveScopes = \<lparr>allow = [], deny = []\<rparr>, cc_isExpired = False, cc_lastHeartbeat = 0\<rparr>"

definition demo_auth :: "nat option \<Rightarrow> auth_frame" where
  "demo_auth lastSeen = \<lparr>af_token = ''token'', af_lastSeenSeq = lastSeen\<rparr>"

definition demo_connect :: "string \<Rightarrow> nat option \<Rightarrow> (string, unit) ws_step list" where
  "demo_connect i lastSeen =
     [StUpgrade i 0, StOpen i, StMessage i True 1, StAuthBegin i (Some (demo_auth lastSeen))]"

definition demo_welcome :: "string auth_resume" where
  "demo_welcome =
     \<lparr>ar_token = ''token'', ar_credential = demo_record, ar_resumedFrom = None,
      ar_recovery = False, ar_frames = []\<rparr>"

definition demo_server :: "(string, unit) ws_server" where
  "demo_server = createWsServer demo_ws_config (\<lambda>_ _. 1) (Some (\<lambda>e _. Some e))"

definition demo_session :: "(string, unit) ws_server" where
  "demo_session = ws_run
     (demo_connect ''c1'' None
       @ [StAuthLookup ''c1'' (demo_auth None) (Inr demo_record),
          StAuthFinish (\<lambda>t. t) ''c1'' demo_welcome 2,
          StBroadcast ''cred_1'' ''first'', StBroadcast ''cred_1'' ''second'']) demo_server"

definition demo_return :: "(string, unit) ws_server" where
  "demo_return = ws_run (StClose ''c1'' # demo_connect ''c2'' (Some 0)) demo_session"

lemma demo_ws_reachable:
  "ws_reachable demo_ws_config demo_session" "ws_reachable demo_ws_config demo_return"
proof -
  show one: "ws_reachable demo_ws_config demo_session"
    unfolding demo_session_def demo_server_def by (rule ws_run_reachable) (rule wr_init)
  show "ws_reachable demo_ws_config demo_return"
    unfolding demo_return_def by (rule ws_run_reachable) (rule one)
qed

fun frame_number :: "('e, 'r) out_frame \<Rightarrow> nat option" where
  "frame_number (SequencedOut f) = Some (sf_seq f)"
| "frame_number _ = None"

text \<open>
  C39. A resuming harness may be sent frames out of order: an event broadcast while the server
  waits for the fingerprint of the token goes out at once, ahead of the \<open>authenticated\<close> frame
  and of the older frames that are about to be replayed. A harness that takes the first frame
  as the last one it saw will drop the replayed ones.
\<close>

theorem resume_may_reorder:
  "\<exists>r sv1 sv2 c. ws_reachable demo_ws_config demo_return
     \<and> auth_lookup ''c2'' (demo_auth (Some 0)) (Inr demo_record) demo_return = (Some r, sv1)
     \<and> sv2 = auth_finish (\<lambda>t. t) ''c2'' r 3 (broadcastToCredential ''cred_1'' ''third'' sv1)
     \<and> map_get (sv_conns sv2) ''c2'' = Some c
     \<and> map frame_number (cn_outbox c) = [Some 3, None, Some 1, Some 2]"
proof -
  let ?p = "auth_lookup ''c2'' (demo_auth (Some 0)) (Inr demo_record) demo_return"
  have run: "map_option (\<lambda>c. map frame_number (cn_outbox c))
      (map_get (sv_conns (auth_finish (\<lambda>t. t) ''c2'' (the (fst ?p)) 3
         (broadcastToCredential ''cred_1'' ''third'' (snd ?p)))) ''c2'')
      = Some [Some 3, None, Some 1, Some 2]" by code_simp
  have "fst ?p \<noteq> None" by code_simp
  then have p: "?p = (Some (the (fst ?p)), snd ?p)" by (simp add: prod_eq_iff)
  from run obtain c where c: "map_get (sv_conns (auth_finish (\<lambda>t. t) ''c2'' (the (fst ?p)) 3
         (broadcastToCredential ''cred_1'' ''third'' (snd ?p)))) ''c2'' = Some c"
    "map frame_number (cn_outbox c) = [Some 3, None, Some 1, Some 2]"
    unfolding map_option_eq_Some by (elim exE conjE)
  show ?thesis
    by (rule exI, rule exI, rule exI, rule exI,
        rule conjI [OF demo_ws_reachable(2) conjI [OF p conjI [OF refl conjI [OF c]]]])
qed

text \<open>
  A connection that closes while its token is looked up is registered afterwards, with its
  heartbeat armed, although it is closed: its clean-up is over and nothing removes it.
\<close>

definition demo_late :: "(string, unit) ws_server" where
  "demo_late = ws_run (demo_connect ''c9'' None
      @ [StClose ''c9'', StAuthLookup ''c9'' (demo_auth None) (Inr demo_record),
         StAuthFinish (\<lambda>t. t) ''c9'' demo_welcome 2]) demo_server"

theorem closed_connection_registered:
  "\<exists>c. ws_reachable demo_ws_config demo_late \<and> map_get (sv_conns demo_late) ''c9'' = Some c
     \<and> cn_phase c = PhClosed \<and> ''c9'' \<in> set (sv_registry demo_late) \<and> cn_heartbeatTimer c"
proof -
  have "map_option (\<lambda>c. (cn_phase c, cn_heartbeatTimer c)) (map_get (sv_conns demo_late) ''c9'')
      = Some (PhClosed, True)" by code_simp
  then obtain c where "map_get (sv_conns demo_late) ''c9'' = Some c" "cn_phase c = PhClosed"
    "cn_heartbeatTimer c" unfolding map_option_eq_Some by auto
  moreover have "sv_registry demo_late = [''c9'']" by code_simp
  moreover have "ws_reachable demo_ws_config demo_late"
    unfolding demo_late_def demo_server_def by (rule ws_run_reachable) (rule wr_init)
  ultimately show ?thesis by simp
qed


theorem broadcast_only_to_authorized_witness:
  "\<exists>c c' cred p. map_get (sv_conns demo_session) ''c1'' = Some c
     \<and> map_get (sv_conns (broadcastToCredential ''cred_1'' ''third'' demo_session)) ''c1'' = Some c'
     \<and> c' \<noteq> c \<and> cn_credential c = Some cred \<and> sc_status cred = StActive \<and> p = ''third''"
proof -
  have "map_option (\<lambda>c. length (cn_outbox c)) (map_get (sv_conns demo_session) ''c1'') = Some 3"
    "map_option (\<lambda>c. length (cn_outbox c)) (map_get (sv_conns
       (broadcastToCredential ''cred_1'' ''third'' demo_session)) ''c1'') = Some 4" by code_simp+
  then obtain c c' where c: "map_get (sv_conns demo_session) ''c1'' = Some c"
    "map_get (sv_conns (broadcastToCredential ''cred_1'' ''third'' demo_session)) ''c1'' = Some c'"
    "c' \<noteq> c" by fastforce
  from broadcast_only_to_authorized [OF demo_ws_reachable(1) c] c show ?thesis by blast
qed

definition demo_invalidating :: "(string, unit) ws_server" where
  "demo_invalidating = ws_run [StInvalidateBegin ''cred_1'', StBroadcast ''cred_1'' ''third'']
     demo_session"


end
