(* ===== verification/Encoding.thy ===== *)
theory Encoding
  imports Json
begin

text \<open>
  The text encodings of the JavaScript run time that seals, bindings and bundles travel in:
  \<open>btoa\<close> and \<open>atob\<close> (forgiving base64, as the HTML standard defines it) and the strings of
  \<open>String.fromCharCode\<close>. \<open>atob\<close> throws an InvalidCharacterError on what it cannot decode;
  that is \<open>None\<close>.
\<close>

section \<open>Bytes and binary strings\<close>

definition from_bytes :: "8 word list \<Rightarrow> string" where
  "from_bytes bs = map (\<lambda>b. char_of (unat b)) bs"

definition to_bytes :: "string \<Rightarrow> 8 word list" where
  "to_bytes s = map (\<lambda>c. of_nat (of_char c)) s"

lemma to_from_bytes [simp]: "to_bytes (from_bytes bs) = bs"
proof -
  have "of_nat (of_char (char_of (unat b) :: char)) = b" for b :: "8 word"
  proof -
    have "unat b < 256" using unsigned_less [of b] by simp
    then show ?thesis by simp
  qed
  then show ?thesis by (simp add: to_bytes_def from_bytes_def comp_def)
qed

lemma from_to_bytes [simp]: "from_bytes (to_bytes s) = s"
proof -
  have "char_of (unat (of_nat (of_char c) :: 8 word)) = c" for c :: char
  proof -
    have "(of_char c :: nat) < 256" by simp
    then have "unat (of_nat (of_char c) :: 8 word) = of_char c" by (simp add: unat_of_nat)
    then show ?thesis by simp
  qed
  then show ?thesis by (simp add: to_bytes_def from_bytes_def comp_def)
qed

section \<open>Base64\<close>

definition b64_alphabet :: string where
  "b64_alphabet = ''ABCDEFGHIJKLMNOPQRSTUVWXYZabcdefghijklmnopqrstuvwxyz0123456789+/''"

definition b64_char :: "nat \<Rightarrow> char" where
  "b64_char n = b64_alphabet ! n"

fun index_in :: "char \<Rightarrow> string \<Rightarrow> nat" where
  "index_in c [] = 0"
| "index_in c (d # ds) = (if c = d then 0 else Suc (index_in c ds))"

fun b64_encode :: "nat list \<Rightarrow> string" where
  "b64_encode [] = []"
| "b64_encode [a] = [b64_char (a div 4), b64_char (a mod 4 * 16), CHR ''='', CHR ''='']"
| "b64_encode [a, b] =
     [b64_char (a div 4), b64_char (a mod 4 * 16 + b div 16), b64_char (b mod 16 * 4), CHR ''='']"
| "b64_encode (a # b # c # r) =
     b64_char (a div 4) # b64_char (a mod 4 * 16 + b div 16)
       # b64_char (b mod 16 * 4 + c div 64) # b64_char (c mod 64) # b64_encode r"

definition btoa :: "string \<Rightarrow> string" where
  "btoa s = b64_encode (map of_char s)"

fun b64_decode :: "nat list \<Rightarrow> nat list" where
  "b64_decode (w # x # y # z # r) =
     (w * 4 + x div 16) # (x mod 16 * 16 + y div 4) # (y mod 4 * 64 + z) # b64_decode r"
| "b64_decode [w, x, y] = [w * 4 + x div 16, x mod 16 * 16 + y div 4]"
| "b64_decode [w, x] = [w * 4 + x div 16]"
| "b64_decode _ = []"

definition ascii_whitespace :: "char \<Rightarrow> bool" where
  "ascii_whitespace c \<longleftrightarrow> (of_char c :: nat) \<in> {9, 10, 12, 13, 32}"

definition strip_padding :: "string \<Rightarrow> string" where
  "strip_padding s =
     (if length s mod 4 \<noteq> 0 then s
      else if 2 \<le> length s \<and> drop (length s - 2) s = ''=='' then take (length s - 2) s
      else if s \<noteq> [] \<and> last s = CHR ''='' then butlast s
      else s)"

definition atob :: "string \<Rightarrow> string option" where
  "atob s =
     (let t = strip_padding (filter (\<lambda>c. \<not> ascii_whitespace c) s) in
      if length t mod 4 = 1 \<or> \<not> list_all (\<lambda>c. c \<in> set b64_alphabet) t then None
      else Some (map char_of (b64_decode (map (\<lambda>c. index_in c b64_alphabet) t))))"

section \<open>The round trip\<close>

text \<open>The digits of an encoding without its padding.\<close>

fun b64_digits :: "nat list \<Rightarrow> nat list" where
  "b64_digits [] = []"
| "b64_digits [a] = [a div 4, a mod 4 * 16]"
| "b64_digits [a, b] = [a div 4, a mod 4 * 16 + b div 16, b mod 16 * 4]"
| "b64_digits (a # b # c # r) =
     a div 4 # (a mod 4 * 16 + b div 16) # (b mod 16 * 4 + c div 64) # (c mod 64) # b64_digits r"

definition pad_count :: "nat \<Rightarrow> nat" where
  "pad_count n = (if n mod 3 = 0 then 0 else 3 - n mod 3)"

lemma b64_encode_digits:
  "b64_encode bs = map b64_char (b64_digits bs) @ replicate (pad_count (length bs)) CHR ''=''"
  by (induction bs rule: b64_encode.induct) (simp_all add: pad_count_def numeral_2_eq_2)

lemma b64_digits_small: "list_all (\<lambda>b. b < 256) bs \<Longrightarrow> list_all (\<lambda>d. d < 64) (b64_digits bs)"
  by (induction bs rule: b64_digits.induct) (auto simp: less_mult_imp_div_less)

lemma b64_digits_length: "length (b64_digits bs) = length bs + (length bs + 2) div 3"
  by (induction bs rule: b64_digits.induct) auto

lemma pad_length:
  "(n + (n + 2) div 3) mod 4 = (4 - pad_count n) mod 4 \<and> (n + (n + 2) div 3) mod 4 \<noteq> 1"
proof -
  define q where "q = n div 3"
  consider "n = 3 * q" | "n = 3 * q + 1" | "n = 3 * q + 2" unfolding q_def by arith
  then show ?thesis
  proof cases
    case 1
    moreover have "(3 * q + 2) div 3 = q" by simp
    moreover have "3 * q + q = 4 * q" by simp
    ultimately show ?thesis by (simp add: pad_count_def)
  next
    case 2
    have "(3 * q + 1 + 2) div 3 = q + 1" by simp
    with 2 have "n + (n + 2) div 3 = 4 * q + 2" by simp
    moreover have "(4 * q + 2) mod 4 = 2" by presburger
    moreover from 2 have "n mod 3 = 1" by presburger
    ultimately show ?thesis by (simp add: pad_count_def)
  next
    case 3
    have "(3 * q + 2 + 2) div 3 = q + 1" by simp
    with 3 have "n + (n + 2) div 3 = 4 * q + 3" by simp
    moreover have "(4 * q + 3) mod 4 = 3" by presburger
    moreover from 3 have "n mod 3 = 2" by presburger
    ultimately show ?thesis by (simp add: pad_count_def)
  qed
qed

lemma b64_regroup:
  fixes a b c :: nat
  shows "a div 4 * 4 + a mod 4 * 16 div 16 = a"
    and "b < 256 \<Longrightarrow> a div 4 * 4 + (a mod 4 * 16 + b div 16) div 16 = a"
    and "b < 256 \<Longrightarrow> (a mod 4 * 16 + b div 16) mod 16 * 16 + b mod 16 * 4 div 4 = b"
    and "b < 256 \<Longrightarrow> c < 256 \<Longrightarrow>
      (a mod 4 * 16 + b div 16) mod 16 * 16 + (b mod 16 * 4 + c div 64) div 4 = b"
    and "c < 256 \<Longrightarrow> (b mod 16 * 4 + c div 64) mod 4 * 64 + c mod 64 = c"
proof -
  have b: "(a mod 4 * 16 + b div 16) mod 16 = b div 16" "(a mod 4 * 16 + b div 16) div 16 = a mod 4"
    if "b < 256" using that by (simp_all add: less_mult_imp_div_less)
  have c: "(b mod 16 * 4 + c div 64) mod 4 = c div 64" "(b mod 16 * 4 + c div 64) div 4 = b mod 16"
    if "c < 256" using that by (simp_all add: less_mult_imp_div_less)
  show "a div 4 * 4 + a mod 4 * 16 div 16 = a" by simp
  show "b < 256 \<Longrightarrow> a div 4 * 4 + (a mod 4 * 16 + b div 16) div 16 = a" by (simp add: b)
  show "b < 256 \<Longrightarrow> (a mod 4 * 16 + b div 16) mod 16 * 16 + b mod 16 * 4 div 4 = b"
    by (simp add: b)
  show "b < 256 \<Longrightarrow> c < 256 \<Longrightarrow>
      (a mod 4 * 16 + b div 16) mod 16 * 16 + (b mod 16 * 4 + c div 64) div 4 = b"
    by (simp add: b c)
  show "c < 256 \<Longrightarrow> (b mod 16 * 4 + c div 64) mod 4 * 64 + c mod 64 = c" by (simp add: c)
qed

lemma b64_decode_digits: "list_all (\<lambda>b. b < 256) bs \<Longrightarrow> b64_decode (b64_digits bs) = bs"
  by (induction bs rule: b64_digits.induct) (simp_all only: b64_digits.simps b64_decode.simps
      list.pred_inject b64_regroup)

lemma b64_alphabet_length: "length b64_alphabet = 64"
  by (simp add: b64_alphabet_def)

lemma b64_alphabet_distinct: "distinct b64_alphabet"
  by (simp add: b64_alphabet_def)

lemma index_in_nth: "distinct ds \<Longrightarrow> n < length ds \<Longrightarrow> index_in (ds ! n) ds = n"
  by (induction ds arbitrary: n) (auto simp: nth_Cons split: nat.splits)

lemma index_b64_char [simp]: "n < 64 \<Longrightarrow> index_in (b64_char n) b64_alphabet = n"
  by (simp add: b64_char_def index_in_nth b64_alphabet_distinct b64_alphabet_length)

lemma b64_char_in [simp]: "n < 64 \<Longrightarrow> b64_char n \<in> set b64_alphabet"
  by (simp add: b64_char_def b64_alphabet_length)

lemma alphabet_plain: "c \<in> set b64_alphabet \<Longrightarrow> c \<noteq> CHR ''='' \<and> \<not> ascii_whitespace c"
proof -
  have "list_all (\<lambda>c. c \<noteq> CHR ''='' \<and> \<not> ascii_whitespace c) b64_alphabet" by code_simp
  then show "c \<in> set b64_alphabet \<Longrightarrow> c \<noteq> CHR ''='' \<and> \<not> ascii_whitespace c"
    by (simp add: list_all_iff)
qed

lemma strip_padding_pads:
  assumes "list_all (\<lambda>c. c \<noteq> CHR ''='') t" and "p \<le> 2" and "length t mod 4 = (4 - p) mod 4"
  shows "strip_padding (t @ replicate p CHR ''='') = t"
proof -
  have no: "t = [] \<or> last t \<noteq> CHR ''=''"
    using assms(1) by (cases t rule: rev_cases) auto
  have len: "(length t + p) mod 4 = 0" if "p = 1 \<or> p = 2"
  proof -
    from that assms(3) have "p = 1 \<and> length t mod 4 = 3 \<or> p = 2 \<and> length t mod 4 = 2" by auto
    then show ?thesis by presburger
  qed
  from assms(2) consider "p = 0" | "p = 1" | "p = 2" by linarith
  then show ?thesis
  proof cases
    case 1
    have "drop (length t - 2) t \<noteq> ''==''" if "2 \<le> length t"
    proof
      assume "drop (length t - 2) t = ''==''"
      then have "last t = CHR ''=''" using that by (metis last_drop last.simps list.distinct(1) length_drop
          diff_less zero_less_numeral less_le_trans)
      with no that show False by auto
    qed
    with 1 no show ?thesis by (auto simp: strip_padding_def)
  next
    case 2
    from assms(3) 2 have "t \<noteq> []" by auto
    then obtain u c where t: "t = u @ [c]" by (cases t rule: rev_cases) auto
    with no have "c \<noteq> CHR ''=''" by simp
    with 2 len t show ?thesis by (simp add: strip_padding_def butlast_append)
  next
    case 3
    with len show ?thesis by (simp add: strip_padding_def numeral_2_eq_2)
  qed
qed

lemma atob_btoa [simp]: "atob (btoa s) = Some s"
proof -
  let ?bs = "map of_char s :: nat list"
  let ?ds = "b64_digits ?bs"
  let ?t = "map b64_char ?ds"
  let ?p = "pad_count (length ?bs)"
  have small: "list_all (\<lambda>b. b < 256) ?bs" by (simp add: list_all_iff)
  have digits: "list_all (\<lambda>d. d < 64) ?ds" by (rule b64_digits_small [OF small])
  have in_alphabet: "list_all (\<lambda>c. c \<in> set b64_alphabet) ?t"
    using digits by (simp add: list_all_iff)
  have plain: "list_all (\<lambda>c. c \<noteq> CHR ''='') ?t" "filter (\<lambda>c. \<not> ascii_whitespace c) ?t = ?t"
    using in_alphabet alphabet_plain by (auto simp: list_all_iff intro!: filter_True)
  have p: "?p \<le> 2" unfolding pad_count_def by (cases "length ?bs mod 3") auto
  have len: "length ?t mod 4 = (4 - ?p) mod 4" "length ?t mod 4 \<noteq> 1"
    using pad_length [of "length ?bs"] by (simp_all add: b64_digits_length)
  have "btoa s = ?t @ replicate ?p CHR ''=''" by (simp only: btoa_def b64_encode_digits)
  moreover have "\<not> ascii_whitespace CHR ''=''" by code_simp
  ultimately have "strip_padding (filter (\<lambda>c. \<not> ascii_whitespace c) (btoa s)) = ?t"
    using strip_padding_pads [OF plain(1) p len(1)] plain(2) by simp
  moreover have "map (\<lambda>c. index_in c b64_alphabet) ?t = ?ds"
    using digits by (auto simp: list_all_iff intro!: map_idI)
  moreover have "b64_decode ?ds = ?bs" by (rule b64_decode_digits [OF small])
  ultimately show ?thesis
    using in_alphabet len(2) by (simp add: atob_def comp_def)
qed

lemma btoa_inj [simp]: "btoa s = btoa t \<longleftrightarrow> s = t"
  by (metis atob_btoa option.inject)

section \<open>Strings\<close>

text \<open>\<open>toLowerCase\<close> on the code units below 256.\<close>

definition lower_char :: "char \<Rightarrow> char" where
  "lower_char c =
     (let n = (of_char c :: nat) in
      if 65 \<le> n \<and> n \<le> 90 \<or> 192 \<le> n \<and> n \<le> 222 \<and> n \<noteq> 215 then char_of (n + 32) else c)"

definition js_lower :: "string \<Rightarrow> string" where
  "js_lower s = map lower_char s"

definition ends_with :: "string \<Rightarrow> string \<Rightarrow> bool" where
  "ends_with suf s \<longleftrightarrow> length suf \<le> length s \<and> drop (length s - length suf) s = suf"

definition js_includes :: "string \<Rightarrow> string \<Rightarrow> bool" where
  "js_includes part s \<longleftrightarrow>
     list_ex (\<lambda>i. take (length part) (drop i s) = part) [0..<Suc (length s)]"

lemma js_includes_iff: "js_includes part s \<longleftrightarrow> (\<exists>a b. s = a @ part @ b)"
proof
  assume "js_includes part s"
  then obtain i where "take (length part) (drop i s) = part"
    by (auto simp: js_includes_def list_ex_iff)
  then have "s = take i s @ part @ drop (length part) (drop i s)"
    by (metis append_take_drop_id)
  then show "\<exists>a b. s = a @ part @ b" by blast
next
  assume "\<exists>a b. s = a @ part @ b"
  then obtain a b where "s = a @ part @ b" by blast
  then show "js_includes part s"
    by (auto simp: js_includes_def list_ex_iff intro!: bexI [of _ "length a"])
qed

lemma js_includes_empty [simp]: "js_includes [] s"
  by (auto simp: js_includes_iff)

end
