(* ===== verification/Der.thy ===== *)
theory Der
  imports Encoding "HOL-Library.Word"
begin

text \<open>
  The binary formats that the verifier parses by hand: the DER of an X.509 certificate
  (packages/verifier/src/checks/x509-key.ts) and of an ECDSA signature, and the
  pre-authentication encoding of a DSSE envelope (packages/verifier/src/checks/dsse-verify.ts).

  Offsets are JavaScript numbers and may leave the buffer: reading there gives \<open>undefined\<close>,
  \<open>None\<close>. A length of several bytes is put together with \<open><<\<close> and \<open>|\<close>, that is, in 32 bits,
  and is read as a signed number. A search that may run forever is a partial function whose
  value is then \<open>None\<close>.
\<close>

unbundle bit_operations_syntax

section \<open>Tag, length, value\<close>

definition der_at :: "8 word list \<Rightarrow> int \<Rightarrow> nat option" where
  "der_at der i = (if 0 \<le> i \<and> i < int (length der) then Some (unat (der ! nat i)) else None)"

record tlv =
  tlv_tag :: "nat option"
  tlv_contentStart :: int
  tlv_contentLength :: int
  tlv_totalLength :: int

fun read_length :: "8 word list \<Rightarrow> int \<Rightarrow> nat \<Rightarrow> 32 word \<Rightarrow> 32 word" where
  "read_length der pos 0 acc = acc"
| "read_length der pos (Suc n) acc =
     read_length der (pos + 1) n
       (push_bit 8 acc OR of_nat (case der_at der pos of None \<Rightarrow> 0 | Some b \<Rightarrow> b))"

definition tlv_end :: "8 word list \<Rightarrow> int \<Rightarrow> int \<Rightarrow> int \<Rightarrow> string + tlv" where
  "tlv_end der offset pos contentLength =
     (if pos + contentLength > int (length der)
      then Inl ''Truncated DER: content exceeds buffer''
      else Inr \<lparr>tlv_tag = der_at der offset, tlv_contentStart = pos,
                tlv_contentLength = contentLength,
                tlv_totalLength = pos - offset + contentLength\<rparr>)"

definition parseTlv :: "8 word list \<Rightarrow> int \<Rightarrow> string + tlv" where
  "parseTlv der offset =
     (if offset \<ge> int (length der) then Inl ''Unexpected end of DER data''
      else if offset + 1 \<ge> int (length der) then Inl ''Truncated DER: missing length''
      else
        (let pos = offset + 2 in
         case der_at der (offset + 1) of
           None \<Rightarrow> tlv_end der offset pos 0
         | Some firstLenByte \<Rightarrow>
             if firstLenByte < 0x80 then tlv_end der offset pos (int firstLenByte)
             else if firstLenByte = 0x80 then Inl ''Indefinite length not supported''
             else
               (let numLenBytes = firstLenByte mod 0x80 in
                if numLenBytes > 4 then Inl ''DER length exceeds 4 bytes''
                else if pos + int numLenBytes > int (length der)
                then Inl ''Truncated DER: incomplete length''
                else tlv_end der offset (pos + int numLenBytes)
                       (sint (read_length der pos numLenBytes 0)))))"

section \<open>Certificates\<close>

definition TAG_SEQUENCE :: nat where "TAG_SEQUENCE = 0x30"
definition TAG_BIT_STRING :: nat where "TAG_BIT_STRING = 0x03"

definition EC_PUBLIC_KEY_OID :: "8 word list" where
  "EC_PUBLIC_KEY_OID = [0x06, 0x07, 0x2a, 0x86, 0x48, 0xce, 0x3d, 0x02, 0x01]"

definition SECP256R1_OID :: "8 word list" where
  "SECP256R1_OID = [0x06, 0x08, 0x2a, 0x86, 0x48, 0xce, 0x3d, 0x03, 0x01, 0x07]"

definition P256_UNCOMPRESSED_LENGTH :: int where "P256_UNCOMPRESSED_LENGTH = 65"

text \<open>An offset before the buffer reads \<open>undefined\<close>, which no byte of the pattern equals.\<close>

definition bytesMatch :: "8 word list \<Rightarrow> int \<Rightarrow> 8 word list \<Rightarrow> bool" where
  "bytesMatch data offset pat \<longleftrightarrow>
     offset + int (length pat) \<le> int (length data)
     \<and> list_all (\<lambda>i. der_at data (offset + int i) = Some (unat (pat ! i))) [0..<length pat]"

definition is_spki :: "8 word list \<Rightarrow> tlv \<Rightarrow> bool" where
  "is_spki der t \<longleftrightarrow>
     tlv_tag t = Some TAG_SEQUENCE
     \<and> (case parseTlv der (tlv_contentStart t) of
          Inl _ \<Rightarrow> False
        | Inr inner \<Rightarrow> tlv_tag inner = Some TAG_SEQUENCE
            \<and> bytesMatch der (tlv_contentStart inner) EC_PUBLIC_KEY_OID)"

partial_function (option) findSpki :: "8 word list \<Rightarrow> int \<Rightarrow> int \<Rightarrow> tlv option option" where
  "findSpki der pos rangeEnd =
     (if pos < rangeEnd
      then (case parseTlv der pos of
              Inl _ \<Rightarrow> Some None
            | Inr t \<Rightarrow> if is_spki der t then Some (Some t)
                       else findSpki der (pos + tlv_totalLength t) rangeEnd)
      else Some None)"

text \<open>From the subject public key info to the key.\<close>

definition spki_key :: "8 word list \<Rightarrow> tlv \<Rightarrow> string + 8 word list" where
  "spki_key der spki =
     (case parseTlv der (tlv_contentStart spki) of
        Inl e \<Rightarrow> Inl (''AlgorithmIdentifier: '' @ e)
      | Inr algId \<Rightarrow>
          if \<not> bytesMatch der (tlv_contentStart algId) EC_PUBLIC_KEY_OID
          then Inl ''Algorithm is not EC public key''
          else if \<not> bytesMatch der (tlv_contentStart algId + int (length EC_PUBLIC_KEY_OID))
                      SECP256R1_OID
          then Inl ''Curve is not secp256r1 (P-256)''
          else
            (case parseTlv der (tlv_contentStart spki + tlv_totalLength algId) of
               Inl e \<Rightarrow> Inl (''BIT STRING: '' @ e)
             | Inr bitString \<Rightarrow>
                 if tlv_tag bitString \<noteq> Some TAG_BIT_STRING
                 then Inl ''Expected BIT STRING for public key''
                 else if der_at der (tlv_contentStart bitString) \<noteq> Some 0
                 then Inl (''Unexpected unused bits in BIT STRING: ''
                        @ (case der_at der (tlv_contentStart bitString) of
                             None \<Rightarrow> ''undefined'' | Some b \<Rightarrow> show_nat b))
                 else
                   (let keyStart = tlv_contentStart bitString + 1;
                        keyLength = tlv_contentLength bitString - 1 in
                    if keyLength \<noteq> P256_UNCOMPRESSED_LENGTH
                    then Inl (''Expected 65-byte key, got '' @ show_int keyLength)
                    else
                      (let publicKey = take (nat keyLength) (drop (nat keyStart) der) in
                       if der_at publicKey 0 \<noteq> Some 4
                       then Inl ''Public key is not an uncompressed point''
                       else Inr publicKey))))"

definition extractP256PublicKey :: "string \<Rightarrow> (string + 8 word list) option" where
  "extractP256PublicKey certBase64 =
     (case atob certBase64 of
        None \<Rightarrow> Some (Inl ''Invalid base64 in certificate'')
      | Some binary \<Rightarrow>
          (let der = to_bytes binary in
           case parseTlv der 0 of
             Inl e \<Rightarrow> Some (Inl (''Certificate: '' @ e))
           | Inr cert \<Rightarrow>
               if tlv_tag cert \<noteq> Some TAG_SEQUENCE
               then Some (Inl ''Certificate is not a SEQUENCE'')
               else
                 (case parseTlv der (tlv_contentStart cert) of
                    Inl e \<Rightarrow> Some (Inl (''tbsCertificate: '' @ e))
                  | Inr tbs \<Rightarrow>
                      if tlv_tag tbs \<noteq> Some TAG_SEQUENCE
                      then Some (Inl ''tbsCertificate is not a SEQUENCE'')
                      else
                        (case findSpki der (tlv_contentStart tbs)
                                (tlv_contentStart tbs + tlv_contentLength tbs) of
                           None \<Rightarrow> None
                         | Some None \<Rightarrow>
                             Some (Inl ''subjectPublicKeyInfo with EC algorithm not found'')
                         | Some (Some spki) \<Rightarrow> Some (spki_key der spki)))))"

section \<open>DSSE signatures\<close>

text \<open>\<open>TextEncoder\<close> turns the type and the decimal lengths into UTF-8.\<close>

definition computePae :: "string \<Rightarrow> 8 word list \<Rightarrow> 8 word list" where
  "computePae payloadType payload =
     (let typeBytes = utf8 payloadType in
      utf8 (''DSSEv1 '' @ show_nat (length typeBytes) @ '' '') @ typeBytes
      @ utf8 ('' '' @ show_nat (length payload) @ '' '') @ payload)"

text \<open>
  The field of \<open>dst\<close> that is written, which is all zero before. A length read from beyond the
  buffer is \<open>undefined\<close>: nothing is copied. \<open>subarray\<close> stops at the end of the buffer.
\<close>

definition copyIntegerToFixed ::
  "8 word list \<Rightarrow> nat \<Rightarrow> nat option \<Rightarrow> nat \<Rightarrow> string + 8 word list" where
  "copyIntegerToFixed src srcOffset srcLen fieldSize =
     (case srcLen of
        None \<Rightarrow> Inr (replicate fieldSize 0)
      | Some n \<Rightarrow>
          (let strip = n > fieldSize \<and> der_at src (int srcOffset) = Some 0;
               start = (if strip then srcOffset + 1 else srcOffset);
               len = (if strip then n - 1 else n) in
           if len > fieldSize
           then Inl (''DER integer too large: '' @ show_nat len @ '' bytes for ''
                  @ show_nat fieldSize @ ''-byte field'')
           else
             (let piece = take len (drop start src);
                  padLen = fieldSize - len in
              Inr (replicate padLen 0 @ piece @ replicate (fieldSize - padLen - length piece) 0))))"

definition derSigToCompact :: "8 word list \<Rightarrow> string + 8 word list" where
  "derSigToCompact der =
     (if length der = 64 then Inr der
      else if length der < 8 \<or> der_at der 0 \<noteq> Some 0x30 then Inl ''Not a DER-encoded signature''
      else
        (let lenByte = unat (der ! 1);
             pos = (if lenByte \<ge> 0x80 then 2 + lenByte mod 0x80 else 2) in
         if der_at der (int pos) \<noteq> Some 2 then Inl ''Expected INTEGER tag for r''
         else
           (let rLen = der_at der (int pos + 1) in
            case copyIntegerToFixed der (pos + 2) rLen 32 of
              Inl e \<Rightarrow> Inl e
            | Inr r \<Rightarrow>
                (case rLen of
                   None \<Rightarrow> Inl ''Expected INTEGER tag for s''
                 | Some n \<Rightarrow>
                     (let pos2 = pos + 2 + n in
                      if der_at der (int pos2) \<noteq> Some 2 then Inl ''Expected INTEGER tag for s''
                      else
                        (case copyIntegerToFixed der (pos2 + 2) (der_at der (int pos2 + 1)) 32 of
                           Inl e \<Rightarrow> Inl e
                         | Inr s \<Rightarrow> Inr (r @ s)))))))"

record dsse_envelope =
  ds_payload :: string
  ds_payloadType :: string
  ds_signatures :: "string list"

text \<open>
  \<open>p256 sig pae key\<close> is the answer of \<open>p256.verify\<close> of the library \<open>@noble/curves\<close>, \<open>None\<close>
  when it throws. Of a signature entry only \<open>sig\<close> is read.
\<close>

definition verifyDsseSignature ::
  "(8 word list \<Rightarrow> 8 word list \<Rightarrow> 8 word list \<Rightarrow> bool option) \<Rightarrow> dsse_envelope \<Rightarrow> 8 word list \<Rightarrow>
   string + bool" where
  "verifyDsseSignature p256 env publicKey =
     (case find_first (\<lambda>s. length s > 0) (ds_signatures env) of
        None \<Rightarrow> Inl ''No non-empty signature in DSSE envelope''
      | Some sig \<Rightarrow>
          (case atob sig of
             None \<Rightarrow> Inl ''Signature is not valid base64''
           | Some binary \<Rightarrow>
               (case derSigToCompact (to_bytes binary) of
                  Inl e \<Rightarrow> Inl (''Signature format error: '' @ e)
                | Inr compact \<Rightarrow>
                    (case atob (ds_payload env) of
                       None \<Rightarrow> Inl ''Payload is not valid base64''
                     | Some payload \<Rightarrow>
                         (case p256 compact (computePae (ds_payloadType env) (to_bytes payload))
                                 publicKey of
                            None \<Rightarrow> Inl ''Signature verification threw an error''
                          | Some valid \<Rightarrow>
                              if \<not> valid then Inl ''DSSE signature is invalid'' else Inr True)))))"

section \<open>Progress\<close>

lemma der_at_byte: "der_at der i = Some b \<Longrightarrow> b < 256"
  using unsigned_less [of "der ! nat i"] by (auto simp: der_at_def split: if_splits)

lemma or_byte_less:
  assumes "uint a < 2 ^ k" and "k + 8 \<le> 32" and "b < 256"
  shows "uint (push_bit 8 (a :: 32 word) OR of_nat b) < 2 ^ (k + 8)"
proof -
  have "uint (push_bit 8 a) = take_bit 32 (push_bit 8 (uint a))"
    by (simp add: unsigned_push_bit_eq)
  also have "\<dots> \<le> push_bit 8 (uint a)" by (simp add: push_bit_eq_mult take_bit_int_less_eq_self_iff)
  also have "\<dots> < 2 ^ (k + 8)" using assms(1) by (simp add: push_bit_eq_mult power_add)
  finally have 1: "uint (push_bit 8 a) < 2 ^ (k + 8)" .
  have "uint (of_nat b :: 32 word) = int b" using assms(3) by (simp add: unsigned_of_nat take_bit_nat_eq_self)
  also have "\<dots> < 2 ^ 8" using assms(3) by simp
  also have "(2 :: int) ^ 8 \<le> 2 ^ (k + 8)" by (rule power_increasing) simp_all
  finally have 2: "uint (of_nat b :: 32 word) < 2 ^ (k + 8)" .
  show ?thesis unfolding unsigned_or_eq by (rule OR_upper) (use 1 2 in simp_all)
qed

lemma read_length_less:
  "uint acc < 2 ^ k \<Longrightarrow> k + 8 * n \<le> 32 \<Longrightarrow> uint (read_length der pos n acc) < 2 ^ (k + 8 * n)"
proof (induction der pos n acc arbitrary: k rule: read_length.induct)
  case (2 der pos n acc)
  let ?b = "case der_at der pos of None \<Rightarrow> 0 | Some b \<Rightarrow> b"
  have "?b < 256" by (auto split: option.split dest: der_at_byte)
  then have "uint (push_bit 8 acc OR of_nat ?b) < 2 ^ (k + 8)"
    using 2(2,3) by (intro or_byte_less) simp_all
  from 2(1) [OF this] 2(3) show ?case by (simp add: ac_simps)
qed simp

lemma short_length_nonneg:
  assumes "n \<le> 3"
  shows "0 \<le> sint (read_length der pos n 0)"
proof -
  have "uint (read_length der pos n 0) < 2 ^ (0 + 8 * n)"
    by (rule read_length_less) (use assms in simp_all)
  also have "(2 :: int) ^ (0 + 8 * n) \<le> 2 ^ 24" using assms by (intro power_increasing) simp_all
  finally have "uint (read_length der pos n 0) < 2 ^ 24" .
  then have "signed_take_bit 31 (uint (read_length der pos n 0)) = uint (read_length der pos n 0)"
    by (intro signed_take_bit_int_eq_self order_trans [OF _ unsigned_greater_eq]) simp_all
  moreover have "sint (read_length der pos n 0) = signed_take_bit 31 (uint (read_length der pos n 0))"
    using sint_uint [of "read_length der pos n 0"] by simp
  ultimately show ?thesis by simp
qed

lemma parseTlv_progress:
  assumes "parseTlv der pos = Inr t" and "0x84 \<notin> set der"
  shows "2 \<le> tlv_totalLength t"
proof -
  have no84: "der_at der (pos + 1) \<noteq> Some 0x84"
  proof
    assume "der_at der (pos + 1) = Some 0x84"
    then obtain i where "i < length der" "unat (der ! i) = 0x84"
      by (auto simp: der_at_def split: if_splits) (metis nat_less_iff)
    then have "der ! i = 0x84" by (simp add: word_unat_eq_iff)
    with \<open>i < length der\<close> assms(2) show False by (metis nth_mem)
  qed
  have high: "b mod 0x80 = b - 0x80" if "0x80 \<le> b" "b < 256" for b :: nat
    using that by (simp add: le_mod_geq)
  have short: "b mod 0x80 \<le> 3"
    if "der_at der (pos + 1) = Some b" "0x80 \<le> b" "b mod 0x80 \<le> 4" for b
  proof (rule ccontr)
    assume "\<not> b mod 0x80 \<le> 3"
    with that(3) have "b mod 0x80 = 4" by simp
    with high [OF that(2) der_at_byte [OF that(1)]] that(2) have "b = 0x84" by simp
    with that(1) no84 show False by simp
  qed
  show ?thesis
    using assms(1) short_length_nonneg [OF short]
    by (auto simp: parseTlv_def tlv_end_def Let_def not_less split: if_splits option.splits)
qed

lemma findSpki_returns:
  assumes "0x84 \<notin> set der"
  shows "\<exists>r. findSpki der pos rangeEnd = Some r"
proof (induction "nat (rangeEnd - pos)" arbitrary: pos rule: less_induct)
  case less
  show ?case
  proof (cases "pos < rangeEnd")
    case True
    show ?thesis
    proof (cases "parseTlv der pos")
      case (Inr t)
      from parseTlv_progress [OF this assms] True
      have "nat (rangeEnd - (pos + tlv_totalLength t)) < nat (rangeEnd - pos)" by linarith
      from less [OF this] True Inr show ?thesis
        by (subst findSpki.simps) simp
    qed (use True in \<open>subst findSpki.simps, simp\<close>)
  qed (subst findSpki.simps, simp)
qed

lemma findSpki_found:
  assumes "findSpki der pos rangeEnd = Some r"
  shows "pred_option (is_spki der) r"
  by (rule findSpki.raw_induct [where P = "\<lambda>d p e r. pred_option (is_spki d) r", OF _ assms])
    (auto split: if_splits sum.splits)

text \<open>An element whose length adds up to zero is visited for ever.\<close>

lemma findSpki_stuck:
  assumes "parseTlv der pos = Inr t" and "tlv_totalLength t = 0" and "pos < rangeEnd"
    and "\<not> is_spki der t"
  shows "findSpki der pos rangeEnd = None"
proof (rule ccontr)
  assume "findSpki der pos rangeEnd \<noteq> None"
  then obtain y where y: "findSpki der pos rangeEnd = Some y" by blast
  have "\<not> (der = der \<and> pos = pos \<and> rangeEnd = rangeEnd)"
  proof (rule findSpki.raw_induct
      [where P = "\<lambda>d p e y. \<not> (d = der \<and> p = pos \<and> e = rangeEnd)", OF _ y])
    fix f d p e z
    assume ih: "\<And>d p e z. f d p e = Some z \<Longrightarrow> \<not> (d = der \<and> p = pos \<and> e = rangeEnd)"
      and body: "(if p < e
          then (case parseTlv d p of
                  Inl _ \<Rightarrow> Some None
                | Inr t \<Rightarrow> if is_spki d t then Some (Some t) else f d (p + tlv_totalLength t) e)
          else Some None) = Some z"
    show "\<not> (d = der \<and> p = pos \<and> e = rangeEnd)"
    proof
      assume "d = der \<and> p = pos \<and> e = rangeEnd"
      with body assms have "f der pos rangeEnd = Some z" by simp
      from ih [OF this] show False by simp
    qed
  qed
  then show False by simp
qed

section \<open>What is extracted\<close>

lemma spki_key_sound:
  assumes "spki_key der spki = Inr key"
  shows "\<exists>i. 0 \<le> i \<and> key = take 65 (drop (nat i) der) \<and> length key = 65 \<and> key ! 0 = 4"
proof -
  obtain algId bs where p: "parseTlv der (tlv_contentStart spki) = Inr algId"
      "parseTlv der (tlv_contentStart spki + tlv_totalLength algId) = Inr bs"
    and z: "der_at der (tlv_contentStart bs) = Some 0" and len: "tlv_contentLength bs - 1 = 65"
    and four: "der_at (take 65 (drop (nat (tlv_contentStart bs + 1)) der)) 0 = Some 4"
    and key: "key = take 65 (drop (nat (tlv_contentStart bs + 1)) der)"
    using assms
    by (auto simp: spki_key_def Let_def P256_UNCOMPRESSED_LENGTH_def split: sum.splits if_splits)
  have start: "0 \<le> tlv_contentStart bs" using z by (simp add: der_at_def split: if_splits)
  have "tlv_contentStart bs + tlv_contentLength bs \<le> int (length der)"
    using p(2) by (auto simp: parseTlv_def tlv_end_def Let_def split: if_splits option.splits)
  with len start have "length key = 65" by (simp add: key)
  moreover have "key ! 0 = 4"
    using four key by (auto simp: der_at_def word_unat_eq_iff split: if_splits)
  ultimately show ?thesis using key start by (intro exI [of _ "tlv_contentStart bs + 1"]) simp
qed

section \<open>Encodings of DSSE\<close>

lemma copy_fixed_length:
  "copyIntegerToFixed src o' l n = Inr bs \<Longrightarrow> length bs = n"
  by (auto simp: copyIntegerToFixed_def Let_def split: option.splits if_splits)

lemma compact_length: "derSigToCompact der = Inr bs \<Longrightarrow> length bs = 64"
  by (auto simp: derSigToCompact_def Let_def split: option.splits if_splits sum.splits
      dest!: copy_fixed_length)

lemma utf8_append: "utf8 (s @ t) = utf8 s @ utf8 t"
  by (simp add: utf8_def)

lemma utf8_ascii: "list_all (\<lambda>c. (of_char c :: nat) < 128) s \<Longrightarrow> utf8 s = map (\<lambda>c. of_nat (of_char c)) s"
  by (induction s) (simp_all add: utf8_def utf8_char_def Let_def)

text \<open>A decimal number and a space are a prefix code.\<close>

lemma number_prefix:
  assumes "utf8 (show_nat m @ '' '') @ x = utf8 (show_nat n @ '' '') @ y"
  shows "m = n \<and> x = y"
proof -
  have ascii: "list_all (\<lambda>c. (of_char c :: nat) < 128) (show_nat k @ '' '')" for k
  proof -
    have "is_digit c \<Longrightarrow> (of_char c :: nat) < 128" for c by (auto simp: is_digit_def)
    then show ?thesis using show_nat_digits [of k] by (auto simp: list_all_iff)
  qed
  have eq: "map of_char (show_nat m @ '' '') @ map unat x
      = (map of_char (show_nat n @ '' '') @ map unat y :: nat list)"
  proof -
    have "map unat (utf8 (show_nat k @ '' '')) = (map of_char (show_nat k @ '' '') :: nat list)" for k
      using ascii [of k] by (simp add: utf8_ascii list_all_iff unat_of_nat)
    with arg_cong [OF assms, of "map unat"] show ?thesis by simp
  qed
  define f where "f = (\<lambda>c. (of_char c :: nat))"
  have digits: "list_all (\<lambda>d. d \<noteq> 32) (map f (show_nat k))" for k
  proof -
    have "is_digit c \<Longrightarrow> f c \<noteq> 32" for c by (auto simp: is_digit_def f_def)
    then show ?thesis using show_nat_digits [of k] by (auto simp: list_all_iff)
  qed
  have take: "takeWhile (\<lambda>d. d \<noteq> 32) (map f (show_nat k) @ 32 # r) = map f (show_nat k)"
    "dropWhile (\<lambda>d. d \<noteq> 32) (map f (show_nat k) @ 32 # r) = 32 # r" for k r
    using digits [of k] by (simp_all add: list_all_iff takeWhile_append dropWhile_append)
  from eq have "map f (show_nat m) @ 32 # map unat x = map f (show_nat n) @ 32 # map unat y"
    by (simp add: f_def)
  then have "map f (show_nat m) = map f (show_nat n)" "map unat x = map unat y"
    using take by (metis, metis list.inject)
  moreover have "inj f" by (simp add: f_def inj_def)
  moreover have "inj (unat :: 8 word \<Rightarrow> nat)" by (rule injI) (simp add: word_unat_eq_iff)
  ultimately show ?thesis by (metis show_nat_inj inj_map_eq_map)
qed

lemma computePae_inj:
  assumes "computePae t b = computePae t' b'"
  shows "t = t' \<and> b = b'"
proof -
  note prefix = number_prefix [unfolded utf8_append append_assoc]
  have "utf8 (show_nat (length (utf8 t))) @ utf8 '' '' @ utf8 t
        @ utf8 '' '' @ utf8 (show_nat (length b)) @ utf8 '' '' @ b
      = utf8 (show_nat (length (utf8 t'))) @ utf8 '' '' @ utf8 t'
        @ utf8 '' '' @ utf8 (show_nat (length b')) @ utf8 '' '' @ b'"
    using assms unfolding computePae_def Let_def utf8_append append_assoc by (simp only: same_append_eq)
  from prefix [OF this]
  have len: "length (utf8 t) = length (utf8 t')" and rest: "utf8 t
        @ utf8 '' '' @ utf8 (show_nat (length b)) @ utf8 '' '' @ b
      = utf8 t' @ utf8 '' '' @ utf8 (show_nat (length b')) @ utf8 '' '' @ b'"
    by auto
  from rest have "utf8 t = utf8 t' \<and> utf8 '' '' @ utf8 (show_nat (length b)) @ utf8 '' '' @ b
      = utf8 '' '' @ utf8 (show_nat (length b')) @ utf8 '' '' @ b'"
    by (simp only: append_eq_append_conv [OF disjI1 [OF len]])
  then have "t = t'"
    and "utf8 (show_nat (length b)) @ utf8 '' '' @ b = utf8 (show_nat (length b')) @ utf8 '' '' @ b'"
    by auto
  with prefix show ?thesis by blast
qed

section \<open>Properties\<close>

text \<open>
  What a DSSE signature is checked against identifies what was signed: two envelopes have
  the same pre-authentication encoding exactly when they have the same payload type and the
  same payload bytes; no bytes can move between the fields.
\<close>

theorem pae_unambiguous:
  "computePae t b = computePae t' b' \<longleftrightarrow> t = t' \<and> b = b'"
  using computePae_inj by blast


definition demo_certificate :: string where
  "demo_certificate = btoa (from_bytes
     ([0x30, 0x5d, 0x30, 0x5b, 0x30, 0x59, 0x30, 0x13] @ EC_PUBLIC_KEY_OID @ SECP256R1_OID
      @ [0x03, 0x42, 0x00, 0x04] @ replicate 64 7))"


text \<open>
  C1. A certificate can hang the verifier: a four-byte length is read as a signed 32-bit
  number, so a length of -6 passes the bounds check, the element of six bytes header has total
  length zero, and the search for the public key never moves on. The ten bytes below are such
  a certificate.
\<close>

definition crafted_certificate :: string where
  "crafted_certificate = btoa (from_bytes [0x30, 0x08, 0x30, 0x06, 0x02, 0x84, 0xff, 0xff, 0xff, 0xfa])"

theorem crafted_certificate_hangs:
  "extractP256PublicKey crafted_certificate = None"
proof -
  let ?d = "[0x30, 0x08, 0x30, 0x06, 0x02, 0x84, 0xff, 0xff, 0xff, 0xfa] :: 8 word list"
  have cert: "parseTlv ?d 0 = Inr \<lparr>tlv_tag = Some 0x30, tlv_contentStart = 2,
      tlv_contentLength = 8, tlv_totalLength = 10\<rparr>" by code_simp
  have tbs: "parseTlv ?d 2 = Inr \<lparr>tlv_tag = Some 0x30, tlv_contentStart = 4,
      tlv_contentLength = 6, tlv_totalLength = 8\<rparr>" by code_simp
  have bad: "parseTlv ?d 4 = Inr \<lparr>tlv_tag = Some 2, tlv_contentStart = 10,
      tlv_contentLength = -6, tlv_totalLength = 0\<rparr>" by code_simp
  have "findSpki ?d 4 10 = None"
    by (rule findSpki_stuck [OF bad]) (simp_all add: is_spki_def TAG_SEQUENCE_def)
  then show ?thesis
    by (simp add: extractP256PublicKey_def crafted_certificate_def cert tbs TAG_SEQUENCE_def)
qed

end
