(* ===== verification/SealMessages.thy ===== *)
theory SealMessages
  imports SealManager Materiality Encoding
begin

text \<open>
  What happens to a seal on its way to the group: the stamper that signs the canonical bytes of
  a payload (packages/seals/src/stamper.ts), the content types it is wrapped in
  (content-type.ts), the publisher (publisher.ts), the binding of a message to a seal
  (message-binding.ts) and the repeated publication to chats (auto-republish.ts).

  The signing key, the verifier of a signature and the sender of messages are injected, and so
  are arguments. A publisher has a state of its own, so that it may answer differently when it
  is asked again; waits and calls are logged.
\<close>

section \<open>Payloads as JSON\<close>

fun scope_mode_name :: "scope_mode \<Rightarrow> string" where
  "scope_mode_name PerChat = ''per-chat''"
| "scope_mode_name Shared = ''shared''"

fun trust_tier_name :: "trust_tier \<Rightarrow> string" where
  "trust_tier_name TierUnverified = ''unverified''"
| "trust_tier_name TierSourceVerified = ''source-verified''"
| "trust_tier_name TierReproducible = ''reproducibly-verified''"
| "trust_tier_name TierRuntimeAttested = ''runtime-attested''"

fun agent_reason_name :: "agent_revocation_reason \<Rightarrow> string" where
  "agent_reason_name AgOwnerInitiated = ''owner-initiated''"
| "agent_reason_name AgCredentialExpired = ''credential-expired''"
| "agent_reason_name AgAdminRemoved = ''admin-removed''"
| "agent_reason_name AgHeartbeatTimeout = ''heartbeat-timeout''"
| "agent_reason_name AgPolicyViolation = ''policy-violation''"

definition scope_set_json :: "scope_set \<Rightarrow> json" where
  "scope_set_json s = JObj [(''allow'', scopes_json (allow s)), (''deny'', scopes_json (deny s))]"

definition payload_fields :: "seal_payload \<Rightarrow> (string \<times> json) list" where
  "payload_fields p =
     [(''sealId'', JStr (sp_sealId p)), (''credentialId'', JStr (sp_credentialId p)),
      (''operatorId'', JStr (sp_operatorId p)), (''chatId'', JStr (sp_chatId p)),
      (''scopeMode'', JStr (scope_mode_name (sp_scopeMode p))),
      (''permissions'', scope_set_json (sp_permissions p))]
     @ opt_field ''adminAccess'' (map_option admin_access_json (sp_adminAccess p))
     @ [(''issuedAt'', JStr (iso_string (sp_issuedAt p)))]
     @ opt_field ''bypassed'' (if sp_bypassed p then Some (JBool True) else None)
     @ opt_field ''trustTier'' (map_option (\<lambda>t. JStr (trust_tier_name t)) (sp_trustTier p))
     @ opt_field ''operatorDisclosures'' (map_option disclosures_json (sp_operatorDisclosures p))
     @ opt_field ''provenanceMap'' (map_option provenance_json (sp_provenanceMap p))"

definition payload_json :: "seal_payload \<Rightarrow> json" where
  "payload_json p = JObj (payload_fields p)"

definition scope_change_json :: "scope_change \<Rightarrow> json" where
  "scope_change_json c =
     JObj [(''scope'', JStr (scope_name (ch_scope c))), (''from'', JStr (grant_name (ch_from c))),
           (''to'', JStr (grant_name (ch_to c)))]"

definition delta_json :: "policy_delta \<Rightarrow> json" where
  "delta_json d =
     JObj [(''added'', scopes_json (added d)), (''removed'', scopes_json (removed d)),
           (''changed'', JArr (map scope_change_json (changed d)))]"

definition chain_json :: "seal_chain \<Rightarrow> json" where
  "chain_json c =
     JObj ((''current'', payload_json (sc_current c))
       # opt_field ''previous'' (map_option payload_json (sc_previous c))
       @ [(''delta'', delta_json (sc_delta c))])"

definition envelope_fields :: "seal_envelope \<Rightarrow> (string \<times> json) list" where
  "envelope_fields e =
     [(''chain'', chain_json (se_chain e)), (''signature'', JStr (se_signature e)),
      (''keyId'', JStr (se_keyId e)), (''algorithm'', JStr ''Ed25519'')]"

definition revocation_json :: "revocation_seal \<Rightarrow> json" where
  "revocation_json r =
     JObj [(''sealId'', JStr (rs_sealId r)), (''previousSealId'', JStr (rs_previousSealId r)),
           (''operatorId'', JStr (rs_operatorId r)), (''credentialId'', JStr (rs_credentialId r)),
           (''chatId'', JStr (rs_chatId r)), (''reason'', JStr (agent_reason_name (rs_reason r))),
           (''revokedAt'', JStr (iso_string (rs_revokedAt r))), (''issuer'', JStr (rs_issuer r))]"

record signed_revocation =
  sr_revocation :: revocation_seal
  sr_signature :: string
  sr_signatureAlgorithm :: string
  sr_signerKeyRef :: string

section \<open>Signing\<close>

text \<open>The key answers with the signature, throws an error of the taxonomy or throws something
  else; \<open>String(e)\<close> of the latter is its text.\<close>

datatype sign_outcome =
  Signature "8 word list"
| SignThrewSignet signet_error
| SignThrew string

record signing_key =
  sk_sign :: "8 word list \<Rightarrow> sign_outcome"
  sk_fingerprint :: string

definition signBytes :: "signing_key \<Rightarrow> json \<Rightarrow> string result" where
  "signBytes key payload =
     (case sk_sign key (canonicalize payload) of
        Signature bytes \<Rightarrow> Inr (btoa (from_bytes bytes))
      | SignThrewSignet e \<Rightarrow> Inl e
      | SignThrew text \<Rightarrow>
          Inl (InternalError ''Seal signing failed'' (Some [(''cause'', CtxStr text)])))"

definition stamper_sign :: "signing_key \<Rightarrow> seal_payload \<Rightarrow> seal_envelope result" where
  "stamper_sign key payload =
     (case signBytes key (payload_json payload) of
        Inl e \<Rightarrow> Inl e
      | Inr signature \<Rightarrow>
          Inr \<lparr>se_chain = \<lparr>sc_current = payload, sc_previous = None,
                 sc_delta = \<lparr>added = [], removed = [], changed = []\<rparr>\<rparr>,
               se_signature = signature, se_keyId = sk_fingerprint key\<rparr>)"

definition stamper_signRevocation :: "signing_key \<Rightarrow> revocation_seal \<Rightarrow> signed_revocation result" where
  "stamper_signRevocation key payload =
     (case signBytes key (revocation_json payload) of
        Inl e \<Rightarrow> Inl e
      | Inr signature \<Rightarrow>
          Inr \<lparr>sr_revocation = payload, sr_signature = signature,
               sr_signatureAlgorithm = ''Ed25519'', sr_signerKeyRef = sk_fingerprint key\<rparr>)"

section \<open>Content types and the publisher\<close>

definition LIVENESS_CONTENT_TYPE_ID :: string where
  "LIVENESS_CONTENT_TYPE_ID = ''xmtp.org/agentLiveness:1.0''"

definition SEAL_CONTENT_TYPE_ID :: string where
  "SEAL_CONTENT_TYPE_ID = ''xmtp.org/agentSeal:1.0''"

definition REVOCATION_CONTENT_TYPE_ID :: string where
  "REVOCATION_CONTENT_TYPE_ID = ''xmtp.org/agentRevocation:1.0''"

definition encodeSealMessage :: "seal_envelope \<Rightarrow> json" where
  "encodeSealMessage e =
     JObj ((''contentType'', JStr SEAL_CONTENT_TYPE_ID) # envelope_fields e)"

definition encodeRevocationMessage :: "signed_revocation \<Rightarrow> json" where
  "encodeRevocationMessage r =
     JObj [(''contentType'', JStr REVOCATION_CONTENT_TYPE_ID),
           (''revocation'', revocation_json (sr_revocation r)),
           (''signature'', JStr (sr_signature r)),
           (''signatureAlgorithm'', JStr (sr_signatureAlgorithm r)),
           (''signerKeyRef'', JStr (sr_signerKeyRef r))]"

definition encodeLivenessMessage :: "string \<Rightarrow> string \<Rightarrow> int \<Rightarrow> json" where
  "encodeLivenessMessage agentInboxId timestamp heartbeatIntervalSeconds =
     JObj [(''contentType'', JStr LIVENESS_CONTENT_TYPE_ID), (''agentInboxId'', JStr agentInboxId),
           (''timestamp'', JStr timestamp),
           (''heartbeatIntervalSeconds'', JNum heartbeatIntervalSeconds)]"

definition publisher_publish ::
  "(string \<Rightarrow> string \<Rightarrow> string \<Rightarrow> string result) \<Rightarrow> string \<Rightarrow> seal_envelope \<Rightarrow> unit result" where
  "publisher_publish sendMessage groupId seal =
     (case sendMessage groupId SEAL_CONTENT_TYPE_ID (stringify (encodeSealMessage seal)) of
        Inl e \<Rightarrow> Inl e
      | Inr _ \<Rightarrow> Inr ())"

definition publisher_publishRevocation ::
  "(string \<Rightarrow> string \<Rightarrow> string \<Rightarrow> string result) \<Rightarrow> string \<Rightarrow> signed_revocation \<Rightarrow> unit result" where
  "publisher_publishRevocation sendMessage groupId revocation =
     (case sendMessage groupId REVOCATION_CONTENT_TYPE_ID
             (stringify (encodeRevocationMessage revocation)) of
        Inl e \<Rightarrow> Inl e
      | Inr _ \<Rightarrow> Inr ())"

section \<open>Message bindings\<close>

record seal_binding =
  sb_sealRef :: string
  sb_sealSignature :: string

definition binding_payload :: "string \<Rightarrow> string \<Rightarrow> 8 word list" where
  "binding_payload messageId sealId =
     canonicalize (JObj [(''messageId'', JStr messageId), (''sealId'', JStr sealId)])"

definition createMessageBinding ::
  "string \<Rightarrow> string \<Rightarrow> (8 word list \<Rightarrow> (8 word list) result) \<Rightarrow> seal_binding result" where
  "createMessageBinding messageId sealId sign =
     (case sign (binding_payload messageId sealId) of
        Inl e \<Rightarrow> Inl e
      | Inr bytes \<Rightarrow>
          Inr \<lparr>sb_sealRef = sealId, sb_sealSignature = btoa (from_bytes bytes)\<rparr>)"

text \<open>\<open>String(e)\<close> of the exception that \<open>atob\<close> throws is the host's: the parameter
  \<open>exn_text\<close>.\<close>

definition verifyMessageBinding ::
  "string \<Rightarrow> seal_binding \<Rightarrow> string \<Rightarrow> (8 word list \<Rightarrow> 8 word list \<Rightarrow> bool result) \<Rightarrow> bool result" where
  "verifyMessageBinding exn_text binding messageId verify =
     (case atob (sb_sealSignature binding) of
        None \<Rightarrow> Inl (InternalError ''Invalid message binding signature encoding''
                  (Some [(''cause'', CtxStr exn_text)]))
      | Some text \<Rightarrow> verify (binding_payload messageId (sb_sealRef binding)) (to_bytes text))"

section \<open>Publishing again\<close>

type_synonym 'w republisher = "string \<Rightarrow> seal_envelope \<Rightarrow> 'w \<Rightarrow> unit result \<times> 'w"

record republish_failure =
  rf_chatId :: string
  rf_error :: signet_error

record 'w republish_run =
  rp_succeeded :: "string list"
  rp_failed :: "republish_failure list"
  rp_world :: 'w
  rp_waits :: "int list"
  rp_calls :: "string list"

text \<open>The attempts for one chat, from \<open>attempt\<close> on: the error to report, if any.\<close>

function attempt_loop ::
  "'w republisher \<Rightarrow> string \<Rightarrow> seal_envelope \<Rightarrow> int \<Rightarrow> int \<Rightarrow> int \<Rightarrow> signet_error option \<Rightarrow>
   'w republish_run \<Rightarrow> signet_error option \<times> 'w republish_run" where
  "attempt_loop publish chatId seal maxRetries attempt delay lastError r =
     (if attempt \<le> maxRetries
      then
        let waited = (if attempt > 0 then r\<lparr>rp_waits := rp_waits r @ [delay]\<rparr> else r);
            delay' = (if attempt > 0 then delay * 2 else delay)
        in (case publish chatId seal (rp_world waited) of
              (Inr _, w) \<Rightarrow>
                (None, waited\<lparr>rp_world := w, rp_calls := rp_calls waited @ [chatId],
                              rp_succeeded := rp_succeeded waited @ [chatId]\<rparr>)
            | (Inl e, w) \<Rightarrow>
                attempt_loop publish chatId seal maxRetries (attempt + 1) delay' (Some e)
                  (waited\<lparr>rp_world := w, rp_calls := rp_calls waited @ [chatId]\<rparr>))
      else (lastError, r))"
  by pat_completeness auto

termination
  by (relation "measure (\<lambda>(publish, chatId, seal, maxRetries, attempt, r). nat (maxRetries + 1 - attempt))")
    auto

declare attempt_loop.simps [simp del]

definition republish_one ::
  "'w republisher \<Rightarrow> seal_envelope \<Rightarrow> int \<Rightarrow> int \<Rightarrow> 'w republish_run \<Rightarrow> string \<Rightarrow> 'w republish_run" where
  "republish_one publish seal maxRetries initialDelay r chatId =
     (if sp_chatId (head_payload seal) \<noteq> chatId
      then r\<lparr>rp_failed := rp_failed r @
             [\<lparr>rf_chatId = chatId,
               rf_error = ValidationError ''chatId'' ''Seal chatId does not match target chat''
                 [(''expectedChatId'', CtxStr (sp_chatId (head_payload seal))),
                  (''targetChatId'', CtxStr chatId)]\<rparr>]\<rparr>
      else
        (case attempt_loop publish chatId seal maxRetries 0 initialDelay None r of
           (None, r') \<Rightarrow> r'
         | (Some e, r') \<Rightarrow>
             r'\<lparr>rp_failed := rp_failed r' @ [\<lparr>rf_chatId = chatId, rf_error = e\<rparr>]\<rparr>))"

definition republishToChats ::
  "string list \<Rightarrow> seal_envelope \<Rightarrow> 'w republisher \<Rightarrow> int option \<Rightarrow> int option \<Rightarrow> 'w \<Rightarrow>
   'w republish_run" where
  "republishToChats chatIds seal publish maxRetries initialDelayMs w =
     foldl (republish_one publish seal
              (case maxRetries of None \<Rightarrow> 3 | Some n \<Rightarrow> n)
              (case initialDelayMs of None \<Rightarrow> 1000 | Some d \<Rightarrow> d))
       \<lparr>rp_succeeded = [], rp_failed = [], rp_world = w, rp_waits = [], rp_calls = []\<rparr> chatIds"

section \<open>The signed bytes determine the payload\<close>

text \<open>Sorting is stable, so it does not change what a field name is bound to.\<close>

lemma map_of_keyed: "map_of xs k = map_of (filter (\<lambda>p. fst p = k) xs) k"
  by (induction xs) auto

lemma map_of_sorted [simp]: "map_of (sort_key fst xs) = map_of xs"
proof
  fix k
  have "filter (\<lambda>p. fst p = k) (sort_key fst xs) = filter (\<lambda>p. fst p = k) xs"
    by (rule sort_key_stable)
  then show "map_of (sort_key fst xs) k = map_of xs k"
    by (metis map_of_keyed)
qed

lemma sorted_fields_lookup:
  assumes "sortKeys (JObj fs) = sortKeys (JObj gs)"
  shows "map_option sortKeys (map_of fs k) = map_option sortKeys (map_of gs k)"
proof -
  have "map_of (map (\<lambda>(k, v). (k, sortKeys v)) fs) = map_of (map (\<lambda>(k, v). (k, sortKeys v)) gs)"
    using assms by (simp del: map_of_sorted) (metis map_of_sorted)
  then show ?thesis by (simp add: map_of_map fun_eq_iff)
qed

lemma map_of_opt_field [simp]: "map_of (opt_field k v) j = (if j = k then v else None)"
  by (cases v) auto

lemma map_of_append_case:
  "map_of (xs @ ys) k = (case map_of xs k of None \<Rightarrow> map_of ys k | Some v \<Rightarrow> Some v)"
  by (induction xs) (auto split: option.splits)

lemma canonical_fields:
  "canonicalize (JObj fs) = canonicalize (JObj gs) \<Longrightarrow>
    map_option sortKeys (map_of fs k) = map_option sortKeys (map_of gs k)"
  by (rule sorted_fields_lookup) (simp add: canonicalize_def)

lemma option_field_inj:
  assumes "map_option sortKeys (map_option f x) = map_option sortKeys (map_option f y)"
    and "\<And>a b. sortKeys (f a) = sortKeys (f b) \<Longrightarrow> a = b"
  shows "x = y"
  using assms by (cases x; cases y) auto

lemma scopes_json_inj: "sortKeys (scopes_json a) = sortKeys (scopes_json b) \<Longrightarrow> a = b"
  by (auto simp: scopes_json_def comp_def inj_def dest: map_injective)

lemma scope_set_json_inj: "sortKeys (scope_set_json a) = sortKeys (scope_set_json b) \<Longrightarrow> a = b"
  unfolding scope_set_json_def
  using sorted_fields_lookup [of _ _ "''allow''"] sorted_fields_lookup [of _ _ "''deny''"]
  by (fastforce dest: scopes_json_inj intro: scope_set.equality)

lemma admin_access_json_inj:
  "sortKeys (admin_access_json a) = sortKeys (admin_access_json b) \<Longrightarrow> a = b"
  unfolding admin_access_json_def
  using sorted_fields_lookup [of _ _ "''operatorId''"] sorted_fields_lookup [of _ _ "''expiresAt''"]
  by (fastforce intro: admin_access.equality)

lemma scope_mode_name_inj [simp]: "scope_mode_name m = scope_mode_name m' \<longleftrightarrow> m = m'"
  by (cases m; cases m') simp_all

lemma trust_tier_name_inj [simp]: "trust_tier_name t = trust_tier_name t' \<longleftrightarrow> t = t'"
  by (cases t; cases t') simp_all

lemma inference_mode_name_inj [simp]: "inference_mode_name i = inference_mode_name i' \<longleftrightarrow> i = i'"
  by (cases i; cases i') simp_all

lemma egress_scope_name_inj [simp]: "egress_scope_name e = egress_scope_name e' \<longleftrightarrow> e = e'"
  by (cases e; cases e') simp_all

lemma hosting_mode_name_inj [simp]: "hosting_mode_name h = hosting_mode_name h' \<longleftrightarrow> h = h'"
  by (cases h; cases h') simp_all

lemma claim_provenance_name_inj [simp]: "claim_provenance_name c = claim_provenance_name c' \<longleftrightarrow> c = c'"
  by (cases c; cases c') simp_all

lemma string_list_json_inj: "map sortKeys (map JStr a) = map sortKeys (map JStr b) \<Longrightarrow> a = b"
  by (auto simp: comp_def inj_def dest: map_injective)

lemma disclosures_json_inj:
  assumes "sortKeys (disclosures_json a) = sortKeys (disclosures_json b)"
  shows "a = b"
proof -
  note f = sorted_fields_lookup [OF assms [unfolded disclosures_json_def]]
  have "od_inferenceMode a = od_inferenceMode b"
    using f [of "''inferenceMode''"]
    by (intro option_field_inj [of "\<lambda>m. JStr (inference_mode_name m)"]) (simp_all add: map_of_append_case del: map_of_append cong: option.case_cong split: option.splits)
  moreover have "od_inferenceProviders a = od_inferenceProviders b"
    using f [of "''inferenceProviders''"] string_list_json_inj
    by (intro option_field_inj [of "\<lambda>ps. JArr (map JStr ps)"]) (simp_all add: map_of_append_case del: map_of_append cong: option.case_cong split: option.splits)
  moreover have "od_contentEgressScope a = od_contentEgressScope b"
    using f [of "''contentEgressScope''"]
    by (intro option_field_inj [of "\<lambda>e. JStr (egress_scope_name e)"]) (simp_all add: map_of_append_case del: map_of_append cong: option.case_cong split: option.splits)
  moreover have "od_retentionAtProvider a = od_retentionAtProvider b"
    using f [of "''retentionAtProvider''"]
    by (intro option_field_inj [of JStr]) (simp_all add: map_of_append_case del: map_of_append cong: option.case_cong split: option.splits)
  moreover have "od_hostingMode a = od_hostingMode b"
    using f [of "''hostingMode''"]
    by (intro option_field_inj [of "\<lambda>h. JStr (hosting_mode_name h)"]) (simp_all add: map_of_append_case del: map_of_append cong: option.case_cong split: option.splits)
  ultimately show ?thesis by simp
qed

lemma provenance_record_json_inj:
  assumes "sortKeys (provenance_record_json a) = sortKeys (provenance_record_json b)"
  shows "a = b"
proof -
  note f = sorted_fields_lookup [OF assms [unfolded provenance_record_json_def]]
  have "pv_source a = pv_source b" using f [of "''source''"] by simp
  moreover have "pv_attestedBy a = pv_attestedBy b"
    using f [of "''attestedBy''"] by (intro option_field_inj [of JStr]) (simp_all add: map_of_append_case del: map_of_append cong: option.case_cong split: option.splits)
  moreover have "pv_attestedAt a = pv_attestedAt b"
    using f [of "''attestedAt''"] by (intro option_field_inj [of JStr]) (simp_all add: map_of_append_case del: map_of_append cong: option.case_cong split: option.splits)
  moreover have "pv_expiresAt a = pv_expiresAt b"
    using f [of "''expiresAt''"] by (intro option_field_inj [of JStr]) (simp_all add: map_of_append_case del: map_of_append cong: option.case_cong split: option.splits)
  ultimately show ?thesis by simp
qed

lemma provenance_json_inj:
  assumes "sortKeys (provenance_json a) = sortKeys (provenance_json b)"
  shows "map_get a = map_get b"
proof
  fix k :: string
  have "map_of (map (\<lambda>(k, r). (k, provenance_record_json r)) m) k
      = map_option provenance_record_json (map_of m k)" for m
    by (simp add: map_of_map)
  with sorted_fields_lookup [OF assms [unfolded provenance_json_def], of k]
  show "map_get a k = map_get b k"
    unfolding map_get_def
    by (intro option_field_inj [of provenance_record_json]) (simp_all add: provenance_record_json_inj)
qed

text \<open>Two payloads with the same fields; the entries of a provenance map have no order.\<close>

definition same_payload :: "seal_payload \<Rightarrow> seal_payload \<Rightarrow> bool" where
  "same_payload p q \<longleftrightarrow>
     p\<lparr>sp_issuedAt := 0, sp_provenanceMap := None\<rparr> = q\<lparr>sp_issuedAt := 0, sp_provenanceMap := None\<rparr>
     \<and> iso_string (sp_issuedAt p) = iso_string (sp_issuedAt q)
     \<and> map_option map_get (sp_provenanceMap p) = map_option map_get (sp_provenanceMap q)"

lemma payload_lookup:
  "map_of (payload_fields p) ''sealId'' = Some (JStr (sp_sealId p))"
  "map_of (payload_fields p) ''credentialId'' = Some (JStr (sp_credentialId p))"
  "map_of (payload_fields p) ''operatorId'' = Some (JStr (sp_operatorId p))"
  "map_of (payload_fields p) ''chatId'' = Some (JStr (sp_chatId p))"
  "map_of (payload_fields p) ''scopeMode'' = Some (JStr (scope_mode_name (sp_scopeMode p)))"
  "map_of (payload_fields p) ''permissions'' = Some (scope_set_json (sp_permissions p))"
  "map_of (payload_fields p) ''adminAccess'' = map_option admin_access_json (sp_adminAccess p)"
  "map_of (payload_fields p) ''issuedAt'' = Some (JStr (iso_string (sp_issuedAt p)))"
  "map_of (payload_fields p) ''bypassed'' = (if sp_bypassed p then Some (JBool True) else None)"
  "map_of (payload_fields p) ''trustTier'' =
     map_option (\<lambda>t. JStr (trust_tier_name t)) (sp_trustTier p)"
  "map_of (payload_fields p) ''operatorDisclosures'' =
     map_option disclosures_json (sp_operatorDisclosures p)"
  "map_of (payload_fields p) ''provenanceMap'' = map_option provenance_json (sp_provenanceMap p)"
  by (simp_all add: payload_fields_def map_of_append_case del: map_of_append
      cong: option.case_cong split: option.split)

lemma payload_bytes_same:
  assumes "canonicalize (payload_json p) = canonicalize (payload_json q)"
  shows "same_payload p q"
proof -
  note f = canonical_fields [OF assms [unfolded payload_json_def]]
  have "sp_sealId p = sp_sealId q" using f [of "''sealId''"] by (simp add: payload_lookup)
  moreover have "sp_credentialId p = sp_credentialId q"
    using f [of "''credentialId''"] by (simp add: payload_lookup)
  moreover have "sp_operatorId p = sp_operatorId q"
    using f [of "''operatorId''"] by (simp add: payload_lookup)
  moreover have "sp_chatId p = sp_chatId q" using f [of "''chatId''"] by (simp add: payload_lookup)
  moreover have "sp_scopeMode p = sp_scopeMode q"
    using f [of "''scopeMode''"] by (simp add: payload_lookup)
  moreover have "sp_permissions p = sp_permissions q"
    using f [of "''permissions''"] by (simp add: payload_lookup scope_set_json_inj)
  moreover have "sp_adminAccess p = sp_adminAccess q"
    using f [of "''adminAccess''", unfolded payload_lookup] admin_access_json_inj
    by (rule option_field_inj)
  moreover have "iso_string (sp_issuedAt p) = iso_string (sp_issuedAt q)"
    using f [of "''issuedAt''"] by (simp add: payload_lookup)
  moreover have "sp_bypassed p = sp_bypassed q"
    using f [of "''bypassed''"] by (simp add: payload_lookup split: if_splits)
  moreover have "sp_trustTier p = sp_trustTier q"
    using f [of "''trustTier''", unfolded payload_lookup] by (rule option_field_inj) simp
  moreover have "sp_operatorDisclosures p = sp_operatorDisclosures q"
    using f [of "''operatorDisclosures''", unfolded payload_lookup] disclosures_json_inj
    by (rule option_field_inj)
  moreover have "map_option map_get (sp_provenanceMap p) = map_option map_get (sp_provenanceMap q)"
    using f [of "''provenanceMap''", unfolded payload_lookup]
    by (cases "sp_provenanceMap p"; cases "sp_provenanceMap q") (auto dest: provenance_json_inj)
  ultimately show ?thesis unfolding same_payload_def by simp
qed

section \<open>Attempts\<close>

text \<open>Whether one of the next \<open>n\<close> calls of the publisher succeeds.\<close>

fun succeeds_within :: "'w republisher \<Rightarrow> string \<Rightarrow> seal_envelope \<Rightarrow> nat \<Rightarrow> 'w \<Rightarrow> bool" where
  "succeeds_within publish c seal 0 w \<longleftrightarrow> False"
| "succeeds_within publish c seal (Suc n) w \<longleftrightarrow>
     (case publish c seal w of (Inr _, _) \<Rightarrow> True | (Inl _, w') \<Rightarrow> succeeds_within publish c seal n w')"

definition backoffs :: "int \<Rightarrow> nat \<Rightarrow> int set" where
  "backoffs d n = {d * 2 ^ i |i. i < n}"

lemma backoffs_Suc: "backoffs d (Suc n) = insert d (backoffs (d * 2) n)"
proof -
  have "{..<Suc n} = insert 0 (Suc ` {..<n})" by (auto simp: lessThan_Suc_eq_insert_0)
  then have "(\<lambda>i. d * 2 ^ i) ` {..<Suc n} = insert d ((\<lambda>i. d * 2 * 2 ^ i) ` {..<n})"
    by (simp add: image_image mult.assoc)
  then show ?thesis unfolding backoffs_def by (simp add: image_Collect [symmetric] lessThan_def setcompr_eq_image)
qed

text \<open>What the loop does from attempt \<open>a\<close> on, \<open>n\<close> attempts before it gives up.\<close>

definition loop_effect ::
  "'w republisher \<Rightarrow> string \<Rightarrow> seal_envelope \<Rightarrow> nat \<Rightarrow> int set \<Rightarrow> 'w republish_run \<Rightarrow>
   signet_error option \<Rightarrow> 'w republish_run \<Rightarrow> bool" where
  "loop_effect publish c seal n ws r res r' \<longleftrightarrow>
     rp_failed r' = rp_failed r
     \<and> rp_succeeded r' = rp_succeeded r @ (if res = None then [c] else [])
     \<and> (res = None \<longleftrightarrow> succeeds_within publish c seal n (rp_world r))
     \<and> (\<exists>m \<le> n. rp_calls r' = rp_calls r @ replicate m c)
     \<and> (\<exists>vs. rp_waits r' = rp_waits r @ vs \<and> set vs \<subseteq> ws)"

lemma attempt_loop_effect:
  assumes "attempt_loop publish c seal M a d le r = (res, r')" and "a \<le> M" and "0 \<le> a"
  shows "loop_effect publish c seal (nat (M + 1 - a))
    (if a > 0 then backoffs d (nat (M + 1 - a)) else backoffs d (nat M)) r res r'"
  using assms
proof (induction publish c seal M a d le r arbitrary: res r' rule: attempt_loop.induct)
  case (1 publish c seal M a d le r)
  let ?w = "if a > 0 then r\<lparr>rp_waits := rp_waits r @ [d]\<rparr> else r"
  let ?d = "if a > 0 then d * 2 else d"
  have n: "nat (M + 1 - a) = Suc (nat (M + 1 - (a + 1)))" using 1(3) by simp
  obtain ans w where p: "publish c seal (rp_world ?w) = (ans, w)" by fastforce
  then have p': "publish c seal (rp_world r) = (ans, w)" by (auto split: if_splits)
  show ?case
  proof (cases ans)
    case (Inr u)
    with 1(2,3) p have "res = None" "r' = ?w\<lparr>rp_world := w, rp_calls := rp_calls ?w @ [c],
        rp_succeeded := rp_succeeded ?w @ [c]\<rparr>"
      by (subst (asm) attempt_loop.simps, auto simp: Let_def)+
    with p' Inr show ?thesis
      by (auto simp: loop_effect_def n backoffs_Suc intro!: exI [of _ "Suc 0"])
  next
    case (Inl e)
    let ?r = "?w\<lparr>rp_world := w, rp_calls := rp_calls ?w @ [c]\<rparr>"
    from 1(2,3) p Inl have loop: "attempt_loop publish c seal M (a + 1) ?d (Some e) ?r = (res, r')"
      by (subst (asm) attempt_loop.simps) (simp add: Let_def)
    show ?thesis
    proof (cases "a + 1 \<le> M")
      case True
      from 1(1) [OF 1(3) refl refl p [symmetric] Inl loop True] 1(4)
      have eff: "loop_effect publish c seal (nat (M + 1 - (a + 1))) (backoffs ?d (nat (M + 1 - (a + 1)))) ?r res r'"
        by simp
      then obtain m vs where mv: "m \<le> nat (M + 1 - (a + 1))" "rp_calls r' = rp_calls ?r @ replicate m c"
        "rp_waits r' = rp_waits ?r @ vs" "set vs \<subseteq> backoffs ?d (nat (M + 1 - (a + 1)))"
        unfolding loop_effect_def by blast
      have "\<exists>m \<le> nat (M + 1 - a). rp_calls r' = rp_calls r @ replicate m c"
        using mv(1,2) n by (intro exI [of _ "Suc m"]) (auto simp: replicate_app_Cons_same)
      moreover have "\<exists>vs. rp_waits r' = rp_waits r @ vs \<and> set vs \<subseteq>
          (if a > 0 then backoffs d (nat (M + 1 - a)) else backoffs d (nat M))"
        using mv(3,4) n 1(4)
        by (intro exI [of _ "if a > 0 then d # vs else vs"]) (auto simp: backoffs_Suc)
      ultimately show ?thesis
        using eff p' Inl by (auto simp: loop_effect_def n)
    next
      case False
      then have "res = Some e" "r' = ?r" using loop by (subst (asm) attempt_loop.simps, simp)+
      moreover have "nat (M + 1 - a) = Suc 0" using False 1(3) by simp
      ultimately show ?thesis
        using p' Inl by (auto simp: loop_effect_def backoffs_def intro!: exI [of _ "Suc 0"])
    qed
  qed
qed

lemma attempt_loop_never: "M < a \<Longrightarrow> attempt_loop publish c seal M a d le r = (le, r)"
  by (subst attempt_loop.simps) simp

section \<open>All chats\<close>

abbreviation failed_chats :: "'w republish_run \<Rightarrow> string list" where
  "failed_chats r \<equiv> map rf_chatId (rp_failed r)"

text \<open>What the loop over the chats has done so far.\<close>

definition republish_ok ::
  "'w republisher \<Rightarrow> seal_envelope \<Rightarrow> int \<Rightarrow> int \<Rightarrow> string list \<Rightarrow> 'w republish_run \<Rightarrow> bool" where
  "republish_ok publish seal M d chats r \<longleftrightarrow>
     (let own = sp_chatId (head_payload seal) in
      mset (rp_succeeded r) + mset (failed_chats r)
        = (if 0 \<le> M then mset chats else filter_mset (\<lambda>c. c \<noteq> own) (mset chats))
      \<and> set (rp_succeeded r) \<subseteq> {own} \<and> set (rp_calls r) \<subseteq> {own}
      \<and> length (rp_calls r) \<le> nat (M + 1) * count (mset chats) own
      \<and> set (rp_waits r) \<subseteq> backoffs d (nat M)
      \<and> ((\<forall>w. succeeds_within publish own seal (nat (M + 1)) w) \<longrightarrow>
           rp_succeeded r = filter (\<lambda>c. c = own) chats
           \<and> failed_chats r = filter (\<lambda>c. c \<noteq> own) chats))"

lemma republish_one_ok:
  assumes "republish_ok publish seal M d chats r"
  shows "republish_ok publish seal M d (chats @ [c]) (republish_one publish seal M d r c)"
proof (cases "sp_chatId (head_payload seal) = c \<and> 0 \<le> M")
  case True
  then have own: "sp_chatId (head_payload seal) = c" and M: "0 \<le> M" by auto
  obtain res r' where loop: "attempt_loop publish c seal M 0 d None r = (res, r')" by fastforce
  note eff = attempt_loop_effect [OF loop M order.refl]
  then obtain m vs where mv: "m \<le> nat (M + 1)" "rp_calls r' = rp_calls r @ replicate m c"
    "rp_waits r' = rp_waits r @ vs" "set vs \<subseteq> backoffs d (nat M)"
    unfolding loop_effect_def by auto
  have "length (rp_calls r) \<le> nat (M + 1) * count (mset chats) c"
    using assms own by (simp add: republish_ok_def Let_def)
  with mv(1,2) have "length (rp_calls r') \<le> nat (M + 1) * count (mset (chats @ [c])) c"
    by (simp add: algebra_simps)
  with True loop eff mv assms show ?thesis
    by (cases res) (auto simp: republish_ok_def republish_one_def loop_effect_def Let_def)
next
  case False
  then consider "sp_chatId (head_payload seal) \<noteq> c" | "sp_chatId (head_payload seal) = c" "M < 0"
    by linarith
  then show ?thesis
  proof cases
    case 1
    with assms show ?thesis
      by (auto simp: republish_ok_def republish_one_def Let_def)
  next
    case 2
    with assms show ?thesis
      by (simp add: republish_ok_def republish_one_def attempt_loop_never Let_def)
  qed
qed

lemma republish_fold_ok:
  "republish_ok publish seal M d done r \<Longrightarrow>
    republish_ok publish seal M d (done @ chats) (foldl (republish_one publish seal M d) r chats)"
  by (induction chats arbitrary: "done" r) (use republish_one_ok in fastforce)+

lemma republishToChats_ok:
  "republish_ok publish seal (case maxRetries of None \<Rightarrow> 3 | Some n \<Rightarrow> n)
     (case delay of None \<Rightarrow> 1000 | Some d \<Rightarrow> d) chatIds
     (republishToChats chatIds seal publish maxRetries delay w)"
  unfolding republishToChats_def
  using republish_fold_ok [of publish seal _ _ "[]" _ chatIds] by (simp add: republish_ok_def Let_def)

section \<open>Properties\<close>

text \<open>
  A seal's signature is for the whole payload: what the stamper returns carries the
  base64 text of exactly the bytes that the key signed, the canonical bytes of the payload, and
  a payload with the same canonical bytes is the same payload in every field.
\<close>

theorem signature_covers_whole_payload:
  assumes "stamper_sign key p = Inr e"
  shows "(\<exists>sig. sk_sign key (canonicalize (payload_json p)) = Signature sig
      \<and> map_option to_bytes (atob (se_signature e)) = Some sig)
    \<and> head_payload e = p \<and> se_keyId e = sk_fingerprint key
    \<and> (canonicalize (payload_json q) = canonicalize (payload_json p) \<longrightarrow> same_payload q p)"
  using assms payload_bytes_same [of q p]
  by (auto simp: stamper_sign_def signBytes_def split: sign_outcome.splits sum.splits)

definition demo_payload_1 :: "(string \<times> provenance_record) list \<Rightarrow> seal_payload" where
  "demo_payload_1 m =
     \<lparr>sp_sealId = ''seal_1'', sp_credentialId = ''cred_1'', sp_operatorId = ''op_1'',
      sp_chatId = ''conv_1'', sp_scopeMode = PerChat,
      sp_permissions = \<lparr>allow = [ScSend], deny = []\<rparr>, sp_adminAccess = None, sp_issuedAt = 1000,
      sp_bypassed = False, sp_trustTier = Some TierUnverified, sp_operatorDisclosures = None,
      sp_provenanceMap = Some m\<rparr>"

definition demo_prov :: provenance_record where
  "demo_prov = \<lparr>pv_source = PvDeclared, pv_attestedBy = None, pv_attestedAt = None,
     pv_expiresAt = None\<rparr>"

definition demo_key :: signing_key where
  "demo_key = \<lparr>sk_sign = (\<lambda>bs. Signature (take 4 bs)), sk_fingerprint = ''key''\<rparr>"

theorem signature_covers_whole_payload_witness:
  "same_payload (demo_payload_1 [(''trustTier'', demo_prov), (''hostingMode'', demo_prov)])
     (demo_payload_1 [(''hostingMode'', demo_prov), (''trustTier'', demo_prov)])"
proof -
  let ?p = "demo_payload_1 [(''hostingMode'', demo_prov), (''trustTier'', demo_prov)]"
  let ?q = "demo_payload_1 [(''trustTier'', demo_prov), (''hostingMode'', demo_prov)]"
  obtain e where "stamper_sign demo_key ?p = Inr e"
    by (simp add: stamper_sign_def signBytes_def demo_key_def)
  moreover have "canonicalize (payload_json ?q) = canonicalize (payload_json ?p)" by code_simp
  ultimately show ?thesis using signature_covers_whole_payload [of demo_key ?p e ?q] by blast
qed

text \<open>
  A message binding survives the wire: whoever verifies it checks exactly the signature
  bytes that the signer returned, against the bytes for the message at hand and the seal that
  the binding names; and these are the signed bytes only for the same message and seal.
\<close>

theorem binding_roundtrip:
  assumes "createMessageBinding messageId sealId sign = Inr b"
  shows "\<exists>sig. sign (binding_payload messageId sealId) = Inr sig
    \<and> verifyMessageBinding x b m verify = verify (binding_payload m sealId) sig
    \<and> (binding_payload m s = binding_payload messageId sealId \<longleftrightarrow> m = messageId \<and> s = sealId)"
proof -
  have "m = messageId \<and> s = sealId" if "binding_payload m s = binding_payload messageId sealId"
    using that canonical_fields [of _ _ "''messageId''"] canonical_fields [of _ _ "''sealId''"]
    unfolding binding_payload_def by fastforce
  with assms show ?thesis
    by (auto simp: createMessageBinding_def verifyMessageBinding_def split: sum.splits)
qed

theorem binding_roundtrip_witness:
  "\<exists>b. createMessageBinding ''m1'' ''seal_1'' (\<lambda>bs. Inr (take 3 bs)) = Inr b
     \<and> verifyMessageBinding [] b ''m1'' (\<lambda>bs sig. Inr (sig = take 3 bs)) = Inr True"
proof -
  obtain b where b: "createMessageBinding ''m1'' ''seal_1'' (\<lambda>bs. Inr (take 3 bs)) = Inr b"
    by (simp add: createMessageBinding_def)
  with binding_roundtrip [OF b, of "[]" "''m1''" "\<lambda>bs sig. Inr (sig = take 3 bs)" "''s''"]
  show ?thesis by auto
qed

text \<open>
  C29. Publishing a seal again always ends with every chat settled: each entry of the list is
  either among the succeeded or among the failed ones (when the number of retries is negative
  the seal's own chat is in neither). Only the seal's own chat is published to, at most
  \<open>maxRetries + 1\<close> times per entry, and the waits double from the initial delay on.
\<close>

theorem republish_settles_every_chat:
  "let r = republishToChats chatIds seal publish maxRetries delay w;
       M = (case maxRetries of None \<Rightarrow> 3 | Some n \<Rightarrow> n);
       d = (case delay of None \<Rightarrow> 1000 | Some t \<Rightarrow> t);
       own = sp_chatId (head_payload seal)
   in mset (rp_succeeded r) + mset (failed_chats r)
        = (if 0 \<le> M then mset chatIds else filter_mset (\<lambda>c. c \<noteq> own) (mset chatIds))
      \<and> set (rp_succeeded r) \<subseteq> {own} \<and> set (rp_calls r) \<subseteq> {own}
      \<and> length (rp_calls r) \<le> nat (M + 1) * count (mset chatIds) own
      \<and> set (rp_waits r) \<subseteq> {d * 2 ^ i |i. i < nat M}"
  using republishToChats_ok [of publish seal maxRetries delay chatIds w]
  by (simp add: republish_ok_def backoffs_def Let_def)


definition demo_envelope :: seal_envelope where
  "demo_envelope =
     \<lparr>se_chain = \<lparr>sc_current = demo_payload_1 [], sc_previous = None,
        sc_delta = \<lparr>added = [], removed = [], changed = []\<rparr>\<rparr>,
      se_signature = [], se_keyId = ''key''\<rparr>"

definition every_third :: "nat republisher" where
  "every_third c seal w =
     (if w mod 3 = 0 then Inr () else Inl (InternalError ''busy'' None), w + 1)"


end
