(* ===== verification/VerifierChecks.thy ===== *)
theory VerifierChecks
  imports Der SealMessages
begin

text \<open>
  The six checks of the verifier (packages/verifier/src/checks) and the request they read.

  A check is a handler that answers with a verdict or with an error, throws, or never returns:
  \<open>None\<close>. What it asks of the outside world is an argument: \<open>fetch\<close>, \<open>JSON.parse\<close>, the URL
  parser, the Web Crypto and noble libraries, the messages of zod, and the clock. The long dash
  in two of the texts is written as a semicolon.
\<close>

section \<open>Requests and results\<close>

datatype check_verdict = VdPass | VdFail | VdSkip

record verification_check =
  vc_checkId :: string
  vc_verdict :: check_verdict
  vc_reason :: string
  vc_evidence :: "json option"

record verification_request =
  vr_requestId :: string
  vr_agentInboxId :: string
  vr_signetInboxId :: string
  vr_groupId :: "string option"
  vr_seal :: "seal_payload option"
  vr_sealEnvelope :: "seal_envelope option"
  vr_sealPublicKey :: "string option"
  vr_artifactDigest :: string
  vr_buildProvenanceBundle :: "string option"
  vr_sourceRepoUrl :: string
  vr_releaseTag :: "string option"
  vr_requestedTier :: trust_tier
  vr_challengeNonce :: string

type_synonym check_run = "verification_check result completion option"

definition answer :: "string \<Rightarrow> check_verdict \<Rightarrow> string \<Rightarrow> json option \<Rightarrow> verification_check result" where
  "answer checkId verdict reason evidence =
     Inr \<lparr>vc_checkId = checkId, vc_verdict = verdict, vc_reason = reason, vc_evidence = evidence\<rparr>"

section \<open>Canonical bytes\<close>

definition verifier_canonicalize :: "json \<Rightarrow> 8 word list" where
  "verifier_canonicalize value = utf8 (stringify (sortKeys value))"

fun bytes_agree :: "8 word list \<Rightarrow> 8 word list \<Rightarrow> bool" where
  "bytes_agree (a # as) (b # bs) \<longleftrightarrow> (if a \<noteq> b then False else bytes_agree as bs)"
| "bytes_agree _ _ \<longleftrightarrow> True"

definition bytesEqual :: "8 word list \<Rightarrow> 8 word list \<Rightarrow> bool" where
  "bytesEqual a b \<longleftrightarrow> (if length a \<noteq> length b then False else bytes_agree a b)"

lemma bytesEqual_iff [simp]: "bytesEqual a b \<longleftrightarrow> a = b"
proof -
  have "length a = length b \<Longrightarrow> bytes_agree a b \<longleftrightarrow> a = b"
    by (induction a b rule: bytes_agree.induct) auto
  then show ?thesis by (auto simp: bytesEqual_def)
qed

lemma verifier_canonicalize_eq [simp]: "verifier_canonicalize = canonicalize"
  by (rule ext) (simp add: verifier_canonicalize_def canonicalize_def)

section \<open>Schema compliance\<close>

text \<open>The issues that zod lists for a payload that does not parse: paths and messages.\<close>

definition schema_compliance_check ::
  "(string \<Rightarrow> bool) \<Rightarrow> (seal_payload \<Rightarrow> (string \<times> string) list) \<Rightarrow> verification_request \<Rightarrow>
   verification_check result" where
  "schema_compliance_check is_datetime zod_issues request =
     (let reply = answer ''schema_compliance'' in
      case vr_seal request of
        None \<Rightarrow> reply VdSkip ''No seal provided'' None
      | Some seal \<Rightarrow>
          if SealPayload_ok is_datetime seal
          then reply VdPass ''Seal conforms to SealPayload schema'' None
          else
            (let issues = zod_issues seal in
             reply VdFail (''Seal schema validation failed: '' @ show_nat (length issues) @ '' issue(s)'')
               (Some (JObj [(''errors'',
                  JArr (map (\<lambda>(p, m). JObj [(''path'', JStr p), (''message'', JStr m)]) issues))]))))"

section \<open>The chain of a seal\<close>

definition missing_fields :: "(string \<times> string) list \<Rightarrow> string list" where
  "missing_fields named = map fst (filter (\<lambda>(_, v). length v = 0) named)"

definition seal_chain_check :: "verification_request \<Rightarrow> verification_check result" where
  "seal_chain_check request =
     (let reply = answer ''seal_chain'' in
      case vr_seal request of
        None \<Rightarrow> reply VdSkip ''No seal provided'' None
      | Some seal \<Rightarrow>
          (let failures = missing_fields
                 [(''Missing sealId'', sp_sealId seal), (''Missing chatId'', sp_chatId seal),
                  (''Missing operatorId'', sp_operatorId seal),
                  (''Missing credentialId'', sp_credentialId seal)] in
           if length failures > 0
           then reply VdFail (''Seal chain validation failed: '' @ join_with ''; '' failures)
                  (Some (JObj [(''failures'', JArr (map JStr failures)),
                     (''sealId'', JStr (sp_sealId seal)), (''chainValid'', JBool False),
                     (''chainWalked'', JBool False)]))
           else
             (case vr_sealEnvelope request of
                None \<Rightarrow>
                  reply VdSkip ''Seal payload structurally valid; full chain validation requires the local envelope''
                    (Some (JObj [(''sealId'', JStr (sp_sealId seal)), (''chainWalked'', JBool False),
                       (''chainValid'', JBool True)]))
              | Some envelope \<Rightarrow>
                  (let current = sc_current (se_chain envelope);
                       walked = sc_previous (se_chain envelope) \<noteq> None;
                       evidence = (\<lambda>w valid. Some (JObj [(''sealId'', JStr (sp_sealId seal)),
                          (''chainValid'', JBool valid), (''chainWalked'', JBool w)])) in
                   if sp_sealId current \<noteq> sp_sealId seal
                   then reply VdFail ''Seal envelope does not match the requested seal payload''
                          (Some (JObj [(''expectedSealId'', JStr (sp_sealId seal)),
                             (''envelopeSealId'', JStr (sp_sealId current)),
                             (''chainValid'', JBool False), (''chainWalked'', JBool False)]))
                   else if \<not> bytesEqual (verifier_canonicalize (payload_json seal))
                               (verifier_canonicalize (payload_json current))
                   then reply VdFail ''Seal payload does not match signed envelope content''
                          (evidence False False)
                   else
                     (case validateSealChain (se_chain envelope) of
                        Inl e \<Rightarrow> reply VdFail (error_message e) (evidence walked False)
                      | Inr _ \<Rightarrow>
                          (case verifyChainDelta (se_chain envelope) of
                             Inl e \<Rightarrow> reply VdFail (error_message e) (evidence walked False)
                           | Inr _ \<Rightarrow>
                               reply VdPass ''Seal chain and stored delta validated locally''
                                 (Some (JObj [(''sealId'', JStr (sp_sealId seal)),
                                    (''chainWalked'', JBool walked), (''chainValid'', JBool True)]))))))))"

section \<open>The signature of a seal\<close>

text \<open>\<open>Number.parseInt(s, 16)\<close>; \<open>None\<close> is NaN. Storing NaN in a byte array stores zero.\<close>

definition hex_digit :: "char \<Rightarrow> int option" where
  "hex_digit c =
     (let n = (of_char c :: int) in
      if 48 \<le> n \<and> n \<le> 57 then Some (n - 48)
      else if 97 \<le> n \<and> n \<le> 102 then Some (n - 87)
      else if 65 \<le> n \<and> n \<le> 70 then Some (n - 55) else None)"

definition js_whitespace :: "char \<Rightarrow> bool" where
  "js_whitespace c \<longleftrightarrow> (of_char c :: nat) \<in> {9, 10, 11, 12, 13, 32, 160}"

definition parseInt16 :: "string \<Rightarrow> int option" where
  "parseInt16 s =
     (let t = dropWhile js_whitespace s;
          negative = starts_with ''-'' t;
          u = (if negative \<or> starts_with ''+'' t then drop 1 t else t);
          v = (if starts_with ''0x'' u \<or> starts_with ''0X'' u then drop 2 u else u);
          digits = takeWhile (\<lambda>c. hex_digit c \<noteq> None) v;
          n = foldl (\<lambda>a c. a * 16 + (case hex_digit c of None \<Rightarrow> 0 | Some d \<Rightarrow> d)) 0 digits in
      if digits = [] then None else Some (if negative then - n else n))"

definition hexToBytes :: "string \<Rightarrow> 8 word list" where
  "hexToBytes hex =
     (let normalized = js_lower hex in
      map (\<lambda>i. of_int (case parseInt16 (take 2 (drop (2 * i) normalized)) of
                         None \<Rightarrow> 0 | Some v \<Rightarrow> v))
        [0..<length normalized div 2])"

text \<open>What the check asks of the run time: \<open>new Date(s).getTime()\<close>, \<open>Buffer.from(s, 'base64')\<close>
  and Web Crypto, whose exceptions are \<open>Inl\<close> with their text.\<close>

record 'k crypto_host =
  ch_date :: "string \<Rightarrow> int option"
  ch_base64 :: "string \<Rightarrow> 8 word list"
  ch_import :: "8 word list \<Rightarrow> string + 'k"
  ch_verify :: "'k \<Rightarrow> 8 word list \<Rightarrow> 8 word list \<Rightarrow> string + bool"

definition canonical_timestamp :: "'k crypto_host \<Rightarrow> string \<Rightarrow> bool" where
  "canonical_timestamp host text =
     (case ch_date host text of None \<Rightarrow> False | Some t \<Rightarrow> iso_string t = text)"

definition importEd25519PublicKey :: "'k crypto_host \<Rightarrow> string \<Rightarrow> 'k result" where
  "importEd25519PublicKey host publicKeyHex =
     (case ch_import host (hexToBytes publicKeyHex) of
        Inl cause \<Rightarrow> Inl (InternalError ''Failed to import Ed25519 public key''
                        (Some [(''cause'', CtxStr cause)]))
      | Inr key \<Rightarrow> Inr key)"

definition verifyEd25519Signature ::
  "'k crypto_host \<Rightarrow> 'k \<Rightarrow> 8 word list \<Rightarrow> 8 word list \<Rightarrow> bool result" where
  "verifyEd25519Signature host key data signature =
     (case ch_verify host key signature data of
        Inl cause \<Rightarrow> Inl (InternalError ''Ed25519 verification failed''
                        (Some [(''cause'', CtxStr cause)]))
      | Inr valid \<Rightarrow> Inr valid)"

definition seal_structure_failures :: "'k crypto_host \<Rightarrow> seal_payload \<Rightarrow> string list" where
  "seal_structure_failures host seal =
     missing_fields [(''Missing operatorId field'', sp_operatorId seal)]
     @ (let issuedAt = iso_string (sp_issuedAt seal) in
        if length issuedAt > 0
        then if canonical_timestamp host issuedAt then []
             else [''Invalid or non-canonical issuedAt timestamp'']
        else [''Missing issuedAt timestamp''])
     @ missing_fields [(''Missing scopeMode'', scope_mode_name (sp_scopeMode seal))]"

definition seal_signature_check ::
  "'k crypto_host \<Rightarrow> verification_request \<Rightarrow> verification_check result" where
  "seal_signature_check host request =
     (let reply = answer ''seal_signature'' in
      case vr_seal request of
        None \<Rightarrow> reply VdSkip ''No seal provided'' None
      | Some seal \<Rightarrow>
          (let failures = seal_structure_failures host seal in
           if length failures > 0
           then reply VdFail (''Seal structural validation failed: '' @ join_with ''; '' failures)
                  (Some (JObj [(''failures'', JArr (map JStr failures)),
                     (''signatureVerified'', JBool False)]))
           else
             (case (vr_sealEnvelope request, vr_sealPublicKey request) of
                (Some envelope, Some publicKey) \<Rightarrow>
                  (let current = sc_current (se_chain envelope) in
                   if sp_sealId current \<noteq> sp_sealId seal
                   then reply VdFail ''Seal envelope does not match the requested seal payload''
                          (Some (JObj [(''expectedSealId'', JStr (sp_sealId seal)),
                             (''envelopeSealId'', JStr (sp_sealId current)),
                             (''signatureVerified'', JBool False)]))
                   else if \<not> bytesEqual (verifier_canonicalize (payload_json seal))
                               (verifier_canonicalize (payload_json current))
                   then reply VdFail ''Seal payload does not match signed envelope content''
                          (Some (JObj [(''sealId'', JStr (sp_sealId seal)),
                             (''signatureVerified'', JBool False)]))
                   else
                     (case importEd25519PublicKey host publicKey of
                        Inl e \<Rightarrow> Inl e
                      | Inr key \<Rightarrow>
                          (case verifyEd25519Signature host key
                                  (verifier_canonicalize (payload_json current))
                                  (ch_base64 host (se_signature envelope)) of
                             Inl e \<Rightarrow> Inl e
                           | Inr verified \<Rightarrow>
                               if \<not> verified
                               then reply VdFail ''Seal signature verification failed''
                                 (Some (JObj [(''keyId'', JStr (se_keyId envelope)),
                                    (''signatureVerified'', JBool False)]))
                               else reply VdPass ''Seal signature verified against the local signer public key''
                                 (Some (JObj [(''keyId'', JStr (se_keyId envelope)),
                                    (''signatureVerified'', JBool True)])))))
              | _ \<Rightarrow>
                  reply VdSkip ''Seal structural validation passed; signature verification requires a local envelope and signer public key''
                    (Some (JObj [(''operatorId'', JStr (sp_operatorId seal)),
                       (''signatureVerified'', JNull)])))))"

section \<open>Availability of the source\<close>

datatype 'b fetch_outcome = HttpResponse int 'b | FetchThrew string

definition response_ok :: "int \<Rightarrow> bool" where
  "response_ok status \<longleftrightarrow> 200 \<le> status \<and> status \<le> 299"

definition source_available_check ::
  "(string \<Rightarrow> unit fetch_outcome) \<Rightarrow> int \<Rightarrow> int \<Rightarrow> verification_request \<Rightarrow>
   verification_check result" where
  "source_available_check fetcher startTime endTime request =
     (let reply = answer ''source_available''; elapsed = endTime - startTime;
          url = vr_sourceRepoUrl request in
      case fetcher url of
        HttpResponse status _ \<Rightarrow>
          reply (if response_ok status then VdPass else VdFail)
            (if response_ok status then ''Source repository accessible (HTTP '' @ show_int status @ '')''
             else ''Source repository returned HTTP '' @ show_int status)
            (Some (JObj [(''url'', JStr url), (''statusCode'', JNum status),
               (''responseTimeMs'', JNum elapsed)]))
      | FetchThrew message \<Rightarrow>
          reply VdFail (''Source repository unreachable: '' @ message)
            (Some (JObj [(''url'', JStr url), (''responseTimeMs'', JNum elapsed),
               (''error'', JStr message)])))"

section \<open>Signing of the release\<close>

text \<open>The host name and the path of a URL that parses.\<close>

type_synonym url_parser = "string \<Rightarrow> (string \<times> string) option"

definition parseGitHubRepo :: "url_parser \<Rightarrow> string \<Rightarrow> (string \<times> string) option" where
  "parseGitHubRepo parse_url url =
     (case parse_url url of
        None \<Rightarrow> None
      | Some (hostname, pathname) \<Rightarrow>
          if hostname \<noteq> ''github.com'' then None
          else
            (let p = (if starts_with ''/'' pathname then drop 1 pathname else pathname);
                 q = (if ends_with ''.git'' p then take (length p - 4) p else p);
                 parts = split_on CHR ''/'' q in
             if length parts < 2 \<or> parts ! 0 = [] \<or> parts ! 1 = [] then None
             else Some (parts ! 0, parts ! 1)))"

definition isSigningAssetForDigest :: "string \<Rightarrow> string \<Rightarrow> bool" where
  "isSigningAssetForDigest name digest \<longleftrightarrow>
     (let lower = js_lower name; shortDigest = js_lower (take 12 digest) in
      (ends_with ''.sig'' lower \<or> ends_with ''.sigstore'' lower
       \<or> ends_with ''.sigstore.json'' lower \<or> ends_with ''.intoto.jsonl'' lower)
      \<and> js_includes shortDigest lower)"

text \<open>The fields of the release that are read: whether \<open>draft\<close> and \<open>prerelease\<close> are \<open>true\<close>,
  the names of the assets, the tag and the page.\<close>

record github_release =
  gr_draft :: bool
  gr_prerelease :: bool
  gr_assetNames :: "string list"
  gr_tagName :: string
  gr_htmlUrl :: json

text \<open>\<open>github owner repo tag\<close> is the request for the release; an answer without a body that
  parses is a \<open>FetchThrew\<close>.\<close>

definition release_signing_check ::
  "url_parser \<Rightarrow> (string \<Rightarrow> string \<Rightarrow> string \<Rightarrow> github_release fetch_outcome) \<Rightarrow>
   verification_request \<Rightarrow> verification_check result" where
  "release_signing_check parse_url github request =
     (let reply = answer ''release_signing'' in
      case vr_releaseTag request of
        None \<Rightarrow> reply VdSkip ''No release tag provided'' None
      | Some tag \<Rightarrow>
          (case parseGitHubRepo parse_url (vr_sourceRepoUrl request) of
             None \<Rightarrow>
               reply VdSkip ''Source repository is not a GitHub URL; release signing check requires GitHub''
                 (Some (JObj [(''sourceRepoUrl'', JStr (vr_sourceRepoUrl request))]))
           | Some (owner, repo) \<Rightarrow>
               (case github owner repo tag of
                  FetchThrew _ \<Rightarrow>
                    reply VdSkip ''Failed to fetch release from GitHub API (timeout or network error)''
                      (Some (JObj [(''releaseTag'', JStr tag)]))
                | HttpResponse status release \<Rightarrow>
                    if status = 404
                    then reply VdFail (''No GitHub release found for tag '' @ tag)
                           (Some (JObj [(''releaseTag'', JStr tag), (''repo'', JStr (owner @ ''/'' @ repo))]))
                    else if \<not> response_ok status
                    then reply VdSkip (''GitHub API returned '' @ show_int status)
                           (Some (JObj [(''releaseTag'', JStr tag), (''statusCode'', JNum status)]))
                    else if gr_draft release
                    then reply VdFail ''Release is still in draft; not published''
                           (Some (JObj [(''releaseTag'', JStr (gr_tagName release)), (''draft'', JBool True)]))
                    else
                      (let names = gr_assetNames release;
                           signing = filter (\<lambda>n. isSigningAssetForDigest n (vr_artifactDigest request)) names;
                           common = [(''releaseTag'', JStr (gr_tagName release)),
                              (''prerelease'', JBool (gr_prerelease release)),
                              (''totalAssets'', JNum (int (length names)))] in
                       if length signing = 0
                       then reply VdFail (''Release '' @ gr_tagName release
                              @ '' found but no signing artifacts for digest ''
                              @ take 12 (vr_artifactDigest request) @ ''...'')
                              (Some (JObj (common @ [(''allAssetNames'', JArr (map JStr names)),
                                 (''artifactDigest'', JStr (vr_artifactDigest request))])))
                       else reply VdPass (''Release '' @ gr_tagName release @ '' found with ''
                              @ show_nat (length signing) @ '' signing artifact(s) for the requested digest'')
                              (Some (JObj (common @ [(''signingAssets'', JArr (map JStr signing)),
                                 (''artifactDigest'', JStr (vr_artifactDigest request)),
                                 (''htmlUrl'', gr_htmlUrl release)])))))))"

section \<open>Sigstore bundles\<close>

text \<open>
  The schemas of sigstore-bundle.ts, as the paths of the issues that zod lists, in order; the
  first message is zod's. Every object is checked field by field.
\<close>

definition want_string :: "string \<Rightarrow> json option \<Rightarrow> string list" where
  "want_string path v = (case v of Some (JStr _) \<Rightarrow> [] | _ \<Rightarrow> [path])"

definition want_object ::
  "string \<Rightarrow> json option \<Rightarrow> ((string \<times> json) list \<Rightarrow> string list) \<Rightarrow> string list" where
  "want_object path v fields_of = (case v of Some (JObj fs) \<Rightarrow> fields_of fs | _ \<Rightarrow> [path])"

definition want_items ::
  "string \<Rightarrow> json option \<Rightarrow> (string \<Rightarrow> json \<Rightarrow> string list) \<Rightarrow> string list" where
  "want_items path v item =
     (case v of
        Some (JArr vs) \<Rightarrow>
          if vs = [] then [path]
          else concat (map (\<lambda>(i, w). item (path @ ''.'' @ show_nat i) w) (enumerate 0 vs))
      | _ \<Rightarrow> [path])"

definition dsse_issues :: "(string \<times> json) list \<Rightarrow> string list" where
  "dsse_issues fs =
     want_string ''dsseEnvelope.payload'' (map_of fs ''payload'')
     @ want_string ''dsseEnvelope.payloadType'' (map_of fs ''payloadType'')
     @ want_items ''dsseEnvelope.signatures'' (map_of fs ''signatures'')
         (\<lambda>path v. want_object path (Some v)
            (\<lambda>gs. want_string (path @ ''.sig'') (map_of gs ''sig'')
                @ want_string (path @ ''.keyid'') (map_of gs ''keyid'')))"

definition material_issues :: "(string \<times> json) list \<Rightarrow> string list" where
  "material_issues fs =
     want_object ''verificationMaterial.certificate'' (map_of fs ''certificate'')
       (\<lambda>gs. want_string ''verificationMaterial.certificate.rawBytes'' (map_of gs ''rawBytes''))
     @ (case map_of fs ''tlogEntries'' of
          None \<Rightarrow> []
        | Some (JArr _) \<Rightarrow> []
        | Some _ \<Rightarrow> [''verificationMaterial.tlogEntries''])"

definition bundle_issues :: "json \<Rightarrow> string list" where
  "bundle_issues raw =
     want_object [] (Some raw)
       (\<lambda>fs. want_string ''mediaType'' (map_of fs ''mediaType'')
          @ want_object ''verificationMaterial'' (map_of fs ''verificationMaterial'') material_issues
          @ want_object ''dsseEnvelope'' (map_of fs ''dsseEnvelope'') dsse_issues)"

definition statement_issues :: "json \<Rightarrow> string list" where
  "statement_issues raw =
     want_object [] (Some raw)
       (\<lambda>fs. (if map_of fs ''_type'' = Some (JStr ''https://in-toto.io/Statement/v1'') then [] else [''_type''])
          @ want_items ''subject'' (map_of fs ''subject'')
              (\<lambda>path v. want_object path (Some v)
                 (\<lambda>gs. want_string (path @ ''.name'') (map_of gs ''name'')
                     @ want_object (path @ ''.digest'') (map_of gs ''digest'')
                         (\<lambda>ds. want_string (path @ ''.digest.sha256'') (map_of ds ''sha256''))))
          @ want_string ''predicateType'' (map_of fs ''predicateType''))"

text \<open>Reading fields that the schema has checked.\<close>

definition field_of :: "string \<Rightarrow> json option \<Rightarrow> json option" where
  "field_of k v = (case v of Some (JObj fs) \<Rightarrow> map_of fs k | _ \<Rightarrow> None)"

definition text_of :: "json option \<Rightarrow> string" where
  "text_of v = (case v of Some (JStr s) \<Rightarrow> s | _ \<Rightarrow> [])"

definition items_of :: "json option \<Rightarrow> json list" where
  "items_of v = (case v of Some (JArr vs) \<Rightarrow> vs | _ \<Rightarrow> [])"

record in_toto =
  it_subject :: "(string \<times> string) list"
  it_predicateType :: string
  it_predicate :: "json option"

record parsed_bundle =
  pb_envelope :: dsse_envelope
  pb_statement :: in_toto
  pb_certificate :: string

definition read_envelope :: "json \<Rightarrow> dsse_envelope" where
  "read_envelope raw =
     (let env = field_of ''dsseEnvelope'' (Some raw) in
      \<lparr>ds_payload = text_of (field_of ''payload'' env), ds_payloadType = text_of (field_of ''payloadType'' env),
       ds_signatures = map (\<lambda>v. text_of (field_of ''sig'' (Some v))) (items_of (field_of ''signatures'' env))\<rparr>)"

definition read_statement :: "json \<Rightarrow> in_toto" where
  "read_statement raw =
     \<lparr>it_subject = map (\<lambda>v. (text_of (field_of ''name'' (Some v)),
                           text_of (field_of ''sha256'' (field_of ''digest'' (Some v)))))
                    (items_of (field_of ''subject'' (Some raw))),
      it_predicateType = text_of (field_of ''predicateType'' (Some raw)),
      it_predicate = field_of ''predicate'' (Some raw)\<rparr>"

record json_host =
  jh_parse :: "string \<Rightarrow> json option"
  jh_first_issue :: "json \<Rightarrow> string"

definition parseSigstoreBundle :: "json_host \<Rightarrow> string \<Rightarrow> string + parsed_bundle" where
  "parseSigstoreBundle host base64Bundle =
     (case atob base64Bundle of
        None \<Rightarrow> Inl ''Bundle is not valid base64''
      | Some decoded \<Rightarrow>
          (case jh_parse host decoded of
             None \<Rightarrow> Inl ''Bundle is not valid JSON''
           | Some raw \<Rightarrow>
               if bundle_issues raw \<noteq> []
               then (if list_ex (starts_with ''dsseEnvelope'') (bundle_issues raw)
                     then Inl ''Bundle is missing required DSSE envelope''
                     else if list_ex (starts_with ''verificationMaterial'') (bundle_issues raw)
                     then Inl ''Bundle is missing required verification material''
                     else Inl (''Invalid bundle structure: '' @ jh_first_issue host raw))
               else
                 (let env = read_envelope raw in
                  case Option.bind (atob (ds_payload env)) (jh_parse host) of
                    None \<Rightarrow> Inl ''DSSE envelope payload is not valid base64 JSON''
                  | Some payload \<Rightarrow>
                      if statement_issues payload \<noteq> []
                      then Inl ''DSSE payload is not a valid in-toto statement''
                      else Inr \<lparr>pb_envelope = env, pb_statement = read_statement payload,
                             pb_certificate = text_of (field_of ''rawBytes'' (field_of ''certificate''
                               (field_of ''verificationMaterial'' (Some raw))))\<rparr>)))"

definition findMatchingSubject :: "in_toto \<Rightarrow> string \<Rightarrow> (string \<times> string) option" where
  "findMatchingSubject statement expectedDigest =
     find_first (\<lambda>(name, digest). js_lower digest = js_lower expectedDigest) (it_subject statement)"

section \<open>Build provenance\<close>

record build_config =
  bc_expectedOidcIssuer :: "string option"
  bc_expectedIdentityPattern :: "string option"

definition the_default_text :: "string option \<Rightarrow> string" where
  "the_default_text v = (case v of None \<Rightarrow> [] | Some s \<Rightarrow> s)"

text \<open>A missing configuration string and an empty one both switch a test off.\<close>

definition truthy_string :: "string option \<Rightarrow> bool" where
  "truthy_string v = (case v of None \<Rightarrow> False | Some s \<Rightarrow> s \<noteq> [])"

fun or_null :: "json option \<Rightarrow> json" where
  "or_null None = JNull"
| "or_null (Some v) = v"

definition actual_issuer :: "in_toto \<Rightarrow> json" where
  "actual_issuer st =
     or_null (field_of ''oidcIssuer'' (field_of ''metadata'' (field_of ''runDetails'' (it_predicate st))))"

definition actual_identity :: "in_toto \<Rightarrow> json" where
  "actual_identity st =
     or_null (field_of ''identity'' (field_of ''buildConfigSource'' (field_of ''metadata''
       (field_of ''runDetails'' (it_predicate st)))))"

text \<open>
  \<open>!actualIdentity || !actualIdentity.startsWith(pattern)\<close>: the predicate is not validated,
  and a truthy value that is not a string has no such method.
\<close>

fun identity_mismatch :: "string \<Rightarrow> json \<Rightarrow> bool completion" where
  "identity_mismatch pattern_text (JStr s) = Returned (s = [] \<or> \<not> starts_with pattern_text s)"
| "identity_mismatch pattern_text JNull = Returned True"
| "identity_mismatch pattern_text (JBool b) = (if b then Threw TypeError else Returned True)"
| "identity_mismatch pattern_text (JNum n) = (if n \<noteq> 0 then Threw TypeError else Returned True)"
| "identity_mismatch pattern_text _ = Threw TypeError"

text \<open>From the key of the certificate on.\<close>

definition check_dsse ::
  "(8 word list \<Rightarrow> 8 word list \<Rightarrow> 8 word list \<Rightarrow> bool option) \<Rightarrow> parsed_bundle \<Rightarrow> string \<times> string \<Rightarrow>
   verification_check result option" where
  "check_dsse p256 b subject =
     (let reply = answer ''build_provenance'';
          matched = [(''matchedSubject'', JStr (fst subject)), (''matchedDigest'', JStr (snd subject))] in
      case extractP256PublicKey (pb_certificate b) of
        None \<Rightarrow> None
      | Some (Inl e) \<Rightarrow>
          Some (reply VdFail (''Certificate key extraction failed: '' @ e)
            (Some (JObj (matched @ [(''certificateError'', JStr e)]))))
      | Some (Inr key) \<Rightarrow>
          (case verifyDsseSignature p256 (pb_envelope b) key of
             Inl e \<Rightarrow>
               Some (reply VdFail (''DSSE signature verification failed: '' @ e)
                 (Some (JObj (matched @ [(''signatureError'', JStr e)]))))
           | Inr _ \<Rightarrow>
               Some (reply VdSkip ''DSSE signature is cryptographically valid but Fulcio certificate chain and Rekor inclusion proof verification are not yet implemented''
                 (Some (JObj (matched @ [(''predicateType'', JStr (it_predicateType (pb_statement b))),
                    (''hasCertificate'', JBool (length (pb_certificate b) > 0)),
                    (''subjectCount'', JNum (int (length (it_subject (pb_statement b))))),
                    (''signatureCount'', JNum (int (length (ds_signatures (pb_envelope b))))),
                    (''cryptoVerified'', JBool True)]))))))"

definition build_provenance_check ::
  "json_host \<Rightarrow> (8 word list \<Rightarrow> 8 word list \<Rightarrow> 8 word list \<Rightarrow> bool option) \<Rightarrow> build_config \<Rightarrow>
   verification_request \<Rightarrow> check_run" where
  "build_provenance_check host p256 config request =
     (let reply = (\<lambda>verdict reason evidence.
            Some (Returned (answer ''build_provenance'' verdict reason evidence)));
          digest = vr_artifactDigest request in
      case vr_buildProvenanceBundle request of
        None \<Rightarrow> reply VdSkip ''No build provenance bundle provided'' None
      | Some base64 \<Rightarrow>
          (case parseSigstoreBundle host base64 of
             Inl e \<Rightarrow> reply VdFail e
               (Some (JObj [(''bundlePresent'', JBool True), (''artifactDigest'', JStr digest)]))
           | Inr b \<Rightarrow>
               (let statement = pb_statement b; signatures = ds_signatures (pb_envelope b) in
                if \<not> list_ex (\<lambda>s. length s > 0) signatures
                then reply VdFail ''DSSE envelope has no non-empty signatures''
                  (Some (JObj [(''signatureCount'', JNum (int (length signatures))),
                     (''allEmpty'', JBool True)]))
                else
                  (case findMatchingSubject statement digest of
                     None \<Rightarrow>
                       reply VdFail ''Artifact digest does not match any subject in the in-toto statement''
                         (Some (JObj [(''expectedDigest'', JStr digest),
                            (''statementDigests'', JArr (map (\<lambda>p. JStr (snd p)) (it_subject statement)))]))
                   | Some subject \<Rightarrow>
                       if truthy_string (bc_expectedOidcIssuer config)
                          \<and> actual_issuer statement \<noteq> or_null (map_option JStr (bc_expectedOidcIssuer config))
                       then reply VdFail ''OIDC issuer does not match expected value''
                         (Some (JObj [(''expectedIssuer'', or_null (map_option JStr (bc_expectedOidcIssuer config))),
                            (''actualIssuer'', actual_issuer statement)]))
                       else
                         (case (if truthy_string (bc_expectedIdentityPattern config)
                                then identity_mismatch (the_default_text (bc_expectedIdentityPattern config))
                                       (actual_identity statement)
                                else Returned False) of
                            Threw e \<Rightarrow> Some (Threw e)
                          | Returned True \<Rightarrow>
                              reply VdFail ''Build identity does not match expected pattern''
                                (Some (JObj [(''expectedPattern'',
                                   or_null (map_option JStr (bc_expectedIdentityPattern config))),
                                   (''actualIdentity'', actual_identity statement)]))
                          | Returned False \<Rightarrow> map_option Returned (check_dsse p256 b subject))))))"

end
