(* ===== verification/Verifier.thy ===== *)
theory Verifier
  imports VerifierChecks SealLifecycle
begin

text \<open>
  The verifier service (packages/verifier/src/service.ts): its sliding-window rate limiter
  (rate-limiter.ts), the verdict it derives from the checks (verdict.ts), the statement and the
  self-seal it signs, and the provenance a signet derives from a statement (provenance.ts).
\<close>

section \<open>The rate limiter\<close>

record limiter_config =
  lc_maxRequests :: int
  lc_windowMs :: int

type_synonym limiter = "(string, int list) js_map"

fun findIndex :: "('a \<Rightarrow> bool) \<Rightarrow> 'a list \<Rightarrow> nat option" where
  "findIndex P [] = None"
| "findIndex P (x # xs) = (if P x then Some 0 else map_option Suc (findIndex P xs))"

definition evict :: "int \<Rightarrow> int list \<Rightarrow> int list" where
  "evict windowStart entries =
     (case findIndex (\<lambda>t. t \<ge> windowStart) entries of
        None \<Rightarrow> []
      | Some firstValid \<Rightarrow> if firstValid > 0 then drop firstValid entries else entries)"

definition limiter_check :: "limiter_config \<Rightarrow> string \<Rightarrow> int \<Rightarrow> limiter \<Rightarrow> bool \<times> limiter" where
  "limiter_check config requesterId now timestamps =
     (case map_get timestamps requesterId of
        None \<Rightarrow> (True, map_set requesterId [now] timestamps)
      | Some entries \<Rightarrow>
          (let kept = evict (now - lc_windowMs config) entries in
           if length kept = 0
           then (True, map_set requesterId [now] (map_delete requesterId timestamps))
           else if int (length kept) \<ge> lc_maxRequests config
           then (False, map_set requesterId kept timestamps)
           else (True, map_set requesterId (kept @ [now]) timestamps)))"

definition limiter_reset :: "limiter \<Rightarrow> limiter" where
  "limiter_reset timestamps = []"

section \<open>The verdict\<close>

datatype verification_verdict = Verified | Partial | Rejected

definition determineVerdict :: "check_verdict list \<Rightarrow> verification_verdict" where
  "determineVerdict verdicts =
     (if list_ex (\<lambda>v. v = VdFail) verdicts then Rejected
      else if list_ex (\<lambda>v. v = VdSkip) verdicts then Partial
      else Verified)"

fun tierRank :: "trust_tier \<Rightarrow> nat" where
  "tierRank TierUnverified = 0"
| "tierRank TierSourceVerified = 1"
| "tierRank TierReproducible = 2"
| "tierRank TierRuntimeAttested = 3"

definition determineVerifiedTier :: "verification_verdict \<Rightarrow> trust_tier \<Rightarrow> trust_tier" where
  "determineVerifiedTier verdict requestedTier =
     (if verdict = Rejected then TierUnverified
      else
        (let effectiveRank = min (tierRank requestedTier) (tierRank TierSourceVerified) in
         if verdict = Verified \<and> effectiveRank \<ge> tierRank TierSourceVerified
         then TierSourceVerified
         else TierUnverified))"

section \<open>Statements\<close>

record verification_statement =
  vs_statementId :: string
  vs_requestId :: string
  vs_verifierInboxId :: string
  vs_signetInboxId :: string
  vs_agentInboxId :: string
  vs_verdict :: verification_verdict
  vs_verifiedTier :: trust_tier
  vs_checks :: "verification_check list"
  vs_challengeNonce :: string
  vs_issuedAt :: int
  vs_expiresAt :: int
  vs_signature :: string

fun check_verdict_name :: "check_verdict \<Rightarrow> string" where
  "check_verdict_name VdPass = ''pass''"
| "check_verdict_name VdFail = ''fail''"
| "check_verdict_name VdSkip = ''skip''"

fun verdict_name :: "verification_verdict \<Rightarrow> string" where
  "verdict_name Verified = ''verified''"
| "verdict_name Partial = ''partial''"
| "verdict_name Rejected = ''rejected''"

definition check_json :: "verification_check \<Rightarrow> json" where
  "check_json c =
     JObj [(''checkId'', JStr (vc_checkId c)), (''verdict'', JStr (check_verdict_name (vc_verdict c))),
           (''reason'', JStr (vc_reason c)), (''evidence'', or_null (vc_evidence c))]"

text \<open>The fields that are signed: all but the signature itself and its algorithm.\<close>

definition statement_fields :: "verification_statement \<Rightarrow> (string \<times> json) list" where
  "statement_fields s =
     [(''statementId'', JStr (vs_statementId s)), (''requestId'', JStr (vs_requestId s)),
      (''verifierInboxId'', JStr (vs_verifierInboxId s)),
      (''signetInboxId'', JStr (vs_signetInboxId s)), (''agentInboxId'', JStr (vs_agentInboxId s)),
      (''verdict'', JStr (verdict_name (vs_verdict s))),
      (''verifiedTier'', JStr (trust_tier_name (vs_verifiedTier s))),
      (''checks'', JArr (map check_json (vs_checks s))),
      (''challengeNonce'', JStr (vs_challengeNonce s)),
      (''issuedAt'', JStr (iso_string (vs_issuedAt s))),
      (''expiresAt'', JStr (iso_string (vs_expiresAt s)))]"

definition canonicalizeStatement :: "verification_statement \<Rightarrow> 8 word list" where
  "canonicalizeStatement s = verifier_canonicalize (JObj (statement_fields s))"

text \<open>\<open>sign\<close> returns the base64 text or throws; the text of what it throws is \<open>Inl\<close>.\<close>

definition buildAndSignStatement ::
  "(8 word list \<Rightarrow> string + string) \<Rightarrow> verification_statement \<Rightarrow> verification_statement result" where
  "buildAndSignStatement sign s =
     (case sign (canonicalizeStatement s) of
        Inl message \<Rightarrow> Inl (InternalError (''Failed to sign statement: '' @ message) None)
      | Inr signature \<Rightarrow> Inr (s\<lparr>vs_signature := signature\<rparr>))"

section \<open>The service\<close>

record verifier_config =
  vf_verifierInboxId :: string
  vf_sourceRepoUrl :: string
  vf_statementTtlSeconds :: int
  vf_maxRequestsPerRequesterPerHour :: int

type_synonym check_handler = "verification_request \<Rightarrow> check_run"

record verifier_service =
  sv_verifier_config :: verifier_config
  sv_sign :: "8 word list \<Rightarrow> string + string"
  sv_checks :: "check_handler list"

text \<open>The default handlers, over what they ask of the outside world.\<close>

record 'k check_world =
  cw_crypto :: "'k crypto_host"
  cw_json :: json_host
  cw_p256 :: "8 word list \<Rightarrow> 8 word list \<Rightarrow> 8 word list \<Rightarrow> bool option"
  cw_build :: build_config
  cw_fetch :: "string \<Rightarrow> unit fetch_outcome"
  cw_clock :: "int \<times> int"
  cw_url :: url_parser
  cw_github :: "string \<Rightarrow> string \<Rightarrow> string \<Rightarrow> github_release fetch_outcome"
  cw_is_datetime :: "string \<Rightarrow> bool"
  cw_issues :: "seal_payload \<Rightarrow> (string \<times> string) list"

definition default_checks :: "'k check_world \<Rightarrow> check_handler list" where
  "default_checks w =
     [\<lambda>q. Some (Returned (source_available_check (cw_fetch w) (fst (cw_clock w)) (snd (cw_clock w)) q)),
      build_provenance_check (cw_json w) (cw_p256 w) (cw_build w),
      \<lambda>q. Some (Returned (release_signing_check (cw_url w) (cw_github w) q)),
      \<lambda>q. Some (Returned (seal_signature_check (cw_crypto w) q)),
      \<lambda>q. Some (Returned (seal_chain_check q)),
      \<lambda>q. Some (Returned (schema_compliance_check (cw_is_datetime w) (cw_issues w) q))]"

text \<open>
  \<open>Promise.all\<close>: the handlers run up to their first wait one after the other, so one that never
  returns blocks them all; if one throws, the request throws.
\<close>

fun run_checks ::
  "check_handler list \<Rightarrow> verification_request \<Rightarrow> verification_check result list completion option" where
  "run_checks [] q = Some (Returned [])"
| "run_checks (h # hs) q =
     (case h q of
        None \<Rightarrow> None
      | Some r \<Rightarrow>
          (case run_checks hs q of
             None \<Rightarrow> None
           | Some rs \<Rightarrow>
               Some (case r of
                       Threw e \<Rightarrow> Threw e
                     | Returned c \<Rightarrow>
                         (case rs of Threw e \<Rightarrow> Threw e | Returned cs \<Rightarrow> Returned (c # cs)))))"

fun collect_results :: "verification_check result list \<Rightarrow> verification_check list result" where
  "collect_results [] = Inr []"
| "collect_results (Inl e # rs) = Inl e"
| "collect_results (Inr c # rs) =
     (case collect_results rs of Inl e \<Rightarrow> Inl e | Inr cs \<Rightarrow> Inr (c # cs))"

definition statement_for ::
  "verifier_config \<Rightarrow> verification_request \<Rightarrow> string \<Rightarrow> int \<Rightarrow> verification_verdict \<Rightarrow> trust_tier \<Rightarrow>
   verification_check list \<Rightarrow> verification_statement" where
  "statement_for config q statementId now verdict tier checks =
     \<lparr>vs_statementId = statementId, vs_requestId = vr_requestId q,
      vs_verifierInboxId = vf_verifierInboxId config, vs_signetInboxId = vr_signetInboxId q,
      vs_agentInboxId = vr_agentInboxId q, vs_verdict = verdict, vs_verifiedTier = tier,
      vs_checks = checks, vs_challengeNonce = vr_challengeNonce q, vs_issuedAt = now,
      vs_expiresAt = now + vf_statementTtlSeconds config * 1000, vs_signature = []\<rparr>"

definition rate_limit_check :: "verifier_config \<Rightarrow> string \<Rightarrow> verification_check" where
  "rate_limit_check config sender =
     \<lparr>vc_checkId = ''rate_limit_exceeded'', vc_verdict = VdFail,
      vc_reason = ''Rate limit exceeded: max '' @ show_int (vf_maxRequestsPerRequesterPerHour config)
        @ '' requests per hour'',
      vc_evidence = Some (JObj [(''senderInboxId'', JStr sender),
        (''limit'', JNum (vf_maxRequestsPerRequesterPerHour config))])\<rparr>"

definition limiter_of :: "verifier_config \<Rightarrow> limiter_config" where
  "limiter_of config =
     \<lparr>lc_maxRequests = vf_maxRequestsPerRequesterPerHour config, lc_windowMs = 3600000\<rparr>"

text \<open>
  \<open>toISOString\<close> of an expiry beyond the range of dates throws. \<open>now\<close> is the clock at the rate
  limit check, \<open>later\<close> when the statement is built.
\<close>

definition signed_statement ::
  "verifier_service \<Rightarrow> verification_statement \<Rightarrow> verification_statement result completion" where
  "signed_statement sv s =
     (if abs (vs_issuedAt s) \<le> max_date_ms \<and> abs (vs_expiresAt s) \<le> max_date_ms
      then Returned (buildAndSignStatement (sv_sign sv) s)
      else Threw RangeError)"

definition handleRequest ::
  "verifier_service \<Rightarrow> verification_request \<Rightarrow> string \<Rightarrow> string \<Rightarrow> int \<Rightarrow> int \<Rightarrow> limiter \<Rightarrow>
   verification_statement result completion option \<times> limiter" where
  "handleRequest sv q sender statementId now later timestamps =
     (let config = sv_verifier_config sv;
          (allowed, timestamps') = limiter_check (limiter_of config) sender now timestamps in
      if \<not> allowed
      then (Some (signed_statement sv
             (statement_for config q statementId later Rejected TierUnverified
               [rate_limit_check config sender])), timestamps')
      else
        ((case run_checks (sv_checks sv) q of
            None \<Rightarrow> None
          | Some (Threw e) \<Rightarrow> Some (Threw e)
          | Some (Returned results) \<Rightarrow>
              (case collect_results results of
                 Inl e \<Rightarrow> Some (Returned (Inl e))
               | Inr completed \<Rightarrow>
                   (let verdict = determineVerdict (map vc_verdict completed) in
                    Some (signed_statement sv
                      (statement_for config q statementId later verdict
                        (determineVerifiedTier verdict (vr_requestedTier q)) completed))))),
         timestamps'))"

section \<open>The self-seal\<close>

definition ALL_CHECK_IDS :: "string list" where
  "ALL_CHECK_IDS = [''source_available'', ''build_provenance'', ''release_signing'',
     ''seal_signature'', ''seal_chain'', ''schema_compliance'']"

definition SUPPORTED_VERIFIER_TIERS :: "trust_tier list" where
  "SUPPORTED_VERIFIER_TIERS = [TierSourceVerified]"

record self_seal =
  ss_verifierInboxId :: string
  ss_supportedTiers :: "trust_tier list"
  ss_supportedChecks :: "string list"
  ss_maxRequestsPerHour :: int
  ss_sourceRepoUrl :: string
  ss_issuedAt :: int
  ss_signature :: string

definition self_seal_json :: "self_seal \<Rightarrow> json" where
  "self_seal_json s =
     JObj [(''verifierInboxId'', JStr (ss_verifierInboxId s)),
       (''capabilities'', JObj [
          (''supportedTiers'', JArr (map (\<lambda>t. JStr (trust_tier_name t)) (ss_supportedTiers s))),
          (''supportedChecks'', JArr (map JStr (ss_supportedChecks s))),
          (''maxRequestsPerHour'', JNum (ss_maxRequestsPerHour s))]),
       (''sourceRepoUrl'', JStr (ss_sourceRepoUrl s)),
       (''issuedAt'', JStr (iso_string (ss_issuedAt s)))]"

definition buildAndSignSelfSeal ::
  "(8 word list \<Rightarrow> string + string) \<Rightarrow> self_seal \<Rightarrow> self_seal result" where
  "buildAndSignSelfSeal sign s =
     (case sign (verifier_canonicalize (self_seal_json s)) of
        Inl message \<Rightarrow> Inl (InternalError (''Failed to sign self-seal: '' @ message) None)
      | Inr signature \<Rightarrow> Inr (s\<lparr>ss_signature := signature\<rparr>))"

text \<open>The cached promise, as its answer: a failed one is forgotten.\<close>

definition selfSeal ::
  "verifier_service \<Rightarrow> int \<Rightarrow> self_seal option \<Rightarrow> self_seal result \<times> self_seal option" where
  "selfSeal sv now cached =
     (case cached of
        Some s \<Rightarrow> (Inr s, cached)
      | None \<Rightarrow>
          (let config = sv_verifier_config sv;
               r = buildAndSignSelfSeal (sv_sign sv)
                 \<lparr>ss_verifierInboxId = vf_verifierInboxId config,
                  ss_supportedTiers = SUPPORTED_VERIFIER_TIERS, ss_supportedChecks = ALL_CHECK_IDS,
                  ss_maxRequestsPerHour = vf_maxRequestsPerRequesterPerHour config,
                  ss_sourceRepoUrl = vf_sourceRepoUrl config, ss_issuedAt = now, ss_signature = []\<rparr>
           in (r, case r of Inl _ \<Rightarrow> None | Inr s \<Rightarrow> Some s)))"

section \<open>Provenance\<close>

definition CHECK_TO_PROVENANCE_FIELDS :: "(string \<times> string list) list" where
  "CHECK_TO_PROVENANCE_FIELDS = []"

definition deriveProvenanceMap :: "verification_statement \<Rightarrow> provenance_map" where
  "deriveProvenanceMap s =
     (let verified = \<lparr>pv_source = PvVerified, pv_attestedBy = Some (vs_verifierInboxId s),
                      pv_attestedAt = Some (iso_string (vs_issuedAt s)),
                      pv_expiresAt = Some (iso_string (vs_expiresAt s))\<rparr>;
          from_checks = foldl (\<lambda>m c.
             if vc_verdict c \<noteq> VdPass then m
             else (case map_of CHECK_TO_PROVENANCE_FIELDS (vc_checkId c) of
                     None \<Rightarrow> m
                   | Some fs \<Rightarrow> foldl (\<lambda>m f. map_set f verified m) m fs)) [] (vs_checks s)
      in if vs_verifiedTier s \<noteq> TierUnverified then map_set ''trustTier'' verified from_checks
         else from_checks)"

end
