(* ===== verification/VerifierSafety.thy ===== *)
theory VerifierSafety
  imports Verifier
begin

text \<open>
  What the verifier guarantees: the bound of its rate limiter, exactness of the seal checks,
  that seals the signet issues pass them and altered ones do not, and that no request is ever
  granted a tier while build provenance is only partly implemented.
\<close>

section \<open>The rate limiter\<close>

lemma findIndex_drop:
  "sorted xs \<Longrightarrow> evict w xs = filter (\<lambda>t. t \<ge> w) xs"
proof -
  have "(case findIndex (\<lambda>t. t \<ge> w) xs of None \<Rightarrow> [] | Some n \<Rightarrow> drop n xs) = filter (\<lambda>t. t \<ge> w) xs"
    if "sorted xs" for xs :: "int list"
    using that
  proof (induction xs)
    case (Cons x xs)
    show ?case
    proof (cases "x \<ge> w")
      case True
      with Cons.prems have "filter (\<lambda>t. t \<ge> w) xs = xs" by (intro filter_True) auto
      with True show ?thesis by simp
    next
      case False
      with Cons show ?thesis by (auto split: option.splits)
    qed
  qed simp
  moreover have "evict w xs = (case findIndex (\<lambda>t. t \<ge> w) xs of None \<Rightarrow> [] | Some n \<Rightarrow> drop n xs)"
    by (simp add: evict_def split: option.split)
  moreover assume "sorted xs"
  ultimately show ?thesis by simp
qed

text \<open>The calls so far: the accepted instants of every requester and the latest reading of the
  clock, which does not go back.\<close>

inductive limiter_history :: "limiter_config \<Rightarrow> (string \<Rightarrow> int list) \<Rightarrow> limiter \<Rightarrow> int \<Rightarrow> bool" for c where
  lh_start: "limiter_history c (\<lambda>_. []) [] t"
| lh_check: "limiter_history c A ts latest \<Longrightarrow> latest \<le> now \<Longrightarrow> limiter_check c r now ts = (ok, ts') \<Longrightarrow>
    limiter_history c (if ok then A(r := A r @ [now]) else A) ts' now"

abbreviation in_window :: "limiter_config \<Rightarrow> int \<Rightarrow> int list \<Rightarrow> int list" where
  "in_window c t xs \<equiv> filter (\<lambda>a. t - lc_windowMs c \<le> a \<and> a \<le> t) xs"

definition limiter_ok :: "limiter_config \<Rightarrow> (string \<Rightarrow> int list) \<Rightarrow> limiter \<Rightarrow> int \<Rightarrow> bool" where
  "limiter_ok c A ts latest \<longleftrightarrow>
     (\<forall>r. sorted (A r) \<and> (\<forall>a \<in> set (A r). a \<le> latest)
        \<and> (\<exists>w \<le> latest - lc_windowMs c. filter (\<lambda>a. a \<ge> w) (A r)
             = (case map_get ts r of None \<Rightarrow> [] | Some es \<Rightarrow> es))
        \<and> (\<forall>t. int (length (in_window c t (A r))) \<le> max 1 (lc_maxRequests c)))"

lemma kept_window:
  assumes "limiter_ok c A ts latest" and "latest \<le> now"
  shows "evict (now - lc_windowMs c) (case map_get ts r of None \<Rightarrow> [] | Some es \<Rightarrow> es)
    = filter (\<lambda>a. a \<ge> now - lc_windowMs c) (A r)"
proof -
  obtain w where w: "w \<le> latest - lc_windowMs c"
    "filter (\<lambda>a. a \<ge> w) (A r) = (case map_get ts r of None \<Rightarrow> [] | Some es \<Rightarrow> es)"
    using assms(1) unfolding limiter_ok_def by blast
  have "sorted (filter (\<lambda>a. a \<ge> w) (A r))"
    using assms(1) unfolding limiter_ok_def by (simp add: sorted_wrt_filter)
  then have "evict (now - lc_windowMs c) (filter (\<lambda>a. a \<ge> w) (A r))
      = filter (\<lambda>a. a \<ge> now - lc_windowMs c) (filter (\<lambda>a. a \<ge> w) (A r))"
    by (rule findIndex_drop)
  also have "\<dots> = filter (\<lambda>a. a \<ge> now - lc_windowMs c) (A r)"
    using w(1) assms(2) by (auto simp: filter_filter intro: filter_cong)
  finally show ?thesis by (simp only: w(2))
qed

lemma evict_Nil [simp]: "evict w [] = []"
  by (simp add: evict_def)

lemma limiter_check_cases:
  "limiter_check c r now ts =
     (let kept = evict (now - lc_windowMs c) (case map_get ts r of None \<Rightarrow> [] | Some es \<Rightarrow> es);
          ok = (kept = [] \<or> int (length kept) < lc_maxRequests c)
      in (ok, snd (limiter_check c r now ts)))"
  "map_get (snd (limiter_check c r now ts)) =
     (let kept = evict (now - lc_windowMs c) (case map_get ts r of None \<Rightarrow> [] | Some es \<Rightarrow> es);
          ok = (kept = [] \<or> int (length kept) < lc_maxRequests c)
      in (map_get ts)(r \<mapsto> (if ok then kept @ [now] else kept)))"
  by (auto simp: limiter_check_def Let_def split: option.split)

lemma limiter_step_ok:
  assumes "limiter_ok c A ts latest" and "latest \<le> now" and "0 \<le> lc_windowMs c"
    and "limiter_check c r now ts = (ok, ts')"
  shows "limiter_ok c (if ok then A(r := A r @ [now]) else A) ts' now"
proof -
  let ?kept = "filter (\<lambda>a. a \<ge> now - lc_windowMs c) (A r)"
  note kept = kept_window [OF assms(1,2), of r]
  have ok: "ok \<longleftrightarrow> ?kept = [] \<or> int (length ?kept) < lc_maxRequests c"
    using limiter_check_cases(1) [of c r now ts] assms(4) by (simp add: kept Let_def)
  have get: "map_get ts' = (map_get ts)(r \<mapsto> (if ok then ?kept @ [now] else ?kept))"
    using limiter_check_cases(2) [of c r now ts] assms(4) unfolding ok by (simp add: kept Let_def)
  have past: "a \<le> now" if "a \<in> set (A r')" for a r'
    using that assms(1,2) unfolding limiter_ok_def by fastforce
  have srt: "sorted (A r')" for r' using assms(1) unfolding limiter_ok_def by blast
  have cut: "\<exists>w \<le> now - lc_windowMs c. filter (\<lambda>a. a \<ge> w) (A r')
      = (case map_get ts r' of None \<Rightarrow> [] | Some es \<Rightarrow> es)" for r'
    using assms(1,2) unfolding limiter_ok_def by (meson diff_right_mono order_trans)
  have bound: "int (length (in_window c t (A r'))) \<le> max 1 (lc_maxRequests c)" for t r'
    using assms(1) unfolding limiter_ok_def by blast
  show ?thesis
    unfolding limiter_ok_def
  proof (intro allI conjI)
    fix r' t
    let ?A = "if ok then A(r := A r @ [now]) else A"
    show "sorted (?A r')" using srt past by (auto simp: sorted_append)
    show "\<forall>a \<in> set (?A r'). a \<le> now" using past by auto
    show "\<exists>w \<le> now - lc_windowMs c. filter (\<lambda>a. a \<ge> w) (?A r')
        = (case map_get ts' r' of None \<Rightarrow> [] | Some es \<Rightarrow> es)"
    proof (cases "r' = r")
      case True
      with assms(3) show ?thesis by (intro exI [of _ "now - lc_windowMs c"]) (auto simp: get)
    next
      case False
      with cut [of r'] show ?thesis by (auto simp: get)
    qed
    show "int (length (in_window c t (?A r'))) \<le> max 1 (lc_maxRequests c)"
    proof (cases "ok \<and> r' = r \<and> now \<le> t")
      case True
      then have "in_window c t (A r) = in_window c t ?kept"
        by (auto simp: filter_filter intro: filter_cong)
      then have "length (in_window c t (A r)) \<le> length ?kept"
        by (metis length_filter_le)
      with True ok show ?thesis using assms(3) by auto
    next
      case False
      then have "in_window c t (?A r') = in_window c t (A r')" by auto
      with bound show ?thesis by simp
    qed
  qed
qed

lemma limiter_history_ok:
  "limiter_history c A ts latest \<Longrightarrow> 0 \<le> lc_windowMs c \<Longrightarrow> limiter_ok c A ts latest"
proof (induction rule: limiter_history.induct)
  case (lh_start t)
  then show ?case by (auto simp: limiter_ok_def intro!: exI [of _ "t - lc_windowMs c"])
next
  case (lh_check A ts latest now r ok ts')
  then show ?case using limiter_step_ok by blast
qed

section \<open>Checks\<close>

lemma answer_eq_Inr:
  "answer i v r e = Inr c \<longleftrightarrow> c = \<lparr>vc_checkId = i, vc_verdict = v, vc_reason = r, vc_evidence = e\<rparr>"
  by (auto simp: answer_def)

lemma check_dsse_never_passes:
  "check_dsse p256 b subject = Some (Inr c) \<Longrightarrow> vc_verdict c \<noteq> VdPass"
  by (auto simp: check_dsse_def answer_eq_Inr Let_def split: option.splits sum.splits)

lemma build_provenance_never_passes:
  "build_provenance_check host p256 config q = Some (Returned (Inr c)) \<Longrightarrow> vc_verdict c \<noteq> VdPass"
  by (auto simp: build_provenance_check_def answer_eq_Inr Let_def dest: check_dsse_never_passes
      split: option.splits sum.splits completion.splits if_splits bool.splits)

lemma run_checks_member:
  assumes "run_checks hs q = Some (Returned rs)" and "collect_results rs = Inr cs" and "h \<in> set hs"
  shows "\<exists>c \<in> set cs. h q = Some (Returned (Inr c))"
  using assms
proof (induction hs arbitrary: rs cs)
  case (Cons g hs)
  from Cons.prems(1) obtain r rs' where r: "g q = Some (Returned r)" "rs = r # rs'"
    "run_checks hs q = Some (Returned rs')"
    by (auto split: option.splits completion.splits)
  with Cons.prems(2) obtain c cs' where c: "r = Inr c" "cs = c # cs'" "collect_results rs' = Inr cs'"
    by (cases r) (auto split: sum.splits)
  show ?case
  proof (cases "h = g")
    case True
    with r c show ?thesis by auto
  next
    case False
    with Cons.prems(3) have "h \<in> set hs" by simp
    from Cons.IH [OF r(3) c(3) this] c(2) show ?thesis by auto
  qed
qed simp

lemma determineVerdict_cases:
  "determineVerdict vs = Verified \<longleftrightarrow> (\<forall>v \<in> set vs. v = VdPass)"
  "determineVerdict vs = Rejected \<longleftrightarrow> VdFail \<in> set vs"
  by (auto simp: determineVerdict_def list_ex_iff) (metis check_verdict.exhaust)

lemma tier_needs_verified:
  "determineVerifiedTier v t \<noteq> TierUnverified \<longleftrightarrow> v = Verified \<and> t \<noteq> TierUnverified"
  by (cases t; cases v) (simp_all add: determineVerifiedTier_def)

lemma deriveProvenanceMap_eq:
  "deriveProvenanceMap s =
    (if vs_verifiedTier s = TierUnverified then []
     else [(''trustTier'', \<lparr>pv_source = PvVerified, pv_attestedBy = Some (vs_verifierInboxId s),
            pv_attestedAt = Some (iso_string (vs_issuedAt s)),
            pv_expiresAt = Some (iso_string (vs_expiresAt s))\<rparr>)])"
proof -
  have "foldl (\<lambda>m c. m) m cs = m" for m :: provenance_map and cs :: "verification_check list"
    by (induction cs) simp_all
  then show ?thesis
    unfolding deriveProvenanceMap_def CHECK_TO_PROVENANCE_FIELDS_def map_of.simps option.case if_cancel
    by (simp add: map_set_def)
qed

lemma handleRequest_statement:
  assumes "handleRequest sv q sender i now later ts = (Some (Returned (Inr s)), ts')"
  shows "vs_requestId s = vr_requestId q \<and> vs_challengeNonce s = vr_challengeNonce q
    \<and> vs_agentInboxId s = vr_agentInboxId q \<and> vs_signetInboxId s = vr_signetInboxId q
    \<and> vs_verifierInboxId s = vf_verifierInboxId (sv_verifier_config sv)
    \<and> vs_expiresAt s = vs_issuedAt s + vf_statementTtlSeconds (sv_verifier_config sv) * 1000
    \<and> sv_sign sv (canonicalizeStatement (s\<lparr>vs_signature := []\<rparr>)) = Inr (vs_signature s)
    \<and> ((vs_verdict s = Rejected \<and> vs_verifiedTier s = TierUnverified
          \<and> vs_checks s = [rate_limit_check (sv_verifier_config sv) sender])
       \<or> (\<exists>rs. run_checks (sv_checks sv) q = Some (Returned rs) \<and> collect_results rs = Inr (vs_checks s)
          \<and> vs_verdict s = determineVerdict (map vc_verdict (vs_checks s))
          \<and> vs_verifiedTier s = determineVerifiedTier (vs_verdict s) (vr_requestedTier q)))"
  using assms
  by (auto simp: handleRequest_def Let_def signed_statement_def buildAndSignStatement_def
      statement_for_def split: prod.splits if_splits option.splits completion.splits sum.splits)

section \<open>The seal checks\<close>

abbreviation passes :: "verification_check result \<Rightarrow> bool" where
  "passes r \<equiv> (\<exists>c. r = Inr c \<and> vc_verdict c = VdPass)"

abbreviation fails :: "verification_check result \<Rightarrow> bool" where
  "fails r \<equiv> (\<exists>c. r = Inr c \<and> vc_verdict c = VdFail)"

lemma passes_answer [simp]: "passes (answer i v r e) \<longleftrightarrow> v = VdPass"
  by (simp add: answer_def)

lemma fails_answer [simp]: "fails (answer i v r e) \<longleftrightarrow> v = VdFail"
  by (simp add: answer_def)

lemma payload_bytes_id:
  "canonicalize (payload_json p) = canonicalize (payload_json q) \<Longrightarrow> sp_sealId p = sp_sealId q"
  using canonical_fields [of "payload_fields p" "payload_fields q" "''sealId''"]
  by (simp add: payload_json_def payload_lookup)

definition signature_accepted ::
  "'k crypto_host \<Rightarrow> seal_payload \<Rightarrow> seal_envelope \<Rightarrow> string \<Rightarrow> bool" where
  "signature_accepted host seal envelope publicKey \<longleftrightarrow>
     seal_structure_failures host seal = []
     \<and> canonicalize (payload_json seal) = canonicalize (payload_json (head_payload envelope))
     \<and> (\<exists>key. ch_import host (hexToBytes publicKey) = Inr key
          \<and> ch_verify host key (ch_base64 host (se_signature envelope))
              (canonicalize (payload_json seal)) = Inr True)"

lemma signature_check_some:
  assumes "vr_seal q = Some seal" and "vr_sealEnvelope q = Some e" and "vr_sealPublicKey q = Some pk"
  shows "passes (seal_signature_check host q) \<longleftrightarrow> signature_accepted host seal e pk"
proof (cases "seal_structure_failures host seal = []
    \<and> canonicalize (payload_json seal) = canonicalize (payload_json (head_payload e))")
  case True
  then have "sp_sealId (head_payload e) = sp_sealId seal" by (metis payload_bytes_id)
  with True assms show ?thesis
    by (auto simp: seal_signature_check_def signature_accepted_def importEd25519PublicKey_def
        verifyEd25519Signature_def Let_def answer_def split: sum.splits)
next
  case False
  with assms show ?thesis
    by (auto simp: seal_signature_check_def signature_accepted_def Let_def answer_def)
qed

lemma signature_check_skip:
  assumes "vr_seal q = None \<or> vr_sealEnvelope q = None \<or> vr_sealPublicKey q = None"
  shows "\<not> passes (seal_signature_check host q)"
  using assms
  by (auto simp: seal_signature_check_def Let_def answer_def split: option.splits)

definition chain_accepted :: "seal_payload \<Rightarrow> seal_envelope \<Rightarrow> bool" where
  "chain_accepted seal envelope \<longleftrightarrow>
     sp_sealId seal \<noteq> [] \<and> sp_chatId seal \<noteq> [] \<and> sp_operatorId seal \<noteq> []
     \<and> sp_credentialId seal \<noteq> []
     \<and> canonicalize (payload_json seal) = canonicalize (payload_json (head_payload envelope))
     \<and> validateSealChain (se_chain envelope) = Inr ()
     \<and> verifyChainDelta (se_chain envelope) = Inr ()"

lemma chain_check_some:
  assumes "vr_seal q = Some seal" and "vr_sealEnvelope q = Some e"
  shows "passes (seal_chain_check q) \<longleftrightarrow> chain_accepted seal e"
proof (cases "canonicalize (payload_json seal) = canonicalize (payload_json (head_payload e))")
  case True
  then have "sp_sealId (head_payload e) = sp_sealId seal" by (metis payload_bytes_id)
  with True assms show ?thesis
    by (auto simp: seal_chain_check_def chain_accepted_def missing_fields_def Let_def answer_def
        split: sum.splits)
next
  case False
  with assms show ?thesis
    by (auto simp: seal_chain_check_def chain_accepted_def missing_fields_def Let_def answer_def)
qed

section \<open>Properties\<close>

text \<open>
  C33. The rate limiter bounds every window: however requesters take turns, as long as the
  clock does not go back no requester has more than \<open>maxRequests\<close> accepted calls in any
  interval of the length of the window, and a call is accepted exactly when the window that
  ends with it holds fewer accepted calls of the requester, or none.
\<close>

theorem rate_limit_bounds_every_window:
  assumes "limiter_history c A ts latest" and "0 \<le> lc_windowMs c" and "latest \<le> now"
  shows "int (length (in_window c t (A r))) \<le> max 1 (lc_maxRequests c)
    \<and> (fst (limiter_check c r now ts) \<longleftrightarrow>
         in_window c now (A r) = [] \<or> int (length (in_window c now (A r))) < lc_maxRequests c)"
proof -
  note ok = limiter_history_ok [OF assms(1,2)]
  have "int (length (in_window c t (A r))) \<le> max 1 (lc_maxRequests c)"
    using ok unfolding limiter_ok_def by blast
  moreover have "filter (\<lambda>a. a \<ge> now - lc_windowMs c) (A r) = in_window c now (A r)"
    using ok assms(3) unfolding limiter_ok_def by (intro filter_cong refl) fastforce
  moreover have "fst (limiter_check c r now ts) \<longleftrightarrow>
      (let kept = evict (now - lc_windowMs c) (case map_get ts r of None \<Rightarrow> [] | Some es \<Rightarrow> es)
       in kept = [] \<or> int (length kept) < lc_maxRequests c)"
    by (subst limiter_check_cases(1)) (simp add: Let_def)
  ultimately show ?thesis by (simp add: kept_window [OF ok assms(3), of r] Let_def)
qed

definition demo_limit :: limiter_config where
  "demo_limit = \<lparr>lc_maxRequests = 2, lc_windowMs = 10\<rparr>"

theorem rate_limit_bounds_every_window_witness:
  "\<not> fst (limiter_check demo_limit ''a'' 11
      (snd (limiter_check demo_limit ''a'' 5 (snd (limiter_check demo_limit ''a'' 1 [])))))"
proof -
  let ?t1 = "snd (limiter_check demo_limit ''a'' 1 [])"
  let ?t2 = "snd (limiter_check demo_limit ''a'' 5 ?t1)"
  have c1: "limiter_check demo_limit ''a'' 1 [] = (True, ?t1)" by code_simp
  have c2: "limiter_check demo_limit ''a'' 5 ?t1 = (True, ?t2)" by code_simp
  have "limiter_history demo_limit ((\<lambda>_. [])(''a'' := [1])) ?t1 1"
    using lh_check [OF lh_start, of 0 1 demo_limit "''a''", OF _ c1] by simp
  from lh_check [OF this, of 5 "''a''", OF _ c2]
  have h: "limiter_history demo_limit ((\<lambda>_. [])(''a'' := [1, 5])) ?t2 5" by simp
  show ?thesis
    using rate_limit_bounds_every_window [OF h, of 11 11 "''a''"] by (simp add: demo_limit_def)
qed

text \<open>
  C8. The verifier grants nothing yet: with its own checks every statement it signs is partial
  or rejected and certifies the tier \<open>unverified\<close>, because build provenance never passes, and
  a signet derives no provenance from it. The statement echoes the request, nonce included,
  its signature is over all its fields, and it is rejected exactly when a check failed.
\<close>

theorem verifier_never_grants:
  assumes "sv_checks sv = default_checks w"
    and "handleRequest sv q sender i now later ts = (Some (Returned (Inr s)), ts')"
  shows "vs_verdict s \<noteq> Verified \<and> vs_verifiedTier s = TierUnverified
    \<and> deriveProvenanceMap s = []
    \<and> vs_requestId s = vr_requestId q \<and> vs_challengeNonce s = vr_challengeNonce q
    \<and> sv_sign sv (canonicalizeStatement (s\<lparr>vs_signature := []\<rparr>)) = Inr (vs_signature s)
    \<and> (vs_verdict s = Rejected \<longleftrightarrow> VdFail \<in> vc_verdict ` set (vs_checks s))"
proof -
  note st = handleRequest_statement [OF assms(2)]
  have not_all: "determineVerdict (map vc_verdict cs) \<noteq> Verified"
    if "run_checks (sv_checks sv) q = Some (Returned rs)" "collect_results rs = Inr cs" for rs cs
  proof -
    have "build_provenance_check (cw_json w) (cw_p256 w) (cw_build w) \<in> set (sv_checks sv)"
      by (simp add: assms(1) default_checks_def)
    from run_checks_member [OF that this] obtain c where "c \<in> set cs" "vc_verdict c \<noteq> VdPass"
      by (auto dest: build_provenance_never_passes)
    then show ?thesis by (auto simp: determineVerdict_cases(1))
  qed
  from st consider
      "vs_verdict s = Rejected" "vs_verifiedTier s = TierUnverified"
      "vs_checks s = [rate_limit_check (sv_verifier_config sv) sender]"
    | rs where "run_checks (sv_checks sv) q = Some (Returned rs)"
      "collect_results rs = Inr (vs_checks s)"
      "vs_verdict s = determineVerdict (map vc_verdict (vs_checks s))"
      "vs_verifiedTier s = determineVerifiedTier (vs_verdict s) (vr_requestedTier q)"
    by blast
  then have "vs_verdict s \<noteq> Verified \<and> vs_verifiedTier s = TierUnverified
      \<and> (vs_verdict s = Rejected \<longleftrightarrow> VdFail \<in> vc_verdict ` set (vs_checks s))"
  proof cases
    case 2
    then have "vs_verdict s \<noteq> Verified" using not_all by simp
    moreover from this 2(4) have "vs_verifiedTier s = TierUnverified"
      using tier_needs_verified by metis
    ultimately show ?thesis using 2(3) by (simp add: determineVerdict_cases(2))
  qed (simp add: rate_limit_check_def)
  with st show ?thesis by (simp add: deriveProvenanceMap_eq)
qed

definition demo_check_world :: "unit check_world" where
  "demo_check_world =
     \<lparr>cw_crypto = \<lparr>ch_date = (\<lambda>_. None), ch_base64 = to_bytes, ch_import = (\<lambda>_. Inr ()),
                  ch_verify = (\<lambda>_ _ _. Inr True)\<rparr>,
      cw_json = \<lparr>jh_parse = (\<lambda>_. None), jh_first_issue = (\<lambda>_. [])\<rparr>, cw_p256 = (\<lambda>_ _ _. None),
      cw_build = \<lparr>bc_expectedOidcIssuer = None, bc_expectedIdentityPattern = None\<rparr>,
      cw_fetch = (\<lambda>_. HttpResponse 200 ()), cw_clock = (0, 5), cw_url = (\<lambda>_. None),
      cw_github = (\<lambda>_ _ _. FetchThrew []), cw_is_datetime = (\<lambda>_. True), cw_issues = (\<lambda>_. [])\<rparr>"

definition demo_verifier :: verifier_service where
  "demo_verifier =
     \<lparr>sv_verifier_config = \<lparr>vf_verifierInboxId = ''v'', vf_sourceRepoUrl = ''https://x'',
        vf_statementTtlSeconds = 60, vf_maxRequestsPerRequesterPerHour = 10\<rparr>,
      sv_sign = (\<lambda>bs. Inr ''sig''), sv_checks = default_checks demo_check_world\<rparr>"

definition demo_request :: verification_request where
  "demo_request =
     \<lparr>vr_requestId = ''r1'', vr_agentInboxId = ''a'', vr_signetInboxId = ''s'', vr_groupId = None,
      vr_seal = None, vr_sealEnvelope = None, vr_sealPublicKey = None, vr_artifactDigest = ''ab'',
      vr_buildProvenanceBundle = None, vr_sourceRepoUrl = ''https://x'', vr_releaseTag = None,
      vr_requestedTier = TierSourceVerified, vr_challengeNonce = ''n''\<rparr>"

theorem verifier_never_grants_witness:
  "\<exists>s ts. handleRequest demo_verifier demo_request ''x'' ''st'' 0 1 [] = (Some (Returned (Inr s)), ts)
     \<and> vs_verdict s \<noteq> Verified"
proof -
  have "run_checks (sv_checks demo_verifier) demo_request \<noteq> None"
    and "\<exists>s ts. handleRequest demo_verifier demo_request ''x'' ''st'' 0 1 []
           = (Some (Returned (Inr s)), ts)"
    by (simp_all add: demo_verifier_def demo_request_def demo_check_world_def default_checks_def
        handleRequest_def limiter_check_def limiter_of_def source_available_check_def
        build_provenance_check_def release_signing_check_def seal_signature_check_def
        seal_chain_check_def schema_compliance_check_def answer_def Let_def response_ok_def
        statement_for_def signed_statement_def buildAndSignStatement_def max_date_ms_def)
  then obtain s ts where "handleRequest demo_verifier demo_request ''x'' ''st'' 0 1 []
      = (Some (Returned (Inr s)), ts)" by blast
  moreover from this have "vs_verdict s \<noteq> Verified"
    using verifier_never_grants [of demo_verifier demo_check_world] by (simp add: demo_verifier_def)
  ultimately show ?thesis by blast
qed

text \<open>
  The seal checks accept exactly what they should. The signature check passes exactly when
  the request carries seal, envelope and key, the structure is sound, the claimed payload has
  the bytes of the enveloped one and the key verifies the signature over those bytes; the chain
  check exactly when the ids are there, the bytes agree and chain and delta validate.
\<close>

theorem seal_checks_exact:
  "(passes (seal_signature_check host q) \<longleftrightarrow>
      (\<exists>seal e pk. vr_seal q = Some seal \<and> vr_sealEnvelope q = Some e \<and> vr_sealPublicKey q = Some pk
         \<and> signature_accepted host seal e pk))
   \<and> (passes (seal_chain_check q) \<longleftrightarrow>
        (\<exists>seal e. vr_seal q = Some seal \<and> vr_sealEnvelope q = Some e \<and> chain_accepted seal e))"
proof
  show "passes (seal_signature_check host q) \<longleftrightarrow>
      (\<exists>seal e pk. vr_seal q = Some seal \<and> vr_sealEnvelope q = Some e \<and> vr_sealPublicKey q = Some pk
         \<and> signature_accepted host seal e pk)"
  proof (cases "vr_seal q = None \<or> vr_sealEnvelope q = None \<or> vr_sealPublicKey q = None")
    case True
    with signature_check_skip [OF this, of host] show ?thesis by fastforce
  next
    case False
    then obtain seal e pk where
      some: "vr_seal q = Some seal" "vr_sealEnvelope q = Some e" "vr_sealPublicKey q = Some pk"
      by auto
    show ?thesis unfolding signature_check_some [OF some] by (simp add: some)
  qed
  show "passes (seal_chain_check q) \<longleftrightarrow>
      (\<exists>seal e. vr_seal q = Some seal \<and> vr_sealEnvelope q = Some e \<and> chain_accepted seal e)"
  proof (cases "vr_seal q = None \<or> vr_sealEnvelope q = None")
    case True
    then have "\<not> passes (seal_chain_check q)"
      by (auto simp: seal_chain_check_def Let_def answer_def split: option.splits)
    with True show ?thesis by fastforce
  next
    case False
    then obtain seal e where some: "vr_seal q = Some seal" "vr_sealEnvelope q = Some e" by auto
    show ?thesis unfolding chain_check_some [OF some] by (simp add: some)
  qed
qed

text \<open>
  What the verifier relies on of the libraries, for a key of the signet and its public key: the
  base64 decoder undoes the encoder, the public key imports to a key that accepts the
  signatures of the signing key, and the text of a date reads back as the date.
\<close>

definition matching_key :: "'k crypto_host \<Rightarrow> signing_key \<Rightarrow> string \<Rightarrow> bool" where
  "matching_key host key publicKey \<longleftrightarrow>
     (\<forall>bs. ch_base64 host (btoa (from_bytes bs)) = bs)
     \<and> (\<exists>k. ch_import host (hexToBytes publicKey) = Inr k
          \<and> (\<forall>msg sig. sk_sign key msg = Signature sig \<longrightarrow> ch_verify host k sig msg = Inr True))"

lemma idSchema_nonempty: "idSchema t x \<Longrightarrow> x \<noteq> []"
  by (cases t) (auto simp: idSchema_iff)

lemma iso_string_nonempty [simp]: "iso_string t \<noteq> []"
  by (simp add: iso_string_def Let_def split: prod.split)

lemma scope_mode_name_nonempty [simp]: "scope_mode_name m \<noteq> []"
  by (cases m) simp_all

lemma sound_structure:
  assumes "SealPayload_ok is_datetime p" and "ch_date host (iso_string (sp_issuedAt p)) = Some (sp_issuedAt p)"
  shows "seal_structure_failures host p = []"
  using assms idSchema_nonempty [of RtOperator "sp_operatorId p"]
  by (simp add: seal_structure_failures_def missing_fields_def canonical_timestamp_def SealPayload_ok_def
      Let_def)

lemma signed_payload_accepted:
  assumes "stamper_sign key (sc_current chain) = Inr stamped" and "matching_key host key pk"
    and "SealPayload_ok is_datetime (sc_current chain)"
    and "ch_date host (iso_string (sp_issuedAt (sc_current chain))) = Some (sp_issuedAt (sc_current chain))"
  shows "signature_accepted host (sc_current chain) (stamped\<lparr>se_chain := chain\<rparr>) pk"
proof -
  from assms(1) obtain sig where "sk_sign key (canonicalize (payload_json (sc_current chain))) = Signature sig"
    "se_signature stamped = btoa (from_bytes sig)"
    by (auto simp: stamper_sign_def signBytes_def split: sign_outcome.splits sum.splits)
  with assms(2) sound_structure [OF assms(3,4)] show ?thesis
    by (auto simp: signature_accepted_def matching_key_def)
qed

lemma fresh_issue_publishes:
  assumes "seal_interleaved zod s jobs" and "unused_id i s jobs"
    and "seal_issue zod sign publish (Inr input) chatId i now s = (Inr e, s')" and "seal_id e = i"
  obtains stamped chain where
    "issue_plan zod (Inr input) chatId i now s = Publish (chainKey (si_credentialId input) chatId) chatId chain input"
    "sign (sc_current chain) = Inr stamped" "e = stamped\<lparr>se_chain := chain\<rparr>"
proof (cases "issue_plan zod (Inr input) chatId i now s")
  case (Answer r)
  with assms(3) have "unchanged_seal input (chainKey (si_credentialId input) chatId) s = Some e"
    by (auto simp: seal_issue_def run_plan_def issue_plan_def Let_def
        split: if_splits option.splits sum.splits)
  then have "map_get (currentSeals s) (chainKey (si_credentialId input) chatId) = Some e"
    by (auto simp: unchanged_seal_def Let_def split: option.splits if_splits)
  from seals_wf_current(2) [OF interleaved_wf [OF assms(1)] this] assms(2,4) show thesis
    by (simp add: unused_id_def)
next
  case (Publish key chat chain input')
  note eqs = issue_plan_publish [OF Publish]
  from Publish assms(3) obtain stamped where
    "sign (sc_current chain) = Inr stamped" "e = stamped\<lparr>se_chain := chain\<rparr>"
    by (auto simp: seal_issue_def run_plan_def Let_def split: sum.splits)
  with Publish eqs show thesis by (intro that [of chain stamped]) simp_all
qed

lemma issued_chain_valid:
  assumes "seal_interleaved zod s jobs" and "si_chatId input = chatId"
    and "issue_plan zod (Inr input) chatId i now s
           = Publish (chainKey (si_credentialId input) chatId) chatId chain input"
    and "pred_option (\<lambda>p. sp_operatorId (head_payload p) = si_operatorId input
           \<and> sp_issuedAt (head_payload p) \<le> now) (seal_current (si_credentialId input) chatId s)"
  shows "validateSealChain chain = Inr ()" "verifyChainDelta chain = Inr ()"
    "SealPayload_ok (zod_is_datetime zod) (sc_current chain)"
    "sc_current chain = raw_payload i now input"
proof -
  let ?k = "chainKey (si_credentialId input) chatId"
  note built = issue_plan_publish(5) [OF assms(3)]
  note wf = seals_wf_current [OF interleaved_wf [OF assms(1)]]
  have prev: "map_get (sealsById s) (seal_id p) = Some p \<and> key_of p = ?k"
    if "map_get (currentSeals s) ?k = Some p" for p
    using wf [OF that] by blast
  have b: "built_seal zod (sealsById s) (undefined\<lparr>se_chain := chain\<rparr>) input"
    "sc_current chain = raw_payload i now input"
    "sc_previous chain = map_option head_payload (map_get (currentSeals s) ?k)"
    by (rule buildSeal_built [OF built, where m = "sealsById s"], use prev assms(2) in simp)+
  from b(1) have ok: "SealPayload_ok (zod_is_datetime zod) (sc_current chain)"
    and delta: "verifyChainDelta chain = Inr ()" by (simp_all add: built_seal_def)
  have same: "sp_credentialId (head_payload p) = si_credentialId input
      \<and> sp_chatId (head_payload p) = chatId" if "map_get (currentSeals s) ?k = Some p" for p
  proof -
    have "CHR '':'' \<notin> set (si_credentialId input)" "CHR '':'' \<notin> set chatId"
      using payload_no_colon [OF ok] assms(2) b(2) by (simp_all add: raw_payload_def)
    with prev [OF that] show ?thesis by (simp add: chainKey_inj)
  qed
  show "validateSealChain chain = Inr ()"
    using same assms(4) assms(2)
    by (cases "map_get (currentSeals s) ?k")
      (simp_all add: validateSealChain_def b(2,3) raw_payload_def seal_current_def)
  show "verifyChainDelta chain = Inr ()" "SealPayload_ok (zod_is_datetime zod) (sc_current chain)"
    "sc_current chain = raw_payload i now input" by (rule delta ok b(2))+
qed

text \<open>
  C4. Seals that the signet issues verify, and altered ones do not: a new seal that the manager
  issues with the stamper of a key, after seals of the same operator that are not younger, passes
  the schema, signature and chain checks of the verifier when it is presented with its envelope
  and the public key; and neither the signature nor the chain check passes when any other
  payload is presented with that envelope.
\<close>

theorem issued_seals_pass_verification:
  assumes "seal_interleaved zod s jobs" and "unused_id i s jobs" and "si_chatId input = chatId"
    and "seal_issue zod (stamper_sign key) publish (Inr input) chatId i now s = (Inr e, s')"
    and "seal_id e = i"
    and "pred_option (\<lambda>p. sp_operatorId (head_payload p) = si_operatorId input
           \<and> sp_issuedAt (head_payload p) \<le> now) (seal_current (si_credentialId input) chatId s)"
    and "matching_key host key pk" and "ch_date host (iso_string now) = Some now"
    and "vr_seal q = Some p" and "vr_sealEnvelope q = Some e" and "vr_sealPublicKey q = Some pk"
  shows "(p = head_payload e \<longrightarrow> passes (seal_signature_check host q) \<and> passes (seal_chain_check q)
           \<and> passes (schema_compliance_check (zod_is_datetime zod) zod_issues q))
       \<and> (\<not> same_payload p (head_payload e) \<longrightarrow>
           \<not> passes (seal_signature_check host q) \<and> \<not> passes (seal_chain_check q))"
proof (intro conjI impI)
  obtain stamped chain where run:
    "issue_plan zod (Inr input) chatId i now s
       = Publish (chainKey (si_credentialId input) chatId) chatId chain input"
    "stamper_sign key (sc_current chain) = Inr stamped" "e = stamped\<lparr>se_chain := chain\<rparr>"
    using fresh_issue_publishes [OF assms(1,2,4,5)] by blast
  note valid = issued_chain_valid [OF assms(1,3) run(1) assms(6)]
  {
    assume p: "p = head_payload e"
    have "signature_accepted host (sc_current chain) (stamped\<lparr>se_chain := chain\<rparr>) pk"
      by (rule signed_payload_accepted [OF run(2) assms(7) valid(3)])
        (simp add: valid(4) raw_payload_def assms(8))
    then show "passes (seal_signature_check host q)"
      unfolding signature_check_some [OF assms(9-11)] p run(3) by simp
    have ids: "sp_sealId p \<noteq> []" "sp_chatId p \<noteq> []" "sp_operatorId p \<noteq> []" "sp_credentialId p \<noteq> []"
      using valid(3) by (auto simp: p run(3) SealPayload_ok_def dest: idSchema_nonempty)
    with valid(1,2) show "passes (seal_chain_check q)"
      unfolding chain_check_some [OF assms(9,10)] chain_accepted_def by (simp add: p run(3))
    show "passes (schema_compliance_check (zod_is_datetime zod) zod_issues q)"
      using valid(3) by (simp add: schema_compliance_check_def assms(9) p run(3) answer_def)
  }
  assume "\<not> same_payload p (head_payload e)"
  then have "canonicalize (payload_json p) \<noteq> canonicalize (payload_json (head_payload e))"
    using payload_bytes_same by blast
  then show "\<not> passes (seal_signature_check host q)" "\<not> passes (seal_chain_check q)"
    unfolding signature_check_some [OF assms(9-11)] chain_check_some [OF assms(9,10)]
      signature_accepted_def chain_accepted_def by blast+
qed

definition demo_host :: "unit crypto_host" where
  "demo_host = \<lparr>ch_date = (\<lambda>_. Some 1000),
     ch_base64 = (\<lambda>s. case atob s of None \<Rightarrow> [] | Some t \<Rightarrow> to_bytes t),
     ch_import = (\<lambda>_. Inr ()), ch_verify = (\<lambda>_ sig msg. Inr (sig = take 4 msg))\<rparr>"

theorem issued_seals_pass_verification_witness:
  "\<exists>e s'. seal_issue demo_zod (stamper_sign demo_key) demo_publish (Inr (demo_input [ScSend] None))
        demo_chat (demo_seal_id (CHR ''1'')) 1000 empty_seal_state = (Inr e, s')
      \<and> passes (seal_signature_check demo_host (demo_request\<lparr>vr_seal := Some (head_payload e),
          vr_sealEnvelope := Some e, vr_sealPublicKey := Some ''00''\<rparr>))"
proof -
  let ?r = "seal_issue demo_zod (stamper_sign demo_key) demo_publish (Inr (demo_input [ScSend] None))
        demo_chat (demo_seal_id (CHR ''1'')) 1000 empty_seal_state"
  have ok: "SealPayload_ok (zod_is_datetime demo_zod)
      (raw_payload (demo_seal_id (CHR ''1'')) 1000 (demo_input [ScSend] None))" by code_simp
  have "\<exists>e s'. ?r = (Inr e, s') \<and> seal_id e = demo_seal_id (CHR ''1'')"
    using ok
    by (simp add: seal_issue_def run_plan_def issue_plan_def buildSeal_def unchanged_seal_def Let_def
        empty_seal_state_def stamper_sign_def signBytes_def demo_key_def demo_publish_def raw_payload_def)
  then obtain e s' where r: "?r = (Inr e, s')" "seal_id e = demo_seal_id (CHR ''1'')" by blast
  have u: "unused_id (demo_seal_id (CHR ''1'')) empty_seal_state []"
    by (simp add: unused_id_def empty_seal_state_def)
  have m: "matching_key demo_host demo_key ''00''"
    by (auto simp: matching_key_def demo_host_def demo_key_def)
  let ?q = "demo_request\<lparr>vr_seal := Some (head_payload e), vr_sealEnvelope := Some e,
    vr_sealPublicKey := Some ''00''\<rparr>"
  have "passes (seal_signature_check demo_host ?q)"
    using issued_seals_pass_verification [OF si_init u _ r _ m, of ?q "head_payload e"]
    by (simp add: demo_input_def demo_host_def seal_current_def empty_seal_state_def)
  with r show ?thesis by blast
qed

end
