(* ===== verification/ReadDisclosure.thy ===== *)
theory ReadDisclosure
  imports Errors
begin

text \<open>
  The store of the disclosures that a seal makes while an admin session may read a chat
  (packages/cli/src/admin/read-disclosure-store.ts), and the tracker of the refreshes that
  roll such a disclosure back (read-disclosure-rollback-tracker.ts).

  The entries are kept per chat and per session. A call reads the clock several times within
  one synchronous step; it is one reading here.
\<close>

section \<open>The store\<close>

record disclosure =
  dc_operatorId :: string
  dc_expiresAt :: int

type_synonym disclosures = "(string, (string, disclosure) js_map) js_map"

definition collectUniqueChatIds :: "string list \<Rightarrow> string list" where
  "collectUniqueChatIds chatIds = set_from (filter (\<lambda>c. length c > 0) chatIds)"

text \<open>The entries that stay, and the one that expires last: the first of them if several do.\<close>

fun aggregate_loop ::
  "bool \<Rightarrow> int \<Rightarrow> (string, disclosure) js_map \<Rightarrow> disclosure option \<Rightarrow>
   (string, disclosure) js_map \<times> disclosure option" where
  "aggregate_loop includeExpired now [] latest = ([], latest)"
| "aggregate_loop includeExpired now ((sessionKey, d) # rest) latest =
     (if \<not> includeExpired \<and> dc_expiresAt d \<le> now
      then aggregate_loop includeExpired now rest latest
      else
        (case aggregate_loop includeExpired now rest
                (case latest of
                   None \<Rightarrow> Some d
                 | Some l \<Rightarrow> if dc_expiresAt d > dc_expiresAt l then Some d else latest) of
           (kept, l) \<Rightarrow> ((sessionKey, d) # kept, l)))"

definition aggregateForChat ::
  "bool \<Rightarrow> int \<Rightarrow> string \<Rightarrow> disclosures \<Rightarrow> disclosure option \<times> disclosures" where
  "aggregateForChat includeExpired now chatId entries =
     (case map_get entries chatId of
        None \<Rightarrow> (None, entries)
      | Some perSession \<Rightarrow>
          (case aggregate_loop includeExpired now perSession None of
             (kept, latest) \<Rightarrow>
               if length kept = 0 then (None, map_delete chatId entries)
               else (latest, map_set chatId kept entries)))"

definition per_session :: "disclosures \<Rightarrow> string \<Rightarrow> (string, disclosure) js_map" where
  "per_session entries chatId = (case map_get entries chatId of None \<Rightarrow> [] | Some ps \<Rightarrow> ps)"

definition mutate_one ::
  "((string, disclosure) js_map \<Rightarrow> (string, disclosure) js_map) \<Rightarrow> int \<Rightarrow>
   string list \<times> disclosures \<Rightarrow> string \<Rightarrow> string list \<times> disclosures" where
  "mutate_one f now acc chatId =
     (case acc of (changed, entries) \<Rightarrow>
        (case aggregateForChat False now chatId entries of (before, e1) \<Rightarrow>
          let ps = f (per_session e1 chatId);
              e2 = (if length ps > 0 then map_set chatId ps e1 else map_delete chatId e1)
          in (case aggregateForChat False now chatId e2 of (after, e3) \<Rightarrow>
                (if before \<noteq> after then changed @ [chatId] else changed, e3))))"

definition store_mutate ::
  "string list \<Rightarrow> ((string, disclosure) js_map \<Rightarrow> (string, disclosure) js_map) \<Rightarrow> int \<Rightarrow>
   disclosures \<Rightarrow> string list \<times> disclosures" where
  "store_mutate chatIds f now entries =
     foldl (mutate_one f now) ([], entries) (collectUniqueChatIds chatIds)"

definition store_set ::
  "string list \<Rightarrow> string \<Rightarrow> disclosure \<Rightarrow> int \<Rightarrow> disclosures \<Rightarrow> string list \<times> disclosures" where
  "store_set chatIds sessionKey d = store_mutate chatIds (map_set sessionKey d)"

definition store_delete ::
  "string list \<Rightarrow> string \<Rightarrow> int \<Rightarrow> disclosures \<Rightarrow> string list \<times> disclosures" where
  "store_delete chatIds sessionKey = store_mutate chatIds (map_delete sessionKey)"

definition store_restore ::
  "string list \<Rightarrow> string \<Rightarrow> disclosure \<Rightarrow> disclosures \<Rightarrow> disclosures" where
  "store_restore chatIds sessionKey d entries =
     foldl (\<lambda>e c. map_set c (map_set sessionKey d (per_session e c)) e) entries
       (collectUniqueChatIds chatIds)"

definition store_get :: "int \<Rightarrow> string \<Rightarrow> disclosures \<Rightarrow> disclosure option \<times> disclosures" where
  "store_get now chatId entries = aggregateForChat False now chatId entries"

definition store_peek :: "int \<Rightarrow> string \<Rightarrow> disclosures \<Rightarrow> disclosure option \<times> disclosures" where
  "store_peek now chatId entries = aggregateForChat True now chatId entries"

section \<open>The rollback tracker\<close>

type_synonym tracker = "(string, int) js_map"

definition tracked :: "tracker \<Rightarrow> string \<Rightarrow> int" where
  "tracked counts chatId = (case map_get counts chatId of None \<Rightarrow> 0 | Some n \<Rightarrow> n)"

definition tracker_enter :: "string list \<Rightarrow> tracker \<Rightarrow> tracker" where
  "tracker_enter chatIds counts =
     foldl (\<lambda>m c. map_set c (tracked m c + 1) m) counts (collectUniqueChatIds chatIds)"

definition tracker_leave :: "string list \<Rightarrow> tracker \<Rightarrow> tracker" where
  "tracker_leave chatIds counts =
     foldl (\<lambda>m c. let new = tracked m c - 1 in if new > 0 then map_set c new m else map_delete c m)
       counts (collectUniqueChatIds chatIds)"

definition tracker_has :: "tracker \<Rightarrow> string \<Rightarrow> bool" where
  "tracker_has counts chatId \<longleftrightarrow> tracked counts chatId > 0"

section \<open>What the store holds\<close>

text \<open>The entry of a session for a chat.\<close>

definition entry :: "disclosures \<Rightarrow> string \<Rightarrow> string \<Rightarrow> disclosure option" where
  "entry e c k = map_get (per_session e c) k"

definition store_ok :: "disclosures \<Rightarrow> bool" where
  "store_ok e \<longleftrightarrow> (\<forall>c ps. map_get e c = Some ps \<longrightarrow> map_wf ps)"

text \<open>The live entries of a chat.\<close>

definition live :: "int \<Rightarrow> disclosures \<Rightarrow> string \<Rightarrow> string \<Rightarrow> disclosure option" where
  "live now e c k = (case entry e c k of None \<Rightarrow> None
     | Some d \<Rightarrow> if dc_expiresAt d > now then Some d else None)"

lemma collectUniqueChatIds_set [simp]:
  "set (collectUniqueChatIds cs) = {c \<in> set cs. c \<noteq> []}" "distinct (collectUniqueChatIds cs)"
  by (auto simp: collectUniqueChatIds_def)

lemma per_session_simps [simp]:
  "per_session [] c = []"
  "per_session (map_set c' ps e) c = (if c = c' then ps else per_session e c)"
  "per_session (map_delete c' e) c = (if c = c' then [] else per_session e c)"
  by (simp_all add: per_session_def)

lemma per_session_wf: "store_ok e \<Longrightarrow> map_wf (per_session e c)"
  by (auto simp: store_ok_def per_session_def split: option.split)

lemma store_ok_simps [simp]:
  "store_ok []"
  "store_ok e \<Longrightarrow> map_wf ps \<Longrightarrow> store_ok (map_set c ps e)"
  "store_ok e \<Longrightarrow> store_ok (map_delete c e)"
  by (auto simp: store_ok_def)

lemma aggregate_loop_kept:
  "fst (aggregate_loop i now ps l) = filter (\<lambda>(k, d). i \<or> dc_expiresAt d > now) ps"
  by (induction i now ps l rule: aggregate_loop.induct) (auto split: prod.splits)

lemma filter_wf: "map_wf ps \<Longrightarrow> map_wf (filter P ps)"
  by (simp add: map_wf_def distinct_map_filter)

lemma map_get_filter:
  "map_wf ps \<Longrightarrow> map_get (filter (\<lambda>(k, d). P d) ps) k =
    (case map_get ps k of None \<Rightarrow> None | Some d \<Rightarrow> if P d then Some d else None)"
proof (induction ps)
  case (Cons p ps)
  obtain k' d where p: "p = (k', d)" by (cases p)
  have "map_of ps k' = None" using Cons.prems p by (simp add: map_wf_def map_of_eq_None_iff)
  with Cons p show ?case by (auto simp: map_get_def map_wf_def)
qed simp

lemma aggregate_per_session:
  "per_session (snd (aggregateForChat i now c e)) c' =
    (if c' = c then filter (\<lambda>(k, d). i \<or> dc_expiresAt d > now) (per_session e c) else per_session e c')"
proof (cases "map_get e c")
  case None
  then show ?thesis by (simp add: aggregateForChat_def per_session_def)
next
  case (Some ps)
  obtain kept l where a: "aggregate_loop i now ps None = (kept, l)" by fastforce
  with aggregate_loop_kept [of i now ps None] have "kept = filter (\<lambda>(k, d). i \<or> dc_expiresAt d > now) ps"
    by simp
  with Some a show ?thesis by (auto simp: aggregateForChat_def per_session_def)
qed

lemma aggregate_ok: "store_ok e \<Longrightarrow> store_ok (snd (aggregateForChat i now c e))"
proof -
  assume ok: "store_ok e"
  have "map_wf (fst (aggregate_loop i now ps None))" if "map_get e c = Some ps" for ps
    using that ok by (auto simp: store_ok_def aggregate_loop_kept intro: filter_wf)
  with ok show ?thesis
    by (auto simp: aggregateForChat_def split: option.split prod.split)
qed

abbreviation alive :: "int \<Rightarrow> (string, disclosure) js_map \<Rightarrow> (string, disclosure) js_map" where
  "alive now ps \<equiv> filter (\<lambda>(k, d). dc_expiresAt d > now) ps"

lemma aggregate_entry:
  assumes "store_ok e"
  shows "entry (snd (aggregateForChat i now c e)) c' k =
    (if c' = c \<and> \<not> i then live now e c' k else entry e c' k)"
  using per_session_wf [OF assms, of c]
  by (auto simp: entry_def live_def aggregate_per_session map_get_filter split: option.split)

text \<open>What is disclosed depends on the entries of the chat only, and on the live ones.\<close>

lemma loop_no_entry: "fst (aggregate_loop i now ps l) = [] \<Longrightarrow> snd (aggregate_loop i now ps l) = l"
  by (induction i now ps l rule: aggregate_loop.induct) (auto split: prod.splits)

lemma loop_alive: "snd (aggregate_loop False now (alive now ps) l) = snd (aggregate_loop False now ps l)"
  by (induction "False" now ps l rule: aggregate_loop.induct) (auto split: prod.splits)

lemma aggregate_latest:
  "fst (aggregateForChat i now c e) = snd (aggregate_loop i now (per_session e c) None)"
  using loop_no_entry [of i now "per_session e c" None]
  by (auto simp: aggregateForChat_def per_session_def split: option.split prod.split)

lemma loop_latest:
  assumes "aggregate_loop False now ps l = (kept, r)"
  shows "case r of None \<Rightarrow> l = None \<and> kept = []
    | Some d \<Rightarrow> (l = Some d \<or> (\<exists>k. (k, d) \<in> set kept))
        \<and> (\<forall>(k, d') \<in> set kept. dc_expiresAt d' \<le> dc_expiresAt d)
        \<and> (\<forall>d'. l = Some d' \<longrightarrow> dc_expiresAt d' \<le> dc_expiresAt d)"
  using assms
proof (induction "False" now ps l arbitrary: kept r rule: aggregate_loop.induct)
  case (2 now k d rest l)
  show ?case
  proof (cases "dc_expiresAt d \<le> now")
    case True
    with 2 show ?thesis by simp
  next
    case False
    let ?l = "case l of None \<Rightarrow> Some d
      | Some m \<Rightarrow> if dc_expiresAt d > dc_expiresAt m then Some d else l"
    obtain kept' where k: "aggregate_loop False now rest ?l = (kept', r)" "kept = (k, d) # kept'"
      using 2(3) False by (auto split: prod.splits)
    from 2(2) [OF _ k(1)] False k(2) show ?thesis
      by (cases l) (force split: option.splits if_splits)+
  qed
qed (simp split: option.split)

text \<open>What one step of a mutation does.\<close>

lemma mutate_one_effect:
  assumes "mutate_one f now (ch, e) c = (ch', e')" and "store_ok e" and "\<And>ps. map_wf ps \<Longrightarrow> map_wf (f ps)"
  shows "store_ok e'"
    and "per_session e' c' = (if c' = c then alive now (f (alive now (per_session e c))) else per_session e c')"
    and "ch' = (if fst (store_get now c e) \<noteq> fst (store_get now c e') then ch @ [c] else ch)"
proof -
  let ?e1 = "snd (aggregateForChat False now c e)"
  let ?ps = "f (per_session ?e1 c)"
  let ?e2 = "if length ?ps > 0 then map_set c ?ps ?e1 else map_delete c ?e1"
  have e': "e' = snd (aggregateForChat False now c ?e2)"
    and ch': "ch' = (if fst (aggregateForChat False now c e) \<noteq> fst (aggregateForChat False now c ?e2)
                     then ch @ [c] else ch)"
    using assms(1) by (auto simp: mutate_one_def Let_def split: prod.splits if_splits)
  have ok1: "store_ok ?e1" by (rule aggregate_ok [OF assms(2)])
  then have "map_wf ?ps" using assms(3) per_session_wf by blast
  with ok1 have "store_ok ?e2" by auto
  then show "store_ok e'" unfolding e' by (rule aggregate_ok)
  have p2: "per_session ?e2 c' = (if c' = c then ?ps else per_session e c')" for c'
    by (auto simp: aggregate_per_session)
  then show p': "per_session e' c' = (if c' = c then alive now (f (alive now (per_session e c))) else per_session e c')"
    for c' unfolding e' by (auto simp: aggregate_per_session)
  have "fst (aggregateForChat False now c ?e2) = fst (store_get now c e')"
    unfolding store_get_def aggregate_latest p' p2
    by (simp add: loop_alive aggregate_per_session)
  then show "ch' = (if fst (store_get now c e) \<noteq> fst (store_get now c e') then ch @ [c] else ch)"
    unfolding ch' by (simp add: store_get_def)
qed

lemma store_get_cong: "per_session e c = per_session e' c \<Longrightarrow> fst (store_get now c e) = fst (store_get now c e')"
  by (simp add: store_get_def aggregate_latest)

lemma mutate_fold_effect:
  assumes "distinct cs" and "store_ok e" and "\<And>ps. map_wf ps \<Longrightarrow> map_wf (f ps)"
    and "foldl (mutate_one f now) ([], e) cs = (changed, e')"
  shows "store_ok e'
    \<and> (\<forall>c. per_session e' c =
          (if c \<in> set cs then alive now (f (alive now (per_session e c))) else per_session e c))
    \<and> changed = filter (\<lambda>c. fst (store_get now c e) \<noteq> fst (store_get now c e')) cs"
  using assms(1,4)
proof (induction cs arbitrary: changed e' rule: rev_induct)
  case Nil
  then show ?case using assms(2) by simp
next
  case (snoc x cs)
  obtain ch1 e1 where one: "foldl (mutate_one f now) ([], e) cs = (ch1, e1)" by fastforce
  from snoc.IH [OF _ this] snoc.prems(1) have ih: "store_ok e1"
    "\<And>c. per_session e1 c =
          (if c \<in> set cs then alive now (f (alive now (per_session e c))) else per_session e c)"
    "ch1 = filter (\<lambda>c. fst (store_get now c e) \<noteq> fst (store_get now c e1)) cs" by auto
  have step: "mutate_one f now (ch1, e1) x = (changed, e')" using snoc.prems(2) one by simp
  note eff = mutate_one_effect [OF step ih(1) assms(3)]
  have x: "x \<notin> set cs" using snoc.prems(1) by simp
  have same: "fst (store_get now c e1) = fst (store_get now c e')" if "c \<noteq> x" for c
    using that by (intro store_get_cong) (simp add: eff(2))
  have "fst (store_get now x e) = fst (store_get now x e1)"
    using x by (intro store_get_cong) (simp add: ih(2))
  moreover have "filter (\<lambda>c. fst (store_get now c e) \<noteq> fst (store_get now c e1)) cs
      = filter (\<lambda>c. fst (store_get now c e) \<noteq> fst (store_get now c e')) cs"
    using x same by (intro filter_cong refl) metis
  ultimately have "changed = filter (\<lambda>c. fst (store_get now c e) \<noteq> fst (store_get now c e')) (cs @ [x])"
    using eff(3) ih(3) by simp
  with eff(1,2) ih(2) x show ?case by auto
qed

lemma store_mutate_effect:
  assumes "store_ok e" and "\<And>ps. map_wf ps \<Longrightarrow> map_wf (f ps)" and "store_mutate cs f now e = (changed, e')"
  shows "store_ok e'"
    and "per_session e' c = (if c \<in> set cs \<and> c \<noteq> [] then alive now (f (alive now (per_session e c)))
           else per_session e c)"
    and "changed = filter (\<lambda>c. fst (store_get now c e) \<noteq> fst (store_get now c e')) (collectUniqueChatIds cs)"
  using mutate_fold_effect [OF collectUniqueChatIds_set(2) assms(1,2) assms(3) [unfolded store_mutate_def]]
  by auto

lemma live_alive: "store_ok e \<Longrightarrow> live now e c k = map_get (alive now (per_session e c)) k"
  using per_session_wf [of e c] by (simp add: live_def entry_def map_get_filter)

lemma live_mutated:
  assumes "store_ok e" and "\<And>ps. map_wf ps \<Longrightarrow> map_wf (f ps)" and "store_mutate cs f now e = (changed, e')"
  shows "live now e' c k = (if c \<in> set cs \<and> c \<noteq> []
    then map_get (alive now (f (alive now (per_session e c)))) k else live now e c k)"
  using store_mutate_effect(1) [OF assms] store_mutate_effect(2) [OF assms, of c] assms(1)
  by (simp add: live_alive filter_filter)

lemma alive_twice:
  "map_wf ps \<Longrightarrow> (case map_get (alive now ps) k of None \<Rightarrow> None
     | Some d \<Rightarrow> if dc_expiresAt d > now then Some d else None) = map_get (alive now ps) k"
  by (auto simp: map_get_filter split: option.split)

lemma live_set:
  assumes "store_ok e" and "store_set cs key d now e = (changed, e')"
  shows "live now e' c k = (if c \<in> set cs \<and> c \<noteq> [] \<and> k = key
    then (if dc_expiresAt d > now then Some d else None) else live now e c k)"
proof -
  have "map_wf (alive now (per_session e c))" by (rule filter_wf [OF per_session_wf [OF assms(1)]])
  then show ?thesis
    using live_mutated [OF assms(1) _ assms(2) [unfolded store_set_def], of c k]
      alive_twice [OF per_session_wf [OF assms(1)], of now c k]
    by (auto simp: map_get_filter [of "map_set key d _"] live_alive [OF assms(1)] cong: option.case_cong)
qed

lemma live_delete:
  assumes "store_ok e" and "store_delete cs key now e = (changed, e')"
  shows "live now e' c k = (if c \<in> set cs \<and> c \<noteq> [] \<and> k = key then None else live now e c k)"
proof -
  have "map_wf (alive now (per_session e c))" by (rule filter_wf [OF per_session_wf [OF assms(1)]])
  then show ?thesis
    using live_mutated [OF assms(1) _ assms(2) [unfolded store_delete_def], of c k]
      alive_twice [OF per_session_wf [OF assms(1)], of now c k]
    by (auto simp: map_get_filter [of "map_delete key _"] live_alive [OF assms(1)] cong: option.case_cong)
qed

lemma store_set_ok: "store_ok e \<Longrightarrow> store_ok (snd (store_set cs key d now e))"
  using store_mutate_effect(1) [of e "map_set key d" cs now] unfolding store_set_def
  by (metis map_wf_set prod.collapse)

lemma store_delete_ok: "store_ok e \<Longrightarrow> store_ok (snd (store_delete cs key now e))"
  using store_mutate_effect(1) [of e "map_delete key" cs now] unfolding store_delete_def
  by (metis map_wf_delete prod.collapse)

lemma store_get_ok: "store_ok e \<Longrightarrow> store_ok (snd (store_get now c e))"
  unfolding store_get_def by (rule aggregate_ok)

lemma store_restore_effect:
  assumes "store_ok e"
  shows "store_ok (store_restore cs key d e)"
    and "entry (store_restore cs key d e) c k =
      (if c \<in> set cs \<and> c \<noteq> [] \<and> k = key then Some d else entry e c k)"
proof -
  let ?f = "\<lambda>e c. map_set c (map_set key d (per_session e c)) e"
  have "store_ok (foldl ?f e xs) \<and>
      (\<forall>c k. entry (foldl ?f e xs) c k = (if c \<in> set xs \<and> k = key then Some d else entry e c k))" for xs
  proof (induction xs rule: rev_induct)
    case (snoc x xs)
    then have "map_wf (per_session (foldl ?f e xs) x)" using per_session_wf by blast
    with snoc show ?case by (auto simp: entry_def)
  qed (simp add: assms)
  from this [of "collectUniqueChatIds cs"]
  show "store_ok (store_restore cs key d e)"
    and "entry (store_restore cs key d e) c k =
      (if c \<in> set cs \<and> c \<noteq> [] \<and> k = key then Some d else entry e c k)"
    by (auto simp: store_restore_def)
qed

text \<open>Reading discloses the live entry that expires last, and keeps the live ones.\<close>

lemma store_get_latest:
  assumes "store_ok e"
  shows "case fst (store_get now c e) of
      None \<Rightarrow> \<forall>k. live now e c k = None
    | Some d \<Rightarrow> (\<exists>k. live now e c k = Some d)
        \<and> (\<forall>k d'. live now e c k = Some d' \<longrightarrow> dc_expiresAt d' \<le> dc_expiresAt d)"
proof -
  let ?ps = "per_session e c"
  obtain kept r where a: "aggregate_loop False now ?ps None = (kept, r)" by fastforce
  then have kept: "kept = alive now ?ps" using aggregate_loop_kept [of False now ?ps None] by simp
  have "live now e c k = Some d \<longleftrightarrow> (k, d) \<in> set kept" for k d
    using per_session_wf [OF assms, of c] filter_wf [of ?ps] unfolding live_alive [OF assms] kept
    by (metis map_entry_iff)
  moreover have "fst (store_get now c e) = r" by (simp add: store_get_def aggregate_latest a)
  ultimately show ?thesis using loop_latest [OF a]
    by (cases r) (fastforce simp: live_def split: option.splits)+
qed

lemma live_get: "store_ok e \<Longrightarrow> live now (snd (store_get now' c' e)) c k =
    (if c = c' \<and> (case entry e c k of None \<Rightarrow> True | Some d \<Rightarrow> dc_expiresAt d \<le> now') then None
     else live now e c k)"
  by (auto simp: live_def store_get_def aggregate_entry split: option.split)

text \<open>The two mutations that report what changed, and their specification on the table of live
  disclosures.\<close>

datatype store_call = SetCall "string list" string disclosure | DeleteCall "string list" string

fun store_apply :: "store_call \<Rightarrow> int \<Rightarrow> disclosures \<Rightarrow> string list \<times> disclosures" where
  "store_apply (SetCall cs key d) = store_set cs key d"
| "store_apply (DeleteCall cs key) = store_delete cs key"

fun call_chats :: "store_call \<Rightarrow> string set" where
  "call_chats (SetCall cs key d) = set cs - {[]}"
| "call_chats (DeleteCall cs key) = set cs - {[]}"

fun table_apply ::
  "store_call \<Rightarrow> int \<Rightarrow> (string \<Rightarrow> string \<Rightarrow> disclosure option) \<Rightarrow> string \<Rightarrow> string \<Rightarrow> disclosure option" where
  "table_apply (SetCall cs key d) now t c k =
     (if c \<in> call_chats (SetCall cs key d) \<and> k = key
      then (if dc_expiresAt d > now then Some d else None) else t c k)"
| "table_apply (DeleteCall cs key) now t c k =
     (if c \<in> call_chats (DeleteCall cs key) \<and> k = key then None else t c k)"

lemma store_apply_effect:
  assumes "store_ok e" and "store_apply call now e = (changed, e')"
  shows "store_ok e'" "live now e' = table_apply call now (live now e)"
    "set changed = {c \<in> call_chats call. fst (store_get now c e) \<noteq> fst (store_get now c e')}"
proof -
  show "store_ok e'"
  proof (cases call)
    case (SetCall cs key d)
    with assms(2) store_set_ok [OF assms(1), of cs key d now] show ?thesis by simp
  next
    case (DeleteCall cs key)
    with assms(2) store_delete_ok [OF assms(1), of cs key now] show ?thesis by simp
  qed
  show "live now e' = table_apply call now (live now e)"
    using assms live_set [of e] live_delete [of e] by (cases call) (auto simp: fun_eq_iff)
  show "set changed = {c \<in> call_chats call. fst (store_get now c e) \<noteq> fst (store_get now c e')}"
    using assms
    by (cases call)
      (auto simp: store_set_def store_delete_def dest!: store_mutate_effect(3) [rotated 2])
qed

text \<open>
  C35. The disclosure store refines a table of live disclosures per chat and session: \<open>set\<close> and
  \<open>delete\<close> change exactly the entries of the session for the named chats and report exactly the
  chats whose disclosure changed; reading a chat returns the live disclosure that expires last,
  none exactly when no session has one, and changes nothing that is live.
\<close>

theorem disclosure_store_refines_table:
  assumes "store_ok e" and "store_apply call now e = (changed, e')"
  shows "store_ok e' \<and> live now e' = table_apply call now (live now e)
    \<and> set changed = {c \<in> call_chats call. fst (store_get now c e) \<noteq> fst (store_get now c e')}
    \<and> live now (snd (store_get now c e')) = live now e'
    \<and> (case fst (store_get now c e') of
         None \<Rightarrow> \<forall>k. live now e' c k = None
       | Some d \<Rightarrow> (\<exists>k. live now e' c k = Some d)
           \<and> (\<forall>k d'. live now e' c k = Some d' \<longrightarrow> dc_expiresAt d' \<le> dc_expiresAt d))"
proof -
  note eff = store_apply_effect [OF assms]
  have "live now (snd (store_get now c e')) = live now e'"
    unfolding fun_eq_iff live_get [OF eff(1)] by (auto simp: live_def split: option.splits)
  with eff store_get_latest [OF eff(1), of now c] show ?thesis by blast
qed

definition demo_disclosures :: disclosures where
  "demo_disclosures = snd (store_apply (SetCall [''c''] ''s2'' \<lparr>dc_operatorId = ''owner'', dc_expiresAt = 9\<rparr>) 1
     (snd (store_apply (SetCall [''c''] ''s1'' \<lparr>dc_operatorId = ''owner'', dc_expiresAt = 7\<rparr>) 1 [])))"

lemma demo_disclosures_ok: "store_ok demo_disclosures"
  by (simp add: demo_disclosures_def store_set_ok)

theorem disclosure_store_refines_table_witness:
  "\<exists>e. store_apply (DeleteCall [''c''] ''s2'') 5 demo_disclosures = ([''c''], e)
     \<and> live 5 e ''c'' ''s2'' = None
     \<and> fst (store_get 5 ''c'' e) = Some \<lparr>dc_operatorId = ''owner'', dc_expiresAt = 7\<rparr>"
proof -
  let ?r = "store_apply (DeleteCall [''c''] ''s2'') 5 demo_disclosures"
  have "fst ?r = [''c'']"
    "fst (store_get 5 ''c'' (snd ?r)) = Some \<lparr>dc_operatorId = ''owner'', dc_expiresAt = 7\<rparr>"
    by code_simp+
  moreover have "live 5 (snd ?r) ''c'' ''s2'' = None"
    using disclosure_store_refines_table [OF demo_disclosures_ok, of "DeleteCall [''c''] ''s2''" 5]
    by (simp add: prod_eq_iff)
  ultimately show ?thesis by (metis prod.collapse)
qed

end
