(* ===== verification/StateRules.thy ===== *)
theory StateRules
  imports Prelude "HOL-Library.State_Monad"
begin

text \<open>
  Operations that wait on the outside world, in the state monad of the library. The state is
  a pair: the state of the component and the world that answers its calls. \<open>wp m Q s\<close> says that
  \<open>m\<close>, run from \<open>s\<close>, ends with a value and a state that satisfy \<open>Q\<close>; the rules of
  \<open>wp_simps\<close> compute it.
\<close>

named_theorems wp_simps \<open>weakest preconditions\<close>

definition gets :: "('s \<Rightarrow> 'a) \<Rightarrow> ('s, 'a) state" where
  "gets f = State (\<lambda>s. (f s, s))"

definition modify :: "('s \<Rightarrow> 's) \<Rightarrow> ('s, unit) state" where
  "modify f = State (\<lambda>s. ((), f s))"

definition local_gets :: "('s \<Rightarrow> 'a) \<Rightarrow> ('s \<times> 'w, 'a) state" where
  "local_gets f = gets (\<lambda>(s, w). f s)"

definition local_modify :: "('s \<Rightarrow> 's) \<Rightarrow> ('s \<times> 'w, unit) state" where
  "local_modify f = modify (\<lambda>(s, w). (f s, w))"

definition world_gets :: "('w \<Rightarrow> 'a) \<Rightarrow> ('s \<times> 'w, 'a) state" where
  "world_gets f = gets (\<lambda>(s, w). f w)"

text \<open>A call of the outside world.\<close>

definition ask :: "('w \<Rightarrow> 'a \<times> 'w) \<Rightarrow> ('s \<times> 'w, 'a) state" where
  "ask f = State (\<lambda>(s, w). case f w of (a, w') \<Rightarrow> (a, (s, w')))"

definition wp :: "('s, 'a) state \<Rightarrow> ('a \<Rightarrow> 's \<Rightarrow> bool) \<Rightarrow> 's \<Rightarrow> bool" where
  "wp m Q s \<longleftrightarrow> (case run_state m s of (a, s') \<Rightarrow> Q a s')"

lemma wp_run: "run_state m s = (a, s') \<Longrightarrow> wp m Q s \<longleftrightarrow> Q a s'"
  by (simp add: wp_def)

lemma wpD: "wp m Q s \<Longrightarrow> run_state m s = (a, s') \<Longrightarrow> Q a s'"
  by (simp add: wp_def)

lemma wpI: "(\<And>a s'. run_state m s = (a, s') \<Longrightarrow> Q a s') \<Longrightarrow> wp m Q s"
  by (cases "run_state m s") (simp add: wp_def)

lemma wp_mono: "wp m Q s \<Longrightarrow> (\<And>a s'. Q a s' \<Longrightarrow> R a s') \<Longrightarrow> wp m R s"
  by (simp add: wp_def split: prod.splits)

lemma wp_return [wp_simps]: "wp (State_Monad.return x) Q s \<longleftrightarrow> Q x s"
  by (simp add: wp_def)

lemma wp_return_fun [wp_simps]: "wp (State_Monad.return x) Q = Q x"
  by (rule ext) (rule wp_return)

lemma wp_bind [wp_simps]: "wp (State_Monad.bind m f) Q s \<longleftrightarrow> wp m (\<lambda>a. wp (f a) Q) s"
  by (simp add: wp_def split: prod.split)

lemma wp_gets [wp_simps]: "wp (gets f) Q s \<longleftrightarrow> Q (f s) s"
  by (simp add: wp_def gets_def)

lemma wp_modify [wp_simps]: "wp (modify f) Q s \<longleftrightarrow> Q () (f s)"
  by (simp add: wp_def modify_def)

lemma wp_local_gets [wp_simps]: "wp (local_gets f) Q (s, w) \<longleftrightarrow> Q (f s) (s, w)"
  by (simp add: local_gets_def wp_gets)

lemma wp_local_modify [wp_simps]: "wp (local_modify f) Q (s, w) \<longleftrightarrow> Q () (f s, w)"
  by (simp add: local_modify_def wp_modify)

lemma wp_world_gets [wp_simps]: "wp (world_gets f) Q (s, w) \<longleftrightarrow> Q (f w) (s, w)"
  by (simp add: world_gets_def wp_gets)

lemma wp_ask [wp_simps]: "wp (ask f) Q (s, w) \<longleftrightarrow> Q (fst (f w)) (s, snd (f w))"
  by (simp add: wp_def ask_def split: prod.split)

lemma wp_if [wp_simps]: "wp (if b then m else n) Q s \<longleftrightarrow> (if b then wp m Q s else wp n Q s)"
  by simp

lemma wp_case_option [wp_simps]:
  "wp (case x of None \<Rightarrow> m | Some y \<Rightarrow> f y) Q s
     \<longleftrightarrow> (case x of None \<Rightarrow> wp m Q s | Some y \<Rightarrow> wp (f y) Q s)"
  by (cases x) simp_all

lemma wp_case_sum [wp_simps]:
  "wp (case x of Inl e \<Rightarrow> m e | Inr y \<Rightarrow> f y) Q s
     \<longleftrightarrow> (case x of Inl e \<Rightarrow> wp (m e) Q s | Inr y \<Rightarrow> wp (f y) Q s)"
  by (cases x) simp_all

lemma wp_case_prod [wp_simps]:
  "wp (case x of (a, b) \<Rightarrow> f a b) Q s \<longleftrightarrow> (case x of (a, b) \<Rightarrow> wp (f a b) Q s)"
  by (cases x) simp

lemma wp_case_completion [wp_simps]:
  "wp (case x of Returned a \<Rightarrow> f a | Threw e \<Rightarrow> g e) Q s
     \<longleftrightarrow> (case x of Returned a \<Rightarrow> wp (f a) Q s | Threw e \<Rightarrow> wp (g e) Q s)"
  by (cases x) simp_all

lemma wp_True [simp]: "wp m (\<lambda>_ _. True) s"
  by (simp add: wp_def split: prod.split)

lemma wp_conj: "wp m (\<lambda>a s'. P a s' \<and> Q a s') s \<longleftrightarrow> wp m P s \<and> wp m Q s"
  by (simp add: wp_def split: prod.split)

end
