(* ===== verification/ReadElevation.thy ===== *)
theory ReadElevation
  imports ReadDisclosure StateRules Json JsDate
begin

text \<open>
  Temporary read access of an admin session to the messages of a chat
  (packages/cli/src/admin/read-elevation.ts): approved locally, cached per session and chat,
  disclosed on the seals of the chat while it lasts, and audited.

  The state is the cache, the armed timers and the disclosure store. The world answers the
  calls that are awaited: the approver, the audit log, the refresh of the seals (which may read
  the disclosure store), and the clock. An operation runs to its end before the next begins;
  timers fire between them. \<open>unref\<close> of a timer has no effect on the state.
\<close>

section \<open>Types\<close>

record elevation =
  el_approvalId :: string
  el_chatIds :: "string list"
  el_approvedAt :: int
  el_expiresAt :: int
  el_approvalKeyFingerprint :: string

record cached_elevation =
  ce_elevation :: elevation
  ce_chatId :: string
  ce_sessionKey :: string

record elevation_request =
  er_method :: string
  er_params :: "(string, json) js_map"
  er_adminFingerprint :: string
  er_sessionKey :: string

record audit_entry =
  au_timestamp :: int
  au_action :: string
  au_target :: string
  au_detail :: "(string \<times> json) list"
  au_success :: bool

text \<open>The text of what an append threw, if it did.\<close>

record 'w elevation_deps =
  ed_approver :: "(('w \<Rightarrow> unit result \<times> 'w) \<times> ('w \<Rightarrow> string result \<times> 'w)) option"
  ed_auditLog :: "(audit_entry \<Rightarrow> 'w \<Rightarrow> string option \<times> 'w) option"
  ed_disclosureStore :: bool
  ed_onDisclosureChanged ::
    "(string list \<Rightarrow> bool \<Rightarrow> disclosures \<times> 'w \<Rightarrow> unit result \<times> disclosures \<times> 'w) option"
  ed_disclosureActorId :: string
  ed_normalizeChatId :: "string \<Rightarrow> string"
  ed_ttlMs :: int
  ed_now :: "'w \<Rightarrow> int"

definition DEFAULT_READ_ELEVATION_TTL_MS :: int where
  "DEFAULT_READ_ELEVATION_TTL_MS = 60000"

record elevation_state =
  es_cache :: "(string, cached_elevation) js_map"
  es_timers :: "(string, cached_elevation \<times> int) js_map"
  es_disclosures :: disclosures

type_synonym ('w, 'a) elevating = "(elevation_state \<times> 'w, 'a) state"

section \<open>The request\<close>

definition isMessageReadMethod :: "string \<Rightarrow> bool" where
  "isMessageReadMethod m \<longleftrightarrow>
     m = ''message.list'' \<or> m = ''message.info'' \<or> m = ''search.messages''"

definition wantsDangerousMessageRead :: "(string, json) js_map \<Rightarrow> bool" where
  "wantsDangerousMessageRead params \<longleftrightarrow>
     map_get params ''dangerouslyAllowMessageRead'' = Some (JBool True)
     \<or> map_get params ''dangerouslyAllowMessageRead'' = Some (JStr ''true'')"

definition resolveChatId :: "(string, json) js_map \<Rightarrow> string option" where
  "resolveChatId params =
     (case map_get params ''chatId'' of
        Some (JStr c) \<Rightarrow> if length c > 0 then Some c else None
      | _ \<Rightarrow> None)"

definition buildCacheKey :: "string \<Rightarrow> string \<Rightarrow> string" where
  "buildCacheKey sessionKey chatId = sessionKey @ '':'' @ chatId"

abbreviation cache_key :: "cached_elevation \<Rightarrow> string" where
  "cache_key c \<equiv> buildCacheKey (ce_sessionKey c) (ce_chatId c)"

section \<open>Audit and disclosure\<close>

fun category_name :: "error_category \<Rightarrow> string" where
  "category_name CatValidation = ''validation''"
| "category_name CatNotFound = ''not_found''"
| "category_name CatPermission = ''permission''"
| "category_name CatAuth = ''auth''"
| "category_name CatInternal = ''internal''"
| "category_name CatTimeout = ''timeout''"
| "category_name CatCancelled = ''cancelled''"
| "category_name CatNetwork = ''network''"

definition appendAudit ::
  "'w elevation_deps \<Rightarrow> string \<Rightarrow> bool \<Rightarrow> string \<Rightarrow> (string \<times> json) list \<Rightarrow> ('w, unit result) elevating" where
  "appendAudit deps action success target detail =
     (case ed_auditLog deps of
        None \<Rightarrow> State_Monad.return (Inr ())
      | Some append_entry \<Rightarrow> do {
          now \<leftarrow> world_gets (ed_now deps);
          threw \<leftarrow> ask (append_entry \<lparr>au_timestamp = now, au_action = action, au_target = target,
                      au_detail = detail, au_success = success\<rparr>);
          State_Monad.return
            (case threw of
               None \<Rightarrow> Inr ()
             | Some cause \<Rightarrow>
                 Inl (InternalError ''Failed to write admin read elevation audit log''
                   (Some [(''cause'', CtxStr cause), (''action'', CtxStr action)])))
        })"

definition appendSessionAudit ::
  "'w elevation_deps \<Rightarrow> string \<Rightarrow> elevation_request \<Rightarrow> elevation \<Rightarrow> string \<Rightarrow> ('w, unit result) elevating" where
  "appendSessionAudit deps action input elevation chatId =
     appendAudit deps action True chatId
       [(''method'', JStr (er_method input)),
        (''adminKeyFingerprint'', JStr (er_adminFingerprint input)),
        (''approvalId'', JStr (el_approvalId elevation)),
        (''expiresAt'', JStr (iso_string (el_expiresAt elevation))), (''mode'', JStr ''session-scoped'')]"

definition notifyDisclosureChanged ::
  "'w elevation_deps \<Rightarrow> string list \<Rightarrow> bool \<Rightarrow> ('w, unit result) elevating" where
  "notifyDisclosureChanged deps chatIds includeExpired =
     (case ed_onDisclosureChanged deps of
        None \<Rightarrow> State_Monad.return (Inr ())
      | Some changed \<Rightarrow>
          if length chatIds = 0 then State_Monad.return (Inr ())
          else State (\<lambda>(s, w). case changed chatIds includeExpired (es_disclosures s, w) of
                 (r, d, w') \<Rightarrow> (r, (s\<lparr>es_disclosures := d\<rparr>, w'))))"

definition rollback_failed :: "string \<Rightarrow> signet_error \<Rightarrow> signet_error \<Rightarrow> signet_error" where
  "rollback_failed message e rollback =
     InternalError message
       (Some [(''reason'', CtxStr (error_message e)),
              (''category'', CtxStr (category_name (category_of e))),
              (''rollbackReason'', CtxStr (error_message rollback)),
              (''rollbackCategory'', CtxStr (category_name (category_of rollback)))])"

definition with_store ::
  "(disclosures \<Rightarrow> 'a \<times> disclosures) \<Rightarrow> ('w, 'a) elevating" where
  "with_store f = State (\<lambda>(s, w). case f (es_disclosures s) of
     (a, d) \<Rightarrow> (a, (s\<lparr>es_disclosures := d\<rparr>, w)))"

definition disclosure_of :: "'w elevation_deps \<Rightarrow> cached_elevation \<Rightarrow> disclosure" where
  "disclosure_of deps cached =
     \<lparr>dc_operatorId = ed_disclosureActorId deps, dc_expiresAt = el_expiresAt (ce_elevation cached)\<rparr>"

definition syncDisclosureApproval ::
  "'w elevation_deps \<Rightarrow> cached_elevation \<Rightarrow> ('w, unit result) elevating" where
  "syncDisclosureApproval deps cached =
     (if \<not> ed_disclosureStore deps then State_Monad.return (Inr ())
      else do {
        now \<leftarrow> world_gets (ed_now deps);
        changedChats \<leftarrow> with_store
          (store_set [ce_chatId cached] (ce_sessionKey cached) (disclosure_of deps cached) now);
        notifyResult \<leftarrow> notifyDisclosureChanged deps changedChats False;
        case notifyResult of
          Inl e \<Rightarrow> do {
            later \<leftarrow> world_gets (ed_now deps);
            rollbackChats \<leftarrow> with_store (store_delete [ce_chatId cached] (ce_sessionKey cached) later);
            rollbackResult \<leftarrow> notifyDisclosureChanged deps rollbackChats False;
            State_Monad.return
              (case rollbackResult of
                 Inl rollback \<Rightarrow>
                   Inl (rollback_failed ''Failed to roll back admin read disclosure refresh'' e rollback)
               | Inr _ \<Rightarrow> Inl e)
          }
        | Inr _ \<Rightarrow> State_Monad.return (Inr ())
      })"

definition syncDisclosureExpiry ::
  "'w elevation_deps \<Rightarrow> cached_elevation \<Rightarrow> ('w, unit result) elevating" where
  "syncDisclosureExpiry deps cached =
     (if \<not> ed_disclosureStore deps then State_Monad.return (Inr ())
      else do {
        now \<leftarrow> world_gets (ed_now deps);
        changedChats \<leftarrow> with_store (store_delete [ce_chatId cached] (ce_sessionKey cached) now);
        notifyResult \<leftarrow> notifyDisclosureChanged deps changedChats False;
        case notifyResult of
          Inl e \<Rightarrow> do {
            with_store (\<lambda>d. ((), store_restore [ce_chatId cached] (ce_sessionKey cached)
                               (disclosure_of deps cached) d));
            rollbackResult \<leftarrow> notifyDisclosureChanged deps [ce_chatId cached] True;
            State_Monad.return
              (case rollbackResult of
                 Inl rollback \<Rightarrow>
                   Inl (rollback_failed ''Failed to roll back expired admin read disclosure refresh''
                     e rollback)
               | Inr _ \<Rightarrow> Inl e)
          }
        | Inr _ \<Rightarrow> State_Monad.return (Inr ())
      })"

section \<open>Expiry\<close>

definition clearExpirationTimer :: "string \<Rightarrow> ('w, unit) elevating" where
  "clearExpirationTimer cacheKey =
     local_modify (\<lambda>s. s\<lparr>es_timers := map_delete cacheKey (es_timers s)\<rparr>)"

definition disclosure_failed_detail ::
  "elevation \<Rightarrow> string \<Rightarrow> signet_error \<Rightarrow> (string \<times> json) list" where
  "disclosure_failed_detail elevation stage e =
     [(''approvalId'', JStr (el_approvalId elevation)), (''expiresAt'', JStr (iso_string (el_expiresAt elevation))),
      (''stage'', JStr stage), (''reason'', JStr (error_message e)),
      (''category'', JStr (category_name (category_of e)))]"

definition expireCachedElevation ::
  "'w elevation_deps \<Rightarrow> cached_elevation \<Rightarrow> elevation_request option \<Rightarrow> ('w, unit result) elevating" where
  "expireCachedElevation deps cached input = do {
     local_modify (\<lambda>s. s\<lparr>es_cache := map_delete (cache_key cached) (es_cache s)\<rparr>);
     clearExpirationTimer (cache_key cached);
     disclosureResult \<leftarrow> syncDisclosureExpiry deps cached;
     expiredAudit \<leftarrow> appendSessionAudit deps ''admin.read-elevation.expired''
       (case input of
          Some i \<Rightarrow> i
        | None \<Rightarrow> \<lparr>er_method = ''message.list'', er_params = [(''chatId'', JStr (ce_chatId cached))],
                   er_adminFingerprint = [], er_sessionKey = ce_sessionKey cached\<rparr>)
       (ce_elevation cached) (ce_chatId cached);
     case disclosureResult of
       Inl e \<Rightarrow> do {
         auditResult \<leftarrow> appendAudit deps ''admin.read-elevation.disclosure-refresh-failed'' False
           (ce_chatId cached) (disclosure_failed_detail (ce_elevation cached) ''expiry'' e);
         State_Monad.return (case auditResult of Inl e' \<Rightarrow> Inl e' | Inr _ \<Rightarrow> Inl e)
       }
     | Inr _ \<Rightarrow> State_Monad.return expiredAudit
   }"

text \<open>The instant a timer is due: it fires then or later.\<close>

definition scheduleExpiration ::
  "'w elevation_deps \<Rightarrow> cached_elevation \<Rightarrow> ('w, unit) elevating" where
  "scheduleExpiration deps cached = do {
     clearExpirationTimer (cache_key cached);
     now \<leftarrow> world_gets (ed_now deps);
     let delayMs = max 0 (el_expiresAt (ce_elevation cached) - now);
     local_modify (\<lambda>s. s\<lparr>es_timers := map_set (cache_key cached) (cached, now + delayMs) (es_timers s)\<rparr>)
   }"

section \<open>Resolving a request\<close>

text \<open>From the fingerprint of the approving key on.\<close>

definition record_elevation ::
  "'w elevation_deps \<Rightarrow> string \<Rightarrow> elevation_request \<Rightarrow> string \<Rightarrow> string \<Rightarrow>
   ('w, elevation option result completion) elevating" where
  "record_elevation deps uuid input canonicalChatId fingerprint = do {
     approvedAt \<leftarrow> world_gets (ed_now deps);
     case to_iso (approvedAt + ed_ttlMs deps) of
       Threw e \<Rightarrow> State_Monad.return (Threw e)
     | Returned expiresAt \<Rightarrow> do {
         let elevation = \<lparr>el_approvalId = ''approval_'' @ filter (\<lambda>c. c \<noteq> CHR ''-'') uuid,
               el_chatIds = [canonicalChatId], el_approvedAt = approvedAt, el_expiresAt = expiresAt,
               el_approvalKeyFingerprint = fingerprint\<rparr>;
         let nextCached = \<lparr>ce_elevation = elevation, ce_chatId = canonicalChatId,
               ce_sessionKey = er_sessionKey input\<rparr>;
         disclosureResult \<leftarrow> syncDisclosureApproval deps nextCached;
         case disclosureResult of
           Inl e \<Rightarrow> do {
             auditResult \<leftarrow> appendAudit deps ''admin.read-elevation.disclosure-refresh-failed'' False
               canonicalChatId
               ([(''method'', JStr (er_method input)),
                 (''adminKeyFingerprint'', JStr (er_adminFingerprint input))]
                @ disclosure_failed_detail elevation ''approval'' e);
             State_Monad.return (Returned (case auditResult of Inl e' \<Rightarrow> Inl e' | Inr _ \<Rightarrow> Inl e))
           }
         | Inr _ \<Rightarrow> do {
             auditResult \<leftarrow> appendAudit deps ''admin.read-elevation.approved'' True canonicalChatId
               [(''method'', JStr (er_method input)),
                (''adminKeyFingerprint'', JStr (er_adminFingerprint input)),
                (''approvalId'', JStr (el_approvalId elevation)),
                (''expiresAt'', JStr (iso_string (el_expiresAt elevation))),
                (''approvalKeyFingerprint'', JStr fingerprint), (''mode'', JStr ''session-scoped'')];
             case auditResult of
               Inl e \<Rightarrow> do {
                 rollbackResult \<leftarrow> syncDisclosureExpiry deps nextCached;
                 State_Monad.return (Returned (case rollbackResult of Inl e' \<Rightarrow> Inl e' | Inr _ \<Rightarrow> Inl e))
               }
             | Inr _ \<Rightarrow> do {
                 local_modify (\<lambda>s. s\<lparr>es_cache := map_set (cache_key nextCached) nextCached (es_cache s)\<rparr>);
                 scheduleExpiration deps nextCached;
                 State_Monad.return (Returned (Inr (Some elevation)))
               }
           }
       }
   }"

definition approve_elevation ::
  "'w elevation_deps \<Rightarrow> string \<Rightarrow> elevation_request \<Rightarrow> string \<Rightarrow>
   ('w, elevation option result completion) elevating" where
  "approve_elevation deps uuid input canonicalChatId =
     (case ed_approver deps of
        None \<Rightarrow> State_Monad.return (Returned (Inl
          (InternalError ''Admin read elevation approver is not configured''
             (Some [(''method'', CtxStr (er_method input))]))))
      | Some (authorize, getApprovalFingerprint) \<Rightarrow> do {
          authorizeResult \<leftarrow> ask authorize;
          case authorizeResult of
            Inl e \<Rightarrow> do {
              auditResult \<leftarrow> appendAudit deps ''admin.read-elevation.denied'' False canonicalChatId
                [(''method'', JStr (er_method input)),
                 (''adminKeyFingerprint'', JStr (er_adminFingerprint input)),
                 (''reason'', JStr (error_message e)),
                 (''category'', JStr (category_name (category_of e))), (''mode'', JStr ''session-scoped'')];
              State_Monad.return (Returned (case auditResult of Inl e' \<Rightarrow> Inl e' | Inr _ \<Rightarrow> Inl e))
            }
          | Inr _ \<Rightarrow> do {
              fingerprintResult \<leftarrow> ask getApprovalFingerprint;
              case fingerprintResult of
                Inl e \<Rightarrow> State_Monad.return (Returned (Inl e))
              | Inr fingerprint \<Rightarrow> record_elevation deps uuid input canonicalChatId fingerprint
            }
        })"

definition resolveForRequest ::
  "'w elevation_deps \<Rightarrow> string \<Rightarrow> elevation_request \<Rightarrow>
   ('w, elevation option result completion) elevating" where
  "resolveForRequest deps uuid input =
     (if \<not> isMessageReadMethod (er_method input) \<or> \<not> wantsDangerousMessageRead (er_params input)
      then State_Monad.return (Returned (Inr None))
      else
        (case resolveChatId (er_params input) of
           None \<Rightarrow> State_Monad.return (Returned (Inr None))
         | Some chatId \<Rightarrow> do {
             let canonicalChatId = ed_normalizeChatId deps chatId;
             cached \<leftarrow> local_gets (\<lambda>s. map_get (es_cache s)
               (buildCacheKey (er_sessionKey input) canonicalChatId));
             nowMs \<leftarrow> world_gets (ed_now deps);
             case cached of
               None \<Rightarrow> approve_elevation deps uuid input canonicalChatId
             | Some c \<Rightarrow>
                 if el_expiresAt (ce_elevation c) > nowMs
                 then do {
                   reuseAudit \<leftarrow> appendSessionAudit deps ''admin.read-elevation.reused'' input
                     (ce_elevation c) canonicalChatId;
                   State_Monad.return (Returned
                     (case reuseAudit of Inl e \<Rightarrow> Inl e | Inr _ \<Rightarrow> Inr (Some (ce_elevation c))))
                 }
                 else do {
                   expiryResult \<leftarrow> expireCachedElevation deps c (Some input);
                   case expiryResult of
                     Inl e \<Rightarrow> State_Monad.return (Returned (Inl e))
                   | Inr _ \<Rightarrow> approve_elevation deps uuid input canonicalChatId
                 }
           }))"

section \<open>Runs\<close>

definition empty_elevations :: elevation_state where
  "empty_elevations = \<lparr>es_cache = [], es_timers = [], es_disclosures = []\<rparr>"

text \<open>Requests, timers that are due, reads of the disclosure store by others, and time passing.\<close>

inductive elevation_run :: "'w elevation_deps \<Rightarrow> elevation_state \<times> 'w \<Rightarrow> bool" for deps where
  el_start: "elevation_run deps (empty_elevations, w)"
| el_request: "elevation_run deps sw \<Longrightarrow> run_state (resolveForRequest deps uuid input) sw = (r, sw') \<Longrightarrow>
    elevation_run deps sw'"
| el_timer: "elevation_run deps (s, w) \<Longrightarrow> map_get (es_timers s) k = Some (c, due) \<Longrightarrow>
    due \<le> ed_now deps w \<Longrightarrow> run_state (expireCachedElevation deps c None) (s, w) = (r, sw') \<Longrightarrow>
    elevation_run deps sw'"
| el_read: "elevation_run deps (s, w) \<Longrightarrow>
    elevation_run deps (s\<lparr>es_disclosures := snd (store_get (ed_now deps w) c (es_disclosures s))\<rparr>, w)"
| el_time: "elevation_run deps (s, w) \<Longrightarrow> ed_now deps w \<le> ed_now deps w' \<Longrightarrow> elevation_run deps (s, w')"

text \<open>
  What is relied on: the clock does not go back while a call is awaited, and refreshing the
  seals only reads the disclosure store, which may drop entries that have expired.
\<close>

definition keeps :: "('w \<Rightarrow> int) \<Rightarrow> disclosures \<times> 'w \<Rightarrow> disclosures \<times> 'w \<Rightarrow> bool" where
  "keeps now dw dw' \<longleftrightarrow>
     (case (dw, dw') of ((d, w), (d', w')) \<Rightarrow>
        now w \<le> now w' \<and> (store_ok d \<longrightarrow> store_ok d')
        \<and> (\<forall>c k x. entry d c k = Some x \<longrightarrow> dc_expiresAt x > now w' \<longrightarrow> entry d' c k = Some x))"

definition deps_ok :: "'w elevation_deps \<Rightarrow> bool" where
  "deps_ok deps \<longleftrightarrow>
     pred_option (\<lambda>(authorize, fingerprint).
        (\<forall>w. ed_now deps w \<le> ed_now deps (snd (authorize w)))
        \<and> (\<forall>w. ed_now deps w \<le> ed_now deps (snd (fingerprint w)))) (ed_approver deps)
     \<and> pred_option (\<lambda>f. \<forall>a w. ed_now deps w \<le> ed_now deps (snd (f a w))) (ed_auditLog deps)
     \<and> pred_option (\<lambda>f. \<forall>cs i d w. keeps (ed_now deps) (d, w) (snd (f cs i (d, w))))
         (ed_onDisclosureChanged deps)
     \<and> (\<forall>c. c \<noteq> [] \<longrightarrow> ed_normalizeChatId deps c \<noteq> [])"

definition lasts_until :: "cached_elevation \<Rightarrow> int \<Rightarrow> bool" where
  "lasts_until c due \<longleftrightarrow> el_expiresAt (ce_elevation c) \<le> due"

text \<open>The approver said yes, the elevation carries the fingerprint of its key and the time of that.\<close>

definition approved_by :: "'w elevation_deps \<Rightarrow> elevation \<Rightarrow> bool" where
  "approved_by deps el \<longleftrightarrow>
     (\<exists>authorize fingerprint w w'. ed_approver deps = Some (authorize, fingerprint)
        \<and> fst (authorize w) = Inr () \<and> w' = snd (authorize w)
        \<and> fst (fingerprint w') = Inr (el_approvalKeyFingerprint el)
        \<and> el_approvedAt el = ed_now deps (snd (fingerprint w')))"

definition audited :: "'w elevation_deps \<Rightarrow> string \<Rightarrow> string \<Rightarrow> bool" where
  "audited deps action target \<longleftrightarrow>
     pred_option (\<lambda>f. \<exists>e w. au_action e = action \<and> au_target e = target \<and> fst (f e w) = None)
       (ed_auditLog deps)"

definition vouched :: "'w elevation_deps \<Rightarrow> cached_elevation \<Rightarrow> bool" where
  "vouched deps c \<longleftrightarrow>
     approved_by deps (ce_elevation c) \<and> ce_chatId c \<in> range (ed_normalizeChatId deps)
     \<and> audited deps ''admin.read-elevation.approved'' (ce_chatId c)"

text \<open>
  Every cached elevation was approved and stands under its key, for one chat, for the configured
  time and with a timer for its end; while it lasts, its chat discloses it.
\<close>

definition elevations_ok :: "'w elevation_deps \<Rightarrow> elevation_state \<times> 'w \<Rightarrow> bool" where
  "elevations_ok deps sw \<longleftrightarrow>
     (case sw of (s, w) \<Rightarrow>
        store_ok (es_disclosures s)
        \<and> (\<forall>k c. map_get (es_cache s) k = Some c \<longrightarrow>
             k = cache_key c \<and> vouched deps c \<and> ce_chatId c \<noteq> [] \<and> el_chatIds (ce_elevation c) = [ce_chatId c]
             \<and> el_expiresAt (ce_elevation c) = el_approvedAt (ce_elevation c) + ed_ttlMs deps
             \<and> (\<exists>due. map_get (es_timers s) k = Some (c, due) \<and> lasts_until c due)
             \<and> (ed_disclosureStore deps \<longrightarrow> el_expiresAt (ce_elevation c) > ed_now deps w \<longrightarrow>
                  entry (es_disclosures s) (ce_chatId c) (ce_sessionKey c) = Some (disclosure_of deps c)))
        \<and> (\<forall>k c due. map_get (es_timers s) k = Some (c, due) \<longrightarrow> map_get (es_cache s) k = Some c))"

end
