(* ===== verification/ElevationSafety.thy ===== *)
theory ElevationSafety
  imports ReadElevation
begin

text \<open>
  What the read elevations guarantee: one is handed out only after a local approval for that
  session and chat and only while it lasts, and as long as it lasts the chat discloses it.
\<close>

section \<open>The disclosure store under the operations\<close>

text \<open>As \<open>keeps\<close>, but for one entry.\<close>

definition keeps_but ::
  "string \<Rightarrow> string \<Rightarrow> ('w \<Rightarrow> int) \<Rightarrow> disclosures \<times> 'w \<Rightarrow> disclosures \<times> 'w \<Rightarrow> bool" where
  "keeps_but c0 k0 now dw dw' \<longleftrightarrow>
     (case (dw, dw') of ((d, w), (d', w')) \<Rightarrow>
        now w \<le> now w' \<and> (store_ok d \<longrightarrow> store_ok d')
        \<and> (store_ok d \<longrightarrow> (\<forall>c k x. (c, k) \<noteq> (c0, k0) \<longrightarrow> entry d c k = Some x \<longrightarrow>
              dc_expiresAt x > now w' \<longrightarrow> entry d' c k = Some x)))"

lemma keeps_butI: "keeps now dw dw' \<Longrightarrow> keeps_but c k now dw dw'"
  by (auto simp: keeps_def keeps_but_def)

lemma keeps_but_trans:
  "keeps_but c k now a b \<Longrightarrow> keeps_but c k now b d \<Longrightarrow> keeps_but c k now a d"
  by (cases a; cases b; cases d) (force simp: keeps_but_def)

lemma keeps_refl [simp]: "keeps now dw dw"
  by (cases dw) (simp add: keeps_def)

lemma keeps_trans: "keeps now a b \<Longrightarrow> keeps now b c \<Longrightarrow> keeps now a c"
  by (cases a; cases b; cases c) (force simp: keeps_def)

lemma live_iff: "live now d c k = Some x \<longleftrightarrow> entry d c k = Some x \<and> dc_expiresAt x > now"
  by (auto simp: live_def split: option.split)

lemma set_keeps_but:
  assumes "store_ok d" and "store_set [c0] k0 x t d = (ch, d')" and "now w = t"
  shows "keeps_but c0 k0 now (d, w) (d', w)"
    and "c0 \<noteq> [] \<Longrightarrow> dc_expiresAt x > t \<Longrightarrow> entry d' c0 k0 = Some x"
  using store_set_ok [OF assms(1), of "[c0]" k0 x t] live_set [OF assms(1,2)] assms(2,3)
  by (auto simp: keeps_but_def live_iff [symmetric]) (metis live_iff)+

lemma delete_keeps_but:
  assumes "store_ok d" and "store_delete [c0] k0 t d = (ch, d')" and "now w = t"
  shows "keeps_but c0 k0 now (d, w) (d', w)"
  using store_delete_ok [OF assms(1), of "[c0]" k0 t] live_delete [OF assms(1,2)] assms(2,3)
  by (auto simp: keeps_but_def live_iff [symmetric]) (metis live_iff)+

lemma restore_keeps_but: "store_ok d \<Longrightarrow> keeps_but c0 k0 now (d, w) (store_restore [c0] k0 x d, w)"
  using store_restore_effect [of d "[c0]" k0 x] by (auto simp: keeps_but_def)

section \<open>The steps\<close>

lemma wp_with_store:
  "wp (with_store f) Q (s, w) \<longleftrightarrow>
    Q (fst (f (es_disclosures s))) (s\<lparr>es_disclosures := snd (f (es_disclosures s))\<rparr>, w)"
  by (simp add: wp_def with_store_def split: prod.split)

lemma wp_clearTimer [wp_simps]:
  "wp (clearExpirationTimer k) Q (s, w) \<longleftrightarrow> Q () (s\<lparr>es_timers := map_delete k (es_timers s)\<rparr>, w)"
  by (simp add: clearExpirationTimer_def wp_simps)

definition same_tables :: "elevation_state \<Rightarrow> elevation_state \<Rightarrow> bool" where
  "same_tables s s' \<longleftrightarrow> es_cache s' = es_cache s \<and> es_timers s' = es_timers s"

definition calm :: "'w elevation_deps \<Rightarrow> elevation_state \<times> 'w \<Rightarrow> elevation_state \<times> 'w \<Rightarrow> bool" where
  "calm deps sw sw' \<longleftrightarrow>
     (case (sw, sw') of ((s, w), (s', w')) \<Rightarrow>
        same_tables s s' \<and> keeps (ed_now deps) (es_disclosures s, w) (es_disclosures s', w'))"

lemma audit_calm:
  assumes "deps_ok deps"
  shows "wp (appendAudit deps action ok target detail)
    (\<lambda>r sw'. calm deps (s, w) sw' \<and> (r = Inr () \<longrightarrow> audited deps action target)) (s, w)"
proof (cases "ed_auditLog deps")
  case None
  then show ?thesis
    by (simp add: appendAudit_def wp_simps calm_def same_tables_def audited_def)
next
  case (Some f)
  let ?e = "\<lparr>au_timestamp = ed_now deps w, au_action = action, au_target = target,
      au_detail = detail, au_success = ok\<rparr>"
  have "ed_now deps w \<le> ed_now deps (snd (f ?e w))" using assms Some by (simp add: deps_ok_def)
  moreover have "fst (f ?e w) = None \<Longrightarrow> \<exists>e w. au_action e = action \<and> au_target e = target \<and> fst (f e w) = None"
    by (rule exI [of _ ?e]) auto
  ultimately show ?thesis
    by (auto simp: appendAudit_def Some wp_simps calm_def same_tables_def audited_def keeps_def
        split: option.splits)
qed

lemma notify_calm:
  assumes "deps_ok deps"
  shows "wp (notifyDisclosureChanged deps cs i) (\<lambda>r sw'. calm deps (s, w) sw') (s, w)"
proof (cases "ed_onDisclosureChanged deps")
  case None
  then show ?thesis by (simp add: notifyDisclosureChanged_def wp_simps calm_def same_tables_def)
next
  case (Some f)
  then have "keeps (ed_now deps) (es_disclosures s, w) (snd (f cs i (es_disclosures s, w)))"
    using assms by (simp add: deps_ok_def)
  then show ?thesis
    by (auto simp: notifyDisclosureChanged_def Some wp_simps calm_def same_tables_def wp_def
        split: prod.splits)
qed

text \<open>What a synchronisation of the disclosure does: it touches one entry.\<close>

definition touches ::
  "'w elevation_deps \<Rightarrow> cached_elevation \<Rightarrow> elevation_state \<times> 'w \<Rightarrow> elevation_state \<times> 'w \<Rightarrow> bool" where
  "touches deps c sw sw' \<longleftrightarrow>
     (case (sw, sw') of ((s, w), (s', w')) \<Rightarrow>
        same_tables s s'
        \<and> keeps_but (ce_chatId c) (ce_sessionKey c) (ed_now deps) (es_disclosures s, w)
            (es_disclosures s', w'))"

lemma touches_trans: "touches deps c a b \<Longrightarrow> touches deps c b d \<Longrightarrow> touches deps c a d"
  by (auto simp: touches_def same_tables_def intro: keeps_but_trans split: prod.splits)

lemma calm_touches: "calm deps a b \<Longrightarrow> touches deps c a b"
  by (auto simp: touches_def calm_def intro: keeps_butI split: prod.splits)

lemma calm_trans: "calm deps a b \<Longrightarrow> calm deps b c \<Longrightarrow> calm deps a c"
  by (auto simp: calm_def same_tables_def intro: keeps_trans split: prod.splits)

lemma touches_store_ok: "touches deps c (s, w) (s', w') \<Longrightarrow> store_ok (es_disclosures s) \<Longrightarrow> store_ok (es_disclosures s')"
  by (simp add: touches_def keeps_but_def)

lemma touches_refl [simp]: "touches deps c sw sw"
  by (cases sw) (simp add: touches_def same_tables_def keeps_butI)

text \<open>Everything an operation does for one elevation, seen from its start \<open>b\<close>.\<close>

definition near ::
  "'w elevation_deps \<Rightarrow> cached_elevation \<Rightarrow> elevation_state \<times> 'w \<Rightarrow> elevation_state \<times> 'w \<Rightarrow> bool" where
  "near deps c b sw \<longleftrightarrow> store_ok (es_disclosures (fst b)) \<and> touches deps c b sw"

lemma nearD: "near deps c b (s, w) \<Longrightarrow> store_ok (es_disclosures s)"
  by (cases b) (auto simp: near_def dest: touches_store_ok)

lemma near_refl: "store_ok (es_disclosures s) \<Longrightarrow> near deps c (s, w) (s, w)"
  by (simp add: near_def)

lemma near_calm: "near deps c b sw \<Longrightarrow> calm deps sw sw' \<Longrightarrow> near deps c b sw'"
  by (auto simp: near_def intro: touches_trans calm_touches)

lemma near_store:
  assumes "near deps c b (s, w)"
    and "keeps_but (ce_chatId c) (ce_sessionKey c) (ed_now deps) (es_disclosures s, w) (d', w)"
  shows "near deps c b (s\<lparr>es_disclosures := d'\<rparr>, w)"
proof -
  have "touches deps c (s, w) (s\<lparr>es_disclosures := d'\<rparr>, w)"
    using assms(2) by (simp add: touches_def same_tables_def)
  with assms(1) show ?thesis by (auto simp: near_def intro: touches_trans)
qed

lemma near_notify:
  assumes "deps_ok deps" and "near deps c b sw"
  shows "wp (notifyDisclosureChanged deps cs i) (\<lambda>r. near deps c b) sw"
  using wp_mono [OF notify_calm [OF assms(1), of cs i "fst sw" "snd sw"]] near_calm [OF assms(2)]
  by fastforce

lemma near_delete:
  assumes "near deps c b (s, w)"
  shows "wp (with_store (store_delete [ce_chatId c] (ce_sessionKey c) (ed_now deps w)))
    (\<lambda>r. near deps c b) (s, w)"
proof -
  obtain ch d' where d': "store_delete [ce_chatId c] (ce_sessionKey c) (ed_now deps w) (es_disclosures s) = (ch, d')"
    by fastforce
  show ?thesis using near_store [OF assms delete_keeps_but [where now = "ed_now deps", OF nearD [OF assms] d' refl]]
    by (simp add: wp_with_store d')
qed

lemma near_restore:
  assumes "near deps c b sw"
  shows "wp (with_store (\<lambda>d. ((), store_restore [ce_chatId c] (ce_sessionKey c) x d))) (\<lambda>r. near deps c b) sw"
proof -
  obtain s w where sw: "sw = (s, w)" by (cases sw)
  have n: "near deps c b (s, w)" using assms sw by simp
  show ?thesis
    using near_store [OF n restore_keeps_but [OF nearD [OF n]]] by (simp add: wp_with_store sw)
qed

lemma wp_bindI:
  "wp m (\<lambda>a. P a) s \<Longrightarrow> (\<And>a s'. P a s' \<Longrightarrow> wp (f a) Q s') \<Longrightarrow> wp (State_Monad.bind m f) Q s"
  by (auto simp: wp_simps intro: wp_mono)

lemma expiry_near:
  assumes ok: "deps_ok deps" and n: "near deps c b sw"
  shows "wp (syncDisclosureExpiry deps c) (\<lambda>r. near deps c b) sw"
proof (cases "ed_disclosureStore deps")
  case True
  obtain s w where sw: "sw = (s, w)" by (cases sw)
  have "wp (notifyDisclosureChanged deps cs False \<bind> (\<lambda>notifyResult.
      case notifyResult of
        Inl e \<Rightarrow> do {
          with_store (\<lambda>d. ((), store_restore [ce_chatId c] (ce_sessionKey c) (disclosure_of deps c) d));
          rollbackResult \<leftarrow> notifyDisclosureChanged deps [ce_chatId c] True;
          State_Monad.return
            (case rollbackResult of
               Inl rollback \<Rightarrow>
                 Inl (rollback_failed ''Failed to roll back expired admin read disclosure refresh''
                   e rollback)
             | Inr _ \<Rightarrow> Inl e)
        }
      | Inr _ \<Rightarrow> State_Monad.return (Inr ()))) (\<lambda>r. near deps c b) sw'"
    if "near deps c b sw'" for cs sw'
    by (rule wp_bindI [OF near_notify [OF ok that]])
      (auto simp: wp_simps split: sum.split intro!: wp_mono [OF near_restore] wp_mono [OF near_notify [OF ok]])
  with n show ?thesis
    unfolding syncDisclosureExpiry_def sw
    by (simp only: True not_True_eq_False if_False wp_bind wp_world_gets)
      (rule wp_mono [OF near_delete], simp_all only: wp_bind)
qed (simp add: syncDisclosureExpiry_def wp_simps n)

text \<open>The disclosure of an elevation is in place while it lasts.\<close>

definition held :: "'w elevation_deps \<Rightarrow> cached_elevation \<Rightarrow> elevation_state \<times> 'w \<Rightarrow> bool" where
  "held deps c sw \<longleftrightarrow>
     (case sw of (s, w) \<Rightarrow> ed_disclosureStore deps \<longrightarrow> el_expiresAt (ce_elevation c) > ed_now deps w \<longrightarrow>
        entry (es_disclosures s) (ce_chatId c) (ce_sessionKey c) = Some (disclosure_of deps c))"

lemma held_calm: "held deps c sw \<Longrightarrow> calm deps sw sw' \<Longrightarrow> held deps c sw'"
  by (cases sw; cases sw') (force simp: held_def calm_def keeps_def disclosure_of_def)

lemma near_set:
  assumes "near deps c b (s, w)" and "ce_chatId c \<noteq> []"
  shows "wp (with_store (store_set [ce_chatId c] (ce_sessionKey c) (disclosure_of deps c) (ed_now deps w)))
    (\<lambda>r sw'. near deps c b sw' \<and> held deps c sw') (s, w)"
proof -
  obtain ch d' where d': "store_set [ce_chatId c] (ce_sessionKey c) (disclosure_of deps c)
      (ed_now deps w) (es_disclosures s) = (ch, d')"
    by fastforce
  note k = set_keeps_but [where now = "ed_now deps", OF nearD [OF assms(1)] d' refl]
  show ?thesis using near_store [OF assms(1) k(1)] k(2) assms(2)
    by (simp add: wp_with_store d' held_def) (simp add: disclosure_of_def)
qed

lemma approval_near:
  assumes ok: "deps_ok deps" and n: "near deps c b sw" and c: "ce_chatId c \<noteq> []"
  shows "wp (syncDisclosureApproval deps c)
    (\<lambda>r sw'. near deps c b sw' \<and> (r = Inr () \<longrightarrow> held deps c sw')) sw"
proof (cases "ed_disclosureStore deps")
  case True
  obtain s w where sw: "sw = (s, w)" by (cases sw)
  have notified: "wp (notifyDisclosureChanged deps cs i) (\<lambda>r sw'. near deps c b sw' \<and> held deps c sw') sw'"
    if "near deps c b sw'" "held deps c sw'" for cs i sw'
    using wp_mono [OF notify_calm [OF ok, of cs i "fst sw'" "snd sw'"]] near_calm [OF that(1)]
      held_calm [OF that(2)] by fastforce
  have rollback: "wp (do {
            later \<leftarrow> world_gets (ed_now deps);
            rollbackChats \<leftarrow> with_store (store_delete [ce_chatId c] (ce_sessionKey c) later);
            rollbackResult \<leftarrow> notifyDisclosureChanged deps rollbackChats False;
            State_Monad.return (f rollbackResult)
          }) (\<lambda>r sw'. near deps c b sw' \<and> (r = Inr () \<longrightarrow> held deps c sw')) sw'"
    if "near deps c b sw'" and "\<And>x. f x \<noteq> Inr ()" for f sw'
  proof -
    obtain s' w' where sw': "sw' = (s', w')" by (cases sw')
    show ?thesis
      using that unfolding sw' wp_bind wp_world_gets
      by (auto intro!: wp_mono [OF near_delete] wp_mono [OF near_notify [OF ok]] simp: wp_simps)
  qed
  have "wp (notifyDisclosureChanged deps cs False \<bind> (\<lambda>notifyResult.
        case notifyResult of
          Inl e \<Rightarrow> do {
            later \<leftarrow> world_gets (ed_now deps);
            rollbackChats \<leftarrow> with_store (store_delete [ce_chatId c] (ce_sessionKey c) later);
            rollbackResult \<leftarrow> notifyDisclosureChanged deps rollbackChats False;
            State_Monad.return
              (case rollbackResult of
                 Inl rollback \<Rightarrow>
                   Inl (rollback_failed ''Failed to roll back admin read disclosure refresh'' e rollback)
               | Inr _ \<Rightarrow> Inl e)
          }
        | Inr _ \<Rightarrow> State_Monad.return (Inr ())))
      (\<lambda>r sw'. near deps c b sw' \<and> (r = Inr () \<longrightarrow> held deps c sw')) sw'"
    if "near deps c b sw' \<and> held deps c sw'" for cs sw'
    by (rule wp_bindI [OF notified [OF conjunct1 [OF that] conjunct2 [OF that]]])
      (auto simp: wp_return split: sum.splits intro!: rollback)
  with n show ?thesis
    unfolding syncDisclosureApproval_def sw
    by (simp only: True not_True_eq_False if_False wp_bind wp_world_gets)
      (rule wp_mono [OF near_set [OF _ c]], simp_all only: wp_bind)
qed (use n in \<open>auto simp: syncDisclosureApproval_def wp_simps held_def\<close>)

abbreviation dropped :: "cached_elevation \<Rightarrow> elevation_state \<Rightarrow> elevation_state" where
  "dropped c s \<equiv> s\<lparr>es_cache := map_delete (cache_key c) (es_cache s),
                es_timers := map_delete (cache_key c) (es_timers s)\<rparr>"

lemma near_audit:
  assumes "deps_ok deps" and "near deps c b sw"
  shows "wp (appendAudit deps action ok target detail) (\<lambda>r. near deps c b) sw"
  using wp_mono [OF audit_calm [OF assms(1), of action ok target detail "fst sw" "snd sw"]]
    near_calm [OF assms(2)] by fastforce

lemma expire_near:
  assumes ok: "deps_ok deps" and s: "store_ok (es_disclosures s)"
  shows "wp (expireCachedElevation deps c input) (\<lambda>r. near deps c (dropped c s, w)) (s, w)"
proof -
  have start: "near deps c (dropped c s, w) (dropped c s, w)" by (rule near_refl) (simp add: s)
  have "wp (do {
      expiredAudit \<leftarrow> appendSessionAudit deps action i (ce_elevation c) (ce_chatId c);
      case d of
        Inl e \<Rightarrow> do {
          auditResult \<leftarrow> appendAudit deps action' False (ce_chatId c) (detail e);
          State_Monad.return (case auditResult of Inl e' \<Rightarrow> Inl e' | Inr _ \<Rightarrow> Inl e)
        }
      | Inr _ \<Rightarrow> State_Monad.return expiredAudit
    }) (\<lambda>r. near deps c (dropped c s, w)) sw'" 
    if "near deps c (dropped c s, w) sw'" for action i d action' detail sw'
    unfolding appendSessionAudit_def
    by (rule wp_bindI [OF near_audit [OF ok that]])
      (auto simp: wp_simps split: sum.split intro!: wp_mono [OF near_audit [OF ok]])
  note rest = this
  have drop: "es_timers (s\<lparr>es_cache := m\<rparr>) = es_timers s" for m by simp
  show ?thesis
    unfolding expireCachedElevation_def wp_bind wp_local_modify wp_clearTimer drop
    by (rule wp_mono [OF expiry_near [OF ok start]]) (rule rest [unfolded wp_bind])
qed

section \<open>The invariant\<close>

lemma dropped_ok: "elevations_ok deps (s, w) \<Longrightarrow> elevations_ok deps (dropped c s, w)"
  by (auto simp: elevations_ok_def)

lemma near_ok:
  assumes inv: "elevations_ok deps (s, w)" and none: "map_get (es_cache s) (cache_key c) = None"
    and n: "near deps c (s, w) (s', w')"
  shows "elevations_ok deps (s', w')"
proof -
  from n have same: "es_cache s' = es_cache s" "es_timers s' = es_timers s"
    and k: "keeps_but (ce_chatId c) (ce_sessionKey c) (ed_now deps) (es_disclosures s, w) (es_disclosures s', w')"
    by (simp_all add: near_def touches_def same_tables_def)
  have "entry (es_disclosures s') (ce_chatId c') (ce_sessionKey c') = Some (disclosure_of deps c')"
    if c': "map_get (es_cache s) k' = Some c'" and "ed_disclosureStore deps"
      and live: "ed_now deps w' < el_expiresAt (ce_elevation c')" for k' c'
  proof -
    have key: "k' = cache_key c'" and "ed_now deps w < el_expiresAt (ce_elevation c') \<longrightarrow>
        entry (es_disclosures s) (ce_chatId c') (ce_sessionKey c') = Some (disclosure_of deps c')"
      using inv c' that(2) unfolding elevations_ok_def by auto
    with live k have "entry (es_disclosures s) (ce_chatId c') (ce_sessionKey c') = Some (disclosure_of deps c')"
      by (simp add: keeps_but_def)
    moreover have "(ce_chatId c', ce_sessionKey c') \<noteq> (ce_chatId c, ce_sessionKey c)"
      using none c' key by auto
    ultimately show ?thesis
      using k live inv by (simp add: keeps_but_def elevations_ok_def disclosure_of_def)
  qed
  with inv nearD [OF n] same show ?thesis by (auto simp: elevations_ok_def)
qed

lemma calm_ok:
  assumes "elevations_ok deps sw" and "calm deps sw sw'"
  shows "elevations_ok deps sw'"
proof -
  obtain s w s' w' where sw: "sw = (s, w)" "sw' = (s', w')" by (cases sw; cases sw')
  from assms(2) have same: "es_cache s' = es_cache s" "es_timers s' = es_timers s"
    and k: "keeps (ed_now deps) (es_disclosures s, w) (es_disclosures s', w')"
    by (simp_all add: calm_def same_tables_def sw)
  have "entry (es_disclosures s') (ce_chatId c) (ce_sessionKey c) = Some (disclosure_of deps c)"
    if "entry (es_disclosures s) (ce_chatId c) (ce_sessionKey c) = Some (disclosure_of deps c)"
      "ed_now deps w' < el_expiresAt (ce_elevation c)" for c
    using that k by (simp add: keeps_def disclosure_of_def)
  with assms(1) k same show ?thesis unfolding elevations_ok_def sw keeps_def by fastforce
qed

text \<open>What a granted elevation is, and that it was approved and audited.\<close>

definition granted ::
  "'w elevation_deps \<Rightarrow> elevation_request \<Rightarrow> string \<Rightarrow> elevation \<Rightarrow> elevation_state \<times> 'w \<Rightarrow> bool" where
  "granted deps input chatId el sw \<longleftrightarrow>
     el_chatIds el = [chatId] \<and> el_expiresAt el = el_approvedAt el + ed_ttlMs deps
     \<and> map_get (es_cache (fst sw)) (buildCacheKey (er_sessionKey input) chatId)
         = Some \<lparr>ce_elevation = el, ce_chatId = chatId, ce_sessionKey = er_sessionKey input\<rparr>
     \<and> approved_by deps el \<and> audited deps ''admin.read-elevation.approved'' chatId"

lemma schedule_wp [wp_simps]:
  "wp (scheduleExpiration deps c) Q (s, w) \<longleftrightarrow>
    Q () (s\<lparr>es_timers := map_set (cache_key c)
      (c, ed_now deps w + max 0 (el_expiresAt (ce_elevation c) - ed_now deps w))
      (map_delete (cache_key c) (es_timers s))\<rparr>, w)"
  by (simp add: scheduleExpiration_def wp_simps)

lemma cache_ok:
  assumes "elevations_ok deps (s, w)" and "held deps c (s, w)" and "ce_chatId c \<noteq> []"
    and "el_chatIds (ce_elevation c) = [ce_chatId c]"
    and "el_expiresAt (ce_elevation c) = el_approvedAt (ce_elevation c) + ed_ttlMs deps"
    and "lasts_until c due" and "vouched deps c"
  shows "elevations_ok deps (s\<lparr>es_cache := map_set (cache_key c) c (es_cache s),
    es_timers := map_set (cache_key c) (c, due) (map_delete (cache_key c) (es_timers s))\<rparr>, w)"
  using assms by (auto simp: elevations_ok_def held_def)

lemma record_ok:
  assumes ok: "deps_ok deps" and inv: "elevations_ok deps (s, w)"
    and none: "map_get (es_cache s) (buildCacheKey (er_sessionKey input) chatId) = None" and chat: "chatId \<noteq> []"
    and norm: "chatId \<in> range (ed_normalizeChatId deps)"
    and approval: "\<And>el. el_approvalKeyFingerprint el = fp \<Longrightarrow> el_approvedAt el = ed_now deps w \<Longrightarrow> approved_by deps el"
  shows "wp (record_elevation deps uuid input chatId fp)
    (\<lambda>r sw'. elevations_ok deps sw'
       \<and> (\<forall>el. r = Returned (Inr (Some el)) \<longrightarrow>
            granted deps input chatId el sw' \<and> el_approvedAt el = ed_now deps w)) (s, w)"
proof -
  let ?P = "\<lambda>r sw'. elevations_ok deps sw'
       \<and> (\<forall>el. r = Returned (Inr (Some el)) \<longrightarrow>
            granted deps input chatId el sw' \<and> el_approvedAt el = ed_now deps w)"
  show ?thesis
  proof (cases "to_iso (ed_now deps w + ed_ttlMs deps)")
    case (Threw e)
    with inv show ?thesis by (simp add: record_elevation_def wp_simps)
  next
    case (Returned expires)
    then have expires: "expires = ed_now deps w + ed_ttlMs deps" by simp
    define el where "el = \<lparr>el_approvalId = ''approval_'' @ filter (\<lambda>c. c \<noteq> CHR ''-'') uuid,
      el_chatIds = [chatId], el_approvedAt = ed_now deps w, el_expiresAt = expires,
      el_approvalKeyFingerprint = fp\<rparr>"
    define c where "c = \<lparr>ce_elevation = el, ce_chatId = chatId, ce_sessionKey = er_sessionKey input\<rparr>"
    have simps: "ce_chatId c = chatId" "ce_sessionKey c = er_sessionKey input" "ce_elevation c = el"
      by (simp_all add: c_def)
    have start: "near deps c (s, w) (s, w)" using inv by (intro near_refl) (simp add: elevations_ok_def)
    have fin: "elevations_ok deps (s', w')" if "near deps c (s, w) (s', w')" for s' w'
      using near_ok [OF inv _ that] none by (simp add: simps)
    have failed: "wp (appendAudit deps a False chatId detail \<bind> (\<lambda>auditResult.
        State_Monad.return (Returned (case auditResult of Inl e' \<Rightarrow> Inl e' | Inr _ \<Rightarrow> Inl e)))) ?P sw'"
      if "near deps c (s, w) sw'" for a detail e sw'
      by (rule wp_bindI [OF near_audit [OF ok that]]) (auto simp: wp_return fin split: sum.splits)
    have undone: "wp (syncDisclosureExpiry deps c \<bind> (\<lambda>rollbackResult.
        State_Monad.return (Returned (case rollbackResult of Inl e' \<Rightarrow> Inl e' | Inr _ \<Rightarrow> Inl e)))) ?P sw'"
      if "near deps c (s, w) sw'" for e sw'
      by (rule wp_bindI [OF expiry_near [OF ok that]]) (auto simp: wp_return fin split: sum.splits)
    have approved: "wp (local_modify (\<lambda>s. s\<lparr>es_cache := map_set (cache_key c) c (es_cache s)\<rparr>) \<bind> (\<lambda>_.
        scheduleExpiration deps c \<bind> (\<lambda>_. State_Monad.return (Returned (Inr (Some el)))))) ?P (s', w')"
      if "near deps c (s, w) (s', w')" and "held deps c (s', w')"
        and "audited deps ''admin.read-elevation.approved'' chatId" for s' w'
    proof -
      have "lasts_until c (ed_now deps w' + max 0 (el_expiresAt (ce_elevation c) - ed_now deps w'))"
        by (simp add: lasts_until_def)
      moreover have v: "approved_by deps el" by (rule approval) (simp_all add: el_def)
      ultimately show ?thesis
        using cache_ok [OF fin [OF that(1)] that(2)] chat norm that(3)
        by (simp add: wp_simps granted_def vouched_def simps) (simp add: el_def expires c_def)
    qed
    have after: "wp (case (r :: unit result) of
          Inl e \<Rightarrow> syncDisclosureExpiry deps c \<bind> (\<lambda>rollbackResult.
            State_Monad.return (Returned (case rollbackResult of Inl e' \<Rightarrow> Inl e' | Inr _ \<Rightarrow> Inl e)))
        | Inr _ \<Rightarrow> local_modify (\<lambda>s. s\<lparr>es_cache := map_set (cache_key c) c (es_cache s)\<rparr>) \<bind> (\<lambda>_.
            scheduleExpiration deps c \<bind> (\<lambda>_. State_Monad.return (Returned (Inr (Some el)))))) ?P sw'"
      if "near deps c (s, w) sw'" and "held deps c sw'"
        and "r = Inr () \<Longrightarrow> audited deps ''admin.read-elevation.approved'' chatId" for r sw'
      using that undone approved [of "fst sw'" "snd sw'"] by (cases r) simp_all
    have audit: "wp (appendAudit deps ''admin.read-elevation.approved'' True chatId detail)
        (\<lambda>r. wp (case r of
          Inl e \<Rightarrow> syncDisclosureExpiry deps c \<bind> (\<lambda>rollbackResult.
            State_Monad.return (Returned (case rollbackResult of Inl e' \<Rightarrow> Inl e' | Inr _ \<Rightarrow> Inl e)))
        | Inr _ \<Rightarrow> local_modify (\<lambda>s. s\<lparr>es_cache := map_set (cache_key c) c (es_cache s)\<rparr>) \<bind> (\<lambda>_.
            scheduleExpiration deps c \<bind> (\<lambda>_. State_Monad.return (Returned (Inr (Some el)))))) ?P) sw'"
      if n: "near deps c (s, w) sw'" and h: "held deps c sw'" for detail sw'
      by (rule wp_mono [OF audit_calm [OF ok, of _ _ _ _ "fst sw'" "snd sw'", simplified]])
        (rule after, auto intro: near_calm [OF n] held_calm [OF h])
    have sync: "wp (syncDisclosureApproval deps c)
        (\<lambda>r sw'. near deps c (s, w) sw' \<and> (r = Inr () \<longrightarrow> held deps c sw')) (s, w)"
      by (rule approval_near [OF ok start]) (simp add: simps chat)
    show ?thesis
      unfolding record_elevation_def wp_bind wp_world_gets Returned completion.case Let_def
        el_def [symmetric] c_def [symmetric]
    proof (rule wp_mono [OF sync], goal_cases)
      case (1 r sw')
      then show ?case
        using failed [unfolded wp_bind] audit [unfolded wp_bind] by (cases r) (simp_all add: wp_bind)
    qed
  qed
qed

lemma approve_ok:
  assumes ok: "deps_ok deps" and inv: "elevations_ok deps (s, w)"
    and none: "map_get (es_cache s) (buildCacheKey (er_sessionKey input) chatId) = None" and chat: "chatId \<noteq> []"
    and norm: "chatId \<in> range (ed_normalizeChatId deps)"
  shows "wp (approve_elevation deps uuid input chatId)
    (\<lambda>r sw'. elevations_ok deps sw'
       \<and> (\<forall>el. r = Returned (Inr (Some el)) \<longrightarrow> 
            granted deps input chatId el sw' \<and> ed_now deps w \<le> el_approvedAt el)) (s, w)"
proof (cases "ed_approver deps")
  case None
  with inv show ?thesis by (simp add: approve_elevation_def wp_simps)
next
  case (Some ap)
  obtain authorize fingerprint where ap: "ap = (authorize, fingerprint)" by (cases ap)
  have later: "elevations_ok deps (s, w') \<Longrightarrow> ed_now deps w' \<le> ed_now deps w'' \<Longrightarrow> elevations_ok deps (s, w'')"
    for w' w'' by (rule calm_ok [of _ "(s, w')"]) (auto simp: calm_def same_tables_def keeps_def)
  have time: "ed_now deps w' \<le> ed_now deps (snd (authorize w'))"
    "ed_now deps w' \<le> ed_now deps (snd (fingerprint w'))" for w'
    using ok Some ap by (auto simp: deps_ok_def)
  show ?thesis
  proof (cases "fst (authorize w)")
    case (Inl e)
    let ?w = "snd (authorize w)"
    have i: "elevations_ok deps (s, ?w)" by (rule later [OF inv time(1)])
    show ?thesis
      using Some ap Inl
      by (auto simp: approve_elevation_def wp_simps split: sum.splits
          intro!: wp_mono [OF audit_calm [OF ok]] calm_ok [OF i])
  next
    case (Inr u)
    let ?w = "snd (fingerprint (snd (authorize w)))"
    have i: "elevations_ok deps (s, ?w)" by (rule later [OF later [OF inv time(1)] time(2)])
    show ?thesis
    proof (cases "fst (fingerprint (snd (authorize w)))")
      case (Inl e)
      with i Some ap Inr show ?thesis by (simp add: approve_elevation_def wp_simps)
    next
      case (Inr fp)
      have "approved_by deps el" if "el_approvalKeyFingerprint el = fp" "el_approvedAt el = ed_now deps ?w" for el
        using that Inr \<open>fst (authorize w) = Inr u\<close> Some ap by (auto simp: approved_by_def)
      moreover have "ed_now deps w \<le> ed_now deps ?w" using time order_trans by blast
      ultimately show ?thesis
        using record_ok [OF ok i none chat norm, of fp uuid] Some ap Inr \<open>fst (authorize w) = Inr u\<close>
        by (auto simp: approve_elevation_def wp_simps elim!: wp_mono)
    qed
  qed
qed

lemma expire_ok:
  assumes ok: "deps_ok deps" and inv: "elevations_ok deps (s, w)"
  shows "wp (expireCachedElevation deps c input)
    (\<lambda>r sw'. elevations_ok deps sw' \<and> map_get (es_cache (fst sw')) (cache_key c) = None
       \<and> ed_now deps w \<le> ed_now deps (snd sw')) (s, w)"
proof -
  have start: "store_ok (es_disclosures s)" using inv by (simp add: elevations_ok_def)
  show ?thesis
  proof (rule wp_mono [OF expire_near [OF ok start, of c input w]], goal_cases)
    case (1 r sw')
    obtain s' w' where sw': "sw' = (s', w')" by (cases sw')
    have "elevations_ok deps sw'"
      using near_ok [OF dropped_ok [OF inv, of c] _ 1 [unfolded sw']] sw' by simp
    with 1 show ?case by (simp add: sw' near_def touches_def same_tables_def keeps_but_def)
  qed
qed

text \<open>The two ways to an elevation: the cached one, while it lasts, or a new one.\<close>

definition lasting ::
  "'w elevation_deps \<Rightarrow> string \<Rightarrow> elevation_state \<times> 'w \<Rightarrow> elevation option" where
  "lasting deps key sw =
     (case map_get (es_cache (fst sw)) key of
        None \<Rightarrow> None
      | Some c \<Rightarrow> if ed_now deps (snd sw) < el_expiresAt (ce_elevation c) then Some (ce_elevation c) else None)"

definition obtained ::
  "'w elevation_deps \<Rightarrow> elevation_request \<Rightarrow> string \<Rightarrow> elevation \<Rightarrow> elevation_state \<times> 'w \<Rightarrow> bool" where
  "obtained deps input chatId el sw \<longleftrightarrow>
     (case lasting deps (buildCacheKey (er_sessionKey input) chatId) sw of
        Some el' \<Rightarrow> el = el' \<and> audited deps ''admin.read-elevation.reused'' chatId
      | None \<Rightarrow> ed_now deps (snd sw) \<le> el_approvedAt el)"

lemma resolve_ok:
  assumes ok: "deps_ok deps" and inv: "elevations_ok deps (s, w)"
  shows "wp (resolveForRequest deps uuid input)
    (\<lambda>r sw'. elevations_ok deps sw'
       \<and> (\<forall>el. r = Returned (Inr (Some el)) \<longrightarrow>
            isMessageReadMethod (er_method input) \<and> wantsDangerousMessageRead (er_params input)
            \<and> (\<exists>chat c. resolveChatId (er_params input) = Some chat
                 \<and> map_get (es_cache (fst sw')) (buildCacheKey (er_sessionKey input) (ed_normalizeChatId deps chat)) = Some c
                 \<and> ce_elevation c = el \<and> obtained deps input (ed_normalizeChatId deps chat) el (s, w)))) (s, w)"
    (is "wp _ ?Q _")
proof (cases "isMessageReadMethod (er_method input) \<and> wantsDangerousMessageRead (er_params input)
    \<and> resolveChatId (er_params input) \<noteq> None")
  case False
  then show ?thesis using inv by (auto simp: resolveForRequest_def wp_simps)
next
  case True
  then obtain chat where asked: "isMessageReadMethod (er_method input)" "wantsDangerousMessageRead (er_params input)"
    and chat: "resolveChatId (er_params input) = Some chat"
    by auto
  let ?chat = "ed_normalizeChatId deps chat" and ?key = "buildCacheKey (er_sessionKey input) (ed_normalizeChatId deps chat)"
  have "chat \<noteq> []" using chat by (auto simp: resolveChatId_def split: option.splits json.splits if_splits)
  then have chat': "?chat \<noteq> []" using ok by (simp add: deps_ok_def)
  have fresh: "wp (approve_elevation deps uuid input ?chat) ?Q sw'"
    if "elevations_ok deps sw'" and "map_get (es_cache (fst sw')) ?key = None"
      and t: "ed_now deps w \<le> ed_now deps (snd sw')" and "lasting deps ?key (s, w) = None" for sw'
  proof -
    have "obtained deps input ?chat el (s, w)" if "ed_now deps (snd sw') \<le> el_approvedAt el" for el
      using that t \<open>lasting deps ?key (s, w) = None\<close> by (simp add: obtained_def)
    with approve_ok [OF ok, of "fst sw'" "snd sw'" input ?chat uuid] that chat' show ?thesis
      by (auto simp: asked chat granted_def elim!: wp_mono)
  qed
  show ?thesis
  proof (cases "map_get (es_cache s) ?key")
    case None
    with fresh [OF inv] have "wp (approve_elevation deps uuid input ?chat) ?Q (s, w)"
      by (simp add: lasting_def)
    then show ?thesis by (simp add: resolveForRequest_def asked chat wp_simps Let_def None)
  next
    case (Some c)
    have key: "?key = cache_key c" using inv Some by (simp add: elevations_ok_def)
    show ?thesis
    proof (cases "el_expiresAt (ce_elevation c) > ed_now deps w")
      case True
      have "wp (appendAudit deps ''admin.read-elevation.reused'' True ?chat detail) (\<lambda>r. ?Q
          (Returned (case r of Inl e \<Rightarrow> Inl e | Inr _ \<Rightarrow> Inr (Some (ce_elevation c))))) (s, w)" for detail
        by (rule wp_mono [OF audit_calm [OF ok]])
          (use True Some in \<open>auto simp: calm_def same_tables_def lasting_def obtained_def asked chat
            intro: calm_ok [OF inv] split: sum.splits\<close>)
      with Some True show ?thesis
        by (simp add: resolveForRequest_def asked chat wp_simps Let_def appendSessionAudit_def)
    next
      case False
      have "lasting deps ?key (s, w) = None" using Some False by (simp add: lasting_def)
      then have "wp (expireCachedElevation deps c (Some input))
          (\<lambda>r. wp (case r of Inl e \<Rightarrow> State_Monad.return (Returned (Inl e))
            | Inr _ \<Rightarrow> approve_elevation deps uuid input ?chat) ?Q) (s, w)"
      proof (intro wp_mono [OF expire_ok [OF ok inv]], goal_cases)
        case (1 r sw')
        with key fresh [of sw'] show ?case by (cases r) (simp_all add: wp_return)
      qed
      with Some False show ?thesis
        by (simp add: resolveForRequest_def asked chat wp_simps Let_def)
    qed
  qed
qed

section \<open>Runs\<close>

lemma read_calm:
  assumes "store_ok (es_disclosures s)"
  shows "calm deps (s, w) (s\<lparr>es_disclosures := snd (store_get (ed_now deps w) c (es_disclosures s))\<rparr>, w)"
  using aggregate_ok [OF assms] aggregate_entry [OF assms]
  by (auto simp: calm_def same_tables_def keeps_def store_get_def live_iff)

lemma run_ok:
  assumes "elevation_run deps sw" and ok: "deps_ok deps"
  shows "elevations_ok deps sw"
  using assms(1)
proof induction
  case (el_start w)
  show ?case by (simp add: elevations_ok_def empty_elevations_def)
next
  case (el_request sw uuid input r sw')
  obtain s w where sw: "sw = (s, w)" by (cases sw)
  with wpD [OF resolve_ok [OF ok, of s w uuid input] el_request(2) [unfolded sw]] el_request(3)
  show ?case by simp
next
  case (el_timer s w k c due r sw')
  with wpD [OF expire_ok [OF ok el_timer(5), of c None] el_timer(4)] show ?case by simp
next
  case (el_read s w c)
  have "store_ok (es_disclosures s)" using el_read(2) by (simp add: elevations_ok_def)
  from calm_ok [OF el_read(2) read_calm [OF this]] show ?case .
next
  case (el_time s w w')
  show ?case by (rule calm_ok [OF el_time(3)]) (use el_time in \<open>simp add: calm_def same_tables_def keeps_def\<close>)
qed

text \<open>The chat is what stands after the last colon.\<close>

lemma cache_key_split:
  assumes "buildCacheKey a c = buildCacheKey b d" and "CHR '':'' \<notin> set c" and "CHR '':'' \<notin> set d"
  shows "d = c" and "b = a"
proof -
  have tail: "takeWhile (\<lambda>x. x \<noteq> CHR '':'') (rev (buildCacheKey p q)) = rev q" if "CHR '':'' \<notin> set q" for p q
    using that by (auto simp: buildCacheKey_def takeWhile_append)
  from tail [OF assms(2), of a] tail [OF assms(3), of b] assms(1) have "rev d = rev c" by simp
  then show "d = c" by simp
  with assms(1) show "b = a" by (simp add: buildCacheKey_def)
qed

text \<open>Session keys hold colons themselves, so without the premise two pairs may share an entry.\<close>

lemma cache_keys_collide: "buildCacheKey ''iss:jti'' ''x:y'' = buildCacheKey ''iss:jti:x'' ''y''"
  by (simp add: buildCacheKey_def)

section \<open>A concrete run\<close>

definition elev_demo_deps :: "int elevation_deps" where
  "elev_demo_deps = \<lparr>ed_approver = Some (\<lambda>w. (Inr (), w + 1), \<lambda>w. (Inr ''fp'', w + 1)),
     ed_auditLog = Some (\<lambda>e w. (None, w)), ed_disclosureStore = True,
     ed_onDisclosureChanged = Some (\<lambda>cs i (d, w). (Inr (), d, w + 1)),
     ed_disclosureActorId = ''owner'', ed_normalizeChatId = (\<lambda>c. if CHR '':'' \<in> set c then ''other'' else c), ed_ttlMs = 100, ed_now = (\<lambda>w. w)\<rparr>"

definition demo_read :: elevation_request where
  "demo_read = \<lparr>er_method = ''message.list'',
     er_params = [(''chatId'', JStr ''c''), (''dangerouslyAllowMessageRead'', JBool True)],
     er_adminFingerprint = ''f'', er_sessionKey = ''s''\<rparr>"

lemma elev_demo_deps_ok: "deps_ok elev_demo_deps"
  by (auto simp: deps_ok_def elev_demo_deps_def keeps_def)

definition demo_elevation :: elevation where
  "demo_elevation = \<lparr>el_approvalId = ''approval_u1'', el_chatIds = [''c''], el_approvedAt = 7,
     el_expiresAt = 107, el_approvalKeyFingerprint = ''fp''\<rparr>"

abbreviation demo_cached :: cached_elevation where
  "demo_cached \<equiv> \<lparr>ce_elevation = demo_elevation, ce_chatId = ''c'', ce_sessionKey = ''s''\<rparr>"

definition demo_after :: "elevation_state \<times> int" where
  "demo_after = snd (run_state (resolveForRequest elev_demo_deps ''u-1'' demo_read) (empty_elevations, 5))"

lemma demo_read_runs:
  "case run_state (resolveForRequest elev_demo_deps ''u-1'' demo_read) (empty_elevations, 5) of
     (r, s, w) \<Rightarrow> r = Returned (Inr (Some demo_elevation)) \<and> w = 8
       \<and> map_get (es_cache s) ''s:c'' = Some demo_cached
       \<and> store_get 8 ''c'' (es_disclosures s) = (Some \<lparr>dc_operatorId = ''owner'', dc_expiresAt = 107\<rparr>, es_disclosures s)"
  by code_simp




end
