(* ===== verification/Contracts.thy ===== *)
theory Contracts
  imports ReadElevation
begin

text \<open>
  The contract of an action (packages/contracts): its specification, what the transports derive
  from it, the validation of a set of specifications, the registry and the surface map.

  A value the code types as \<open>unknown\<close> is JSON; a record of such values may also hold
  \<open>undefined\<close>, written \<open>None\<close>. A zod schema is the function its \<open>safeParse\<close> computes, a handler a
  function of input, context and the world, which may throw.
\<close>

section \<open>Specifications\<close>

datatype action_surface = SurfCli | SurfMcp | SurfHttp

definition ACTION_SURFACES :: "action_surface list" where
  "ACTION_SURFACES = [SurfCli, SurfMcp, SurfHttp]"

fun surface_name :: "action_surface \<Rightarrow> string" where
  "surface_name SurfCli = ''cli''"
| "surface_name SurfMcp = ''mcp''"
| "surface_name SurfHttp = ''http''"

datatype action_intent = IntentRead | IntentWrite | IntentDestroy

fun intent_name :: "action_intent \<Rightarrow> string" where
  "intent_name IntentRead = ''read''"
| "intent_name IntentWrite = ''write''"
| "intent_name IntentDestroy = ''destroy''"

record action_example =
  ex_name :: string
  ex_description :: "string option"
  ex_input :: json
  ex_expected :: "json option"
  ex_error :: "string option"

record cli_option =
  co_flag :: string
  co_description :: string
  co_field :: string
  co_required :: "bool option"

record cli_surface =
  cs_command :: "string option"
  cs_aliases :: "string list option"
  cs_options :: "cli_option list option"
  cs_outputFormat :: "string option"
  cs_group :: "string option"

record mcp_surface =
  ms_toolName :: "string option"
  ms_annotations :: "(string, json option) js_map option"

datatype http_method = GET | POST | DELETE

fun method_name :: "http_method \<Rightarrow> string" where
  "method_name GET = ''GET''"
| "method_name POST = ''POST''"
| "method_name DELETE = ''DELETE''"

datatype route_auth = AuthAdmin | AuthCredential

fun auth_name :: "route_auth \<Rightarrow> string" where
  "auth_name AuthAdmin = ''admin''"
| "auth_name AuthCredential = ''credential''"

text \<open>\<open>auth\<close> is required by the type and checked by the validation all the same.\<close>

record http_surface =
  hs_path :: "string option"
  hs_method :: "http_method option"
  hs_auth :: "route_auth option"
  hs_expose :: "bool option"

record handler_context =
  hc_requestId :: string
  hc_adminAuth :: "string option"
  hc_operatorId :: "string option"
  hc_credentialId :: "string option"
  hc_adminReadElevation :: "elevation option"

record zod_issue =
  zi_path :: "string list"
  zi_message :: string

type_synonym 'w handler = "json \<Rightarrow> handler_context \<Rightarrow> 'w \<Rightarrow> json result completion \<times> 'w"

record 'w action_spec =
  as_id :: string
  as_handler :: "'w handler"
  as_input :: "json \<Rightarrow> zod_issue list + json"
  as_description :: "string option"
  as_examples :: "action_example list option"
  as_intent :: "action_intent option"
  as_idempotent :: "bool option"
  as_cli :: "cli_surface option"
  as_mcp :: "mcp_surface option"
  as_http :: "http_surface option"

section \<open>Derivation\<close>

definition DEFAULT_HTTP_BASE_PATH :: string where
  "DEFAULT_HTTP_BASE_PATH = ''/v1/actions''"

definition js_space :: "char \<Rightarrow> bool" where
  "js_space c \<longleftrightarrow> (let n = (of_char c :: nat) in (9 \<le> n \<and> n \<le> 13) \<or> n = 32 \<or> n = 160)"

definition js_trim :: "string \<Rightarrow> string" where
  "js_trim s = rev (dropWhile js_space (rev (dropWhile js_space s)))"

definition replace_dots :: "char \<Rightarrow> string \<Rightarrow> string" where
  "replace_dots c s = map (\<lambda>x. if x = CHR ''.'' then c else x) s"

fun collapse_slashes :: "string \<Rightarrow> string" where
  "collapse_slashes (a # b # s) =
     (if a = CHR ''/'' \<and> b = CHR ''/'' then collapse_slashes (b # s) else a # collapse_slashes (b # s))"
| "collapse_slashes s = s"

definition with_leading_slash :: "string \<Rightarrow> string" where
  "with_leading_slash s = (if starts_with ''/'' s then s else CHR ''/'' # s)"

definition normalizeBasePath :: "string \<Rightarrow> string" where
  "normalizeBasePath basePath =
     (let trimmed = js_trim basePath in
      if trimmed = [] \<or> trimmed = ''/'' then []
      else rev (dropWhile (\<lambda>c. c = CHR ''/'') (rev (with_leading_slash trimmed))))"

definition normalizePath :: "string \<Rightarrow> string" where
  "normalizePath path =
     (let trimmed = js_trim path in
      if trimmed = [] then ''/'' else collapse_slashes (with_leading_slash trimmed))"

definition deriveCliCommand :: "'w action_spec \<Rightarrow> string" where
  "deriveCliCommand spec =
     (case Option.bind (as_cli spec) cs_command of
        Some c \<Rightarrow> c | None \<Rightarrow> replace_dots CHR '':'' (as_id spec))"

definition deriveRpcMethod :: "'w action_spec \<Rightarrow> string" where
  "deriveRpcMethod spec = as_id spec"

definition intent_of :: "'w action_spec \<Rightarrow> action_intent" where
  "intent_of spec = (case as_intent spec of Some i \<Rightarrow> i | None \<Rightarrow> IntentWrite)"

definition deriveStandardMcpAnnotations :: "'w action_spec \<Rightarrow> (string, json option) js_map" where
  "deriveStandardMcpAnnotations spec =
     (if intent_of spec = IntentRead then [(''readOnlyHint'', Some (JBool True))] else [])
     @ (if intent_of spec = IntentDestroy then [(''destructiveHint'', Some (JBool True))] else [])
     @ (if as_idempotent spec = Some True then [(''idempotentHint'', Some (JBool True))] else [])
     @ (case as_description spec of Some d \<Rightarrow> [(''title'', Some (JStr d))] | None \<Rightarrow> [])"

definition deriveMcpToolName :: "'w action_spec \<Rightarrow> string \<Rightarrow> string" where
  "deriveMcpToolName spec prefix =
     (case Option.bind (as_mcp spec) ms_toolName of
        Some n \<Rightarrow> n | None \<Rightarrow> prefix @ ''/'' @ replace_dots CHR ''/'' (as_id spec))"

definition deriveMcpAnnotations :: "'w action_spec \<Rightarrow> (string, json option) js_map" where
  "deriveMcpAnnotations spec =
     fold (\<lambda>(k, v). map_set k v) (deriveStandardMcpAnnotations spec)
       (case Option.bind (as_mcp spec) ms_annotations of Some a \<Rightarrow> a | None \<Rightarrow> [])"

definition deriveHttpMethod :: "'w action_spec \<Rightarrow> http_method" where
  "deriveHttpMethod spec =
     (case Option.bind (as_http spec) hs_method of
        Some m \<Rightarrow> m
      | None \<Rightarrow> if as_intent spec = Some IntentRead then GET else POST)"

definition deriveHttpPath :: "'w action_spec \<Rightarrow> string \<Rightarrow> string" where
  "deriveHttpPath spec basePath =
     (case Option.bind (as_http spec) hs_path of
        Some p \<Rightarrow> normalizePath p
      | None \<Rightarrow> normalizePath (normalizeBasePath basePath @ ''/'' @ replace_dots CHR ''/'' (as_id spec)))"

datatype http_input_source = SourceQuery | SourceBody

definition deriveHttpInputSource :: "http_method \<Rightarrow> http_input_source" where
  "deriveHttpInputSource m = (if m = GET then SourceQuery else SourceBody)"

section \<open>Validation\<close>

record contract_issue =
  ci_actionId :: string
  ci_rule :: string
  ci_message :: string
  ci_surface :: "action_surface option"

text \<open>The surface of an issue with the registry itself is \<open>None\<close>.\<close>

definition isHttpExposed :: "'w action_spec \<Rightarrow> bool" where
  "isHttpExposed spec \<longleftrightarrow> (case as_http spec of None \<Rightarrow> False | Some h \<Rightarrow> hs_expose h \<noteq> Some False)"

definition RESERVED_HTTP_ROUTE_PREFIXES :: "string list" where
  "RESERVED_HTTP_ROUTE_PREFIXES = [''/v1/admin/'', ''/v1/credential/'']"

definition RESERVED_HTTP_ROUTE_PATHS :: "string list" where
  "RESERVED_HTTP_ROUTE_PATHS = [''/v1/health'']"

definition action_text :: "string \<Rightarrow> string" where
  "action_text actionId = ''Action '' @ quoted actionId"

fun unique_ids_loop :: "string list \<Rightarrow> 'w action_spec list \<Rightarrow> contract_issue list" where
  "unique_ids_loop seen [] = []"
| "unique_ids_loop seen (spec # specs) =
     (if as_id spec \<in> set seen
      then \<lparr>ci_actionId = as_id spec, ci_rule = ''unique-action-id'',
             ci_message = action_text (as_id spec) @ '' is registered more than once'',
             ci_surface = None\<rparr> # unique_ids_loop seen specs
      else unique_ids_loop (as_id spec # seen) specs)"

definition validateUniqueIds :: "'w action_spec list \<Rightarrow> contract_issue list" where
  "validateUniqueIds specs = unique_ids_loop [] specs"

definition validateHttpAuth :: "'w action_spec list \<Rightarrow> contract_issue list" where
  "validateHttpAuth specs =
     List.map_filter (\<lambda>spec.
       if isHttpExposed spec \<and> Option.bind (as_http spec) hs_auth = None
       then Some \<lparr>ci_actionId = as_id spec, ci_rule = ''http-auth-required'',
              ci_message = ''HTTP-exposed action '' @ quoted (as_id spec) @ '' must declare http.auth'',
              ci_surface = Some SurfHttp\<rparr>
       else None) specs"

definition routeKey :: "'w action_spec \<Rightarrow> string" where
  "routeKey spec =
     method_name (deriveHttpMethod spec) @ '' '' @ deriveHttpPath spec DEFAULT_HTTP_BASE_PATH"

fun unique_routes_loop ::
  "(string, string) js_map \<Rightarrow> 'w action_spec list \<Rightarrow> contract_issue list" where
  "unique_routes_loop seenRoutes [] = []"
| "unique_routes_loop seenRoutes (spec # specs) =
     (if \<not> isHttpExposed spec then unique_routes_loop seenRoutes specs
      else case map_get seenRoutes (routeKey spec) of
             Some existingId \<Rightarrow>
               \<lparr>ci_actionId = as_id spec, ci_rule = ''unique-http-route'',
                ci_message = action_text (as_id spec) @ '' collides with '' @ quoted existingId
                  @ '' on derived route '' @ routeKey spec,
                ci_surface = Some SurfHttp\<rparr> # unique_routes_loop seenRoutes specs
           | None \<Rightarrow> unique_routes_loop (map_set (routeKey spec) (as_id spec) seenRoutes) specs)"

definition validateUniqueHttpRoutes :: "'w action_spec list \<Rightarrow> contract_issue list" where
  "validateUniqueHttpRoutes specs = unique_routes_loop [] specs"

definition validateReservedHttpRoutes :: "'w action_spec list \<Rightarrow> contract_issue list" where
  "validateReservedHttpRoutes specs =
     List.map_filter (\<lambda>spec.
       let path = deriveHttpPath spec DEFAULT_HTTP_BASE_PATH;
           collidesWithPrefix = find_first (\<lambda>prefix. starts_with prefix path) RESERVED_HTTP_ROUTE_PREFIXES;
           collidesWithExactPath = (path \<in> set RESERVED_HTTP_ROUTE_PATHS)
       in if \<not> isHttpExposed spec \<or> (collidesWithPrefix = None \<and> \<not> collidesWithExactPath) then None
          else Some \<lparr>ci_actionId = as_id spec, ci_rule = ''reserved-http-route'',
             ci_message = action_text (as_id spec) @ '' derives reserved HTTP path '' @ quoted path
               @ (case collidesWithPrefix of Some p \<Rightarrow> '' under '' @ quoted p | None \<Rightarrow> []),
             ci_surface = Some SurfHttp\<rparr>) specs"

definition STANDARD_BOOLEAN_MCP_ANNOTATION_KEYS :: "string list" where
  "STANDARD_BOOLEAN_MCP_ANNOTATION_KEYS = [''readOnlyHint'', ''destructiveHint'', ''idempotentHint'']"

definition STANDARD_MCP_ANNOTATION_KEYS :: "string list" where
  "STANDARD_MCP_ANNOTATION_KEYS =
     [''readOnlyHint'', ''destructiveHint'', ''idempotentHint'', ''title'']"

definition json_shown :: "json option \<Rightarrow> string" where
  "json_shown v = (case v of None \<Rightarrow> ''undefined'' | Some j \<Rightarrow> stringify j)"

text \<open>A key that is absent and one that holds \<open>undefined\<close> read the same; \<open>in\<close> tells them apart.\<close>

definition annotation_value :: "(string, json option) js_map \<Rightarrow> string \<Rightarrow> json option" where
  "annotation_value a key = (case map_get a key of Some v \<Rightarrow> v | None \<Rightarrow> None)"

definition annotation_conflict ::
  "(string, json option) js_map \<Rightarrow> (string, json option) js_map \<Rightarrow> string \<Rightarrow> bool" where
  "annotation_conflict authored derived key \<longleftrightarrow>
     map_get authored key \<noteq> None
     \<and> \<not> (key \<in> set STANDARD_BOOLEAN_MCP_ANNOTATION_KEYS
           \<and> annotation_value authored key = Some (JBool False)
           \<and> annotation_value derived key = None)
     \<and> annotation_value authored key \<noteq> annotation_value derived key"

definition validateMcpAnnotations :: "'w action_spec list \<Rightarrow> contract_issue list" where
  "validateMcpAnnotations specs =
     concat (map (\<lambda>spec.
       case Option.bind (as_mcp spec) ms_annotations of
         None \<Rightarrow> []
       | Some authored \<Rightarrow>
           let derived = deriveStandardMcpAnnotations spec in
           map (\<lambda>key. \<lparr>ci_actionId = as_id spec, ci_rule = ''mcp-annotation-consistency'',
                  ci_message = action_text (as_id spec) @ '' authors MCP annotation '' @ quoted key @ '' as ''
                    @ json_shown (annotation_value authored key) @ '', but the derived value is ''
                    @ json_shown (annotation_value derived key),
                  ci_surface = Some SurfMcp\<rparr>)
             (filter (annotation_conflict authored derived) STANDARD_MCP_ANNOTATION_KEYS)) specs)"

text \<open>The issues stand in the context of a \<open>ValidationError\<close> on \<open>actionRegistry\<close>.\<close>

definition validateActionSpecs :: "'w action_spec list \<Rightarrow> contract_issue list + unit" where
  "validateActionSpecs specs =
     (let issues = validateUniqueIds specs @ validateHttpAuth specs @ validateUniqueHttpRoutes specs
            @ validateReservedHttpRoutes specs @ validateMcpAnnotations specs
      in if length issues = 0 then Inr () else Inl issues)"

section \<open>The registry\<close>

type_synonym 'w registry = "(string, 'w action_spec) js_map"

datatype register_failure = AlreadyRegistered string | InvalidContract "contract_issue list"

definition registry_register :: "'w action_spec \<Rightarrow> 'w registry \<Rightarrow> register_failure + 'w registry" where
  "registry_register spec specs =
     (if map_get specs (as_id spec) \<noteq> None then Inl (AlreadyRegistered (as_id spec))
      else case validateActionSpecs (map_values specs @ [spec]) of
             Inl issues \<Rightarrow> Inl (InvalidContract issues)
           | Inr _ \<Rightarrow> Inr (map_set (as_id spec) spec specs))"

definition registry_lookup :: "string \<Rightarrow> 'w registry \<Rightarrow> 'w action_spec option" where
  "registry_lookup actionId specs = map_get specs actionId"

definition registry_list :: "'w registry \<Rightarrow> 'w action_spec list" where
  "registry_list specs = map_values specs"

fun has_surface :: "'w action_spec \<Rightarrow> action_surface \<Rightarrow> bool" where
  "has_surface spec SurfCli = (as_cli spec \<noteq> None)"
| "has_surface spec SurfMcp = (as_mcp spec \<noteq> None)"
| "has_surface spec SurfHttp = (as_http spec \<noteq> None)"

definition listForSurface :: "action_surface \<Rightarrow> 'w registry \<Rightarrow> 'w action_spec list" where
  "listForSurface surface specs =
     (if surface \<notin> set ACTION_SURFACES then []
      else filter (\<lambda>spec. has_surface spec surface) (map_values specs))"

definition registry_validate :: "'w registry \<Rightarrow> contract_issue list + unit" where
  "registry_validate specs = validateActionSpecs (map_values specs)"

definition registry_size :: "'w registry \<Rightarrow> nat" where
  "registry_size specs = length specs"

inductive registry_built :: "'w registry \<Rightarrow> bool" where
  rb_new: "registry_built []"
| rb_register: "registry_built specs \<Longrightarrow> registry_register spec specs = Inr specs' \<Longrightarrow> registry_built specs'"

section \<open>The surface map\<close>

text \<open>An object literal: the fields that are not \<open>undefined\<close>, as \<open>JSON.stringify\<close> keeps them.\<close>

definition object :: "(string \<times> json option) list \<Rightarrow> json" where
  "object fs = JObj (List.map_filter (\<lambda>(k, v). map_option (Pair k) v) fs)"

definition deepSortKeys :: "json \<Rightarrow> json" where
  "deepSortKeys value = sortKeys value"

fun isSurfaceExposed :: "'w action_spec \<Rightarrow> action_surface \<Rightarrow> bool" where
  "isSurfaceExposed spec SurfHttp = isHttpExposed spec"
| "isSurfaceExposed spec surface = has_surface spec surface"

definition getSurfaces :: "'w action_spec \<Rightarrow> string list" where
  "getSurfaces spec = sort (map surface_name (filter (isSurfaceExposed spec) ACTION_SURFACES))"

fun source_name :: "http_input_source \<Rightarrow> string" where
  "source_name SourceQuery = ''query''"
| "source_name SourceBody = ''body''"

definition cli_entry :: "'w action_spec \<Rightarrow> cli_surface \<Rightarrow> json" where
  "cli_entry spec cli = deepSortKeys (object
     [(''command'', Some (JStr (deriveCliCommand spec))), (''rpcMethod'', Some (JStr (deriveRpcMethod spec))),
      (''aliases'', map_option (\<lambda>as. JArr (map JStr as)) (cs_aliases cli)),
      (''outputFormat'', map_option JStr (cs_outputFormat cli)), (''group'', map_option JStr (cs_group cli))])"

definition mcp_entry :: "'w action_spec \<Rightarrow> json" where
  "mcp_entry spec = deepSortKeys (object
     [(''toolName'', Some (JStr (deriveMcpToolName spec ''signet''))),
      (''annotations'', Some (object (deriveMcpAnnotations spec)))])"

definition http_entry :: "'w action_spec \<Rightarrow> http_surface \<Rightarrow> json" where
  "http_entry spec http = deepSortKeys (object
     [(''method'', Some (JStr (method_name (deriveHttpMethod spec)))),
      (''path'', Some (JStr (deriveHttpPath spec DEFAULT_HTTP_BASE_PATH))),
      (''inputSource'', Some (JStr (source_name (deriveHttpInputSource (deriveHttpMethod spec))))),
      (''auth'', map_option (\<lambda>a. JStr (auth_name a)) (hs_auth http))])"

definition toEntry :: "'w action_spec \<Rightarrow> json" where
  "toEntry spec = deepSortKeys (object
     ([(''exampleCount'', Some (JNum (case as_examples spec of Some es \<Rightarrow> int (length es) | None \<Rightarrow> 0))),
       (''id'', Some (JStr (as_id spec))), (''intent'', Some (JStr (intent_name (intent_of spec)))),
       (''surfaces'', Some (JArr (map JStr (getSurfaces spec))))]
      @ [(''description'', map_option JStr (as_description spec)),
         (''idempotent'', if as_idempotent spec = Some True then Some (JBool True) else None),
         (''cli'', map_option (cli_entry spec) (as_cli spec)),
         (''mcp'', map_option (\<lambda>_. mcp_entry spec) (as_mcp spec)),
         (''http'', if isHttpExposed spec then map_option (http_entry spec) (as_http spec) else None)]))"

record surface_map =
  sm_generatedAt :: int
  sm_entries :: "(string \<times> json) list"

text \<open>The entries with the ids they are sorted by; \<open>version\<close> is the constant 1.0.\<close>

definition generateActionSurfaceMap ::
  "(string \<Rightarrow> string) \<Rightarrow> int \<Rightarrow> 'w action_spec list \<Rightarrow> surface_map" where
  "generateActionSurfaceMap collate now specs =
     \<lparr>sm_generatedAt = now,
      sm_entries = sort_key (\<lambda>(i, _). collate i) (map (\<lambda>spec. (as_id spec, toEntry spec)) specs)\<rparr>"

definition hashActionSurfaceMap :: "(string \<Rightarrow> string) \<Rightarrow> surface_map \<Rightarrow> string" where
  "hashActionSurfaceMap sha256 m =
     sha256 (stringify (deepSortKeys (JObj
       [(''version'', JStr ''1.0''), (''entries'', JArr (map snd (sm_entries m)))])))"

section \<open>Paths\<close>

lemma collapse_hd: "s \<noteq> [] \<Longrightarrow> collapse_slashes s \<noteq> [] \<and> hd (collapse_slashes s) = hd s"
  by (induction s rule: collapse_slashes.induct) auto

fun no_double_slash :: "string \<Rightarrow> bool" where
  "no_double_slash (a # b # s) \<longleftrightarrow> \<not> (a = CHR ''/'' \<and> b = CHR ''/'') \<and> no_double_slash (b # s)"
| "no_double_slash s \<longleftrightarrow> True"

lemma no_double_slash_Cons:
  "no_double_slash (a # s) \<longleftrightarrow> (s = [] \<or> \<not> (a = CHR ''/'' \<and> hd s = CHR ''/'')) \<and> no_double_slash s"
  by (cases s) auto

lemma collapse_no_double: "no_double_slash (collapse_slashes s)"
proof (induction s rule: collapse_slashes.induct)
  case (1 a b s)
  with collapse_hd [of "b # s"] show ?case by (auto simp: no_double_slash_Cons)
qed auto

definition path_normal :: "string \<Rightarrow> bool" where
  "path_normal p \<longleftrightarrow> p \<noteq> [] \<and> hd p = CHR ''/'' \<and> no_double_slash p"

lemma normalizePath_normal: "path_normal (normalizePath p)"
proof -
  have "with_leading_slash t \<noteq> [] \<and> hd (with_leading_slash t) = CHR ''/''" for t
    by (cases t) (auto simp: with_leading_slash_def starts_with_def)
  with collapse_hd collapse_no_double show ?thesis
    by (auto simp: path_normal_def normalizePath_def Let_def)
qed

lemma deriveHttpPath_normal: "path_normal (deriveHttpPath spec base)"
  by (simp add: deriveHttpPath_def normalizePath_normal split: option.split)

section \<open>What the validation accepts\<close>

definition http_route :: "'w action_spec \<Rightarrow> http_method \<times> string" where
  "http_route spec = (deriveHttpMethod spec, deriveHttpPath spec DEFAULT_HTTP_BASE_PATH)"

definition reserved_path :: "string \<Rightarrow> bool" where
  "reserved_path p \<longleftrightarrow>
     starts_with ''/v1/admin/'' p \<or> starts_with ''/v1/credential/'' p \<or> p = ''/v1/health''"

definition annotations_consistent :: "'w action_spec \<Rightarrow> bool" where
  "annotations_consistent spec \<longleftrightarrow>
     (\<forall>authored key. Option.bind (as_mcp spec) ms_annotations = Some authored \<longrightarrow>
        key \<in> set STANDARD_MCP_ANNOTATION_KEYS \<longrightarrow>
        \<not> annotation_conflict authored (deriveStandardMcpAnnotations spec) key)"

definition contract_ok :: "'w action_spec list \<Rightarrow> bool" where
  "contract_ok specs \<longleftrightarrow>
     distinct (map as_id specs)
     \<and> distinct (map http_route (filter isHttpExposed specs))
     \<and> (\<forall>spec \<in> set specs. isHttpExposed spec \<longrightarrow>
          Option.bind (as_http spec) hs_auth \<noteq> None
          \<and> \<not> reserved_path (deriveHttpPath spec DEFAULT_HTTP_BASE_PATH))
     \<and> (\<forall>spec \<in> set specs. annotations_consistent spec)"

lemma unique_ids_iff:
  "unique_ids_loop seen specs = [] \<longleftrightarrow> distinct (map as_id specs) \<and> set seen \<inter> as_id ` set specs = {}"
  by (induction seen specs rule: unique_ids_loop.induct) auto

lemma method_name_inj: "method_name a @ CHR '' '' # p = method_name b @ CHR '' '' # q \<Longrightarrow> a = b \<and> p = q"
  by (cases a; cases b) auto

lemma routeKey_iff: "routeKey a = routeKey b \<longleftrightarrow> http_route a = http_route b"
  by (auto simp: routeKey_def http_route_def dest: method_name_inj)

lemma unique_routes_iff:
  "unique_routes_loop seen specs = [] \<longleftrightarrow>
     distinct (map http_route (filter isHttpExposed specs))
     \<and> (\<forall>spec \<in> set specs. isHttpExposed spec \<longrightarrow> map_get seen (routeKey spec) = None)"
proof (induction seen specs rule: unique_routes_loop.induct)
  case (2 seen spec specs)
  then show ?case
    by (cases "map_get seen (routeKey spec)") (auto simp: routeKey_iff image_iff split: if_splits)
qed simp

lemma map_filter_empty: "List.map_filter f xs = [] \<longleftrightarrow> (\<forall>x \<in> set xs. f x = None)"
  by (induction xs) (auto simp: List.map_filter_simps split: option.split)

lemma reserved_iff:
  "validateReservedHttpRoutes specs = [] \<longleftrightarrow>
     (\<forall>spec \<in> set specs. isHttpExposed spec \<longrightarrow> \<not> reserved_path (deriveHttpPath spec DEFAULT_HTTP_BASE_PATH))"
  by (auto simp: validateReservedHttpRoutes_def map_filter_empty Let_def find_first_None
      reserved_path_def RESERVED_HTTP_ROUTE_PREFIXES_def RESERVED_HTTP_ROUTE_PATHS_def)

lemma annotations_iff:
  "validateMcpAnnotations specs = [] \<longleftrightarrow> (\<forall>spec \<in> set specs. annotations_consistent spec)"
  by (auto simp: validateMcpAnnotations_def annotations_consistent_def Let_def filter_empty_conv
      split: option.splits)

lemma validate_iff: "validateActionSpecs specs = Inr () \<longleftrightarrow> contract_ok specs"
proof -
  have "validateActionSpecs specs = Inr () \<longleftrightarrow> validateUniqueIds specs = [] \<and> validateHttpAuth specs = []
      \<and> validateUniqueHttpRoutes specs = [] \<and> validateReservedHttpRoutes specs = []
      \<and> validateMcpAnnotations specs = []"
    by (simp add: validateActionSpecs_def Let_def)
  moreover have "validateHttpAuth specs = [] \<longleftrightarrow>
      (\<forall>spec \<in> set specs. isHttpExposed spec \<longrightarrow> Option.bind (as_http spec) hs_auth \<noteq> None)"
    by (auto simp: validateHttpAuth_def map_filter_empty)
  ultimately show ?thesis
    by (auto simp: validateUniqueIds_def unique_ids_iff validateUniqueHttpRoutes_def unique_routes_iff
        reserved_iff annotations_iff contract_ok_def)
qed

section \<open>Registrations\<close>

lemma unique_ids_last:
  "unique_ids_loop seen specs = [] \<Longrightarrow> i \<in> set (unique_ids_loop seen (specs @ [spec])) \<Longrightarrow>
    ci_actionId i = as_id spec"
  by (induction seen specs rule: unique_ids_loop.induct) (auto split: if_splits)

lemma unique_routes_last:
  "unique_routes_loop seen specs = [] \<Longrightarrow> i \<in> set (unique_routes_loop seen (specs @ [spec])) \<Longrightarrow>
    ci_actionId i = as_id spec"
  by (induction seen specs rule: unique_routes_loop.induct) (auto split: if_splits option.splits)

lemma map_filter_append: "List.map_filter f (xs @ ys) = List.map_filter f xs @ List.map_filter f ys"
  by (induction xs) (auto simp: List.map_filter_simps split: option.split)

lemma auth_last:
  "validateHttpAuth specs = [] \<Longrightarrow> i \<in> set (validateHttpAuth (specs @ [spec])) \<Longrightarrow> ci_actionId i = as_id spec"
  by (auto simp: validateHttpAuth_def map_filter_append List.map_filter_simps split: if_splits)

lemma reserved_last:
  "validateReservedHttpRoutes specs = [] \<Longrightarrow> i \<in> set (validateReservedHttpRoutes (specs @ [spec])) \<Longrightarrow>
    ci_actionId i = as_id spec"
  by (auto simp: validateReservedHttpRoutes_def map_filter_append List.map_filter_simps Let_def split: if_splits)

lemma annotations_last:
  "validateMcpAnnotations specs = [] \<Longrightarrow> i \<in> set (validateMcpAnnotations (specs @ [spec])) \<Longrightarrow>
    ci_actionId i = as_id spec"
  by (auto simp: validateMcpAnnotations_def Let_def split: option.splits)

lemma issues_last:
  assumes "contract_ok specs" and "validateActionSpecs (specs @ [spec]) = Inl issues" and "i \<in> set issues"
  shows "ci_actionId i = as_id spec"
proof -
  have "validateActionSpecs specs = Inr ()" using assms(1) by (simp add: validate_iff)
  then have none: "validateUniqueIds specs = []" "validateHttpAuth specs = []" "validateUniqueHttpRoutes specs = []"
    "validateReservedHttpRoutes specs = []" "validateMcpAnnotations specs = []"
    by (simp_all add: validateActionSpecs_def Let_def split: if_splits)
  have "issues = validateUniqueIds (specs @ [spec]) @ validateHttpAuth (specs @ [spec])
      @ validateUniqueHttpRoutes (specs @ [spec]) @ validateReservedHttpRoutes (specs @ [spec])
      @ validateMcpAnnotations (specs @ [spec])"
    using assms(2) by (simp add: validateActionSpecs_def Let_def split: if_splits)
  with assms(3) consider "i \<in> set (validateUniqueIds (specs @ [spec]))" | "i \<in> set (validateHttpAuth (specs @ [spec]))"
    | "i \<in> set (validateUniqueHttpRoutes (specs @ [spec]))" | "i \<in> set (validateReservedHttpRoutes (specs @ [spec]))"
    | "i \<in> set (validateMcpAnnotations (specs @ [spec]))" by auto
  then show ?thesis
    using none unique_ids_last unique_routes_last auth_last reserved_last annotations_last
    by cases (auto simp: validateUniqueIds_def validateUniqueHttpRoutes_def)
qed

definition actions_ok :: "'w registry \<Rightarrow> bool" where
  "actions_ok specs \<longleftrightarrow>
     map_wf specs \<and> (\<forall>(i, spec) \<in> set specs. as_id spec = i) \<and> contract_ok (map_values specs)"

lemma map_values_fresh: "map_get m k = None \<Longrightarrow> map_values (map_set k v m) = map_values m @ [v]"
  by (simp add: map_set_fresh map_values_def)

lemma register_cases:
  "registry_register spec specs = Inr specs' \<longleftrightarrow>
     map_get specs (as_id spec) = None \<and> contract_ok (map_values specs @ [spec])
     \<and> specs' = specs @ [(as_id spec, spec)]"
  by (auto simp: registry_register_def validate_iff map_set_fresh split: sum.splits) (metis validate_iff sum.distinct(1))+

lemma built_ok: "registry_built specs \<Longrightarrow> actions_ok specs"
proof (induction rule: registry_built.induct)
  case rb_new
  show ?case by (simp add: actions_ok_def contract_ok_def map_values_def)
next
  case (rb_register specs spec specs')
  then have r: "map_get specs (as_id spec) = None" "contract_ok (map_values specs @ [spec])"
    "specs' = map_set (as_id spec) spec specs" "specs' = specs @ [(as_id spec, spec)]"
    by (auto simp: register_cases map_set_fresh)
  have "map_wf specs'" using rb_register.IH r(3) by (simp add: actions_ok_def)
  with rb_register.IH r(2) show ?case unfolding r(4) by (auto simp: actions_ok_def map_values_def)
qed

lemma listed_exposed:
  "filter isHttpExposed (listForSurface SurfHttp specs) = filter isHttpExposed (map_values specs)"
  by (auto simp: listForSurface_def ACTION_SURFACES_def isHttpExposed_def intro!: filter_cong split: option.splits)

lemma listed_subset: "set (listForSurface surface specs) \<subseteq> set (map_values specs)"
  by (auto simp: listForSurface_def)

text \<open>
  C38. Whatever is registered, in whatever order, the registry is well formed: every action stands
  under its own id, the set of actions validates, and every action exposed over HTTP has an
  authentication and a route of its own, whose path starts with a slash, has no empty segment
  inside and lies outside the paths the server keeps for itself; the annotations an author wrote
  agree with the derived ones.
\<close>

theorem registry_well_formed:
  assumes "registry_built specs"
  shows "map_wf specs
    \<and> (\<forall>i spec. registry_lookup i specs = Some spec \<longrightarrow> as_id spec = i)
    \<and> registry_validate specs = Inr ()
    \<and> distinct (map http_route (filter isHttpExposed (listForSurface SurfHttp specs)))
    \<and> (\<forall>spec \<in> set (listForSurface SurfHttp specs). isHttpExposed spec \<longrightarrow>
         Option.bind (as_http spec) hs_auth \<noteq> None
         \<and> path_normal (deriveHttpPath spec DEFAULT_HTTP_BASE_PATH)
         \<and> \<not> reserved_path (deriveHttpPath spec DEFAULT_HTTP_BASE_PATH))
    \<and> (\<forall>spec \<in> set (registry_list specs). annotations_consistent spec)"
proof -
  have ok: "actions_ok specs" by (rule built_ok [OF assms])
  then have "as_id spec = i" if "registry_lookup i specs = Some spec" for i spec
    using that by (auto simp: actions_ok_def registry_lookup_def map_entry_iff [symmetric])
  with ok listed_subset [of SurfHttp specs] show ?thesis
    by (auto simp: actions_ok_def registry_validate_def validate_iff listed_exposed contract_ok_def
        deriveHttpPath_normal registry_list_def)
qed

definition demo_spec :: "string \<Rightarrow> action_intent option \<Rightarrow> http_surface option \<Rightarrow> 'w action_spec" where
  "demo_spec i intent http =
     \<lparr>as_id = i, as_handler = (\<lambda>x c w. (Returned (Inr x), w)), as_input = Inr, as_description = None,
      as_examples = None, as_intent = intent, as_idempotent = None, as_cli = None, as_mcp = None,
      as_http = http\<rparr>"

definition admin_http :: "string option \<Rightarrow> http_surface" where
  "admin_http path = \<lparr>hs_path = path, hs_method = None, hs_auth = Some AuthAdmin, hs_expose = None\<rparr>"

definition demo_actions :: "'w registry" where
  "demo_actions =
     [(''seal.list'', demo_spec ''seal.list'' (Some IntentRead) (Some (admin_http None))),
      (''seal.list2'', demo_spec ''seal.list2'' None (Some (admin_http (Some ''/v1/actions//seal/list''))))]"

lemma demo_actions_built: "registry_built (demo_actions :: 'w registry)"
proof -
  let ?a = "demo_spec ''seal.list'' (Some IntentRead) (Some (admin_http None)) :: 'w action_spec"
  let ?b = "demo_spec ''seal.list2'' None (Some (admin_http (Some ''/v1/actions//seal/list''))) :: 'w action_spec"
  have "validateActionSpecs [?a] = Inr ()" "validateActionSpecs [?a, ?b] = Inr ()" by code_simp+
  then have "registry_register ?a [] = Inr [(''seal.list'', ?a)]"
    "registry_register ?b [(''seal.list'', ?a)] = Inr demo_actions"
    by (simp_all add: register_cases validate_iff map_values_def)
      (simp_all add: demo_spec_def demo_actions_def map_get_def)
  from rb_register [OF rb_register [OF rb_new this(1)] this(2)] show ?thesis .
qed

theorem registry_well_formed_witness:
  "registry_validate (demo_actions :: unit registry) = Inr ()
   \<and> map http_route (filter isHttpExposed (listForSurface SurfHttp (demo_actions :: unit registry)))
     = [(GET, ''/v1/actions/seal/list''), (POST, ''/v1/actions/seal/list'')]"
  by (rule conjI) (use registry_well_formed [OF demo_actions_built [where 'w = unit]] in blast, code_simp)

text \<open>
  A registration fails without any effect, or appends the action. It fails because the id is
  taken, or because the registered actions together with the new one break the contract, and then
  every reported issue names the new action.
\<close>

theorem register_exact:
  assumes "registry_built specs"
  shows "case registry_register spec specs of
      Inr specs' \<Rightarrow> registry_lookup (as_id spec) specs = None \<and> specs' = specs @ [(as_id spec, spec)]
        \<and> contract_ok (registry_list specs @ [spec])
    | Inl (AlreadyRegistered i) \<Rightarrow> i = as_id spec \<and> registry_lookup i specs \<noteq> None
    | Inl (InvalidContract issues) \<Rightarrow> registry_lookup (as_id spec) specs = None
        \<and> \<not> contract_ok (registry_list specs @ [spec]) \<and> issues \<noteq> []
        \<and> (\<forall>i \<in> set issues. ci_actionId i = as_id spec)"
proof (cases "registry_register spec specs")
  case (Inr specs')
  with register_cases [of spec specs specs'] show ?thesis
    by (simp add: registry_lookup_def registry_list_def)
next
  case (Inl e)
  have ok: "contract_ok (map_values specs)" using built_ok [OF assms] by (simp add: actions_ok_def)
  show ?thesis
  proof (cases "map_get specs (as_id spec)")
    case None
    with Inl obtain issues where i: "validateActionSpecs (map_values specs @ [spec]) = Inl issues"
      "e = InvalidContract issues"
      by (auto simp: registry_register_def split: sum.splits)
    moreover have "\<not> contract_ok (map_values specs @ [spec])" using i(1) validate_iff [of "map_values specs @ [spec]"] by simp
    moreover have "issues \<noteq> []" using i(1) by (auto simp: validateActionSpecs_def Let_def split: if_splits)
    ultimately show ?thesis
      using Inl None issues_last [OF ok i(1)] by (simp add: registry_lookup_def registry_list_def)
  qed (use Inl in \<open>auto simp: registry_register_def registry_lookup_def\<close>)
qed

definition stray_spec :: "unit action_spec" where
  "stray_spec = demo_spec ''steal'' None (Some (admin_http (Some '' v1//health'')))"

theorem register_exact_witness:
  "registry_lookup ''steal'' (demo_actions :: unit registry) = None
   \<and> \<not> contract_ok (registry_list demo_actions @ [stray_spec])
   \<and> (\<exists>issues. registry_register stray_spec demo_actions = Inl (InvalidContract issues)
         \<and> map ci_rule issues = [''reserved-http-route''] \<and> map ci_actionId issues = [''steal''])"
proof -
  have r: "case registry_register stray_spec demo_actions of
      Inl (InvalidContract issues) \<Rightarrow> map ci_rule issues = [''reserved-http-route'']
        \<and> map ci_actionId issues = [''steal'']
    | _ \<Rightarrow> False" by code_simp
  have i: "as_id stray_spec = ''steal''" by (simp add: stray_spec_def demo_spec_def)
  show ?thesis
    using register_exact [OF demo_actions_built, of stray_spec] r i
    by (auto split: sum.splits register_failure.splits)
qed

section \<open>The surface map does not depend on the order of registration\<close>

theorem surface_map_order_independent:
  assumes "mset specs = mset specs'" and "distinct (map as_id specs)"
    and "inj_on collate (as_id ` set specs)"
  shows "sm_entries (generateActionSurfaceMap collate now specs) = sm_entries (generateActionSurfaceMap collate now' specs')
    \<and> hashActionSurfaceMap sha256 (generateActionSurfaceMap collate now specs)
        = hashActionSurfaceMap sha256 (generateActionSurfaceMap collate now' specs')"
proof -
  let ?e = "\<lambda>spec. (as_id spec, toEntry spec)" and ?key = "\<lambda>(i, _ :: json). collate i"
  have "inj_on ?key (set (map ?e specs))"
    using assms(2,3) by (force simp: inj_on_def distinct_map)
  moreover have "mset (map ?e specs) = mset (map ?e specs')" using assms(1) by simp
  ultimately have "sort_key ?key (map ?e specs) = sort_key ?key (map ?e specs')"
    by (intro sort_key_inj_key_eq) simp_all
  then show ?thesis by (simp add: generateActionSurfaceMap_def hashActionSurfaceMap_def)
qed

end
