(* ===== verification/Jwt.thy ===== *)
theory Jwt
  imports Encoding
begin

text \<open>
  The tokens of the admin key (packages/keys/src/jwt.ts): compact EdDSA-signed JWTs.

  \<open>JSON.parse\<close>, \<open>TextDecoder\<close> and Ed25519 are the host's, the fields of \<open>jwt_host\<close>. A number
  of a parsed text that is not an integer is none of the values of \<open>json\<close>; the schema refuses
  it like any other value of the wrong type. Times are seconds.
\<close>

section \<open>Types\<close>

record jwt_payload =
  jp_iss :: string
  jp_iat :: int
  jp_exp :: int
  jp_jti :: string

record jwt_config =
  jc_defaultTtlSeconds :: int
  jc_maxTtlSeconds :: int
  jc_clockSkewSeconds :: int

definition default_jwt_config :: jwt_config where
  "default_jwt_config =
     \<lparr>jc_defaultTtlSeconds = 120, jc_maxTtlSeconds = 3600, jc_clockSkewSeconds = 30\<rparr>"

definition jwt_payload_json :: "jwt_payload \<Rightarrow> json" where
  "jwt_payload_json p = JObj [(''iss'', JStr (jp_iss p)), (''sub'', JStr ''admin''), (''iat'', JNum (jp_iat p)),
     (''exp'', JNum (jp_exp p)), (''jti'', JStr (jp_jti p))]"

definition jwt_header :: json where
  "jwt_header = JObj [(''alg'', JStr ''EdDSA''), (''typ'', JStr ''JWT'')]"

record ('sk, 'pk) jwt_host =
  jh_decode :: "8 word list \<Rightarrow> string"
  jh_parse :: "string \<Rightarrow> json option"
  jh_import :: "8 word list \<Rightarrow> 'pk option"
  jh_verify :: "'pk \<Rightarrow> 8 word list \<Rightarrow> 8 word list \<Rightarrow> bool option"
  jh_sign :: "'sk \<Rightarrow> 8 word list \<Rightarrow> string + 8 word list"

section \<open>Base64url\<close>

definition url_char :: "char \<Rightarrow> char" where
  "url_char c = (if c = CHR ''+'' then CHR ''-'' else if c = CHR ''/'' then CHR ''_'' else c)"

definition plain_char :: "char \<Rightarrow> char" where
  "plain_char c = (if c = CHR ''-'' then CHR ''+'' else if c = CHR ''_'' then CHR ''/'' else c)"

definition base64urlEncode :: "8 word list \<Rightarrow> string" where
  "base64urlEncode data =
     (if length data = 0 then []
      else rev (dropWhile (\<lambda>c. c = CHR ''='') (rev (map url_char (btoa (from_bytes data))))))"

definition base64urlDecode :: "string \<Rightarrow> 8 word list option" where
  "base64urlDecode str =
     (if str = [] then Some []
      else map_option to_bytes
        (atob (map plain_char (str @ replicate ((4 - length str mod 4) mod 4) CHR ''=''))))"

section \<open>Encoding and decoding\<close>

definition encodeJwt :: "json \<Rightarrow> json \<Rightarrow> string" where
  "encodeJwt header payload =
     base64urlEncode (utf8 (stringify header)) @ ''.'' @ base64urlEncode (utf8 (stringify payload))"

definition decode_part :: "('sk, 'pk) jwt_host \<Rightarrow> string \<Rightarrow> json option" where
  "decode_part host part =
     Option.bind (base64urlDecode part) (\<lambda>bytes. jh_parse host (jh_decode host bytes))"

definition jwt_error :: "string \<Rightarrow> string \<Rightarrow> signet_error" where
  "jwt_error field reason = ValidationError field reason []"

definition decodeJwt :: "('sk, 'pk) jwt_host \<Rightarrow> string \<Rightarrow> (json \<times> json) result" where
  "decodeJwt host headerPayload =
     (case split_on CHR ''.'' headerPayload of
        [headerPart, payloadPart] \<Rightarrow>
          (case (decode_part host headerPart, decode_part host payloadPart) of
             (Some header, Some payload) \<Rightarrow> Inr (header, payload)
           | _ \<Rightarrow> Inl (jwt_error ''jwt'' ''Invalid base64url encoding''))
      | _ \<Rightarrow> Inl (jwt_error ''jwt'' ''Expected 2 parts (header.payload)''))"

section \<open>Signing and verifying\<close>

definition signJwt :: "('sk, 'pk) jwt_host \<Rightarrow> 'sk \<Rightarrow> jwt_payload \<Rightarrow> string result" where
  "signJwt host privateKey payload =
     (let headerPayload = encodeJwt jwt_header (jwt_payload_json payload) in
      case jh_sign host privateKey (utf8 headerPayload) of
        Inl cause \<Rightarrow> Inl (InternalError ''Failed to sign JWT'' (Some [(''cause'', CtxStr cause)]))
      | Inr signature \<Rightarrow> Inr (headerPayload @ ''.'' @ base64urlEncode signature))"

text \<open>Reading a property of a parsed value: \<open>null\<close> has none to read.\<close>

fun json_prop :: "json \<Rightarrow> string \<Rightarrow> json option completion" where
  "json_prop JNull key = Threw TypeError"
| "json_prop (JObj fs) key = Returned (map_of fs key)"
| "json_prop _ key = Returned None"

text \<open>A value in a template literal: an object with a \<open>toString\<close> of its own, which no parsed value
  can call, does not convert.\<close>

fun json_text :: "json \<Rightarrow> string completion"
  and json_items :: "json list \<Rightarrow> string list completion" where
  "json_text JNull = Returned ''null''"
| "json_text (JBool b) = Returned (if b then ''true'' else ''false'')"
| "json_text (JNum i) = Returned (show_int i)"
| "json_text (JStr s) = Returned s"
| "json_text (JArr vs) =
     (case json_items vs of Returned ts \<Rightarrow> Returned (join_with '','' ts) | Threw e \<Rightarrow> Threw e)"
| "json_text (JObj fs) =
     (if map_of fs ''toString'' = None then Returned ''[object Object]'' else Threw TypeError)"
| "json_items [] = Returned []"
| "json_items (v # vs) =
     (case (if v = JNull then Returned [] else json_text v) of
        Threw e \<Rightarrow> Threw e
      | Returned t \<Rightarrow> (case json_items vs of Returned ts \<Rightarrow> Returned (t # ts) | Threw e \<Rightarrow> Threw e))"

definition template_text :: "json option \<Rightarrow> string completion" where
  "template_text v = (case v of None \<Rightarrow> Returned ''undefined'' | Some j \<Rightarrow> json_text j)"

fun parse_jwt_payload :: "json \<Rightarrow> jwt_payload option" where
  "parse_jwt_payload (JObj fs) =
     (case (map_of fs ''iss'', map_of fs ''sub'', map_of fs ''iat'', map_of fs ''exp'', map_of fs ''jti'') of
        (Some (JStr iss), Some (JStr sub), Some (JNum iat), Some (JNum expires), Some (JStr jti)) \<Rightarrow>
          if sub = ''admin'' \<and> iat > 0 \<and> expires > 0
          then Some \<lparr>jp_iss = iss, jp_iat = iat, jp_exp = expires, jp_jti = jti\<rparr>
          else None
      | _ \<Rightarrow> None)"
| "parse_jwt_payload _ = None"

text \<open>From the import of the key on.\<close>

definition check_signature ::
  "('sk, 'pk) jwt_host \<Rightarrow> int \<Rightarrow> int \<Rightarrow> string \<Rightarrow> string \<Rightarrow> 8 word list \<Rightarrow> jwt_payload \<Rightarrow> jwt_payload result" where
  "check_signature host clockSkew now headerPayload sigPart publicKeyBytes payload =
     (case jh_import host publicKeyBytes of
        None \<Rightarrow> Inl (AuthError ''Failed to import admin public key'' None)
      | Some publicKey \<Rightarrow>
          (case base64urlDecode sigPart of
             None \<Rightarrow> Inl (jwt_error ''jwt.signature'' ''Invalid base64url signature'')
           | Some sigBytes \<Rightarrow>
               if jh_verify host publicKey sigBytes (utf8 headerPayload) \<noteq> Some True
               then Inl (AuthError ''Invalid admin token signature'' None)
               else if jp_exp payload \<le> now - clockSkew
               then Inl (AuthError ''Admin token expired'' None)
               else if jp_iat payload > now + clockSkew
               then Inl (jwt_error ''jwt.iat'' ''Token issued in future'')
               else Inr payload))"

definition verifyJwt ::
  "('sk, 'pk) jwt_host \<Rightarrow> int \<Rightarrow> int \<Rightarrow> string \<Rightarrow> 8 word list \<Rightarrow> jwt_payload result completion" where
  "verifyJwt host clockSkew now token publicKeyBytes =
     (case split_on CHR ''.'' token of
        [headerPart, payloadPart, sigPart] \<Rightarrow>
          (let headerPayload = headerPart @ ''.'' @ payloadPart in
           case decodeJwt host headerPayload of
             Inl e \<Rightarrow> Returned (Inl e)
           | Inr (header, payload) \<Rightarrow>
               (case json_prop header ''alg'' of
                  Threw e \<Rightarrow> Threw e
                | Returned alg \<Rightarrow>
                    if alg \<noteq> Some (JStr ''EdDSA'')
                    then (case template_text alg of
                            Threw e \<Rightarrow> Threw e
                          | Returned t \<Rightarrow>
                              Returned (Inl (jwt_error ''jwt.header.alg'' (''Expected EdDSA, got '' @ t))))
                    else (case parse_jwt_payload payload of
                            None \<Rightarrow> Returned (Inl (jwt_error ''jwt.payload'' ''Invalid JWT payload schema''))
                          | Some p \<Rightarrow>
                              Returned (check_signature host clockSkew now headerPayload sigPart publicKeyBytes p))))
      | _ \<Rightarrow> Returned (Inl (jwt_error ''jwt'' ''Malformed JWT: expected 3 parts'')))"

definition DEFAULT_CLOCK_SKEW :: int where
  "DEFAULT_CLOCK_SKEW = 30"

section \<open>Base64url is a round trip\<close>

definition b64_body :: "8 word list \<Rightarrow> string" where
  "b64_body bs = map b64_char (b64_digits (map of_char (from_bytes bs)))"

lemma btoa_body: "btoa (from_bytes bs) = b64_body bs @ replicate (pad_count (length bs)) CHR ''=''"
  by (simp add: btoa_def b64_encode_digits b64_body_def) (simp add: from_bytes_def)

lemma body_chars: "c \<in> set (b64_body bs) \<Longrightarrow> c \<in> set b64_alphabet"
proof -
  have "list_all (\<lambda>d. d < 64) (b64_digits (map of_char (from_bytes bs)))"
    by (rule b64_digits_small) (simp add: list_all_iff)
  then show "c \<in> set (b64_body bs) \<Longrightarrow> c \<in> set b64_alphabet"
    by (auto simp: b64_body_def list_all_iff)
qed

lemma url_alphabet:
  "c \<in> set b64_alphabet \<Longrightarrow> plain_char (url_char c) = c \<and> url_char c \<noteq> CHR ''='' \<and> url_char c \<noteq> CHR ''.''"
proof -
  have "list_all (\<lambda>c. plain_char (url_char c) = c \<and> url_char c \<noteq> CHR ''='' \<and> url_char c \<noteq> CHR ''.'') b64_alphabet"
    by code_simp
  then show "c \<in> set b64_alphabet \<Longrightarrow> plain_char (url_char c) = c \<and> url_char c \<noteq> CHR ''='' \<and> url_char c \<noteq> CHR ''.''"
    by (simp add: list_all_iff)
qed

lemma body_url: "\<forall>c \<in> set (map url_char (b64_body bs)). c \<noteq> CHR ''='' \<and> c \<noteq> CHR ''.''"
  using url_alphabet body_chars by simp

lemma dropWhile_none: "\<forall>x \<in> set xs. \<not> P x \<Longrightarrow> dropWhile P xs = xs"
  by (cases xs) auto

lemma dropWhile_replicate: "P x \<Longrightarrow> dropWhile P (replicate n x @ xs) = dropWhile P xs"
  by (induction n) auto

lemma encode_body: "base64urlEncode bs = map url_char (b64_body bs)"
proof (cases "bs = []")
  case True
  then show ?thesis by (simp add: base64urlEncode_def b64_body_def from_bytes_def)
next
  case False
  let ?u = "map url_char (b64_body bs)"
  have "url_char CHR ''='' = CHR ''=''" by (simp add: url_char_def)
  then have "rev (map url_char (btoa (from_bytes bs)))
      = replicate (pad_count (length bs)) CHR ''='' @ rev ?u"
    by (simp add: btoa_body)
  moreover have "dropWhile (\<lambda>c. c = CHR ''='') (rev ?u) = rev ?u"
    using body_url [of bs] by (intro dropWhile_none) simp
  ultimately show ?thesis using False by (simp add: base64urlEncode_def dropWhile_replicate)
qed

lemma encode_no_dot: "CHR ''.'' \<notin> set (base64urlEncode bs)"
  using body_url [of bs] by (auto simp: encode_body)

lemma body_length: "length (b64_body bs) = length bs + (length bs + 2) div 3"
  by (simp add: b64_body_def b64_digits_length from_bytes_def)

lemma body_padding: "(4 - length (b64_body bs) mod 4) mod 4 = pad_count (length bs)"
proof -
  have "length (b64_body bs) mod 4 = (4 - pad_count (length bs)) mod 4"
    using pad_length [of "length bs"] by (simp add: body_length)
  moreover have "pad_count (length bs) \<in> {0, 1, 2}" by (auto simp: pad_count_def)
  ultimately show ?thesis by auto
qed

lemma base64url_roundtrip [simp]: "base64urlDecode (base64urlEncode bs) = Some bs"
proof (cases "bs = []")
  case True
  then show ?thesis by (simp add: base64urlEncode_def base64urlDecode_def)
next
  case False
  have "map plain_char (map url_char (b64_body bs)) = b64_body bs"
    using url_alphabet body_chars by (simp add: map_idI)
  then have "map (\<lambda>c. plain_char (url_char c)) (b64_body bs) = b64_body bs" by (simp add: comp_def)
  moreover have "plain_char CHR ''='' = CHR ''=''" by (simp add: plain_char_def)
  moreover have "b64_body bs \<noteq> []" using False body_length [of bs] by auto
  ultimately show ?thesis
    using atob_btoa [of "from_bytes bs"] body_padding [of bs]
    by (simp add: base64urlDecode_def encode_body btoa_body comp_def)
qed

section \<open>Splitting\<close>

lemma split_on_not_Nil [simp]: "split_on d s \<noteq> []"
  by (induction s) (auto split: list.split)

lemma split_on_plain: "d \<notin> set s \<Longrightarrow> split_on d s = [s]"
  by (induction s) auto

lemma split_on_append: "d \<notin> set s \<Longrightarrow> split_on d (s @ d # t) = s # split_on d t"
  by (induction s) auto

lemma split_on_parts:
  "split_on d s = ps \<Longrightarrow> (\<forall>p \<in> set ps. d \<notin> set p) \<and> s = join_with [d] ps"
proof (induction s arbitrary: ps)
  case (Cons c s)
  obtain q qs where q: "split_on d s = q # qs" by (cases "split_on d s") auto
  from Cons.IH [OF q] Cons.prems q show ?case by (cases qs) (auto split: if_splits)
qed simp

lemma split_on_iff:
  "split_on d s = ps \<longleftrightarrow> ps \<noteq> [] \<and> (\<forall>p \<in> set ps. d \<notin> set p) \<and> s = join_with [d] ps"
proof
  show "split_on d s = ps \<Longrightarrow> ps \<noteq> [] \<and> (\<forall>p \<in> set ps. d \<notin> set p) \<and> s = join_with [d] ps"
    using split_on_parts by force
next
  have "ps \<noteq> [] \<Longrightarrow> \<forall>p \<in> set ps. d \<notin> set p \<Longrightarrow> split_on d (join_with [d] ps) = ps" for ps
    by (induction "[d]" ps rule: join_with.induct) (auto simp: split_on_plain split_on_append)
  then show "ps \<noteq> [] \<and> (\<forall>p \<in> set ps. d \<notin> set p) \<and> s = join_with [d] ps \<Longrightarrow> split_on d s = ps" by blast
qed

section \<open>Properties\<close>

lemma decodeJwt_two:
  assumes "CHR ''.'' \<notin> set h" and "CHR ''.'' \<notin> set pl"
  shows "decodeJwt host (h @ ''.'' @ pl) =
    (case (decode_part host h, decode_part host pl) of
       (Some header, Some payload) \<Rightarrow> Inr (header, payload)
     | _ \<Rightarrow> Inl (jwt_error ''jwt'' ''Invalid base64url encoding''))"
  using assms by (simp add: decodeJwt_def split_on_append split_on_plain)

lemma check_signature_iff:
  "check_signature host skew now hp sg pkb p = Inr p' \<longleftrightarrow>
     p' = p \<and> (\<exists>pk sigBytes. jh_import host pkb = Some pk \<and> base64urlDecode sg = Some sigBytes
        \<and> jh_verify host pk sigBytes (utf8 hp) = Some True
        \<and> now - skew < jp_exp p \<and> jp_iat p \<le> now + skew)"
  by (auto simp: check_signature_def not_less split: option.splits)

lemma verifyJwt_iff:
  "verifyJwt host skew now token publicKeyBytes = Returned (Inr p) \<longleftrightarrow>
     (\<exists>h pl sg header payload pk sigBytes.
        CHR ''.'' \<notin> set h \<and> CHR ''.'' \<notin> set pl \<and> CHR ''.'' \<notin> set sg
        \<and> token = h @ ''.'' @ pl @ ''.'' @ sg
        \<and> decode_part host h = Some header \<and> json_prop header ''alg'' = Returned (Some (JStr ''EdDSA''))
        \<and> decode_part host pl = Some payload \<and> parse_jwt_payload payload = Some p
        \<and> jh_import host publicKeyBytes = Some pk \<and> base64urlDecode sg = Some sigBytes
        \<and> jh_verify host pk sigBytes (utf8 (h @ ''.'' @ pl)) = Some True
        \<and> now - skew < jp_exp p \<and> jp_iat p \<le> now + skew)"
    (is "_ \<longleftrightarrow> (\<exists>h pl sg header payload pk sigBytes. ?P h pl sg header payload pk sigBytes)")
proof
  assume v: "verifyJwt host skew now token publicKeyBytes = Returned (Inr p)"
  then obtain h pl sg where parts: "split_on CHR ''.'' token = [h, pl, sg]"
    by (auto simp: verifyJwt_def split: list.splits)
  then have t: "CHR ''.'' \<notin> set h" "CHR ''.'' \<notin> set pl" "CHR ''.'' \<notin> set sg"
    "token = h @ ''.'' @ pl @ ''.'' @ sg"
    by (simp_all add: split_on_iff)
  from v parts obtain header payload where d: "decode_part host h = Some header" "decode_part host pl = Some payload"
    by (auto simp: verifyJwt_def decodeJwt_two [OF t(1,2), simplified] Let_def split: option.splits)
  with v parts obtain p' where "json_prop header ''alg'' = Returned (Some (JStr ''EdDSA''))"
      "parse_jwt_payload payload = Some p'"
      "check_signature host skew now (h @ ''.'' @ pl) sg publicKeyBytes p' = Inr p"
    by (auto simp: verifyJwt_def decodeJwt_two [OF t(1,2), simplified] Let_def
        split: completion.splits if_splits option.splits)
  with t d show "\<exists>h pl sg header payload pk sigBytes. ?P h pl sg header payload pk sigBytes"
    unfolding check_signature_iff by blast
next
  assume "\<exists>h pl sg header payload pk sigBytes. ?P h pl sg header payload pk sigBytes"
  then obtain h pl sg header payload pk sigBytes where r: "?P h pl sg header payload pk sigBytes" by blast
  then have "split_on CHR ''.'' token = [h, pl, sg]" by (simp add: split_on_append split_on_plain)
  with r show "verifyJwt host skew now token publicKeyBytes = Returned (Inr p)"
    by (simp add: verifyJwt_def decodeJwt_two [simplified] check_signature_iff)
qed

lemma parse_payload_json: "jp_iat p > 0 \<Longrightarrow> jp_exp p > 0 \<Longrightarrow> parse_jwt_payload (jwt_payload_json p) = Some p"
  by (simp add: jwt_payload_json_def)

lemma signed_verifies:
  assumes parse: "\<And>j. j = jwt_header \<or> j = jwt_payload_json p \<Longrightarrow>
      jh_parse host (jh_decode host (utf8 (stringify j))) = Some j"
    and keys: "jh_import host publicKeyBytes = Some pk"
      "\<And>data signature. jh_sign host sk data = Inr signature \<Longrightarrow> jh_verify host pk signature data = Some True"
    and times: "jp_iat p > 0" "jp_exp p > 0" "now - skew < jp_exp p" "jp_iat p \<le> now + skew"
    and token: "signJwt host sk p = Inr token"
  shows "verifyJwt host skew now token publicKeyBytes = Returned (Inr p)"
proof -
  define h where "h = base64urlEncode (utf8 (stringify jwt_header))"
  define pl where "pl = base64urlEncode (utf8 (stringify (jwt_payload_json p)))"
  from token obtain signature where s: "jh_sign host sk (utf8 (h @ ''.'' @ pl)) = Inr signature"
    "token = h @ ''.'' @ pl @ ''.'' @ base64urlEncode signature"
    by (auto simp: signJwt_def encodeJwt_def Let_def h_def pl_def split: sum.splits)
  have "decode_part host h = Some jwt_header" "decode_part host pl = Some (jwt_payload_json p)"
    using parse by (simp_all add: decode_part_def h_def pl_def)
  moreover have "json_prop jwt_header ''alg'' = Returned (Some (JStr ''EdDSA''))" by (simp add: jwt_header_def)
  moreover have "CHR ''.'' \<notin> set h" "CHR ''.'' \<notin> set pl" by (simp_all add: h_def pl_def encode_no_dot)
  ultimately show ?thesis
    using s keys(1) keys(2) [OF s(1)] times parse_payload_json [OF times(1,2)] encode_no_dot base64url_roundtrip
    unfolding verifyJwt_iff by blast
qed

definition demo_jwt :: jwt_payload where
  "demo_jwt = \<lparr>jp_iss = ''ab'', jp_iat = 100, jp_exp = 220, jp_jti = ''01''\<rparr>"

definition jwt_demo_host :: "(unit, unit) jwt_host" where
  "jwt_demo_host = \<lparr>jh_decode = from_bytes,
     jh_parse = (\<lambda>t. if t = stringify jwt_header then Some jwt_header
                     else if t = stringify (jwt_payload_json demo_jwt) then Some (jwt_payload_json demo_jwt)
                     else if t = ''null'' then Some JNull else None),
     jh_import = (\<lambda>k. Some ()), jh_verify = (\<lambda>k signature data. Some (signature = rev data)),
     jh_sign = (\<lambda>k data. Inr (rev data))\<rparr>"

lemma demo_parse: "j = jwt_header \<or> j = jwt_payload_json demo_jwt \<Longrightarrow>
    jh_parse jwt_demo_host (jh_decode jwt_demo_host (utf8 (stringify j))) = Some j"
proof -
  have "from_bytes (utf8 (stringify jwt_header)) = stringify jwt_header"
    "from_bytes (utf8 (stringify (jwt_payload_json demo_jwt))) = stringify (jwt_payload_json demo_jwt)"
    "stringify (jwt_payload_json demo_jwt) \<noteq> stringify jwt_header"
    by code_simp+
  then show "j = jwt_header \<or> j = jwt_payload_json demo_jwt \<Longrightarrow>
    jh_parse jwt_demo_host (jh_decode jwt_demo_host (utf8 (stringify j))) = Some j"
    by (auto simp: jwt_demo_host_def)
qed

lemma demo_token:
  "\<exists>token. signJwt jwt_demo_host () demo_jwt = Inr token
     \<and> verifyJwt jwt_demo_host DEFAULT_CLOCK_SKEW 249 token [] = Returned (Inr demo_jwt)"
proof -
  obtain token where t: "signJwt jwt_demo_host () demo_jwt = Inr token"
    by (auto simp: signJwt_def Let_def jwt_demo_host_def)
  have "verifyJwt jwt_demo_host DEFAULT_CLOCK_SKEW 249 token [] = Returned (Inr demo_jwt)"
    by (rule signed_verifies [OF demo_parse _ _ _ _ _ _ t])
      (simp_all add: jwt_demo_host_def demo_jwt_def DEFAULT_CLOCK_SKEW_def)
  with t show ?thesis by blast
qed

text \<open>
  C37. A token is accepted exactly when it has three parts, its header names EdDSA, its payload has
  the admin claims, its signature over the first two parts verifies under the admin key, it has
  not expired for longer than the tolerated skew and was not issued further in the future; the
  claims returned are those of the signed payload.
\<close>

theorem jwt_accepted_iff:
  "verifyJwt host skew now token publicKeyBytes = Returned (Inr p) \<longleftrightarrow>
     (\<exists>h pl sg header payload pk sigBytes.
        CHR ''.'' \<notin> set h \<and> CHR ''.'' \<notin> set pl \<and> CHR ''.'' \<notin> set sg
        \<and> token = h @ ''.'' @ pl @ ''.'' @ sg
        \<and> decode_part host h = Some header \<and> json_prop header ''alg'' = Returned (Some (JStr ''EdDSA''))
        \<and> decode_part host pl = Some payload \<and> parse_jwt_payload payload = Some p
        \<and> jh_import host publicKeyBytes = Some pk \<and> base64urlDecode sg = Some sigBytes
        \<and> jh_verify host pk sigBytes (utf8 (h @ ''.'' @ pl)) = Some True
        \<and> now - skew < jp_exp p \<and> jp_iat p \<le> now + skew)"
  by (rule verifyJwt_iff)

text \<open>
  A token the admin key signs is accepted under its public key for as long as it lasts, skew
  included, with the claims that were signed.
\<close>

theorem jwt_roundtrip:
  assumes parse: "\<And>j. j = jwt_header \<or> j = jwt_payload_json p \<Longrightarrow>
      jh_parse host (jh_decode host (utf8 (stringify j))) = Some j"
    and keys: "jh_import host publicKeyBytes = Some pk"
      "\<And>data signature. jh_sign host sk data = Inr signature \<Longrightarrow> jh_verify host pk signature data = Some True"
    and times: "jp_iat p > 0" "jp_exp p > 0" "now - skew < jp_exp p" "jp_iat p \<le> now + skew"
    and token: "signJwt host sk p = Inr token"
  shows "verifyJwt host skew now token publicKeyBytes = Returned (Inr p)"
  by (rule signed_verifies [OF assms])

theorem jwt_roundtrip_witness:
  "\<exists>token. signJwt jwt_demo_host () demo_jwt = Inr token
     \<and> verifyJwt jwt_demo_host DEFAULT_CLOCK_SKEW 249 token [] = Returned (Inr demo_jwt)"
proof -
  obtain token where t: "signJwt jwt_demo_host () demo_jwt = Inr token"
    by (auto simp: signJwt_def Let_def jwt_demo_host_def)
  have "verifyJwt jwt_demo_host DEFAULT_CLOCK_SKEW 249 token [] = Returned (Inr demo_jwt)"
    by (rule jwt_roundtrip [OF demo_parse _ _ _ _ _ _ t])
      (simp_all add: jwt_demo_host_def demo_jwt_def DEFAULT_CLOCK_SKEW_def)
  with t show ?thesis by blast
qed

text \<open>A token without a signature whose header is \<open>null\<close> is not refused: the call throws.\<close>

lemma null_header_throws:
  assumes "CHR ''.'' \<notin> set h" and "CHR ''.'' \<notin> set pl" and "CHR ''.'' \<notin> set sg"
    and "decode_part host h = Some JNull" and "decode_part host pl = Some payload"
  shows "verifyJwt host skew now (h @ ''.'' @ pl @ ''.'' @ sg) publicKeyBytes = Threw TypeError"
  using assms by (simp add: verifyJwt_def split_on_append split_on_plain decodeJwt_two [simplified])

end
