(* ===== verification/AdminServer.thy ===== *)
theory AdminServer
  imports Contracts Jwt
begin

text \<open>
  The admin surface of the daemon: the dispatcher of JSON-RPC methods to actions
  (packages/cli/src/admin/dispatcher.ts) and the server on the Unix socket
  (packages/cli/src/admin/server.ts, protocol.ts).

  A connection handles its lines without waiting for one another: a line runs to its first
  awaited call, and each call resumes it later, in any order. A line in flight is a
  \<open>pending\<close> of its connection. \<open>JSON.parse\<close>, the verification of a token and the handlers are
  calls of the world.
\<close>

section \<open>The dispatcher\<close>

definition buildMethodMap :: "'w registry \<Rightarrow> (string, 'w action_spec) js_map" where
  "buildMethodMap registry =
     fold (\<lambda>spec m. if as_cli spec = None then m else map_set (deriveRpcMethod spec) spec m)
       (listForSurface SurfCli registry) []"

definition makeMeta :: "('w \<Rightarrow> int) \<Rightarrow> handler_context \<Rightarrow> int \<Rightarrow> 'w \<Rightarrow> action_meta" where
  "makeMeta now ctx startMs w =
     \<lparr>am_requestId = hc_requestId ctx, am_timestamp = now w, am_durationMs = now w - startMs\<rparr>"

definition getSpec :: "(string, 'w action_spec) js_map \<Rightarrow> string \<Rightarrow> 'w action_spec result" where
  "getSpec methodMap m =
     (case map_get methodMap m of None \<Rightarrow> Inl (NotFoundError ''Method'' m) | Some spec \<Rightarrow> Inr spec)"

definition validateParams :: "'w action_spec \<Rightarrow> json \<Rightarrow> json result" where
  "validateParams spec params =
     (case as_input spec params of
        Inl issues \<Rightarrow> Inl (ValidationError ''params''
          (join_with ''; '' (map (\<lambda>i. join_with ''.'' (zi_path i) @ '': '' @ zi_message i) issues)) [])
      | Inr data \<Rightarrow> Inr data)"

definition dispatcher_validate :: "'w registry \<Rightarrow> string \<Rightarrow> json \<Rightarrow> json result" where
  "dispatcher_validate registry m params =
     (case getSpec (buildMethodMap registry) m of
        Inl e \<Rightarrow> Inl e
      | Inr spec \<Rightarrow> validateParams spec params)"

fun exn_text :: "js_exn \<Rightarrow> string" where
  "exn_text RangeError = ''RangeError''"
| "exn_text TypeError = ''TypeError''"
| "exn_text SyntaxError = ''SyntaxError''"
| "exn_text (HostError e) = e"

text \<open>A handler that throws is answered with an InternalError that carries the message.\<close>

definition call_handler :: "'w action_spec \<Rightarrow> json \<Rightarrow> handler_context \<Rightarrow> 'w \<Rightarrow> json result \<times> 'w" where
  "call_handler spec params ctx w =
     (case as_handler spec params ctx w of
        (Returned r, w') \<Rightarrow> (r, w')
      | (Threw e, w') \<Rightarrow> (Inl (InternalError (''Handler threw: '' @ exn_text e) None), w'))"

definition dispatchValidated ::
  "('w \<Rightarrow> int) \<Rightarrow> 'w registry \<Rightarrow> string \<Rightarrow> json \<Rightarrow> handler_context \<Rightarrow> 'w \<Rightarrow> json action_result \<times> 'w" where
  "dispatchValidated now registry m params ctx w =
     (let startMs = now w in
      case getSpec (buildMethodMap registry) m of
        Inl e \<Rightarrow> (toActionResult (Inl e) (makeMeta now ctx startMs w) None, w)
      | Inr spec \<Rightarrow>
          (case call_handler spec params ctx w of
             (r, w') \<Rightarrow> (toActionResult r (makeMeta now ctx startMs w') None, w')))"

definition dispatcher_dispatch ::
  "('w \<Rightarrow> int) \<Rightarrow> 'w registry \<Rightarrow> string \<Rightarrow> json \<Rightarrow> handler_context \<Rightarrow> 'w \<Rightarrow> json action_result \<times> 'w" where
  "dispatcher_dispatch now registry m params ctx w =
     (case dispatcher_validate registry m params of
        Inl e \<Rightarrow> (toActionResult (Inl e) (makeMeta now ctx (now w) w) None, w)
      | Inr data \<Rightarrow> dispatchValidated now registry m data ctx w)"

definition hasMethod :: "'w registry \<Rightarrow> string \<Rightarrow> bool" where
  "hasMethod registry m \<longleftrightarrow> map_get (buildMethodMap registry) m \<noteq> None"

section \<open>The protocol\<close>

text \<open>An id is a number or a string.\<close>

datatype rpc_id = IdNum int | IdStr string

record rpc_request =
  rr_id :: rpc_id
  rr_method :: string
  rr_params :: "(string, json) js_map"

fun parse_auth_frame :: "json \<Rightarrow> string option" where
  "parse_auth_frame (JObj fs) =
     (case (map_of fs ''type'', map_of fs ''token'') of
        (Some (JStr t), Some (JStr token)) \<Rightarrow> if t = ''admin_auth'' then Some token else None
      | _ \<Rightarrow> None)"
| "parse_auth_frame _ = None"

fun parse_rpc_id :: "json \<Rightarrow> rpc_id option" where
  "parse_rpc_id (JNum i) = Some (IdNum i)"
| "parse_rpc_id (JStr s) = Some (IdStr s)"
| "parse_rpc_id _ = None"

fun parse_rpc_request :: "json \<Rightarrow> rpc_request option" where
  "parse_rpc_request (JObj fs) =
     (case (map_of fs ''jsonrpc'', Option.bind (map_of fs ''id'') parse_rpc_id, map_of fs ''method'') of
        (Some (JStr version), Some i, Some (JStr m)) \<Rightarrow>
          if version \<noteq> ''2.0'' then None
          else (case map_of fs ''params'' of
                  None \<Rightarrow> Some \<lparr>rr_id = i, rr_method = m, rr_params = []\<rparr>
                | Some (JObj params) \<Rightarrow> Some \<lparr>rr_id = i, rr_method = m, rr_params = params\<rparr>
                | Some _ \<Rightarrow> None)
      | _ \<Rightarrow> None)"
| "parse_rpc_request _ = None"

definition PARSE_ERROR :: int where "PARSE_ERROR = -32700"
definition INVALID_REQUEST :: int where "INVALID_REQUEST = -32600"
definition METHOD_NOT_FOUND :: int where "METHOD_NOT_FOUND = -32601"
definition INVALID_PARAMS :: int where "INVALID_PARAMS = -32602"
definition RPC_INTERNAL_ERROR :: int where "RPC_INTERNAL_ERROR = -32603"
definition RPC_AUTH_FAILED :: int where "RPC_AUTH_FAILED = -32000"
definition PERMISSION_DENIED :: int where "PERMISSION_DENIED = -32001"
definition RPC_NOT_FOUND :: int where "RPC_NOT_FOUND = -32002"

fun jsonRpcCodeForCategory :: "error_category \<Rightarrow> int" where
  "jsonRpcCodeForCategory CatValidation = INVALID_PARAMS"
| "jsonRpcCodeForCategory CatAuth = RPC_AUTH_FAILED"
| "jsonRpcCodeForCategory CatPermission = PERMISSION_DENIED"
| "jsonRpcCodeForCategory CatNotFound = RPC_NOT_FOUND"
| "jsonRpcCodeForCategory _ = RPC_INTERNAL_ERROR"

text \<open>What is written to the socket, one line each. The data of an error is the error itself.\<close>

datatype admin_line =
  RpcError "rpc_id option" int string "signet_error option"
| RpcFailure rpc_id int action_error
| RpcSuccess rpc_id "json action_result"
| AuthAck

text \<open>The fields of a validated value: of an array or a string, those of its places.\<close>

fun spread_fields :: "json \<Rightarrow> (string, json) js_map" where
  "spread_fields (JObj fs) = fs"
| "spread_fields (JArr vs) = zip (map show_nat [0..<length vs]) vs"
| "spread_fields (JStr s) = zip (map show_nat [0..<length s]) (map (\<lambda>c. JStr [c]) s)"
| "spread_fields _ = []"

definition mergeTransportControls :: "(string, json) js_map \<Rightarrow> json \<Rightarrow> json" where
  "mergeTransportControls rawParams validatedParams =
     (case map_get rawParams ''dangerouslyAllowMessageRead'' of
        Some flag \<Rightarrow>
          if flag = JBool True \<or> flag = JStr ''true''
          then JObj (map_set ''dangerouslyAllowMessageRead'' flag (spread_fields validatedParams))
          else validatedParams
      | None \<Rightarrow> validatedParams)"

section \<open>Connections\<close>

record 'w admin_deps =
  ad_parse :: "string \<Rightarrow> json option"
  ad_verifyJwt :: "string \<Rightarrow> 'w \<Rightarrow> jwt_payload result completion \<times> 'w"
  ad_registry :: "'w registry"
  ad_elevations :: "'w elevation_deps"
  ad_now :: "'w \<Rightarrow> int"

datatype pending =
  Verifying string
| Elevating rpc_request json elevation_request
| Acting rpc_request json handler_context

record admin_conn =
  ac_authenticated :: bool
  ac_fingerprint :: "string option"
  ac_sessionKey :: "string option"
  ac_buffer :: string
  ac_pending :: "pending list"
  ac_written :: "admin_line list"

definition new_conn :: admin_conn where
  "new_conn = \<lparr>ac_authenticated = False, ac_fingerprint = None, ac_sessionKey = None, ac_buffer = [],
     ac_pending = [], ac_written = []\<rparr>"

abbreviation write_line :: "admin_line \<Rightarrow> admin_conn \<Rightarrow> admin_conn" where
  "write_line l c \<equiv> c\<lparr>ac_written := ac_written c @ [l]\<rparr>"

abbreviation await :: "pending \<Rightarrow> admin_conn \<Rightarrow> admin_conn" where
  "await p c \<equiv> c\<lparr>ac_pending := ac_pending c @ [p]\<rparr>"

definition or_empty :: "string option \<Rightarrow> string" where
  "or_empty s = (case s of Some t \<Rightarrow> t | None \<Rightarrow> [])"

text \<open>The elevation request of a connection: \<open>adminSessionKey ?? adminFingerprint ?? ''\<close>.\<close>

definition elevation_request_of :: "admin_conn \<Rightarrow> rpc_request \<Rightarrow> json \<Rightarrow> elevation_request" where
  "elevation_request_of c request validated =
     \<lparr>er_method = rr_method request,
      er_params = spread_fields (mergeTransportControls (rr_params request) validated),
      er_adminFingerprint = or_empty (ac_fingerprint c),
      er_sessionKey = (case ac_sessionKey c of Some k \<Rightarrow> k | None \<Rightarrow> or_empty (ac_fingerprint c))\<rparr>"

text \<open>\<open>handleLine\<close> up to its first awaited call.\<close>

definition handleLine :: "'w admin_deps \<Rightarrow> string \<Rightarrow> admin_conn \<Rightarrow> admin_conn" where
  "handleLine deps line c =
     (case ad_parse deps line of
        None \<Rightarrow> write_line (RpcError None PARSE_ERROR ''Parse error'' None) c
      | Some parsed \<Rightarrow>
          if \<not> ac_authenticated c
          then (case parse_auth_frame parsed of
                  None \<Rightarrow> write_line (RpcError None RPC_AUTH_FAILED
                    ''Expected admin_auth frame as first message'' None) c
                | Some token \<Rightarrow> await (Verifying token) c)
          else (case parse_rpc_request parsed of
                  None \<Rightarrow> write_line (RpcError None INVALID_REQUEST ''Invalid JSON-RPC request'' None) c
                | Some request \<Rightarrow>
                    if \<not> hasMethod (ad_registry deps) (rr_method request)
                    then write_line (RpcError (Some (rr_id request)) METHOD_NOT_FOUND
                      (''Method '' @ quoted (rr_method request) @ '' not found'') None) c
                    else (case dispatcher_validate (ad_registry deps) (rr_method request) (JObj (rr_params request)) of
                            Inl e \<Rightarrow> write_line (RpcError (Some (rr_id request))
                              (jsonRpcCodeForCategory (category_of e)) (error_message e) (Some e)) c
                          | Inr validated \<Rightarrow>
                              await (Elevating request validated (elevation_request_of c request validated)) c)))"

text \<open>The complete lines of a buffer, and what is left of it.\<close>

fun take_lines :: "string \<Rightarrow> string list \<times> string" where
  "take_lines [] = ([], [])"
| "take_lines (c # cs) =
     (case take_lines cs of (lines, rest) \<Rightarrow>
        if c = CHR 0x0A then ([] # lines, rest)
        else (case lines of [] \<Rightarrow> ([], c # rest) | l # ls \<Rightarrow> ((c # l) # ls, rest)))"

definition handle_data :: "'w admin_deps \<Rightarrow> string \<Rightarrow> admin_conn \<Rightarrow> admin_conn" where
  "handle_data deps text c =
     (case take_lines (ac_buffer c @ text) of (lines, rest) \<Rightarrow>
        fold (handleLine deps) (filter (\<lambda>l. length l > 0) (map js_trim lines)) (c\<lparr>ac_buffer := rest\<rparr>))"

text \<open>A line resumes when the call it waits for is answered. \<open>uuid\<close> and \<open>requestId\<close> are the random
  ids that are drawn on the way.\<close>

definition resume :: "'w admin_deps \<Rightarrow> string \<Rightarrow> pending \<Rightarrow> admin_conn \<Rightarrow> ('w, admin_conn completion) elevating" where
  "resume deps uuid p c =
     (case p of
        Verifying token \<Rightarrow> do {
          verifyResult \<leftarrow> ask (ad_verifyJwt deps token);
          State_Monad.return
            (case verifyResult of
               Threw e \<Rightarrow> Threw e
             | Returned (Inl e) \<Rightarrow> Returned (write_line (RpcError None RPC_AUTH_FAILED (error_message e) None) c)
             | Returned (Inr payload) \<Rightarrow> Returned (write_line AuthAck
                 (c\<lparr>ac_authenticated := True, ac_fingerprint := Some (jp_iss payload),
                    ac_sessionKey := Some (jp_iss payload @ '':'' @ jp_jti payload)\<rparr>)))
        }
      | Elevating request validated input \<Rightarrow> do {
          elevationResult \<leftarrow> resolveForRequest (ad_elevations deps) uuid input;
          State_Monad.return
            (case elevationResult of
               Threw e \<Rightarrow> Threw e
             | Returned (Inl e) \<Rightarrow> Returned (write_line (RpcError (Some (rr_id request))
                 (jsonRpcCodeForCategory (category_of e)) (error_message e) (Some e)) c)
             | Returned (Inr elevation) \<Rightarrow> Returned (await (Acting request validated
                 \<lparr>hc_requestId = uuid, hc_adminAuth = Some (or_empty (ac_fingerprint c)),
                  hc_operatorId = None, hc_credentialId = None, hc_adminReadElevation = elevation\<rparr>) c))
        }
      | Acting request validated ctx \<Rightarrow> do {
          actionResult \<leftarrow> ask (dispatchValidated (ad_now deps) (ad_registry deps) (rr_method request) validated ctx);
          State_Monad.return (Returned
            (write_line (case actionResult of
               ActionOk _ _ _ \<Rightarrow> RpcSuccess (rr_id request) actionResult
             | ActionFailed e _ \<Rightarrow> RpcFailure (rr_id request) (jsonRpcCodeForCategory (ae_category e)) e) c))
        })"

section \<open>The life of the server\<close>

datatype server_state = SrvIdle | SrvListening | SrvStopped

fun server_state_name :: "server_state \<Rightarrow> string" where
  "server_state_name SrvIdle = ''idle''"
| "server_state_name SrvListening = ''listening''"
| "server_state_name SrvStopped = ''stopped''"

text \<open>\<open>threw\<close> is the text of what preparing or removing the socket threw, if it did; \<open>what\<close> and
  \<open>who\<close> are the words the messages name the server with.\<close>

definition socket_start ::
  "string \<Rightarrow> string \<Rightarrow> string option \<Rightarrow> server_state \<Rightarrow> unit result \<times> server_state" where
  "socket_start what who threw st =
     (if st \<noteq> SrvIdle
      then (Inl (InternalError (''Cannot start '' @ what @ '' in state '' @ quoted (server_state_name st)) None), st)
      else case threw of
             None \<Rightarrow> (Inr (), SrvListening)
           | Some cause \<Rightarrow> (Inl (InternalError (''Failed to start '' @ who) (Some [(''cause'', CtxStr cause)])), SrvIdle))"

definition socket_stop ::
  "string \<Rightarrow> string \<Rightarrow> string option \<Rightarrow> server_state \<Rightarrow> unit result \<times> server_state" where
  "socket_stop what who threw st =
     (if st \<noteq> SrvListening
      then (Inl (InternalError (''Cannot stop '' @ what @ '' in state '' @ quoted (server_state_name st)) None), st)
      else case threw of
             None \<Rightarrow> (Inr (), SrvStopped)
           | Some cause \<Rightarrow> (Inl (InternalError (''Failed to stop '' @ who) (Some [(''cause'', CtxStr cause)])), SrvListening))"

section \<open>Runs of a connection\<close>

text \<open>Text arrives, a line in flight resumes or throws, and the rest of the daemon goes on.\<close>

definition without :: "nat \<Rightarrow> admin_conn \<Rightarrow> admin_conn" where
  "without i c = c\<lparr>ac_pending := take i (ac_pending c) @ drop (Suc i) (ac_pending c)\<rparr>"

inductive admin_run :: "'w admin_deps \<Rightarrow> admin_conn \<Rightarrow> elevation_state \<times> 'w \<Rightarrow> bool" for deps where
  ar_open: "admin_run deps new_conn sw"
| ar_data: "admin_run deps c sw \<Longrightarrow> admin_run deps (handle_data deps text c) sw"
| ar_resume: "admin_run deps c sw \<Longrightarrow> i < length (ac_pending c) \<Longrightarrow>
    run_state (resume deps uuid (ac_pending c ! i) (without i c)) sw = (Returned c', sw') \<Longrightarrow>
    admin_run deps c' sw'"
| ar_throw: "admin_run deps c sw \<Longrightarrow> i < length (ac_pending c) \<Longrightarrow>
    run_state (resume deps uuid (ac_pending c ! i) (without i c)) sw = (Threw e, sw') \<Longrightarrow>
    admin_run deps (without i c) sw'"
| ar_others: "admin_run deps c sw \<Longrightarrow> admin_run deps c sw'"

section \<open>Framing\<close>

lemma take_lines_append:
  "take_lines (a @ b) = (case take_lines a of (l1, r1) \<Rightarrow>
     case take_lines (r1 @ b) of (l2, r2) \<Rightarrow> (l1 @ l2, r2))"
proof (induction a)
  case (Cons x a)
  obtain l1 r1 where a: "take_lines a = (l1, r1)" by fastforce
  obtain l2 r2 where b: "take_lines (r1 @ b) = (l2, r2)" by fastforce
  from Cons a b have "take_lines (a @ b) = (l1 @ l2, r2)" by simp
  with a b show ?case by (cases l1) auto
qed (simp split: prod.split)

lemma take_lines_rest: "take_lines s = (ls, r) \<Longrightarrow> CHR 0x0A \<notin> set r"
  by (induction s arbitrary: ls r) (auto split: prod.splits list.splits if_splits)

lemma take_lines_plain: "CHR 0x0A \<notin> set s \<Longrightarrow> take_lines s = ([], s)"
  by (induction s) auto

lemma handleLine_buffer:
  "handleLine deps l (c\<lparr>ac_buffer := b\<rparr>) = (handleLine deps l c)\<lparr>ac_buffer := b\<rparr>"
  by (auto simp: handleLine_def elevation_request_of_def split: option.split sum.split)

lemma lines_buffer:
  "fold (handleLine deps) ls (c\<lparr>ac_buffer := b\<rparr>) = (fold (handleLine deps) ls c)\<lparr>ac_buffer := b\<rparr>"
  by (induction ls arbitrary: c) (simp_all add: handleLine_buffer)

lemma lines_keep_buffer: "ac_buffer (fold (handleLine deps) ls c) = ac_buffer c"
  using arg_cong [OF lines_buffer [where c = c and b = "ac_buffer c" and ls = ls and deps = deps],
      of ac_buffer] by simp

lemma handle_data_append:
  assumes "CHR 0x0A \<notin> set (ac_buffer c)"
  shows "handle_data deps b (handle_data deps a c) = handle_data deps (a @ b) c"
    and "CHR 0x0A \<notin> set (ac_buffer (handle_data deps a c))"
proof -
  obtain l1 r1 where a: "take_lines (ac_buffer c @ a) = (l1, r1)" by fastforce
  obtain l2 r2 where b: "take_lines (r1 @ b) = (l2, r2)" by fastforce
  have "take_lines (ac_buffer c @ a @ b) = (l1 @ l2, r2)"
    using take_lines_append [of "ac_buffer c @ a" b] a b by simp
  with a b show "handle_data deps b (handle_data deps a c) = handle_data deps (a @ b) c"
    by (simp add: handle_data_def lines_buffer lines_keep_buffer)
  show "CHR 0x0A \<notin> set (ac_buffer (handle_data deps a c))"
    using a take_lines_rest [OF a] by (simp add: handle_data_def lines_buffer)
qed

end
