(* ===== verification/HttpServer.thy ===== *)
theory HttpServer
  imports AdminServer
begin

text \<open>
  The HTTP interface (packages/cli/src/http/server.ts, action-routes.ts): health, admin methods,
  credential methods and the routes derived from the actions.

  A request is answered in two parts: \<open>http_plan\<close> is everything up to the call of a handler,
  \<open>http_answer\<close> the handler and the response. The URL parser and \<open>JSON.parse\<close> are the host's.
\<close>

section \<open>Routes\<close>

record 'w http_route_rec =
  rt_actionId :: string
  rt_auth :: "route_auth option"
  rt_inputSource :: http_input_source
  rt_method :: http_method
  rt_path :: string
  rt_spec :: "'w action_spec"

definition route_of :: "'w action_spec \<Rightarrow> 'w http_route_rec" where
  "route_of spec =
     \<lparr>rt_actionId = as_id spec, rt_auth = Option.bind (as_http spec) hs_auth,
      rt_inputSource = deriveHttpInputSource (deriveHttpMethod spec), rt_method = deriveHttpMethod spec,
      rt_path = deriveHttpPath spec DEFAULT_HTTP_BASE_PATH, rt_spec = spec\<rparr>"

definition buildHttpActionRoutes :: "'w registry \<Rightarrow> contract_issue list + 'w http_route_rec list" where
  "buildHttpActionRoutes registry =
     (case registry_validate registry of
        Inl issues \<Rightarrow> Inl issues
      | Inr _ \<Rightarrow> Inr (map route_of (filter isHttpExposed (listForSurface SurfHttp registry))))"

definition matchHttpActionRoute ::
  "'w http_route_rec list \<Rightarrow> string \<Rightarrow> string \<Rightarrow> 'w http_route_rec option" where
  "matchHttpActionRoute routes m path =
     find_first (\<lambda>r. method_name (rt_method r) = m \<and> rt_path r = path) routes"

section \<open>Requests and responses\<close>

text \<open>The path and the query of the parsed URL; the text is \<open>None\<close> where reading it throws.\<close>

record http_request =
  hr_method :: string
  hr_path :: string
  hr_query :: "(string \<times> string) list"
  hr_authorization :: "string option"
  hr_text :: "string option"

fun categoryToStatus :: "error_category \<Rightarrow> int" where
  "categoryToStatus CatValidation = 400"
| "categoryToStatus CatAuth = 401"
| "categoryToStatus CatPermission = 403"
| "categoryToStatus CatNotFound = 404"
| "categoryToStatus CatTimeout = 408"
| "categoryToStatus CatCancelled = 499"
| "categoryToStatus CatInternal = 500"
| "categoryToStatus CatNetwork = 500"

text \<open>The issues of a schema stand in the context of the error.\<close>

datatype http_body = OkBody json | ErrBody error_category string "ctx option" "zod_issue list"

record http_response =
  hp_status :: int
  hp_body :: http_body

definition successResponse :: "json \<Rightarrow> http_response" where
  "successResponse data = \<lparr>hp_status = 200, hp_body = OkBody data\<rparr>"

definition errorResponse :: "error_category \<Rightarrow> string \<Rightarrow> ctx option \<Rightarrow> http_response" where
  "errorResponse category message context =
     \<lparr>hp_status = categoryToStatus category, hp_body = ErrBody category message context []\<rparr>"

definition error_reply :: "signet_error \<Rightarrow> http_response" where
  "error_reply e = errorResponse (category_of e) (error_message e) (error_context e)"

definition issues_reply :: "zod_issue list \<Rightarrow> http_response" where
  "issues_reply issues =
     (let field = (case issues of [] \<Rightarrow> ''params'' | i # _ \<Rightarrow> join_with ''.'' (zi_path i));
          reason = (case issues of [] \<Rightarrow> ''Validation failed'' | i # _ \<Rightarrow> zi_message i);
          e = ValidationError field reason [] in
      \<lparr>hp_status = categoryToStatus (category_of e),
       hp_body = ErrBody (category_of e) (error_message e) (error_context e) issues\<rparr>)"

definition extractBearerToken :: "http_request \<Rightarrow> string option" where
  "extractBearerToken req =
     (case hr_authorization req of
        None \<Rightarrow> None
      | Some header \<Rightarrow> if starts_with ''Bearer '' header then Some (js_slice 7 header) else None)"

section \<open>The server\<close>

record http_credential =
  hcr_id :: string
  hcr_credentialId :: string
  hcr_operatorId :: string
  hcr_status :: string
  hcr_config :: json
  hcr_configOperatorId :: string
  hcr_issuedAt :: string
  hcr_expiresAt :: string

record 'w http_deps =
  hd_parse :: "string \<Rightarrow> json option"
  hd_verifyAdminJwt :: "string \<Rightarrow> 'w \<Rightarrow> jwt_payload result completion \<times> 'w"
  hd_lookupByToken :: "string \<Rightarrow> 'w \<Rightarrow> http_credential result \<times> 'w"
  hd_registry :: "'w registry"
  hd_elevations :: "'w elevation_deps"
  hd_now :: "'w \<Rightarrow> int"
  hd_status :: "'w \<Rightarrow> json \<times> 'w"

text \<open>What remains to be done once a request is authorized and parsed.\<close>

datatype 'w http_plan =
  Reply http_response
| Dispatch string json handler_context
| CallRoute "'w action_spec" json handler_context

definition admin_context :: "string \<Rightarrow> jwt_payload \<Rightarrow> elevation option \<Rightarrow> handler_context" where
  "admin_context requestId p el =
     \<lparr>hc_requestId = requestId, hc_adminAuth = Some (jp_iss p), hc_operatorId = None,
      hc_credentialId = None, hc_adminReadElevation = el\<rparr>"

definition credential_context :: "string \<Rightarrow> http_credential \<Rightarrow> handler_context" where
  "credential_context requestId c =
     \<lparr>hc_requestId = requestId, hc_adminAuth = None, hc_operatorId = Some (hcr_operatorId c),
      hc_credentialId = Some (hcr_credentialId c), hc_adminReadElevation = None\<rparr>"

definition parse_body :: "'w http_deps \<Rightarrow> http_request \<Rightarrow> json option" where
  "parse_body deps req =
     (case hr_text req of
        None \<Rightarrow> None
      | Some t \<Rightarrow> if length t = 0 then Some (JObj []) else hd_parse deps t)"

definition query_value :: "string list \<Rightarrow> json" where
  "query_value vs = (if length vs > 1 then JArr (map JStr vs) else (case vs of v # _ \<Rightarrow> JStr v | [] \<Rightarrow> JStr []))"

definition parseActionParams :: "'w http_deps \<Rightarrow> http_request \<Rightarrow> http_input_source \<Rightarrow> json result" where
  "parseActionParams deps req source =
     (if source = SourceQuery
      then Inr (JObj (map (\<lambda>k. (k, query_value (map snd (filter (\<lambda>(k', v). k' = k) (hr_query req)))))
             (set_from (map fst (hr_query req)))))
      else case parse_body deps req of
             Some j \<Rightarrow> Inr j
           | None \<Rightarrow> Inl (ValidationError ''body'' ''Invalid JSON body'' []))"

text \<open>The parameters of a read elevation. Reading a field of \<open>null\<close> throws; for a method that
  reads no messages nothing is read.\<close>

definition http_elevate ::
  "'w http_deps \<Rightarrow> string \<Rightarrow> string \<Rightarrow> jwt_payload \<Rightarrow> json \<Rightarrow> ('w, elevation option result completion) elevating" where
  "http_elevate deps uuid m p params =
     (if params = JNull \<and> isMessageReadMethod m then State_Monad.return (Threw TypeError)
      else resolveForRequest (hd_elevations deps) uuid
        \<lparr>er_method = m, er_params = spread_fields params, er_adminFingerprint = jp_iss p,
         er_sessionKey = jp_iss p @ '':'' @ jp_jti p\<rparr>)"

text \<open>The elevation settled, the handler is called with it.\<close>

definition with_elevation ::
  "'w http_deps \<Rightarrow> string \<Rightarrow> string \<Rightarrow> jwt_payload \<Rightarrow> json \<Rightarrow> (elevation option \<Rightarrow> 'w http_plan) \<Rightarrow>
   ('w, 'w http_plan completion) elevating" where
  "with_elevation deps uuid m p params k = do {
     elevationResult \<leftarrow> http_elevate deps uuid m p params;
     State_Monad.return
       (case elevationResult of
          Threw e \<Rightarrow> Threw e
        | Returned (Inl e) \<Rightarrow> Returned (Reply (error_reply e))
        | Returned (Inr el) \<Rightarrow> Returned (k el))
   }"

definition handleAdminRoute ::
  "'w http_deps \<Rightarrow> string \<Rightarrow> http_request \<Rightarrow> string \<Rightarrow> ('w, 'w http_plan completion) elevating" where
  "handleAdminRoute deps uuid req m =
     (case extractBearerToken req of
        None \<Rightarrow> State_Monad.return (Returned (Reply (errorResponse CatAuth ''Missing authorization token'' None)))
      | Some token \<Rightarrow> do {
          verifyResult \<leftarrow> ask (hd_verifyAdminJwt deps token);
          case verifyResult of
            Threw e \<Rightarrow> State_Monad.return (Threw e)
          | Returned (Inl e) \<Rightarrow>
              State_Monad.return (Returned (Reply (errorResponse CatAuth (error_message e) (error_context e))))
          | Returned (Inr p) \<Rightarrow>
              (case parse_body deps req of
                 None \<Rightarrow> State_Monad.return (Returned (Reply (errorResponse CatValidation ''Invalid JSON body'' None)))
               | Some params \<Rightarrow>
                   (case dispatcher_validate (hd_registry deps) m params of
                      Inl e \<Rightarrow> State_Monad.return (Returned (Reply (error_reply e)))
                    | Inr validated \<Rightarrow>
                        if params = JNull then State_Monad.return (Threw TypeError)
                        else with_elevation deps uuid m p
                               (mergeTransportControls (spread_fields params) validated)
                               (\<lambda>el. Dispatch m validated (admin_context uuid p el))))
        })"

definition credential_info :: "http_credential \<Rightarrow> json" where
  "credential_info c = JObj
     [(''credentialId'', JStr (hcr_id c)), (''operatorId'', JStr (hcr_configOperatorId c)),
      (''status'', JStr (hcr_status c)), (''config'', hcr_config c),
      (''issuedAt'', JStr (hcr_issuedAt c)), (''expiresAt'', JStr (hcr_expiresAt c))]"

definition handleCredentialRoute ::
  "'w http_deps \<Rightarrow> http_request \<Rightarrow> string \<Rightarrow> ('w, 'w http_plan completion) elevating" where
  "handleCredentialRoute deps req m =
     (case extractBearerToken req of
        None \<Rightarrow> State_Monad.return (Returned (Reply (errorResponse CatAuth ''Missing credential token'' None)))
      | Some token \<Rightarrow> do {
          credentialResult \<leftarrow> ask (hd_lookupByToken deps token);
          State_Monad.return (Returned (Reply
            (case credentialResult of
               Inl _ \<Rightarrow> errorResponse CatAuth ''Invalid credential token'' None
             | Inr c \<Rightarrow>
                 (let bareMethod = (if starts_with ''credential.'' m then js_slice 11 m else m) in
                  if bareMethod = ''info'' then successResponse (credential_info c)
                  else errorResponse CatNotFound (''Unknown credential method: '' @ m)
                         (Some [(''method'', CtxStr m)])))))
        })"

definition handleActionRoute ::
  "'w http_deps \<Rightarrow> string \<Rightarrow> http_request \<Rightarrow> 'w http_route_rec \<Rightarrow> ('w, 'w http_plan completion) elevating" where
  "handleActionRoute deps uuid req route =
     (case extractBearerToken req of
        None \<Rightarrow> State_Monad.return (Returned (Reply (errorResponse CatAuth
          (if rt_auth route = Some AuthAdmin then ''Missing authorization token'' else ''Missing credential token'')
          None)))
      | Some token \<Rightarrow>
          if rt_auth route = Some AuthAdmin
          then do {
            verifyResult \<leftarrow> ask (hd_verifyAdminJwt deps token);
            case verifyResult of
              Threw e \<Rightarrow> State_Monad.return (Threw e)
            | Returned (Inl e) \<Rightarrow>
                State_Monad.return (Returned (Reply (errorResponse CatAuth (error_message e) (error_context e))))
            | Returned (Inr p) \<Rightarrow>
                (case parseActionParams deps req (rt_inputSource route) of
                   Inl e \<Rightarrow> State_Monad.return (Returned (Reply (error_reply e)))
                 | Inr params \<Rightarrow>
                     (case as_input (rt_spec route) params of
                        Inl issues \<Rightarrow> State_Monad.return (Returned (Reply (issues_reply issues)))
                      | Inr data \<Rightarrow>
                          with_elevation deps uuid (as_id (rt_spec route)) p params
                            (\<lambda>el. CallRoute (rt_spec route) data (admin_context uuid p el))))
          }
          else do {
            credentialResult \<leftarrow> ask (hd_lookupByToken deps token);
            State_Monad.return (Returned
              (case credentialResult of
                 Inl _ \<Rightarrow> Reply (errorResponse CatAuth ''Invalid credential token'' None)
               | Inr c \<Rightarrow>
                   (case parseActionParams deps req (rt_inputSource route) of
                      Inl e \<Rightarrow> Reply (error_reply e)
                    | Inr params \<Rightarrow>
                        (case as_input (rt_spec route) params of
                           Inl issues \<Rightarrow> Reply (issues_reply issues)
                         | Inr data \<Rightarrow> CallRoute (rt_spec route) data (credential_context uuid c)))))
          })"

text \<open>The part of a path that \<open>/^prefix(.+)$/\<close> captures.\<close>

definition captured :: "string \<Rightarrow> string \<Rightarrow> string option" where
  "captured prefix path =
     (let rest = js_slice (length prefix) path in
      if starts_with prefix path \<and> rest \<noteq> [] \<and> CHR 0x0A \<notin> set rest \<and> CHR 0x0D \<notin> set rest
      then Some rest else None)"

definition http_plan ::
  "'w http_deps \<Rightarrow> 'w http_route_rec list \<Rightarrow> string \<Rightarrow> http_request \<Rightarrow> ('w, 'w http_plan completion) elevating" where
  "http_plan deps routes uuid req =
     (if hr_path req = ''/v1/health'' \<and> hr_method req = ''GET''
      then do {
        status \<leftarrow> ask (hd_status deps);
        State_Monad.return (Returned (Reply (successResponse status)))
      }
      else case (captured ''/v1/admin/'' (hr_path req), hr_method req = ''POST'') of
             (Some m, True) \<Rightarrow> handleAdminRoute deps uuid req m
           | _ \<Rightarrow>
               (case (captured ''/v1/credential/'' (hr_path req), hr_method req = ''POST'') of
                  (Some m, True) \<Rightarrow> handleCredentialRoute deps req m
                | _ \<Rightarrow>
                    (case matchHttpActionRoute routes (hr_method req) (hr_path req) of
                       Some route \<Rightarrow> handleActionRoute deps uuid req route
                     | None \<Rightarrow> State_Monad.return (Returned (Reply (errorResponse CatNotFound
                         (''Route not found: '' @ hr_method req @ '' '' @ hr_path req) None))))))"

definition http_answer :: "'w http_deps \<Rightarrow> 'w http_plan \<Rightarrow> ('w, http_response) elevating" where
  "http_answer deps plan =
     (case plan of
        Reply r \<Rightarrow> State_Monad.return r
      | Dispatch m validated ctx \<Rightarrow> do {
          actionResult \<leftarrow> ask (dispatchValidated (hd_now deps) (hd_registry deps) m validated ctx);
          State_Monad.return
            (case actionResult of
               ActionOk data _ _ \<Rightarrow> successResponse data
             | ActionFailed e _ \<Rightarrow> errorResponse (ae_category e) (ae_message e) (ae_context e))
        }
      | CallRoute spec data ctx \<Rightarrow> do {
          r \<leftarrow> ask (call_handler spec data ctx);
          State_Monad.return (case r of Inr v \<Rightarrow> successResponse v | Inl e \<Rightarrow> error_reply e)
        })"

definition http_handleRequest ::
  "'w http_deps \<Rightarrow> 'w http_route_rec list \<Rightarrow> string \<Rightarrow> http_request \<Rightarrow> ('w, http_response completion) elevating" where
  "http_handleRequest deps routes uuid req = do {
     plan \<leftarrow> http_plan deps routes uuid req;
     case plan of
       Threw e \<Rightarrow> State_Monad.return (Threw e)
     | Returned pl \<Rightarrow> do { r \<leftarrow> http_answer deps pl; State_Monad.return (Returned r) }
   }"

text \<open>Starting the server derives the routes it will serve.\<close>

record 'w http_server =
  hs_state :: server_state
  hs_routes :: "'w http_route_rec list"

definition http_start ::
  "'w registry \<Rightarrow> string option \<Rightarrow> 'w http_server \<Rightarrow> (contract_issue list + unit result) \<times> 'w http_server" where
  "http_start registry threw srv =
     (if hs_state srv = SrvIdle
      then (case buildHttpActionRoutes registry of
              Inl issues \<Rightarrow> (Inl issues, srv)
            | Inr routes \<Rightarrow>
                (case socket_start ''HTTP server'' ''HTTP server'' threw SrvIdle of
                   (r, st) \<Rightarrow> (Inr r, srv\<lparr>hs_routes := routes, hs_state := st\<rparr>)))
      else (Inr (fst (socket_start ''HTTP server'' ''HTTP server'' threw (hs_state srv))), srv))"

definition http_stop :: "string option \<Rightarrow> 'w http_server \<Rightarrow> unit result \<times> 'w http_server" where
  "http_stop threw srv =
     (case socket_stop ''HTTP server'' ''HTTP server'' threw (hs_state srv) of
        (r, st) \<Rightarrow> (r, srv\<lparr>hs_state := st\<rparr>))"

end
