(* ===== verification/AdminSafety.thy ===== *)
theory AdminSafety
  imports AdminServer ElevationSafety
begin

text \<open>
  What the admin socket guarantees: whatever arrives, in whatever pieces, and in whatever order
  the lines in flight resume, an action runs only for a client that presented a token signed by
  the admin key, with validated parameters and with no elevation but one resolved for it.
\<close>

definition verified :: "'w admin_deps \<Rightarrow> jwt_payload \<Rightarrow> bool" where
  "verified deps p \<longleftrightarrow> (\<exists>token w. fst (ad_verifyJwt deps token w) = Returned (Inr p))"

definition session_key :: "jwt_payload \<Rightarrow> string" where
  "session_key p = jp_iss p @ '':'' @ jp_jti p"

definition params_ok :: "'w admin_deps \<Rightarrow> rpc_request \<Rightarrow> json \<Rightarrow> bool" where
  "params_ok deps request validated \<longleftrightarrow>
     hasMethod (ad_registry deps) (rr_method request)
     \<and> dispatcher_validate (ad_registry deps) (rr_method request) (JObj (rr_params request)) = Inr validated"

definition input_ok :: "'w admin_deps \<Rightarrow> rpc_request \<Rightarrow> elevation_request \<Rightarrow> bool" where
  "input_ok deps request input \<longleftrightarrow>
     er_method input = rr_method request
     \<and> (\<exists>p. verified deps p \<and> er_adminFingerprint input = jp_iss p \<and> er_sessionKey input = session_key p)"

definition resolved :: "'w admin_deps \<Rightarrow> rpc_request \<Rightarrow> elevation option \<Rightarrow> bool" where
  "resolved deps request el \<longleftrightarrow>
     (\<exists>uuid input sw. input_ok deps request input
        \<and> fst (run_state (resolveForRequest (ad_elevations deps) uuid input) sw) = Returned (Inr el))"

fun pending_ok :: "'w admin_deps \<Rightarrow> pending \<Rightarrow> bool" where
  "pending_ok deps (Verifying token) \<longleftrightarrow> True"
| "pending_ok deps (Elevating request validated input) \<longleftrightarrow>
     params_ok deps request validated \<and> input_ok deps request input"
| "pending_ok deps (Acting request validated ctx) \<longleftrightarrow>
     params_ok deps request validated
     \<and> (\<exists>p. verified deps p \<and> hc_adminAuth ctx = Some (jp_iss p))
     \<and> hc_operatorId ctx = None \<and> hc_credentialId ctx = None
     \<and> resolved deps request (hc_adminReadElevation ctx)"

fun past_auth :: "pending \<Rightarrow> bool" where
  "past_auth (Verifying token) \<longleftrightarrow> False"
| "past_auth _ \<longleftrightarrow> True"

definition conn_ok :: "'w admin_deps \<Rightarrow> admin_conn \<Rightarrow> bool" where
  "conn_ok deps c \<longleftrightarrow>
     (ac_authenticated c \<longrightarrow> (\<exists>p. verified deps p \<and> ac_fingerprint c = Some (jp_iss p)
        \<and> ac_sessionKey c = Some (session_key p)))
     \<and> (\<forall>q \<in> set (ac_pending c). pending_ok deps q \<and> (past_auth q \<longrightarrow> ac_authenticated c))"

lemma conn_ok_write [simp]: "conn_ok deps (write_line l c) \<longleftrightarrow> conn_ok deps c"
  by (simp add: conn_ok_def)

lemma conn_ok_await:
  "conn_ok deps c \<Longrightarrow> pending_ok deps q \<Longrightarrow> (past_auth q \<longrightarrow> ac_authenticated c) \<Longrightarrow> conn_ok deps (await q c)"
  by (auto simp: conn_ok_def)

lemma handleLine_ok:
  assumes ok: "conn_ok deps c"
  shows "conn_ok deps (handleLine deps line c)"
proof (cases "ad_parse deps line")
  case (Some parsed)
  show ?thesis
  proof (cases "ac_authenticated c")
    case False
    with ok Some show ?thesis
      by (auto simp: handleLine_def intro: conn_ok_await split: option.split)
  next
    case True
    then obtain p where p: "verified deps p" "ac_fingerprint c = Some (jp_iss p)"
      "ac_sessionKey c = Some (session_key p)"
      using ok by (auto simp: conn_ok_def)
    have "pending_ok deps (Elevating request validated (elevation_request_of c request validated))"
      if "params_ok deps request validated" for request validated
      using that p by (auto simp: input_ok_def elevation_request_of_def or_empty_def)
    with ok Some True show ?thesis
      by (auto simp: handleLine_def params_ok_def intro!: conn_ok_await split: option.split sum.split)
  qed
qed (simp add: handleLine_def ok)

lemma handle_data_ok: "conn_ok deps c \<Longrightarrow> conn_ok deps (handle_data deps text c)"
proof -
  assume ok: "conn_ok deps c"
  have "conn_ok deps (fold (handleLine deps) ls c')" if "conn_ok deps c'" for ls c'
    using that by (induction ls arbitrary: c') (simp_all add: handleLine_ok)
  moreover have "conn_ok deps (c\<lparr>ac_buffer := b\<rparr>)" for b using ok by (simp add: conn_ok_def)
  ultimately show "conn_ok deps (handle_data deps text c)"
    by (simp add: handle_data_def split: prod.split)
qed

lemma without_ok: "conn_ok deps c \<Longrightarrow> conn_ok deps (without i c)"
  by (auto simp: conn_ok_def without_def dest: in_set_takeD in_set_dropD)

lemma without_fields [simp]:
  "ac_authenticated (without i c) = ac_authenticated c" "ac_fingerprint (without i c) = ac_fingerprint c"
  "ac_sessionKey (without i c) = ac_sessionKey c"
  by (simp_all add: without_def)

lemma resume_ok:
  assumes ok: "conn_ok deps c" and q: "pending_ok deps q" "past_auth q \<longrightarrow> ac_authenticated c"
  shows "wp (resume deps uuid q c) (\<lambda>r sw'. \<forall>c'. r = Returned c' \<longrightarrow> conn_ok deps c') sw"
proof -
  obtain s w where sw: "sw = (s, w)" by (cases sw)
  show ?thesis
  proof (cases q)
    case (Verifying token)
    have "conn_ok deps (c\<lparr>ac_authenticated := True, ac_fingerprint := Some (jp_iss p),
        ac_sessionKey := Some (jp_iss p @ CHR '':'' # jp_jti p), ac_written := ls\<rparr>)"
      if "fst (ad_verifyJwt deps token w) = Returned (Inr p)" for p ls
    proof -
      have "verified deps p" using that by (auto simp: verified_def)
      with ok show ?thesis by (auto simp: conn_ok_def session_key_def)
    qed
    with ok show ?thesis unfolding Verifying sw
      by (auto simp: resume_def wp_simps split: completion.splits sum.splits)
  next
    case (Elevating request validated input)
    with q have i: "params_ok deps request validated" "input_ok deps request input" "ac_authenticated c" by auto
    then obtain p where p: "verified deps p" "ac_fingerprint c = Some (jp_iss p)"
      using ok by (auto simp: conn_ok_def)
    have act: "conn_ok deps (await (Acting request validated
        \<lparr>hc_requestId = uuid, hc_adminAuth = Some (or_empty (ac_fingerprint c)), hc_operatorId = None,
         hc_credentialId = None, hc_adminReadElevation = el\<rparr>) c)"
      if "fst (run_state (resolveForRequest (ad_elevations deps) uuid input) (s, w)) = Returned (Inr el)" for el
    proof (rule conn_ok_await [OF ok])
      have "resolved deps request el" using that i(2) by (auto simp: resolved_def)
      with i p show "pending_ok deps (Acting request validated
        \<lparr>hc_requestId = uuid, hc_adminAuth = Some (or_empty (ac_fingerprint c)), hc_operatorId = None,
         hc_credentialId = None, hc_adminReadElevation = el\<rparr>)"
        by (auto simp: or_empty_def)
    qed (use i in simp)
    obtain r sw' where r: "run_state (resolveForRequest (ad_elevations deps) uuid input) (s, w) = (r, sw')"
      by (rule prod.exhaust)
    with ok act show ?thesis unfolding Elevating sw
      by (auto simp: resume_def wp_bind wp_run [OF r] wp_return split: completion.splits sum.splits)
  next
    case (Acting request validated ctx)
    with ok show ?thesis unfolding Acting sw by (simp add: resume_def wp_simps)
  qed
qed

lemma admin_run_ok:
  assumes "admin_run deps c sw"
  shows "conn_ok deps c"
  using assms
proof induction
  case (ar_open sw)
  show ?case by (simp add: conn_ok_def new_conn_def)
next
  case (ar_data c sw t)
  then show ?case by (simp add: handle_data_ok)
next
  case (ar_resume c sw i uuid c' sw')
  then have q: "ac_pending c ! i \<in> set (ac_pending c)" by simp
  with ar_resume.IH have "pending_ok deps (ac_pending c ! i)"
    "past_auth (ac_pending c ! i) \<longrightarrow> ac_authenticated (without i c)"
    by (auto simp: conn_ok_def)
  from wpD [OF resume_ok [OF without_ok [OF ar_resume.IH] this] ar_resume.hyps(3)] show ?case by simp
next
  case (ar_throw c sw i uuid e sw')
  then show ?case by (simp add: without_ok)
qed

text \<open>The claims of a token that the key has signed.\<close>

definition signed_claims :: "('sk, 'pk) jwt_host \<Rightarrow> 8 word list \<Rightarrow> jwt_payload \<Rightarrow> bool" where
  "signed_claims host key p \<longleftrightarrow>
     (\<exists>h pl payload pk signature.
        decode_part host pl = Some payload \<and> parse_jwt_payload payload = Some p
        \<and> jh_import host key = Some pk
        \<and> jh_verify host pk signature (utf8 (h @ ''.'' @ pl)) = Some True)"

section \<open>A concrete connection\<close>

definition ping_spec :: "int action_spec" where
  "ping_spec = \<lparr>as_id = ''ping'', as_handler = (\<lambda>x c w. (Returned (Inr x), w)), as_input = Inr,
     as_description = None, as_examples = None, as_intent = None, as_idempotent = None,
     as_cli = Some \<lparr>cs_command = None, cs_aliases = None, cs_options = None, cs_outputFormat = None,
       cs_group = None\<rparr>, as_mcp = None, as_http = None\<rparr>"

definition demo_admin :: "string \<Rightarrow> int admin_deps" where
  "demo_admin token =
     \<lparr>ad_parse = (\<lambda>l. if l = ''auth'' then Some (JObj [(''type'', JStr ''admin_auth''), (''token'', JStr token)])
        else if l = ''call'' then Some (JObj [(''jsonrpc'', JStr ''2.0''), (''id'', JNum 1), (''method'', JStr ''ping'')])
        else None),
      ad_verifyJwt = (\<lambda>t w. (verifyJwt jwt_demo_host DEFAULT_CLOCK_SKEW 249 t [], w)),
      ad_registry = [(''ping'', ping_spec)], ad_elevations = elev_demo_deps, ad_now = (\<lambda>w. w)\<rparr>"

definition admin_demo_request :: rpc_request where
  "admin_demo_request = \<lparr>rr_id = IdNum 1, rr_method = ''ping'', rr_params = []\<rparr>"

definition demo_ctx :: handler_context where
  "demo_ctx = \<lparr>hc_requestId = ''u'', hc_adminAuth = Some ''ab'', hc_operatorId = None, hc_credentialId = None,
     hc_adminReadElevation = None\<rparr>"

lemma demo_lines: "take_lines ''auth'' = ([], ''auth'')" "take_lines (''auth'' @ [CHR 0x0A]) = ([''auth''], [])"
  "take_lines (''call'' @ [CHR 0x0A]) = ([''call''], [])" "js_trim ''auth'' = ''auth''" "js_trim ''call'' = ''call''"
  by code_simp+

lemma demo_has: "hasMethod (ad_registry (demo_admin token)) ''ping''"
  "dispatcher_validate (ad_registry (demo_admin token)) ''ping'' (JObj []) = Inr (JObj [])"
  by (simp_all add: demo_admin_def hasMethod_def dispatcher_validate_def buildMethodMap_def listForSurface_def
      ACTION_SURFACES_def map_values_def ping_spec_def deriveRpcMethod_def getSpec_def validateParams_def)

lemma demo_admin_runs:
  assumes "signJwt jwt_demo_host () demo_jwt = Inr token"
    and "verifyJwt jwt_demo_host DEFAULT_CLOCK_SKEW 249 token [] = Returned (Inr demo_jwt)"
  shows "\<exists>c sw. admin_run (demo_admin token) c sw \<and> ac_pending c = [Acting admin_demo_request (JObj []) demo_ctx]"
proof -
  let ?d = "demo_admin token" and ?sw = "(empty_elevations, 5::int)"
  define c1 where "c1 = new_conn\<lparr>ac_pending := [Verifying token]\<rparr>"
  define c2 where "c2 = (new_conn\<lparr>ac_authenticated := True, ac_fingerprint := Some ''ab'',
    ac_sessionKey := Some ''ab:01'', ac_written := [AuthAck]\<rparr>)"
  define input where "input = \<lparr>er_method = ''ping'', er_params = [], er_adminFingerprint = ''ab'', er_sessionKey = ''ab:01''\<rparr>"
  define c3 where "c3 = c2\<lparr>ac_pending := [Elevating admin_demo_request (JObj []) input]\<rparr>"
  define c4 where "c4 = c2\<lparr>ac_pending := [Acting admin_demo_request (JObj []) demo_ctx]\<rparr>"
  have "handle_data ?d (''auth'' @ [CHR 0x0A]) new_conn = c1"
    by (simp add: handle_data_def new_conn_def demo_lines [simplified] handleLine_def demo_admin_def c1_def)
  with ar_data [OF ar_open] have 1: "admin_run ?d c1 ?sw" by metis
  have "run_state (resume ?d ''u'' (ac_pending c1 ! 0) (without 0 c1)) ?sw = (Returned c2, ?sw)"
    using assms(2) by (simp add: resume_def c1_def c2_def without_def new_conn_def demo_admin_def ask_def
        demo_jwt_def)
  with ar_resume [OF 1, of 0 "''u''"] have 2: "admin_run ?d c2 ?sw" by (simp add: c1_def)
  have "parse_rpc_request (JObj [(''jsonrpc'', JStr ''2.0''), (''id'', JNum 1), (''method'', JStr ''ping'')]) = Some admin_demo_request"
    by (simp add: admin_demo_request_def)
  then have "handle_data ?d (''call'' @ [CHR 0x0A]) c2 = c3"
    using demo_has [of token] by (simp add: handle_data_def new_conn_def demo_lines [simplified] handleLine_def c2_def c3_def
        admin_demo_request_def elevation_request_of_def mergeTransportControls_def or_empty_def input_def)
      (simp add: demo_admin_def elevation_request_of_def mergeTransportControls_def or_empty_def)
  with ar_data [OF 2] have 3: "admin_run ?d c3 ?sw" by metis
  have "run_state (resume ?d ''u'' (ac_pending c3 ! 0) (without 0 c3)) ?sw = (Returned c4, ?sw)"
    by (simp add: resume_def c3_def c4_def without_def c2_def new_conn_def resolveForRequest_def input_def
        isMessageReadMethod_def demo_ctx_def or_empty_def)
  with ar_resume [OF 3, of 0 "''u''"] have "admin_run ?d c4 ?sw" by (simp add: c3_def)
  moreover have "ac_pending c4 = [Acting admin_demo_request (JObj []) demo_ctx]" unfolding c4_def by simp
  ultimately show ?thesis by blast
qed

text \<open>
  C6. On the admin socket an action is under way only with parameters its schema accepted and for
  a client whose token the admin key signed, in the name that token was issued to; it carries no
  identity of an operator, and no read elevation but one that was resolved for this method
  in the session of such a token. This holds however the text of the client is cut into pieces
  and in whatever order the answers to the lines in flight come in.
\<close>

theorem admin_actions_need_a_signed_token:
  assumes "admin_run deps c sw" and "Acting request validated ctx \<in> set (ac_pending c)"
    and "\<forall>token w. fst (ad_verifyJwt deps token w) = verifyJwt host DEFAULT_CLOCK_SKEW (now w) token key"
  shows "params_ok deps request validated
    \<and> (\<exists>p. signed_claims host key p \<and> hc_adminAuth ctx = Some (jp_iss p))
    \<and> hc_operatorId ctx = None \<and> hc_credentialId ctx = None
    \<and> (\<forall>el. hc_adminReadElevation ctx = Some el \<longrightarrow>
         (\<exists>p uuid input sw'. signed_claims host key p \<and> er_sessionKey input = session_key p
            \<and> er_method input = rr_method request
            \<and> fst (run_state (resolveForRequest (ad_elevations deps) uuid input) sw') = Returned (Inr (Some el))))"
proof -
  have "signed_claims host key p" if "verified deps p" for p
  proof -
    from that assms(3) obtain token w where
      "verifyJwt host DEFAULT_CLOCK_SKEW (now w) token key = Returned (Inr p)"
      by (auto simp: verified_def)
    then show ?thesis unfolding verifyJwt_iff signed_claims_def by blast
  qed
  moreover have "pending_ok deps (Acting request validated ctx)"
    using admin_run_ok [OF assms(1)] assms(2) by (auto simp: conn_ok_def)
  ultimately show ?thesis unfolding pending_ok.simps resolved_def input_ok_def by metis
qed

theorem admin_actions_need_a_signed_token_witness:
  "\<exists>token c sw. admin_run (demo_admin token) c sw
     \<and> ac_pending c = [Acting admin_demo_request (JObj []) demo_ctx]
     \<and> (\<exists>p. signed_claims jwt_demo_host [] p \<and> jp_iss p = ''ab'')"
proof -
  obtain token where t: "signJwt jwt_demo_host () demo_jwt = Inr token"
    and v: "verifyJwt jwt_demo_host DEFAULT_CLOCK_SKEW 249 token [] = Returned (Inr demo_jwt)"
    using demo_token by blast
  obtain c sw where c: "admin_run (demo_admin token) c sw" "ac_pending c = [Acting admin_demo_request (JObj []) demo_ctx]"
    using demo_admin_runs [OF t v] by blast
  have "\<forall>t w. fst (ad_verifyJwt (demo_admin token) t w)
      = verifyJwt jwt_demo_host DEFAULT_CLOCK_SKEW ((\<lambda>_. 249) w) t []"
    by (simp add: demo_admin_def)
  from admin_actions_need_a_signed_token [OF c(1) _ this, of admin_demo_request "JObj []" demo_ctx] c(2)
  have "\<exists>p. signed_claims jwt_demo_host [] p \<and> jp_iss p = ''ab''" by (auto simp: demo_ctx_def)
  with c show ?thesis by blast
qed

text \<open>
  How the text of a client is cut into pieces makes no difference to what is done with it:
  the lines are those of the whole text.
\<close>

theorem admin_framing:
  assumes "admin_run deps c sw"
  shows "fold (handle_data deps) texts c = (if texts = [] then c else handle_data deps (concat texts) c)"
proof -
  have buffer: "CHR 0x0A \<notin> set (ac_buffer c)"
    using assms
  proof induction
    case (ar_open sw)
    show ?case by (simp add: new_conn_def)
  next
    case (ar_data c sw t)
    from ar_data.IH show ?case by (rule handle_data_append(2))
  next
    case (ar_resume c sw i uuid c' sw')
    obtain s w where sw: "sw = (s, w)" by (cases sw)
    have "wp (resume deps uuid q d) (\<lambda>r sw'. \<forall>c'. r = Returned c' \<longrightarrow> ac_buffer c' = ac_buffer d) (s, w)" for q d
      by (cases q) (auto simp: resume_def wp_simps wp_def split: completion.splits sum.splits prod.splits)
    from wpD [OF this ar_resume.hyps(3) [unfolded sw]] ar_resume.IH show ?case by (simp add: without_def)
  qed (simp_all add: without_def)
  show ?thesis
  proof (induction texts rule: rev_induct)
    case (snoc t texts)
    show ?case
    proof (cases "texts = []")
      case False
      with snoc handle_data_append(1) [OF buffer, of deps t "concat texts"] show ?thesis by simp
    qed simp
  qed simp
qed

theorem admin_framing_witness:
  "fold (handle_data (demo_admin ''t'')) [''au'', ''th'' @ [CHR 0x0A] @ ''ca'', ''ll'' @ [CHR 0x0A]] new_conn
   = handle_data (demo_admin ''t'') (''auth'' @ [CHR 0x0A] @ ''call'' @ [CHR 0x0A]) new_conn"
  using admin_framing [OF ar_open, of "demo_admin ''t''" "[''au'', ''th'' @ [CHR 0x0A] @ ''ca'', ''ll'' @ [CHR 0x0A]]"]
  by simp

end
