(* ===== verification/HttpSafety.thy ===== *)
theory HttpSafety
  imports HttpServer AdminSafety
begin

text \<open>
  What the HTTP interface guarantees: no handler runs without a token of the kind its route asks
  for, and every exposed action is served at the route derived for it and nowhere else.
\<close>

section \<open>Plans\<close>

definition admin_verified :: "'w http_deps \<Rightarrow> string \<Rightarrow> jwt_payload \<Rightarrow> bool" where
  "admin_verified deps token p \<longleftrightarrow> (\<exists>w. fst (hd_verifyAdminJwt deps token w) = Returned (Inr p))"

definition credential_found :: "'w http_deps \<Rightarrow> string \<Rightarrow> http_credential \<Rightarrow> bool" where
  "credential_found deps token c \<longleftrightarrow> (\<exists>w. fst (hd_lookupByToken deps token w) = Inr c)"

text \<open>An elevation a handler is called with was resolved for its method in the session of the token.\<close>

definition elevation_resolved ::
  "'w http_deps \<Rightarrow> string \<Rightarrow> jwt_payload \<Rightarrow> elevation option \<Rightarrow> bool" where
  "elevation_resolved deps m p el \<longleftrightarrow>
     (\<exists>uuid input sw. er_method input = m \<and> er_adminFingerprint input = jp_iss p
        \<and> er_sessionKey input = jp_iss p @ '':'' @ jp_jti p
        \<and> fst (run_state (resolveForRequest (hd_elevations deps) uuid input) sw) = Returned (Inr el))"

fun plan_ok :: "'w http_deps \<Rightarrow> 'w http_route_rec list \<Rightarrow> http_request \<Rightarrow> string \<Rightarrow> 'w http_plan \<Rightarrow> bool" where
  "plan_ok deps routes req token (Reply r) \<longleftrightarrow> True"
| "plan_ok deps routes req token (Dispatch m validated ctx) \<longleftrightarrow>
     hr_method req = ''POST'' \<and> hr_path req = ''/v1/admin/'' @ m
     \<and> (\<exists>params. dispatcher_validate (hd_registry deps) m params = Inr validated)
     \<and> (\<exists>requestId p el. admin_verified deps token p \<and> ctx = admin_context requestId p el
          \<and> elevation_resolved deps m p el)"
| "plan_ok deps routes req token (CallRoute spec data ctx) \<longleftrightarrow>
     (\<exists>route \<in> set routes. rt_spec route = spec \<and> method_name (rt_method route) = hr_method req
        \<and> rt_path route = hr_path req
        \<and> (\<exists>params. as_input spec params = Inr data)
        \<and> (if rt_auth route = Some AuthAdmin
           then \<exists>requestId p el. admin_verified deps token p \<and> ctx = admin_context requestId p el
                  \<and> elevation_resolved deps (as_id spec) p el
           else \<exists>requestId c. credential_found deps token c \<and> ctx = credential_context requestId c))"

definition bearer :: "http_request \<Rightarrow> string \<Rightarrow> bool" where
  "bearer req token \<longleftrightarrow> hr_authorization req = Some (''Bearer '' @ token)"

definition planned :: "'w http_deps \<Rightarrow> 'w http_route_rec list \<Rightarrow> http_request \<Rightarrow> 'w http_plan completion \<Rightarrow> bool" where
  "planned deps routes req r \<longleftrightarrow>
     (case r of
        Threw e \<Rightarrow> True
      | Returned (Reply resp) \<Rightarrow> True
      | Returned plan \<Rightarrow> \<exists>token. bearer req token \<and> plan_ok deps routes req token plan)"

lemma planned_simps [simp]:
  "planned deps routes req (Threw e)" "planned deps routes req (Returned (Reply r))"
  by (simp_all add: planned_def)

lemma plannedI:
  "bearer req token \<Longrightarrow> plan_ok deps routes req token plan \<Longrightarrow> planned deps routes req (Returned plan)"
  by (cases plan) (auto simp: planned_def simp del: plan_ok.simps)

lemma extract_bearer: "extractBearerToken req = Some token \<longleftrightarrow> bearer req token"
  by (auto simp: extractBearerToken_def bearer_def starts_with_iff js_slice_def split: option.splits if_splits)

lemma elevation_wp:
  assumes "\<And>el. elevation_resolved deps m p el \<Longrightarrow> planned deps routes req (Returned (k el))"
  shows "wp (with_elevation deps uuid m p params k) (\<lambda>r sw'. planned deps routes req r) sw"
proof (cases "params = JNull \<and> isMessageReadMethod m")
  case True
  then show ?thesis by (simp add: with_elevation_def http_elevate_def wp_simps)
next
  case False
  define input where "input = \<lparr>er_method = m, er_params = spread_fields params, er_adminFingerprint = jp_iss p,
    er_sessionKey = jp_iss p @ '':'' @ jp_jti p\<rparr>"
  obtain r sw' where r: "run_state (resolveForRequest (hd_elevations deps) uuid input) sw = (r, sw')"
    by (rule prod.exhaust)
  have "planned deps routes req (Returned (k el))" if "r = Returned (Inr el)" for el
  proof (rule assms)
    have "fst (run_state (resolveForRequest (hd_elevations deps) uuid input) sw) = Returned (Inr el)"
      using r that by simp
    then show "elevation_resolved deps m p el"
      unfolding elevation_resolved_def by (intro exI conjI) (auto simp: input_def)
  qed
  moreover have "run_state (http_elevate deps uuid m p params) sw = (r, sw')"
    using False r by (auto simp: http_elevate_def input_def)
  ultimately show ?thesis
    by (auto simp: with_elevation_def wp_bind wp_run wp_return split: completion.split sum.split)
qed

lemma admin_route_wp:
  assumes "hr_method req = ''POST''" and "hr_path req = ''/v1/admin/'' @ m"
  shows "wp (handleAdminRoute deps uuid req m) (\<lambda>r sw'. planned deps routes req r) (s, w)"
proof (cases "extractBearerToken req")
  case None
  then show ?thesis by (simp add: handleAdminRoute_def wp_simps)
next
  case (Some token)
  then have token: "bearer req token" by (simp add: extract_bearer)
  have "wp (with_elevation deps uuid m p params (\<lambda>el. Dispatch m validated (admin_context uuid p el)))
      (\<lambda>r sw'. planned deps routes req r) sw"
    if "fst (hd_verifyAdminJwt deps token w) = Returned (Inr p)"
      "dispatcher_validate (hd_registry deps) m raw = Inr validated" for p params raw validated sw
    using that assms token by (intro elevation_wp plannedI [OF token]) (auto simp: admin_verified_def)
  then show ?thesis
    using Some by (auto simp: handleAdminRoute_def wp_simps split: completion.split sum.split option.split)
qed

lemma credential_route_wp:
  "wp (handleCredentialRoute deps req m) (\<lambda>r sw'. planned deps routes req r) (s, w)"
  by (cases "extractBearerToken req") (simp_all add: handleCredentialRoute_def wp_simps)

lemma action_route_wp:
  assumes "route \<in> set routes" and "method_name (rt_method route) = hr_method req" and "rt_path route = hr_path req"
  shows "wp (handleActionRoute deps uuid req route) (\<lambda>r sw'. planned deps routes req r) (s, w)"
proof (cases "extractBearerToken req")
  case None
  then show ?thesis by (simp add: handleActionRoute_def wp_simps)
next
  case (Some token)
  then have token: "bearer req token" by (simp add: extract_bearer)
  show ?thesis
  proof (cases "rt_auth route = Some AuthAdmin")
    case True
    have "wp (with_elevation deps uuid (as_id (rt_spec route)) p params
        (\<lambda>el. CallRoute (rt_spec route) data (admin_context uuid p el))) (\<lambda>r sw'. planned deps routes req r) sw"
      if "fst (hd_verifyAdminJwt deps token w) = Returned (Inr p)" "as_input (rt_spec route) params = Inr data"
      for p params data sw
      using that assms True by (intro elevation_wp plannedI [OF token]) (auto simp: admin_verified_def)
    with True show ?thesis
      using Some by (auto simp: handleActionRoute_def wp_simps split: completion.split sum.split)
  next
    case False
    have "planned deps routes req (Returned (CallRoute (rt_spec route) data (credential_context uuid c)))"
      if "fst (hd_lookupByToken deps token w) = Inr c" "as_input (rt_spec route) params = Inr data" for c params data
      using that assms False by (intro plannedI [OF token]) (auto simp: credential_found_def)
    with False show ?thesis
      using Some by (auto simp: handleActionRoute_def wp_simps split: sum.split)
  qed
qed

lemma capturedD: "captured prefix path = Some rest \<Longrightarrow> path = prefix @ rest"
  by (auto simp: captured_def Let_def starts_with_iff split: if_splits)

lemma matched: "matchHttpActionRoute routes m path = Some route \<Longrightarrow>
    route \<in> set routes \<and> method_name (rt_method route) = m \<and> rt_path route = path"
  by (auto simp: matchHttpActionRoute_def dest: find_first_SomeD)

lemma plan_wp: "wp (http_plan deps routes uuid req) (\<lambda>r sw'. planned deps routes req r) sw"
proof -
  obtain s w where sw: "sw = (s, w)" by (cases sw)
  show ?thesis
    unfolding sw http_plan_def
    by (auto simp: wp_simps credential_route_wp split: option.split bool.split
        intro!: admin_route_wp action_route_wp dest: capturedD matched)
qed

section \<open>Routing\<close>

lemma find_first_unique:
  "x \<in> set xs \<Longrightarrow> P x \<Longrightarrow> (\<And>y. y \<in> set xs \<Longrightarrow> P y \<Longrightarrow> y = x) \<Longrightarrow> find_first P xs = Some x"
  by (metis find_first_None find_first_SomeD option.exhaust)

lemma method_name_eq [simp]: "method_name a = method_name b \<longleftrightarrow> a = b"
  by (cases a; cases b) simp_all

lemma captured_unreserved:
  "\<not> reserved_path path \<Longrightarrow> captured ''/v1/admin/'' path = None \<and> captured ''/v1/credential/'' path = None"
  by (auto simp: reserved_path_def captured_def Let_def)

lemma own_route:
  assumes "registry_built registry" and "buildHttpActionRoutes registry = Inr routes"
    and "spec \<in> set (listForSurface SurfHttp registry)" and "isHttpExposed spec"
  shows "matchHttpActionRoute routes (method_name (deriveHttpMethod spec)) (deriveHttpPath spec DEFAULT_HTTP_BASE_PATH)
    = Some (route_of spec)"
proof -
  let ?specs = "filter isHttpExposed (listForSurface SurfHttp registry)"
  have "distinct (map http_route ?specs)"
    using built_ok [OF assms(1)] by (simp add: actions_ok_def contract_ok_def listed_exposed)
  then have inj: "a = b" if "a \<in> set ?specs" "b \<in> set ?specs" "http_route a = http_route b" for a b
    using that by (auto simp: distinct_map inj_on_def)
  have routes: "routes = map route_of ?specs"
    using assms(2) by (auto simp: buildHttpActionRoutes_def split: sum.splits)
  show ?thesis
    unfolding matchHttpActionRoute_def routes
  proof (rule find_first_unique)
    show "route_of spec \<in> set (map route_of ?specs)" using assms(3,4) by simp
  next
    fix y
    assume "y \<in> set (map route_of ?specs)" and y: "method_name (rt_method y) = method_name (deriveHttpMethod spec)
      \<and> rt_path y = deriveHttpPath spec DEFAULT_HTTP_BASE_PATH"
    then obtain a where a: "a \<in> set ?specs" "y = route_of a" by auto
    with y have "http_route a = http_route spec" by (simp add: route_of_def http_route_def)
    with inj [of a spec] a assms(3,4) show "y = route_of spec" by simp
  qed (simp add: route_of_def)
qed

section \<open>A concrete server\<close>

definition demo_http :: "int http_deps" where
  "demo_http = \<lparr>hd_parse = (\<lambda>t. None),
     hd_verifyAdminJwt = (\<lambda>t w. (verifyJwt jwt_demo_host DEFAULT_CLOCK_SKEW 249 t [], w)),
     hd_lookupByToken = (\<lambda>t w. (Inl (NotFoundError ''credential'' t), w)),
     hd_registry = demo_actions, hd_elevations = elev_demo_deps, hd_now = (\<lambda>w. w), hd_status = (\<lambda>w. (JNull, w))\<rparr>"

definition demo_get :: "string \<Rightarrow> http_request" where
  "demo_get token = \<lparr>hr_method = ''GET'', hr_path = ''/v1/actions/seal/list'', hr_query = [],
     hr_authorization = Some (''Bearer '' @ token), hr_text = None\<rparr>"

abbreviation demo_list :: "int action_spec" where
  "demo_list \<equiv> demo_spec ''seal.list'' (Some IntentRead) (Some (admin_http None))"

lemma demo_list_served:
  "demo_list \<in> set (listForSurface SurfHttp demo_actions)" "isHttpExposed demo_list"
  "method_name (deriveHttpMethod demo_list) = ''GET''"
  "deriveHttpPath demo_list DEFAULT_HTTP_BASE_PATH = ''/v1/actions/seal/list''"
proof -
  show "demo_list \<in> set (listForSurface SurfHttp demo_actions)"
    by (simp add: listForSurface_def ACTION_SURFACES_def demo_actions_def map_values_def)
      (simp add: demo_spec_def)
qed code_simp+

lemma demo_routes: "\<exists>routes. buildHttpActionRoutes (hd_registry demo_http) = Inr routes"
  using built_ok [OF demo_actions_built [where 'w = int]]
  by (simp add: buildHttpActionRoutes_def demo_http_def registry_validate_def actions_ok_def validate_iff [THEN iffD2])

lemma demo_plan:
  assumes "verifyJwt jwt_demo_host DEFAULT_CLOCK_SKEW 249 token [] = Returned (Inr demo_jwt)"
  shows "run_state (handleActionRoute demo_http ''u'' (demo_get token) (route_of demo_list)) (empty_elevations, 5)
    = (Returned (CallRoute demo_list (JObj []) (admin_context ''u'' demo_jwt None)), (empty_elevations, 5))"
proof -
  have "as_input demo_list = Inr" "as_id demo_list = ''seal.list''" "deriveHttpMethod demo_list = GET"
    "Option.bind (as_http demo_list) hs_auth = Some AuthAdmin"
    by (simp_all add: demo_spec_def deriveHttpMethod_def admin_http_def)
  then show ?thesis
    using assms by (simp add: handleActionRoute_def route_of_def extractBearerToken_def demo_get_def starts_with_def
        js_slice_def demo_http_def ask_def deriveHttpInputSource_def parseActionParams_def set_from_def
        with_elevation_def http_elevate_def resolveForRequest_def isMessageReadMethod_def)
qed

section \<open>Authority\<close>

definition admin_identity ::
  "'w http_deps \<Rightarrow> ('sk, 'pk) jwt_host \<Rightarrow> 8 word list \<Rightarrow> string \<Rightarrow> handler_context \<Rightarrow> bool" where
  "admin_identity deps host key m ctx \<longleftrightarrow>
     (\<exists>p. signed_claims host key p \<and> hc_adminAuth ctx = Some (jp_iss p)
        \<and> hc_operatorId ctx = None \<and> hc_credentialId ctx = None
        \<and> elevation_resolved deps m p (hc_adminReadElevation ctx))"

definition credential_identity :: "'w http_deps \<Rightarrow> string \<Rightarrow> handler_context \<Rightarrow> bool" where
  "credential_identity deps token ctx \<longleftrightarrow>
     (\<exists>c. credential_found deps token c \<and> hc_operatorId ctx = Some (hcr_operatorId c)
        \<and> hc_credentialId ctx = Some (hcr_credentialId c)
        \<and> hc_adminAuth ctx = None \<and> hc_adminReadElevation ctx = None)"



text \<open>
  For whatever was registered, the routes of the server are built without an issue, and every
  action exposed over HTTP is the one that answers the requests with its method and path: neither
  the routes of the server itself nor another action get in its way.
\<close>

theorem every_exposed_action_is_served:
  assumes "registry_built (hd_registry deps)"
  shows "\<exists>routes. buildHttpActionRoutes (hd_registry deps) = Inr routes
    \<and> (\<forall>spec uuid req. spec \<in> set (listForSurface SurfHttp (hd_registry deps)) \<longrightarrow> isHttpExposed spec \<longrightarrow>
         hr_method req = method_name (deriveHttpMethod spec) \<longrightarrow>
         hr_path req = deriveHttpPath spec DEFAULT_HTTP_BASE_PATH \<longrightarrow>
         http_plan deps routes uuid req = handleActionRoute deps uuid req (route_of spec))"
proof -
  have ok: "actions_ok (hd_registry deps)" by (rule built_ok [OF assms])
  then obtain routes where routes: "buildHttpActionRoutes (hd_registry deps) = Inr routes"
    by (auto simp: buildHttpActionRoutes_def registry_validate_def actions_ok_def validate_iff [THEN iffD2])
  have "http_plan deps routes uuid req = handleActionRoute deps uuid req (route_of spec)"
    if s: "spec \<in> set (listForSurface SurfHttp (hd_registry deps))" "isHttpExposed spec"
      and r: "hr_method req = method_name (deriveHttpMethod spec)"
        "hr_path req = deriveHttpPath spec DEFAULT_HTTP_BASE_PATH" for spec uuid req
  proof -
    have "\<not> reserved_path (hr_path req)"
      using ok s r(2) listed_subset [of SurfHttp "hd_registry deps"] by (auto simp: actions_ok_def contract_ok_def)
    with captured_unreserved [OF this] own_route [OF assms routes s] r show ?thesis
      by (simp add: http_plan_def reserved_path_def)
  qed
  with routes show ?thesis by blast
qed

theorem every_exposed_action_is_served_witness:
  "\<exists>routes. buildHttpActionRoutes (hd_registry demo_http) = Inr routes
     \<and> http_plan demo_http routes ''u'' (demo_get ''t'')
       = handleActionRoute demo_http ''u'' (demo_get ''t'') (route_of demo_list)"
proof -
  have r: "hd_registry demo_http = demo_actions" by (simp add: demo_http_def)
  have "registry_built (hd_registry demo_http)" unfolding r by (rule demo_actions_built)
  from every_exposed_action_is_served [OF this] demo_list_served show ?thesis
    unfolding r by (auto simp: demo_get_def)
qed

end
