(* ===== verification/Derivation.thy ===== *)
theory Derivation
  imports Jwt ResourceIds "HOL-Library.Word"
begin

unbundle bit_operations_syntax

text \<open>
  Mnemonics and derived keys (packages/keys/src/derivation.ts): BIP-39 phrases of 24 words, BIP-32
  derivation over secp256k1 and SLIP-0010 derivation over Ed25519.

  The hashes, PBKDF2, the two curves and Unicode normalisation are the host's, the fields of
  \<open>derivation_host\<close>, and the word list is an argument. \<open>Inl\<close> carries the message of a thrown
  error. A parent key is 32 bytes and a compressed public key 33, as HMAC-SHA512 and the curve
  make them; longer ones, which the byte array would refuse, do not arise.
\<close>

section \<open>The host\<close>

record derivation_host =
  dh_sha256 :: "8 word list \<Rightarrow> 8 word list"
  dh_hmac512 :: "8 word list \<Rightarrow> 8 word list \<Rightarrow> 8 word list"
  dh_pbkdf2 :: "8 word list \<Rightarrow> 8 word list \<Rightarrow> 8 word list"
  dh_keccak :: "8 word list \<Rightarrow> 8 word list"
  dh_secp_public :: "8 word list \<Rightarrow> bool \<Rightarrow> string + 8 word list"
  dh_secp_order :: int
  dh_ed_public :: "8 word list \<Rightarrow> 8 word list"
  dh_nfkd :: "string \<Rightarrow> string"

record derived_key =
  dk_privateKey :: "8 word list"
  dk_publicKey :: "8 word list"
  dk_chainCode :: "8 word list"

record derived_evm_key =
  de_privateKey :: "8 word list"
  de_publicKey :: "8 word list"
  de_address :: string

record derived_ed25519_key =
  dd_privateKey :: "8 word list"
  dd_publicKey :: "8 word list"

definition EVM_PATH_PREFIX :: string where
  "EVM_PATH_PREFIX = ''m/44'' @ [CHR 0x27] @ ''/60'' @ [CHR 0x27] @ ''/0'' @ [CHR 0x27] @ ''/0''"

definition ED25519_PATH_PREFIX :: string where
  "ED25519_PATH_PREFIX = ''m/44'' @ [CHR 0x27] @ ''/501'' @ [CHR 0x27]"

definition HARDENED_OFFSET :: nat where "HARDENED_OFFSET = 2147483648"
definition MAX_DERIVATION_INDEX :: nat where "MAX_DERIVATION_INDEX = 2147483647"

section \<open>Mnemonics\<close>

text \<open>Bit \<open>i\<close> of a byte array, and the number that \<open>numBits\<close> bits from an offset on make.\<close>

definition data_bit :: "8 word list \<Rightarrow> nat \<Rightarrow> bool" where
  "data_bit data k = bit (data ! (k div 8)) (7 - k mod 8)"

definition extractBits :: "8 word list \<Rightarrow> nat \<Rightarrow> nat \<Rightarrow> string + nat" where
  "extractBits data bitOffset numBits =
     (case find_first (\<lambda>i. length data \<le> (bitOffset + i) div 8) [0..<numBits] of
        Some i \<Rightarrow> Inl (''Bit extraction out of bounds at byte '' @ show_nat ((bitOffset + i) div 8))
      | None \<Rightarrow> Inr (foldl (\<lambda>value i. if data_bit data (bitOffset + i)
                                     then value OR push_bit (numBits - 1 - i) 1 else value) 0 [0..<numBits]))"

fun pick_words :: "string list \<Rightarrow> 8 word list \<Rightarrow> nat list \<Rightarrow> string + string list" where
  "pick_words wordlist allBytes [] = Inr []"
| "pick_words wordlist allBytes (i # is) =
     (case extractBits allBytes (i * 11) 11 of
        Inl e \<Rightarrow> Inl e
      | Inr index \<Rightarrow>
          if length wordlist \<le> index then Inl (''Invalid wordlist index: '' @ show_nat index)
          else (case pick_words wordlist allBytes is of
                  Inl e \<Rightarrow> Inl e
                | Inr ws \<Rightarrow> Inr (wordlist ! index # ws)))"

definition checksum_byte :: "derivation_host \<Rightarrow> 8 word list \<Rightarrow> 8 word" where
  "checksum_byte D entropy = (case dh_sha256 D entropy of b # _ \<Rightarrow> b | [] \<Rightarrow> 0)"

definition generateMnemonic :: "derivation_host \<Rightarrow> string list \<Rightarrow> 8 word list \<Rightarrow> string + string" where
  "generateMnemonic D wordlist entropy =
     (case pick_words wordlist (entropy @ [checksum_byte D entropy]) [0..<24] of
        Inl e \<Rightarrow> Inl e
      | Inr words \<Rightarrow> Inr (join_with '' '' words))"

definition mnemonicToSeed :: "derivation_host \<Rightarrow> string \<Rightarrow> string \<Rightarrow> 8 word list" where
  "mnemonicToSeed D mnemonic passphrase =
     dh_pbkdf2 D (utf8 (dh_nfkd D mnemonic)) (utf8 (''mnemonic'' @ dh_nfkd D passphrase))"

section \<open>Paths\<close>

record path_segment =
  ps_index :: nat
  ps_hardened :: bool

definition parse_segment :: "string \<Rightarrow> string + path_segment" where
  "parse_segment part =
     (if part = [] then Inl ''Invalid derivation path: empty segment''
      else let hardened = (last part = CHR 0x27);
               indexStr = (if hardened then butlast part else part);
               bad = Inl (''Invalid derivation path segment: '' @ [CHR 0x22] @ part @ [CHR 0x22]) in
           if indexStr = [] \<or> \<not> list_all is_digit indexStr then bad
           else if numeral_value indexStr > MAX_DERIVATION_INDEX then bad
           else Inr \<lparr>ps_index = numeral_value indexStr, ps_hardened = hardened\<rparr>)"

fun parse_segments :: "string list \<Rightarrow> string + path_segment list" where
  "parse_segments [] = Inr []"
| "parse_segments (p # ps) =
     (case parse_segment p of
        Inl e \<Rightarrow> Inl e
      | Inr seg \<Rightarrow> (case parse_segments ps of Inl e \<Rightarrow> Inl e | Inr segs \<Rightarrow> Inr (seg # segs)))"

definition parsePath :: "string \<Rightarrow> string + path_segment list" where
  "parsePath path =
     (if path = ''m'' then Inr []
      else case split_on CHR ''/'' path of
             first # parts \<Rightarrow>
               if first \<noteq> ''m''
               then Inl (''Invalid derivation path: must start with '' @ [CHR 0x22, CHR ''m'', CHR 0x22])
               else parse_segments parts
           | [] \<Rightarrow> Inr [])"

section \<open>Derivation\<close>

definition bytesToBigInt :: "8 word list \<Rightarrow> int" where
  "bytesToBigInt bytes = foldl (\<lambda>result byte. result * 256 + uint byte) 0 bytes"

fun bigIntToBytes :: "int \<Rightarrow> nat \<Rightarrow> 8 word list" where
  "bigIntToBytes value 0 = []"
| "bigIntToBytes value (Suc n) = bigIntToBytes (value div 256) n @ [word_of_int (value mod 256)]"

definition child_index :: "path_segment \<Rightarrow> 32 word" where
  "child_index segment =
     (if ps_hardened segment then of_nat (ps_index segment + HARDENED_OFFSET) else of_nat (ps_index segment))"

definition index_bytes :: "32 word \<Rightarrow> 8 word list" where
  "index_bytes i = [ucast (drop_bit 24 i AND 0xFF), ucast (drop_bit 16 i AND 0xFF),
     ucast (drop_bit 8 i AND 0xFF), ucast (i AND 0xFF)]"

definition child_data :: "8 word list \<Rightarrow> path_segment \<Rightarrow> 8 word list" where
  "child_data front segment = take 33 (front @ replicate 33 0) @ index_bytes (child_index segment)"

definition deriveChild ::
  "derivation_host \<Rightarrow> 8 word list \<Rightarrow> 8 word list \<Rightarrow> path_segment \<Rightarrow> string + 8 word list \<times> 8 word list" where
  "deriveChild D parentKey parentChainCode segment =
     (case (if ps_hardened segment then Inr (0 # parentKey) else dh_secp_public D parentKey True) of
        Inl e \<Rightarrow> Inl e
      | Inr front \<Rightarrow>
          (let derived = dh_hmac512 D parentChainCode (child_data front segment);
               result = (bytesToBigInt parentKey + bytesToBigInt (take 32 derived)) mod dh_secp_order D in
           Inr (bigIntToBytes result 32, take 32 (drop 32 derived))))"

fun derive_children ::
  "derivation_host \<Rightarrow> 8 word list \<times> 8 word list \<Rightarrow> path_segment list \<Rightarrow> string + 8 word list \<times> 8 word list" where
  "derive_children D (k, c) [] = Inr (k, c)"
| "derive_children D (k, c) (seg # segs) =
     (case deriveChild D k c seg of Inl e \<Rightarrow> Inl e | Inr kc \<Rightarrow> derive_children D kc segs)"

definition derivePath :: "derivation_host \<Rightarrow> 8 word list \<Rightarrow> string \<Rightarrow> string + derived_key" where
  "derivePath D seed path =
     (case parsePath path of
        Inl e \<Rightarrow> Inl e
      | Inr segments \<Rightarrow>
          (let master = dh_hmac512 D (utf8 ''Bitcoin seed'') seed in
           case derive_children D (take 32 master, take 32 (drop 32 master)) segments of
             Inl e \<Rightarrow> Inl e
           | Inr (privateKey, chainCode) \<Rightarrow>
               (case dh_secp_public D privateKey False of
                  Inl e \<Rightarrow> Inl e
                | Inr publicKey \<Rightarrow>
                    Inr \<lparr>dk_privateKey = privateKey, dk_publicKey = publicKey, dk_chainCode = chainCode\<rparr>)))"

definition deriveEvmKey :: "derivation_host \<Rightarrow> 8 word list \<Rightarrow> int \<Rightarrow> string + derived_evm_key" where
  "deriveEvmKey D seed index =
     (case derivePath D seed (EVM_PATH_PREFIX @ ''/'' @ show_int index) of
        Inl e \<Rightarrow> Inl e
      | Inr derived \<Rightarrow>
          Inr \<lparr>de_privateKey = dk_privateKey derived, de_publicKey = dk_publicKey derived,
               de_address = ''0x'' @ bytes_to_hex (drop 12 (dh_keccak D (drop 1 (dk_publicKey derived))))\<rparr>)"

definition ed25519_child :: "derivation_host \<Rightarrow> 8 word list \<times> 8 word list \<Rightarrow> path_segment \<Rightarrow> 8 word list \<times> 8 word list" where
  "ed25519_child D kc segment =
     (let data = take 33 ((0 # fst kc) @ replicate 33 0) @ index_bytes (of_nat (ps_index segment + HARDENED_OFFSET));
          derived = dh_hmac512 D (snd kc) data in
      (take 32 derived, take 32 (drop 32 derived)))"

definition deriveEd25519Path ::
  "derivation_host \<Rightarrow> 8 word list \<Rightarrow> string \<Rightarrow> string + 8 word list \<times> 8 word list" where
  "deriveEd25519Path D seed path =
     (case parsePath path of
        Inl e \<Rightarrow> Inl e
      | Inr segments \<Rightarrow>
          (let master = dh_hmac512 D (utf8 ''ed25519 seed'') seed in
           Inr (foldl (ed25519_child D) (take 32 master, take 32 (drop 32 master)) segments)))"

definition deriveEd25519Key :: "derivation_host \<Rightarrow> 8 word list \<Rightarrow> int \<Rightarrow> string + derived_ed25519_key" where
  "deriveEd25519Key D seed index =
     (case deriveEd25519Path D seed
             (ED25519_PATH_PREFIX @ ''/'' @ show_int index @ [CHR 0x27] @ ''/0'' @ [CHR 0x27]) of
        Inl e \<Rightarrow> Inl e
      | Inr (privateKey, _) \<Rightarrow> Inr \<lparr>dd_privateKey = privateKey, dd_publicKey = dh_ed_public D privateKey\<rparr>)"

section \<open>A mnemonic determines its entropy\<close>

lemma bit_foldl_or:
  "bit (foldl (\<lambda>v i. if P i then v OR push_bit (f i) 1 else v) v0 is) m
     \<longleftrightarrow> bit (v0 :: nat) m \<or> (\<exists>i \<in> set is. P i \<and> f i = m)"
  by (induction "is" arbitrary: v0) (auto simp: bit_simps)

lemma extractBits_ok:
  assumes "off + n \<le> 8 * length data"
  obtains v where "extractBits data off n = Inr v"
    and "\<And>m. bit v m \<longleftrightarrow> m < n \<and> data_bit data (off + (n - 1 - m))"
proof -
  have "find_first (\<lambda>i. length data \<le> (off + i) div 8) [0..<n] = None"
    using assms by (auto simp: find_first_None)
  then have "extractBits data off n = Inr (foldl (\<lambda>v i. if data_bit data (off + i)
      then v OR push_bit (n - 1 - i) 1 else v) 0 [0..<n])"
    by (simp add: extractBits_def)
  moreover have "bit (foldl (\<lambda>v i. if data_bit data (off + i) then v OR push_bit (n - 1 - i) 1 else v) (0::nat) [0..<n]) m
      \<longleftrightarrow> m < n \<and> data_bit data (off + (n - 1 - m))" for m
    unfolding bit_foldl_or by (auto intro!: bexI [where x = "n - 1 - m"])
  ultimately show ?thesis using that by blast
qed

lemma bits_below: "(\<And>m. bit (v :: nat) m \<Longrightarrow> m < n) \<Longrightarrow> v < 2 ^ n"
proof -
  assume "\<And>m. bit v m \<Longrightarrow> m < n"
  then have "take_bit n v = v" by (intro bit_eqI) (auto simp: bit_simps)
  then show ?thesis by (metis take_bit_nat_less_exp)
qed

lemma pick_words_ok:
  assumes "length wordlist = 2048" and "\<forall>i \<in> set is. i * 11 + 11 \<le> 8 * length data"
  shows "\<exists>ks. pick_words wordlist data is = Inr (map ((!) wordlist) ks) \<and> length ks = length is
     \<and> (\<forall>j < length is. ks ! j < 2048 \<and> (\<forall>m < 11. bit (ks ! j) m \<longleftrightarrow> data_bit data (is ! j * 11 + (10 - m))))"
  using assms(2)
proof (induction "is")
  case Nil
  then show ?case by simp
next
  case (Cons i "is")
  obtain v where v: "extractBits data (i * 11) 11 = Inr v"
    "\<And>m. bit v m \<longleftrightarrow> m < 11 \<and> data_bit data (i * 11 + (11 - 1 - m))"
    using Cons.prems extractBits_ok [of "i * 11" 11 data] by (metis list.set_intros(1))
  then have "v < 2048" using bits_below [of v 11] by simp
  from Cons obtain ks where "pick_words wordlist data is = Inr (map ((!) wordlist) ks)" "length ks = length is"
    "\<forall>j < length is. ks ! j < 2048 \<and> (\<forall>m < 11. bit (ks ! j) m \<longleftrightarrow> data_bit data (is ! j * 11 + (10 - m)))" by auto
  with v \<open>v < 2048\<close> assms(1) show ?case
    by (intro exI [where x = "v # ks"]) (auto simp: nth_Cons split: nat.split)
qed

lemma same_bits:
  assumes "length a = length b" and "\<And>k. k < 8 * length a \<Longrightarrow> data_bit a k \<longleftrightarrow> data_bit b k"
  shows "a = b"
proof (rule nth_equalityI [OF assms(1)])
  fix j assume j: "j < length a"
  show "a ! j = b ! j"
  proof (rule bit_word_eqI)
    fix n assume "n < LENGTH(8)"
    then have n: "n < 8" by simp
    define r where "r = 7 - n"
    have r: "r < 8" "7 - r = n" using n by (auto simp: r_def)
    have k: "8 * j + r < 8 * length a" "(8 * j + r) div 8 = j" "7 - (8 * j + r) mod 8 = n"
      using j r by auto
    from assms(2) [OF k(1)] k(2,3) show "bit (a ! j) n \<longleftrightarrow> bit (b ! j) n" by (simp add: data_bit_def)
  qed
qed

lemma generateMnemonic_words:
  assumes "length wordlist = 2048" and "length entropy = 32"
  shows "\<exists>ks. generateMnemonic D wordlist entropy = Inr (join_with '' '' (map ((!) wordlist) ks)) \<and> length ks = 24
     \<and> (\<forall>j < 24. ks ! j < 2048 \<and> (\<forall>m < 11. bit (ks ! j) m
          \<longleftrightarrow> data_bit (entropy @ [checksum_byte D entropy]) (j * 11 + (10 - m))))"
  using pick_words_ok [OF assms(1), of "[0..<24]" "entropy @ [checksum_byte D entropy]"] assms(2)
  by (auto simp: generateMnemonic_def)

lemma mnemonic_inj:
  assumes "length wordlist = 2048" and "distinct wordlist" and "\<forall>w \<in> set wordlist. CHR '' '' \<notin> set w"
    and "length a = 32" and "length b = 32" and "generateMnemonic D wordlist a = generateMnemonic D wordlist b"
  shows "a = b"
proof -
  obtain ks where ks: "generateMnemonic D wordlist a = Inr (join_with '' '' (map ((!) wordlist) ks))" "length ks = 24"
    "\<And>j m. j < 24 \<Longrightarrow> ks ! j < 2048" "\<And>j m. j < 24 \<Longrightarrow> m < 11 \<Longrightarrow> bit (ks ! j) m \<longleftrightarrow>
        data_bit (a @ [checksum_byte D a]) (j * 11 + (10 - m))"
    using generateMnemonic_words [OF assms(1,4)] by metis
  obtain ls where ls: "generateMnemonic D wordlist b = Inr (join_with '' '' (map ((!) wordlist) ls))" "length ls = 24"
    "\<And>j m. j < 24 \<Longrightarrow> ls ! j < 2048" "\<And>j m. j < 24 \<Longrightarrow> m < 11 \<Longrightarrow> bit (ls ! j) m \<longleftrightarrow>
        data_bit (b @ [checksum_byte D b]) (j * 11 + (10 - m))"
    using generateMnemonic_words [OF assms(1,5)] by metis
  have split: "split_on CHR '' '' (join_with '' '' (map ((!) wordlist) xs)) = map ((!) wordlist) xs"
    if "length xs = 24" "\<And>j. j < 24 \<Longrightarrow> xs ! j < 2048" for xs
  proof -
    have "\<forall>x \<in> set xs. x < 2048" using that by (auto simp: in_set_conv_nth)
    then have "\<forall>p \<in> set (map ((!) wordlist) xs). CHR '' '' \<notin> set p" using assms(1,3) by auto
    moreover have "map ((!) wordlist) xs \<noteq> []" using that(1) by auto
    ultimately show ?thesis by (simp add: split_on_iff)
  qed
  from assms(6) ks(1) ls(1) have "map ((!) wordlist) ks = map ((!) wordlist) ls"
    using split [OF ks(2,3)] split [OF ls(2,3)] by (metis Inr_inject)
  then have "wordlist ! (ks ! j) = wordlist ! (ls ! j)" if "j < 24" for j
    using that ks(2) ls(2) by (metis nth_map)
  then have eq: "ks ! j = ls ! j" if "j < 24" for j
    using that assms(1,2) ks(3) ls(3) by (metis nth_eq_iff_index_eq)
  have "a @ [checksum_byte D a] = b @ [checksum_byte D b]"
  proof (rule same_bits)
    show "length (a @ [checksum_byte D a]) = length (b @ [checksum_byte D b])" using assms(4,5) by simp
  next
    fix k assume "k < 8 * length (a @ [checksum_byte D a])"
    then have k: "k div 11 < 24" "10 - k mod 11 < 11" "k div 11 * 11 + (10 - (10 - k mod 11)) = k"
      using assms(4) by auto
    from ks(4) [OF k(1,2)] ls(4) [OF k(1,2)] eq [OF k(1)]
    show "data_bit (a @ [checksum_byte D a]) k \<longleftrightarrow> data_bit (b @ [checksum_byte D b]) k" unfolding k(3) by simp
  qed
  then show "a = b" by simp
qed

section \<open>Paths of the wallets\<close>

lemma parse_index:
  "parse_segment (show_nat n) = (if n \<le> MAX_DERIVATION_INDEX then Inr \<lparr>ps_index = n, ps_hardened = False\<rparr>
     else Inl (''Invalid derivation path segment: '' @ [CHR 0x22] @ show_nat n @ [CHR 0x22]))"
  "parse_segment (show_nat n @ [CHR 0x27]) = (if n \<le> MAX_DERIVATION_INDEX then Inr \<lparr>ps_index = n, ps_hardened = True\<rparr>
     else Inl (''Invalid derivation path segment: '' @ [CHR 0x22] @ show_nat n @ [CHR 0x27, CHR 0x22]))"
proof -
  have d: "list_all is_digit (show_nat n)" "show_nat n \<noteq> []" using show_nat_digits [of n] by auto
  then have "is_digit (last (show_nat n))" by (simp add: list_all_iff)
  then have "last (show_nat n) \<noteq> CHR 0x27" by (auto simp: is_digit_def)
  with d show "parse_segment (show_nat n) = (if n \<le> MAX_DERIVATION_INDEX then Inr \<lparr>ps_index = n, ps_hardened = False\<rparr>
     else Inl (''Invalid derivation path segment: '' @ [CHR 0x22] @ show_nat n @ [CHR 0x22]))"
    by (simp add: parse_segment_def show_nat_value Let_def)
  from d show "parse_segment (show_nat n @ [CHR 0x27]) = (if n \<le> MAX_DERIVATION_INDEX then Inr \<lparr>ps_index = n, ps_hardened = True\<rparr>
     else Inl (''Invalid derivation path segment: '' @ [CHR 0x22] @ show_nat n @ [CHR 0x27, CHR 0x22]))"
    by (simp add: parse_segment_def show_nat_value Let_def)
qed

lemma show_nat_no_slash: "CHR ''/'' \<notin> set (show_nat n)"
  using show_nat_digits [of n] by (auto simp: list_all_iff is_digit_def)

definition hardened :: "nat \<Rightarrow> path_segment" where
  "hardened i = \<lparr>ps_index = i, ps_hardened = True\<rparr>"

definition normal :: "nat \<Rightarrow> path_segment" where
  "normal i = \<lparr>ps_index = i, ps_hardened = False\<rparr>"

lemma fixed_segments:
  "parse_segment (''44'' @ [CHR 0x27]) = Inr (hardened 44)"
  "parse_segment (''60'' @ [CHR 0x27]) = Inr (hardened 60)"
  "parse_segment (''501'' @ [CHR 0x27]) = Inr (hardened 501)"
  "parse_segment (''0'' @ [CHR 0x27]) = Inr (hardened 0)"
  "parse_segment ''0'' = Inr (normal 0)"
  by (simp_all add: parse_segment_def is_digit_def numeral_value_def digit_value_def MAX_DERIVATION_INDEX_def hardened_def normal_def)

lemma evm_path:
  "parsePath (EVM_PATH_PREFIX @ ''/'' @ show_nat n)
     = (if n \<le> MAX_DERIVATION_INDEX
        then Inr [hardened 44, hardened 60, hardened 0, normal 0, normal n]
        else Inl (''Invalid derivation path segment: '' @ [CHR 0x22] @ show_nat n @ [CHR 0x22]))"
proof -
  have "split_on CHR ''/'' (EVM_PATH_PREFIX @ ''/'' @ show_nat n)
      = [''m'', ''44'' @ [CHR 0x27], ''60'' @ [CHR 0x27], ''0'' @ [CHR 0x27], ''0'', show_nat n]"
    unfolding split_on_iff using show_nat_no_slash [of n] by (simp add: EVM_PATH_PREFIX_def)
  moreover have "EVM_PATH_PREFIX @ ''/'' @ show_nat n \<noteq> ''m''" by (simp add: EVM_PATH_PREFIX_def)
  ultimately show ?thesis
    unfolding parsePath_def using parse_index(1) [of n] by (simp add: fixed_segments [simplified] normal_def)
qed

lemma ed25519_path:
  "parsePath (ED25519_PATH_PREFIX @ ''/'' @ show_nat n @ [CHR 0x27] @ ''/0'' @ [CHR 0x27])
     = (if n \<le> MAX_DERIVATION_INDEX then Inr [hardened 44, hardened 501, hardened n, hardened 0]
        else Inl (''Invalid derivation path segment: '' @ [CHR 0x22] @ show_nat n @ [CHR 0x27, CHR 0x22]))"
proof -
  have "split_on CHR ''/'' (ED25519_PATH_PREFIX @ ''/'' @ show_nat n @ [CHR 0x27] @ ''/0'' @ [CHR 0x27])
      = [''m'', ''44'' @ [CHR 0x27], ''501'' @ [CHR 0x27], show_nat n @ [CHR 0x27], ''0'' @ [CHR 0x27]]"
    unfolding split_on_iff using show_nat_no_slash [of n] by (simp add: ED25519_PATH_PREFIX_def)
  moreover have "ED25519_PATH_PREFIX @ ''/'' @ show_nat n @ [CHR 0x27] @ ''/0'' @ [CHR 0x27] \<noteq> ''m''"
    by (simp add: ED25519_PATH_PREFIX_def)
  ultimately show ?thesis
    unfolding parsePath_def using parse_index(2) [of n] by (simp add: fixed_segments [simplified] hardened_def)
qed

text \<open>The index of a child enters the hash in a way that tells any two children apart.\<close>

lemma index_bytes_inj: "index_bytes i = index_bytes j \<longleftrightarrow> i = j"
proof
  assume "index_bytes i = index_bytes j"
  then have b: "ucast (drop_bit 24 i AND 0xFF) = (ucast (drop_bit 24 j AND 0xFF) :: 8 word)"
    "ucast (drop_bit 16 i AND 0xFF) = (ucast (drop_bit 16 j AND 0xFF) :: 8 word)"
    "ucast (drop_bit 8 i AND 0xFF) = (ucast (drop_bit 8 j AND 0xFF) :: 8 word)"
    "ucast (i AND 0xFF) = (ucast (j AND 0xFF) :: 8 word)" by (simp_all add: index_bytes_def)
  have m: "(0xFF :: 32 word) = mask 8" by (simp add: mask_eq_exp_minus_1)
  have bits: "bit i (k + n) \<longleftrightarrow> bit j (k + n)"
    if "ucast (drop_bit k i AND 0xFF) = (ucast (drop_bit k j AND 0xFF) :: 8 word)" "n < 8" for k n
  proof -
    from that(1) have "bit (ucast (drop_bit k i AND 0xFF) :: 8 word) n \<longleftrightarrow> bit (ucast (drop_bit k j AND 0xFF) :: 8 word) n" by simp
    with that(2) show ?thesis by (simp add: m bit_simps add.commute)
  qed
  show "i = j"
  proof (rule bit_word_eqI)
    fix n assume "n < LENGTH(32)"
    then consider "n < 8" | "8 \<le> n \<and> n < 16" | "16 \<le> n \<and> n < 24" | "24 \<le> n \<and> n < 32" by force
    then show "bit i n \<longleftrightarrow> bit j n"
    proof cases
      case 1
      with bits [of 0 n] b(4) show ?thesis by simp
    next
      case 2
      then have "n - 8 < 8" "8 + (n - 8) = n" by linarith+
      with bits [OF b(3), of "n - 8"] show ?thesis by simp
    next
      case 3
      then have "n - 16 < 8" "16 + (n - 16) = n" by linarith+
      with bits [OF b(2), of "n - 16"] show ?thesis by simp
    next
      case 4
      then have "n - 24 < 8" "24 + (n - 24) = n" by linarith+
      with bits [OF b(1), of "n - 24"] show ?thesis by simp
    qed
  qed
qed simp

lemma child_index_inj:
  assumes "ps_index a \<le> MAX_DERIVATION_INDEX" and "ps_index b \<le> MAX_DERIVATION_INDEX"
  shows "child_index a = child_index b \<longleftrightarrow> a = b"
proof -
  have "unat (child_index s) = (if ps_hardened s then ps_index s + HARDENED_OFFSET else ps_index s)"
    if "ps_index s \<le> MAX_DERIVATION_INDEX" for s
  proof -
    have u: "unat (of_nat k :: 32 word) = k" if "k < 4294967296" for k
      using that by (simp add: unat_of_nat take_bit_eq_mod)
    from that show ?thesis
      unfolding child_index_def HARDENED_OFFSET_def MAX_DERIVATION_INDEX_def
      using u [of "ps_index s"] u [of "ps_index s + 2147483648"] by auto
  qed
  with assms show ?thesis
    by (cases a; cases b) (auto simp: HARDENED_OFFSET_def MAX_DERIVATION_INDEX_def dest: arg_cong [where f = unat] split: if_splits)
qed

lemma children_hash_apart:
  assumes "ps_index a \<le> MAX_DERIVATION_INDEX" and "ps_index b \<le> MAX_DERIVATION_INDEX" and "a \<noteq> b"
  shows "child_data front a \<noteq> child_data front' b"
proof
  assume "child_data front a = child_data front' b"
  moreover have "length (take 33 (f @ replicate 33 0)) = 33" for f :: "8 word list" by simp
  ultimately have "index_bytes (child_index a) = index_bytes (child_index b)"
    unfolding child_data_def by (metis append_eq_append_conv)
  with assms child_index_inj index_bytes_inj show False by metis
qed

text \<open>
  A phrase is 24 words of the list and determines the entropy it was made from: no index leaves
  the list and no two entropies have the same phrase.
\<close>

theorem mnemonic_determines_entropy:
  assumes "length wordlist = 2048" and "distinct wordlist" and "\<forall>w \<in> set wordlist. CHR '' '' \<notin> set w"
    and "length a = 32" and "length b = 32"
  shows "(\<exists>ws. generateMnemonic D wordlist a = Inr (join_with '' '' ws) \<and> length ws = 24 \<and> set ws \<subseteq> set wordlist)
    \<and> (generateMnemonic D wordlist a = generateMnemonic D wordlist b \<longleftrightarrow> a = b)"
proof -
  obtain ks where "generateMnemonic D wordlist a = Inr (join_with '' '' (map ((!) wordlist) ks))" "length ks = 24"
    "\<forall>j < 24. ks ! j < 2048"
    using generateMnemonic_words [OF assms(1,4)] by metis
  moreover from this have "\<forall>k \<in> set ks. k < 2048" by (auto simp: in_set_conv_nth)
  ultimately have "\<exists>ws. generateMnemonic D wordlist a = Inr (join_with '' '' ws) \<and> length ws = 24 \<and> set ws \<subseteq> set wordlist"
    using assms(1) by (intro exI [where x = "map ((!) wordlist) ks"]) auto
  with mnemonic_inj [OF assms] show ?thesis by blast
qed

definition demo_words :: "string list" where
  "demo_words = map show_nat [0..<2048]"

lemma distinct_numbers: "distinct (map show_nat [0..<n])"
  by (simp add: distinct_map inj_on_def)

definition derivation_demo :: derivation_host where
  "derivation_demo = \<lparr>dh_sha256 = (\<lambda>b. b), dh_hmac512 = (\<lambda>k d. replicate 64 1), dh_pbkdf2 = (\<lambda>p s. p @ s),
     dh_keccak = (\<lambda>b. replicate 32 2), dh_secp_public = (\<lambda>k c. Inr k), dh_secp_order = 115, dh_ed_public = (\<lambda>k. k),
     dh_nfkd = (\<lambda>s. s)\<rparr>"

lemma mnemonic_determines_entropy_witness:
  "(\<exists>ws. generateMnemonic derivation_demo demo_words (replicate 32 7) = Inr (join_with '' '' ws)
      \<and> length ws = 24 \<and> set ws \<subseteq> set demo_words)
   \<and> (generateMnemonic derivation_demo demo_words (replicate 32 7)
        = generateMnemonic derivation_demo demo_words (replicate 32 8) \<longleftrightarrow> replicate 32 7 = (replicate 32 8 :: 8 word list))"
proof (rule mnemonic_determines_entropy)
  show "length demo_words = 2048" unfolding demo_words_def by (simp only: length_map length_upt)
  show "length (replicate 32 (7 :: 8 word)) = 32" "length (replicate 32 (8 :: 8 word)) = 32"
    by simp_all
  show "distinct demo_words" unfolding demo_words_def by (rule distinct_numbers)
  have "\<not> is_digit CHR '' ''" by (simp add: is_digit_def)
  then have "CHR '' '' \<notin> set (show_nat n)" for n
    using show_nat_digits [of n] unfolding list_all_iff by blast
  then show "\<forall>w \<in> set demo_words. CHR '' '' \<notin> set w" unfolding demo_words_def set_map ball_simps by blast
qed

end
