(* ===== verification/Vault.thy ===== *)
theory Vault
  imports Jwt VerifierChecks StateRules
begin

text \<open>
  The vault of the signet (packages/keys/src/vault.ts): opaque secrets, wallet mnemonics under
  the owner's passphrase and copies of a mnemonic under the token of an API key. One
  implementation keeps them in maps, the other in files.

  The ciphers, hashes, key derivations and the JSON text are the host's, the fields of
  \<open>vault_host\<close>; what the host draws at random, and the time, are arguments of an operation. The
  file system is a map from paths to contents. A call of it fails, without any effect, when
  \<open>fs_fault\<close> says so, and the faults may change between operations. \<open>existsSync\<close> never fails.
  Encrypted blocks are JSON values, as the code stores them. An entry of the accounts of a stored
  wallet is taken to be an \<open>AccountEntry\<close>; the code does not check it, and a file with another
  entry is no wallet here. An operation that rejects its promise returns \<open>Threw\<close>.
\<close>

section \<open>The interface\<close>

datatype chain = Evm | Ed25519

record account_entry =
  ae_index :: int
  ae_chain :: chain
  ae_address :: string

record wallet_file_info =
  wi_id :: string
  wi_label :: string
  wi_accountCount :: nat
  wi_createdAt :: string

record api_key_payload =
  ap_mnemonic :: string
  ap_walletId :: string

text \<open>What an operation draws: a salt, an initialisation vector and the time.\<close>

record draw =
  dr_salt :: "8 word list"
  dr_iv :: "8 word list"
  dr_now :: string

type_synonym ('s, 'a) task = "('s, 'a result completion) state"

record 's vault =
  v_set :: "draw \<Rightarrow> string \<Rightarrow> 8 word list \<Rightarrow> ('s, unit) task"
  v_get :: "string \<Rightarrow> ('s, 8 word list) task"
  v_delete :: "string \<Rightarrow> ('s, unit) task"
  v_list :: "('s, string list completion) state"
  v_createWallet :: "draw \<Rightarrow> string \<Rightarrow> string \<Rightarrow> string \<Rightarrow> string \<Rightarrow> ('s, unit) task"
  v_readWallet :: "string \<Rightarrow> string \<Rightarrow> ('s, string) task"
  v_deleteWallet :: "string \<Rightarrow> ('s, unit) task"
  v_listWallets :: "('s, wallet_file_info list) task"
  v_getWalletAccounts :: "string \<Rightarrow> ('s, account_entry list) task"
  v_updateWalletAccounts :: "string \<Rightarrow> account_entry list \<Rightarrow> ('s, unit) task"
  v_createApiKey :: "draw \<Rightarrow> string \<Rightarrow> string \<Rightarrow> string \<Rightarrow> string \<Rightarrow> string \<Rightarrow> ('s, unit) task"
  v_readApiKey :: "string \<Rightarrow> ('s, api_key_payload) task"
  v_revokeApiKey :: "string \<Rightarrow> ('s, unit) task"
  v_close :: "('s, unit) state"

section \<open>What the host computes\<close>

text \<open>\<open>vh_scrypt passphrase salt N r p dkLen\<close>, \<open>vh_hkdf token salt info\<close>, AES-GCM of the noble
  package (\<open>vh_gcm\<close>, \<open>vh_ungcm\<close>) and of Web Crypto (\<open>vh_import\<close>, \<open>vh_seal\<close>, \<open>vh_unseal\<close>), the
  hexadecimal text of the noble package, \<open>TextDecoder\<close>, \<open>JSON.stringify(_, null, 2)\<close> and \<open>JSON.parse\<close>, and the order in
  which a directory is listed. \<open>Inl\<close> and \<open>None\<close> are exceptions.\<close>

record vault_host =
  vh_scrypt :: "8 word list \<Rightarrow> 8 word list \<Rightarrow> int \<Rightarrow> int \<Rightarrow> int \<Rightarrow> int \<Rightarrow> string + 8 word list"
  vh_hkdf :: "8 word list \<Rightarrow> 8 word list \<Rightarrow> string \<Rightarrow> 8 word list"
  vh_gcm :: "8 word list \<Rightarrow> 8 word list \<Rightarrow> 8 word list \<Rightarrow> 8 word list"
  vh_ungcm :: "8 word list \<Rightarrow> 8 word list \<Rightarrow> 8 word list \<Rightarrow> 8 word list option"
  vh_seal :: "8 word list \<Rightarrow> 8 word list \<Rightarrow> 8 word list \<Rightarrow> string + 8 word list"
  vh_unseal :: "8 word list \<Rightarrow> 8 word list \<Rightarrow> 8 word list \<Rightarrow> string + 8 word list"
  vh_import :: "8 word list \<Rightarrow> string + 8 word list"
  vh_sha256 :: "8 word list \<Rightarrow> 8 word list"
  vh_hex :: "8 word list \<Rightarrow> string"
  vh_unhex :: "string \<Rightarrow> 8 word list option"
  vh_decode :: "8 word list \<Rightarrow> string"
  vh_pretty :: "json \<Rightarrow> string"
  vh_parse :: "string \<Rightarrow> json option"
  vh_listing :: "string list \<Rightarrow> string list"

definition DEFAULT_SCRYPT_N :: int where "DEFAULT_SCRYPT_N = 131072"
definition DEFAULT_SCRYPT_R :: int where "DEFAULT_SCRYPT_R = 8"
definition DEFAULT_SCRYPT_P :: int where "DEFAULT_SCRYPT_P = 1"
definition DEFAULT_SCRYPT_DKLEN :: int where "DEFAULT_SCRYPT_DKLEN = 32"
definition TEST_SCRYPT_N :: int where "TEST_SCRYPT_N = 1024"
definition IV_BYTES :: nat where "IV_BYTES = 12"

section \<open>Reading untrusted values\<close>

text \<open>\<open>value[key]\<close>; reading a property of null throws. \<open>None\<close> is an exception or undefined, which
  every use below turns into one.\<close>

definition prop_of :: "string \<Rightarrow> json \<Rightarrow> json option" where
  "prop_of key value = (case json_prop value key of Returned x \<Rightarrow> x | Threw _ \<Rightarrow> None)"

fun text_of :: "json \<Rightarrow> string option" where
  "text_of (JStr s) = Some s"
| "text_of _ = None"

fun number_of :: "json \<Rightarrow> int option" where
  "number_of (JNum n) = Some n"
| "number_of _ = None"

definition text_prop :: "string \<Rightarrow> json \<Rightarrow> string option" where
  "text_prop key value = Option.bind (prop_of key value) text_of"

definition number_prop :: "string \<Rightarrow> json \<Rightarrow> int option" where
  "number_prop key value = Option.bind (prop_of key value) number_of"

definition bytes_prop :: "vault_host \<Rightarrow> string \<Rightarrow> json \<Rightarrow> 8 word list option" where
  "bytes_prop H key value = Option.bind (text_prop key value) (vh_unhex H)"

fun is_object :: "json \<Rightarrow> bool" where
  "is_object JNull = True"
| "is_object (JArr _) = True"
| "is_object (JObj _) = True"
| "is_object _ = False"

definition is_text :: "json option \<Rightarrow> bool" where
  "is_text v = (case v of Some (JStr _) \<Rightarrow> True | _ \<Rightarrow> False)"

section \<open>Guards and files\<close>

fun isApiKeyPayload :: "json \<Rightarrow> bool" where
  "isApiKeyPayload (JObj fs) \<longleftrightarrow>
     is_text (map_of fs ''mnemonic'') \<and> is_text (map_of fs ''walletId'')"
| "isApiKeyPayload _ \<longleftrightarrow> False"

fun isWalletFile :: "json \<Rightarrow> bool" where
  "isWalletFile (JObj fs) \<longleftrightarrow>
     map_of fs ''version'' = Some (JNum 3)
     \<and> is_text (map_of fs ''id'') \<and> is_text (map_of fs ''label'')
     \<and> (case map_of fs ''crypto'' of Some c \<Rightarrow> is_object c | None \<Rightarrow> False)
     \<and> (case map_of fs ''accounts'' of Some (JArr _) \<Rightarrow> True | _ \<Rightarrow> False)
     \<and> is_text (map_of fs ''createdAt'')"
| "isWalletFile _ \<longleftrightarrow> False"

fun isApiKeyFile :: "json \<Rightarrow> bool" where
  "isApiKeyFile (JObj fs) \<longleftrightarrow>
     is_text (map_of fs ''id'') \<and> is_text (map_of fs ''walletId'')
     \<and> (case map_of fs ''crypto'' of Some c \<Rightarrow> is_object c | None \<Rightarrow> False)
     \<and> is_text (map_of fs ''createdAt'')"
| "isApiKeyFile _ \<longleftrightarrow> False"

record wallet_file =
  wf_id :: string
  wf_label :: string
  wf_crypto :: json
  wf_accounts :: "account_entry list"
  wf_createdAt :: string

record api_key_file =
  kf_id :: string
  kf_walletId :: string
  kf_crypto :: json
  kf_expiresAt :: string
  kf_createdAt :: string

fun chain_name :: "chain \<Rightarrow> string" where
  "chain_name Evm = ''evm''"
| "chain_name Ed25519 = ''ed25519''"

definition account_json :: "account_entry \<Rightarrow> json" where
  "account_json e = JObj [(''index'', JNum (ae_index e)), (''chain'', JStr (chain_name (ae_chain e))),
     (''address'', JStr (ae_address e))]"

definition parse_chain :: "string \<Rightarrow> chain option" where
  "parse_chain s = (if s = ''evm'' then Some Evm else if s = ''ed25519'' then Some Ed25519 else None)"

definition account_of_json :: "json \<Rightarrow> account_entry option" where
  "account_of_json j =
     (case (number_prop ''index'' j, Option.bind (text_prop ''chain'' j) parse_chain, text_prop ''address'' j) of
        (Some i, Some c, Some a) \<Rightarrow> Some \<lparr>ae_index = i, ae_chain = c, ae_address = a\<rparr>
      | _ \<Rightarrow> None)"

definition wallet_json :: "wallet_file \<Rightarrow> json" where
  "wallet_json f = JObj [(''version'', JNum 3), (''id'', JStr (wf_id f)), (''label'', JStr (wf_label f)),
     (''crypto'', wf_crypto f), (''accounts'', JArr (map account_json (wf_accounts f))),
     (''createdAt'', JStr (wf_createdAt f))]"

definition api_key_json :: "api_key_file \<Rightarrow> json" where
  "api_key_json f = JObj [(''id'', JStr (kf_id f)), (''walletId'', JStr (kf_walletId f)),
     (''crypto'', kf_crypto f), (''expiresAt'', JStr (kf_expiresAt f)), (''createdAt'', JStr (kf_createdAt f))]"

text \<open>The entries of an array that are all accounts.\<close>

fun accounts_of :: "json list \<Rightarrow> account_entry list option" where
  "accounts_of [] = Some []"
| "accounts_of (j # js) =
     (case (account_of_json j, accounts_of js) of (Some a, Some as) \<Rightarrow> Some (a # as) | _ \<Rightarrow> None)"

definition wallet_of_json :: "json \<Rightarrow> wallet_file option" where
  "wallet_of_json raw =
     (if \<not> isWalletFile raw then None
      else case (text_prop ''id'' raw, text_prop ''label'' raw, prop_of ''crypto'' raw,
                 prop_of ''accounts'' raw, text_prop ''createdAt'' raw) of
             (Some i, Some l, Some c, Some (JArr js), Some t) \<Rightarrow>
               map_option (\<lambda>as. \<lparr>wf_id = i, wf_label = l, wf_crypto = c, wf_accounts = as, wf_createdAt = t\<rparr>)
                 (accounts_of js)
           | _ \<Rightarrow> None)"

section \<open>Encryption\<close>

text \<open>\<open>encryptWithScrypt\<close>; \<open>Inl\<close> is what scrypt throws.\<close>

definition encryptWithScrypt ::
  "vault_host \<Rightarrow> 8 word list \<Rightarrow> 8 word list \<Rightarrow> string \<Rightarrow> string \<Rightarrow> bool \<Rightarrow> string + json" where
  "encryptWithScrypt H salt iv plaintext passphrase isTest =
     (let n = (if isTest then TEST_SCRYPT_N else DEFAULT_SCRYPT_N) in
      case vh_scrypt H (utf8 passphrase) salt n DEFAULT_SCRYPT_R DEFAULT_SCRYPT_P DEFAULT_SCRYPT_DKLEN of
        Inl e \<Rightarrow> Inl e
      | Inr dk \<Rightarrow>
          (let encrypted = vh_gcm H dk iv (utf8 plaintext);
               mac = vh_sha256 H (dk @ encrypted) in
           Inr (JObj [(''cipher'', JStr ''aes-256-gcm''), (''ciphertext'', JStr (vh_hex H encrypted)),
             (''cipherparams'', JObj [(''iv'', JStr (vh_hex H iv))]), (''kdf'', JStr ''scrypt''),
             (''kdfparams'', JObj [(''n'', JNum n), (''r'', JNum DEFAULT_SCRYPT_R), (''p'', JNum DEFAULT_SCRYPT_P),
                (''dklen'', JNum DEFAULT_SCRYPT_DKLEN), (''salt'', JStr (vh_hex H salt))]),
             (''mac'', JStr (vh_hex H mac))])))"

definition wrong_passphrase :: signet_error where
  "wrong_passphrase = AuthError ''Wrong passphrase or corrupted wallet'' None"

text \<open>The body of the \<open>try\<close> of \<open>decryptWithScrypt\<close>; \<open>None\<close> is an exception.\<close>

definition scrypt_key :: "vault_host \<Rightarrow> json \<Rightarrow> string \<Rightarrow> 8 word list option" where
  "scrypt_key H block passphrase = do {
     params \<leftarrow> prop_of ''kdfparams'' block;
     salt \<leftarrow> bytes_prop H ''salt'' params;
     n \<leftarrow> number_prop ''n'' params;
     r \<leftarrow> number_prop ''r'' params;
     p \<leftarrow> number_prop ''p'' params;
     dklen \<leftarrow> number_prop ''dklen'' params;
     (case vh_scrypt H (utf8 passphrase) salt n r p dklen of Inl _ \<Rightarrow> None | Inr dk \<Rightarrow> Some dk)
   }"

definition scrypt_body :: "vault_host \<Rightarrow> json \<Rightarrow> string \<Rightarrow> string result option" where
  "scrypt_body H block passphrase = do {
     dk \<leftarrow> scrypt_key H block passphrase;
     ciphertextBytes \<leftarrow> bytes_prop H ''ciphertext'' block;
     storedMac \<leftarrow> bytes_prop H ''mac'' block;
     (if vh_hex H (vh_sha256 H (dk @ ciphertextBytes)) \<noteq> vh_hex H storedMac
      then Some (Inl wrong_passphrase)
      else do {
        params \<leftarrow> prop_of ''cipherparams'' block;
        iv \<leftarrow> bytes_prop H ''iv'' params;
        decrypted \<leftarrow> vh_ungcm H dk iv ciphertextBytes;
        Some (Inr (vh_decode H decrypted))
      })
   }"

definition decryptWithScrypt :: "vault_host \<Rightarrow> json \<Rightarrow> string \<Rightarrow> string result" where
  "decryptWithScrypt H block passphrase =
     (case scrypt_body H block passphrase of
        Some r \<Rightarrow> r
      | None \<Rightarrow> Inl (AuthError ''Decryption failed - wrong passphrase or corrupt data'' None))"

definition API_KEY_INFO :: string where
  "API_KEY_INFO = ''signet-api-key''"

definition encryptWithHkdf :: "vault_host \<Rightarrow> 8 word list \<Rightarrow> 8 word list \<Rightarrow> string \<Rightarrow> string \<Rightarrow> json" where
  "encryptWithHkdf H salt iv plaintext token =
     (let dk = vh_hkdf H (utf8 token) salt API_KEY_INFO;
          encrypted = vh_gcm H dk iv (utf8 plaintext) in
      JObj [(''cipher'', JStr ''aes-256-gcm''), (''ciphertext'', JStr (vh_hex H encrypted)),
        (''cipherparams'', JObj [(''iv'', JStr (vh_hex H iv))]), (''kdf'', JStr ''hkdf-sha256''),
        (''kdfparams'', JObj [(''salt'', JStr (vh_hex H salt)), (''info'', JStr API_KEY_INFO)])])"

definition hkdf_body :: "vault_host \<Rightarrow> json \<Rightarrow> string \<Rightarrow> string option" where
  "hkdf_body H block token = do {
     params \<leftarrow> prop_of ''kdfparams'' block;
     salt \<leftarrow> bytes_prop H ''salt'' params;
     info \<leftarrow> text_prop ''info'' params;
     cipherparams \<leftarrow> prop_of ''cipherparams'' block;
     iv \<leftarrow> bytes_prop H ''iv'' cipherparams;
     ciphertext \<leftarrow> bytes_prop H ''ciphertext'' block;
     decrypted \<leftarrow> vh_ungcm H (vh_hkdf H (utf8 token) salt info) iv ciphertext;
     Some (vh_decode H decrypted)
   }"

definition decryptWithHkdf :: "vault_host \<Rightarrow> json \<Rightarrow> string \<Rightarrow> string result" where
  "decryptWithHkdf H block token =
     (case hkdf_body H block token of
        Some s \<Rightarrow> Inr s
      | None \<Rightarrow> Inl (InternalError ''API key decryption failed - invalid token'' None))"

definition api_key_payload_text :: "string \<Rightarrow> string \<Rightarrow> string" where
  "api_key_payload_text mnemonic walletId =
     stringify (JObj [(''mnemonic'', JStr mnemonic), (''walletId'', JStr walletId)])"

definition parseApiKeyPayload :: "vault_host \<Rightarrow> string \<Rightarrow> api_key_payload result" where
  "parseApiKeyPayload H decrypted =
     (case vh_parse H decrypted of
        None \<Rightarrow> Inl (InternalError ''Failed to parse API key data'' None)
      | Some parsed \<Rightarrow>
          if \<not> isApiKeyPayload parsed then Inl (InternalError ''Corrupt API key payload'' None)
          else (case (text_prop ''mnemonic'' parsed, text_prop ''walletId'' parsed) of
                  (Some m, Some w) \<Rightarrow> Inr \<lparr>ap_mnemonic = m, ap_walletId = w\<rparr>
                | _ \<Rightarrow> Inl (InternalError ''Corrupt API key payload'' None)))"

end
