(* ===== verification/VaultStores.thy ===== *)
theory VaultStores
  imports Vault
begin

text \<open>
  The two vaults of packages/keys/src/vault.ts: \<open>createMemoryVault\<close> over maps and
  \<open>createFileVault\<close> over a directory.
\<close>

definition ok_unit :: "('s, unit) task" where
  "ok_unit = State_Monad.return (Returned (Inr ()))"

definition fails :: "signet_error \<Rightarrow> ('s, 'a) task" where
  "fails e = State_Monad.return (Returned (Inl e))"

definition succeeds :: "'a \<Rightarrow> ('s, 'a) task" where
  "succeeds x = State_Monad.return (Returned (Inr x))"

lemma wp_fails [wp_simps]: "wp (fails e) Q s \<longleftrightarrow> Q (Returned (Inl e)) s"
  by (simp add: fails_def wp_return)

lemma wp_succeeds [wp_simps]: "wp (succeeds x) Q s \<longleftrightarrow> Q (Returned (Inr x)) s"
  by (simp add: succeeds_def wp_return)

lemma wp_ok_unit [wp_simps]: "wp ok_unit Q s \<longleftrightarrow> Q (Returned (Inr ())) s"
  by (simp add: ok_unit_def wp_return)

section \<open>The vault in memory\<close>

record memory_vault =
  mv_secrets :: "(string, 8 word list) js_map"
  mv_wallets :: "(string, wallet_file) js_map"
  mv_apiKeys :: "(string, api_key_file) js_map"
  mv_tokenIndex :: "(string, string) js_map"

definition empty_memory_vault :: memory_vault where
  "empty_memory_vault = \<lparr>mv_secrets = [], mv_wallets = [], mv_apiKeys = [], mv_tokenIndex = []\<rparr>"

definition mem_set :: "draw \<Rightarrow> string \<Rightarrow> 8 word list \<Rightarrow> (memory_vault, unit) task" where
  "mem_set d name value = do {
     modify (\<lambda>s. s\<lparr>mv_secrets := map_set name value (mv_secrets s)\<rparr>);
     ok_unit
   }"

definition mem_get :: "string \<Rightarrow> (memory_vault, 8 word list) task" where
  "mem_get name = do {
     s \<leftarrow> gets (\<lambda>s. s);
     case map_get (mv_secrets s) name of
       None \<Rightarrow> fails (NotFoundError ''VaultSecret'' name)
     | Some value \<Rightarrow> succeeds value
   }"

definition mem_delete :: "string \<Rightarrow> (memory_vault, unit) task" where
  "mem_delete name = do {
     s \<leftarrow> gets (\<lambda>s. s);
     if map_get (mv_secrets s) name = None then fails (NotFoundError ''VaultSecret'' name)
     else do {
       modify (\<lambda>s. s\<lparr>mv_secrets := map_delete name (mv_secrets s)\<rparr>);
       ok_unit
     }
   }"

definition mem_list :: "(memory_vault, string list completion) state" where
  "mem_list = do {
     s \<leftarrow> gets (\<lambda>s. s);
     State_Monad.return (Returned (sort (map_keys (mv_secrets s))))
   }"

definition new_wallet_file :: "string \<Rightarrow> string \<Rightarrow> json \<Rightarrow> string \<Rightarrow> wallet_file" where
  "new_wallet_file i label cryptoBlock now =
     \<lparr>wf_id = i, wf_label = label, wf_crypto = cryptoBlock, wf_accounts = [], wf_createdAt = now\<rparr>"

definition mem_createWallet ::
  "vault_host \<Rightarrow> draw \<Rightarrow> string \<Rightarrow> string \<Rightarrow> string \<Rightarrow> string \<Rightarrow> (memory_vault, unit) task" where
  "mem_createWallet H d i label mnemonic passphrase =
     (case encryptWithScrypt H (dr_salt d) (dr_iv d) mnemonic passphrase True of
        Inl e \<Rightarrow> State_Monad.return (Threw (HostError e))
      | Inr cryptoBlock \<Rightarrow> do {
          modify (\<lambda>s. s\<lparr>mv_wallets := map_set i (new_wallet_file i label cryptoBlock (dr_now d)) (mv_wallets s)\<rparr>);
          ok_unit
        })"

definition mem_readWallet :: "vault_host \<Rightarrow> string \<Rightarrow> string \<Rightarrow> (memory_vault, string) task" where
  "mem_readWallet H i passphrase = do {
     s \<leftarrow> gets (\<lambda>s. s);
     case map_get (mv_wallets s) i of
       None \<Rightarrow> fails (NotFoundError ''Wallet'' i)
     | Some file \<Rightarrow> State_Monad.return (Returned (decryptWithScrypt H (wf_crypto file) passphrase))
   }"

definition mem_deleteWallet :: "string \<Rightarrow> (memory_vault, unit) task" where
  "mem_deleteWallet i = do {
     s \<leftarrow> gets (\<lambda>s. s);
     if map_get (mv_wallets s) i = None then fails (NotFoundError ''Wallet'' i)
     else do {
       modify (\<lambda>s. s\<lparr>mv_wallets := map_delete i (mv_wallets s)\<rparr>);
       ok_unit
     }
   }"

definition wallet_info_of :: "wallet_file \<Rightarrow> wallet_file_info" where
  "wallet_info_of f = \<lparr>wi_id = wf_id f, wi_label = wf_label f, wi_accountCount = length (wf_accounts f),
     wi_createdAt = wf_createdAt f\<rparr>"

definition mem_listWallets :: "(memory_vault, wallet_file_info list) task" where
  "mem_listWallets = do {
     s \<leftarrow> gets (\<lambda>s. s);
     succeeds (map wallet_info_of (map_values (mv_wallets s)))
   }"

definition mem_getWalletAccounts :: "string \<Rightarrow> (memory_vault, account_entry list) task" where
  "mem_getWalletAccounts i = do {
     s \<leftarrow> gets (\<lambda>s. s);
     case map_get (mv_wallets s) i of
       None \<Rightarrow> fails (NotFoundError ''Wallet'' i)
     | Some file \<Rightarrow> succeeds (wf_accounts file)
   }"

definition mem_updateWalletAccounts :: "string \<Rightarrow> account_entry list \<Rightarrow> (memory_vault, unit) task" where
  "mem_updateWalletAccounts i accounts = do {
     s \<leftarrow> gets (\<lambda>s. s);
     case map_get (mv_wallets s) i of
       None \<Rightarrow> fails (NotFoundError ''Wallet'' i)
     | Some file \<Rightarrow> do {
         modify (\<lambda>s. s\<lparr>mv_wallets := map_set i (file\<lparr>wf_accounts := accounts\<rparr>) (mv_wallets s)\<rparr>);
         ok_unit
       }
   }"

definition new_api_key_file ::
  "vault_host \<Rightarrow> draw \<Rightarrow> string \<Rightarrow> string \<Rightarrow> string \<Rightarrow> string \<Rightarrow> string \<Rightarrow> api_key_file" where
  "new_api_key_file H d i walletId mnemonic token expiresAt =
     \<lparr>kf_id = i, kf_walletId = walletId,
      kf_crypto = encryptWithHkdf H (dr_salt d) (dr_iv d) (api_key_payload_text mnemonic walletId) token,
      kf_expiresAt = expiresAt, kf_createdAt = dr_now d\<rparr>"

definition mem_createApiKey ::
  "vault_host \<Rightarrow> draw \<Rightarrow> string \<Rightarrow> string \<Rightarrow> string \<Rightarrow> string \<Rightarrow> string \<Rightarrow> (memory_vault, unit) task" where
  "mem_createApiKey H d i walletId mnemonic token expiresAt = do {
     modify (\<lambda>s. s\<lparr>mv_apiKeys := map_set i (new_api_key_file H d i walletId mnemonic token expiresAt) (mv_apiKeys s),
                   mv_tokenIndex := map_set token i (mv_tokenIndex s)\<rparr>);
     ok_unit
   }"

text \<open>An empty id is falsy.\<close>

definition mem_readApiKey :: "vault_host \<Rightarrow> string \<Rightarrow> (memory_vault, api_key_payload) task" where
  "mem_readApiKey H token = do {
     s \<leftarrow> gets (\<lambda>s. s);
     case map_get (mv_tokenIndex s) token of
       None \<Rightarrow> fails (NotFoundError ''ApiKey'' ''by-token'')
     | Some keyId \<Rightarrow>
         if keyId = [] then fails (NotFoundError ''ApiKey'' ''by-token'')
         else case map_get (mv_apiKeys s) keyId of
                None \<Rightarrow> fails (NotFoundError ''ApiKey'' keyId)
              | Some file \<Rightarrow>
                  (case decryptWithHkdf H (kf_crypto file) token of
                     Inl e \<Rightarrow> fails e
                   | Inr decrypted \<Rightarrow> State_Monad.return (Returned (parseApiKeyPayload H decrypted)))
   }"

definition mem_revokeApiKey :: "string \<Rightarrow> (memory_vault, unit) task" where
  "mem_revokeApiKey i = do {
     s \<leftarrow> gets (\<lambda>s. s);
     if map_get (mv_apiKeys s) i = None then fails (NotFoundError ''ApiKey'' i)
     else do {
       modify (\<lambda>s. s\<lparr>mv_tokenIndex :=
           (case find_first (\<lambda>(tok, keyId). keyId = i) (mv_tokenIndex s) of
              None \<Rightarrow> mv_tokenIndex s
            | Some (tok, _) \<Rightarrow> map_delete tok (mv_tokenIndex s)),
         mv_apiKeys := map_delete i (mv_apiKeys s)\<rparr>);
       ok_unit
     }
   }"

definition mem_close :: "(memory_vault, unit) state" where
  "mem_close = modify (\<lambda>s. empty_memory_vault)"

definition createMemoryVault :: "vault_host \<Rightarrow> memory_vault vault" where
  "createMemoryVault H =
     \<lparr>v_set = mem_set, v_get = mem_get, v_delete = mem_delete, v_list = mem_list,
      v_createWallet = mem_createWallet H, v_readWallet = mem_readWallet H,
      v_deleteWallet = mem_deleteWallet, v_listWallets = mem_listWallets,
      v_getWalletAccounts = mem_getWalletAccounts, v_updateWalletAccounts = mem_updateWalletAccounts,
      v_createApiKey = mem_createApiKey H, v_readApiKey = mem_readApiKey H,
      v_revokeApiKey = mem_revokeApiKey, v_close = mem_close\<rparr>"

section \<open>Files\<close>

datatype fs_call = FsWrite string | FsChmod string | FsRead string | FsUnlink string | FsReaddir string | FsRmdir string
  | FsMkdir string

record fs =
  fs_files :: "(string, 8 word list) js_map"
  fs_dirs :: "string list"
  fs_fault :: "fs_call \<Rightarrow> string option"

definition fs_exists :: "string \<Rightarrow> (fs, bool) state" where
  "fs_exists path = gets (\<lambda>s. map_get (fs_files s) path \<noteq> None \<or> path \<in> set (fs_dirs s))"

text \<open>A call that fails does nothing.\<close>

definition fs_do :: "fs_call \<Rightarrow> (fs, 'a) state \<Rightarrow> (fs, string + 'a) state" where
  "fs_do call act = do {
     s \<leftarrow> gets (\<lambda>s. s);
     case fs_fault s call of
       Some e \<Rightarrow> State_Monad.return (Inl e)
     | None \<Rightarrow> do { x \<leftarrow> act; State_Monad.return (Inr x) }
   }"

definition fs_write :: "string \<Rightarrow> 8 word list \<Rightarrow> (fs, string + unit) state" where
  "fs_write path content =
     fs_do (FsWrite path) (modify (\<lambda>s. s\<lparr>fs_files := map_set path content (fs_files s)\<rparr>))"

definition fs_chmod :: "string \<Rightarrow> (fs, string + unit) state" where
  "fs_chmod path = fs_do (FsChmod path) (State_Monad.return ())"

definition fs_unlink :: "string \<Rightarrow> (fs, string + unit) state" where
  "fs_unlink path =
     fs_do (FsUnlink path) (modify (\<lambda>s. s\<lparr>fs_files := map_delete path (fs_files s)\<rparr>))"

text \<open>The content of a file, or nothing when there is none.\<close>

definition fs_read :: "string \<Rightarrow> (fs, string + 8 word list option) state" where
  "fs_read path = fs_do (FsRead path) (gets (\<lambda>s. map_get (fs_files s) path))"

definition join :: "string \<Rightarrow> string \<Rightarrow> string" where
  "join dir name = dir @ ''/'' @ name"

definition names_in :: "string \<Rightarrow> (string, 'v) js_map \<Rightarrow> string list" where
  "names_in dir files =
     filter (\<lambda>n. CHR ''/'' \<notin> set n)
       (map (drop (length dir + 1)) (filter (starts_with (dir @ ''/'')) (map_keys files)))"

definition fs_readdir :: "vault_host \<Rightarrow> string \<Rightarrow> (fs, string + string list) state" where
  "fs_readdir H dir =
     fs_do (FsReaddir dir) (gets (\<lambda>s. vh_listing H (names_in dir (fs_files s))))"

definition fs_mkdir :: "string \<Rightarrow> (fs, string + unit) state" where
  "fs_mkdir dir = fs_do (FsMkdir dir) (modify (\<lambda>s. s\<lparr>fs_dirs := dir # fs_dirs s\<rparr>))"

section \<open>The names of secrets\<close>

definition unreserved :: "char \<Rightarrow> bool" where
  "unreserved c \<longleftrightarrow>
     (let n = (of_char c :: nat) in 48 \<le> n \<and> n \<le> 57 \<or> 65 \<le> n \<and> n \<le> 90 \<or> 97 \<le> n \<and> n \<le> 122)
     \<or> c \<in> set ''-_.!~*()'' \<or> c = CHR 0x27"

definition percent :: "8 word \<Rightarrow> string" where
  "percent b = [CHR ''%'', ''0123456789ABCDEF'' ! (unat b div 16), ''0123456789ABCDEF'' ! (unat b mod 16)]"

definition encode_char :: "char \<Rightarrow> string" where
  "encode_char c = (if unreserved c then [c] else concat (map percent (utf8_char c)))"

text \<open>\<open>encodeURIComponent\<close>, and \<open>decodeURIComponent\<close> for names of characters below 256.\<close>

definition encodeSecretName :: "string \<Rightarrow> string" where
  "encodeSecretName name = concat (map encode_char name)"

definition hex_pair :: "char \<Rightarrow> char \<Rightarrow> nat option" where
  "hex_pair a b =
     (case (hex_digit a, hex_digit b) of (Some x, Some y) \<Rightarrow> Some (nat (16 * x + y)) | _ \<Rightarrow> None)"

fun decode_uri :: "string \<Rightarrow> string option" where
  "decode_uri [] = Some []"
| "decode_uri (c # s) =
     (if c \<noteq> CHR ''%'' then map_option ((#) c) (decode_uri s)
      else case s of
        a # b # s' \<Rightarrow>
          (case hex_pair a b of
             None \<Rightarrow> None
           | Some n \<Rightarrow>
               if n < 128 then map_option ((#) (char_of n)) (decode_uri s')
               else if n \<noteq> 194 \<and> n \<noteq> 195 then None
               else (case s' of
                       p # a' # b' # s'' \<Rightarrow>
                         (case (p = CHR ''%'', hex_pair a' b') of
                            (True, Some m) \<Rightarrow>
                              if 128 \<le> m \<and> m < 192
                              then map_option ((#) (char_of ((n - 192) * 64 + (m - 128)))) (decode_uri s'')
                              else None
                          | _ \<Rightarrow> None)
                     | _ \<Rightarrow> None))
      | _ \<Rightarrow> None)"

definition decodeSecretName :: "string \<Rightarrow> string option" where
  "decodeSecretName filename =
     (if \<not> ends_with ''.bin'' filename then None
      else decode_uri (take (length filename - 4) filename))"

section \<open>The vault on disk\<close>

definition encryptSecret :: "vault_host \<Rightarrow> 8 word list \<Rightarrow> 8 word list \<Rightarrow> 8 word list \<Rightarrow> string + 8 word list" where
  "encryptSecret H key iv plaintext =
     (case vh_seal H key iv plaintext of Inl e \<Rightarrow> Inl e | Inr ciphertext \<Rightarrow> Inr (iv @ ciphertext))"

definition decryptSecret :: "vault_host \<Rightarrow> 8 word list \<Rightarrow> 8 word list \<Rightarrow> string + 8 word list" where
  "decryptSecret H key data = vh_unseal H key (take IV_BYTES data) (drop IV_BYTES data)"

text \<open>Sequencing of calls that may throw, and \<open>try\<close>.\<close>

definition and_then ::
  "('s, string + 'a) state \<Rightarrow> ('a \<Rightarrow> ('s, string + 'b) state) \<Rightarrow> ('s, string + 'b) state" where
  "and_then m f = do { r \<leftarrow> m; case r of Inl e \<Rightarrow> State_Monad.return (Inl e) | Inr x \<Rightarrow> f x }"

definition try_or :: "(string \<Rightarrow> signet_error) \<Rightarrow> ('s, string + 'a result) state \<Rightarrow> ('s, 'a) task" where
  "try_or mk body = do {
     r \<leftarrow> body;
     State_Monad.return (Returned (case r of Inl e \<Rightarrow> Inl (mk e) | Inr x \<Rightarrow> x))
   }"

definition failed :: "string \<Rightarrow> (string \<times> ctx_value) list \<Rightarrow> string \<Rightarrow> signet_error" where
  "failed what about e = InternalError what (Some (about @ [(''cause'', CtxStr e)]))"

definition done_with :: "'a result \<Rightarrow> ('s, string + 'a result) state" where
  "done_with r = State_Monad.return (Inr r)"

definition secretsDir :: "string \<Rightarrow> string" where "secretsDir dataDir = join dataDir ''secrets''"
definition walletsDir :: "string \<Rightarrow> string" where "walletsDir dataDir = join dataDir ''wallets''"
definition keysDir :: "string \<Rightarrow> string" where "keysDir dataDir = join dataDir ''keys''"

definition secretPath :: "string \<Rightarrow> string \<Rightarrow> string" where
  "secretPath dataDir name = join (secretsDir dataDir) (encodeSecretName name @ ''.bin'')"

definition json_name :: "string \<Rightarrow> string" where
  "json_name i = i @ ''.json''"

definition writeSecureFile :: "vault_host \<Rightarrow> string \<Rightarrow> json \<Rightarrow> (fs, string + unit) state" where
  "writeSecureFile H path data =
     and_then (fs_write path (utf8 (vh_pretty H data))) (\<lambda>_. fs_chmod path)"

definition readJsonFile :: "vault_host \<Rightarrow> string \<Rightarrow> (fs, string + json option) state" where
  "readJsonFile H path =
     and_then (fs_read path) (\<lambda>content. State_Monad.return
       (case content of
          None \<Rightarrow> Inr None
        | Some bytes \<Rightarrow>
            (case vh_parse H (vh_decode H bytes) of
               None \<Rightarrow> Inl ''SyntaxError''
             | Some j \<Rightarrow> Inr (Some j))))"

definition file_set :: "vault_host \<Rightarrow> string \<Rightarrow> 8 word list \<Rightarrow> draw \<Rightarrow> string \<Rightarrow> 8 word list \<Rightarrow> (fs, unit) task" where
  "file_set H dir key d name value =
     try_or (failed ''Failed to store vault secret'' [(''name'', CtxStr name)])
       (and_then (State_Monad.return (encryptSecret H key (dr_iv d) value)) (\<lambda>encrypted.
        and_then (fs_write (secretPath dir name) encrypted) (\<lambda>_.
        and_then (fs_chmod (secretPath dir name)) (\<lambda>_. done_with (Inr ())))))"

definition file_get :: "vault_host \<Rightarrow> string \<Rightarrow> 8 word list \<Rightarrow> string \<Rightarrow> (fs, 8 word list) task" where
  "file_get H dir key name = do {
     present \<leftarrow> fs_exists (secretPath dir name);
     if \<not> present then fails (NotFoundError ''VaultSecret'' name)
     else try_or (failed ''Failed to read vault secret'' [(''name'', CtxStr name)])
       (and_then (fs_read (secretPath dir name)) (\<lambda>content.
        and_then (State_Monad.return (case content of None \<Rightarrow> Inl ''ENOENT'' | Some b \<Rightarrow> decryptSecret H key b))
          (\<lambda>plaintext. done_with (Inr plaintext))))
   }"

text \<open>\<open>unlinkSync\<close> stands outside a \<open>try\<close>: when it fails the promise rejects.\<close>

definition unlink_entry :: "string \<Rightarrow> signet_error \<Rightarrow> (fs, unit) task" where
  "unlink_entry path missing = do {
     present \<leftarrow> fs_exists path;
     if \<not> present then fails missing
     else do {
       r \<leftarrow> fs_unlink path;
       case r of Inl e \<Rightarrow> State_Monad.return (Threw (HostError e)) | Inr _ \<Rightarrow> ok_unit
     }
   }"

definition file_delete :: "string \<Rightarrow> string \<Rightarrow> (fs, unit) task" where
  "file_delete dir name = unlink_entry (secretPath dir name) (NotFoundError ''VaultSecret'' name)"

definition file_list :: "vault_host \<Rightarrow> string \<Rightarrow> (fs, string list completion) state" where
  "file_list H dir = do {
     r \<leftarrow> fs_readdir H (secretsDir dir);
     State_Monad.return (case r of
       Inl e \<Rightarrow> Threw (HostError e)
     | Inr names \<Rightarrow> Returned (sort (List.map_filter decodeSecretName names)))
   }"

definition wallet_path :: "string \<Rightarrow> string \<Rightarrow> string" where
  "wallet_path dir i = join (walletsDir dir) (json_name i)"

definition file_createWallet ::
  "vault_host \<Rightarrow> string \<Rightarrow> draw \<Rightarrow> string \<Rightarrow> string \<Rightarrow> string \<Rightarrow> string \<Rightarrow> (fs, unit) task" where
  "file_createWallet H dir d i label mnemonic passphrase =
     try_or (failed ''Failed to create wallet file'' [(''id'', CtxStr i)])
       (and_then (State_Monad.return (encryptWithScrypt H (dr_salt d) (dr_iv d) mnemonic passphrase False))
          (\<lambda>cryptoBlock.
        and_then (writeSecureFile H (wallet_path dir i)
            (wallet_json (new_wallet_file i label cryptoBlock (dr_now d)))) (\<lambda>_. done_with (Inr ()))))"

text \<open>\<open>!raw || !isWalletFile(raw)\<close>.\<close>

definition stored_wallet :: "vault_host \<Rightarrow> string \<Rightarrow> string \<Rightarrow> (fs, string + wallet_file option) state" where
  "stored_wallet H dir i =
     and_then (readJsonFile H (wallet_path dir i)) (\<lambda>raw.
       State_Monad.return (Inr (Option.bind raw wallet_of_json)))"

definition with_wallet ::
  "vault_host \<Rightarrow> string \<Rightarrow> string \<Rightarrow> string \<Rightarrow> (wallet_file \<Rightarrow> (fs, string + 'a result) state) \<Rightarrow> (fs, 'a) task" where
  "with_wallet H dir what i body =
     try_or (failed what [(''id'', CtxStr i)])
       (and_then (stored_wallet H dir i) (\<lambda>raw.
          case raw of None \<Rightarrow> done_with (Inl (NotFoundError ''Wallet'' i)) | Some f \<Rightarrow> body f))"

definition file_readWallet :: "vault_host \<Rightarrow> string \<Rightarrow> string \<Rightarrow> string \<Rightarrow> (fs, string) task" where
  "file_readWallet H dir i passphrase =
     with_wallet H dir ''Failed to read wallet'' i
       (\<lambda>f. done_with (decryptWithScrypt H (wf_crypto f) passphrase))"

definition file_deleteWallet :: "string \<Rightarrow> string \<Rightarrow> (fs, unit) task" where
  "file_deleteWallet dir i = unlink_entry (wallet_path dir i) (NotFoundError ''Wallet'' i)"

text \<open>One round of a loop over the files of a directory.\<close>

fun wallet_infos :: "vault_host \<Rightarrow> string \<Rightarrow> string list \<Rightarrow> (fs, string + wallet_file_info list) state" where
  "wallet_infos H dir [] = State_Monad.return (Inr [])"
| "wallet_infos H dir (filename # names) =
     and_then (readJsonFile H (join (walletsDir dir) filename)) (\<lambda>raw.
     and_then (wallet_infos H dir names) (\<lambda>infos.
       State_Monad.return (Inr
         (case Option.bind raw wallet_of_json of None \<Rightarrow> infos | Some f \<Rightarrow> wallet_info_of f # infos))))"

definition file_listWallets :: "vault_host \<Rightarrow> string \<Rightarrow> (fs, wallet_file_info list) task" where
  "file_listWallets H dir =
     try_or (failed ''Failed to list wallets'' [])
       (and_then (fs_readdir H (walletsDir dir)) (\<lambda>files.
        and_then (wallet_infos H dir (filter (ends_with ''.json'') files)) (\<lambda>infos. done_with (Inr infos))))"

definition file_getWalletAccounts :: "vault_host \<Rightarrow> string \<Rightarrow> string \<Rightarrow> (fs, account_entry list) task" where
  "file_getWalletAccounts H dir i =
     with_wallet H dir ''Failed to read wallet accounts'' i (\<lambda>f. done_with (Inr (wf_accounts f)))"

definition file_updateWalletAccounts ::
  "vault_host \<Rightarrow> string \<Rightarrow> string \<Rightarrow> account_entry list \<Rightarrow> (fs, unit) task" where
  "file_updateWalletAccounts H dir i accounts =
     with_wallet H dir ''Failed to update wallet accounts'' i (\<lambda>f.
       and_then (writeSecureFile H (wallet_path dir i) (wallet_json (f\<lparr>wf_accounts := accounts\<rparr>)))
         (\<lambda>_. done_with (Inr ())))"

definition key_path :: "string \<Rightarrow> string \<Rightarrow> string" where
  "key_path dir i = join (keysDir dir) (json_name i)"

definition file_createApiKey ::
  "vault_host \<Rightarrow> string \<Rightarrow> draw \<Rightarrow> string \<Rightarrow> string \<Rightarrow> string \<Rightarrow> string \<Rightarrow> string \<Rightarrow> (fs, unit) task" where
  "file_createApiKey H dir d i walletId mnemonic token expiresAt =
     try_or (failed ''Failed to create API key file'' [(''id'', CtxStr i)])
       (and_then (writeSecureFile H (key_path dir i)
            (api_key_json (new_api_key_file H d i walletId mnemonic token expiresAt)))
          (\<lambda>_. done_with (Inr ())))"

text \<open>What one key file answers to a token.\<close>

definition try_key :: "vault_host \<Rightarrow> string \<Rightarrow> json \<Rightarrow> api_key_payload option" where
  "try_key H token raw =
     (if \<not> isApiKeyFile raw then None
      else case prop_of ''crypto'' raw of
             None \<Rightarrow> None
           | Some block \<Rightarrow>
               (case decryptWithHkdf H block token of
                  Inl _ \<Rightarrow> None
                | Inr decrypted \<Rightarrow>
                    (case parseApiKeyPayload H decrypted of Inl _ \<Rightarrow> None | Inr payload \<Rightarrow> Some payload)))"

fun scan_keys :: "vault_host \<Rightarrow> string \<Rightarrow> string \<Rightarrow> string list \<Rightarrow> (fs, string + api_key_payload option) state" where
  "scan_keys H dir token [] = State_Monad.return (Inr None)"
| "scan_keys H dir token (filename # names) =
     and_then (readJsonFile H (join (keysDir dir) filename)) (\<lambda>raw.
       case Option.bind raw (try_key H token) of
         Some payload \<Rightarrow> State_Monad.return (Inr (Some payload))
       | None \<Rightarrow> scan_keys H dir token names)"

definition file_readApiKey :: "vault_host \<Rightarrow> string \<Rightarrow> string \<Rightarrow> (fs, api_key_payload) task" where
  "file_readApiKey H dir token =
     try_or (failed ''Failed to read API key'' [])
       (and_then (fs_readdir H (keysDir dir)) (\<lambda>files.
        and_then (scan_keys H dir token (filter (ends_with ''.json'') files)) (\<lambda>found.
          done_with (case found of
            None \<Rightarrow> Inl (NotFoundError ''ApiKey'' ''by-token'')
          | Some payload \<Rightarrow> Inr payload))))"

definition file_revokeApiKey :: "string \<Rightarrow> string \<Rightarrow> (fs, unit) task" where
  "file_revokeApiKey dir i = unlink_entry (key_path dir i) (NotFoundError ''ApiKey'' i)"

definition file_vault :: "vault_host \<Rightarrow> string \<Rightarrow> 8 word list \<Rightarrow> fs vault" where
  "file_vault H dir key =
     \<lparr>v_set = file_set H dir key, v_get = file_get H dir key, v_delete = file_delete dir, v_list = file_list H dir,
      v_createWallet = file_createWallet H dir, v_readWallet = file_readWallet H dir,
      v_deleteWallet = file_deleteWallet dir, v_listWallets = file_listWallets H dir,
      v_getWalletAccounts = file_getWalletAccounts H dir,
      v_updateWalletAccounts = file_updateWalletAccounts H dir, v_createApiKey = file_createApiKey H dir,
      v_readApiKey = file_readApiKey H dir, v_revokeApiKey = file_revokeApiKey dir,
      v_close = State_Monad.return ()\<rparr>"

section \<open>Opening a vault\<close>

definition ensure_dir :: "string \<Rightarrow> (fs, string + unit) state" where
  "ensure_dir dir = do {
     present \<leftarrow> fs_exists dir;
     if present then State_Monad.return (Inr ())
     else and_then (fs_mkdir dir) (\<lambda>_. fs_chmod dir)
   }"

definition createFileVault :: "vault_host \<Rightarrow> string \<Rightarrow> 8 word list \<Rightarrow> (fs, string + fs vault) state" where
  "createFileVault H dataDir secretKey =
     and_then (ensure_dir (secretsDir dataDir)) (\<lambda>_.
     and_then (ensure_dir (walletsDir dataDir)) (\<lambda>_.
     and_then (ensure_dir (keysDir dataDir)) (\<lambda>_.
       State_Monad.return (Inr (file_vault H dataDir secretKey)))))"

text \<open>The vault of a data directory. The secret is what the secret provider answers, the
  hexadecimal text of the key.\<close>

definition open_file_vault ::
  "vault_host \<Rightarrow> string \<Rightarrow> string \<Rightarrow> (fs, string result) state \<Rightarrow> (fs, fs vault) task" where
  "open_file_vault H dataDir providerKind getSecret =
     try_or (failed ''Failed to create vault'' [(''dataDir'', CtxStr dataDir)])
       (and_then (ensure_dir dataDir) (\<lambda>_. do {
          secretResult \<leftarrow> getSecret;
          case secretResult of
            Inl e \<Rightarrow> done_with (Inl (InternalError ''Failed to resolve vault secret''
              (Some [(''dataDir'', CtxStr dataDir), (''providerKind'', CtxStr providerKind),
                     (''cause'', CtxStr (error_message e))])))
          | Inr secret \<Rightarrow>
              (case vh_unhex H secret of
                 None \<Rightarrow> State_Monad.return (Inl ''Invalid hex'')
               | Some raw \<Rightarrow>
                   and_then (State_Monad.return (vh_import H raw)) (\<lambda>secretKey.
                   and_then (createFileVault H dataDir secretKey) (\<lambda>v. done_with (Inr v))))
        }))"

datatype opened_vault = InMemory "memory_vault vault" | OnDisk "fs vault"

definition createVault ::
  "vault_host \<Rightarrow> string \<Rightarrow> string \<Rightarrow> (fs, string result) state \<Rightarrow> (fs, opened_vault) task" where
  "createVault H dataDir providerKind getSecret =
     (if dataDir = '':memory:'' then succeeds (InMemory (createMemoryVault H))
      else do {
        r \<leftarrow> open_file_vault H dataDir providerKind getSecret;
        State_Monad.return (case r of
          Threw e \<Rightarrow> Threw e
        | Returned (Inl e) \<Rightarrow> Returned (Inl e)
        | Returned (Inr v) \<Rightarrow> Returned (Inr (OnDisk v)))
      })"

end
