(* ===== verification/VaultSafety.thy ===== *)
theory VaultSafety
  imports VaultStores
begin

text \<open>
  What a vault promises, whichever way it keeps its contents: the locale \<open>vault_contract\<close> states
  the operations over a view that shows the secrets, the wallets with the passphrase that opens
  them, and the API keys with their token. Both vaults of the package keep it, the one on disk
  while the file system works.
\<close>

section \<open>What the view shows\<close>

record wallet_view =
  wv_label :: string
  wv_mnemonic :: string
  wv_pass :: string
  wv_accounts :: "account_entry list"
  wv_createdAt :: string

record key_view =
  kv_token :: string
  kv_mnemonic :: string
  kv_walletId :: string

record vault_view =
  vv_secrets :: "string \<Rightarrow> 8 word list option"
  vv_wallets :: "string \<Rightarrow> wallet_view option"
  vv_keys :: "string \<Rightarrow> key_view option"

definition empty_view :: vault_view where
  "empty_view = \<lparr>vv_secrets = (\<lambda>_. None), vv_wallets = (\<lambda>_. None), vv_keys = (\<lambda>_. None)\<rparr>"

text \<open>An id that is the name of a file.\<close>

definition plain_id :: "string \<Rightarrow> bool" where
  "plain_id i \<longleftrightarrow> i \<noteq> [] \<and> CHR ''/'' \<notin> set i"

datatype vault_call =
  SetSecret draw string "8 word list" | DeleteSecret string
| CreateWallet draw string string string string | DeleteWallet string
| UpdateAccounts string "account_entry list"
| CreateApiKey draw string string string string string | RevokeApiKey string
| ReadOnly

text \<open>What a call does to the view, and when its outcome is a success.\<close>

fun view_call :: "vault_call \<Rightarrow> vault_view \<Rightarrow> vault_view" where
  "view_call (SetSecret d n x) v = v\<lparr>vv_secrets := (vv_secrets v)(n \<mapsto> x)\<rparr>"
| "view_call (DeleteSecret n) v = v\<lparr>vv_secrets := (vv_secrets v)(n := None)\<rparr>"
| "view_call (CreateWallet d i l m p) v =
     v\<lparr>vv_wallets := (vv_wallets v)(i \<mapsto> \<lparr>wv_label = l, wv_mnemonic = m, wv_pass = p, wv_accounts = [],
                                            wv_createdAt = dr_now d\<rparr>)\<rparr>"
| "view_call (DeleteWallet i) v = v\<lparr>vv_wallets := (vv_wallets v)(i := None)\<rparr>"
| "view_call (UpdateAccounts i as) v =
     v\<lparr>vv_wallets := (vv_wallets v)(i := map_option (\<lambda>w. w\<lparr>wv_accounts := as\<rparr>) (vv_wallets v i))\<rparr>"
| "view_call (CreateApiKey d i wid m t ex) v =
     v\<lparr>vv_keys := (vv_keys v)(i \<mapsto> \<lparr>kv_token = t, kv_mnemonic = m, kv_walletId = wid\<rparr>)\<rparr>"
| "view_call (RevokeApiKey i) v = v\<lparr>vv_keys := (vv_keys v)(i := None)\<rparr>"
| "view_call ReadOnly v = v"

fun call_fails :: "vault_call \<Rightarrow> vault_view \<Rightarrow> signet_error option" where
  "call_fails (DeleteSecret n) v = (if vv_secrets v n = None then Some (NotFoundError ''VaultSecret'' n) else None)"
| "call_fails (DeleteWallet i) v = (if vv_wallets v i = None then Some (NotFoundError ''Wallet'' i) else None)"
| "call_fails (UpdateAccounts i as) v = (if vv_wallets v i = None then Some (NotFoundError ''Wallet'' i) else None)"
| "call_fails (RevokeApiKey i) v = (if vv_keys v i = None then Some (NotFoundError ''ApiKey'' i) else None)"
| "call_fails _ v = None"

text \<open>Ids are file names, and a token, which is drawn at random, belongs to one key.\<close>

fun admissible :: "vault_call \<Rightarrow> vault_view \<Rightarrow> bool" where
  "admissible (SetSecret d n x) v \<longleftrightarrow> length (dr_iv d) = IV_BYTES"
| "admissible (CreateWallet d i l m p) v \<longleftrightarrow> plain_id i"
| "admissible (DeleteWallet i) v \<longleftrightarrow> plain_id i"
| "admissible (UpdateAccounts i as) v \<longleftrightarrow> plain_id i"
| "admissible (CreateApiKey d i wid m t ex) v \<longleftrightarrow>
     plain_id i \<and> (\<forall>i' k. vv_keys v i' = Some k \<longrightarrow> kv_token k = t \<longrightarrow> i' = i)"
| "admissible (RevokeApiKey i) v \<longleftrightarrow> plain_id i"
| "admissible _ v \<longleftrightarrow> True"

fun run_call :: "'s vault \<Rightarrow> vault_call \<Rightarrow> ('s, unit) task" where
  "run_call V (SetSecret d n x) = v_set V d n x"
| "run_call V (DeleteSecret n) = v_delete V n"
| "run_call V (CreateWallet d i l m p) = v_createWallet V d i l m p"
| "run_call V (DeleteWallet i) = v_deleteWallet V i"
| "run_call V (UpdateAccounts i as) = v_updateWalletAccounts V i as"
| "run_call V (CreateApiKey d i wid m t ex) = v_createApiKey V d i wid m t ex"
| "run_call V (RevokeApiKey i) = v_revokeApiKey V i"
| "run_call V ReadOnly = ok_unit"

fun all_admissible :: "vault_call list \<Rightarrow> vault_view \<Rightarrow> bool" where
  "all_admissible [] v \<longleftrightarrow> True"
| "all_admissible (c # cs) v \<longleftrightarrow> admissible c v \<and> all_admissible cs (view_call c v)"

fun run_calls :: "'s vault \<Rightarrow> vault_call list \<Rightarrow> 's \<Rightarrow> 's" where
  "run_calls V [] s = s"
| "run_calls V (c # cs) s = run_calls V cs (snd (run_state (run_call V c) s))"

definition info_of_view :: "string \<Rightarrow> wallet_view \<Rightarrow> wallet_file_info" where
  "info_of_view i w = \<lparr>wi_id = i, wi_label = wv_label w, wi_accountCount = length (wv_accounts w),
     wi_createdAt = wv_createdAt w\<rparr>"

text \<open>The calls that name a wallet, other than to note its accounts.\<close>

fun touches :: "string \<Rightarrow> vault_call \<Rightarrow> bool" where
  "touches i (CreateWallet d i' l m p) \<longleftrightarrow> i' = i"
| "touches i (DeleteWallet i') \<longleftrightarrow> i' = i"
| "touches i _ \<longleftrightarrow> False"

definition payload_of :: "key_view \<Rightarrow> api_key_payload" where
  "payload_of k = \<lparr>ap_mnemonic = kv_mnemonic k, ap_walletId = kv_walletId k\<rparr>"

section \<open>The contract\<close>

locale vault_contract =
  fixes V :: "'s vault" and rep :: "'s \<Rightarrow> vault_view \<Rightarrow> bool"
  assumes calls: "rep s v \<Longrightarrow> admissible c v \<Longrightarrow>
      wp (run_call V c) (\<lambda>r s'. r = Returned (case call_fails c v of Some e \<Rightarrow> Inl e | None \<Rightarrow> Inr ())
                                \<and> rep s' (view_call c v)) s"
    and get: "rep s v \<Longrightarrow>
      wp (v_get V n) (\<lambda>r s'. s' = s \<and> r = Returned (case vv_secrets v n of
            None \<Rightarrow> Inl (NotFoundError ''VaultSecret'' n) | Some x \<Rightarrow> Inr x)) s"
    and list: "rep s v \<Longrightarrow>
      wp (v_list V) (\<lambda>r s'. s' = s \<and> (\<exists>ns. r = Returned ns \<and> set ns = dom (vv_secrets v) \<and> sorted ns)) s"
    and readWallet: "rep s v \<Longrightarrow> plain_id i \<Longrightarrow>
      wp (v_readWallet V i p) (\<lambda>r s'. s' = s \<and> r = Returned (case vv_wallets v i of
            None \<Rightarrow> Inl (NotFoundError ''Wallet'' i)
          | Some w \<Rightarrow> if p = wv_pass w then Inr (wv_mnemonic w) else Inl wrong_passphrase)) s"
    and listWallets: "rep s v \<Longrightarrow>
      wp (v_listWallets V) (\<lambda>r s'. s' = s \<and> (\<exists>xs. r = Returned (Inr xs) \<and> distinct (map wi_id xs)
            \<and> set xs = {info_of_view i w | i w. vv_wallets v i = Some w})) s"
    and accounts: "rep s v \<Longrightarrow> plain_id i \<Longrightarrow>
      wp (v_getWalletAccounts V i) (\<lambda>r s'. s' = s \<and> r = Returned (case vv_wallets v i of
            None \<Rightarrow> Inl (NotFoundError ''Wallet'' i) | Some w \<Rightarrow> Inr (wv_accounts w))) s"
    and readApiKey: "rep s v \<Longrightarrow>
      wp (v_readApiKey V t) (\<lambda>r s'. s' = s \<and>
            (\<forall>i k. vv_keys v i = Some k \<longrightarrow> kv_token k = t \<longrightarrow>
               r = Returned (Inr (payload_of k)))
          \<and> ((\<forall>i k. vv_keys v i = Some k \<longrightarrow> kv_token k \<noteq> t) \<longrightarrow> (\<exists>e. r = Returned (Inl e)))) s"
begin

lemma run_calls_rep:
  "rep s v \<Longrightarrow> all_admissible cs v \<Longrightarrow> rep (run_calls V cs s) (fold view_call cs v)"
proof (induction cs arbitrary: s v)
  case Nil
  then show ?case by simp
next
  case (Cons c cs)
  obtain r s' where r: "run_state (run_call V c) s = (r, s')" by (cases "run_state (run_call V c) s")
  from calls [of s v c] Cons.prems have "rep s' (view_call c v)" by (simp add: wp_run [OF r])
  with Cons r show ?case by simp
qed

lemma untouched_wallet:
  "\<forall>c \<in> set cs. \<not> touches i c \<Longrightarrow> vv_wallets v i = Some w \<Longrightarrow>
    \<exists>w'. vv_wallets (fold view_call cs v) i = Some w' \<and> wv_pass w' = wv_pass w \<and> wv_mnemonic w' = wv_mnemonic w"
proof (induction cs arbitrary: v w)
  case Nil
  then show ?case by simp
next
  case (Cons c cs)
  then have "\<exists>w'. vv_wallets (view_call c v) i = Some w' \<and> wv_pass w' = wv_pass w \<and> wv_mnemonic w' = wv_mnemonic w"
    by (cases c) auto
  with Cons show ?case by fastforce
qed

text \<open>A wallet that no later call creates or deletes again opens with its passphrase and no other.\<close>

lemma wallet_kept:
  assumes "rep s v" and "all_admissible cs v" and "\<forall>c \<in> set cs. \<not> touches i c"
    and "vv_wallets v i = Some w" and "plain_id i"
  shows "fst (run_state (v_readWallet V i p) (run_calls V cs s))
           = Returned (if p = wv_pass w then Inr (wv_mnemonic w) else Inl wrong_passphrase)"
proof -
  obtain w' where w': "vv_wallets (fold view_call cs v) i = Some w'" "wv_pass w' = wv_pass w" "wv_mnemonic w' = wv_mnemonic w"
    using untouched_wallet [OF assms(3,4)] by blast
  obtain r s' where r: "run_state (v_readWallet V i p) (run_calls V cs s) = (r, s')"
    by (cases "run_state (v_readWallet V i p) (run_calls V cs s)")
  from readWallet [OF run_calls_rep [OF assms(1,2)] assms(5), of p] w' show ?thesis
    by (simp add: wp_run [OF r] r)
qed

lemma token_exact:
  assumes "rep s v" and "all_admissible cs v"
  shows "fst (run_state (v_readApiKey V t) (run_calls V cs s)) = Returned (Inr x)
           \<longleftrightarrow> (\<exists>i k. vv_keys (fold view_call cs v) i = Some k \<and> kv_token k = t \<and> x = payload_of k)"
proof -
  obtain r s' where r: "run_state (v_readApiKey V t) (run_calls V cs s) = (r, s')"
    by (cases "run_state (v_readApiKey V t) (run_calls V cs s)")
  from readApiKey [OF run_calls_rep [OF assms], of t]
  have hit: "vv_keys (fold view_call cs v) i = Some k \<Longrightarrow> kv_token k = t \<Longrightarrow> r = Returned (Inr (payload_of k))"
    and miss: "(\<forall>i k. vv_keys (fold view_call cs v) i = Some k \<longrightarrow> kv_token k \<noteq> t) \<Longrightarrow> \<exists>e. r = Returned (Inl e)" for i k
    by (auto simp: wp_run [OF r])
  show ?thesis unfolding r fst_conv
  proof
    assume x: "r = Returned (Inr x)"
    with miss obtain i k where k: "vv_keys (fold view_call cs v) i = Some k" "kv_token k = t" by (metis completion.inject sum.distinct(1))
    with hit x show "\<exists>i k. vv_keys (fold view_call cs v) i = Some k \<and> kv_token k = t \<and> x = payload_of k" by auto
  next
    assume "\<exists>i k. vv_keys (fold view_call cs v) i = Some k \<and> kv_token k = t \<and> x = payload_of k"
    with hit show "r = Returned (Inr x)" by blast
  qed
qed

lemma answers:
  assumes "rep s v" and "all_admissible cs v"
  shows "fst (run_state (v_get V n) (run_calls V cs s)) = Returned (case vv_secrets (fold view_call cs v) n of
            None \<Rightarrow> Inl (NotFoundError ''VaultSecret'' n) | Some x \<Rightarrow> Inr x)"
    and "plain_id i \<Longrightarrow> fst (run_state (v_readWallet V i p) (run_calls V cs s)) = Returned (case vv_wallets (fold view_call cs v) i of
            None \<Rightarrow> Inl (NotFoundError ''Wallet'' i)
          | Some w \<Rightarrow> if p = wv_pass w then Inr (wv_mnemonic w) else Inl wrong_passphrase)"
    and "plain_id i \<Longrightarrow> fst (run_state (v_getWalletAccounts V i) (run_calls V cs s)) = Returned (case vv_wallets (fold view_call cs v) i of
            None \<Rightarrow> Inl (NotFoundError ''Wallet'' i) | Some w \<Rightarrow> Inr (wv_accounts w))"
    and "admissible c (fold view_call cs v) \<Longrightarrow> fst (run_state (run_call V c) (run_calls V cs s))
          = Returned (case call_fails c (fold view_call cs v) of Some e \<Rightarrow> Inl e | None \<Rightarrow> Inr ())"
proof -
  note r = run_calls_rep [OF assms]
  show "fst (run_state (v_get V n) (run_calls V cs s)) = Returned (case vv_secrets (fold view_call cs v) n of
            None \<Rightarrow> Inl (NotFoundError ''VaultSecret'' n) | Some x \<Rightarrow> Inr x)"
    using get [OF r, of n] by (auto simp: wp_def split: prod.splits)
  show "plain_id i \<Longrightarrow> fst (run_state (v_readWallet V i p) (run_calls V cs s)) = Returned (case vv_wallets (fold view_call cs v) i of
            None \<Rightarrow> Inl (NotFoundError ''Wallet'' i)
          | Some w \<Rightarrow> if p = wv_pass w then Inr (wv_mnemonic w) else Inl wrong_passphrase)"
    using readWallet [OF r, of i p] by (auto simp: wp_def split: prod.splits)
  show "plain_id i \<Longrightarrow> fst (run_state (v_getWalletAccounts V i) (run_calls V cs s)) = Returned (case vv_wallets (fold view_call cs v) i of
            None \<Rightarrow> Inl (NotFoundError ''Wallet'' i) | Some w \<Rightarrow> Inr (wv_accounts w))"
    using accounts [OF r, of i] by (auto simp: wp_def split: prod.splits)
  show "admissible c (fold view_call cs v) \<Longrightarrow> fst (run_state (run_call V c) (run_calls V cs s))
          = Returned (case call_fails c (fold view_call cs v) of Some e \<Rightarrow> Inl e | None \<Rightarrow> Inr ())"
    using calls [OF r, of c] by (auto simp: wp_def split: prod.splits)
qed

end

section \<open>What is asked of the host\<close>

text \<open>Decryption under the same key undoes encryption; hexadecimal text, UTF-8 and JSON text read
  back; scrypt computes a key for the parameters in use. Keys that scrypt derives from different
  passphrases give different authentication codes, and a block sealed under the key of one token
  does not open under that of another: the two laws that idealise the hashes and the cipher.\<close>

definition host_ok :: "vault_host \<Rightarrow> bool" where
  "host_ok H \<longleftrightarrow>
     (\<forall>k iv p. vh_ungcm H k iv (vh_gcm H k iv p) = Some p)
     \<and> (\<forall>b. vh_unhex H (vh_hex H b) = Some b)
     \<and> (\<forall>s. vh_decode H (utf8 s) = s)
     \<and> (\<forall>j. wf_json j \<longrightarrow> vh_parse H (stringify j) = Some j \<and> vh_parse H (vh_pretty H j) = Some j)
     \<and> (\<forall>p salt n. n \<in> {TEST_SCRYPT_N, DEFAULT_SCRYPT_N} \<longrightarrow>
          (\<exists>dk. vh_scrypt H p salt n DEFAULT_SCRYPT_R DEFAULT_SCRYPT_P DEFAULT_SCRYPT_DKLEN = Inr dk))
     \<and> (\<forall>p p' salt n r q l dk dk' ct. vh_scrypt H p salt n r q l = Inr dk \<longrightarrow> vh_scrypt H p' salt n r q l = Inr dk' \<longrightarrow>
          p \<noteq> p' \<longrightarrow> vh_hex H (vh_sha256 H (dk @ ct)) \<noteq> vh_hex H (vh_sha256 H (dk' @ ct)))
     \<and> (\<forall>t t' salt iv p. t \<noteq> t' \<longrightarrow>
          vh_ungcm H (vh_hkdf H t' salt API_KEY_INFO) iv (vh_gcm H (vh_hkdf H t salt API_KEY_INFO) iv p) = None)
     \<and> (\<forall>xs. mset (vh_listing H xs) = mset xs)"

lemma host_okD:
  assumes "host_ok H"
  shows "vh_ungcm H k iv (vh_gcm H k iv p) = Some p"
    and "vh_unhex H (vh_hex H b) = Some b"
    and "vh_decode H (utf8 s) = s"
    and "wf_json j \<Longrightarrow> vh_parse H (stringify j) = Some j"
    and "wf_json j \<Longrightarrow> vh_parse H (vh_pretty H j) = Some j"
    and "mset (vh_listing H xs) = mset xs"
  using assms by (simp_all add: host_ok_def)

lemma host_scrypt:
  assumes "host_ok H" and "n \<in> {TEST_SCRYPT_N, DEFAULT_SCRYPT_N}"
  obtains dk where "vh_scrypt H p salt n DEFAULT_SCRYPT_R DEFAULT_SCRYPT_P DEFAULT_SCRYPT_DKLEN = Inr dk"
  using assms unfolding host_ok_def by metis

lemma host_mac:
  assumes "host_ok H" and "vh_scrypt H p salt n r q l = Inr dk" and "vh_scrypt H p' salt n r q l = Inr dk'" and "p \<noteq> p'"
  shows "vh_hex H (vh_sha256 H (dk @ ct)) \<noteq> vh_hex H (vh_sha256 H (dk' @ ct))"
  using assms unfolding host_ok_def by metis

lemma host_token:
  assumes "host_ok H" and "t \<noteq> t'"
  shows "vh_ungcm H (vh_hkdf H t' salt API_KEY_INFO) iv (vh_gcm H (vh_hkdf H t salt API_KEY_INFO) iv p) = None"
  using assms unfolding host_ok_def by metis

lemmas read_simps = prop_of_def text_prop_def number_prop_def bytes_prop_def

lemma wallet_block:
  assumes H: "host_ok H"
  obtains block where "encryptWithScrypt H salt iv m p isTest = Inr block"
    and "\<And>p'. decryptWithScrypt H block p' = (if p' = p then Inr m else Inl wrong_passphrase)"
    and "is_object block" and "wf_json block"
proof -
  let ?n = "if isTest then TEST_SCRYPT_N else DEFAULT_SCRYPT_N"
  let ?scrypt = "\<lambda>p. vh_scrypt H (utf8 p) salt ?n DEFAULT_SCRYPT_R DEFAULT_SCRYPT_P DEFAULT_SCRYPT_DKLEN"
  have n: "?n \<in> {TEST_SCRYPT_N, DEFAULT_SCRYPT_N}" by simp
  obtain dk where dk: "?scrypt p = Inr dk" using host_scrypt [OF H n] by blast
  obtain block where b: "encryptWithScrypt H salt iv m p isTest = Inr block"
    using dk by (simp add: encryptWithScrypt_def Let_def)
  have "decryptWithScrypt H block p' = (if p' = p then Inr m else Inl wrong_passphrase)" for p'
  proof -
    obtain dk' where dk': "?scrypt p' = Inr dk'" using host_scrypt [OF H n] by blast
    have "vh_hex H (vh_sha256 H (dk' @ ct)) = vh_hex H (vh_sha256 H (dk @ ct)) \<longleftrightarrow> p' = p" for ct
    proof (cases "p' = p")
      case True
      with dk dk' show ?thesis by simp
    next
      case False
      then have "utf8 p' \<noteq> utf8 p" by simp
      from host_mac [OF H dk' dk this] False show ?thesis by simp
    qed
    with b dk dk' show ?thesis
      by (auto simp: encryptWithScrypt_def decryptWithScrypt_def scrypt_body_def scrypt_key_def read_simps
          host_okD [OF H] Let_def)
  qed
  moreover have "is_object block" and "wf_json block"
    using b dk by (auto simp: encryptWithScrypt_def Let_def)
  ultimately show ?thesis using b that by blast
qed

text \<open>A stored block answers its own token with the payload and no other token with anything.\<close>

definition opens_for :: "vault_host \<Rightarrow> json \<Rightarrow> key_view \<Rightarrow> bool" where
  "opens_for H block k \<longleftrightarrow>
     (\<forall>t. case decryptWithHkdf H block t of
            Inl _ \<Rightarrow> t \<noteq> kv_token k
          | Inr d \<Rightarrow> t = kv_token k \<and> parseApiKeyPayload H d = Inr (payload_of k))"

lemma opens_own:
  "opens_for H b k \<Longrightarrow> \<exists>d. decryptWithHkdf H b (kv_token k) = Inr d \<and> parseApiKeyPayload H d = Inr (payload_of k)"
  by (cases "decryptWithHkdf H b (kv_token k)") (auto simp: opens_for_def dest: spec [where x = "kv_token k"])

lemma opens_other: "opens_for H b k \<Longrightarrow> t \<noteq> kv_token k \<Longrightarrow> \<exists>e. decryptWithHkdf H b t = Inl e"
  by (cases "decryptWithHkdf H b t") (auto simp: opens_for_def dest: spec [where x = t])

lemma key_block:
  assumes H: "host_ok H"
  shows "opens_for H (encryptWithHkdf H salt iv (api_key_payload_text m w) t)
           \<lparr>kv_token = t, kv_mnemonic = m, kv_walletId = w\<rparr>"
proof -
  let ?j = "JObj [(''mnemonic'', JStr m), (''walletId'', JStr w)]"
  have "vh_parse H (stringify ?j) = Some ?j" by (rule host_okD(4) [OF H]) simp
  then have p: "parseApiKeyPayload H (api_key_payload_text m w) = Inr \<lparr>ap_mnemonic = m, ap_walletId = w\<rparr>"
    unfolding api_key_payload_text_def parseApiKeyPayload_def
    by (simp add: read_simps is_text_def del: stringify.simps)
  have "vh_ungcm H (vh_hkdf H (utf8 t') salt API_KEY_INFO) iv
      (vh_gcm H (vh_hkdf H (utf8 t) salt API_KEY_INFO) iv pt) = (if t' = t then Some pt else None)" for t' pt
    using host_token [OF H, of "utf8 t" "utf8 t'"] by (auto simp: host_okD [OF H])
  with p show ?thesis
    by (auto simp: opens_for_def decryptWithHkdf_def encryptWithHkdf_def hkdf_body_def read_simps
        host_okD [OF H] Let_def payload_of_def)
qed

definition shows_wallet :: "vault_host \<Rightarrow> wallet_file \<Rightarrow> string \<Rightarrow> wallet_view \<Rightarrow> bool" where
  "shows_wallet H f i w \<longleftrightarrow> wf_id f = i \<and> wf_label f = wv_label w \<and> wf_accounts f = wv_accounts w
     \<and> wf_createdAt f = wv_createdAt w \<and> is_object (wf_crypto f) \<and> wf_json (wf_crypto f)
     \<and> (\<forall>p. decryptWithScrypt H (wf_crypto f) p
            = (if p = wv_pass w then Inr (wv_mnemonic w) else Inl wrong_passphrase))"

lemma shows_new_wallet:
  assumes "host_ok H"
  obtains block where "encryptWithScrypt H (dr_salt d) (dr_iv d) m p isTest = Inr block"
    and "shows_wallet H (new_wallet_file i l block (dr_now d)) i
           \<lparr>wv_label = l, wv_mnemonic = m, wv_pass = p, wv_accounts = [], wv_createdAt = dr_now d\<rparr>"
proof -
  obtain block where "encryptWithScrypt H (dr_salt d) (dr_iv d) m p isTest = Inr block"
    and "\<And>p'. decryptWithScrypt H block p' = (if p' = p then Inr m else Inl wrong_passphrase)"
    and "is_object block" and "wf_json block"
    using wallet_block [OF assms] by blast
  then show ?thesis using that by (simp add: shows_wallet_def new_wallet_file_def)
qed

section \<open>The vault in memory keeps the contract\<close>

text \<open>Every key that a token opens is indexed by it; an index entry may be stale.\<close>

definition mem_rep :: "vault_host \<Rightarrow> memory_vault \<Rightarrow> vault_view \<Rightarrow> bool" where
  "mem_rep H s v \<longleftrightarrow>
     map_wf (mv_secrets s) \<and> map_wf (mv_wallets s) \<and> map_wf (mv_tokenIndex s)
     \<and> map_get (mv_secrets s) = vv_secrets v
     \<and> (\<forall>i. vv_wallets v i = None \<longleftrightarrow> map_get (mv_wallets s) i = None)
     \<and> (\<forall>i w f. vv_wallets v i = Some w \<longrightarrow> map_get (mv_wallets s) i = Some f \<longrightarrow> shows_wallet H f i w)
     \<and> (\<forall>i. vv_keys v i = None \<longleftrightarrow> map_get (mv_apiKeys s) i = None)
     \<and> (\<forall>i k. vv_keys v i = Some k \<longrightarrow> i \<noteq> [] \<and> map_get (mv_tokenIndex s) (kv_token k) = Some i)
     \<and> (\<forall>i k f. vv_keys v i = Some k \<longrightarrow> map_get (mv_apiKeys s) i = Some f \<longrightarrow> opens_for H (kf_crypto f) k)"

lemma mem_repD:
  assumes "mem_rep H s v"
  shows "map_get (mv_secrets s) = vv_secrets v"
    and "vv_wallets v i = None \<longleftrightarrow> map_get (mv_wallets s) i = None"
    and "vv_wallets v i = Some w \<Longrightarrow> map_get (mv_wallets s) i = Some f \<Longrightarrow> shows_wallet H f i w"
    and "vv_keys v i = None \<longleftrightarrow> map_get (mv_apiKeys s) i = None"
    and "vv_keys v i = Some k \<Longrightarrow> i \<noteq> [] \<and> map_get (mv_tokenIndex s) (kv_token k) = Some i"
    and "vv_keys v i = Some k \<Longrightarrow> map_get (mv_apiKeys s) i = Some g \<Longrightarrow> opens_for H (kf_crypto g) k"
  using assms by (simp_all add: mem_rep_def)

lemma mem_index_delete:
  assumes "map_wf (mv_tokenIndex s)" and "map_get (mv_tokenIndex s) t = Some i'" and "i' \<noteq> i"
  shows "map_get (case find_first (\<lambda>(tok, keyId). keyId = i) (mv_tokenIndex s) of
            None \<Rightarrow> mv_tokenIndex s | Some (tok, _) \<Rightarrow> map_delete tok (mv_tokenIndex s)) t = Some i'"
proof (cases "find_first (\<lambda>(tok, keyId). keyId = i) (mv_tokenIndex s)")
  case None
  with assms show ?thesis by simp
next
  case (Some p)
  obtain tok j where p: "p = (tok, j)" by (cases p)
  with find_first_SomeD [OF Some] have "(tok, i) \<in> set (mv_tokenIndex s)" by auto
  with assms(1) have "map_get (mv_tokenIndex s) tok = Some i" by (simp add: map_entry_iff)
  with assms(2,3) have "tok \<noteq> t" by auto
  with Some p assms(2) show ?thesis by simp
qed

lemma mem_calls:
  assumes H: "host_ok H" and r: "mem_rep H s v" and adm: "admissible c v"
  shows "wp (run_call (createMemoryVault H) c) (\<lambda>r s'.
      r = Returned (case call_fails c v of Some e \<Rightarrow> Inl e | None \<Rightarrow> Inr ()) \<and> mem_rep H s' (view_call c v)) s"
proof (cases c)
  case (SetSecret d n x)
  with r show ?thesis by (simp add: createMemoryVault_def mem_set_def wp_simps mem_rep_def)
next
  case (DeleteSecret n)
  with r show ?thesis by (auto simp: createMemoryVault_def mem_delete_def wp_simps mem_rep_def)
next
  case (CreateWallet d i l m p)
  obtain block where "encryptWithScrypt H (dr_salt d) (dr_iv d) m p True = Inr block"
    and "shows_wallet H (new_wallet_file i l block (dr_now d)) i
           \<lparr>wv_label = l, wv_mnemonic = m, wv_pass = p, wv_accounts = [], wv_createdAt = dr_now d\<rparr>"
    using shows_new_wallet [OF H] by blast
  with r CreateWallet show ?thesis
    by (auto simp: createMemoryVault_def mem_createWallet_def wp_simps mem_rep_def)
next
  case (DeleteWallet i)
  with r show ?thesis
    by (auto simp: createMemoryVault_def mem_deleteWallet_def wp_simps mem_rep_def fun_upd_idem)
next
  case (UpdateAccounts i as)
  show ?thesis
  proof (cases "map_get (mv_wallets s) i")
    case None
    with r UpdateAccounts mem_repD(2) [OF r, of i] show ?thesis
      by (simp add: createMemoryVault_def mem_updateWalletAccounts_def wp_simps fun_upd_idem)
  next
    case (Some f)
    with mem_repD(2) [OF r, of i] obtain w where w: "vv_wallets v i = Some w" by auto
    from mem_repD(3) [OF r w Some] have "shows_wallet H (f\<lparr>wf_accounts := as\<rparr>) i (w\<lparr>wv_accounts := as\<rparr>)"
      by (simp add: shows_wallet_def)
    with r w Some UpdateAccounts show ?thesis
      by (auto simp: createMemoryVault_def mem_updateWalletAccounts_def wp_simps mem_rep_def)
  qed
next
  case (CreateApiKey d i wid m t ex)
  let ?f = "new_api_key_file H d i wid m t ex"
  have "opens_for H (kf_crypto ?f) \<lparr>kv_token = t, kv_mnemonic = m, kv_walletId = wid\<rparr>"
    using key_block [OF H] by (simp add: new_api_key_file_def)
  with r CreateApiKey adm show ?thesis
    by (auto simp: createMemoryVault_def mem_createApiKey_def wp_simps mem_rep_def plain_id_def)
next
  case (RevokeApiKey i)
  show ?thesis
  proof (cases "map_get (mv_apiKeys s) i")
    case None
    with r RevokeApiKey mem_repD(4) [OF r, of i] show ?thesis
      by (simp add: createMemoryVault_def mem_revokeApiKey_def wp_simps fun_upd_idem)
  next
    case (Some g)
    let ?s = "s\<lparr>mv_tokenIndex := (case find_first (\<lambda>(tok, keyId). keyId = i) (mv_tokenIndex s) of
        None \<Rightarrow> mv_tokenIndex s | Some (tok, _) \<Rightarrow> map_delete tok (mv_tokenIndex s)),
        mv_apiKeys := map_delete i (mv_apiKeys s)\<rparr>"
    have wf: "map_wf (mv_tokenIndex s)" using r by (simp add: mem_rep_def)
    then have "map_wf (mv_tokenIndex ?s)" by (auto split: option.split)
    moreover have "map_get (mv_tokenIndex ?s) (kv_token k) = Some i'" if "vv_keys v i' = Some k" "i' \<noteq> i" for i' k
      using mem_index_delete [OF wf _ that(2)] mem_repD(5) [OF r that(1)] by simp
    ultimately have "mem_rep H ?s (view_call c v)"
      using r RevokeApiKey by (simp add: mem_rep_def)
    with Some RevokeApiKey mem_repD(4) [OF r, of i] show ?thesis
      by (simp add: createMemoryVault_def mem_revokeApiKey_def wp_simps)
  qed
next
  case ReadOnly
  with r show ?thesis by (simp add: wp_simps)
qed

lemma mem_wallets_listed:
  assumes "mem_rep H s v"
  shows "set (map wallet_info_of (map_values (mv_wallets s))) = {info_of_view i w | i w. vv_wallets v i = Some w}"
    and "distinct (map wi_id (map wallet_info_of (map_values (mv_wallets s))))"
proof -
  have wf: "map_wf (mv_wallets s)" using assms by (simp add: mem_rep_def)
  have i: "wallet_info_of f = info_of_view i w \<and> wf_id f = i"
    if "vv_wallets v i = Some w" "map_get (mv_wallets s) i = Some f" for i w f
    using mem_repD(3) [OF assms that] by (simp add: wallet_info_of_def info_of_view_def shows_wallet_def)
  have "\<exists>w. vv_wallets v i = Some w" if "map_get (mv_wallets s) i = Some f" for i f
    using mem_repD(2) [OF assms, of i] that by auto
  moreover have "\<exists>f. map_get (mv_wallets s) i = Some f" if "vv_wallets v i = Some w" for i w
    using mem_repD(2) [OF assms, of i] that by auto
  ultimately have "x \<in> set (map wallet_info_of (map_values (mv_wallets s)))
      \<longleftrightarrow> (\<exists>i w. x = info_of_view i w \<and> vv_wallets v i = Some w)" for x
    unfolding set_map image_iff bex_simps map_values_iff [OF wf, symmetric]
    using i map_values_iff [OF wf] by metis
  then show "set (map wallet_info_of (map_values (mv_wallets s))) = {info_of_view i w | i w. vv_wallets v i = Some w}"
    by blast
  have "map (wi_id \<circ> wallet_info_of) (map_values (mv_wallets s)) = map fst (mv_wallets s)"
  proof -
    have "wi_id (wallet_info_of f) = k" if "(k, f) \<in> set (mv_wallets s)" for k f
      using that i [of k _ f] mem_repD(2) [OF assms, of k] wf
      by (auto simp: map_entry_iff wallet_info_of_def)
    then show ?thesis by (auto simp: map_values_def)
  qed
  with wf show "distinct (map wi_id (map wallet_info_of (map_values (mv_wallets s))))" by (simp add: map_wf_def)
qed

lemma mem_contract:
  assumes H: "host_ok H"
  shows "vault_contract (createMemoryVault H) (mem_rep H)"
proof
  fix s v c assume "mem_rep H s v" "admissible c v"
  then show "wp (run_call (createMemoryVault H) c) (\<lambda>r s'.
      r = Returned (case call_fails c v of Some e \<Rightarrow> Inl e | None \<Rightarrow> Inr ()) \<and> mem_rep H s' (view_call c v)) s"
    by (rule mem_calls [OF H])
next
  fix s v n assume r: "mem_rep H s v"
  then show "wp (v_get (createMemoryVault H) n) (\<lambda>r s'. s' = s \<and> r = Returned (case vv_secrets v n of
      None \<Rightarrow> Inl (NotFoundError ''VaultSecret'' n) | Some x \<Rightarrow> Inr x)) s"
    by (simp add: createMemoryVault_def mem_get_def wp_simps mem_rep_def split: option.split)
next
  fix s v assume r: "mem_rep H s v"
  then have "set (map_keys (mv_secrets s)) = dom (vv_secrets v)"
    unfolding mem_rep_def map_keys_def map_get_def by (metis dom_map_of_conv_image_fst set_map)
  then show "wp (v_list (createMemoryVault H)) (\<lambda>r s'. s' = s \<and>
      (\<exists>ns. r = Returned ns \<and> set ns = dom (vv_secrets v) \<and> sorted ns)) s"
    by (simp add: createMemoryVault_def mem_list_def wp_simps)
next
  fix s v i p assume r: "mem_rep H s v"
  show "wp (v_readWallet (createMemoryVault H) i p) (\<lambda>r s'. s' = s \<and> r = Returned (case vv_wallets v i of
      None \<Rightarrow> Inl (NotFoundError ''Wallet'' i)
    | Some w \<Rightarrow> if p = wv_pass w then Inr (wv_mnemonic w) else Inl wrong_passphrase)) s"
    using mem_repD(2) [OF r, of i] mem_repD(3) [OF r, of i]
    by (cases "map_get (mv_wallets s) i"; cases "vv_wallets v i")
      (auto simp: createMemoryVault_def mem_readWallet_def wp_simps shows_wallet_def)
next
  fix s v assume r: "mem_rep H s v"
  show "wp (v_listWallets (createMemoryVault H)) (\<lambda>r s'. s' = s \<and> (\<exists>xs. r = Returned (Inr xs)
      \<and> distinct (map wi_id xs) \<and> set xs = {info_of_view i w | i w. vv_wallets v i = Some w})) s"
    using mem_wallets_listed [OF r] by (simp add: createMemoryVault_def mem_listWallets_def wp_simps)
next
  fix s v i assume r: "mem_rep H s v"
  show "wp (v_getWalletAccounts (createMemoryVault H) i) (\<lambda>r s'. s' = s \<and> r = Returned (case vv_wallets v i of
      None \<Rightarrow> Inl (NotFoundError ''Wallet'' i) | Some w \<Rightarrow> Inr (wv_accounts w))) s"
    using mem_repD(2) [OF r, of i] mem_repD(3) [OF r, of i]
    by (cases "map_get (mv_wallets s) i"; cases "vv_wallets v i")
      (auto simp: createMemoryVault_def mem_getWalletAccounts_def wp_simps shows_wallet_def)
next
  fix s v t assume r: "mem_rep H s v"
  have v: "v_readApiKey (createMemoryVault H) = mem_readApiKey H" by (simp add: createMemoryVault_def)
  have hit: "wp (mem_readApiKey H t) (\<lambda>r s'. s' = s \<and> r = Returned (Inr (payload_of k))) s"
    if "vv_keys v i = Some k" "kv_token k = t" for i k
  proof -
    from mem_repD(4) [OF r, of i] that obtain g where g: "map_get (mv_apiKeys s) i = Some g" by auto
    with mem_repD(5) [OF r that(1)] opens_own [OF mem_repD(6) [OF r that(1) g]] that(2) show ?thesis
      by (auto simp: mem_readApiKey_def wp_simps)
  qed
  have miss: "wp (mem_readApiKey H t) (\<lambda>r s'. s' = s \<and> (\<exists>e. r = Returned (Inl e))) s"
    if none: "\<forall>i k. vv_keys v i = Some k \<longrightarrow> kv_token k \<noteq> t"
  proof -
    have "\<exists>e. decryptWithHkdf H (kf_crypto g) t = Inl e" if g: "map_get (mv_apiKeys s) i = Some g" for i g
    proof -
      from mem_repD(4) [OF r, of i] g obtain k where k: "vv_keys v i = Some k" by auto
      with opens_other [OF mem_repD(6) [OF r k g]] none show ?thesis by metis
    qed
    then show ?thesis by (auto simp: mem_readApiKey_def wp_simps split: option.split sum.split) (metis sum.distinct(1))
  qed
  show "wp (v_readApiKey (createMemoryVault H) t) (\<lambda>r s'. s' = s \<and>
      (\<forall>i k. vv_keys v i = Some k \<longrightarrow> kv_token k = t \<longrightarrow>
         r = Returned (Inr (payload_of k)))
      \<and> ((\<forall>i k. vv_keys v i = Some k \<longrightarrow> kv_token k \<noteq> t) \<longrightarrow> (\<exists>e. r = Returned (Inl e)))) s"
  proof (cases "\<exists>i k. vv_keys v i = Some k \<and> kv_token k = t")
    case True
    then obtain i k where k: "vv_keys v i = Some k" "kv_token k = t" by blast
    have same: "payload_of k' = payload_of k" if "vv_keys v i' = Some k'" "kv_token k' = t" for i' k'
    proof -
      from mem_repD(5) [OF r that(1)] mem_repD(5) [OF r k(1)] that(2) k(2) have "Some i' = Some i" by metis
      with that(1) k(1) show ?thesis by simp
    qed
    show ?thesis unfolding v
    proof (rule wp_mono [OF hit [OF k]])
      fix r s' assume "s' = s \<and> r = Returned (Inr (payload_of k))"
      then show "s' = s \<and>
          (\<forall>i k. vv_keys v i = Some k \<longrightarrow> kv_token k = t \<longrightarrow> r = Returned (Inr (payload_of k)))
          \<and> ((\<forall>i k. vv_keys v i = Some k \<longrightarrow> kv_token k \<noteq> t) \<longrightarrow> (\<exists>e. r = Returned (Inl e)))"
        using same k by metis
    qed
  next
    case False
    then have "wp (mem_readApiKey H t) (\<lambda>r s'. s' = s \<and> (\<exists>e. r = Returned (Inl e))) s"
      by (intro miss) blast
    then show ?thesis unfolding v by (rule wp_mono) (use False in blast)
  qed
qed

text \<open>The contract under the assumptions on the host.\<close>

lemma vault_contract_if:
  assumes "P \<Longrightarrow> vault_contract V rep"
  shows "vault_contract V (\<lambda>s v. P \<and> rep s v)"
proof (cases P)
  case True
  with assms show ?thesis by simp
next
  case False
  then show ?thesis by unfold_locales simp_all
qed

definition mem_keeps :: "vault_host \<Rightarrow> memory_vault \<Rightarrow> vault_view \<Rightarrow> bool" where
  "mem_keeps H = (\<lambda>s v. host_ok H \<and> mem_rep H s v)"

interpretation mem: vault_contract "createMemoryVault H" "mem_keeps H" for H
  unfolding mem_keeps_def by (rule vault_contract_if) (rule mem_contract)

lemma mem_keeps_empty: "host_ok H \<Longrightarrow> mem_keeps H empty_memory_vault empty_view"
  by (simp add: mem_keeps_def mem_rep_def empty_memory_vault_def empty_view_def fun_eq_iff)

end
