(* ===== verification/VaultDisk.thy ===== *)
theory VaultDisk
  imports VaultSafety
begin

text \<open>
  The vault on disk keeps the contract of VaultSafety while no call of the file system fails: paths
  of different secrets, wallets and keys differ, and what a directory lists is what was stored.
\<close>

section \<open>The names of secrets read back\<close>

lemma hex_digit_nth: "n < 16 \<Longrightarrow> hex_digit (''0123456789ABCDEF'' ! n) = Some (int n)"
proof -
  assume "n < 16"
  then have "n \<in> set [0..<16]" by simp
  moreover have "\<forall>m \<in> set [0..<16]. hex_digit (''0123456789ABCDEF'' ! m) = Some (int m)" by code_simp
  ultimately show ?thesis by blast
qed

lemma hex_pair_percent:
  "hex_pair (''0123456789ABCDEF'' ! (unat (b :: 8 word) div 16)) (''0123456789ABCDEF'' ! (unat b mod 16)) = Some (unat b)"
proof -
  show ?thesis by (simp add: byte_digits hex_pair_def hex_digit_nth nat_add_distrib nat_mult_distrib)
qed

lemma percent_not_unreserved: "unreserved c \<Longrightarrow> c \<noteq> CHR ''%'' \<and> c \<noteq> CHR ''/''"
  by (auto simp: unreserved_def)

lemma decode_one:
  assumes "n < 128"
  shows "decode_uri (percent (of_nat n) @ s) = map_option ((#) (char_of n)) (decode_uri s)"
proof -
  have u: "unat (of_nat n :: 8 word) = n" using assms by (simp add: unat_of_nat)
  from assms hex_pair_percent [of "of_nat n"] show ?thesis by (simp add: percent_def u)
qed

lemma decode_two:
  assumes "m = 194 \<or> m = 195" and "128 \<le> k" and "k < 192"
  shows "decode_uri (percent (of_nat m) @ percent (of_nat k) @ s)
           = map_option ((#) (char_of ((m - 192) * 64 + (k - 128)))) (decode_uri s)"
proof -
  have u: "unat (of_nat m :: 8 word) = m" "unat (of_nat k :: 8 word) = k"
    using assms by (auto simp: unat_of_nat)
  from assms hex_pair_percent [of "of_nat m"] hex_pair_percent [of "of_nat k"] show ?thesis
    by (auto simp: percent_def u)
qed

lemma decode_encode_char: "decode_uri (encode_char c @ s) = map_option ((#) c) (decode_uri s)"
proof (cases "unreserved c")
  case True
  with percent_not_unreserved [OF True] show ?thesis by (simp add: encode_char_def)
next
  case False
  define n where "n = (of_char c :: nat)"
  have c: "c = char_of n" by (simp add: n_def)
  have n: "n < 256" by (simp add: n_def)
  show ?thesis
  proof (cases "n < 128")
    case True
    with False decode_one [OF True, of s] c show ?thesis
      by (simp add: encode_char_def utf8_char_def n_def [symmetric])
  next
    case hi: False
    then have d: "n div 64 = 2 \<or> n div 64 = 3" using n by auto
    then have m: "192 + n div 64 = 194 \<or> 192 + n div 64 = 195" by auto
    have k: "128 \<le> 128 + n mod 64" "128 + n mod 64 < 192" by auto
    have "(192 + n div 64 - 192) * 64 + (128 + n mod 64 - 128) = n" by simp
    with decode_two [OF m k, of s] have
      "decode_uri (percent (of_nat (192 + n div 64)) @ percent (of_nat (128 + n mod 64)) @ s) = map_option ((#) c) (decode_uri s)"
      unfolding c by metis
    moreover have "encode_char c = percent (of_nat (192 + n div 64)) @ percent (of_nat (128 + n mod 64))"
      using False hi unfolding encode_char_def utf8_char_def n_def [symmetric] Let_def by simp
    ultimately show ?thesis by simp
  qed
qed

lemma decode_encode: "decode_uri (encodeSecretName s) = Some s"
  by (induction s) (simp_all add: encodeSecretName_def decode_encode_char)

lemma decode_secret_name [simp]: "decodeSecretName (encodeSecretName s @ ''.bin'') = Some s"
  by (simp add: decodeSecretName_def ends_with_def decode_encode)

lemma encodeSecretName_inj [simp]: "encodeSecretName s = encodeSecretName t \<longleftrightarrow> s = t"
  using decode_encode [of s] decode_encode [of t] by (metis option.inject)

lemma hex_digits_no_slash: "n < 16 \<Longrightarrow> ''0123456789ABCDEF'' ! n \<noteq> CHR ''/''"
  using hex_digit_nth [of n] by (auto simp: hex_digit_def)

lemma encode_no_slash: "CHR ''/'' \<notin> set (encodeSecretName s)"
proof -
  have "CHR ''/'' \<notin> set (percent b)" for b
  proof -
    have "CHR ''/'' \<notin> set [x, y, z]" if "x \<noteq> CHR ''/''" "y \<noteq> CHR ''/''" "z \<noteq> CHR ''/''" for x y z
      using that by auto
    moreover have "CHR ''%'' \<noteq> CHR ''/''" by simp
    ultimately show ?thesis
      unfolding percent_def using hex_digits_no_slash [OF byte_digits(1)] hex_digits_no_slash [OF byte_digits(2)]
      by presburger
  qed
  then have "CHR ''/'' \<notin> set (encode_char c)" for c
    using percent_not_unreserved [of c] by (auto simp: encode_char_def)
  then show ?thesis by (auto simp: encodeSecretName_def)
qed

section \<open>Directories\<close>

lemma names_in_iff:
  "n \<in> set (names_in D files) \<longleftrightarrow> CHR ''/'' \<notin> set n \<and> map_get files (join D n) \<noteq> None"
proof -
  have "n \<in> set (map (drop (length D + 1)) (filter (starts_with (D @ ''/'')) (map_keys files)))
      \<longleftrightarrow> join D n \<in> set (map_keys files)"
  proof
    assume "join D n \<in> set (map_keys files)"
    moreover have "drop (length D + 1) (join D n) = n" "starts_with (D @ ''/'') (join D n)"
      by (simp_all add: join_def starts_with_def)
    ultimately show "n \<in> set (map (drop (length D + 1)) (filter (starts_with (D @ ''/'')) (map_keys files)))"
      by force
  next
    assume "n \<in> set (map (drop (length D + 1)) (filter (starts_with (D @ ''/'')) (map_keys files)))"
    then obtain k where k: "k \<in> set (map_keys files)" "starts_with (D @ ''/'') k" "n = drop (length D + 1) k" by auto
    then obtain t where "k = (D @ ''/'') @ t" by (auto simp: starts_with_iff)
    with k show "join D n \<in> set (map_keys files)" by (simp add: join_def)
  qed
  moreover have "join D n \<in> set (map_keys files) \<longleftrightarrow> map_get files (join D n) \<noteq> None"
    by (auto simp: map_keys_def map_get_def map_of_eq_None_iff)
  ultimately show ?thesis by (auto simp: names_in_def)
qed

lemma names_in_distinct: "map_wf files \<Longrightarrow> distinct (names_in D files)"
proof -
  assume wf: "map_wf files"
  have "inj_on (drop (length D + 1)) (set (filter (starts_with (D @ ''/'')) (map_keys files)))"
  proof (rule inj_onI)
    fix x y assume "x \<in> set (filter (starts_with (D @ ''/'')) (map_keys files))"
      "y \<in> set (filter (starts_with (D @ ''/'')) (map_keys files))"
      and e: "drop (length D + 1) x = drop (length D + 1) y"
    then obtain t u where "x = (D @ ''/'') @ t" "y = (D @ ''/'') @ u" by (auto simp: starts_with_iff)
    with e show "x = y" by simp
  qed
  with wf show ?thesis by (simp add: names_in_def distinct_map map_wf_def map_keys_def)
qed

lemma listing_set: "host_ok H \<Longrightarrow> set (vh_listing H xs) = set xs"
  by (metis host_okD(6) set_mset_mset)

lemma listing_distinct: "host_ok H \<Longrightarrow> distinct (vh_listing H xs) \<longleftrightarrow> distinct xs"
  by (metis host_okD(6) mset_eq_imp_distinct_iff)

text \<open>Where things are.\<close>

lemmas path_defs = secretPath_def wallet_path_def key_path_def secretsDir_def walletsDir_def keysDir_def
  join_def json_name_def

lemma paths_differ [simp]:
  "secretPath dir n \<noteq> wallet_path dir i" "wallet_path dir i \<noteq> secretPath dir n"
  "secretPath dir n \<noteq> key_path dir i" "key_path dir i \<noteq> secretPath dir n"
  "wallet_path dir i \<noteq> key_path dir j" "key_path dir j \<noteq> wallet_path dir i"
  by (simp_all add: path_defs)

lemma paths_inj [simp]:
  "secretPath dir n = secretPath dir m \<longleftrightarrow> n = m"
  "wallet_path dir i = wallet_path dir j \<longleftrightarrow> i = j"
  "key_path dir i = key_path dir j \<longleftrightarrow> i = j"
  by (simp_all add: path_defs)

lemma other_dirs [simp]:
  "join (secretsDir dir) n \<noteq> wallet_path dir i" "join (secretsDir dir) n \<noteq> key_path dir i"
  "join (walletsDir dir) n \<noteq> secretPath dir m" "join (walletsDir dir) n \<noteq> key_path dir i"
  "join (keysDir dir) n \<noteq> secretPath dir m" "join (keysDir dir) n \<noteq> wallet_path dir i"
  by (simp_all add: path_defs)

lemma own_dirs:
  "join (secretsDir dir) x = secretPath dir n \<longleftrightarrow> x = encodeSecretName n @ ''.bin''"
  "join (walletsDir dir) x = wallet_path dir i \<longleftrightarrow> x = json_name i"
  "join (keysDir dir) x = key_path dir i \<longleftrightarrow> x = json_name i"
  by (simp_all add: path_defs)

section \<open>Calls that do not fail\<close>

definition no_faults :: "fs \<Rightarrow> bool" where
  "no_faults s \<longleftrightarrow> fs_fault s = (\<lambda>_. None)"

lemma no_faults_update [simp]: "no_faults (s\<lparr>fs_files := m\<rparr>) = no_faults s"
  by (simp add: no_faults_def)

lemma wp_and_then [wp_simps]:
  "wp (and_then m f) Q s \<longleftrightarrow> wp m (\<lambda>r s'. case r of Inl e \<Rightarrow> Q (Inl e) s' | Inr x \<Rightarrow> wp (f x) Q s') s"
  unfolding and_then_def wp_bind by (simp add: wp_def split: prod.split sum.split)

lemma wp_try_or [wp_simps]:
  "wp (try_or mk m) Q s \<longleftrightarrow> wp m (\<lambda>r s'. Q (Returned (case r of Inl e \<Rightarrow> Inl (mk e) | Inr x \<Rightarrow> x)) s') s"
  unfolding try_or_def wp_bind wp_return ..

lemma wp_done_with [wp_simps]: "wp (done_with r) Q s \<longleftrightarrow> Q (Inr r) s"
  by (simp add: done_with_def wp_return)

lemma wp_fs_do: "no_faults s \<Longrightarrow> wp (fs_do call act) Q s \<longleftrightarrow> wp act (\<lambda>x. Q (Inr x)) s"
  by (simp add: fs_do_def wp_simps no_faults_def wp_return_fun)

lemma wp_fs_exists [wp_simps]:
  "wp (fs_exists p) Q s \<longleftrightarrow> Q (map_get (fs_files s) p \<noteq> None \<or> p \<in> set (fs_dirs s)) s"
  by (simp add: fs_exists_def wp_gets)

lemma wp_fs_calls:
  assumes "no_faults s"
  shows "wp (fs_write p c) Q1 s \<longleftrightarrow> Q1 (Inr ()) (s\<lparr>fs_files := map_set p c (fs_files s)\<rparr>)"
    and "wp (fs_chmod p) Q1 s \<longleftrightarrow> Q1 (Inr ()) s"
    and "wp (fs_unlink p) Q1 s \<longleftrightarrow> Q1 (Inr ()) (s\<lparr>fs_files := map_delete p (fs_files s)\<rparr>)"
    and "wp (fs_read p) Q2 s \<longleftrightarrow> Q2 (Inr (map_get (fs_files s) p)) s"
    and "wp (fs_readdir H D) Q3 s \<longleftrightarrow> Q3 (Inr (vh_listing H (names_in D (fs_files s)))) s"
  by (simp_all add: fs_write_def fs_chmod_def fs_unlink_def fs_read_def fs_readdir_def wp_fs_do [OF assms] wp_simps)

section \<open>What is on disk\<close>

definition read_json :: "vault_host \<Rightarrow> (string, 8 word list) js_map \<Rightarrow> string \<Rightarrow> json option" where
  "read_json H files path = Option.bind (map_get files path) (\<lambda>c. vh_parse H (vh_decode H c))"

text \<open>The key of the secrets opens what it sealed.\<close>

definition secret_key_ok :: "vault_host \<Rightarrow> 8 word list \<Rightarrow> bool" where
  "secret_key_ok H key \<longleftrightarrow> (\<forall>iv x. \<exists>c. vh_seal H key iv x = Inr c \<and> vh_unseal H key iv c = Inr x)"

definition secrets_rep ::
  "vault_host \<Rightarrow> string \<Rightarrow> 8 word list \<Rightarrow> (string, 8 word list) js_map \<Rightarrow> (string \<Rightarrow> 8 word list option) \<Rightarrow> bool" where
  "secrets_rep H dir key files sec \<longleftrightarrow>
     (\<forall>n. sec n = None \<longleftrightarrow> map_get files (secretPath dir n) = None)
     \<and> (\<forall>n x c. sec n = Some x \<longrightarrow> map_get files (secretPath dir n) = Some c \<longrightarrow> decryptSecret H key c = Inr x)
     \<and> (\<forall>name. CHR ''/'' \<notin> set name \<longrightarrow> map_get files (join (secretsDir dir) name) \<noteq> None
          \<longrightarrow> (\<exists>n. name = encodeSecretName n @ ''.bin''))"

definition wallets_rep ::
  "vault_host \<Rightarrow> string \<Rightarrow> (string, 8 word list) js_map \<Rightarrow> (string \<Rightarrow> wallet_view option) \<Rightarrow> bool" where
  "wallets_rep H dir files ws \<longleftrightarrow>
     (\<forall>i. ws i = None \<longleftrightarrow> map_get files (wallet_path dir i) = None)
     \<and> (\<forall>i w. ws i = Some w \<longrightarrow> plain_id i)
     \<and> (\<forall>i w. ws i = Some w \<longrightarrow>
          (\<exists>f. read_json H files (wallet_path dir i) = Some (wallet_json f) \<and> shows_wallet H f i w))
     \<and> (\<forall>name. CHR ''/'' \<notin> set name \<longrightarrow> map_get files (join (walletsDir dir) name) \<noteq> None
          \<longrightarrow> (\<exists>i. name = json_name i))"

definition keys_rep ::
  "vault_host \<Rightarrow> string \<Rightarrow> (string, 8 word list) js_map \<Rightarrow> (string \<Rightarrow> key_view option) \<Rightarrow> bool" where
  "keys_rep H dir files ks \<longleftrightarrow>
     (\<forall>i. ks i = None \<longleftrightarrow> map_get files (key_path dir i) = None)
     \<and> (\<forall>i k. ks i = Some k \<longrightarrow> plain_id i)
     \<and> (\<forall>i k. ks i = Some k \<longrightarrow>
          (\<exists>g. read_json H files (key_path dir i) = Some (api_key_json g)
               \<and> is_object (kf_crypto g) \<and> opens_for H (kf_crypto g) k))
     \<and> (\<forall>name. CHR ''/'' \<notin> set name \<longrightarrow> map_get files (join (keysDir dir) name) \<noteq> None
          \<longrightarrow> (\<exists>i. name = json_name i))
     \<and> (\<forall>i i' k k'. ks i = Some k \<longrightarrow> ks i' = Some k' \<longrightarrow> kv_token k = kv_token k' \<longrightarrow> i = i')"

definition no_dirs :: "string \<Rightarrow> fs \<Rightarrow> bool" where
  "no_dirs dir s \<longleftrightarrow> (\<forall>n. secretPath dir n \<notin> set (fs_dirs s) \<and> wallet_path dir n \<notin> set (fs_dirs s)
     \<and> key_path dir n \<notin> set (fs_dirs s))"

definition file_rep :: "vault_host \<Rightarrow> string \<Rightarrow> 8 word list \<Rightarrow> fs \<Rightarrow> vault_view \<Rightarrow> bool" where
  "file_rep H dir key s v \<longleftrightarrow> no_faults s \<and> map_wf (fs_files s) \<and> no_dirs dir s
     \<and> secrets_rep H dir key (fs_files s) (vv_secrets v)
     \<and> wallets_rep H dir (fs_files s) (vv_wallets v) \<and> keys_rep H dir (fs_files s) (vv_keys v)"

lemma file_repD:
  assumes "file_rep H dir key s v"
  shows "no_faults s" and "map_wf (fs_files s)" and "no_dirs dir s"
    and "secrets_rep H dir key (fs_files s) (vv_secrets v)"
    and "wallets_rep H dir (fs_files s) (vv_wallets v)" and "keys_rep H dir (fs_files s) (vv_keys v)"
  using assms by (simp_all add: file_rep_def)

lemma read_json_map [simp]:
  "read_json H (map_set p c files) q = (if q = p then vh_parse H (vh_decode H c) else read_json H files q)"
  "read_json H (map_delete p files) q = (if q = p then None else read_json H files q)"
  by (simp_all add: read_json_def)

text \<open>A part of the store is not changed by the files of another part.\<close>

lemma rep_other [simp]:
  "wallets_rep H dir (map_set (secretPath dir n) c files) ws = wallets_rep H dir files ws"
  "wallets_rep H dir (map_set (key_path dir n) c files) ws = wallets_rep H dir files ws"
  "wallets_rep H dir (map_delete (secretPath dir n) files) ws = wallets_rep H dir files ws"
  "wallets_rep H dir (map_delete (key_path dir n) files) ws = wallets_rep H dir files ws"
  "keys_rep H dir (map_set (secretPath dir n) c files) ks = keys_rep H dir files ks"
  "keys_rep H dir (map_set (wallet_path dir n) c files) ks = keys_rep H dir files ks"
  "keys_rep H dir (map_delete (secretPath dir n) files) ks = keys_rep H dir files ks"
  "keys_rep H dir (map_delete (wallet_path dir n) files) ks = keys_rep H dir files ks"
  "secrets_rep H dir key (map_set (wallet_path dir n) c files) sec = secrets_rep H dir key files sec"
  "secrets_rep H dir key (map_set (key_path dir n) c files) sec = secrets_rep H dir key files sec"
  "secrets_rep H dir key (map_delete (wallet_path dir n) files) sec = secrets_rep H dir key files sec"
  "secrets_rep H dir key (map_delete (key_path dir n) files) sec = secrets_rep H dir key files sec"
  by (simp_all add: wallets_rep_def keys_rep_def secrets_rep_def)

lemma accounts_of_json [simp]: "accounts_of (map account_json as) = Some as"
proof (induction as)
  case (Cons a as)
  have "account_of_json (account_json a) = Some a"
    by (cases "ae_chain a") (simp_all add: account_of_json_def account_json_def read_simps parse_chain_def)
  with Cons show ?case by simp
qed simp

lemma wallet_of_wallet_json [simp]: "is_object (wf_crypto f) \<Longrightarrow> wallet_of_json (wallet_json f) = Some f"
  by (simp add: wallet_of_json_def wallet_json_def is_text_def read_simps)

lemma wf_wallet_json: "wf_json (wf_crypto f) \<Longrightarrow> wf_json (wallet_json f)"
  by (auto simp: wallet_json_def account_json_def)

lemma read_back: "host_ok H \<Longrightarrow> wf_json j \<Longrightarrow> vh_parse H (vh_decode H (utf8 (vh_pretty H j))) = Some j"
  by (simp add: host_okD)

lemma wp_readJsonFile:
  assumes "no_faults s" and "map_get (fs_files s) p = None \<or> read_json H (fs_files s) p \<noteq> None"
  shows "wp (readJsonFile H p) Q s \<longleftrightarrow> Q (Inr (read_json H (fs_files s) p)) s"
  using assms(2) by (cases "map_get (fs_files s) p")
    (auto simp: readJsonFile_def wp_simps wp_fs_calls [OF assms(1)] read_json_def)

lemma wp_writeSecureFile:
  "no_faults s \<Longrightarrow> wp (writeSecureFile H p j) Q s
     \<longleftrightarrow> Q (Inr ()) (s\<lparr>fs_files := map_set p (utf8 (vh_pretty H j)) (fs_files s)\<rparr>)"
  by (simp add: writeSecureFile_def wp_simps wp_fs_calls)

lemma wallets_repD:
  assumes "wallets_rep H dir files ws"
  shows "ws i = None \<longleftrightarrow> map_get files (wallet_path dir i) = None"
    and "ws i = Some w \<Longrightarrow> plain_id i"
    and "ws i = Some w \<Longrightarrow> \<exists>f. read_json H files (wallet_path dir i) = Some (wallet_json f) \<and> shows_wallet H f i w"
    and "CHR ''/'' \<notin> set name \<Longrightarrow> map_get files (join (walletsDir dir) name) \<noteq> None \<Longrightarrow> \<exists>i. name = json_name i"
  using assms by (auto simp: wallets_rep_def)

lemma keys_repD:
  assumes "keys_rep H dir files ks"
  shows "ks i = None \<longleftrightarrow> map_get files (key_path dir i) = None"
    and "ks i = Some k \<Longrightarrow> plain_id i"
    and "ks i = Some k \<Longrightarrow> \<exists>g. read_json H files (key_path dir i) = Some (api_key_json g)
               \<and> is_object (kf_crypto g) \<and> opens_for H (kf_crypto g) k"
    and "CHR ''/'' \<notin> set name \<Longrightarrow> map_get files (join (keysDir dir) name) \<noteq> None \<Longrightarrow> \<exists>i. name = json_name i"
    and "ks i = Some k \<Longrightarrow> ks i' = Some k' \<Longrightarrow> kv_token k = kv_token k' \<Longrightarrow> i = i'"
  using assms by (auto simp: keys_rep_def)

lemma secrets_repD:
  assumes "secrets_rep H dir key files sec"
  shows "sec n = None \<longleftrightarrow> map_get files (secretPath dir n) = None"
    and "sec n = Some x \<Longrightarrow> map_get files (secretPath dir n) = Some c \<Longrightarrow> decryptSecret H key c = Inr x"
    and "CHR ''/'' \<notin> set name \<Longrightarrow> map_get files (join (secretsDir dir) name) \<noteq> None \<Longrightarrow>
           \<exists>n. name = encodeSecretName n @ ''.bin''"
  using assms by (auto simp: secrets_rep_def)

lemma wallet_readable:
  assumes "wallets_rep H dir files ws"
  shows "map_get files (wallet_path dir i) = None \<or> read_json H files (wallet_path dir i) \<noteq> None"
  using wallets_repD(1,3) [OF assms, of i] by (cases "ws i") auto

lemma wp_with_wallet:
  assumes n: "no_faults s" and r: "wallets_rep H dir (fs_files s) ws"
  shows "wp (with_wallet H dir what i body) Q s \<longleftrightarrow>
    (case ws i of
       None \<Rightarrow> Q (Returned (Inl (NotFoundError ''Wallet'' i))) s
     | Some w \<Rightarrow> (\<forall>f. read_json H (fs_files s) (wallet_path dir i) = Some (wallet_json f) \<longrightarrow> shows_wallet H f i w \<longrightarrow>
         wp (body f) (\<lambda>r s'. Q (Returned (case r of Inl e \<Rightarrow> Inl (failed what [(''id'', CtxStr i)] e) | Inr x \<Rightarrow> x)) s') s))"
proof (cases "ws i")
  case None
  with wallets_repD(1) [OF r, of i] have "read_json H (fs_files s) (wallet_path dir i) = None" by (simp add: read_json_def)
  with None show ?thesis
    by (simp add: with_wallet_def stored_wallet_def wp_simps wp_readJsonFile [OF n wallet_readable [OF r]])
next
  case (Some w)
  with wallets_repD(3) [OF r] obtain f where f: "read_json H (fs_files s) (wallet_path dir i) = Some (wallet_json f)"
    "shows_wallet H f i w" by blast
  then have o: "is_object (wf_crypto f)" by (simp add: shows_wallet_def)
  have u: "f' = f" if "wallet_json f' = wallet_json f" "is_object (wf_crypto f')" for f'
    using o that wallet_of_wallet_json by (metis option.inject)
  have uniq: "f' = f" if "read_json H (fs_files s) (wallet_path dir i) = Some (wallet_json f')" "shows_wallet H f' i w" for f'
    using that f u by (simp add: shows_wallet_def)
  have "(\<forall>f'. read_json H (fs_files s) (wallet_path dir i) = Some (wallet_json f') \<longrightarrow> shows_wallet H f' i w \<longrightarrow> P f') \<longleftrightarrow> P f" for P
    using f uniq by blast
  with f o Some show ?thesis
    by (simp add: with_wallet_def stored_wallet_def wp_simps wp_readJsonFile [OF n wallet_readable [OF r]])
qed

section \<open>Storing and removing\<close>

lemma no_slash_json_name: "CHR ''/'' \<notin> set (json_name i) \<longleftrightarrow> CHR ''/'' \<notin> set i"
  by (auto simp: json_name_def)

lemma secrets_rep_set:
  assumes r: "secrets_rep H dir key files sec" and k: "secret_key_ok H key"
    and c: "vh_seal H key iv x = Inr c" and iv: "length iv = IV_BYTES"
  shows "secrets_rep H dir key (map_set (secretPath dir n) (iv @ c) files) (sec(n \<mapsto> x))"
proof -
  from k c have "vh_unseal H key iv c = Inr x" unfolding secret_key_ok_def by (metis Inr_inject)
  with iv have "decryptSecret H key (iv @ c) = Inr x" by (simp add: decryptSecret_def)
  with r show ?thesis by (auto simp: secrets_rep_def own_dirs)
qed

lemma secrets_rep_delete:
  "secrets_rep H dir key files sec \<Longrightarrow> secrets_rep H dir key (map_delete (secretPath dir n) files) (sec(n := None))"
  by (auto simp: secrets_rep_def)

lemma wallets_rep_set:
  assumes H: "host_ok H" and r: "wallets_rep H dir files ws" and i: "plain_id i" and f: "shows_wallet H f i w"
  shows "wallets_rep H dir (map_set (wallet_path dir i) (utf8 (vh_pretty H (wallet_json f))) files) (ws(i \<mapsto> w))"
proof -
  have "wf_json (wallet_json f)" using f by (simp add: shows_wallet_def wf_wallet_json)
  from read_back [OF H this] r i f show ?thesis by (auto simp: wallets_rep_def own_dirs)
qed

lemma wallets_rep_delete:
  "wallets_rep H dir files ws \<Longrightarrow> wallets_rep H dir (map_delete (wallet_path dir i) files) (ws(i := None))"
  by (auto simp: wallets_rep_def)

lemma wf_key_json: "wf_json (kf_crypto g) \<Longrightarrow> wf_json (api_key_json g)"
  by (simp add: api_key_json_def)

lemma keys_rep_set:
  assumes H: "host_ok H" and r: "keys_rep H dir files ks" and i: "plain_id i"
    and g: "is_object (kf_crypto g)" "wf_json (kf_crypto g)" "opens_for H (kf_crypto g) k"
    and new: "\<And>i' k'. ks i' = Some k' \<Longrightarrow> kv_token k' = kv_token k \<Longrightarrow> i' = i"
  shows "keys_rep H dir (map_set (key_path dir i) (utf8 (vh_pretty H (api_key_json g))) files) (ks(i \<mapsto> k))"
proof -
  from read_back [OF H wf_key_json [OF g(2)]]
  have "read_json H (map_set (key_path dir i) (utf8 (vh_pretty H (api_key_json g))) files) (key_path dir i)
      = Some (api_key_json g)" by simp
  moreover have "i' = i''" if "(ks(i \<mapsto> k)) i' = Some k'" "(ks(i \<mapsto> k)) i'' = Some k''" "kv_token k' = kv_token k''"
    for i' i'' k' k''
    using that new keys_repD(5) [OF r] by (metis fun_upd_apply option.inject)
  moreover have "\<exists>g'. read_json H (map_set (key_path dir i) (utf8 (vh_pretty H (api_key_json g))) files) (key_path dir i')
      = Some (api_key_json g') \<and> is_object (kf_crypto g') \<and> opens_for H (kf_crypto g') k'"
    if "(ks(i \<mapsto> k)) i' = Some k'" for i' k'
    using that calculation(1) g keys_repD(3) [OF r, of i' k'] by (cases "i' = i") auto
  moreover have "plain_id i'" if "(ks(i \<mapsto> k)) i' = Some k'" for i' k'
    using that i keys_repD(2) [OF r] by (auto split: if_splits)
  moreover have "\<exists>j. name = json_name j"
    if "CHR ''/'' \<notin> set name" "map_get (map_set (key_path dir i) c files) (join (keysDir dir) name) \<noteq> None" for name c
    using that keys_repD(4) [OF r that(1)] by (auto simp: own_dirs split: if_splits)
  moreover have "(ks(i \<mapsto> k)) i' = None \<longleftrightarrow> map_get (map_set (key_path dir i) c files) (key_path dir i') = None" for i' c
    using keys_repD(1) [OF r, of i'] by simp
  ultimately show ?thesis unfolding keys_rep_def by blast
qed

lemma keys_rep_delete:
  "keys_rep H dir files ks \<Longrightarrow> keys_rep H dir (map_delete (key_path dir i) files) (ks(i := None))"
  by (auto simp: keys_rep_def)

lemma wp_unlink_entry:
  assumes "no_faults s" and "p \<notin> set (fs_dirs s)"
  shows "wp (unlink_entry p e) Q s \<longleftrightarrow>
    (if map_get (fs_files s) p = None then Q (Returned (Inl e)) s
     else Q (Returned (Inr ())) (s\<lparr>fs_files := map_delete p (fs_files s)\<rparr>))"
  using assms by (simp add: unlink_entry_def wp_simps wp_fs_calls)

lemma file_calls:
  assumes H: "host_ok H" and key: "secret_key_ok H key" and r: "file_rep H dir key s v" and adm: "admissible c v"
  shows "wp (run_call (file_vault H dir key) c) (\<lambda>r s'.
      r = Returned (case call_fails c v of Some e \<Rightarrow> Inl e | None \<Rightarrow> Inr ()) \<and> file_rep H dir key s' (view_call c v)) s"
proof -
  note n = file_repD(1) [OF r]
  note calls = n wp_simps wp_fs_calls wp_writeSecureFile wp_with_wallet [OF n file_repD(5) [OF r]]
  have d: "secretPath dir i \<notin> set (fs_dirs s)" "wallet_path dir i \<notin> set (fs_dirs s)" "key_path dir i \<notin> set (fs_dirs s)" for i
    using file_repD(3) [OF r] by (simp_all add: no_dirs_def)
  note unlink = wp_unlink_entry [OF n d(1)] wp_unlink_entry [OF n d(2)] wp_unlink_entry [OF n d(3)]
  show ?thesis
  proof (cases c)
    case (SetSecret dr m x)
    from key obtain ct where ct: "vh_seal H key (dr_iv dr) x = Inr ct" unfolding secret_key_ok_def by metis
    with secrets_rep_set [OF file_repD(4) [OF r] key ct, of m] r SetSecret adm show ?thesis
      by (simp add: file_vault_def file_set_def encryptSecret_def calls file_rep_def no_dirs_def)
  next
    case (DeleteSecret m)
    with r secrets_repD(1) [OF file_repD(4) [OF r], of m] secrets_rep_delete [OF file_repD(4) [OF r], of m]
    show ?thesis
      by (auto simp: file_vault_def file_delete_def unlink file_rep_def no_dirs_def fun_upd_idem)
  next
    case (CreateWallet dr i l m p)
    obtain block where "encryptWithScrypt H (dr_salt dr) (dr_iv dr) m p False = Inr block"
      and "shows_wallet H (new_wallet_file i l block (dr_now dr)) i
             \<lparr>wv_label = l, wv_mnemonic = m, wv_pass = p, wv_accounts = [], wv_createdAt = dr_now dr\<rparr>"
      using shows_new_wallet [OF H] by blast
    with wallets_rep_set [OF H file_repD(5) [OF r], of i] r CreateWallet adm show ?thesis
      by (simp add: file_vault_def file_createWallet_def calls file_rep_def no_dirs_def)
  next
    case (DeleteWallet i)
    with r wallets_repD(1) [OF file_repD(5) [OF r], of i] wallets_rep_delete [OF file_repD(5) [OF r], of i]
    show ?thesis
      by (auto simp: file_vault_def file_deleteWallet_def unlink file_rep_def no_dirs_def fun_upd_idem)
  next
    case (UpdateAccounts i as)
    show ?thesis
    proof (cases "vv_wallets v i")
      case None
      with r UpdateAccounts show ?thesis
        by (simp add: file_vault_def file_updateWalletAccounts_def calls fun_upd_idem)
    next
      case (Some w)
      have "shows_wallet H f i w \<Longrightarrow> shows_wallet H (f\<lparr>wf_accounts := as\<rparr>) i (w\<lparr>wv_accounts := as\<rparr>)" for f
        by (simp add: shows_wallet_def)
      with wallets_rep_set [OF H file_repD(5) [OF r], of i] Some r UpdateAccounts adm show ?thesis
        by (simp add: file_vault_def file_updateWalletAccounts_def calls file_rep_def no_dirs_def)
    qed
  next
    case (CreateApiKey dr i wid m t ex)
    let ?g = "new_api_key_file H dr i wid m t ex"
    let ?k = "\<lparr>kv_token = t, kv_mnemonic = m, kv_walletId = wid\<rparr>"
    have "opens_for H (kf_crypto ?g) ?k" using key_block [OF H] by (simp add: new_api_key_file_def)
    moreover have "is_object (kf_crypto ?g)" "wf_json (kf_crypto ?g)"
      by (simp_all add: new_api_key_file_def encryptWithHkdf_def Let_def)
    ultimately have "keys_rep H dir (map_set (key_path dir i) (utf8 (vh_pretty H (api_key_json ?g))) (fs_files s))
        ((vv_keys v)(i \<mapsto> ?k))"
      using adm CreateApiKey by (intro keys_rep_set [OF H file_repD(6) [OF r]]) auto
    with r CreateApiKey show ?thesis
      by (simp add: file_vault_def file_createApiKey_def calls file_rep_def no_dirs_def)
  next
    case (RevokeApiKey i)
    with r keys_repD(1) [OF file_repD(6) [OF r], of i] keys_rep_delete [OF file_repD(6) [OF r], of i]
    show ?thesis
      by (auto simp: file_vault_def file_revokeApiKey_def unlink file_rep_def no_dirs_def fun_upd_idem)
  next
    case ReadOnly
    with r show ?thesis by (simp add: wp_simps)
  qed
qed

section \<open>Reading\<close>

lemma set_map_filter: "set (List.map_filter f xs) = {y. \<exists>x \<in> set xs. f x = Some y}"
  by (induction xs) (auto simp: List.map_filter_simps split: option.splits)

lemma wp_wallet_infos:
  assumes n: "no_faults s"
  shows "(\<forall>x \<in> set names. read_json H (fs_files s) (join (walletsDir dir) x) \<noteq> None) \<Longrightarrow>
    wp (wallet_infos H dir names) Q s \<longleftrightarrow>
      Q (Inr (List.map_filter (\<lambda>x. map_option wallet_info_of
          (Option.bind (read_json H (fs_files s) (join (walletsDir dir) x)) wallet_of_json)) names)) s"
proof (induction names arbitrary: Q)
  case Nil
  then show ?case by (simp add: wp_simps List.map_filter_simps)
next
  case (Cons x names)
  then show ?case
    by (auto simp: wp_simps wp_readJsonFile [OF n] List.map_filter_simps split: option.splits)
qed

lemma wp_scan_keys:
  assumes n: "no_faults s"
  shows "(\<forall>x \<in> set names. read_json H (fs_files s) (join (keysDir dir) x) \<noteq> None) \<Longrightarrow>
    wp (scan_keys H dir t names) Q s \<longleftrightarrow>
      Q (Inr (case List.map_filter (\<lambda>x. Option.bind (read_json H (fs_files s) (join (keysDir dir) x)) (try_key H t)) names of
                [] \<Rightarrow> None | p # _ \<Rightarrow> Some p)) s"
proof (induction names)
  case Nil
  then show ?case by (simp add: wp_simps List.map_filter_simps)
next
  case (Cons x names)
  then show ?case
    by (auto simp: wp_simps wp_readJsonFile [OF n] List.map_filter_simps split: option.splits)
qed

lemma listed_names:
  assumes "host_ok H"
  shows "x \<in> set (vh_listing H (names_in D files)) \<longleftrightarrow> CHR ''/'' \<notin> set x \<and> map_get files (join D x) \<noteq> None"
  by (simp only: listing_set [OF assms] names_in_iff)

lemma json_name_inj [simp]: "json_name i = json_name j \<longleftrightarrow> i = j"
  by (simp add: json_name_def)

lemma ends_with_json [simp]: "ends_with ''.json'' (json_name i)"
  by (simp add: ends_with_def json_name_def)

lemma wallet_names:
  assumes H: "host_ok H" and r: "wallets_rep H dir files ws"
  shows "x \<in> set (filter (ends_with ''.json'') (vh_listing H (names_in (walletsDir dir) files)))
     \<longleftrightarrow> (\<exists>i. x = json_name i \<and> ws i \<noteq> None)"
proof
  assume "x \<in> set (filter (ends_with ''.json'') (vh_listing H (names_in (walletsDir dir) files)))"
  then have x: "CHR ''/'' \<notin> set x" "map_get files (join (walletsDir dir) x) \<noteq> None"
    using listed_names [OF H] by auto
  with wallets_repD(4) [OF r] obtain i where i: "x = json_name i" by blast
  with x(2) wallets_repD(1) [OF r, of i] show "\<exists>i. x = json_name i \<and> ws i \<noteq> None" by (auto simp: wallet_path_def)
next
  assume "\<exists>i. x = json_name i \<and> ws i \<noteq> None"
  then obtain i where i: "x = json_name i" "ws i \<noteq> None" by blast
  then have "plain_id i" using wallets_repD(2) [OF r] by auto
  then have "CHR ''/'' \<notin> set x" unfolding i(1) no_slash_json_name by (simp add: plain_id_def)
  moreover have "map_get files (join (walletsDir dir) x) \<noteq> None"
    using wallets_repD(1) [OF r, of i] i by (simp add: wallet_path_def)
  ultimately show "x \<in> set (filter (ends_with ''.json'') (vh_listing H (names_in (walletsDir dir) files)))"
    using i(1) by (simp add: listed_names [OF H])
qed

lemma key_names:
  assumes H: "host_ok H" and r: "keys_rep H dir files ks"
  shows "x \<in> set (filter (ends_with ''.json'') (vh_listing H (names_in (keysDir dir) files)))
     \<longleftrightarrow> (\<exists>i. x = json_name i \<and> ks i \<noteq> None)"
proof
  assume "x \<in> set (filter (ends_with ''.json'') (vh_listing H (names_in (keysDir dir) files)))"
  then have x: "CHR ''/'' \<notin> set x" "map_get files (join (keysDir dir) x) \<noteq> None"
    using listed_names [OF H] by auto
  with keys_repD(4) [OF r] obtain i where i: "x = json_name i" by blast
  with x(2) keys_repD(1) [OF r, of i] show "\<exists>i. x = json_name i \<and> ks i \<noteq> None" by (auto simp: key_path_def)
next
  assume "\<exists>i. x = json_name i \<and> ks i \<noteq> None"
  then obtain i where i: "x = json_name i" "ks i \<noteq> None" by blast
  then have "plain_id i" using keys_repD(2) [OF r] by auto
  then have "CHR ''/'' \<notin> set x" unfolding i(1) no_slash_json_name by (simp add: plain_id_def)
  moreover have "map_get files (join (keysDir dir) x) \<noteq> None"
    using keys_repD(1) [OF r, of i] i by (simp add: key_path_def)
  ultimately show "x \<in> set (filter (ends_with ''.json'') (vh_listing H (names_in (keysDir dir) files)))"
    using i(1) by (simp add: listed_names [OF H])
qed

lemma secret_names:
  assumes H: "host_ok H" and r: "secrets_rep H dir key files sec"
  shows "set (List.map_filter decodeSecretName (vh_listing H (names_in (secretsDir dir) files))) = dom sec"
proof -
  have in_dir: "x \<in> set (vh_listing H (names_in (secretsDir dir) files)) \<longleftrightarrow> (\<exists>n. x = encodeSecretName n @ ''.bin'' \<and> sec n \<noteq> None)" for x
  proof
    assume "x \<in> set (vh_listing H (names_in (secretsDir dir) files))"
    then have x: "CHR ''/'' \<notin> set x" "map_get files (join (secretsDir dir) x) \<noteq> None" using listed_names [OF H] by auto
    with secrets_repD(3) [OF r] obtain n where n: "x = encodeSecretName n @ ''.bin''" by blast
    with x(2) secrets_repD(1) [OF r, of n] show "\<exists>n. x = encodeSecretName n @ ''.bin'' \<and> sec n \<noteq> None"
      by (auto simp: secretPath_def)
  next
    assume "\<exists>n. x = encodeSecretName n @ ''.bin'' \<and> sec n \<noteq> None"
    then obtain n where n: "x = encodeSecretName n @ ''.bin''" "sec n \<noteq> None" by blast
    then have "CHR ''/'' \<notin> set x" using encode_no_slash [of n] by auto
    with n secrets_repD(1) [OF r, of n] show "x \<in> set (vh_listing H (names_in (secretsDir dir) files))"
      by (simp add: secretPath_def listed_names [OF H])
  qed
  show ?thesis unfolding set_map_filter
  proof (intro set_eqI iffI)
    fix y assume "y \<in> {y. \<exists>x \<in> set (vh_listing H (names_in (secretsDir dir) files)). decodeSecretName x = Some y}"
    then obtain n where "decodeSecretName (encodeSecretName n @ ''.bin'') = Some y" "sec n \<noteq> None" using in_dir by auto
    then show "y \<in> dom sec" by auto
  next
    fix y assume "y \<in> dom sec"
    then have "encodeSecretName y @ ''.bin'' \<in> set (vh_listing H (names_in (secretsDir dir) files))" using in_dir by auto
    then show "y \<in> {y. \<exists>x \<in> set (vh_listing H (names_in (secretsDir dir) files)). decodeSecretName x = Some y}"
      using decode_secret_name by blast
  qed
qed

lemma wallet_disk_info:
  assumes r: "wallets_rep H dir files ws" and w: "ws i = Some w"
  shows "map_option wallet_info_of (Option.bind (read_json H files (join (walletsDir dir) (json_name i))) wallet_of_json)
           = Some (info_of_view i w)"
proof -
  obtain f where f: "read_json H files (wallet_path dir i) = Some (wallet_json f)" "shows_wallet H f i w"
    using wallets_repD(3) [OF r w] by blast
  then have "is_object (wf_crypto f)" by (simp add: shows_wallet_def)
  with f show ?thesis by (simp add: wallet_path_def [symmetric] wallet_info_of_def info_of_view_def shows_wallet_def)
qed

lemma key_disk_try:
  assumes r: "keys_rep H dir files ks" and k: "ks i = Some k"
  shows "Option.bind (read_json H files (join (keysDir dir) (json_name i))) (try_key H t)
           = (if t = kv_token k then Some (payload_of k) else None)"
proof -
  obtain g where g: "read_json H files (key_path dir i) = Some (api_key_json g)" "is_object (kf_crypto g)"
    "opens_for H (kf_crypto g) k"
    using keys_repD(3) [OF r k] by blast
  then have "try_key H t (api_key_json g) = (if t = kv_token k then Some (payload_of k) else None)"
    using opens_own [OF g(3)] opens_other [OF g(3), of t]
    by (auto simp: try_key_def api_key_json_def is_text_def read_simps)
  with g(1) show ?thesis by (simp add: key_path_def [symmetric])
qed

lemma map_filter_distinct_ids:
  assumes "distinct xs" and "\<And>x y. x \<in> set xs \<Longrightarrow> f x = Some y \<Longrightarrow> x = json_name (wi_id y)"
  shows "distinct (map wi_id (List.map_filter f xs))"
  using assms
proof (induction xs)
  case Nil
  then show ?case by (simp add: List.map_filter_simps)
next
  case (Cons x xs)
  have "wi_id y \<notin> wi_id ` set (List.map_filter f xs)" if y: "f x = Some y" for y
  proof
    assume "wi_id y \<in> wi_id ` set (List.map_filter f xs)"
    then obtain x' z where z: "x' \<in> set xs" "f x' = Some z" "wi_id z = wi_id y" by (auto simp: set_map_filter)
    with Cons.prems(2) [of x y] Cons.prems(2) [of x' z] y have "x = x'" by simp
    with z(1) Cons.prems(1) show False by simp
  qed
  with Cons show ?case by (auto simp: List.map_filter_simps split: option.splits)
qed

lemma file_contract:
  assumes H: "host_ok H" and key: "secret_key_ok H key"
  shows "vault_contract (file_vault H dir key) (file_rep H dir key)"
proof
  fix s v c assume "file_rep H dir key s v" "admissible c v"
  then show "wp (run_call (file_vault H dir key) c) (\<lambda>r s'.
      r = Returned (case call_fails c v of Some e \<Rightarrow> Inl e | None \<Rightarrow> Inr ()) \<and> file_rep H dir key s' (view_call c v)) s"
    by (rule file_calls [OF H key])
next
  fix s v n assume r: "file_rep H dir key s v"
  have "secretPath dir n \<notin> set (fs_dirs s)" using file_repD(3) [OF r] by (simp add: no_dirs_def)
  then show "wp (v_get (file_vault H dir key) n) (\<lambda>r s'. s' = s \<and> r = Returned (case vv_secrets v n of
      None \<Rightarrow> Inl (NotFoundError ''VaultSecret'' n) | Some x \<Rightarrow> Inr x)) s"
    using secrets_repD(1,2) [OF file_repD(4) [OF r], of n] file_repD(1) [OF r]
    by (cases "vv_secrets v n"; cases "map_get (fs_files s) (secretPath dir n)")
      (simp_all add: file_vault_def file_get_def wp_simps wp_fs_calls)
next
  fix s v assume r: "file_rep H dir key s v"
  show "wp (v_list (file_vault H dir key)) (\<lambda>r s'. s' = s \<and>
      (\<exists>ns. r = Returned ns \<and> set ns = dom (vv_secrets v) \<and> sorted ns)) s"
    using secret_names [OF H file_repD(4) [OF r]] file_repD(1) [OF r]
    by (simp add: file_vault_def file_list_def wp_simps wp_fs_calls)
next
  fix s v i p assume r: "file_rep H dir key s v"
  show "wp (v_readWallet (file_vault H dir key) i p) (\<lambda>r s'. s' = s \<and> r = Returned (case vv_wallets v i of
      None \<Rightarrow> Inl (NotFoundError ''Wallet'' i)
    | Some w \<Rightarrow> if p = wv_pass w then Inr (wv_mnemonic w) else Inl wrong_passphrase)) s"
    by (auto simp: file_vault_def file_readWallet_def wp_with_wallet [OF file_repD(1,5) [OF r]] wp_simps
        shows_wallet_def split: option.split)
next
  fix s v assume r: "file_rep H dir key s v"
  let ?names = "filter (ends_with ''.json'') (vh_listing H (names_in (walletsDir dir) (fs_files s)))"
  let ?f = "\<lambda>x. map_option wallet_info_of (Option.bind (read_json H (fs_files s) (join (walletsDir dir) x)) wallet_of_json)"
  note ws = file_repD(5) [OF r]
  have in_names: "x \<in> set ?names \<longleftrightarrow> (\<exists>i. x = json_name i \<and> vv_wallets v i \<noteq> None)" for x
    by (rule wallet_names [OF H ws])
  have f: "?f (json_name i) = Some (info_of_view i w)" if "vv_wallets v i = Some w" for i w
    by (rule wallet_disk_info [OF ws that])
  have readable: "\<forall>x \<in> set ?names. read_json H (fs_files s) (join (walletsDir dir) x) \<noteq> None"
  proof
    fix x assume "x \<in> set ?names"
    then obtain i w where "x = json_name i" "vv_wallets v i = Some w" unfolding in_names by blast
    with wallets_repD(3) [OF ws] show "read_json H (fs_files s) (join (walletsDir dir) x) \<noteq> None"
      by (fastforce simp: wallet_path_def)
  qed
  have "set (List.map_filter ?f ?names) = {info_of_view i w | i w. vv_wallets v i = Some w}"
  proof (intro set_eqI iffI)
    fix y assume "y \<in> set (List.map_filter ?f ?names)"
    then obtain x where "x \<in> set ?names" "?f x = Some y" by (auto simp only: set_map_filter mem_Collect_eq)
    then show "y \<in> {info_of_view i w | i w. vv_wallets v i = Some w}" unfolding in_names using f by fastforce
  next
    fix y assume "y \<in> {info_of_view i w | i w. vv_wallets v i = Some w}"
    then obtain i w where w: "y = info_of_view i w" "vv_wallets v i = Some w" by blast
    then have "json_name i \<in> set ?names" unfolding in_names by blast
    with f [OF w(2)] w(1) show "y \<in> set (List.map_filter ?f ?names)" unfolding set_map_filter by blast
  qed
  moreover have "distinct (map wi_id (List.map_filter ?f ?names))"
  proof (rule map_filter_distinct_ids)
    show "distinct ?names"
      using names_in_distinct [OF file_repD(2) [OF r]] by (simp add: listing_distinct [OF H])
  next
    fix x y assume "x \<in> set ?names" "?f x = Some y"
    then obtain i w where i: "x = json_name i" "vv_wallets v i = Some w" "?f x = Some y" unfolding in_names by blast
    with f [OF i(2)] have "y = info_of_view i w" by (metis option.inject)
    with i(1) show "x = json_name (wi_id y)" by (simp add: info_of_view_def)
  qed
  ultimately show "wp (v_listWallets (file_vault H dir key)) (\<lambda>r s'. s' = s \<and> (\<exists>xs. r = Returned (Inr xs)
      \<and> distinct (map wi_id xs) \<and> set xs = {info_of_view i w | i w. vv_wallets v i = Some w})) s"
    using file_repD(1) [OF r] wp_wallet_infos [OF file_repD(1) [OF r] readable]
    by (simp add: file_vault_def file_listWallets_def wp_simps wp_fs_calls)
next
  fix s v i assume r: "file_rep H dir key s v"
  show "wp (v_getWalletAccounts (file_vault H dir key) i) (\<lambda>r s'. s' = s \<and> r = Returned (case vv_wallets v i of
      None \<Rightarrow> Inl (NotFoundError ''Wallet'' i) | Some w \<Rightarrow> Inr (wv_accounts w))) s"
    by (auto simp: file_vault_def file_getWalletAccounts_def wp_with_wallet [OF file_repD(1,5) [OF r]] wp_simps
        shows_wallet_def split: option.split)
next
  fix s v t assume r: "file_rep H dir key s v"
  let ?names = "filter (ends_with ''.json'') (vh_listing H (names_in (keysDir dir) (fs_files s)))"
  let ?f = "\<lambda>x. Option.bind (read_json H (fs_files s) (join (keysDir dir) x)) (try_key H t)"
  note ks = file_repD(6) [OF r]
  have in_names: "x \<in> set ?names \<longleftrightarrow> (\<exists>i. x = json_name i \<and> vv_keys v i \<noteq> None)" for x
    by (rule key_names [OF H ks])
  have f: "?f (json_name i) = (if t = kv_token k then Some (payload_of k) else None)" if "vv_keys v i = Some k" for i k
    by (rule key_disk_try [OF ks that])
  have readable: "\<forall>x \<in> set ?names. read_json H (fs_files s) (join (keysDir dir) x) \<noteq> None"
  proof
    fix x assume "x \<in> set ?names"
    then obtain i k where "x = json_name i" "vv_keys v i = Some k" unfolding in_names by blast
    with keys_repD(3) [OF ks] show "read_json H (fs_files s) (join (keysDir dir) x) \<noteq> None"
      by (fastforce simp: key_path_def)
  qed
  have hits: "set (List.map_filter ?f ?names) = {payload_of k | i k. vv_keys v i = Some k \<and> kv_token k = t}"
  proof (intro set_eqI iffI)
    fix y assume "y \<in> set (List.map_filter ?f ?names)"
    then obtain x where "x \<in> set ?names" "?f x = Some y" by (auto simp only: set_map_filter mem_Collect_eq)
    then obtain i k where "vv_keys v i = Some k" "?f (json_name i) = Some y" unfolding in_names by blast
    with f show "y \<in> {payload_of k | i k. vv_keys v i = Some k \<and> kv_token k = t}" by (auto split: if_splits)
  next
    fix y assume "y \<in> {payload_of k | i k. vv_keys v i = Some k \<and> kv_token k = t}"
    then obtain i k where k: "y = payload_of k" "vv_keys v i = Some k" "kv_token k = t" by blast
    then have "json_name i \<in> set ?names" unfolding in_names by blast
    with f [OF k(2)] k show "y \<in> set (List.map_filter ?f ?names)" unfolding set_map_filter by fastforce
  qed
  have run: "wp (v_readApiKey (file_vault H dir key) t) Q s \<longleftrightarrow>
      Q (Returned (case List.map_filter ?f ?names of [] \<Rightarrow> Inl (NotFoundError ''ApiKey'' ''by-token'') | p # _ \<Rightarrow> Inr p)) s" for Q
    using file_repD(1) [OF r] wp_scan_keys [OF file_repD(1) [OF r] readable]
    by (cases "List.map_filter ?f ?names") (simp_all add: file_vault_def file_readApiKey_def wp_simps wp_fs_calls)
  show "wp (v_readApiKey (file_vault H dir key) t) (\<lambda>r s'. s' = s \<and>
      (\<forall>i k. vv_keys v i = Some k \<longrightarrow> kv_token k = t \<longrightarrow> r = Returned (Inr (payload_of k)))
      \<and> ((\<forall>i k. vv_keys v i = Some k \<longrightarrow> kv_token k \<noteq> t) \<longrightarrow> (\<exists>e. r = Returned (Inl e)))) s"
  proof (cases "List.map_filter ?f ?names")
    case Nil
    with hits have "\<not> (\<exists>i k. vv_keys v i = Some k \<and> kv_token k = t)" by auto
    with Nil show ?thesis unfolding run by auto
  next
    case (Cons p ps)
    with hits have "p \<in> {payload_of k | i k. vv_keys v i = Some k \<and> kv_token k = t}" by (metis list.set_intros(1))
    then obtain i k where k: "p = payload_of k" "vv_keys v i = Some k" "kv_token k = t" by blast
    have same: "payload_of k' = p" if "vv_keys v i' = Some k'" "kv_token k' = t" for i' k'
    proof -
      from keys_repD(5) [OF ks that(1) k(2)] that(2) k(3) have "i' = i" by metis
      with that(1) k(1,2) show ?thesis by simp
    qed
    have "\<not> (\<forall>i k. vv_keys v i = Some k \<longrightarrow> kv_token k \<noteq> t)" using k by blast
    moreover have "\<forall>i k. vv_keys v i = Some k \<longrightarrow> kv_token k = t \<longrightarrow> p = payload_of k" using same by simp
    ultimately show ?thesis unfolding run Cons list.case by simp
  qed
qed

definition file_keeps :: "vault_host \<Rightarrow> string \<Rightarrow> 8 word list \<Rightarrow> fs \<Rightarrow> vault_view \<Rightarrow> bool" where
  "file_keeps H dir key = (\<lambda>s v. (host_ok H \<and> secret_key_ok H key) \<and> file_rep H dir key s v)"

interpretation disk: vault_contract "file_vault H dir key" "file_keeps H dir key" for H dir key
  unfolding file_keeps_def by (rule vault_contract_if) (auto intro: file_contract)

text \<open>A disk without files and without faults.\<close>

definition fresh_disk :: "string \<Rightarrow> fs \<Rightarrow> bool" where
  "fresh_disk dir s \<longleftrightarrow> no_faults s \<and> fs_files s = [] \<and> no_dirs dir s"

lemma file_keeps_fresh:
  "host_ok H \<Longrightarrow> secret_key_ok H key \<Longrightarrow> fresh_disk dir s \<Longrightarrow> file_keeps H dir key s empty_view"
  by (simp add: file_keeps_def file_rep_def fresh_disk_def empty_view_def secrets_rep_def wallets_rep_def keys_rep_def)

section \<open>A host\<close>

definition coded :: "8 word list \<Rightarrow> 8 word list" where
  "coded k = concat (map (\<lambda>b. [1, b]) k) @ [0]"

lemma coded_inj: "coded k @ p = coded k' @ q \<Longrightarrow> k = k' \<and> p = q"
  unfolding coded_def
proof (induction k arbitrary: k')
  case Nil
  then show ?case by (cases k') auto
next
  case (Cons b k)
  then show ?case by (cases k') auto
qed

definition vault_demo_host :: vault_host where
  "vault_demo_host =
     \<lparr>vh_scrypt = (\<lambda>p salt n r q l. Inr p), vh_hkdf = (\<lambda>t salt info. t),
      vh_gcm = (\<lambda>k iv p. coded k @ p),
      vh_ungcm = (\<lambda>k iv c. if take (length (coded k)) c = coded k then Some (drop (length (coded k)) c) else None),
      vh_seal = (\<lambda>k iv p. Inr (coded k @ p)),
      vh_unseal = (\<lambda>k iv c. if take (length (coded k)) c = coded k then Inr (drop (length (coded k)) c)
                             else Inl ''OperationError''),
      vh_import = Inr, vh_sha256 = (\<lambda>b. b), vh_hex = from_bytes, vh_unhex = (\<lambda>s. Some (to_bytes s)),
      vh_decode = inv utf8, vh_pretty = stringify,
      vh_parse = (\<lambda>s. if s \<in> range stringify then Some (inv stringify s) else None),
      vh_listing = (\<lambda>xs. xs)\<rparr>"

lemma vault_demo_ok: "host_ok vault_demo_host"
proof -
  have other: "take (length (coded k')) (coded k @ p) \<noteq> coded k'" if "k \<noteq> k'" for k k' p
  proof
    assume "take (length (coded k')) (coded k @ p) = coded k'"
    then have "coded k @ p = coded k' @ drop (length (coded k')) (coded k @ p)" by (metis append_take_drop_id)
    with coded_inj that show False by blast
  qed
  have "inj stringify" "inj utf8" by (simp_all add: inj_def)
  moreover have "from_bytes a \<noteq> from_bytes b" if "a \<noteq> b" for a b using that to_from_bytes by metis
  ultimately show ?thesis using other by (simp add: host_ok_def vault_demo_host_def)
qed

lemma vault_demo_key: "secret_key_ok vault_demo_host key"
  by (simp add: secret_key_ok_def vault_demo_host_def)

definition demo_disk :: fs where
  "demo_disk = \<lparr>fs_files = [], fs_dirs = [], fs_fault = (\<lambda>_. None)\<rparr>"

lemma demo_disk_fresh: "fresh_disk dir demo_disk"
  by (simp add: fresh_disk_def demo_disk_def no_faults_def no_dirs_def)

section \<open>The main properties\<close>

lemma all_admissible_append:
  "all_admissible (cs @ ds) v \<longleftrightarrow> all_admissible cs v \<and> all_admissible ds (fold view_call cs v)"
  by (induction cs arbitrary: v) simp_all

lemma run_calls_append: "run_calls V (cs @ ds) s = run_calls V ds (run_calls V cs s)"
  by (induction cs arbitrary: s) simp_all

lemma passphrase_needed:
  assumes "host_ok H" and "secret_key_ok H key" and "fresh_disk dir s"
    and "all_admissible (cs @ CreateWallet d i l m p # ds) empty_view" and "\<forall>c \<in> set ds. \<not> touches i c"
  shows "fst (run_state (v_readWallet (file_vault H dir key) i q)
           (run_calls (file_vault H dir key) (cs @ CreateWallet d i l m p # ds) s))
         = Returned (if q = p then Inr m else Inl wrong_passphrase)"
proof -
  let ?v = "fold view_call cs empty_view"
  let ?c = "CreateWallet d i l m p"
  have a: "all_admissible cs empty_view" "admissible ?c ?v" "all_admissible ds (view_call ?c ?v)"
    using assms(4) by (simp_all add: all_admissible_append)
  have "file_keeps H dir key (run_calls (file_vault H dir key) cs s) ?v"
    by (rule disk.run_calls_rep [OF file_keeps_fresh [OF assms(1-3)] a(1)])
  then have "file_keeps H dir key (run_calls (file_vault H dir key) [?c] (run_calls (file_vault H dir key) cs s)) (view_call ?c ?v)"
    using disk.run_calls_rep [where cs = "[?c]" and v = ?v] a(2) by simp
  from disk.wallet_kept [OF this a(3) assms(5), where p = q] a(2) show ?thesis
    by (simp add: run_calls_append)
qed


definition demo_draw :: draw where
  "demo_draw = \<lparr>dr_salt = [1, 2], dr_iv = replicate 12 7, dr_now = ''2026-01-01T00:00:00.000Z''\<rparr>"


lemma both_answer:
  assumes "host_ok H" and "secret_key_ok H key" and "fresh_disk dir s"
    and "all_admissible (cs @ [c]) empty_view" and "plain_id i"
  shows "let M = createMemoryVault H; m = run_calls M cs empty_memory_vault;
             D = file_vault H dir key; d = run_calls D cs s in
    fst (run_state (v_get M n) m) = fst (run_state (v_get D n) d)
    \<and> fst (run_state (v_readWallet M i p) m) = fst (run_state (v_readWallet D i p) d)
    \<and> fst (run_state (v_getWalletAccounts M i) m) = fst (run_state (v_getWalletAccounts D i) d)
    \<and> fst (run_state (run_call M c) m) = fst (run_state (run_call D c) d)
    \<and> (fst (run_state (v_readApiKey M t) m) = Returned (Inr x)
         \<longleftrightarrow> fst (run_state (v_readApiKey D t) d) = Returned (Inr x))
    \<and> (fst (run_state (v_readApiKey D t) d) = Returned (Inr x)
         \<longleftrightarrow> (\<exists>j k. vv_keys (fold view_call cs empty_view) j = Some k \<and> kv_token k = t \<and> x = payload_of k))"
proof -
  have a: "all_admissible cs empty_view" "admissible c (fold view_call cs empty_view)"
    using assms(4) by (simp_all add: all_admissible_append)
  note mk = mem_keeps_empty [OF assms(1)] and dk = file_keeps_fresh [OF assms(1-3)]
  show ?thesis
    unfolding Let_def mem.token_exact [OF mk a(1)] disk.token_exact [OF dk a(1)]
      mem.answers(1) [OF mk a(1)] disk.answers(1) [OF dk a(1)] mem.answers(2,3) [OF mk a(1) assms(5)]
      disk.answers(2,3) [OF dk a(1) assms(5)] mem.answers(4) [OF mk a] disk.answers(4) [OF dk a]
    by simp
qed



end
