(* ===== verification/KeyBackend.thy ===== *)
theory KeyBackend
  imports Derivation VaultDisk
begin

text \<open>
  The internal key backend (packages/keys/src/key-manager.ts with the interface of
  key-backend.ts): wallets whose mnemonic lies in a vault, accounts derived from it, signatures of
  an account, and API keys that sign for a wallet.

  The backend is written over the interface of a vault. Its own state is the map of loaded wallets.
  Operations run one after the other; what they draw at random is an argument. A derivation that
  throws rejects the promise. The two signature schemes are the host's.
\<close>

section \<open>Types\<close>

record 's backend =
  kb_vault :: "'s vault"
  kb_passphrase :: string
  kb_host :: derivation_host
  kb_words :: "string list"
  kb_secp_sign :: "8 word list \<Rightarrow> 8 word list \<Rightarrow> 8 word list"
  kb_ed_sign :: "8 word list \<Rightarrow> 8 word list \<Rightarrow> 8 word list"

record wallet_state =
  ws_id :: string
  ws_label :: string
  ws_createdAt :: string
  ws_nextIndex :: int
  ws_accounts :: "account_entry list"

record wallet_info =
  kw_id :: string
  kw_label :: string
  kw_provider :: string
  kw_accountCount :: nat
  kw_createdAt :: string

record account_info =
  ai_index :: int
  ai_address :: string
  ai_chain :: chain
  ai_publicKey :: string

record signing_result =
  sg_signature :: "8 word list"
  sg_publicKey :: "8 word list"
  sg_algorithm :: string

record api_key_info =
  ak_id :: string
  ak_walletId :: string
  ak_token :: string
  ak_expiresAt :: string

type_synonym wallet_states = "(string, wallet_state) js_map"
type_synonym ('s, 'a) keyed = "(wallet_states \<times> 's, 'a) task"

section \<open>Sequencing\<close>

text \<open>\<open>const r = await m; if (Result.isError(r)) return r; ...\<close>\<close>

definition then_ok :: "('s, 'a) task \<Rightarrow> ('a \<Rightarrow> ('s, 'b) task) \<Rightarrow> ('s, 'b) task" where
  "then_ok m f = do {
     r \<leftarrow> m;
     case r of
       Threw e \<Rightarrow> State_Monad.return (Threw e)
     | Returned (Inl e) \<Rightarrow> State_Monad.return (Returned (Inl e))
     | Returned (Inr x) \<Rightarrow> f x
   }"

text \<open>The vault is part of the world of the backend.\<close>

definition on_vault :: "('s, 'a) task \<Rightarrow> ('c \<times> 's, 'a) task" where
  "on_vault m = ask (run_state m)"

text \<open>A computation that may throw.\<close>

definition or_throw :: "string + 'a \<Rightarrow> ('s, 'a) task" where
  "or_throw r = State_Monad.return (case r of Inl e \<Rightarrow> Threw (HostError e) | Inr x \<Rightarrow> Returned (Inr x))"

section \<open>Signing with a seed\<close>

definition public_key_of :: "'s backend \<Rightarrow> 8 word list \<Rightarrow> chain \<Rightarrow> int \<Rightarrow> string + 8 word list" where
  "public_key_of B seed c index =
     (case c of
        Evm \<Rightarrow> map_sum id de_publicKey (deriveEvmKey (kb_host B) seed index)
      | Ed25519 \<Rightarrow> map_sum id dd_publicKey (deriveEd25519Key (kb_host B) seed index))"

definition signWithSeed ::
  "'s backend \<Rightarrow> 8 word list \<Rightarrow> int \<Rightarrow> chain \<Rightarrow> 8 word list \<Rightarrow> string + signing_result" where
  "signWithSeed B seed accountIndex c data =
     (case c of
        Evm \<Rightarrow>
          (case deriveEvmKey (kb_host B) seed accountIndex of
             Inl e \<Rightarrow> Inl e
           | Inr derived \<Rightarrow>
               (let hash = dh_sha256 (kb_host B) data;
                    sig = kb_secp_sign B hash (de_privateKey derived) in
                case dh_secp_public (kb_host B) (de_privateKey derived) False of
                  Inl e \<Rightarrow> Inl e
                | Inr publicKey \<Rightarrow>
                    Inr \<lparr>sg_signature = sig, sg_publicKey = publicKey, sg_algorithm = ''secp256k1''\<rparr>))
      | Ed25519 \<Rightarrow>
          (case deriveEd25519Key (kb_host B) seed accountIndex of
             Inl e \<Rightarrow> Inl e
           | Inr derived \<Rightarrow>
               Inr \<lparr>sg_signature = kb_ed_sign B data (dd_privateKey derived),
                    sg_publicKey = dh_ed_public (kb_host B) (dd_privateKey derived), sg_algorithm = ''ed25519''\<rparr>))"

section \<open>Loading a wallet\<close>

definition getSeed :: "'s backend \<Rightarrow> string \<Rightarrow> ('s, string \<times> 8 word list) keyed" where
  "getSeed B walletId =
     then_ok (on_vault (v_readWallet (kb_vault B) walletId (kb_passphrase B)))
       (\<lambda>mnemonic. succeeds (mnemonic, mnemonicToSeed (kb_host B) mnemonic []))"

definition next_index :: "account_entry list \<Rightarrow> int" where
  "next_index accounts = foldl (\<lambda>maxIndex entry. max maxIndex (ae_index entry)) (-1) accounts + 1"

definition ensureWalletState :: "'s backend \<Rightarrow> string \<Rightarrow> ('s, wallet_state \<times> 8 word list) keyed" where
  "ensureWalletState B walletId = do {
     existing \<leftarrow> local_gets (\<lambda>st. map_get st walletId);
     then_ok (getSeed B walletId) (\<lambda>(mnemonic, seed).
       case existing of
         Some state \<Rightarrow> succeeds (state, seed)
       | None \<Rightarrow>
           then_ok (on_vault (v_listWallets (kb_vault B))) (\<lambda>wallets.
             case find_first (\<lambda>entry. wi_id entry = walletId) wallets of
               None \<Rightarrow> fails (NotFoundError ''Wallet'' walletId)
             | Some wallet \<Rightarrow>
                 then_ok (on_vault (v_getWalletAccounts (kb_vault B) walletId)) (\<lambda>accounts.
                   let state = \<lparr>ws_id = wi_id wallet, ws_label = wi_label wallet, ws_createdAt = wi_createdAt wallet,
                                ws_nextIndex = next_index accounts, ws_accounts = accounts\<rparr> in
                   do {
                     local_modify (map_set walletId state);
                     succeeds (state, seed)
                   })))
   }"

definition account_at :: "int \<Rightarrow> wallet_state \<Rightarrow> account_entry option" where
  "account_at index ws = find_first (\<lambda>a. ae_index a = index) (ws_accounts ws)"

definition chainAt :: "wallet_states \<Rightarrow> string \<Rightarrow> int \<Rightarrow> chain option" where
  "chainAt st walletId index =
     map_option ae_chain (Option.bind (map_get st walletId) (account_at index))"

definition account_name :: "string \<Rightarrow> int \<Rightarrow> string" where
  "account_name walletId index = walletId @ ''/'' @ show_int index"

definition resolveAndSign ::
  "'s backend \<Rightarrow> string \<Rightarrow> 8 word list \<Rightarrow> int \<Rightarrow> 8 word list \<Rightarrow> ('s, signing_result) keyed" where
  "resolveAndSign B walletId seed accountIndex data = do {
     chain \<leftarrow> local_gets (\<lambda>st. chainAt st walletId accountIndex);
     case chain of
       None \<Rightarrow> fails (NotFoundError ''Account'' (account_name walletId accountIndex))
     | Some c \<Rightarrow> or_throw (signWithSeed B seed accountIndex c data)
   }"

section \<open>Wallets\<close>

definition info_of_wallet :: "wallet_file_info \<Rightarrow> wallet_info" where
  "info_of_wallet w = \<lparr>kw_id = wi_id w, kw_label = wi_label w, kw_provider = ''internal'',
     kw_accountCount = wi_accountCount w, kw_createdAt = wi_createdAt w\<rparr>"

text \<open>\<open>walletId\<close> and \<open>entropy\<close> are drawn, \<open>now\<close> is the time after the vault has answered.\<close>

definition backend_createWallet ::
  "'s backend \<Rightarrow> string \<Rightarrow> 8 word list \<Rightarrow> draw \<Rightarrow> string \<Rightarrow> string \<Rightarrow> ('s, wallet_info) keyed" where
  "backend_createWallet B walletId entropy d now label =
     then_ok (or_throw (generateMnemonic (kb_host B) (kb_words B) entropy)) (\<lambda>mnemonic.
     then_ok (on_vault (v_createWallet (kb_vault B) d walletId label mnemonic (kb_passphrase B))) (\<lambda>_. do {
       local_modify (map_set walletId
         \<lparr>ws_id = walletId, ws_label = label, ws_createdAt = now, ws_nextIndex = 0, ws_accounts = []\<rparr>);
       succeeds \<lparr>kw_id = walletId, kw_label = label, kw_provider = ''internal'', kw_accountCount = 0,
                 kw_createdAt = now\<rparr>
     }))"

definition backend_deleteWallet :: "'s backend \<Rightarrow> string \<Rightarrow> ('s, unit) keyed" where
  "backend_deleteWallet B walletId = do {
     r \<leftarrow> on_vault (v_deleteWallet (kb_vault B) walletId);
     (if r = Returned (Inr ()) then local_modify (map_delete walletId) else State_Monad.return ());
     State_Monad.return r
   }"

definition backend_listWallets :: "'s backend \<Rightarrow> ('s, wallet_info list) keyed" where
  "backend_listWallets B =
     then_ok (on_vault (v_listWallets (kb_vault B))) (\<lambda>ws. succeeds (map info_of_wallet ws))"

definition backend_getWallet :: "'s backend \<Rightarrow> string \<Rightarrow> ('s, wallet_info) keyed" where
  "backend_getWallet B walletId =
     then_ok (on_vault (v_listWallets (kb_vault B))) (\<lambda>ws.
       case find_first (\<lambda>w. wi_id w = walletId) ws of
         None \<Rightarrow> fails (NotFoundError ''Wallet'' walletId)
       | Some found \<Rightarrow> succeeds (info_of_wallet found))"

section \<open>Accounts\<close>

text \<open>The address and the hexadecimal public key of a new account.\<close>

definition new_account :: "'s backend \<Rightarrow> 8 word list \<Rightarrow> chain \<Rightarrow> int \<Rightarrow> string + string \<times> string" where
  "new_account B seed c index =
     (case c of
        Evm \<Rightarrow> map_sum id (\<lambda>d. (de_address d, bytes_to_hex (de_publicKey d))) (deriveEvmKey (kb_host B) seed index)
      | Ed25519 \<Rightarrow> map_sum id (\<lambda>d. (bytes_to_hex (dd_publicKey d), bytes_to_hex (dd_publicKey d)))
                    (deriveEd25519Key (kb_host B) seed index))"

definition deriveAccount :: "'s backend \<Rightarrow> string \<Rightarrow> chain \<Rightarrow> ('s, account_info) keyed" where
  "deriveAccount B walletId c =
     then_ok (ensureWalletState B walletId) (\<lambda>(state, seed).
       let index = ws_nextIndex state in
       then_ok (or_throw (new_account B seed c index)) (\<lambda>(address, publicKeyHex).
         let entry = \<lparr>ae_index = index, ae_chain = c, ae_address = address\<rparr>;
             newAccounts = ws_accounts state @ [entry] in
         then_ok (on_vault (v_updateWalletAccounts (kb_vault B) walletId newAccounts)) (\<lambda>_. do {
           local_modify (map_set walletId (state\<lparr>ws_nextIndex := index + 1, ws_accounts := newAccounts\<rparr>));
           succeeds \<lparr>ai_index = index, ai_address = address, ai_chain = c, ai_publicKey = publicKeyHex\<rparr>
         })))"

definition account_info_of :: "'s backend \<Rightarrow> 8 word list \<Rightarrow> account_entry \<Rightarrow> string + account_info" where
  "account_info_of B seed e =
     map_sum id (\<lambda>pk. \<lparr>ai_index = ae_index e, ai_address = ae_address e, ai_chain = ae_chain e,
                       ai_publicKey = bytes_to_hex pk\<rparr>)
       (public_key_of B seed (ae_chain e) (ae_index e))"

fun all_infos :: "'s backend \<Rightarrow> 8 word list \<Rightarrow> account_entry list \<Rightarrow> string + account_info list" where
  "all_infos B seed [] = Inr []"
| "all_infos B seed (e # es) =
     (case account_info_of B seed e of
        Inl x \<Rightarrow> Inl x
      | Inr i \<Rightarrow> map_sum id ((#) i) (all_infos B seed es))"

definition listAccounts :: "'s backend \<Rightarrow> string \<Rightarrow> ('s, account_info list) keyed" where
  "listAccounts B walletId =
     then_ok (ensureWalletState B walletId) (\<lambda>(state, seed). or_throw (all_infos B seed (ws_accounts state)))"

definition backend_getXmtpIdentityKey :: "'s backend \<Rightarrow> string \<Rightarrow> int \<Rightarrow> ('s, string) keyed" where
  "backend_getXmtpIdentityKey B walletId accountIndex =
     then_ok (ensureWalletState B walletId) (\<lambda>(state, seed).
       case find_first (\<lambda>e. ae_index e = accountIndex \<and> ae_chain e = Evm) (ws_accounts state) of
         None \<Rightarrow> fails (NotFoundError ''EvmAccount'' (account_name walletId accountIndex))
       | Some _ \<Rightarrow>
           then_ok (or_throw (deriveEvmKey (kb_host B) seed accountIndex)) (\<lambda>derived.
             succeeds (''0x'' @ bytes_to_hex (de_privateKey derived))))"

section \<open>Signing and API keys\<close>

definition backend_sign :: "'s backend \<Rightarrow> string \<Rightarrow> int \<Rightarrow> 8 word list \<Rightarrow> ('s, signing_result) keyed" where
  "backend_sign B walletId accountIndex data =
     then_ok (getSeed B walletId) (\<lambda>(mnemonic, seed). resolveAndSign B walletId seed accountIndex data)"

text \<open>\<open>random\<close> are the 32 bytes of \<open>generateToken\<close>.\<close>

definition backend_createApiKey ::
  "'s backend \<Rightarrow> 8 word list \<Rightarrow> draw \<Rightarrow> string \<Rightarrow> string \<Rightarrow> string \<Rightarrow> ('s, api_key_info) keyed" where
  "backend_createApiKey B random d walletId credentialId expiresAt =
     then_ok (on_vault (v_readWallet (kb_vault B) walletId (kb_passphrase B))) (\<lambda>mnemonic.
       let token = bytes_to_hex random in
       then_ok (on_vault (v_createApiKey (kb_vault B) d credentialId walletId mnemonic token expiresAt)) (\<lambda>_.
         succeeds \<lparr>ak_id = credentialId, ak_walletId = walletId, ak_token = token, ak_expiresAt = expiresAt\<rparr>))"

definition backend_revokeApiKey :: "'s backend \<Rightarrow> string \<Rightarrow> ('s, unit) keyed" where
  "backend_revokeApiKey B keyId = on_vault (v_revokeApiKey (kb_vault B) keyId)"

definition signWithApiKey :: "'s backend \<Rightarrow> string \<Rightarrow> int \<Rightarrow> 8 word list \<Rightarrow> ('s, signing_result) keyed" where
  "signWithApiKey B token accountIndex data =
     then_ok (on_vault (v_readApiKey (kb_vault B) token)) (\<lambda>payload.
       resolveAndSign B (ap_walletId payload) (mnemonicToSeed (kb_host B) (ap_mnemonic payload) [])
         accountIndex data)"

end
