(* ===== verification/KeyBackendSafety.thy ===== *)
theory KeyBackendSafety
  imports KeyBackend "HOL-Library.Sublist"
begin

text \<open>
  What the key backend keeps over any vault that keeps its contract: accounts of a wallet carry the
  indices 0, 1, 2, ... and the address their own derivation gives, an index is never given twice,
  and what the backend has loaded agrees with the vault.
\<close>

section \<open>Running the operations\<close>

lemma wp_then_ok [wp_simps]:
  "wp (then_ok m f) Q s \<longleftrightarrow>
     wp m (\<lambda>r s'. case r of Threw e \<Rightarrow> Q (Threw e) s'
                | Returned (Inl e) \<Rightarrow> Q (Returned (Inl e)) s'
                | Returned (Inr x) \<Rightarrow> wp (f x) Q s') s"
  unfolding then_ok_def wp_bind by (auto simp: wp_def split: prod.split completion.split sum.split)

lemma wp_or_throw [wp_simps]:
  "wp (or_throw r) Q s \<longleftrightarrow> Q (case r of Inl e \<Rightarrow> Threw (HostError e) | Inr x \<Rightarrow> Returned (Inr x)) s"
  by (simp add: or_throw_def wp_return)

lemma wp_on_vault: "wp (on_vault m) Q (c, s) \<longleftrightarrow> wp m (\<lambda>r s'. Q r (c, s')) s"
  by (cases "run_state m s") (simp add: on_vault_def ask_def wp_def)

lemma wp_pair: "wp (case x of (a, b) \<Rightarrow> f a b) Q s \<longleftrightarrow> wp (f (fst x) (snd x)) Q s"
  by (simp add: case_prod_beta)

section \<open>The invariant\<close>

definition seed_of :: "'s backend \<Rightarrow> wallet_view \<Rightarrow> 8 word list" where
  "seed_of B w = mnemonicToSeed (kb_host B) (wv_mnemonic w) []"

definition accounts_ok :: "'s backend \<Rightarrow> wallet_view \<Rightarrow> bool" where
  "accounts_ok B w \<longleftrightarrow>
     (\<forall>j < length (wv_accounts w). ae_index (wv_accounts w ! j) = int j
        \<and> (\<exists>pk. new_account B (seed_of B w) (ae_chain (wv_accounts w ! j)) (int j)
                = Inr (ae_address (wv_accounts w ! j), pk)))"

definition view_ok :: "'s backend \<Rightarrow> vault_view \<Rightarrow> bool" where
  "view_ok B v \<longleftrightarrow>
     (\<forall>i w. vv_wallets v i = Some w \<longrightarrow> plain_id i \<and> wv_pass w = kb_passphrase B \<and> accounts_ok B w)
     \<and> (\<forall>i k w. vv_keys v i = Some k \<longrightarrow> vv_wallets v (kv_walletId k) = Some w \<longrightarrow> kv_mnemonic k = wv_mnemonic w)"

definition cache_ok :: "wallet_states \<Rightarrow> vault_view \<Rightarrow> bool" where
  "cache_ok st v \<longleftrightarrow>
     (\<forall>i ws. map_get st i = Some ws \<longrightarrow>
        (\<exists>w. vv_wallets v i = Some w \<and> ws_accounts ws = wv_accounts w
             \<and> ws_nextIndex ws = int (length (wv_accounts w))))"

definition backend_inv ::
  "('s \<Rightarrow> vault_view \<Rightarrow> bool) \<Rightarrow> 's backend \<Rightarrow> wallet_states \<times> 's \<Rightarrow> vault_view \<Rightarrow> bool" where
  "backend_inv rep B x v \<longleftrightarrow> rep (snd x) v \<and> view_ok B v \<and> cache_ok (fst x) v"

lemma next_index_fold: "foldl (\<lambda>m e. max m (ae_index e)) a as = Max (insert a (ae_index ` set as))"
proof (induction as arbitrary: a)
  case (Cons e as)
  have "Max (insert (max a (ae_index e)) (ae_index ` set as)) = Max (insert a (ae_index ` set (e # as)))"
    by (cases "as = []") (simp_all add: max.assoc)
  with Cons show ?case by simp
qed simp

lemma next_index_counts:
  assumes "\<forall>j < length as. ae_index (as ! j) = int j"
  shows "next_index as = int (length as)"
proof (cases "as = []")
  case True
  then show ?thesis by (simp add: next_index_def)
next
  case False
  have im: "ae_index ` set as = int ` {..<length as}"
  proof -
    have "set as = (!) as ` {..<length as}" by (auto simp: set_conv_nth)
    then have "ae_index ` set as = (\<lambda>j. ae_index (as ! j)) ` {..<length as}" by (simp add: image_image)
    also have "\<dots> = int ` {..<length as}" using assms by (intro image_cong) auto
    finally show ?thesis .
  qed
  have "Max (insert (- 1) (int ` {..<length as})) = int (length as) - 1"
  proof (rule Max_eqI)
    show "y \<le> int (length as) - 1" if "y \<in> insert (- 1) (int ` {..<length as})" for y using that by auto
    show "int (length as) - 1 \<in> insert (- 1) (int ` {..<length as})"
      using False by (auto intro!: image_eqI [where x = "length as - 1"] simp: of_nat_diff Suc_leI)
  qed simp
  then show ?thesis by (simp add: next_index_def next_index_fold im)
qed

lemma accounts_next_index: "accounts_ok B w \<Longrightarrow> next_index (wv_accounts w) = int (length (wv_accounts w))"
  by (rule next_index_counts) (simp add: accounts_ok_def)

lemma find_account:
  assumes "\<forall>j < length as. ae_index (as ! j) = int j"
  shows "find_first (\<lambda>a. ae_index a = i) as = (if 0 \<le> i \<and> i < int (length as) then Some (as ! nat i) else None)"
proof (cases "find_first (\<lambda>a. ae_index a = i) as")
  case None
  have "ae_index (as ! nat i) = i" "as ! nat i \<in> set as" if "0 \<le> i" "i < int (length as)"
    using assms that by auto
  with None show ?thesis by (auto simp: find_first_None)
next
  case (Some a)
  then have "a \<in> set as" "ae_index a = i" using find_first_SomeD [OF Some] by auto
  then obtain j where "j < length as" "as ! j = a" by (auto simp: in_set_conv_nth)
  with assms \<open>ae_index a = i\<close> Some show ?thesis by auto
qed

lemma view_okD:
  assumes "view_ok B v" and "vv_wallets v i = Some w"
  shows "plain_id i" and "wv_pass w = kb_passphrase B" and "accounts_ok B w"
  using assms by (auto simp: view_ok_def)

lemma cache_okD:
  assumes "cache_ok st v" and "map_get st i = Some ws" and "vv_wallets v i = Some w"
  shows "ws_accounts ws = wv_accounts w" and "ws_nextIndex ws = int (length (wv_accounts w))"
  using assms by (fastforce simp: cache_ok_def)+

lemma cache_ok_wallet: "cache_ok st v \<Longrightarrow> map_get st i = Some ws \<Longrightarrow> \<exists>w. vv_wallets v i = Some w"
  by (auto simp: cache_ok_def)

text \<open>The calls of the backend. A restart forgets what was loaded.\<close>

datatype backend_call =
  KCreateWallet string "8 word list" draw string string
| KDeleteWallet string
| KDeriveAccount string chain
| KListAccounts string
| KIdentityKey string int
| KSign string int "8 word list"
| KCreateApiKey "8 word list" draw string string string
| KRevokeApiKey string
| KSignWithApiKey string int "8 word list"
| KRestart

definition ignore :: "('s, 'a) task \<Rightarrow> ('s, unit) state" where
  "ignore m = do { _ \<leftarrow> m; State_Monad.return () }"

fun backend_step :: "'s backend \<Rightarrow> backend_call \<Rightarrow> (wallet_states \<times> 's, unit) state" where
  "backend_step B (KCreateWallet i entropy d now label) = ignore (backend_createWallet B i entropy d now label)"
| "backend_step B (KDeleteWallet i) = ignore (backend_deleteWallet B i)"
| "backend_step B (KDeriveAccount i c) = ignore (deriveAccount B i c)"
| "backend_step B (KListAccounts i) = ignore (listAccounts B i)"
| "backend_step B (KIdentityKey i n) = ignore (backend_getXmtpIdentityKey B i n)"
| "backend_step B (KSign i n data) = ignore (backend_sign B i n data)"
| "backend_step B (KCreateApiKey random d i cred expires) = ignore (backend_createApiKey B random d i cred expires)"
| "backend_step B (KRevokeApiKey k) = ignore (backend_revokeApiKey B k)"
| "backend_step B (KSignWithApiKey t n data) = ignore (signWithApiKey B t n data)"
| "backend_step B KRestart = local_modify (\<lambda>_. [])"

text \<open>Ids are file names; an id that is drawn is new, and so is a token.\<close>

fun backend_admissible :: "backend_call \<Rightarrow> vault_view \<Rightarrow> bool" where
  "backend_admissible (KCreateWallet i entropy d now label) v \<longleftrightarrow> plain_id i \<and> vv_wallets v i = None
     \<and> (\<forall>j k. vv_keys v j = Some k \<longrightarrow> kv_walletId k \<noteq> i)"
| "backend_admissible (KDeleteWallet i) v \<longleftrightarrow> plain_id i"
| "backend_admissible (KDeriveAccount i c) v \<longleftrightarrow> plain_id i"
| "backend_admissible (KListAccounts i) v \<longleftrightarrow> plain_id i"
| "backend_admissible (KIdentityKey i n) v \<longleftrightarrow> plain_id i"
| "backend_admissible (KSign i n data) v \<longleftrightarrow> plain_id i"
| "backend_admissible (KCreateApiKey random d i cred expires) v \<longleftrightarrow> plain_id i \<and> plain_id cred
     \<and> (\<forall>j k. vv_keys v j = Some k \<longrightarrow> kv_token k = bytes_to_hex random \<longrightarrow> j = cred)"
| "backend_admissible (KRevokeApiKey k) v \<longleftrightarrow> plain_id k"
| "backend_admissible (KSignWithApiKey t n data) v \<longleftrightarrow> True"
| "backend_admissible KRestart v \<longleftrightarrow> True"

text \<open>A wallet that is still there has the same mnemonic and at most more accounts.\<close>

definition wallets_grow :: "vault_view \<Rightarrow> vault_view \<Rightarrow> bool" where
  "wallets_grow v v' \<longleftrightarrow>
     (\<forall>i w w'. vv_wallets v i = Some w \<longrightarrow> vv_wallets v' i = Some w' \<longrightarrow>
        wv_mnemonic w' = wv_mnemonic w \<and> prefix (wv_accounts w) (wv_accounts w'))"

lemma wallets_grow_refl [simp]: "wallets_grow v v"
  by (auto simp: wallets_grow_def)

lemma wp_ignore [wp_simps]: "wp (ignore m) Q s \<longleftrightarrow> wp m (\<lambda>_. Q ()) s"
  by (simp add: ignore_def wp_simps wp_return_fun)

section \<open>What signing answers\<close>

definition sign_answer ::
  "'s backend \<Rightarrow> vault_view \<Rightarrow> wallet_states \<Rightarrow> string \<Rightarrow> int \<Rightarrow> 8 word list \<Rightarrow> signing_result result completion" where
  "sign_answer B v st i n data =
     (case vv_wallets v i of
        None \<Rightarrow> Returned (Inl (NotFoundError ''Wallet'' i))
      | Some w \<Rightarrow>
          if map_get st i = None \<or> n < 0 \<or> int (length (wv_accounts w)) \<le> n
          then Returned (Inl (NotFoundError ''Account'' (account_name i n)))
          else (case signWithSeed B (seed_of B w) n (ae_chain (wv_accounts w ! nat n)) data of
                  Inl e \<Rightarrow> Threw (HostError e)
                | Inr r \<Rightarrow> Returned (Inr r)))"

lemma chainAt_eq:
  assumes "cache_ok st v" and "vv_wallets v i = Some w" and "accounts_ok B w"
  shows "chainAt st i n = (if map_get st i = None \<or> n < 0 \<or> int (length (wv_accounts w)) \<le> n then None
           else Some (ae_chain (wv_accounts w ! nat n)))"
proof (cases "map_get st i")
  case None
  then show ?thesis by (simp add: chainAt_def)
next
  case (Some ws)
  have "\<forall>j < length (wv_accounts w). ae_index (wv_accounts w ! j) = int j" using assms(3) by (simp add: accounts_ok_def)
  from find_account [OF this, of n] cache_okD(1) [OF assms(1) Some assms(2)] Some show ?thesis
    by (simp add: chainAt_def account_at_def)
qed

lemma chainAt_none: "cache_ok st v \<Longrightarrow> vv_wallets v i = None \<Longrightarrow> chainAt st i n = None"
  using cache_ok_wallet [of st v i] by (cases "map_get st i") (auto simp: chainAt_def)

lemma evm_public: "deriveEvmKey D seed n = Inr d \<Longrightarrow> dh_secp_public D (de_privateKey d) False = Inr (de_publicKey d)"
  by (auto simp: deriveEvmKey_def derivePath_def Let_def split: sum.splits prod.splits)

lemma ed25519_public: "deriveEd25519Key D seed n = Inr d \<Longrightarrow> dh_ed_public D (dd_privateKey d) = dd_publicKey d"
  by (auto simp: deriveEd25519Key_def split: sum.splits prod.splits)

lemma signed_public_key: "signWithSeed B seed n c data = Inr r \<Longrightarrow> public_key_of B seed c n = Inr (sg_publicKey r)"
  by (auto simp: signWithSeed_def public_key_of_def Let_def evm_public ed25519_public split: chain.splits sum.splits)

text \<open>What was derived once signs.\<close>

lemma new_account_signs: "new_account B seed c n = Inr a \<Longrightarrow> \<exists>r. signWithSeed B seed n c data = Inr r"
  by (cases c; cases "deriveEvmKey (kb_host B) seed n"; cases "deriveEd25519Key (kb_host B) seed n")
    (simp_all add: new_account_def signWithSeed_def Let_def evm_public)

lemma all_infos_ok:
  "\<forall>e \<in> set es. \<exists>pk. public_key_of B seed (ae_chain e) (ae_index e) = Inr pk \<Longrightarrow>
   \<exists>xs. all_infos B seed es = Inr xs \<and> length xs = length es
      \<and> (\<forall>j < length es. account_info_of B seed (es ! j) = Inr (xs ! j))"
proof (induction es)
  case (Cons e es)
  then obtain xs pk where "all_infos B seed es = Inr xs" "length xs = length es"
    "\<forall>j < length es. account_info_of B seed (es ! j) = Inr (xs ! j)"
    "public_key_of B seed (ae_chain e) (ae_index e) = Inr pk" by auto
  then show ?case by (auto simp: account_info_of_def nth_Cons split: nat.split)
qed simp

lemma wp_det: "wp m (\<lambda>r s'. s' = s \<and> r = x) s \<Longrightarrow> wp m Q s \<longleftrightarrow> Q x s"
  by (cases "run_state m s") (simp add: wp_def)

context vault_contract
begin

lemma readWallet_eq:
  "rep s v \<Longrightarrow> plain_id i \<Longrightarrow> wp (v_readWallet V i p) Q s \<longleftrightarrow> Q (Returned (case vv_wallets v i of
            None \<Rightarrow> Inl (NotFoundError ''Wallet'' i)
          | Some w \<Rightarrow> if p = wv_pass w then Inr (wv_mnemonic w) else Inl wrong_passphrase)) s"
  by (rule wp_det) (rule readWallet)

lemma accounts_eq:
  "rep s v \<Longrightarrow> plain_id i \<Longrightarrow> wp (v_getWalletAccounts V i) Q s \<longleftrightarrow> Q (Returned (case vv_wallets v i of
            None \<Rightarrow> Inl (NotFoundError ''Wallet'' i) | Some w \<Rightarrow> Inr (wv_accounts w))) s"
  by (rule wp_det) (rule accounts)

lemma listWallets_run:
  assumes "rep s v"
  obtains xs where "\<forall>Q. wp (v_listWallets V) Q s \<longleftrightarrow> Q (Returned (Inr xs)) s"
    and "distinct (map wi_id xs)" and "set xs = {info_of_view i w | i w. vv_wallets v i = Some w}"
proof -
  obtain r s' where r: "run_state (v_listWallets V) s = (r, s')" by (cases "run_state (v_listWallets V) s")
  from listWallets [OF assms] have "s' = s \<and> (\<exists>xs. r = Returned (Inr xs) \<and> distinct (map wi_id xs)
      \<and> set xs = {info_of_view i w | i w. vv_wallets v i = Some w})" by (simp add: wp_run [OF r])
  with r that show ?thesis by (auto simp: wp_run)
qed

lemma call_run:
  assumes "rep s v" and "admissible c v"
  obtains s' where "\<forall>Q. wp (run_call V c) Q s
      \<longleftrightarrow> Q (Returned (case call_fails c v of Some e \<Rightarrow> Inl e | None \<Rightarrow> Inr ())) s'"
    and "rep s' (view_call c v)"
proof -
  obtain r s' where r: "run_state (run_call V c) s = (r, s')" by (cases "run_state (run_call V c) s")
  from calls [OF assms] have "r = Returned (case call_fails c v of Some e \<Rightarrow> Inl e | None \<Rightarrow> Inr ())
      \<and> rep s' (view_call c v)" by (simp add: wp_run [OF r])
  with r that show ?thesis by (auto simp: wp_run)
qed

lemma getSeed_eq:
  assumes "kb_vault B = V" and "rep s v" and "plain_id i" and "view_ok B v"
  shows "wp (getSeed B i) Q (st, s) \<longleftrightarrow>
    (case vv_wallets v i of
       None \<Rightarrow> Q (Returned (Inl (NotFoundError ''Wallet'' i))) (st, s)
     | Some w \<Rightarrow> Q (Returned (Inr (wv_mnemonic w, seed_of B w))) (st, s))"
  using assms(1) view_okD(2) [OF assms(4), of i]
  by (cases "vv_wallets v i")
    (simp_all add: getSeed_def wp_simps wp_on_vault readWallet_eq [OF assms(2,3)] seed_of_def)

lemma find_listed:
  assumes "set xs = {info_of_view i w | i w. vv_wallets v i = Some w}"
  shows "find_first (\<lambda>e. wi_id e = i) xs = map_option (info_of_view i) (vv_wallets v i)"
proof (cases "find_first (\<lambda>e. wi_id e = i) xs")
  case None
  have "info_of_view i w \<in> set xs" "wi_id (info_of_view i w) = i" if "vv_wallets v i = Some w" for w
    using assms that by (auto simp: info_of_view_def)
  with None show ?thesis unfolding find_first_None by (cases "vv_wallets v i") (simp_all add: find_first_None [THEN iffD2])
next
  case (Some e)
  then have "e \<in> set xs" "wi_id e = i" using find_first_SomeD [OF Some] by auto
  with assms obtain w where "e = info_of_view i w" "vv_wallets v i = Some w" by (auto simp: info_of_view_def)
  with Some show ?thesis by simp
qed

text \<open>Loading a wallet succeeds exactly for the wallets of the vault, and only adds to the cache.\<close>

lemma ensure_run:
  assumes B: "kb_vault B = V" and inv: "backend_inv rep B (st, s) v" and i: "plain_id i"
    and w: "vv_wallets v i = Some w"
  obtains ws st' where "\<forall>Q. wp (ensureWalletState B i) Q (st, s) \<longleftrightarrow> Q (Returned (Inr (ws, seed_of B w))) (st', s)"
    and "ws_accounts ws = wv_accounts w" and "ws_nextIndex ws = int (length (wv_accounts w))"
    and "backend_inv rep B (st', s) v" and "map_get st' = (map_get st)(i \<mapsto> ws)"
proof -
  have r: "rep s v" and ok: "view_ok B v" and c: "cache_ok st v" using inv by (simp_all add: backend_inv_def)
  note seed = getSeed_eq [OF B r i ok]
  show ?thesis
  proof (cases "map_get st i")
    case (Some ws)
    have "\<forall>Q. wp (ensureWalletState B i) Q (st, s) \<longleftrightarrow> Q (Returned (Inr (ws, seed_of B w))) (st, s)"
      using Some w by (simp add: ensureWalletState_def wp_simps seed)
    moreover have "map_get st = (map_get st)(i \<mapsto> ws)" using Some by (simp add: fun_upd_idem)
    ultimately show ?thesis by (rule that [OF _ cache_okD [OF c Some w] inv])
  next
    case None
    obtain xs where xs: "\<forall>Q. wp (v_listWallets V) Q s \<longleftrightarrow> Q (Returned (Inr xs)) s"
      "distinct (map wi_id xs)" "set xs = {info_of_view i w | i w. vv_wallets v i = Some w}"
      by (rule listWallets_run [OF r])
    let ?ws = "\<lparr>ws_id = i, ws_label = wv_label w, ws_createdAt = wv_createdAt w,
        ws_nextIndex = next_index (wv_accounts w), ws_accounts = wv_accounts w\<rparr>"
    have "\<forall>Q. wp (ensureWalletState B i) Q (st, s) \<longleftrightarrow> Q (Returned (Inr (?ws, seed_of B w))) (map_set i ?ws st, s)"
      using None w by (simp add: ensureWalletState_def wp_simps seed wp_on_vault B xs(1) [rule_format] find_listed [OF xs(3)]
          accounts_eq [OF r i] info_of_view_def Let_def)
    moreover have "backend_inv rep B (map_set i ?ws st, s) v"
      using inv w accounts_next_index [OF view_okD(3) [OF ok w]] by (auto simp: backend_inv_def cache_ok_def)
    ultimately show ?thesis
      by (intro that [of ?ws "map_set i ?ws st"]) (simp_all add: accounts_next_index [OF view_okD(3) [OF ok w]])
  qed
qed

lemma ensure_missing:
  assumes B: "kb_vault B = V" and inv: "backend_inv rep B (st, s) v" and i: "plain_id i"
    and w: "vv_wallets v i = None"
  shows "wp (ensureWalletState B i) Q (st, s) \<longleftrightarrow> Q (Returned (Inl (NotFoundError ''Wallet'' i))) (st, s)"
proof -
  have r: "rep s v" and ok: "view_ok B v" using inv by (simp_all add: backend_inv_def)
  show ?thesis using w by (simp add: ensureWalletState_def wp_simps getSeed_eq [OF B r i ok])
qed

lemma resolveAndSign_eq:
  "wp (resolveAndSign B i seed n data) Q (st, s) \<longleftrightarrow>
    Q (case chainAt st i n of
         None \<Rightarrow> Returned (Inl (NotFoundError ''Account'' (account_name i n)))
       | Some c \<Rightarrow> (case signWithSeed B seed n c data of Inl e \<Rightarrow> Threw (HostError e) | Inr r \<Rightarrow> Returned (Inr r))) (st, s)"
  by (simp add: resolveAndSign_def wp_simps split: option.split)

lemma create_keeps:
  assumes B: "kb_vault B = V" and inv: "backend_inv rep B (st, s) v"
    and adm: "backend_admissible (KCreateWallet i entropy d now label) v"
  shows "wp (backend_createWallet B i entropy d now label)
    (\<lambda>_ x. \<exists>v'. backend_inv rep B x v' \<and> wallets_grow v v') (st, s)"
proof (cases "generateMnemonic (kb_host B) (kb_words B) entropy")
  case (Inl e)
  with inv show ?thesis by (auto simp: backend_createWallet_def wp_simps)
next
  case (Inr m)
  let ?c = "CreateWallet d i label m (kb_passphrase B)"
  let ?ws = "\<lparr>ws_id = i, ws_label = label, ws_createdAt = now, ws_nextIndex = 0, ws_accounts = []\<rparr>"
  have r: "rep s v" using inv by (simp add: backend_inv_def)
  obtain s' where s': "\<forall>Q. wp (run_call V ?c) Q s \<longleftrightarrow> Q (Returned (case call_fails ?c v of Some e \<Rightarrow> Inl e | None \<Rightarrow> Inr ())) s'"
    "rep s' (view_call ?c v)" by (rule call_run [OF r, of ?c]) (use adm in auto)
  have "view_ok B (view_call ?c v)"
    using inv adm by (auto simp: backend_inv_def view_ok_def accounts_ok_def)
  moreover have "cache_ok (map_set i ?ws st) (view_call ?c v)"
    using inv by (auto simp: backend_inv_def cache_ok_def)
  ultimately have "backend_inv rep B (map_set i ?ws st, s') (view_call ?c v)"
    using s'(2) by (simp add: backend_inv_def)
  moreover have "wallets_grow v (view_call ?c v)" using adm by (simp add: wallets_grow_def)
  ultimately show ?thesis
    using Inr s'(1) by (auto simp: backend_createWallet_def wp_simps wp_on_vault B)
qed

lemma delete_keeps:
  assumes B: "kb_vault B = V" and inv: "backend_inv rep B (st, s) v" and i: "plain_id i"
  shows "wp (backend_deleteWallet B i) (\<lambda>_ x. \<exists>v'. backend_inv rep B x v' \<and> wallets_grow v v') (st, s)"
proof -
  let ?c = "DeleteWallet i"
  have r: "rep s v" using inv by (simp add: backend_inv_def)
  obtain s' where s': "\<forall>Q. wp (run_call V ?c) Q s \<longleftrightarrow> Q (Returned (case call_fails ?c v of Some e \<Rightarrow> Inl e | None \<Rightarrow> Inr ())) s'"
    "rep s' (view_call ?c v)" by (rule call_run [OF r, of ?c]) (use i in auto)
  have ok: "view_ok B (view_call ?c v)" using inv by (auto simp: backend_inv_def view_ok_def)
  have "cache_ok (map_delete i st) (view_call ?c v)" using inv by (auto simp: backend_inv_def cache_ok_def)
  with ok s'(2) have "backend_inv rep B (map_delete i st, s') (view_call ?c v)" by (simp add: backend_inv_def)
  moreover have "backend_inv rep B (st, s') (view_call ?c v)" if "vv_wallets v i = None"
  proof -
    have "map_get st i = None"
      using cache_ok_wallet [of st v i] that inv by (cases "map_get st i") (auto simp: backend_inv_def)
    with inv ok s'(2) show ?thesis by (auto simp: backend_inv_def cache_ok_def)
  qed
  moreover have "wallets_grow v (view_call ?c v)" by (auto simp: wallets_grow_def)
  ultimately show ?thesis
    using s'(1) by (cases "vv_wallets v i") (auto simp: backend_deleteWallet_def wp_simps wp_on_vault B)
qed

lemma derive_keeps:
  assumes B: "kb_vault B = V" and inv: "backend_inv rep B (st, s) v" and i: "plain_id i"
  shows "wp (deriveAccount B i c) (\<lambda>_ x. \<exists>v'. backend_inv rep B x v' \<and> wallets_grow v v') (st, s)"
proof (cases "vv_wallets v i")
  case None
  with inv show ?thesis by (auto simp: deriveAccount_def wp_simps ensure_missing [OF B inv i])
next
  case (Some w)
  obtain ws st' where ws: "\<forall>Q. wp (ensureWalletState B i) Q (st, s) \<longleftrightarrow> Q (Returned (Inr (ws, seed_of B w))) (st', s)"
    "ws_accounts ws = wv_accounts w" "ws_nextIndex ws = int (length (wv_accounts w))"
    "backend_inv rep B (st', s) v" "map_get st' = (map_get st)(i \<mapsto> ws)"
    by (rule ensure_run [OF B inv i Some])
  show ?thesis
  proof (cases "new_account B (seed_of B w) c (ws_nextIndex ws)")
    case (Inl e)
    show ?thesis unfolding deriveAccount_def
      using ws(4) by (simp add: wp_simps Let_def ws(1) Inl) (intro exI [of _ v], simp)
  next
    case (Inr a)
    obtain address pk where a: "a = (address, pk)" by (cases a)
    let ?entry = "\<lparr>ae_index = ws_nextIndex ws, ae_chain = c, ae_address = address\<rparr>"
    let ?as = "wv_accounts w @ [?entry]"
    let ?c = "UpdateAccounts i ?as"
    have r: "rep s v" using inv by (simp add: backend_inv_def)
    obtain s' where s': "\<forall>Q. wp (run_call V ?c) Q s \<longleftrightarrow> Q (Returned (case call_fails ?c v of Some e \<Rightarrow> Inl e | None \<Rightarrow> Inr ())) s'"
      "rep s' (view_call ?c v)" by (rule call_run [OF r, of ?c]) (use i in auto)
    have ok: "view_ok B v" using inv by (simp add: backend_inv_def)
    have "accounts_ok B (w\<lparr>wv_accounts := ?as\<rparr>)"
      using view_okD(3) [OF ok Some] Inr ws(3) a
      by (auto simp: accounts_ok_def seed_of_def nth_append less_Suc_eq)
    with ok Some have "view_ok B (view_call ?c v)" by (auto simp: view_ok_def)
    moreover have "cache_ok (map_set i (ws\<lparr>ws_nextIndex := ws_nextIndex ws + 1, ws_accounts := ?as\<rparr>) st') (view_call ?c v)"
      using ws(3,4) Some by (auto simp: backend_inv_def cache_ok_def)
    ultimately have "backend_inv rep B
        (map_set i (ws\<lparr>ws_nextIndex := ws_nextIndex ws + 1, ws_accounts := ?as\<rparr>) st', s') (view_call ?c v)"
      using s'(2) by (simp add: backend_inv_def)
    moreover have "wallets_grow v (view_call ?c v)" using Some by (auto simp: wallets_grow_def)
    ultimately show ?thesis
      unfolding deriveAccount_def
      by (simp add: wp_simps wp_on_vault B Let_def ws(1,2) Inr a s'(1) [simplified] Some) blast
  qed
qed

lemma reads_keep:
  assumes B: "kb_vault B = V" and inv: "backend_inv rep B (st, s) v" and i: "plain_id i"
  shows "wp (listAccounts B i) (\<lambda>_ x. backend_inv rep B x v) (st, s)"
    and "wp (backend_getXmtpIdentityKey B i n) (\<lambda>_ x. backend_inv rep B x v) (st, s)"
    and "wp (backend_sign B i n data) (\<lambda>_ x. x = (st, s)) (st, s)"
proof -
  have r: "rep s v" and ok: "view_ok B v" using inv by (simp_all add: backend_inv_def)
  show "wp (backend_sign B i n data) (\<lambda>_ x. x = (st, s)) (st, s)"
    by (cases "vv_wallets v i") (simp_all add: backend_sign_def wp_simps getSeed_eq [OF B r i ok] resolveAndSign_eq)
  show "wp (listAccounts B i) (\<lambda>_ x. backend_inv rep B x v) (st, s)"
    and "wp (backend_getXmtpIdentityKey B i n) (\<lambda>_ x. backend_inv rep B x v) (st, s)"
  proof (atomize(full), cases "vv_wallets v i")
    case None
    with inv show "wp (listAccounts B i) (\<lambda>_ x. backend_inv rep B x v) (st, s)
        \<and> wp (backend_getXmtpIdentityKey B i n) (\<lambda>_ x. backend_inv rep B x v) (st, s)"
      by (simp add: listAccounts_def backend_getXmtpIdentityKey_def wp_simps ensure_missing [OF B inv i])
  next
    case (Some w)
    obtain ws st' where "\<forall>Q. wp (ensureWalletState B i) Q (st, s) \<longleftrightarrow> Q (Returned (Inr (ws, seed_of B w))) (st', s)"
      "ws_accounts ws = wv_accounts w" "ws_nextIndex ws = int (length (wv_accounts w))"
      "backend_inv rep B (st', s) v" "map_get st' = (map_get st)(i \<mapsto> ws)"
      by (rule ensure_run [OF B inv i Some])
    then show "wp (listAccounts B i) (\<lambda>_ x. backend_inv rep B x v) (st, s)
        \<and> wp (backend_getXmtpIdentityKey B i n) (\<lambda>_ x. backend_inv rep B x v) (st, s)"
      by (simp add: listAccounts_def backend_getXmtpIdentityKey_def wp_simps split: option.split sum.split)
  qed
qed

lemma createApiKey_keeps:
  assumes B: "kb_vault B = V" and inv: "backend_inv rep B (st, s) v"
    and adm: "backend_admissible (KCreateApiKey random d i cred expires) v"
  shows "wp (backend_createApiKey B random d i cred expires)
    (\<lambda>_ x. \<exists>v'. backend_inv rep B x v' \<and> wallets_grow v v') (st, s)"
proof (cases "vv_wallets v i")
  case None
  have r: "rep s v" using inv by (simp add: backend_inv_def)
  from None adm show ?thesis unfolding backend_createApiKey_def
    by (simp add: wp_simps wp_on_vault B readWallet_eq [OF r]) (intro exI [of _ v], simp add: inv)
next
  case (Some w)
  have r: "rep s v" and ok: "view_ok B v" using inv by (simp_all add: backend_inv_def)
  let ?c = "CreateApiKey d cred i (wv_mnemonic w) (bytes_to_hex random) expires"
  obtain s' where s': "\<forall>Q. wp (run_call V ?c) Q s \<longleftrightarrow> Q (Returned (case call_fails ?c v of Some e \<Rightarrow> Inl e | None \<Rightarrow> Inr ())) s'"
    "rep s' (view_call ?c v)" by (rule call_run [OF r, of ?c]) (use adm in auto)
  have "view_ok B (view_call ?c v)" using ok Some by (auto simp: view_ok_def)
  with inv s'(2) have "backend_inv rep B (st, s') (view_call ?c v)" by (simp add: backend_inv_def cache_ok_def)
  moreover have "wallets_grow v (view_call ?c v)" by (simp add: wallets_grow_def)
  ultimately show ?thesis unfolding backend_createApiKey_def
    using Some adm view_okD(2) [OF ok Some]
    by (simp add: wp_simps wp_on_vault B readWallet_eq [OF r] Let_def s'(1) [simplified]) blast
qed

lemma revokeApiKey_keeps:
  assumes B: "kb_vault B = V" and inv: "backend_inv rep B (st, s) v" and k: "plain_id k"
  shows "wp (backend_revokeApiKey B k) (\<lambda>_ x. \<exists>v'. backend_inv rep B x v' \<and> wallets_grow v v') (st, s)"
proof -
  let ?c = "RevokeApiKey k"
  have r: "rep s v" using inv by (simp add: backend_inv_def)
  obtain s' where s': "\<forall>Q. wp (run_call V ?c) Q s \<longleftrightarrow> Q (Returned (case call_fails ?c v of Some e \<Rightarrow> Inl e | None \<Rightarrow> Inr ())) s'"
    "rep s' (view_call ?c v)" by (rule call_run [OF r, of ?c]) (use k in auto)
  have "backend_inv rep B (st, s') (view_call ?c v)"
    using inv s'(2) by (auto simp: backend_inv_def view_ok_def cache_ok_def)
  moreover have "wallets_grow v (view_call ?c v)" by (simp add: wallets_grow_def)
  ultimately show ?thesis unfolding backend_revokeApiKey_def
    by (simp add: wp_on_vault B s'(1) [simplified]) blast
qed

lemma sign_eq:
  assumes B: "kb_vault B = V" and inv: "backend_inv rep B (st, s) v" and i: "plain_id i"
  shows "wp (backend_sign B i n data) Q (st, s) \<longleftrightarrow> Q (sign_answer B v st i n data) (st, s)"
proof -
  have r: "rep s v" and ok: "view_ok B v" and c: "cache_ok st v" using inv by (simp_all add: backend_inv_def)
  show ?thesis
  proof (cases "vv_wallets v i")
    case None
    then show ?thesis by (simp add: backend_sign_def wp_simps getSeed_eq [OF B r i ok] sign_answer_def)
  next
    case (Some w)
    from chainAt_eq [OF c Some view_okD(3) [OF ok Some]] Some show ?thesis
      by (simp add: backend_sign_def wp_simps getSeed_eq [OF B r i ok] sign_answer_def resolveAndSign_eq)
  qed
qed

lemma readApiKey_hit:
  assumes "rep s v" and "vv_keys v k = Some kv"
  shows "wp (v_readApiKey V (kv_token kv)) Q s \<longleftrightarrow> Q (Returned (Inr (payload_of kv))) s"
proof (rule wp_det)
  show "wp (v_readApiKey V (kv_token kv)) (\<lambda>r s'. s' = s \<and> r = Returned (Inr (payload_of kv))) s"
    using readApiKey [OF assms(1), of "kv_token kv"] by (rule wp_mono) (use assms(2) in blast)
qed

lemma readApiKey_miss:
  assumes "rep s v" and "\<forall>k kv. vv_keys v k = Some kv \<longrightarrow> kv_token kv \<noteq> t"
  obtains e where "\<forall>Q. wp (v_readApiKey V t) Q s \<longleftrightarrow> Q (Returned (Inl e)) s"
proof -
  obtain r s' where r: "run_state (v_readApiKey V t) s = (r, s')" by (cases "run_state (v_readApiKey V t) s")
  from readApiKey [OF assms(1), of t] assms(2) have "s' = s" "\<exists>e. r = Returned (Inl e)" by (simp_all add: wp_run [OF r])
  with r that show ?thesis by (auto simp: wp_run)
qed

lemma signWithApiKey_eq:
  assumes B: "kb_vault B = V" and inv: "backend_inv rep B (st, s) v" and k: "vv_keys v k = Some kv"
  shows "wp (signWithApiKey B (kv_token kv) n data) Q (st, s) \<longleftrightarrow>
    Q (if vv_wallets v (kv_walletId kv) = None
       then Returned (Inl (NotFoundError ''Account'' (account_name (kv_walletId kv) n)))
       else sign_answer B v st (kv_walletId kv) n data) (st, s)"
proof -
  have r: "rep s v" and ok: "view_ok B v" and c: "cache_ok st v" using inv by (simp_all add: backend_inv_def)
  show ?thesis
  proof (cases "vv_wallets v (kv_walletId kv)")
    case None
    from chainAt_none [OF c None] None show ?thesis
      by (simp add: signWithApiKey_def wp_simps wp_on_vault B readApiKey_hit [OF r k] resolveAndSign_eq payload_of_def)
  next
    case (Some w)
    then have "kv_mnemonic kv = wv_mnemonic w" using ok k by (auto simp: view_ok_def)
    with chainAt_eq [OF c Some view_okD(3) [OF ok Some]] Some show ?thesis
      by (simp add: signWithApiKey_def wp_simps wp_on_vault B readApiKey_hit [OF r k] resolveAndSign_eq payload_of_def
          sign_answer_def seed_of_def)
  qed
qed

lemma signWithApiKey_keeps:
  assumes B: "kb_vault B = V" and inv: "backend_inv rep B (st, s) v"
  shows "wp (signWithApiKey B t n data) (\<lambda>_ x. x = (st, s)) (st, s)"
proof -
  have r: "rep s v" using inv by (simp add: backend_inv_def)
  show ?thesis
  proof (cases "\<exists>k kv. vv_keys v k = Some kv \<and> kv_token kv = t")
    case True
    then obtain k kv where k: "vv_keys v k = Some kv" "kv_token kv = t" by blast
    from signWithApiKey_eq [OF B inv k(1)] k(2) show ?thesis by simp
  next
    case False
    then obtain e where "\<forall>Q. wp (v_readApiKey V t) Q s \<longleftrightarrow> Q (Returned (Inl e)) s"
      using readApiKey_miss [OF r, of t] by metis
    then show ?thesis by (simp add: signWithApiKey_def wp_simps wp_on_vault B)
  qed
qed

lemma step_keeps:
  assumes B: "kb_vault B = V" and inv: "backend_inv rep B x v" and adm: "backend_admissible c v"
  shows "wp (backend_step B c) (\<lambda>_ x'. \<exists>v'. backend_inv rep B x' v' \<and> wallets_grow v v') x"
proof -
  obtain st s where x: "x = (st, s)" by (cases x)
  note inv = inv [unfolded x]
  have same: "\<exists>v'. backend_inv rep B x' v' \<and> wallets_grow v v'" if "backend_inv rep B x' v" for x'
    using that by (intro exI [of _ v]) simp
  show ?thesis unfolding x
  proof (cases c)
    case (KCreateWallet i entropy d now label)
    with create_keeps [OF B inv] adm show "wp (backend_step B c) (\<lambda>_ x'. \<exists>v'. backend_inv rep B x' v' \<and> wallets_grow v v') (st, s)"
      by (simp add: wp_simps)
  next
    case (KDeleteWallet i)
    with delete_keeps [OF B inv] adm show "wp (backend_step B c) (\<lambda>_ x'. \<exists>v'. backend_inv rep B x' v' \<and> wallets_grow v v') (st, s)"
      by (simp add: wp_simps)
  next
    case (KDeriveAccount i ch)
    with derive_keeps [OF B inv] adm show "wp (backend_step B c) (\<lambda>_ x'. \<exists>v'. backend_inv rep B x' v' \<and> wallets_grow v v') (st, s)"
      by (simp add: wp_simps)
  next
    case (KListAccounts i)
    then have i: "plain_id i" using adm by simp
    show "wp (backend_step B c) (\<lambda>_ x'. \<exists>v'. backend_inv rep B x' v' \<and> wallets_grow v v') (st, s)"
      unfolding KListAccounts backend_step.simps wp_ignore
      by (rule wp_mono [OF reads_keep(1) [OF B inv i]]) (rule same)
  next
    case (KIdentityKey i n)
    then have i: "plain_id i" using adm by simp
    show "wp (backend_step B c) (\<lambda>_ x'. \<exists>v'. backend_inv rep B x' v' \<and> wallets_grow v v') (st, s)"
      unfolding KIdentityKey backend_step.simps wp_ignore
      by (rule wp_mono [OF reads_keep(2) [OF B inv i]]) (rule same)
  next
    case (KSign i n data)
    then have i: "plain_id i" using adm by simp
    show "wp (backend_step B c) (\<lambda>_ x'. \<exists>v'. backend_inv rep B x' v' \<and> wallets_grow v v') (st, s)"
      unfolding KSign backend_step.simps wp_ignore
      by (rule wp_mono [OF reads_keep(3) [OF B inv i]]) (rule same, simp add: inv)
  next
    case (KCreateApiKey random d i cred expires)
    with createApiKey_keeps [OF B inv] adm show "wp (backend_step B c) (\<lambda>_ x'. \<exists>v'. backend_inv rep B x' v' \<and> wallets_grow v v') (st, s)"
      by (simp add: wp_simps)
  next
    case (KRevokeApiKey k)
    with revokeApiKey_keeps [OF B inv] adm show "wp (backend_step B c) (\<lambda>_ x'. \<exists>v'. backend_inv rep B x' v' \<and> wallets_grow v v') (st, s)"
      by (simp add: wp_simps)
  next
    case (KSignWithApiKey t n data)
    show "wp (backend_step B c) (\<lambda>_ x'. \<exists>v'. backend_inv rep B x' v' \<and> wallets_grow v v') (st, s)"
      unfolding KSignWithApiKey backend_step.simps wp_ignore
      by (rule wp_mono [OF signWithApiKey_keeps [OF B inv]]) (rule same, simp add: inv)
  next
    case KRestart
    have "backend_inv rep B ([], s) v" using inv by (simp add: backend_inv_def cache_ok_def)
    then show "wp (backend_step B c) (\<lambda>_ x'. \<exists>v'. backend_inv rep B x' v' \<and> wallets_grow v v') (st, s)"
      unfolding KRestart by (simp add: wp_simps same)
  qed
qed

text \<open>Listing succeeds for every wallet, with the public keys the signatures carry.\<close>

lemma list_run:
  assumes B: "kb_vault B = V" and inv: "backend_inv rep B (st, s) v" and i: "plain_id i"
    and w: "vv_wallets v i = Some w"
  obtains xs st' where "\<forall>Q. wp (listAccounts B i) Q (st, s) \<longleftrightarrow> Q (Returned (Inr xs)) (st', s)"
    and "length xs = length (wv_accounts w)" and "backend_inv rep B (st', s) v" and "map_get st' i \<noteq> None"
    and "\<forall>j < length xs. account_info_of B (seed_of B w) (wv_accounts w ! j) = Inr (xs ! j)"
proof -
  obtain ws st' where ws: "\<forall>Q. wp (ensureWalletState B i) Q (st, s) \<longleftrightarrow> Q (Returned (Inr (ws, seed_of B w))) (st', s)"
    "ws_accounts ws = wv_accounts w" "ws_nextIndex ws = int (length (wv_accounts w))"
    "backend_inv rep B (st', s) v" "map_get st' = (map_get st)(i \<mapsto> ws)"
    by (rule ensure_run [OF B inv i w])
  have "accounts_ok B w" using inv w by (auto simp: backend_inv_def view_ok_def)
  have "\<exists>pk. public_key_of B (seed_of B w) (ae_chain e) (ae_index e) = Inr pk" if "e \<in> set (wv_accounts w)" for e
  proof -
    from that obtain j where j: "j < length (wv_accounts w)" "e = wv_accounts w ! j" by (auto simp: in_set_conv_nth)
    with \<open>accounts_ok B w\<close> have a: "ae_index e = int j" "\<exists>pk. new_account B (seed_of B w) (ae_chain e) (int j) = Inr (ae_address e, pk)"
      by (auto simp: accounts_ok_def)
    then obtain a where "new_account B (seed_of B w) (ae_chain e) (ae_index e) = Inr a" by metis
    from new_account_signs [OF this, of "[]"] show ?thesis using signed_public_key by metis
  qed
  then obtain xs where xs: "all_infos B (seed_of B w) (wv_accounts w) = Inr xs" "length xs = length (wv_accounts w)"
    "\<forall>j < length (wv_accounts w). account_info_of B (seed_of B w) (wv_accounts w ! j) = Inr (xs ! j)"
    using all_infos_ok [of "wv_accounts w" B "seed_of B w"] by metis
  have "\<forall>Q. wp (listAccounts B i) Q (st, s) \<longleftrightarrow> Q (Returned (Inr xs)) (st', s)"
    using ws(1,2) xs(1) by (simp add: listAccounts_def wp_simps)
  then show ?thesis by (rule that) (use ws(4,5) xs in auto)
qed

end

section \<open>The properties\<close>

lemma wp_snd: "wp m (\<lambda>_ s'. Q s') s \<longleftrightarrow> Q (snd (run_state m s))"
  by (simp add: wp_def split: prod.split)

lemma wp_fst: "wp m (\<lambda>r _. Q r) s \<longleftrightarrow> Q (fst (run_state m s))"
  by (simp add: wp_def split: prod.split)

lemma backend_inv_start:
  "host_ok H \<Longrightarrow> secret_key_ok H key \<Longrightarrow> fresh_disk dir s \<Longrightarrow> backend_inv (file_keeps H dir key) B ([], s) empty_view"
  using file_keeps_fresh [of H key dir s]
  by (simp add: backend_inv_def view_ok_def cache_ok_def) (simp add: empty_view_def)

definition demo_backend :: "fs backend" where
  "demo_backend = \<lparr>kb_vault = file_vault vault_demo_host ''/d'' [9], kb_passphrase = ''pass'',
     kb_host = derivation_demo, kb_words = demo_words, kb_secp_sign = (\<lambda>h k. h @ k), kb_ed_sign = (\<lambda>d k. d @ k)\<rparr>"

lemma demo_backend_inv: "backend_inv (file_keeps vault_demo_host ''/d'' [9]) demo_backend ([], demo_disk) empty_view"
  by (rule backend_inv_start [OF vault_demo_ok vault_demo_key demo_disk_fresh])



definition demo_seed :: "8 word list" where
  "demo_seed = mnemonicToSeed (kb_host demo_backend) ''legal'' []"

definition demo_address :: string where
  "demo_address = (case new_account demo_backend demo_seed Ed25519 0 of Inr (address, _) \<Rightarrow> address | Inl _ \<Rightarrow> [])"

lemma demo_account: "\<exists>pk. new_account demo_backend demo_seed Ed25519 0 = Inr (demo_address, pk)"
proof -
  have "show_int 0 = show_nat 0" by (simp add: show_int_def)
  then have "\<exists>d. deriveEd25519Key (kb_host demo_backend) demo_seed 0 = Inr d"
    using ed25519_path [of 0] by (simp add: deriveEd25519Key_def deriveEd25519Path_def MAX_DERIVATION_INDEX_def Let_def
        split: prod.splits)
  then show ?thesis by (auto simp: demo_address_def new_account_def)
qed

definition demo_calls :: "vault_call list" where
  "demo_calls = [CreateWallet demo_draw ''w'' ''main'' ''legal'' ''pass'',
     UpdateAccounts ''w'' [\<lparr>ae_index = 0, ae_chain = Ed25519, ae_address = demo_address\<rparr>],
     CreateApiKey demo_draw ''k'' ''w'' ''legal'' ''tok'' ''2026'']"

definition demo_wallet_view :: vault_view where
  "demo_wallet_view = fold view_call demo_calls empty_view"

definition demo_wallet_disk :: fs where
  "demo_wallet_disk = run_calls (file_vault vault_demo_host ''/d'' [9]) demo_calls demo_disk"

lemma demo_pass: "kb_passphrase demo_backend = ''pass''"
  by (simp add: demo_backend_def)

lemma demo_wallet_inv: "backend_inv (file_keeps vault_demo_host ''/d'' [9]) demo_backend ([], demo_wallet_disk) demo_wallet_view"
proof -
  have "all_admissible demo_calls empty_view" by (simp add: demo_calls_def plain_id_def empty_view_def)
  from disk.run_calls_rep [OF file_keeps_fresh [OF vault_demo_ok vault_demo_key demo_disk_fresh] this]
  have "file_keeps vault_demo_host ''/d'' [9] demo_wallet_disk demo_wallet_view"
    by (simp add: demo_wallet_disk_def demo_wallet_view_def)
  moreover have "view_ok demo_backend demo_wallet_view"
    using demo_account
    by (auto simp: view_ok_def demo_wallet_view_def demo_calls_def empty_view_def plain_id_def
        accounts_ok_def seed_of_def demo_seed_def [symmetric] demo_pass split: if_splits)
  ultimately show ?thesis by (simp add: backend_inv_def cache_ok_def)
qed

lemma listed_account_signs:
  assumes inv: "backend_inv rep B (st, s) v" and w: "vv_wallets v i = Some w" and st: "map_get st i \<noteq> None"
    and n: "n < length (wv_accounts w)"
  obtains r where "sign_answer B v st i (int n) data = Returned (Inr r)"
    and "public_key_of B (seed_of B w) (ae_chain (wv_accounts w ! n)) (int n) = Inr (sg_publicKey r)"
proof -
  have "accounts_ok B w" using inv w by (auto simp: backend_inv_def view_ok_def)
  with n obtain a where "new_account B (seed_of B w) (ae_chain (wv_accounts w ! n)) (int n) = Inr a"
    by (auto simp: accounts_ok_def)
  from new_account_signs [OF this] obtain r where
    r: "signWithSeed B (seed_of B w) (int n) (ae_chain (wv_accounts w ! n)) data = Inr r" by blast
  from st n w r have "sign_answer B v st i (int n) data = Returned (Inr r)" by (auto simp: sign_answer_def)
  then show ?thesis by (rule that) (rule signed_public_key [OF r])
qed

text \<open>
  Once the accounts of a wallet on disk were listed, each listed account signs: the list has the
  indices in order, and the signature of an index carries the public key that is listed for it.
  Nothing else signs; a wallet that was not loaded since the start answers NotFoundError.
\<close>

theorem listed_accounts_sign:
  assumes "kb_vault B = file_vault H dir key" and "backend_inv (file_keeps H dir key) B (st, s) v" and "plain_id i"
    and "vv_wallets v i = Some w"
  shows "\<exists>xs st'. run_state (listAccounts B i) (st, s) = (Returned (Inr xs), (st', s))
    \<and> length xs = length (wv_accounts w)
    \<and> (\<forall>j < length xs. \<exists>r. fst (run_state (backend_sign B i (int j) data) (st', s)) = Returned (Inr r)
         \<and> ai_index (xs ! j) = int j \<and> ai_publicKey (xs ! j) = bytes_to_hex (sg_publicKey r))
    \<and> (\<forall>n. n < 0 \<or> int (length xs) \<le> n \<longrightarrow>
         fst (run_state (backend_sign B i n data) (st', s)) = Returned (Inl (NotFoundError ''Account'' (account_name i n))))
    \<and> (map_get st i = None \<longrightarrow> (\<forall>n.
         fst (run_state (backend_sign B i n data) (st, s)) = Returned (Inl (NotFoundError ''Account'' (account_name i n)))))"
proof -
  obtain xs st' where xs: "\<forall>Q. wp (listAccounts B i) Q (st, s) \<longleftrightarrow> Q (Returned (Inr xs)) (st', s)"
    "length xs = length (wv_accounts w)" "backend_inv (file_keeps H dir key) B (st', s) v" "map_get st' i \<noteq> None"
    "\<forall>j < length xs. account_info_of B (seed_of B w) (wv_accounts w ! j) = Inr (xs ! j)"
    by (rule disk.list_run [OF assms])
  have run: "run_state (listAccounts B i) (st, s) = (Returned (Inr xs), (st', s))"
    using xs(1) [rule_format, of "\<lambda>r x. (r, x) = (Returned (Inr xs), (st', s))"] by (simp add: wp_def split: prod.splits)
  have sign: "fst (run_state (backend_sign B i n data) (t, s)) = sign_answer B v t i n data"
    if "backend_inv (file_keeps H dir key) B (t, s) v" for n t
    using disk.sign_eq [OF assms(1) that assms(3), of n data "\<lambda>r _. r = sign_answer B v t i n data"] unfolding wp_fst by simp
  have ok: "accounts_ok B w" using assms(2,4) by (auto simp: backend_inv_def view_ok_def)
  have "\<exists>r. fst (run_state (backend_sign B i (int j) data) (st', s)) = Returned (Inr r)
      \<and> ai_index (xs ! j) = int j \<and> ai_publicKey (xs ! j) = bytes_to_hex (sg_publicKey r)" if j: "j < length xs" for j
  proof -
    from j xs(2) have j': "j < length (wv_accounts w)" by simp
    obtain r where r: "sign_answer B v st' i (int j) data = Returned (Inr r)"
      "public_key_of B (seed_of B w) (ae_chain (wv_accounts w ! j)) (int j) = Inr (sg_publicKey r)"
      by (rule listed_account_signs [OF xs(3) assms(4) xs(4) j'])
    have "ae_index (wv_accounts w ! j) = int j" using ok j' by (simp add: accounts_ok_def)
    with xs(5) j r(2) have "xs ! j = \<lparr>ai_index = int j, ai_address = ae_address (wv_accounts w ! j),
        ai_chain = ae_chain (wv_accounts w ! j), ai_publicKey = bytes_to_hex (sg_publicKey r)\<rparr>"
      by (auto simp: account_info_of_def)
    with r(1) sign [OF xs(3)] show ?thesis by auto
  qed
  moreover have "fst (run_state (backend_sign B i n data) (st', s)) = Returned (Inl (NotFoundError ''Account'' (account_name i n)))"
    if "n < 0 \<or> int (length xs) \<le> n" for n
    using that xs(2) assms(4) by (auto simp: sign [OF xs(3)] sign_answer_def)
  moreover have "fst (run_state (backend_sign B i n data) (st, s)) = Returned (Inl (NotFoundError ''Account'' (account_name i n)))"
    if "map_get st i = None" for n
    using that assms(4) by (simp add: sign [OF assms(2)] sign_answer_def)
  ultimately show ?thesis using run xs(2) by blast
qed

lemma listed_accounts_sign_witness:
  "\<exists>xs st'. run_state (listAccounts demo_backend ''w'') ([], demo_wallet_disk) = (Returned (Inr xs), (st', demo_wallet_disk))
    \<and> length xs = 1
    \<and> (\<exists>r. fst (run_state (backend_sign demo_backend ''w'' 0 [1]) (st', demo_wallet_disk)) = Returned (Inr r)
         \<and> ai_publicKey (xs ! 0) = bytes_to_hex (sg_publicKey r))
    \<and> fst (run_state (backend_sign demo_backend ''w'' 1 [1]) (st', demo_wallet_disk))
        = Returned (Inl (NotFoundError ''Account'' (account_name ''w'' 1)))
    \<and> fst (run_state (backend_sign demo_backend ''w'' 0 [1]) ([], demo_wallet_disk))
        = Returned (Inl (NotFoundError ''Account'' (account_name ''w'' 0)))"
proof -
  have B: "kb_vault demo_backend = file_vault vault_demo_host ''/d'' [9]" "plain_id ''w''"
    by (simp_all add: demo_backend_def plain_id_def)
  have w: "vv_wallets demo_wallet_view ''w'' = Some \<lparr>wv_label = ''main'', wv_mnemonic = ''legal'', wv_pass = ''pass'',
      wv_accounts = [\<lparr>ae_index = 0, ae_chain = Ed25519, ae_address = demo_address\<rparr>], wv_createdAt = dr_now demo_draw\<rparr>"
    by (simp add: demo_wallet_view_def demo_calls_def empty_view_def)
  show ?thesis using listed_accounts_sign [OF B(1) demo_wallet_inv B(2) w, of "[1]"] by fastforce
qed

text \<open>
  C23. An API key signs for its wallet exactly what the wallet itself signs, for as long as it is
  not revoked; when the wallet is gone it signs nothing. A token of no key is answered with an error.
\<close>

theorem api_key_signs_as_its_wallet:
  assumes "kb_vault B = file_vault H dir key" and "backend_inv (file_keeps H dir key) B x v"
  shows "(\<forall>k kv. vv_keys v k = Some kv \<longrightarrow>
      fst (run_state (signWithApiKey B (kv_token kv) n data) x) =
        (if vv_wallets v (kv_walletId kv) = None
         then Returned (Inl (NotFoundError ''Account'' (account_name (kv_walletId kv) n)))
         else fst (run_state (backend_sign B (kv_walletId kv) n data) x)))
    \<and> ((\<forall>k kv. vv_keys v k = Some kv \<longrightarrow> kv_token kv \<noteq> t) \<longrightarrow>
      (\<exists>e. fst (run_state (signWithApiKey B t n data) x) = Returned (Inl e)))"
proof -
  obtain st s where x: "x = (st, s)" by (cases x)
  note inv = assms(2) [unfolded x]
  have ok: "view_ok B v" and r: "file_keeps H dir key s v" using inv by (simp_all add: backend_inv_def)
  have "fst (run_state (signWithApiKey B (kv_token kv) n data) (st, s)) =
        (if vv_wallets v (kv_walletId kv) = None
         then Returned (Inl (NotFoundError ''Account'' (account_name (kv_walletId kv) n)))
         else fst (run_state (backend_sign B (kv_walletId kv) n data) (st, s)))" if k: "vv_keys v k = Some kv" for k kv
  proof (cases "vv_wallets v (kv_walletId kv)")
    case None
    with disk.signWithApiKey_eq [OF assms(1) inv k, of n data "\<lambda>r _. r = Returned (Inl (NotFoundError ''Account'' (account_name (kv_walletId kv) n)))"]
    show ?thesis unfolding wp_fst by simp
  next
    case (Some w)
    note i = view_okD(1) [OF ok Some]
    from Some disk.signWithApiKey_eq [OF assms(1) inv k, of n data "\<lambda>r _. r = sign_answer B v st (kv_walletId kv) n data"]
      disk.sign_eq [OF assms(1) inv i, of n data "\<lambda>r _. r = sign_answer B v st (kv_walletId kv) n data"]
    show ?thesis unfolding wp_fst by simp
  qed
  moreover have "\<exists>e. fst (run_state (signWithApiKey B t n data) (st, s)) = Returned (Inl e)"
    if none: "\<forall>k kv. vv_keys v k = Some kv \<longrightarrow> kv_token kv \<noteq> t"
  proof -
    obtain e where "\<forall>Q. wp (v_readApiKey (file_vault H dir key) t) Q s \<longleftrightarrow> Q (Returned (Inl e)) s"
      by (rule disk.readApiKey_miss [OF r none])
    then have "wp (signWithApiKey B t n data) (\<lambda>r _. r = Returned (Inl e)) (st, s)"
      by (simp add: signWithApiKey_def wp_simps wp_on_vault assms(1))
    then show ?thesis unfolding wp_fst by blast
  qed
  ultimately show ?thesis unfolding x by blast
qed

lemma api_key_signs_as_its_wallet_witness:
  "fst (run_state (signWithApiKey demo_backend ''tok'' 0 [1]) ([], demo_wallet_disk))
     = fst (run_state (backend_sign demo_backend ''w'' 0 [1]) ([], demo_wallet_disk))
   \<and> (\<exists>e. fst (run_state (signWithApiKey demo_backend ''other'' 0 [1]) ([], demo_wallet_disk)) = Returned (Inl e))"
proof -
  have B: "kb_vault demo_backend = file_vault vault_demo_host ''/d'' [9]" by (simp add: demo_backend_def)
  have k: "vv_keys demo_wallet_view ''k'' = Some \<lparr>kv_token = ''tok'', kv_mnemonic = ''legal'', kv_walletId = ''w''\<rparr>"
    and only: "\<forall>k kv. vv_keys demo_wallet_view k = Some kv \<longrightarrow> kv_token kv \<noteq> ''other''"
    and w: "vv_wallets demo_wallet_view ''w'' \<noteq> None"
    by (auto simp: demo_wallet_view_def demo_calls_def empty_view_def split: if_splits)
  note facts = api_key_signs_as_its_wallet [OF B demo_wallet_inv, of 0 "[1]" "''other''"]
  from facts [THEN conjunct1, rule_format, OF k] w facts [THEN conjunct2, rule_format, OF only [rule_format]]
  show ?thesis by simp
qed

end
