(* ===== verification/CompatStore.thy ===== *)
theory CompatStore
  imports KeyBackendSafety
begin

text \<open>
  The secret store of the compatibility key manager (packages/keys/src/key-manager-compat.ts,
  \<open>createCompatSecretStore\<close>): the secrets of a vault, and those an older version left as files of
  hexadecimal text in the directory \<open>kv\<close>. An old entry moves into the vault when it is read.

  The directory and the vault do not share files, so the state is a pair. Names are characters
  below 256.
\<close>

section \<open>Hexadecimal text\<close>

text \<open>\<open>Number.parseInt(text, 16)\<close>, \<open>None\<close> for NaN, and its conversion to a byte.\<close>

definition js_blank :: "char \<Rightarrow> bool" where
  "js_blank c \<longleftrightarrow> (of_char c :: nat) \<in> {9, 10, 11, 12, 13, 32, 160}"

definition parse_sign :: "string \<Rightarrow> int \<times> string" where
  "parse_sign s = (case s of
     c # s' \<Rightarrow> if c = CHR ''-'' then (-1, s') else if c = CHR ''+'' then (1, s') else (1, s)
   | [] \<Rightarrow> (1, s))"

definition strip_0x :: "string \<Rightarrow> string" where
  "strip_0x s = (case s of
     a # b # s' \<Rightarrow> if a = CHR ''0'' \<and> (b = CHR ''x'' \<or> b = CHR ''X'') then s' else s
   | _ \<Rightarrow> s)"

definition parseInt16 :: "string \<Rightarrow> int option" where
  "parseInt16 text =
     (case parse_sign (dropWhile js_blank text) of (sg, s) \<Rightarrow>
        let digits = takeWhile (\<lambda>c. VerifierChecks.hex_digit c \<noteq> None) (strip_0x s) in
        if digits = [] then None
        else Some (sg * foldl (\<lambda>n c. 16 * n + the (VerifierChecks.hex_digit c)) 0 digits))"

definition to_byte :: "int option \<Rightarrow> 8 word" where
  "to_byte n = (case n of None \<Rightarrow> 0 | Some i \<Rightarrow> word_of_int i)"

text \<open>An odd last digit lies outside the array and is dropped.\<close>

fun compat_hexToBytes :: "string \<Rightarrow> 8 word list" where
  "compat_hexToBytes (a # b # hex) = to_byte (parseInt16 [a, b]) # compat_hexToBytes hex"
| "compat_hexToBytes _ = []"

section \<open>The old entries\<close>

definition legacyKvDirPath :: "string \<Rightarrow> string" where
  "legacyKvDirPath dataDir = join dataDir ''kv''"

definition legacyKvKeyPath :: "string \<Rightarrow> string \<Rightarrow> string" where
  "legacyKvKeyPath dataDir key = join (legacyKvDirPath dataDir) (encodeSecretName key)"

definition fs_rmdir :: "string \<Rightarrow> (fs, string + unit) state" where
  "fs_rmdir dir = fs_do (FsRmdir dir) (modify (\<lambda>s. s\<lparr>fs_dirs := removeAll dir (fs_dirs s)\<rparr>))"

definition readLegacyKvEntry :: "vault_host \<Rightarrow> string \<Rightarrow> string \<Rightarrow> (fs, 8 word list) task" where
  "readLegacyKvEntry H dataDir key = do {
     present \<leftarrow> fs_exists (legacyKvKeyPath dataDir key);
     if \<not> present then fails (NotFoundError ''kv-entry'' key)
     else try_or (failed ''Failed to read legacy compat vault entry'' [(''key'', CtxStr key)])
       (and_then (fs_read (legacyKvKeyPath dataDir key)) (\<lambda>content.
          case content of
            None \<Rightarrow> State_Monad.return (Inl ''ENOENT'')
          | Some hex \<Rightarrow> done_with (Inr (compat_hexToBytes (vh_decode H hex)))))
   }"

text \<open>The directory goes with its last entry. What fails here is ignored.\<close>

definition remove_empty_kv :: "vault_host \<Rightarrow> string \<Rightarrow> (fs, unit) state" where
  "remove_empty_kv H dataDir = do {
     present \<leftarrow> fs_exists (legacyKvDirPath dataDir);
     if \<not> present then State_Monad.return ()
     else do {
       names \<leftarrow> fs_readdir H (legacyKvDirPath dataDir);
       (if names = Inr [] then do { r \<leftarrow> fs_rmdir (legacyKvDirPath dataDir); State_Monad.return () }
        else State_Monad.return ())
     }
   }"

definition removeLegacyKvEntry :: "vault_host \<Rightarrow> string \<Rightarrow> string \<Rightarrow> (fs, unit) state" where
  "removeLegacyKvEntry H dataDir key = do {
     present \<leftarrow> fs_exists (legacyKvKeyPath dataDir key);
     if \<not> present then State_Monad.return ()
     else do {
       r \<leftarrow> fs_unlink (legacyKvKeyPath dataDir key);
       case r of Inl e \<Rightarrow> State_Monad.return () | Inr _ \<Rightarrow> remove_empty_kv H dataDir
     }
   }"

definition listLegacyKvEntries :: "vault_host \<Rightarrow> string \<Rightarrow> (fs, string list completion) state" where
  "listLegacyKvEntries H dataDir = do {
     present \<leftarrow> fs_exists (legacyKvDirPath dataDir);
     if \<not> present then State_Monad.return (Returned [])
     else do {
       r \<leftarrow> fs_readdir H (legacyKvDirPath dataDir);
       State_Monad.return (case r of
         Inl e \<Rightarrow> Threw (HostError e)
       | Inr names \<Rightarrow>
           (case those (map decode_uri names) of
              None \<Rightarrow> Threw (HostError ''URI malformed'')
            | Some keys \<Rightarrow> Returned keys))
     }
   }"

section \<open>The store\<close>

record 'w kv_store =
  ks_get :: "draw \<Rightarrow> string \<Rightarrow> ('w, 8 word list) task"
  ks_set :: "draw \<Rightarrow> string \<Rightarrow> 8 word list \<Rightarrow> ('w, unit) task"
  ks_delete :: "string \<Rightarrow> ('w, unit) task"
  ks_list :: "('w, string list completion) state"
  ks_close :: "('w, unit) state"

definition on_legacy :: "(fs, 'a) state \<Rightarrow> (fs \<times> 's, 'a) state" where
  "on_legacy m = State (\<lambda>(l, s). case run_state m l of (a, l') \<Rightarrow> (a, (l', s)))"

definition in_world :: "('s, 'a) state \<Rightarrow> ('c \<times> 's, 'a) state" where
  "in_world m = ask (run_state m)"

definition is_not_found :: "signet_error \<Rightarrow> bool" where
  "is_not_found e \<longleftrightarrow> error_tag e = ''NotFoundError''"

definition compat_get :: "vault_host \<Rightarrow> string \<Rightarrow> 's vault \<Rightarrow> draw \<Rightarrow> string \<Rightarrow> (fs \<times> 's, 8 word list) task" where
  "compat_get H dataDir V d key = do {
     current \<leftarrow> on_vault (v_get V key);
     case current of
       Threw e \<Rightarrow> State_Monad.return (Threw e)
     | Returned (Inr x) \<Rightarrow> succeeds x
     | Returned (Inl e) \<Rightarrow>
         if \<not> is_not_found e then fails e
         else then_ok (on_legacy (readLegacyKvEntry H dataDir key)) (\<lambda>legacy.
              then_ok (on_vault (v_set V d key legacy)) (\<lambda>_. do {
                on_legacy (removeLegacyKvEntry H dataDir key);
                succeeds legacy
              }))
   }"

definition compat_set ::
  "vault_host \<Rightarrow> string \<Rightarrow> 's vault \<Rightarrow> draw \<Rightarrow> string \<Rightarrow> 8 word list \<Rightarrow> (fs \<times> 's, unit) task" where
  "compat_set H dataDir V d key value =
     then_ok (on_vault (v_set V d key value)) (\<lambda>_. do {
       on_legacy (removeLegacyKvEntry H dataDir key);
       ok_unit
     })"

definition compat_delete :: "vault_host \<Rightarrow> string \<Rightarrow> 's vault \<Rightarrow> string \<Rightarrow> (fs \<times> 's, unit) task" where
  "compat_delete H dataDir V key = do {
     current \<leftarrow> on_vault (v_delete V key);
     hadLegacy \<leftarrow> on_legacy (fs_exists (legacyKvKeyPath dataDir key));
     case current of
       Threw e \<Rightarrow> State_Monad.return (Threw e)
     | Returned (Inr _) \<Rightarrow> do {
         (if hadLegacy then on_legacy (removeLegacyKvEntry H dataDir key) else State_Monad.return ());
         ok_unit
       }
     | Returned (Inl e) \<Rightarrow>
         if \<not> is_not_found e then fails e
         else if hadLegacy then do {
           on_legacy (removeLegacyKvEntry H dataDir key);
           ok_unit
         }
         else fails e
   }"

text \<open>\<open>Array.from(new Set(xs))\<close>: each value where it comes first.\<close>

definition unique :: "'a list \<Rightarrow> 'a list" where
  "unique xs = rev (remdups (rev xs))"

definition compat_list :: "vault_host \<Rightarrow> string \<Rightarrow> 's vault \<Rightarrow> (fs \<times> 's, string list completion) state" where
  "compat_list H dataDir V = do {
     current \<leftarrow> in_world (v_list V);
     case current of
       Threw e \<Rightarrow> State_Monad.return (Threw e)
     | Returned xs \<Rightarrow> do {
         old \<leftarrow> on_legacy (listLegacyKvEntries H dataDir);
         State_Monad.return (case old of Threw e \<Rightarrow> Threw e | Returned ys \<Rightarrow> Returned (unique (xs @ ys)))
       }
   }"

definition createCompatSecretStore :: "vault_host \<Rightarrow> string \<Rightarrow> 's vault \<Rightarrow> (fs \<times> 's) kv_store" where
  "createCompatSecretStore H dataDir V =
     \<lparr>ks_get = compat_get H dataDir V, ks_set = compat_set H dataDir V,
      ks_delete = compat_delete H dataDir V, ks_list = compat_list H dataDir V, ks_close = in_world (v_close V)\<rparr>"


section \<open>What a store promises\<close>

text \<open>A store behaves like a map from names to bytes.\<close>

locale kv_contract =
  fixes K :: "'w kv_store" and rep :: "'w \<Rightarrow> (string \<Rightarrow> 8 word list option) \<Rightarrow> bool"
  assumes get: "rep w m \<Longrightarrow> length (dr_iv d) = IV_BYTES \<Longrightarrow>
      wp (ks_get K d key) (\<lambda>r w'. rep w' m \<and>
        (case m key of Some x \<Rightarrow> r = Returned (Inr x) | None \<Rightarrow> \<exists>e. r = Returned (Inl e) \<and> is_not_found e)) w"
    and set: "rep w m \<Longrightarrow> length (dr_iv d) = IV_BYTES \<Longrightarrow>
      wp (ks_set K d key x) (\<lambda>r w'. rep w' (m(key \<mapsto> x)) \<and> r = Returned (Inr ())) w"
    and delete: "rep w m \<Longrightarrow>
      wp (ks_delete K key) (\<lambda>r w'. rep w' (m(key := None)) \<and>
        (case m key of Some x \<Rightarrow> r = Returned (Inr ()) | None \<Rightarrow> \<exists>e. r = Returned (Inl e) \<and> is_not_found e)) w"
    and list: "rep w m \<Longrightarrow>
      wp (ks_list K) (\<lambda>r w'. w' = w \<and> (\<exists>xs. r = Returned xs \<and> set xs = dom m \<and> distinct xs)) w"

datatype kv_call = KvGet draw string | KvSet draw string "8 word list" | KvDelete string | KvList

datatype kv_answer = KvBytes "8 word list" | KvDone | KvMissing | KvNames "string set" | KvFailed

fun kv_call_ok :: "kv_call \<Rightarrow> bool" where
  "kv_call_ok (KvGet d key) \<longleftrightarrow> length (dr_iv d) = IV_BYTES"
| "kv_call_ok (KvSet d key x) \<longleftrightarrow> length (dr_iv d) = IV_BYTES"
| "kv_call_ok _ \<longleftrightarrow> True"

definition answer_of :: "('a \<Rightarrow> kv_answer) \<Rightarrow> 'a result completion \<Rightarrow> kv_answer" where
  "answer_of f r = (case r of
     Returned (Inr x) \<Rightarrow> f x
   | Returned (Inl e) \<Rightarrow> if is_not_found e then KvMissing else KvFailed
   | Threw e \<Rightarrow> KvFailed)"

fun kv_step :: "'w kv_store \<Rightarrow> kv_call \<Rightarrow> ('w, kv_answer) state" where
  "kv_step K (KvGet d key) = do { r \<leftarrow> ks_get K d key; State_Monad.return (answer_of KvBytes r) }"
| "kv_step K (KvSet d key x) = do { r \<leftarrow> ks_set K d key x; State_Monad.return (answer_of (\<lambda>_. KvDone) r) }"
| "kv_step K (KvDelete key) = do { r \<leftarrow> ks_delete K key; State_Monad.return (answer_of (\<lambda>_. KvDone) r) }"
| "kv_step K KvList = do {
     r \<leftarrow> ks_list K;
     State_Monad.return (case r of Returned xs \<Rightarrow> KvNames (set xs) | Threw e \<Rightarrow> KvFailed)
   }"

fun kv_run :: "'w kv_store \<Rightarrow> kv_call list \<Rightarrow> ('w, kv_answer list) state" where
  "kv_run K [] = State_Monad.return []"
| "kv_run K (c # cs) = do { a \<leftarrow> kv_step K c; as \<leftarrow> kv_run K cs; State_Monad.return (a # as) }"

fun map_answer :: "kv_call \<Rightarrow> (string \<Rightarrow> 8 word list option) \<Rightarrow> kv_answer" where
  "map_answer (KvGet d key) m = (case m key of Some x \<Rightarrow> KvBytes x | None \<Rightarrow> KvMissing)"
| "map_answer (KvSet d key x) m = KvDone"
| "map_answer (KvDelete key) m = (case m key of Some x \<Rightarrow> KvDone | None \<Rightarrow> KvMissing)"
| "map_answer KvList m = KvNames (dom m)"

fun map_after :: "kv_call \<Rightarrow> (string \<Rightarrow> 8 word list option) \<Rightarrow> (string \<Rightarrow> 8 word list option)" where
  "map_after (KvSet d key x) m = m(key \<mapsto> x)"
| "map_after (KvDelete key) m = m(key := None)"
| "map_after _ m = m"

fun map_answers :: "kv_call list \<Rightarrow> (string \<Rightarrow> 8 word list option) \<Rightarrow> kv_answer list" where
  "map_answers [] m = []"
| "map_answers (c # cs) m = map_answer c m # map_answers cs (map_after c m)"

context kv_contract begin

lemma step_is_map:
  assumes "rep w m" and "kv_call_ok c"
  shows "wp (kv_step K c) (\<lambda>a w'. a = map_answer c m \<and> rep w' (map_after c m)) w"
proof (cases c)
  case (KvGet d key)
  with assms show ?thesis
    by (auto simp: wp_simps answer_of_def intro!: wp_mono [OF get] split: option.splits)
next
  case (KvSet d key x)
  with assms show ?thesis by (auto simp: wp_simps answer_of_def intro!: wp_mono [OF set])
next
  case (KvDelete key)
  with assms show ?thesis
    by (auto simp: wp_simps answer_of_def intro!: wp_mono [OF delete] split: option.splits)
next
  case KvList
  with assms show ?thesis by (auto simp: wp_simps intro!: wp_mono [OF list])
qed

lemma run_is_map:
  "rep w m \<Longrightarrow> \<forall>c \<in> set cs. kv_call_ok c \<Longrightarrow>
     wp (kv_run K cs) (\<lambda>as w'. as = map_answers cs m \<and> rep w' (fold map_after cs m)) w"
proof (induction cs arbitrary: w m)
  case Nil
  then show ?case by (simp add: wp_simps)
next
  case (Cons c cs)
  then have "wp (kv_step K c) (\<lambda>a w'. a = map_answer c m \<and> rep w' (map_after c m)) w" by (simp add: step_is_map)
  moreover have "wp (kv_run K cs) (\<lambda>as w'. as = map_answers cs m' \<and> rep w' (fold map_after cs m')) w'"
    if "rep w' m'" for w' m' using Cons that by simp
  ultimately show ?case
    by (auto simp: wp_simps elim!: wp_mono intro: wp_mono)
qed

end

section \<open>The compatibility store is one\<close>

definition legacy_map :: "vault_host \<Rightarrow> string \<Rightarrow> fs \<Rightarrow> string \<Rightarrow> 8 word list option" where
  "legacy_map H dir l key =
     map_option (\<lambda>hex. compat_hexToBytes (vh_decode H hex)) (map_get (fs_files l) (legacyKvKeyPath dir key))"

text \<open>Nothing fails, and the directory holds files with the names of keys only.\<close>

definition legacy_ok :: "string \<Rightarrow> fs \<Rightarrow> bool" where
  "legacy_ok dir l \<longleftrightarrow> no_faults l \<and> map_wf (fs_files l)
     \<and> (\<forall>key. legacyKvKeyPath dir key \<notin> set (fs_dirs l))
     \<and> (\<forall>name. CHR ''/'' \<notin> set name \<longrightarrow> map_get (fs_files l) (join (legacyKvDirPath dir) name) \<noteq> None
          \<longrightarrow> (\<exists>key. name = encodeSecretName key) \<and> legacyKvDirPath dir \<in> set (fs_dirs l))"

definition compat_rep ::
  "vault_host \<Rightarrow> string \<Rightarrow> ('s \<Rightarrow> vault_view \<Rightarrow> bool) \<Rightarrow> fs \<times> 's \<Rightarrow> (string \<Rightarrow> 8 word list option) \<Rightarrow> bool" where
  "compat_rep H dir rep = (\<lambda>(l, s) m. host_ok H \<and> legacy_ok dir l
     \<and> (\<exists>v. rep s v \<and> m = legacy_map H dir l ++ vv_secrets v))"


lemma wp_on_legacy [wp_simps]: "wp (on_legacy m) Q (l, s) \<longleftrightarrow> wp m (\<lambda>a l'. Q a (l', s)) l"
  by (simp add: on_legacy_def wp_def split: prod.split)

lemma wp_in_world [wp_simps]: "wp (in_world m) Q (c, s) \<longleftrightarrow> wp m (\<lambda>a s'. Q a (c, s')) s"
  by (simp add: in_world_def wp_def ask_def split: prod.split)

lemma legacy_path_inj [simp]: "legacyKvKeyPath dir a = legacyKvKeyPath dir b \<longleftrightarrow> a = b"
  by (simp add: legacyKvKeyPath_def join_def)

lemma legacy_okD:
  assumes "legacy_ok dir l"
  shows "no_faults l" and "map_wf (fs_files l)" and "legacyKvKeyPath dir key \<notin> set (fs_dirs l)"
    and "CHR ''/'' \<notin> set name \<Longrightarrow> map_get (fs_files l) (join (legacyKvDirPath dir) name) \<noteq> None
          \<Longrightarrow> (\<exists>key. name = encodeSecretName key) \<and> legacyKvDirPath dir \<in> set (fs_dirs l)"
  using assms by (simp_all add: legacy_ok_def)

lemma legacy_exists:
  assumes "legacy_ok dir l"
  shows "wp (fs_exists (legacyKvKeyPath dir key)) Q l \<longleftrightarrow> Q (legacy_map H dir l key \<noteq> None) l"
  using legacy_okD(3) [OF assms] by (simp add: wp_fs_exists legacy_map_def)

lemma read_legacy:
  assumes "legacy_ok dir l"
  shows "wp (readLegacyKvEntry H dir key) Q l \<longleftrightarrow>
     Q (Returned (case legacy_map H dir l key of None \<Rightarrow> Inl (NotFoundError ''kv-entry'' key) | Some x \<Rightarrow> Inr x)) l"
proof (cases "map_get (fs_files l) (legacyKvKeyPath dir key)")
  case None
  then show ?thesis
    by (simp add: readLegacyKvEntry_def wp_bind legacy_exists [OF assms, of _ _ H] legacy_map_def wp_fails)
next
  case (Some hex)
  then show ?thesis
    by (simp add: readLegacyKvEntry_def wp_bind legacy_exists [OF assms, of _ _ H] legacy_map_def wp_simps
        wp_fs_calls [OF legacy_okD(1) [OF assms]])
qed

lemma legacy_deleted:
  assumes "legacy_ok dir l"
  shows "legacy_ok dir (l\<lparr>fs_files := map_delete (legacyKvKeyPath dir key) (fs_files l)\<rparr>)"
    and "legacy_map H dir (l\<lparr>fs_files := map_delete (legacyKvKeyPath dir key) (fs_files l)\<rparr>)
           = (legacy_map H dir l)(key := None)"
  using assms by (auto simp: legacy_ok_def legacy_map_def fun_eq_iff)

lemma legacy_emptied:
  assumes ok: "legacy_ok dir l" and empty: "\<forall>key. legacy_map H dir l key = None"
  shows "legacy_ok dir (l\<lparr>fs_dirs := removeAll (legacyKvDirPath dir) (fs_dirs l)\<rparr>)"
    and "legacy_map H dir (l\<lparr>fs_dirs := removeAll (legacyKvDirPath dir) (fs_dirs l)\<rparr>) = legacy_map H dir l"
proof -
  have none: "map_get (fs_files l) (join (legacyKvDirPath dir) name) = None" if ns: "CHR ''/'' \<notin> set name" for name
  proof (rule ccontr)
    assume a: "map_get (fs_files l) (join (legacyKvDirPath dir) name) \<noteq> None"
    then obtain key where "name = encodeSecretName key" using legacy_okD(4) [OF ok ns] by blast
    with a empty [rule_format, of key] show False by (simp add: legacy_map_def legacyKvKeyPath_def)
  qed
  show "legacy_map H dir (l\<lparr>fs_dirs := removeAll (legacyKvDirPath dir) (fs_dirs l)\<rparr>) = legacy_map H dir l"
    by (simp add: legacy_map_def fun_eq_iff)
  show "legacy_ok dir (l\<lparr>fs_dirs := removeAll (legacyKvDirPath dir) (fs_dirs l)\<rparr>)"
    using ok none by (auto simp: legacy_ok_def no_faults_def)
qed

lemma legacy_names:
  assumes "host_ok H" and ok: "legacy_ok dir l"
  shows "set (vh_listing H (names_in (legacyKvDirPath dir) (fs_files l))) = encodeSecretName ` dom (legacy_map H dir l)"
proof (intro set_eqI iffI)
  fix x assume "x \<in> set (vh_listing H (names_in (legacyKvDirPath dir) (fs_files l)))"
  then have x: "CHR ''/'' \<notin> set x" "map_get (fs_files l) (join (legacyKvDirPath dir) x) \<noteq> None"
    using listed_names [OF assms(1)] by auto
  with legacy_okD(4) [OF ok] obtain key where "x = encodeSecretName key" by blast
  with x show "x \<in> encodeSecretName ` dom (legacy_map H dir l)"
    by (auto simp: legacy_map_def legacyKvKeyPath_def)
next
  fix x assume "x \<in> encodeSecretName ` dom (legacy_map H dir l)"
  then show "x \<in> set (vh_listing H (names_in (legacyKvDirPath dir) (fs_files l)))"
    using encode_no_slash by (auto simp: listed_names [OF assms(1)] legacy_map_def legacyKvKeyPath_def)
qed

lemma remove_empty:
  assumes H: "host_ok H" and ok: "legacy_ok dir l"
  shows "wp (remove_empty_kv H dir) (\<lambda>_ l'. legacy_ok dir l' \<and> legacy_map H dir l' = legacy_map H dir l) l"
proof (cases "vh_listing H (names_in (legacyKvDirPath dir) (fs_files l)) = []")
  case True
  with legacy_names [OF H ok] have "\<forall>key. legacy_map H dir l key = None" by auto
  with True ok show ?thesis
    by (simp add: remove_empty_kv_def wp_simps wp_fs_calls [OF legacy_okD(1) [OF ok]] fs_rmdir_def
        wp_fs_do [OF legacy_okD(1) [OF ok]] legacy_emptied [OF ok])
next
  case False
  with ok show ?thesis
    by (simp add: remove_empty_kv_def wp_simps wp_fs_calls [OF legacy_okD(1) [OF ok]])
qed

lemma remove_legacy:
  assumes H: "host_ok H" and ok: "legacy_ok dir l"
  shows "wp (removeLegacyKvEntry H dir key)
           (\<lambda>_ l'. legacy_ok dir l' \<and> legacy_map H dir l' = (legacy_map H dir l)(key := None)) l"
proof (cases "legacy_map H dir l key")
  case None
  then show ?thesis
    using ok by (simp add: removeLegacyKvEntry_def wp_bind legacy_exists [OF ok, of _ _ H] wp_return fun_upd_idem)
next
  case (Some x)
  from remove_empty [OF H legacy_deleted(1) [OF ok, of key]] Some show ?thesis
    by (simp add: removeLegacyKvEntry_def wp_bind legacy_exists [OF ok, of _ _ H]
        wp_fs_calls [OF legacy_okD(1) [OF ok]] legacy_deleted(2) [OF ok])
qed

lemma those_Some: "\<forall>x \<in> set xs. f x \<noteq> None \<Longrightarrow> those (map f xs) = Some (map (the \<circ> f) xs)"
  by (induction xs) auto

lemma list_legacy:
  assumes H: "host_ok H" and ok: "legacy_ok dir l"
  shows "wp (listLegacyKvEntries H dir)
           (\<lambda>r l'. l' = l \<and> (\<exists>ks. r = Returned ks \<and> set ks = dom (legacy_map H dir l))) l"
proof (cases "map_get (fs_files l) (legacyKvDirPath dir) \<noteq> None \<or> legacyKvDirPath dir \<in> set (fs_dirs l)")
  case True
  let ?names = "vh_listing H (names_in (legacyKvDirPath dir) (fs_files l))"
  note names = legacy_names [OF H ok]
  have "those (map decode_uri ?names) = Some (map (the \<circ> decode_uri) ?names)"
    by (rule those_Some) (simp add: names decode_encode)
  moreover have "set (map (the \<circ> decode_uri) ?names) = dom (legacy_map H dir l)"
    by (simp add: names image_image decode_encode)
  ultimately show ?thesis
    using True by (simp add: listLegacyKvEntries_def wp_simps wp_fs_calls [OF legacy_okD(1) [OF ok]])
next
  case False
  have "legacy_map H dir l key = None" for key
    using legacy_okD(4) [OF ok encode_no_slash, of key] False
    by (cases "map_get (fs_files l) (legacyKvKeyPath dir key)") (auto simp: legacy_map_def legacyKvKeyPath_def)
  then have "dom (legacy_map H dir l) = {}" by auto
  with False show ?thesis by (simp add: listLegacyKvEntries_def wp_simps)
qed

lemma set_unique [simp]: "set (unique xs) = set xs"
  by (simp add: unique_def)

lemma distinct_unique [simp]: "distinct (unique xs)"
  by (simp add: unique_def)


text \<open>Over a vault that keeps its contract, the store keeps its own.\<close>

context vault_contract begin

lemma get_answer:
  assumes "rep s v"
  shows "wp (v_get V n) Q s \<longleftrightarrow> Q (Returned (case vv_secrets v n of
            None \<Rightarrow> Inl (NotFoundError ''VaultSecret'' n) | Some x \<Rightarrow> Inr x)) s"
proof -
  obtain r s' where r: "run_state (v_get V n) s = (r, s')" by (cases "run_state (v_get V n) s")
  from get [OF assms, of n] show ?thesis by (simp add: wp_run [OF r])
qed

lemma set_answer:
  assumes "rep s v" and "length (dr_iv d) = IV_BYTES"
  shows "wp (v_set V d n x) (\<lambda>r s'. r = Returned (Inr ()) \<and> rep s' (v\<lparr>vv_secrets := (vv_secrets v)(n \<mapsto> x)\<rparr>)) s"
  using calls [OF assms(1), of "SetSecret d n x"] assms(2) by simp

lemma delete_answer:
  assumes "rep s v"
  shows "wp (v_delete V n) (\<lambda>r s'. r = Returned (case vv_secrets v n of
            None \<Rightarrow> Inl (NotFoundError ''VaultSecret'' n) | Some x \<Rightarrow> Inr ())
          \<and> rep s' (v\<lparr>vv_secrets := (vv_secrets v)(n := None)\<rparr>)) s"
  using calls [OF assms(1), of "DeleteSecret n"] by (auto elim!: wp_mono split: option.splits)

lemma stored:
  assumes "host_ok H" and "rep s' (v\<lparr>vv_secrets := (vv_secrets v)(key \<mapsto> x)\<rparr>)" and "legacy_ok dir l'"
    and "legacy_map H dir l' = (legacy_map H dir l)(key := None)"
  shows "compat_rep H dir rep (l', s') ((legacy_map H dir l ++ vv_secrets v)(key \<mapsto> x))"
proof -
  have "(legacy_map H dir l ++ vv_secrets v)(key \<mapsto> x) = legacy_map H dir l' ++ (vv_secrets v)(key \<mapsto> x)"
    unfolding assms(4) by (auto simp: map_add_def fun_eq_iff split: option.splits)
  moreover have "vv_secrets (v\<lparr>vv_secrets := (vv_secrets v)(key \<mapsto> x)\<rparr>) = (vv_secrets v)(key \<mapsto> x)" by simp
  ultimately show ?thesis using assms(1-3) unfolding compat_rep_def prod.case by metis
qed

lemma dropped:
  assumes "host_ok H" and "rep s' (v\<lparr>vv_secrets := (vv_secrets v)(key := None)\<rparr>)" and "legacy_ok dir l'"
    and "legacy_map H dir l' = (legacy_map H dir l)(key := None)"
  shows "compat_rep H dir rep (l', s') ((legacy_map H dir l ++ vv_secrets v)(key := None))"
proof -
  have "(legacy_map H dir l ++ vv_secrets v)(key := None) = legacy_map H dir l' ++ (vv_secrets v)(key := None)"
    unfolding assms(4) by (auto simp: map_add_def fun_eq_iff split: option.splits)
  moreover have "vv_secrets (v\<lparr>vv_secrets := (vv_secrets v)(key := None)\<rparr>) = (vv_secrets v)(key := None)" by simp
  ultimately show ?thesis using assms(1-3) unfolding compat_rep_def prod.case by metis
qed

lemma compat_get_rep:
  assumes H: "host_ok H" and ok: "legacy_ok dir l" and r: "rep s v" and d: "length (dr_iv d) = IV_BYTES"
  shows "wp (compat_get H dir V d key) (\<lambda>r w'. compat_rep H dir rep w' (legacy_map H dir l ++ vv_secrets v) \<and>
        (case (legacy_map H dir l ++ vv_secrets v) key of
           Some x \<Rightarrow> r = Returned (Inr x) | None \<Rightarrow> \<exists>e. r = Returned (Inl e) \<and> is_not_found e)) (l, s)"
proof (cases "vv_secrets v key")
  case (Some x)
  with r ok H show ?thesis
    by (auto simp: compat_get_def wp_bind wp_on_vault get_answer [OF r] wp_succeeds compat_rep_def)
next
  case None
  show ?thesis
  proof (cases "legacy_map H dir l key")
    case None
    with \<open>vv_secrets v key = None\<close> r ok H show ?thesis
      by (auto simp: compat_get_def wp_bind wp_on_vault get_answer [OF r] wp_fails is_not_found_def wp_then_ok
          wp_on_legacy read_legacy [OF ok] compat_rep_def map_add_def)
  next
    case (Some x)
    have m: "(legacy_map H dir l ++ vv_secrets v) key = Some x" using Some \<open>vv_secrets v key = None\<close> by (simp add: map_add_def)
    have same: "(legacy_map H dir l ++ vv_secrets v)(key \<mapsto> x) = legacy_map H dir l ++ vv_secrets v"
      by (rule fun_upd_idem) (rule m)
    have moved: "wp (v_set V d key x) (\<lambda>r s'. r = Returned (Inr ()) \<and> wp (removeLegacyKvEntry H dir key)
        (\<lambda>_ l'. compat_rep H dir rep (l', s') (legacy_map H dir l ++ vv_secrets v)) l) s"
      by (rule wp_mono [OF set_answer [OF r d, of key x]])
        (auto intro: wp_mono [OF remove_legacy [OF H ok, of key]] stored [OF H, of _ v key x dir _ l, unfolded same])
    show ?thesis
      unfolding compat_get_def wp_bind wp_on_vault get_answer [OF r] m
      by (simp add: Some \<open>vv_secrets v key = None\<close> wp_bind wp_on_vault wp_then_ok is_not_found_def
          wp_on_legacy read_legacy [OF ok] wp_succeeds)
        (rule wp_mono [OF moved], auto simp: wp_bind wp_on_legacy wp_succeeds)
  qed
qed

lemma compat_set_rep:
  assumes H: "host_ok H" and ok: "legacy_ok dir l" and r: "rep s v" and d: "length (dr_iv d) = IV_BYTES"
  shows "wp (compat_set H dir V d key x) (\<lambda>r w'.
     compat_rep H dir rep w' ((legacy_map H dir l ++ vv_secrets v)(key \<mapsto> x)) \<and> r = Returned (Inr ())) (l, s)"
  unfolding compat_set_def wp_then_ok wp_on_vault
  by (rule wp_mono [OF set_answer [OF r d]])
    (auto simp: wp_bind wp_on_legacy wp_ok_unit intro!: wp_mono [OF remove_legacy [OF H ok]] stored [OF H])

lemma compat_delete_rep:
  assumes H: "host_ok H" and ok: "legacy_ok dir l" and r: "rep s v"
  shows "wp (compat_delete H dir V key) (\<lambda>r w'.
     compat_rep H dir rep w' ((legacy_map H dir l ++ vv_secrets v)(key := None)) \<and>
        (case (legacy_map H dir l ++ vv_secrets v) key of
           Some x \<Rightarrow> r = Returned (Inr ()) | None \<Rightarrow> \<exists>e. r = Returned (Inl e) \<and> is_not_found e)) (l, s)"
proof -
  have kept: "compat_rep H dir rep (l, s') ((legacy_map H dir l ++ vv_secrets v)(key := None))"
    if "legacy_map H dir l key = None" and "rep s' (v\<lparr>vv_secrets := (vv_secrets v)(key := None)\<rparr>)" for s'
    using dropped [OF H that(2) ok] that(1) by (simp add: fun_upd_idem)
  have union: "(legacy_map H dir l ++ vv_secrets v) key
      = (case vv_secrets v key of None \<Rightarrow> legacy_map H dir l key | Some x \<Rightarrow> Some x)" by (simp add: map_add_def)
  show ?thesis
    unfolding compat_delete_def wp_bind wp_on_vault
    by (rule wp_mono [OF delete_answer [OF r, of key]], cases "vv_secrets v key"; cases "legacy_map H dir l key")
      (auto simp: wp_bind wp_on_legacy wp_return wp_return_fun wp_ok_unit wp_fails legacy_exists [OF ok, of _ _ H] is_not_found_def
        kept union intro!: wp_mono [OF remove_legacy [OF H ok]] dropped [OF H])
qed

lemma compat_list_rep:
  assumes H: "host_ok H" and ok: "legacy_ok dir l" and r: "rep s v"
  shows "wp (compat_list H dir V) (\<lambda>r w'. w' = (l, s) \<and>
     (\<exists>xs. r = Returned xs \<and> set xs = dom (legacy_map H dir l ++ vv_secrets v) \<and> distinct xs)) (l, s)"
  unfolding compat_list_def wp_bind wp_in_world
  by (rule wp_mono [OF list [OF r]])
    (auto simp: wp_simps intro!: wp_mono [OF list_legacy [OF H ok]])

lemma compat_store: "kv_contract (createCompatSecretStore H dir V) (compat_rep H dir rep)"
proof
  fix w m d key x
  assume "compat_rep H dir rep w m"
  then obtain l s v where w: "w = (l, s)" "host_ok H" "legacy_ok dir l" "rep s v" "m = legacy_map H dir l ++ vv_secrets v"
    by (auto simp: compat_rep_def)
  note rules = compat_get_rep [OF w(2-4)] compat_set_rep [OF w(2-4)] compat_delete_rep [OF w(2-4)] compat_list_rep [OF w(2-4)]
  show "length (dr_iv d) = IV_BYTES \<Longrightarrow>
      wp (ks_get (createCompatSecretStore H dir V) d key) (\<lambda>r w'. compat_rep H dir rep w' m \<and>
        (case m key of Some x \<Rightarrow> r = Returned (Inr x) | None \<Rightarrow> \<exists>e. r = Returned (Inl e) \<and> is_not_found e)) w"
    using rules(1) by (simp add: createCompatSecretStore_def w(1,5))
  show "length (dr_iv d) = IV_BYTES \<Longrightarrow>
      wp (ks_set (createCompatSecretStore H dir V) d key x)
        (\<lambda>r w'. compat_rep H dir rep w' (m(key \<mapsto> x)) \<and> r = Returned (Inr ())) w"
    using rules(2) by (simp add: createCompatSecretStore_def w(1,5))
  show "wp (ks_delete (createCompatSecretStore H dir V) key) (\<lambda>r w'. compat_rep H dir rep w' (m(key := None)) \<and>
        (case m key of Some x \<Rightarrow> r = Returned (Inr ()) | None \<Rightarrow> \<exists>e. r = Returned (Inl e) \<and> is_not_found e)) w"
    using rules(3) by (simp add: createCompatSecretStore_def w(1,5))
  show "wp (ks_list (createCompatSecretStore H dir V))
        (\<lambda>r w'. w' = w \<and> (\<exists>xs. r = Returned xs \<and> set xs = dom m \<and> distinct xs)) w"
    using rules(4) by (simp add: createCompatSecretStore_def w(1,5))
qed

end

interpretation compat_disk: kv_contract "createCompatSecretStore H dir (file_vault H dir key)"
    "compat_rep H dir (file_keeps H dir key)" for H dir key
  by (rule disk.compat_store)

interpretation compat_mem: kv_contract "createCompatSecretStore H dir (createMemoryVault H)"
    "compat_rep H dir (mem_keeps H)" for H dir
  by (rule mem.compat_store)


section \<open>Hexadecimal text is read back\<close>

definition plain_digit :: "nat \<Rightarrow> bool" where
  "plain_digit n \<longleftrightarrow> (let c = ResourceIds.hex_digit n in
     VerifierChecks.hex_digit c = Some (int n) \<and> \<not> js_blank c \<and> c \<notin> set ''-+xX'')"

lemma digits_checked: "list_all plain_digit [0..<16]"
  by code_simp

lemma digit_plain:
  assumes "n < 16"
  shows "VerifierChecks.hex_digit (ResourceIds.hex_digit n) = Some (int n)" and "\<not> js_blank (ResourceIds.hex_digit n)"
    and "ResourceIds.hex_digit n \<noteq> CHR ''-''" and "ResourceIds.hex_digit n \<noteq> CHR ''+''"
    and "ResourceIds.hex_digit n \<noteq> CHR ''x''" and "ResourceIds.hex_digit n \<noteq> CHR ''X''"
proof -
  have "n \<in> set [0..<16]" using assms by simp
  with digits_checked have "plain_digit n" unfolding list_all_iff by blast
  then show "VerifierChecks.hex_digit (ResourceIds.hex_digit n) = Some (int n)" "\<not> js_blank (ResourceIds.hex_digit n)"
    "ResourceIds.hex_digit n \<noteq> CHR ''-''" "ResourceIds.hex_digit n \<noteq> CHR ''+''"
    "ResourceIds.hex_digit n \<noteq> CHR ''x''" "ResourceIds.hex_digit n \<noteq> CHR ''X''"
    unfolding plain_digit_def Let_def by simp_all
qed

lemma hex_byte_back: "to_byte (parseInt16 (hex_byte b)) = b"
proof -
  have "unat b < 256" using unsigned_less [of b, where ?'a = nat] by simp
  then have small: "unat b div 16 < 16" "unat b mod 16 < 16" by simp_all
  have "16 * int (unat b div 16) + int (unat b mod 16) = uint b"
    by (metis mult_div_mod_eq of_nat_add of_nat_mult of_nat_numeral unat_eq_nat_uint uint_nat)
  then show ?thesis
    by (simp add: parseInt16_def parse_sign_def strip_0x_def hex_byte_def to_byte_def Let_def
        digit_plain [OF small(1)] digit_plain [OF small(2)])
qed

lemma hexToBytes_hex [simp]: "compat_hexToBytes (bytes_to_hex bs) = bs"
  using hex_byte_back by (induction bs) (auto simp: bytes_to_hex_def hex_byte_def)

section \<open>The main property\<close>

definition demo_legacy :: fs where
  "demo_legacy = \<lparr>fs_files = [(legacyKvKeyPath ''/d'' ''k'', utf8 ''0aff'')], fs_dirs = [legacyKvDirPath ''/d''],
     fs_fault = (\<lambda>_. None)\<rparr>"

lemma demo_legacy_ok: "legacy_ok ''/d'' demo_legacy"
proof -
  have "name = encodeSecretName ''k''" if "join (legacyKvDirPath ''/d'') name = legacyKvKeyPath ''/d'' ''k''" for name
    using that by (simp add: legacyKvKeyPath_def join_def)
  then show ?thesis
    by (auto simp: legacy_ok_def demo_legacy_def no_faults_def map_get_def legacyKvKeyPath_def legacyKvDirPath_def
        join_def map_wf_def split: if_splits)
qed

text \<open>
  C22. The secrets of a vault on disk together with the entries an older version left behave as one
  map: whatever is read, stored, deleted and listed in whatever order, every answer is that of the
  map in which a secret of the vault hides an old entry. Moving an old entry into the vault is
  never seen.
\<close>

theorem compat_store_is_a_map:
  assumes "host_ok H" and "file_keeps H dir key s v" and "legacy_ok dir l" and "\<forall>c \<in> set cs. kv_call_ok c"
  shows "fst (run_state (kv_run (createCompatSecretStore H dir (file_vault H dir key)) cs) (l, s))
           = map_answers cs (legacy_map H dir l ++ vv_secrets v)"
proof -
  have "compat_rep H dir (file_keeps H dir key) (l, s) (legacy_map H dir l ++ vv_secrets v)"
    using assms(1-3) by (auto simp: compat_rep_def)
  from compat_disk.run_is_map [OF this assms(4)] show ?thesis by (simp add: wp_def split: prod.splits)
qed

lemma compat_store_is_a_map_witness:
  "fst (run_state (kv_run (createCompatSecretStore vault_demo_host ''/d'' (file_vault vault_demo_host ''/d'' [9]))
      [KvGet demo_draw ''k'', KvSet demo_draw ''k'' [1], KvGet demo_draw ''k'', KvDelete ''k'', KvGet demo_draw ''k''])
      (demo_legacy, demo_disk))
   = [KvBytes [10, 255], KvDone, KvBytes [1], KvDone, KvMissing]"
proof -
  have "legacy_map vault_demo_host ''/d'' demo_legacy ''k'' = Some (compat_hexToBytes ''0aff'')"
    using host_okD(3) [OF vault_demo_ok] by (simp add: legacy_map_def demo_legacy_def map_get_def)
  also have "compat_hexToBytes ''0aff'' = [10, 255]" by code_simp
  finally have old: "(legacy_map vault_demo_host ''/d'' demo_legacy ++ vv_secrets empty_view) ''k'' = Some [10, 255]"
    by (simp add: empty_view_def)
  show ?thesis
    by (subst compat_store_is_a_map [OF vault_demo_ok file_keeps_fresh [OF vault_demo_ok vault_demo_key demo_disk_fresh]
        demo_legacy_ok]) (simp_all add: demo_draw_def IV_BYTES_def old)
qed

end
