(* ===== verification/KeySigners.thy ===== *)
theory KeySigners
  imports KeyBackend SealMessages
begin

text \<open>
  What the clients of a key backend get: the signer of an account (packages/keys/src/signer-provider.ts)
  and the stamper of its seals (packages/keys/src/seal-stamper.ts). Node's base64 is the one of
  Encoding; a number, an undefined field or a date never occurs in a seal.
\<close>

record 'x signer_provider =
  sp_sign :: "8 word list \<Rightarrow> ('x, 8 word list) task"
  sp_getPublicKey :: "('x, 8 word list) task"
  sp_getFingerprint :: "('x, string) task"
  sp_getDbEncryptionKey :: "('x, 8 word list) task"
  sp_getXmtpIdentityKey :: "('x, string) task"

definition account_signer :: "'s backend \<Rightarrow> string \<Rightarrow> int \<Rightarrow> (wallet_states \<times> 's) signer_provider" where
  "account_signer B walletId accountIndex =
     \<lparr>sp_sign = (\<lambda>data. then_ok (backend_sign B walletId accountIndex data) (\<lambda>r. succeeds (sg_signature r))),
      sp_getPublicKey = then_ok (backend_sign B walletId accountIndex []) (\<lambda>r. succeeds (sg_publicKey r)),
      sp_getFingerprint =
        then_ok (backend_sign B walletId accountIndex []) (\<lambda>r. succeeds (bytes_to_hex (sg_publicKey r))),
      sp_getDbEncryptionKey =
        then_ok (backend_sign B walletId accountIndex [])
          (\<lambda>r. succeeds (dh_sha256 (kb_host B) (sg_publicKey r))),
      sp_getXmtpIdentityKey = backend_getXmtpIdentityKey B walletId accountIndex\<rparr>"

definition toKeyId :: "derivation_host \<Rightarrow> 8 word list \<Rightarrow> string" where
  "toKeyId D publicKey = ''key_'' @ bytes_to_hex (take 4 (dh_sha256 D publicKey))"

definition account_stamp :: "'s backend \<Rightarrow> string \<Rightarrow> int \<Rightarrow> seal_payload \<Rightarrow> ('s, seal_envelope) keyed" where
  "account_stamp B walletId accountIndex payload =
     then_ok (backend_sign B walletId accountIndex (canonicalize (payload_json payload))) (\<lambda>r.
       succeeds \<lparr>se_chain = \<lparr>sc_current = payload, sc_previous = None,
                   sc_delta = \<lparr>added = [], removed = [], changed = []\<rparr>\<rparr>,
                 se_signature = btoa (from_bytes (sg_signature r)),
                 se_keyId = toKeyId (kb_host B) (sg_publicKey r)\<rparr>)"

definition account_stampRevocation ::
  "'s backend \<Rightarrow> string \<Rightarrow> int \<Rightarrow> revocation_seal \<Rightarrow> ('s, signed_revocation) keyed" where
  "account_stampRevocation B walletId accountIndex payload =
     then_ok (backend_sign B walletId accountIndex (canonicalize (revocation_json payload))) (\<lambda>r.
       succeeds \<lparr>sr_revocation = payload, sr_signature = btoa (from_bytes (sg_signature r)),
                 sr_signatureAlgorithm = ''Ed25519'', sr_signerKeyRef = toKeyId (kb_host B) (sg_publicKey r)\<rparr>)"

text \<open>The key of the message database is a hash of what the signer publishes: whoever sees the public
  key or the fingerprint of an account can compute it.\<close>

lemma db_key_is_public:
  assumes "run_state (sp_getPublicKey (account_signer B walletId n)) x = (Returned (Inr publicKey), x')"
  shows "run_state (sp_getDbEncryptionKey (account_signer B walletId n)) x
           = (Returned (Inr (dh_sha256 (kb_host B) publicKey)), x')"
  using assms
  by (auto simp: account_signer_def then_ok_def succeeds_def State_Monad.bind_def split: prod.splits completion.splits sum.splits)

end
