(* ===== verification/KeyManagerCompat.thy ===== *)
theory KeyManagerCompat
  imports CompatStore KeySigners
begin

text \<open>
  The compatibility key manager (packages/keys/src/key-manager-compat.ts) with its biometric gate,
  platform, configuration and Web Crypto wrappers (biometric-gate.ts, platform.ts, config.ts,
  types.ts, crypto-keys.ts): the admin key, operational keys of identities, credential keys, and
  the database and identity keys in the secret store.

  The manager's own state stands beside the world of its store. Operations run one after the other;
  what they draw at random, the time and what the user answers a prompt are arguments. Instants are
  numbers of milliseconds.
\<close>

section \<open>Web Crypto\<close>

text \<open>A suite is what the host computes for one algorithm; \<open>Inl\<close> is an exception.\<close>

record ('sk, 'pk) suite =
  su_name :: string
  su_sign :: "'sk \<Rightarrow> 8 word list \<Rightarrow> string + 8 word list"
  su_verify :: "'pk \<Rightarrow> 8 word list \<Rightarrow> 8 word list \<Rightarrow> string + bool"
  su_import :: "8 word list \<Rightarrow> string + 'sk"

record ('sk, 'pk) key_host =
  kh_ed25519 :: "('sk, 'pk) suite"
  kh_p256 :: "('sk, 'pk) suite"
  kh_export_public :: "'pk \<Rightarrow> string + 8 word list"
  kh_export_private :: "'sk \<Rightarrow> string + 8 word list"
  kh_digest :: "8 word list \<Rightarrow> string + 8 word list"
  kh_jwt :: "('sk, 'pk) jwt_host"

definition wrapped :: "string \<Rightarrow> string + 'a \<Rightarrow> 'a result" where
  "wrapped message r =
     (case r of Inl e \<Rightarrow> Inl (InternalError message (Some [(''cause'', CtxStr e)])) | Inr x \<Rightarrow> Inr x)"

text \<open>The key pairs the host generates are arguments.\<close>

definition generateP256KeyPair :: "string + 'sk \<times> 'pk \<Rightarrow> ('sk \<times> 'pk) result" where
  "generateP256KeyPair pair = wrapped ''Failed to generate P-256 key pair'' pair"

definition generateEd25519KeyPair :: "string + 'sk \<times> 'pk \<Rightarrow> ('sk \<times> 'pk) result" where
  "generateEd25519KeyPair pair = wrapped ''Failed to generate Ed25519 key pair'' pair"

definition signP256 :: "('sk, 'pk) key_host \<Rightarrow> 'sk \<Rightarrow> 8 word list \<Rightarrow> 8 word list result" where
  "signP256 h privateKey data = wrapped ''P-256 signing failed'' (su_sign (kh_p256 h) privateKey data)"

definition verifyP256 :: "('sk, 'pk) key_host \<Rightarrow> 'pk \<Rightarrow> 8 word list \<Rightarrow> 8 word list \<Rightarrow> bool result" where
  "verifyP256 h publicKey data signature =
     wrapped ''P-256 verification failed'' (su_verify (kh_p256 h) publicKey signature data)"

definition signEd25519 :: "('sk, 'pk) key_host \<Rightarrow> 'sk \<Rightarrow> 8 word list \<Rightarrow> 8 word list result" where
  "signEd25519 h privateKey data = wrapped ''Ed25519 signing failed'' (su_sign (kh_ed25519 h) privateKey data)"

definition verifyEd25519 :: "('sk, 'pk) key_host \<Rightarrow> 'pk \<Rightarrow> 8 word list \<Rightarrow> 8 word list \<Rightarrow> bool result" where
  "verifyEd25519 h publicKey data signature =
     wrapped ''Ed25519 verification failed'' (su_verify (kh_ed25519 h) publicKey signature data)"

definition exportPublicKey :: "('sk, 'pk) key_host \<Rightarrow> 'pk \<Rightarrow> 8 word list result" where
  "exportPublicKey h k = wrapped ''Failed to export public key'' (kh_export_public h k)"

definition exportPrivateKey :: "('sk, 'pk) key_host \<Rightarrow> 'sk \<Rightarrow> 8 word list result" where
  "exportPrivateKey h k = wrapped ''Failed to export private key'' (kh_export_private h k)"

definition importEd25519PrivateKey :: "('sk, 'pk) key_host \<Rightarrow> 8 word list \<Rightarrow> 'sk result" where
  "importEd25519PrivateKey h pkcs8 =
     wrapped ''Failed to import Ed25519 private key'' (su_import (kh_ed25519 h) pkcs8)"

definition importP256PrivateKey :: "('sk, 'pk) key_host \<Rightarrow> 8 word list \<Rightarrow> 'sk result" where
  "importP256PrivateKey h pkcs8 = wrapped ''Failed to import P-256 private key'' (su_import (kh_p256 h) pkcs8)"

definition fingerprint :: "('sk, 'pk) key_host \<Rightarrow> 'pk \<Rightarrow> string result" where
  "fingerprint h publicKey =
     (case exportPublicKey h publicKey of
        Inl e \<Rightarrow> Inl e
      | Inr exported \<Rightarrow>
          map_sum id bytes_to_hex (wrapped ''Failed to compute fingerprint'' (kh_digest h exported)))"

section \<open>The platform\<close>

datatype platform_capability = SecureEnclave | KeychainSoftware | Tpm | SoftwareVault
datatype key_trust_tier = Unverified | SourceVerified
datatype key_policy = PolicyBiometric | PolicyPasscode | PolicyOpen

fun platformToTrustTier :: "platform_capability \<Rightarrow> key_trust_tier" where
  "platformToTrustTier SoftwareVault = Unverified"
| "platformToTrustTier _ = SourceVerified"

text \<open>\<open>info\<close> is the exit code of the signer and its standard output; \<open>None\<close> when it cannot run.\<close>

definition detectPlatformUncached ::
  "bool \<Rightarrow> string option \<Rightarrow> (string \<Rightarrow> json option) \<Rightarrow> (string \<Rightarrow> (int \<times> string) option) \<Rightarrow> platform_capability" where
  "detectPlatformUncached darwin signerPath parse info =
     (if \<not> darwin then SoftwareVault
      else case signerPath of
        None \<Rightarrow> SoftwareVault
      | Some path \<Rightarrow>
          if path = [] then SoftwareVault
          else (case info path of
             None \<Rightarrow> SoftwareVault
           | Some (exitStatus, stdout) \<Rightarrow>
               if exitStatus \<noteq> 0 then SoftwareVault
               else (case Option.bind (parse stdout) (prop_of ''available'') of
                       Some (JBool True) \<Rightarrow> SecureEnclave
                     | _ \<Rightarrow> SoftwareVault)))"

definition detectPlatform :: "platform_capability \<Rightarrow> platform_capability option \<Rightarrow> platform_capability \<times> platform_capability option" where
  "detectPlatform uncached cached = (case cached of Some p \<Rightarrow> (p, cached) | None \<Rightarrow> (uncached, Some uncached))"

section \<open>The biometric gate\<close>

datatype gated_operation = RootKeyCreation | OperationalKeyRotation | ScopeExpansion | EgressExpansion
  | AgentCreation | AdminReadElevation

fun operation_name :: "gated_operation \<Rightarrow> string" where
  "operation_name RootKeyCreation = ''rootKeyCreation''"
| "operation_name OperationalKeyRotation = ''operationalKeyRotation''"
| "operation_name ScopeExpansion = ''scopeExpansion''"
| "operation_name EgressExpansion = ''egressExpansion''"
| "operation_name AgentCreation = ''agentCreation''"
| "operation_name AdminReadElevation = ''adminReadElevation''"

type_synonym biometric_config = "gated_operation \<Rightarrow> bool"

text \<open>What a prompter does: it answers, throws an Error with a name and a message, or throws another
  value, given by its text.\<close>

datatype prompt = Answered "unit result" | ThrewError string string | ThrewValue string

definition error_text :: "string \<Rightarrow> string \<Rightarrow> string" where
  "error_text name message = (if message = [] then name else name @ '': '' @ message)"

definition gate_failure :: "gated_operation \<Rightarrow> string \<Rightarrow> signet_error" where
  "gate_failure op cause =
     InternalError (''Biometric authentication failed for '' @ operation_name op) (Some [(''cause'', CtxStr cause)])"

definition createBiometricGate :: "biometric_config \<Rightarrow> gated_operation \<Rightarrow> prompt \<Rightarrow> unit result" where
  "createBiometricGate config op reply =
     (if \<not> config op then Inr ()
      else case reply of
        Answered r \<Rightarrow> r
      | ThrewError name message \<Rightarrow>
          if sublist ''cancel'' message
          then Inl (CancelledError (''Biometric authentication cancelled for '' @ operation_name op))
          else Inl (gate_failure op (error_text name message))
      | ThrewValue txt \<Rightarrow> Inl (gate_failure op txt))"

section \<open>Configuration\<close>

record key_manager_config =
  kc_dataDir :: string
  kc_rootKeyPolicy :: key_policy
  kc_operationalKeyPolicy :: key_policy
  kc_vaultKeyPolicy :: key_policy
  kc_biometricGating :: biometric_config
  kc_rotationIntervalSeconds :: int

fun parse_policy :: "json \<Rightarrow> key_policy option" where
  "parse_policy (JStr s) =
     (if s = ''biometric'' then Some PolicyBiometric
      else if s = ''passcode'' then Some PolicyPasscode
      else if s = ''open'' then Some PolicyOpen
      else None)"
| "parse_policy _ = None"

fun parse_bool :: "json \<Rightarrow> bool option" where
  "parse_bool (JBool b) = Some b"
| "parse_bool _ = None"

fun parse_nonnegative :: "json \<Rightarrow> int option" where
  "parse_nonnegative (JNum n) = (if n \<ge> 0 then Some n else None)"
| "parse_nonnegative _ = None"

text \<open>A field with a default.\<close>

definition field_or :: "'a \<Rightarrow> (json \<Rightarrow> 'a option) \<Rightarrow> (string \<times> json) list \<Rightarrow> string \<Rightarrow> 'a option" where
  "field_or deflt parse fs key = (case map_of fs key of None \<Rightarrow> Some deflt | Some v \<Rightarrow> parse v)"

definition gate_fields :: "gated_operation list" where
  "gate_fields = [RootKeyCreation, OperationalKeyRotation, ScopeExpansion, EgressExpansion, AgentCreation,
     AdminReadElevation]"

fun parse_gating :: "json \<Rightarrow> biometric_config option" where
  "parse_gating (JObj fs) =
     (let value = (\<lambda>op. field_or False parse_bool fs (operation_name op)) in
      if list_all (\<lambda>op. value op \<noteq> None) gate_fields then Some (\<lambda>op. the (value op)) else None)"
| "parse_gating _ = None"

fun parse_key_manager_config :: "json \<Rightarrow> key_manager_config option" where
  "parse_key_manager_config (JObj fs) =
     (case (Option.bind (map_of fs ''dataDir'') text_of,
            field_or PolicyBiometric parse_policy fs ''rootKeyPolicy'',
            field_or PolicyOpen parse_policy fs ''operationalKeyPolicy'',
            field_or PolicyOpen parse_policy fs ''vaultKeyPolicy'',
            field_or (\<lambda>_. False) parse_gating fs ''biometricGating'',
            field_or 86400 parse_nonnegative fs ''rotationIntervalSeconds'') of
        (Some dir, Some root, Some oper, Some vlt, Some gating, Some rotation) \<Rightarrow>
          Some \<lparr>kc_dataDir = dir, kc_rootKeyPolicy = root, kc_operationalKeyPolicy = oper,
            kc_vaultKeyPolicy = vlt, kc_biometricGating = gating, kc_rotationIntervalSeconds = rotation\<rparr>
      | _ \<Rightarrow> None)"
| "parse_key_manager_config _ = None"

section \<open>State\<close>

record root_key_handle =
  rk_keyRef :: string
  rk_publicKey :: string
  rk_policy :: key_policy
  rk_platform :: platform_capability
  rk_createdAt :: int

record operational_key =
  ok_keyId :: string
  ok_identityId :: string
  ok_groupId :: "string option"
  ok_publicKey :: string
  ok_fingerprint :: string
  ok_createdAt :: int
  ok_rotatedAt :: "int option"

record credential_key =
  ck_keyId :: string
  ck_credentialId :: string
  ck_fingerprint :: string
  ck_expiresAt :: int
  ck_createdAt :: int

record admin_key_info =
  aki_publicKey :: string
  aki_fingerprint :: string

record 'sk key_manager =
  km_opKeys :: "(string, operational_key \<times> 'sk) js_map"
  km_groupIdIndex :: "(string, string) js_map"
  km_credentialKeys :: "(string, credential_key \<times> 'sk) js_map"
  km_rootKeyHandle :: "root_key_handle option"
  km_trustTier :: key_trust_tier
  km_rotationTimer :: bool
  km_adminPublicKeyHex :: "string option"
  km_adminPrivateKey :: "'sk option"
  km_walletBackend :: "(string \<times> wallet_states) option"

text \<open>What a manager is made of.\<close>

record ('sk, 'pk, 'w) manager_env =
  me_host :: "('sk, 'pk) key_host"
  me_kv :: "'w kv_store"
  me_config :: key_manager_config
  me_platform :: platform_capability

type_synonym ('sk, 'w, 'a) managed = "('sk key_manager \<times> 'w, 'a) task"

definition new_key_manager :: "('sk, 'pk, 'w) manager_env \<Rightarrow> 'sk key_manager" where
  "new_key_manager E =
     \<lparr>km_opKeys = [], km_groupIdIndex = [], km_credentialKeys = [], km_rootKeyHandle = None,
      km_trustTier = platformToTrustTier (me_platform E), km_rotationTimer = False,
      km_adminPublicKeyHex = None, km_adminPrivateKey = None, km_walletBackend = None\<rparr>"

text \<open>The configuration is parsed, the directory made and the vault opened. \<open>issues\<close> are zod's.\<close>

definition createKeyManager ::
  "vault_host \<Rightarrow> json \<Rightarrow> ctx_value \<Rightarrow> string \<Rightarrow> (fs, string result) state \<Rightarrow>
   (fs, key_manager_config \<times> opened_vault) task" where
  "createKeyManager H rawConfig issues providerKind getSecret =
     (case parse_key_manager_config rawConfig of
        None \<Rightarrow> fails (InternalError ''Invalid key manager config'' (Some [(''issues'', issues)]))
      | Some config \<Rightarrow> do {
          made \<leftarrow> fs_mkdir (kc_dataDir config);
          case made of
            Inl e \<Rightarrow> State_Monad.return (Threw (HostError e))
          | Inr _ \<Rightarrow>
              then_ok (createVault H (kc_dataDir config) providerKind getSecret) (\<lambda>v. succeeds (config, v))
        })"

definition give :: "'a result \<Rightarrow> ('s, 'a) task" where
  "give r = State_Monad.return (Returned r)"

definition gate :: "('sk, 'pk, 'w) manager_env \<Rightarrow> gated_operation \<Rightarrow> prompt \<Rightarrow> unit result" where
  "gate E op reply = createBiometricGate (kc_biometricGating (me_config E)) op reply"

definition this_manager :: "('sk key_manager \<times> 'w, 'sk key_manager) state" where
  "this_manager = local_gets (\<lambda>m. m)"

section \<open>The admin key\<close>

definition toBase64Url :: "8 word list \<Rightarrow> string" where
  "toBase64Url bytes = map url_char (filter (\<lambda>c. c \<noteq> CHR ''='') (btoa (from_bytes bytes)))"

definition fingerprintBytes :: "('sk, 'pk) key_host \<Rightarrow> 8 word list \<Rightarrow> string + string" where
  "fingerprintBytes h bytes = map_sum id bytes_to_hex (kh_digest h bytes)"

definition readAdminInfo :: "('sk, 'pk, 'w) manager_env \<Rightarrow> ('sk, 'w, admin_key_info) managed" where
  "readAdminInfo E = do {
     m \<leftarrow> this_manager;
     case km_adminPublicKeyHex m of
       None \<Rightarrow> fails (NotFoundError ''admin-key'' ''admin'')
     | Some hex \<Rightarrow>
         then_ok (or_throw (fingerprintBytes (me_host E) (compat_hexToBytes hex))) (\<lambda>fp.
           succeeds \<lparr>aki_publicKey = hex, aki_fingerprint = fp\<rparr>)
   }"

definition admin_exists :: "'sk key_manager \<Rightarrow> bool" where
  "admin_exists m \<longleftrightarrow> km_adminPublicKeyHex m \<noteq> None"

text \<open>A failed or rejected read of what was created: only a result can be an error.\<close>

definition admin_create ::
  "('sk, 'pk, 'w) manager_env \<Rightarrow> prompt \<Rightarrow> string + 'sk \<times> 'pk \<Rightarrow> draw \<Rightarrow> draw \<Rightarrow>
   ('sk, 'w, admin_key_info) managed" where
  "admin_create E reply pair d1 d2 = do {
     m \<leftarrow> this_manager;
     if km_adminPublicKeyHex m \<noteq> None then fails (InternalError ''Admin key already exists'' None)
     else
       then_ok (give (gate E RootKeyCreation reply)) (\<lambda>_.
       then_ok (give (generateEd25519KeyPair pair)) (\<lambda>(privateKey, publicKey).
       then_ok (give (exportPublicKey (me_host E) publicKey)) (\<lambda>pub.
       then_ok (give (exportPrivateKey (me_host E) privateKey)) (\<lambda>priv. do {
         local_modify (\<lambda>m. m\<lparr>km_adminPublicKeyHex := Some (bytes_to_hex pub),
                              km_adminPrivateKey := Some privateKey\<rparr>);
         then_ok (on_vault (ks_set (me_kv E) d1 ''admin-key'' priv)) (\<lambda>_.
         then_ok (on_vault (ks_set (me_kv E) d2 ''admin-key-pub'' (utf8 (bytes_to_hex pub)))) (\<lambda>_. do {
           info \<leftarrow> readAdminInfo E;
           case info of
             Threw e \<Rightarrow> State_Monad.return (Threw e)
           | Returned (Inl _) \<Rightarrow> fails (InternalError ''Failed to read created admin key metadata'' None)
           | Returned (Inr x) \<Rightarrow> succeeds x
         }))
       }))))
   }"

definition admin_get :: "('sk, 'pk, 'w) manager_env \<Rightarrow> ('sk, 'w, admin_key_info) managed" where
  "admin_get E = readAdminInfo E"

definition compat_jwt_json :: "int \<Rightarrow> int \<Rightarrow> string \<Rightarrow> string \<Rightarrow> json" where
  "compat_jwt_json now ttlSeconds iss jti =
     JObj [(''iat'', JNum now), (''exp'', JNum (now + ttlSeconds)), (''sub'', JStr ''admin''), (''iss'', JStr iss),
       (''jti'', JStr jti)]"

text \<open>\<open>now\<close> in seconds; \<open>random\<close> are the 16 bytes of the token's id.\<close>

definition admin_signJwt ::
  "('sk, 'pk, 'w) manager_env \<Rightarrow> int \<Rightarrow> 8 word list \<Rightarrow> int \<Rightarrow> ('sk, 'w, string) managed" where
  "admin_signJwt E now random ttlSeconds = do {
     m \<leftarrow> this_manager;
     case km_adminPrivateKey m of
       None \<Rightarrow> fails (InternalError ''Admin key not initialized'' None)
     | Some privateKey \<Rightarrow>
         (let header = toBase64Url (utf8 (stringify jwt_header));
              iss = (case km_adminPublicKeyHex m of None \<Rightarrow> ''compat-admin'' | Some hex \<Rightarrow> hex);
              payload = toBase64Url (utf8 (stringify (compat_jwt_json now ttlSeconds iss (bytes_to_hex random)))) in
          then_ok (give (signEd25519 (me_host E) privateKey (utf8 (header @ ''.'' @ payload)))) (\<lambda>signature.
            succeeds (header @ ''.'' @ payload @ ''.'' @ toBase64Url signature)))
   }"

definition admin_verifyJwt ::
  "('sk, 'pk, 'w) manager_env \<Rightarrow> int \<Rightarrow> string \<Rightarrow> ('sk, 'w, jwt_payload) managed" where
  "admin_verifyJwt E now token = do {
     m \<leftarrow> this_manager;
     case km_adminPublicKeyHex m of
       None \<Rightarrow> fails (InternalError ''Admin key not initialized'' None)
     | Some hex \<Rightarrow>
         State_Monad.return (verifyJwt (kh_jwt (me_host E)) DEFAULT_CLOCK_SKEW now token (compat_hexToBytes hex))
   }"

text \<open>An error of the store other than a missing entry is passed over, like a missing entry.\<close>

definition initialize :: "('sk, 'pk, 'w) manager_env \<Rightarrow> draw \<Rightarrow> draw \<Rightarrow> int \<Rightarrow> ('sk, 'w, root_key_handle) managed" where
  "initialize E d1 d2 now = do {
     m \<leftarrow> this_manager;
     case km_rootKeyHandle m of
       Some root \<Rightarrow> succeeds root
     | None \<Rightarrow> do {
         existingPublic \<leftarrow> on_vault (ks_get (me_kv E) d1 ''admin-key-pub'');
         (case existingPublic of
            Threw e \<Rightarrow> State_Monad.return (Threw e)
          | Returned r \<Rightarrow> do {
              (case r of
                 Inl _ \<Rightarrow> State_Monad.return ()
               | Inr bytes \<Rightarrow> local_modify (\<lambda>m. m\<lparr>km_adminPublicKeyHex := Some (jh_decode (kh_jwt (me_host E)) bytes)\<rparr>));
              existingPrivate \<leftarrow> on_vault (ks_get (me_kv E) d2 ''admin-key'');
              then_ok
                (case existingPrivate of
                   Threw e \<Rightarrow> State_Monad.return (Threw e)
                 | Returned (Inl _) \<Rightarrow> ok_unit
                 | Returned (Inr bytes) \<Rightarrow>
                     then_ok (give (importEd25519PrivateKey (me_host E) bytes)) (\<lambda>imported. do {
                       local_modify (\<lambda>m. m\<lparr>km_adminPrivateKey := Some imported\<rparr>);
                       ok_unit
                     }))
                (\<lambda>_. do {
                   m \<leftarrow> this_manager;
                   let root = \<lparr>rk_keyRef = ''root-compat'',
                     rk_publicKey = (case km_adminPublicKeyHex m of None \<Rightarrow> ''compat-root'' | Some hex \<Rightarrow> hex),
                     rk_policy = kc_rootKeyPolicy (me_config E), rk_platform = me_platform E, rk_createdAt = now\<rparr>;
                   local_modify (\<lambda>m. m\<lparr>km_rootKeyHandle := Some root,
                                        km_trustTier := platformToTrustTier (me_platform E)\<rparr>);
                   succeeds root
                 })
            })
       }
   }"

section \<open>Operational keys\<close>

definition createOperationalKeyRecord ::
  "('sk, 'pk, 'w) manager_env \<Rightarrow> string + 'sk \<times> 'pk \<Rightarrow> int \<Rightarrow> string \<Rightarrow> string option \<Rightarrow>
   ('sk, 'w, operational_key) managed" where
  "createOperationalKeyRecord E pair now identityId groupId =
     then_ok (give (generateEd25519KeyPair pair)) (\<lambda>(privateKey, publicKey).
     then_ok (give (exportPublicKey (me_host E) publicKey)) (\<lambda>pub.
     then_ok (give (fingerprint (me_host E) publicKey)) (\<lambda>fp.
       let key = \<lparr>ok_keyId = ''op-'' @ take 16 fp, ok_identityId = identityId, ok_groupId = groupId,
                  ok_publicKey = bytes_to_hex pub, ok_fingerprint = fp, ok_createdAt = now, ok_rotatedAt = None\<rparr> in
       do {
         local_modify (\<lambda>m. m\<lparr>km_opKeys := map_set identityId (key, privateKey) (km_opKeys m),
           km_groupIdIndex := (case groupId of None \<Rightarrow> km_groupIdIndex m
                               | Some g \<Rightarrow> map_set g identityId (km_groupIdIndex m))\<rparr>);
         succeeds key
       })))"

definition createOperationalKey ::
  "('sk, 'pk, 'w) manager_env \<Rightarrow> prompt \<Rightarrow> string + 'sk \<times> 'pk \<Rightarrow> int \<Rightarrow> string \<Rightarrow> string option \<Rightarrow>
   ('sk, 'w, operational_key) managed" where
  "createOperationalKey E reply pair now identityId groupId =
     then_ok (give (gate E AgentCreation reply)) (\<lambda>_. createOperationalKeyRecord E pair now identityId groupId)"

definition getOperationalKey :: "'sk key_manager \<Rightarrow> string \<Rightarrow> operational_key result" where
  "getOperationalKey m identityId =
     (case map_get (km_opKeys m) identityId of
        None \<Rightarrow> Inl (NotFoundError ''operational-key'' identityId) | Some (key, _) \<Rightarrow> Inr key)"

definition getOperationalKeyByGroupId :: "'sk key_manager \<Rightarrow> string \<Rightarrow> operational_key result" where
  "getOperationalKeyByGroupId m groupId =
     (case map_get (km_groupIdIndex m) groupId of
        None \<Rightarrow> Inl (NotFoundError ''operational-key'' groupId) | Some identityId \<Rightarrow> getOperationalKey m identityId)"

definition rotateOperationalKey ::
  "('sk, 'pk, 'w) manager_env \<Rightarrow> prompt \<Rightarrow> string + 'sk \<times> 'pk \<Rightarrow> int \<Rightarrow> string \<Rightarrow>
   ('sk, 'w, operational_key) managed" where
  "rotateOperationalKey E reply pair now identityId = do {
     m \<leftarrow> this_manager;
     case map_get (km_opKeys m) identityId of
       None \<Rightarrow> fails (NotFoundError ''operational-key'' identityId)
     | Some (key, _) \<Rightarrow>
         then_ok (give (gate E OperationalKeyRotation reply)) (\<lambda>_.
           createOperationalKeyRecord E pair now identityId (ok_groupId key))
   }"

definition listOperationalKeys :: "'sk key_manager \<Rightarrow> operational_key list" where
  "listOperationalKeys m = map fst (map_values (km_opKeys m))"

definition signWithOperationalKey ::
  "('sk, 'pk, 'w) manager_env \<Rightarrow> string \<Rightarrow> 8 word list \<Rightarrow> ('sk, 'w, 8 word list) managed" where
  "signWithOperationalKey E identityId data = do {
     m \<leftarrow> this_manager;
     case map_get (km_opKeys m) identityId of
       None \<Rightarrow> fails (NotFoundError ''operational-key'' identityId)
     | Some (_, privateKey) \<Rightarrow> give (signEd25519 (me_host E) privateKey data)
   }"

text \<open>One tick of the rotation timer. A rotation that fails is dropped; one that throws ends the
  round. Replacing the value of a key keeps its place, so the loop visits the keys there were.\<close>

fun rotate_all ::
  "('sk, 'pk, 'w) manager_env \<Rightarrow> (string \<Rightarrow> prompt) \<Rightarrow> (string \<Rightarrow> string + 'sk \<times> 'pk) \<Rightarrow> int \<Rightarrow> string list \<Rightarrow>
   ('sk key_manager \<times> 'w, unit) state" where
  "rotate_all E replies pairs now [] = State_Monad.return ()"
| "rotate_all E replies pairs now (i # ids) = do {
     r \<leftarrow> rotateOperationalKey E (replies i) (pairs i) now i;
     case r of Threw e \<Rightarrow> State_Monad.return () | Returned _ \<Rightarrow> rotate_all E replies pairs now ids
   }"

definition rotation_tick ::
  "('sk, 'pk, 'w) manager_env \<Rightarrow> (string \<Rightarrow> prompt) \<Rightarrow> (string \<Rightarrow> string + 'sk \<times> 'pk) \<Rightarrow> int \<Rightarrow>
   ('sk key_manager \<times> 'w, unit) state" where
  "rotation_tick E replies pairs now = do {
     m \<leftarrow> this_manager;
     if km_rotationTimer m then rotate_all E replies pairs now (map_keys (km_opKeys m)) else State_Monad.return ()
   }"

definition startAutoRotation :: "('sk, 'pk, 'w) manager_env \<Rightarrow> ('sk key_manager \<times> 'w, unit) state" where
  "startAutoRotation E =
     local_modify (\<lambda>m. if kc_rotationIntervalSeconds (me_config E) \<le> 0 \<or> km_rotationTimer m then m
                        else m\<lparr>km_rotationTimer := True\<rparr>)"

definition stopAutoRotation :: "('sk key_manager \<times> 'w, unit) state" where
  "stopAutoRotation = local_modify (\<lambda>m. m\<lparr>km_rotationTimer := False\<rparr>)"

definition manager_close :: "('sk, 'pk, 'w) manager_env \<Rightarrow> ('sk key_manager \<times> 'w, unit) state" where
  "manager_close E = do { stopAutoRotation; in_world (ks_close (me_kv E)) }"

section \<open>Credential keys\<close>

definition issueCredentialKey ::
  "('sk, 'pk, 'w) manager_env \<Rightarrow> string + 'sk \<times> 'pk \<Rightarrow> int \<Rightarrow> string \<Rightarrow> int \<Rightarrow> ('sk, 'w, credential_key) managed" where
  "issueCredentialKey E pair now credentialId ttlSeconds =
     then_ok (give (generateEd25519KeyPair pair)) (\<lambda>(privateKey, publicKey).
     then_ok (give (fingerprint (me_host E) publicKey)) (\<lambda>fp.
       case to_iso (now + ttlSeconds * 1000) of
         Threw e \<Rightarrow> State_Monad.return (Threw e)
       | Returned expiresAt \<Rightarrow>
           let key = \<lparr>ck_keyId = ''credkey-'' @ take 16 fp, ck_credentialId = credentialId, ck_fingerprint = fp,
                      ck_expiresAt = expiresAt, ck_createdAt = now\<rparr> in
           do {
             local_modify (\<lambda>m. m\<lparr>km_credentialKeys := map_set (ck_keyId key) (key, privateKey) (km_credentialKeys m)\<rparr>);
             succeeds key
           }))"

definition revokeCredentialKey :: "string \<Rightarrow> ('sk, 'w, unit) managed" where
  "revokeCredentialKey keyId = do {
     m \<leftarrow> this_manager;
     if map_get (km_credentialKeys m) keyId = None then fails (NotFoundError ''credential-key'' keyId)
     else do {
       local_modify (\<lambda>m. m\<lparr>km_credentialKeys := map_delete keyId (km_credentialKeys m)\<rparr>);
       ok_unit
     }
   }"

definition signWithCredentialKey ::
  "('sk, 'pk, 'w) manager_env \<Rightarrow> int \<Rightarrow> string \<Rightarrow> 8 word list \<Rightarrow> ('sk, 'w, 8 word list) managed" where
  "signWithCredentialKey E now keyId data = do {
     m \<leftarrow> this_manager;
     case map_get (km_credentialKeys m) keyId of
       None \<Rightarrow> fails (NotFoundError ''credential-key'' keyId)
     | Some (key, privateKey) \<Rightarrow>
         if now \<ge> ck_expiresAt key then do {
           local_modify (\<lambda>m. m\<lparr>km_credentialKeys := map_delete keyId (km_credentialKeys m)\<rparr>);
           fails (NotFoundError ''credential-key'' keyId)
         }
         else give (signEd25519 (me_host E) privateKey data)
   }"

section \<open>Keys in the store\<close>

text \<open>\<open>random\<close> are the 32 bytes drawn when there is no key yet.\<close>

definition getOrCreateKey ::
  "('sk, 'pk, 'w) manager_env \<Rightarrow> draw \<Rightarrow> draw \<Rightarrow> 8 word list \<Rightarrow> string \<Rightarrow> ('sk, 'w, 8 word list) managed" where
  "getOrCreateKey E d1 d2 random key = do {
     existing \<leftarrow> on_vault (ks_get (me_kv E) d1 key);
     case existing of
       Threw e \<Rightarrow> State_Monad.return (Threw e)
     | Returned (Inr x) \<Rightarrow> succeeds x
     | Returned (Inl e) \<Rightarrow>
         if \<not> is_not_found e then fails e
         else then_ok (on_vault (ks_set (me_kv E) d2 key random)) (\<lambda>_. succeeds random)
   }"

definition getOrCreateDbKey ::
  "('sk, 'pk, 'w) manager_env \<Rightarrow> draw \<Rightarrow> draw \<Rightarrow> 8 word list \<Rightarrow> string \<Rightarrow> ('sk, 'w, 8 word list) managed" where
  "getOrCreateDbKey E d1 d2 random identityId = getOrCreateKey E d1 d2 random (''db-key:'' @ identityId)"

definition getOrCreateXmtpIdentityKey ::
  "('sk, 'pk, 'w) manager_env \<Rightarrow> draw \<Rightarrow> draw \<Rightarrow> 8 word list \<Rightarrow> string \<Rightarrow> ('sk, 'w, string) managed" where
  "getOrCreateXmtpIdentityKey E d1 d2 random identityId =
     then_ok (getOrCreateKey E d1 d2 random (''xmtp-identity-key:'' @ identityId)) (\<lambda>x.
       succeeds (''0x'' @ bytes_to_hex x))"

definition vaultSet :: "('sk, 'pk, 'w) manager_env \<Rightarrow> draw \<Rightarrow> string \<Rightarrow> 8 word list \<Rightarrow> ('sk, 'w, unit) managed" where
  "vaultSet E d name value = on_vault (ks_set (me_kv E) d name value)"

definition vaultGet :: "('sk, 'pk, 'w) manager_env \<Rightarrow> draw \<Rightarrow> string \<Rightarrow> ('sk, 'w, 8 word list) managed" where
  "vaultGet E d name = on_vault (ks_get (me_kv E) d name)"

definition vaultDelete :: "('sk, 'pk, 'w) manager_env \<Rightarrow> string \<Rightarrow> ('sk, 'w, unit) managed" where
  "vaultDelete E name = on_vault (ks_delete (me_kv E) name)"

definition vaultList :: "('sk, 'pk, 'w) manager_env \<Rightarrow> ('sk key_manager \<times> 'w, string list completion) state" where
  "vaultList E = in_world (ks_list (me_kv E))"

section \<open>Wallets\<close>

text \<open>The first use of a wallet asks for the vault's secret and keeps the backend it makes. The
  secret provider's answer is an argument. A backend works on the vault of the store's world.\<close>

definition with_wallets ::
  "(string \<Rightarrow> 's backend) \<Rightarrow> string result completion \<Rightarrow> ('s backend \<Rightarrow> ('s, 'a) keyed) \<Rightarrow>
   ('sk, fs \<times> 's, 'a) managed" where
  "with_wallets createInternalKeyBackend secret act = do {
     m \<leftarrow> this_manager;
     then_ok
       (case km_walletBackend m of
          Some b \<Rightarrow> succeeds b
        | None \<Rightarrow>
            then_ok (State_Monad.return secret) (\<lambda>passphrase. do {
              local_modify (\<lambda>m. m\<lparr>km_walletBackend := Some (passphrase, [])\<rparr>);
              succeeds (passphrase, [])
            }))
       (\<lambda>(passphrase, loaded).
          State (\<lambda>(m, l, s). case run_state (act (createInternalKeyBackend passphrase)) (loaded, s) of
             (r, (loaded', s')) \<Rightarrow> (r, (m\<lparr>km_walletBackend := Some (passphrase, loaded')\<rparr>, l, s'))))
   }"

definition manager_createWallet where
  "manager_createWallet B secret walletId entropy d now label =
     with_wallets B secret (\<lambda>b. backend_createWallet b walletId entropy d now label)"

definition manager_listWallets where
  "manager_listWallets B secret = with_wallets B secret backend_listWallets"

definition manager_getWallet where
  "manager_getWallet B secret walletId = with_wallets B secret (\<lambda>b. backend_getWallet b walletId)"

definition manager_listWalletAccounts where
  "manager_listWalletAccounts B secret walletId = with_wallets B secret (\<lambda>b. listAccounts b walletId)"

section \<open>Signers and stampers of identities\<close>

definition createSignerProviderCompat ::
  "('sk, 'pk, 'w) manager_env \<Rightarrow> draw \<Rightarrow> draw \<Rightarrow> 8 word list \<Rightarrow> string \<Rightarrow> ('sk key_manager \<times> 'w) signer_provider" where
  "createSignerProviderCompat E d1 d2 random identityId =
     \<lparr>sp_sign = signWithOperationalKey E identityId,
      sp_getPublicKey = do {
        m \<leftarrow> this_manager;
        give (map_sum id (\<lambda>key. compat_hexToBytes (ok_publicKey key)) (getOperationalKey m identityId))
      },
      sp_getFingerprint = do {
        m \<leftarrow> this_manager;
        give (map_sum id ok_fingerprint (getOperationalKey m identityId))
      },
      sp_getDbEncryptionKey = getOrCreateDbKey E d1 d2 random identityId,
      sp_getXmtpIdentityKey = getOrCreateXmtpIdentityKey E d1 d2 random identityId\<rparr>"

text \<open>Sign the canonical text, then look up the key.\<close>

definition stamp_with ::
  "('sk, 'pk, 'w) manager_env \<Rightarrow> string \<Rightarrow> json \<Rightarrow> ('sk, 'w, 8 word list \<times> operational_key) managed" where
  "stamp_with E identityId payload =
     then_ok (signWithOperationalKey E identityId (canonicalize payload)) (\<lambda>signature. do {
       m \<leftarrow> this_manager;
       give (map_sum id (\<lambda>key. (signature, key)) (getOperationalKey m identityId))
     })"

definition compat_stamp ::
  "('sk, 'pk, 'w) manager_env \<Rightarrow> string \<Rightarrow> seal_payload \<Rightarrow> ('sk, 'w, seal_envelope) managed" where
  "compat_stamp E identityId payload =
     then_ok (stamp_with E identityId (payload_json payload)) (\<lambda>(signature, key).
       succeeds \<lparr>se_chain = \<lparr>sc_current = payload, sc_previous = None,
                   sc_delta = \<lparr>added = [], removed = [], changed = []\<rparr>\<rparr>,
                 se_signature = btoa (from_bytes signature), se_keyId = ok_publicKey key\<rparr>)"

definition compat_stampRevocation ::
  "('sk, 'pk, 'w) manager_env \<Rightarrow> string \<Rightarrow> revocation_seal \<Rightarrow> ('sk, 'w, signed_revocation) managed" where
  "compat_stampRevocation E identityId payload =
     then_ok (stamp_with E identityId (revocation_json payload)) (\<lambda>(signature, key).
       succeeds \<lparr>sr_revocation = payload, sr_signature = btoa (from_bytes signature),
                 sr_signatureAlgorithm = ''Ed25519'', sr_signerKeyRef = ok_publicKey key\<rparr>)"

end
