(* ===== verification/KeyManagerSafety.thy ===== *)
theory KeyManagerSafety
  imports KeyManagerCompat
begin

text \<open>
  What the compatibility key manager promises over a store that keeps its contract: the keys of an
  identity never change once handed out, the admin key outlives a restart, operational signatures
  verify under the published key, and a credential key that has ended signs no more.
\<close>

section \<open>Calls\<close>

datatype ('sk, 'pk) manager_op =
  MInitialize draw draw int
| MAdminCreate prompt "string + 'sk \<times> 'pk" draw draw
| MSignJwt int "8 word list" int
| MCreateOperational prompt "string + 'sk \<times> 'pk" int string "string option"
| MRotate prompt "string + 'sk \<times> 'pk" int string
| MTick "string \<Rightarrow> prompt" "string \<Rightarrow> string + 'sk \<times> 'pk" int
| MStartRotation | MStopRotation
| MSignOperational string "8 word list"
| MIssue "string + 'sk \<times> 'pk" int string int
| MRevoke string
| MSignCredential int string "8 word list"
| MDbKey draw draw "8 word list" string
| MXmtpKey draw draw "8 word list" string
| MVaultSet draw string "8 word list"
| MVaultGet draw string
| MVaultDelete string
| MRestart

definition restart :: "('sk, 'pk, 'w) manager_env \<Rightarrow> ('sk key_manager \<times> 'w, unit) state" where
  "restart E = local_modify (\<lambda>_. new_key_manager E)"

fun manager_step :: "('sk, 'pk, 'w) manager_env \<Rightarrow> ('sk, 'pk) manager_op \<Rightarrow> ('sk key_manager \<times> 'w, unit) state" where
  "manager_step E (MInitialize d1 d2 now) = ignore (initialize E d1 d2 now)"
| "manager_step E (MAdminCreate reply pair d1 d2) = ignore (admin_create E reply pair d1 d2)"
| "manager_step E (MSignJwt now random ttl) = ignore (admin_signJwt E now random ttl)"
| "manager_step E (MCreateOperational reply pair now i g) = ignore (createOperationalKey E reply pair now i g)"
| "manager_step E (MRotate reply pair now i) = ignore (rotateOperationalKey E reply pair now i)"
| "manager_step E (MTick replies pairs now) = rotation_tick E replies pairs now"
| "manager_step E MStartRotation = startAutoRotation E"
| "manager_step E MStopRotation = stopAutoRotation"
| "manager_step E (MSignOperational i data) = ignore (signWithOperationalKey E i data)"
| "manager_step E (MIssue pair now c ttl) = ignore (issueCredentialKey E pair now c ttl)"
| "manager_step E (MRevoke k) = ignore (revokeCredentialKey k)"
| "manager_step E (MSignCredential now k data) = ignore (signWithCredentialKey E now k data)"
| "manager_step E (MDbKey d1 d2 random i) = ignore (getOrCreateDbKey E d1 d2 random i)"
| "manager_step E (MXmtpKey d1 d2 random i) = ignore (getOrCreateXmtpIdentityKey E d1 d2 random i)"
| "manager_step E (MVaultSet d n x) = ignore (vaultSet E d n x)"
| "manager_step E (MVaultGet d n) = ignore (vaultGet E d n)"
| "manager_step E (MVaultDelete n) = ignore (vaultDelete E n)"
| "manager_step E MRestart = restart E"

fun manager_run ::
  "('sk, 'pk, 'w) manager_env \<Rightarrow> ('sk, 'pk) manager_op list \<Rightarrow> 'sk key_manager \<times> 'w \<Rightarrow> 'sk key_manager \<times> 'w" where
  "manager_run E [] x = x"
| "manager_run E (op # ops) x = manager_run E ops (snd (run_state (manager_step E op) x))"

lemma wp_ignored [wp_simps]: "wp (ignore m) Q x \<longleftrightarrow> wp m (\<lambda>_. Q ()) x"
  by (simp add: ignore_def wp_simps)

lemma wp_give [wp_simps]: "wp (give r) Q x \<longleftrightarrow> Q (Returned r) x"
  by (simp add: give_def wp_simps)

lemma wp_this_manager [wp_simps]: "wp this_manager Q (m, w) \<longleftrightarrow> Q m (m, w)"
  by (simp add: this_manager_def wp_simps)

section \<open>Invariants\<close>

text \<open>A computation preserves a property of states. The rules follow the syntax of the calls.\<close>

definition preserves :: "('s \<Rightarrow> bool) \<Rightarrow> ('s, 'a) state \<Rightarrow> bool" where
  "preserves I m \<longleftrightarrow> (\<forall>s. I s \<longrightarrow> wp m (\<lambda>_. I) s)"

named_theorems preserves_intros

lemma preservesI: "(\<And>s. I s \<Longrightarrow> wp m (\<lambda>_. I) s) \<Longrightarrow> preserves I m"
  by (simp add: preserves_def)

lemma preservesD: "preserves I m \<Longrightarrow> I s \<Longrightarrow> I (snd (run_state m s))"
  by (cases "run_state m s") (auto simp: preserves_def wp_def)

lemma preserves_return [preserves_intros]: "preserves I (State_Monad.return a)"
  by (simp add: preserves_def wp_simps)

lemma preserves_bind [preserves_intros]:
  assumes "preserves I m" and "\<And>a. preserves I (f a)"
  shows "preserves I (State_Monad.bind m f)"
  unfolding preserves_def wp_bind
proof (intro allI impI)
  fix s assume "I s"
  with assms(1) have "wp m (\<lambda>_. I) s" by (simp add: preserves_def)
  then show "wp m (\<lambda>a. wp (f a) (\<lambda>_. I)) s" by (rule wp_mono) (use assms(2) in \<open>simp add: preserves_def\<close>)
qed

lemma preserves_then_ok [preserves_intros]:
  assumes "preserves I m" and "\<And>a. preserves I (f a)"
  shows "preserves I (then_ok m f)"
  unfolding preserves_def wp_then_ok
proof (intro allI impI)
  fix s assume "I s"
  with assms(1) have "wp m (\<lambda>_. I) s" by (simp add: preserves_def)
  then show "wp m (\<lambda>r s'. case r of Threw e \<Rightarrow> I s' | Returned (Inl e) \<Rightarrow> I s' | Returned (Inr x) \<Rightarrow> wp (f x) (\<lambda>_. I) s') s"
    by (rule wp_mono) (use assms(2) in \<open>auto simp: preserves_def split: completion.split sum.split\<close>)
qed

lemma preserves_simple [preserves_intros]:
  "preserves I (fails e)" "preserves I (succeeds x)" "preserves I ok_unit" "preserves I (give r)" "preserves I (or_throw t)"
  by (simp_all add: preserves_def wp_simps)

lemma preserves_ignore [preserves_intros]: "preserves I m \<Longrightarrow> preserves I (ignore m)"
  by (simp add: preserves_def wp_simps)

lemma preserves_this_manager [preserves_intros]: "preserves I this_manager"
  by (simp add: preserves_def wp_simps split_paired_all)

lemma preserves_modify [preserves_intros]:
  "(\<And>m w. I (m, w) \<Longrightarrow> I (f m, w)) \<Longrightarrow> preserves I (local_modify f)"
  by (simp add: preserves_def wp_simps split_paired_all)

lemma preserves_cases [preserves_intros]:
  "(b \<Longrightarrow> preserves I m) \<Longrightarrow> (\<not> b \<Longrightarrow> preserves I n) \<Longrightarrow> preserves I (if b then m else n)"
  "(o1 = None \<Longrightarrow> preserves I m) \<Longrightarrow> (\<And>x. o1 = Some x \<Longrightarrow> preserves I (f x)) \<Longrightarrow>
     preserves I (case o1 of None \<Rightarrow> m | Some x \<Rightarrow> f x)"
  "(\<And>e. r = Inl e \<Longrightarrow> preserves I (g e)) \<Longrightarrow> (\<And>x. r = Inr x \<Longrightarrow> preserves I (h x)) \<Longrightarrow>
     preserves I (case r of Inl e \<Rightarrow> g e | Inr x \<Rightarrow> h x)"
  "(\<And>x. c = Returned x \<Longrightarrow> preserves I (k x)) \<Longrightarrow> (\<And>e. c = Threw e \<Longrightarrow> preserves I (l e)) \<Longrightarrow>
     preserves I (case c of Returned x \<Rightarrow> k x | Threw e \<Rightarrow> l e)"
  "(\<And>a b. p = (a, b) \<Longrightarrow> preserves I (q a b)) \<Longrightarrow> preserves I (case p of (a, b) \<Rightarrow> q a b)"
  by (auto split: option.split sum.split completion.split prod.split)

lemma preserves_let [preserves_intros]: "preserves I (f x) \<Longrightarrow> preserves I (let y = x in f y)"
  by simp

lemma manager_run_keeps:
  assumes "\<And>op. ok op \<Longrightarrow> preserves I (manager_step E op)"
  shows "I x \<Longrightarrow> \<forall>op \<in> set ops. ok op \<Longrightarrow> I (manager_run E ops x)"
proof (induction ops arbitrary: x)
  case (Cons op ops)
  then have "I (snd (run_state (manager_step E op) x))" using preservesD [OF assms] by simp
  with Cons show ?case by simp
qed simp

section \<open>Names in the store\<close>

text \<open>The entries a call may replace or delete.\<close>

fun op_writes :: "('sk, 'pk) manager_op \<Rightarrow> string set" where
  "op_writes (MAdminCreate reply pair d1 d2) = {''admin-key'', ''admin-key-pub''}"
| "op_writes (MVaultSet d n x) = {n}"
| "op_writes (MVaultDelete n) = {n}"
| "op_writes _ = {}"

fun op_draws :: "('sk, 'pk) manager_op \<Rightarrow> draw list" where
  "op_draws (MInitialize d1 d2 now) = [d1, d2]"
| "op_draws (MAdminCreate reply pair d1 d2) = [d1, d2]"
| "op_draws (MDbKey d1 d2 random i) = [d1, d2]"
| "op_draws (MXmtpKey d1 d2 random i) = [d1, d2]"
| "op_draws (MVaultSet d n x) = [d]"
| "op_draws (MVaultGet d n) = [d]"
| "op_draws _ = []"

definition draws_ok :: "draw list \<Rightarrow> bool" where
  "draws_ok ds \<longleftrightarrow> (\<forall>d \<in> set ds. length (dr_iv d) = IV_BYTES)"

lemma draws_ok_simps [simp]: "draws_ok []" "draws_ok (d # ds) \<longleftrightarrow> length (dr_iv d) = IV_BYTES \<and> draws_ok ds"
  by (simp_all add: draws_ok_def)

text \<open>A store grows from one map to another outside the names \<open>ns\<close>.\<close>

definition entries_stay :: "string set \<Rightarrow> (string \<Rightarrow> 8 word list option) \<Rightarrow> (string \<Rightarrow> 8 word list option) \<Rightarrow> bool" where
  "entries_stay ns m m' \<longleftrightarrow> (\<forall>n x. n \<notin> ns \<longrightarrow> m n = Some x \<longrightarrow> m' n = Some x)"

lemma entries_stay_refl [simp]: "entries_stay ns m m"
  by (simp add: entries_stay_def)

lemma entries_stay_trans: "entries_stay ns m m' \<Longrightarrow> entries_stay ns m' m'' \<Longrightarrow> entries_stay ns m m''"
  by (simp add: entries_stay_def)

lemma entries_stay_set: "n \<in> ns \<or> m n = None \<or> m n = Some x \<Longrightarrow> entries_stay ns m (m(n \<mapsto> x))"
  by (auto simp: entries_stay_def)

lemma entries_stay_delete: "n \<in> ns \<Longrightarrow> entries_stay ns m (m(n := None))"
  by (auto simp: entries_stay_def)

definition store_keeps ::
  "('w \<Rightarrow> (string \<Rightarrow> 8 word list option) \<Rightarrow> bool) \<Rightarrow> string set \<Rightarrow> (string \<Rightarrow> 8 word list option) \<Rightarrow>
   'sk key_manager \<times> 'w \<Rightarrow> bool" where
  "store_keeps rep ns m = (\<lambda>(km, w). \<exists>m'. rep w m' \<and> entries_stay ns m m')"

lemma store_keeps_pair: "store_keeps rep ns m (km, w) \<longleftrightarrow> (\<exists>m'. rep w m' \<and> entries_stay ns m m')"
  by (simp add: store_keeps_def)

context kv_contract begin

lemma get_keeps:
  assumes "length (dr_iv d) = IV_BYTES"
  shows "preserves (store_keeps rep ns m) (on_vault (ks_get K d key))"
proof (rule preservesI, clarsimp simp: store_keeps_def wp_on_vault)
  fix w m' assume "rep w m'" "entries_stay ns m m'"
  then show "wp (ks_get K d key) (\<lambda>_ w. \<exists>m'. rep w m' \<and> entries_stay ns m m') w"
    by (auto intro: wp_mono [OF get [OF _ assms]])
qed

lemma set_keeps:
  assumes "length (dr_iv d) = IV_BYTES" and "key \<in> ns"
  shows "preserves (store_keeps rep ns m) (on_vault (ks_set K d key x))"
proof (rule preservesI, clarsimp simp: store_keeps_def wp_on_vault)
  fix w m' assume "rep w m'" "entries_stay ns m m'"
  moreover from this assms(2) have "entries_stay ns m (m'(key \<mapsto> x))" by (auto simp: entries_stay_def)
  ultimately show "wp (ks_set K d key x) (\<lambda>_ w. \<exists>m'. rep w m' \<and> entries_stay ns m m') w"
    by (auto intro: wp_mono [OF set [OF _ assms(1)]])
qed

lemma delete_keeps:
  assumes "key \<in> ns"
  shows "preserves (store_keeps rep ns m) (on_vault (ks_delete K key))"
proof (rule preservesI, clarsimp simp: store_keeps_def wp_on_vault)
  fix w m' assume "rep w m'" "entries_stay ns m m'"
  moreover from this assms have "entries_stay ns m (m'(key := None))" by (auto simp: entries_stay_def)
  ultimately show "wp (ks_delete K key) (\<lambda>_ w. \<exists>m'. rep w m' \<and> entries_stay ns m m') w"
    by (auto intro: wp_mono [OF delete])
qed

text \<open>A key that is there is handed out; otherwise the drawn one is stored and handed out.\<close>

lemma key_created:
  assumes E: "me_kv E = K" and r: "rep w m" and d: "length (dr_iv d1) = IV_BYTES" "length (dr_iv d2) = IV_BYTES"
  shows "wp (getOrCreateKey E d1 d2 random key)
           (\<lambda>a (km', w'). a = Returned (Inr (case m key of Some x \<Rightarrow> x | None \<Rightarrow> random)) \<and> km' = km
              \<and> rep w' (m(key \<mapsto> (case m key of Some x \<Rightarrow> x | None \<Rightarrow> random)))) (km, w)"
proof (cases "m key")
  case None
  have "wp (ks_get K d1 key) (\<lambda>a w'. (\<exists>e. a = Returned (Inl e) \<and> is_not_found e) \<and> rep w' m) w"
    by (rule wp_mono [OF get [OF r d(1)]]) (auto simp: None)
  then show ?thesis
    unfolding getOrCreateKey_def wp_bind wp_on_vault E None
    by (rule wp_mono) (auto simp: wp_simps wp_on_vault E intro!: wp_mono [OF set [OF _ d(2)]])
next
  case (Some y)
  have "wp (ks_get K d1 key) (\<lambda>a w'. a = Returned (Inr y) \<and> rep w' m) w"
    by (rule wp_mono [OF get [OF r d(1)]]) (auto simp: Some)
  then show ?thesis
    unfolding getOrCreateKey_def wp_bind wp_on_vault E Some
    by (rule wp_mono) (auto simp: wp_simps Some fun_upd_idem)
qed

lemma create_keeps:
  assumes "me_kv E = K" and "length (dr_iv d1) = IV_BYTES" and "length (dr_iv d2) = IV_BYTES"
  shows "preserves (store_keeps rep ns m) (getOrCreateKey E d1 d2 random key)"
proof (rule preservesI, clarsimp simp: store_keeps_def)
  fix km w m' assume r: "rep w m'" and s: "entries_stay ns m m'"
  have "entries_stay ns m (m'(key \<mapsto> (case m' key of None \<Rightarrow> random | Some x \<Rightarrow> x)))"
    using s by (auto simp: entries_stay_def)
  then show "wp (getOrCreateKey E d1 d2 random key) (\<lambda>_ (km, w). \<exists>m'. rep w m' \<and> entries_stay ns m m') (km, w)"
    by (auto intro: wp_mono [OF key_created [OF assms(1) r assms(2,3)]])
qed

lemma store_keeps_manager: "store_keeps rep ns m (a, w) \<Longrightarrow> store_keeps rep ns m (b, w)"
  by (simp add: store_keeps_def)

lemma rotate_keeps: "preserves (store_keeps rep ns m) (rotateOperationalKey E reply pair now i)"
  unfolding rotateOperationalKey_def createOperationalKeyRecord_def
  by (intro preserves_intros) (rule store_keeps_manager)

lemma rotate_all_keeps: "preserves (store_keeps rep ns m) (rotate_all E replies pairs now ids)"
  by (induction ids) (auto intro!: preserves_intros rotate_keeps)

lemma admin_keeps:
  assumes "me_kv E = K" and "draws_ok [d1, d2]" and "{''admin-key'', ''admin-key-pub''} \<subseteq> ns"
  shows "preserves (store_keeps rep ns m) (admin_create E reply pair d1 d2)"
  unfolding admin_create_def readAdminInfo_def assms(1)
  by (intro preserves_intros set_keeps) (use assms(2,3) in \<open>auto elim: store_keeps_manager\<close>)

lemma initialize_keeps:
  assumes "me_kv E = K" and "draws_ok [d1, d2]"
  shows "preserves (store_keeps rep ns m) (initialize E d1 d2 now)"
  unfolding initialize_def assms(1)
  by (intro preserves_intros get_keeps) (use assms(2) in \<open>auto elim: store_keeps_manager\<close>)

lemma step_stores:
  assumes E: "me_kv E = K" and ns: "op_writes op \<subseteq> ns" and d: "draws_ok (op_draws op)"
  shows "preserves (store_keeps rep ns m) (manager_step E op)"
proof -
  note defs = admin_signJwt_def createOperationalKey_def createOperationalKeyRecord_def rotation_tick_def
    startAutoRotation_def stopAutoRotation_def signWithOperationalKey_def issueCredentialKey_def
    revokeCredentialKey_def signWithCredentialKey_def getOrCreateDbKey_def getOrCreateXmtpIdentityKey_def
    vaultSet_def vaultGet_def vaultDelete_def restart_def E
  show ?thesis
  proof (cases op)
    case (MInitialize d1 d2 now)
    with d show ?thesis by (auto intro!: preserves_intros initialize_keeps [OF E])
  next
    case (MAdminCreate reply pair d1 d2)
    with d ns show ?thesis by (auto intro!: preserves_intros admin_keeps [OF E])
  qed (use d ns in \<open>auto simp: defs intro!: preserves_intros rotate_keeps rotate_all_keeps get_keeps set_keeps delete_keeps
        create_keeps [OF E] elim: store_keeps_manager\<close>)
qed

lemma run_stores:
  assumes "me_kv E = K" and "rep w m" and "\<forall>op \<in> set ops. op_writes op \<subseteq> ns \<and> draws_ok (op_draws op)"
  obtains m' where "rep (snd (manager_run E ops (km, w))) m'" and "entries_stay ns m m'"
proof -
  have start: "store_keeps rep ns m (km, w)" using assms(2) by (auto simp: store_keeps_pair)
  have "store_keeps rep ns m (manager_run E ops (km, w))"
    by (rule manager_run_keeps [where I = "store_keeps rep ns m" and ok = "\<lambda>op. op_writes op \<subseteq> ns \<and> draws_ok (op_draws op)",
          OF _ start assms(3)]) (simp add: step_stores [OF assms(1)])
  with that show ?thesis by (auto simp: store_keeps_def split: prod.splits)
qed

lemma key_stays:
  assumes E: "me_kv E = K" and r: "rep w m"
    and d: "draws_ok [d1, d2, d1', d2']" and ops: "\<forall>op \<in> set ops. key \<notin> op_writes op \<and> draws_ok (op_draws op)"
  shows "\<exists>x y. run_state (getOrCreateKey E d1 d2 random key) (km, w) = (Returned (Inr x), y)
    \<and> fst (run_state (getOrCreateKey E d1' d2' random' key) (manager_run E ops y)) = Returned (Inr x)"
proof -
  define x where "x = (case m key of Some x \<Rightarrow> x | None \<Rightarrow> random)"
  obtain a km1 w1 where run: "run_state (getOrCreateKey E d1 d2 random key) (km, w) = (a, km1, w1)"
    by (cases "run_state (getOrCreateKey E d1 d2 random key) (km, w)")
  from key_created [OF E r, of d1 d2 random key km] d
  have a: "a = Returned (Inr x)" and r1: "rep w1 (m(key \<mapsto> x))" by (simp_all add: wp_def run x_def)
  have free: "\<forall>op \<in> set ops. op_writes op \<subseteq> - {key} \<and> draws_ok (op_draws op)" using ops by auto
  obtain m' where r2: "rep (snd (manager_run E ops (km1, w1))) m'" and stay: "entries_stay (- {key}) (m(key \<mapsto> x)) m'"
    by (rule run_stores [OF E r1 free])
  from stay have x: "m' key = Some x" by (simp add: entries_stay_def)
  obtain km2 w2 where two: "manager_run E ops (km1, w1) = (km2, w2)" by (cases "manager_run E ops (km1, w1)")
  from key_created [OF E r2 [unfolded two snd_conv], of d1' d2' random' key km2] d x
  have "fst (run_state (getOrCreateKey E d1' d2' random' key) (km2, w2)) = Returned (Inr x)"
    by (simp add: wp_def split: prod.splits)
  with run two a show ?thesis by auto
qed

end

section \<open>Keys of identities\<close>


section \<open>The admin key\<close>

lemma toBase64Url_encode: "toBase64Url bytes = base64urlEncode bytes"
proof -
  have "filter (\<lambda>c. c \<noteq> CHR ''='') (b64_body bytes) = b64_body bytes"
  proof (rule filter_True, rule ballI)
    fix c assume "c \<in> set (b64_body bytes)"
    then have "c \<in> set b64_alphabet" by (rule body_chars)
    moreover have "CHR ''='' \<notin> set b64_alphabet" by code_simp
    ultimately show "c \<noteq> CHR ''=''" by blast
  qed
  then show ?thesis by (simp add: toBase64Url_def btoa_body encode_body)
qed

text \<open>What the host's keys and texts satisfy: a signature verifies under the exported public key, an
  exported private key signs as before once imported, and a text is read back.\<close>

definition pair_signs :: "('sk, 'pk) key_host \<Rightarrow> 'sk \<times> 'pk \<Rightarrow> bool" where
  "pair_signs h = (\<lambda>(sk, pk). \<forall>pub. kh_export_public h pk = Inr pub \<longrightarrow>
     (\<exists>k. jh_import (kh_jwt h) pub = Some k
        \<and> (\<forall>data signature. su_sign (kh_ed25519 h) sk data = Inr signature \<longrightarrow>
             jh_verify (kh_jwt h) k signature data = Some True)))"

definition key_kept :: "('sk, 'pk) key_host \<Rightarrow> 'sk \<Rightarrow> bool" where
  "key_kept h sk \<longleftrightarrow> (\<forall>priv. kh_export_private h sk = Inr priv \<longrightarrow>
     (\<exists>sk'. su_import (kh_ed25519 h) priv = Inr sk'
        \<and> su_sign (kh_ed25519 h) sk' = su_sign (kh_ed25519 h) sk))"

definition jwt_text_ok :: "('sk, 'pk) jwt_host \<Rightarrow> bool" where
  "jwt_text_ok jh \<longleftrightarrow> (\<forall>s. jh_decode jh (utf8 s) = s) \<and> (\<forall>j. wf_json j \<longrightarrow> jwt_host.jh_parse jh (stringify j) = Some j)"

lemma compat_jwt_wf: "wf_json (compat_jwt_json now ttl iss jti)" "wf_json jwt_header"
  by (simp_all add: compat_jwt_json_def jwt_header_def)

lemma compat_jwt_parsed:
  "0 < now \<Longrightarrow> 0 < now + ttl \<Longrightarrow> parse_jwt_payload (compat_jwt_json now ttl iss jti)
     = Some \<lparr>jp_iss = iss, jp_iat = now, jp_exp = now + ttl, jp_jti = jti\<rparr>"
  by (simp add: compat_jwt_json_def)

lemma compat_token_verifies:
  assumes jwt: "jwt_text_ok jh" and k: "jh_import jh pub = Some k"
    and v: "jh_verify jh k signature (utf8 (h @ ''.'' @ pl)) = Some True"
    and h: "h = base64urlEncode (utf8 (stringify jwt_header))"
    and pl: "pl = base64urlEncode (utf8 (stringify (compat_jwt_json now ttl iss jti)))"
    and times: "0 < now" "0 < now + ttl" "now' - skew < now + ttl" "now \<le> now' + skew"
  shows "verifyJwt jh skew now' (h @ ''.'' @ pl @ ''.'' @ base64urlEncode signature) pub
    = Returned (Inr \<lparr>jp_iss = iss, jp_iat = now, jp_exp = now + ttl, jp_jti = jti\<rparr>)"
proof -
  have "decode_part jh h = Some jwt_header" "decode_part jh pl = Some (compat_jwt_json now ttl iss jti)"
    using jwt compat_jwt_wf by (simp_all add: decode_part_def h pl jwt_text_ok_def)
  moreover have "json_prop jwt_header ''alg'' = Returned (Some (JStr ''EdDSA''))" by (simp add: jwt_header_def)
  moreover have "CHR ''.'' \<notin> set h" "CHR ''.'' \<notin> set pl" by (simp_all add: h pl encode_no_dot)
  ultimately show ?thesis
    unfolding verifyJwt_iff
    using compat_jwt_parsed [OF times(1,2), of iss jti] k v times(3,4) encode_no_dot [of signature]
      base64url_roundtrip [of signature]
    by (intro exI [of _ h] exI [of _ pl] exI [of _ "base64urlEncode signature"] exI [of _ jwt_header]
        exI [of _ "compat_jwt_json now ttl iss jti"] exI [of _ k] exI [of _ signature]) simp
qed

definition admin_loaded :: "('sk, 'pk) key_host \<Rightarrow> string \<Rightarrow> 8 word list \<Rightarrow> 'sk key_manager \<Rightarrow> bool" where
  "admin_loaded h hex pub km \<longleftrightarrow> km_adminPublicKeyHex km = Some hex \<and> hex = bytes_to_hex pub
     \<and> (\<exists>sk k. km_adminPrivateKey km = Some sk \<and> jh_import (kh_jwt h) pub = Some k
          \<and> (\<forall>data signature. su_sign (kh_ed25519 h) sk data = Inr signature \<longrightarrow>
               jh_verify (kh_jwt h) k signature data = Some True))"

lemma admin_token_verifies:
  assumes jwt: "jwt_text_ok (kh_jwt (me_host E))" and km: "admin_loaded (me_host E) hex pub km"
    and token: "fst (run_state (admin_signJwt E now random ttl) (km, w)) = Returned (Inr token)"
    and times: "0 < now" "0 < now + ttl" "now' - DEFAULT_CLOCK_SKEW < now + ttl" "now \<le> now' + DEFAULT_CLOCK_SKEW"
  shows "fst (run_state (admin_verifyJwt E now' token) (km, w))
    = Returned (Inr \<lparr>jp_iss = hex, jp_iat = now, jp_exp = now + ttl, jp_jti = bytes_to_hex random\<rparr>)"
proof -
  obtain sk k where sk: "km_adminPrivateKey km = Some sk" "jh_import (kh_jwt (me_host E)) pub = Some k"
    and v: "\<And>data signature. su_sign (kh_ed25519 (me_host E)) sk data = Inr signature \<Longrightarrow>
               jh_verify (kh_jwt (me_host E)) k signature data = Some True"
    and hex: "km_adminPublicKeyHex km = Some hex" "hex = bytes_to_hex pub"
    using km by (auto simp: admin_loaded_def)
  define h where "h = base64urlEncode (utf8 (stringify jwt_header))"
  define pl where "pl = base64urlEncode (utf8 (stringify (compat_jwt_json now ttl hex (bytes_to_hex random))))"
  from token obtain signature where s: "su_sign (kh_ed25519 (me_host E)) sk (utf8 (h @ ''.'' @ pl)) = Inr signature"
    "token = h @ ''.'' @ pl @ ''.'' @ base64urlEncode signature"
    by (auto simp: admin_signJwt_def this_manager_def local_gets_def gets_def sk hex(1) Let_def toBase64Url_encode
        h_def [symmetric] pl_def [symmetric] then_ok_def give_def signEd25519_def wrapped_def succeeds_def
        State_Monad.bind_def split: sum.splits)
  have "verifyJwt (kh_jwt (me_host E)) DEFAULT_CLOCK_SKEW now' token pub
      = Returned (Inr \<lparr>jp_iss = hex, jp_iat = now, jp_exp = now + ttl, jp_jti = bytes_to_hex random\<rparr>)"
    unfolding s(2) by (rule compat_token_verifies [OF jwt sk(2) v [OF s(1)] h_def pl_def times])
  then show ?thesis
    by (simp add: admin_verifyJwt_def this_manager_def local_gets_def gets_def hex State_Monad.bind_def)
qed

context kv_contract begin

lemma admin_created:
  assumes E: "me_kv E = K" and r: "rep w m" and d: "draws_ok [d1, d2]"
  shows "wp (admin_create E reply (Inr (sk, pk)) d1 d2) (\<lambda>a (km', w'). \<forall>info. a = Returned (Inr info) \<longrightarrow>
      (\<exists>pub priv. kh_export_public (me_host E) pk = Inr pub \<and> kh_export_private (me_host E) sk = Inr priv
         \<and> aki_publicKey info = bytes_to_hex pub
         \<and> rep w' (m(''admin-key'' \<mapsto> priv, ''admin-key-pub'' \<mapsto> utf8 (bytes_to_hex pub))))) (km, w)"
proof -
  have d1: "length (dr_iv d1) = IV_BYTES" and d2: "length (dr_iv d2) = IV_BYTES" using d by simp_all
  show ?thesis
    unfolding admin_create_def readAdminInfo_def E
    by (auto simp: wp_simps wp_on_vault generateEd25519KeyPair_def wrapped_def exportPublicKey_def exportPrivateKey_def
        fingerprintBytes_def split: option.splits sum.splits intro!: wp_mono [OF set [OF r d1]] wp_mono [OF set [OF _ d2]])
qed

lemma admin_creates:
  assumes E: "me_kv E = K" and r: "rep w m" and d: "draws_ok [d1, d2]" and km: "km_adminPublicKeyHex km = None"
    and ok: "gate E RootKeyCreation reply = Inr ()" "kh_export_public (me_host E) pk = Inr pub"
      "kh_export_private (me_host E) sk = Inr priv" "kh_digest (me_host E) pub = Inr digest"
  shows "wp (admin_create E reply (Inr (sk, pk)) d1 d2) (\<lambda>a _. \<exists>info. a = Returned (Inr info)) (km, w)"
proof -
  have d1: "length (dr_iv d1) = IV_BYTES" and d2: "length (dr_iv d2) = IV_BYTES" using d by simp_all
  show ?thesis
    unfolding admin_create_def readAdminInfo_def E
    by (auto simp: wp_simps wp_on_vault generateEd25519KeyPair_def wrapped_def exportPublicKey_def exportPrivateKey_def
        fingerprintBytes_def ok km intro!: wp_mono [OF set [OF r d1]] wp_mono [OF set [OF _ d2]])
qed

lemma initialize_loads:
  assumes E: "me_kv E = K" and r: "rep w m" and d: "draws_ok [d1, d2]" and km: "km_rootKeyHandle km = None"
    and priv: "m ''admin-key'' = Some priv" "su_import (kh_ed25519 (me_host E)) priv = Inr sk"
    and pub: "m ''admin-key-pub'' = Some (utf8 hex)" "jh_decode (kh_jwt (me_host E)) (utf8 hex) = hex"
  shows "wp (initialize E d1 d2 now) (\<lambda>a (km', w'). (\<exists>root. a = Returned (Inr root) \<and> rk_publicKey root = hex)
      \<and> km_adminPublicKeyHex km' = Some hex \<and> km_adminPrivateKey km' = Some sk \<and> rep w' m) (km, w)"
proof -
  have one: "wp (ks_get K d1 ''admin-key-pub'') (\<lambda>a w'. a = Returned (Inr (utf8 hex)) \<and>
      wp (ks_get K d2 ''admin-key'') (\<lambda>a w''. a = Returned (Inr priv) \<and> rep w'' m) w') w"
    using d by (auto simp: priv pub intro!: wp_mono [OF get [OF r]] wp_mono [OF get])
  show ?thesis
    unfolding initialize_def E
    by (auto simp: wp_simps wp_on_vault km importEd25519PrivateKey_def wrapped_def priv pub Let_def
        intro!: wp_mono [OF one] elim!: wp_mono)
qed

end


section \<open>Operational keys\<close>

lemmas state_run_simps = this_manager_def local_gets_def gets_def give_def State_Monad.bind_def fails_def

fun op_pairs :: "('sk, 'pk) manager_op \<Rightarrow> (string + 'sk \<times> 'pk) set" where
  "op_pairs (MCreateOperational reply pair now i g) = {pair}"
| "op_pairs (MRotate reply pair now i) = {pair}"
| "op_pairs (MTick replies pairs now) = range pairs"
| "op_pairs _ = {}"

text \<open>Every operational key is stored under its identity, with the private key of the public key it
  publishes, and every group of a key leads to a key.\<close>

definition opkeys_ok :: "('sk, 'pk) key_host \<Rightarrow> 'sk key_manager \<times> 'w \<Rightarrow> bool" where
  "opkeys_ok h = (\<lambda>(km, w). map_wf (km_opKeys km)
     \<and> (\<forall>i key sk. map_get (km_opKeys km) i = Some (key, sk) \<longrightarrow> ok_identityId key = i
        \<and> (\<exists>pk pub. pair_signs h (sk, pk) \<and> kh_export_public h pk = Inr pub \<and> ok_publicKey key = bytes_to_hex pub)
        \<and> (\<forall>g. ok_groupId key = Some g \<longrightarrow> map_get (km_groupIdIndex km) g \<noteq> None))
     \<and> (\<forall>g i. map_get (km_groupIdIndex km) g = Some i \<longrightarrow> map_get (km_opKeys km) i \<noteq> None))"

lemma opkeys_same:
  "opkeys_ok h (km, w) \<Longrightarrow> km_opKeys km' = km_opKeys km \<Longrightarrow> km_groupIdIndex km' = km_groupIdIndex km \<Longrightarrow>
   opkeys_ok h (km', w')"
  by (simp add: opkeys_ok_def)

lemma record_keeps:
  assumes "\<And>p. pair = Inr p \<Longrightarrow> pair_signs (me_host E) p"
  shows "preserves (opkeys_ok (me_host E)) (createOperationalKeyRecord E pair now i g)"
proof (cases pair)
  case (Inl e)
  then show ?thesis
    by (auto simp: createOperationalKeyRecord_def generateEd25519KeyPair_def wrapped_def preserves_def wp_simps)
next
  case (Inr p)
  obtain sk pk where p: "p = (sk, pk)" by (cases p)
  show ?thesis
    using assms [OF Inr]
    by (auto simp: createOperationalKeyRecord_def generateEd25519KeyPair_def wrapped_def preserves_def wp_simps Inr p
        exportPublicKey_def Let_def opkeys_ok_def split: sum.splits option.splits)
qed

lemma preserves_on_vault:
  assumes "\<And>km w w'. I (km, w) \<Longrightarrow> I (km, w')"
  shows "preserves I (on_vault m)"
proof -
  have "wp (on_vault m) (\<lambda>_. I) (km, w)" if "I (km, w)" for km w
    unfolding wp_on_vault using assms [OF that] by (cases "run_state m w") (simp add: wp_def)
  then show ?thesis by (auto simp: preserves_def)
qed

lemma opkeys_world [preserves_intros]: "preserves (opkeys_ok h) (on_vault m)"
  by (rule preserves_on_vault) (simp add: opkeys_ok_def)

lemma rotate_opkeys:
  assumes "\<And>p. pair = Inr p \<Longrightarrow> pair_signs (me_host E) p"
  shows "preserves (opkeys_ok (me_host E)) (rotateOperationalKey E reply pair now i)"
  unfolding rotateOperationalKey_def by (intro preserves_intros record_keeps assms)

lemma rotate_all_opkeys:
  assumes "\<And>i p. pairs i = Inr p \<Longrightarrow> pair_signs (me_host E) p"
  shows "preserves (opkeys_ok (me_host E)) (rotate_all E replies pairs now ids)"
  by (induction ids) (auto intro!: preserves_intros rotate_opkeys assms)

lemma step_opkeys:
  assumes "\<forall>p. Inr p \<in> op_pairs op \<longrightarrow> pair_signs (me_host E) p"
  shows "preserves (opkeys_ok (me_host E)) (manager_step E op)"
proof -
  note defs = admin_signJwt_def createOperationalKey_def rotation_tick_def readAdminInfo_def
    startAutoRotation_def stopAutoRotation_def signWithOperationalKey_def issueCredentialKey_def admin_create_def
    revokeCredentialKey_def signWithCredentialKey_def getOrCreateDbKey_def getOrCreateXmtpIdentityKey_def
    getOrCreateKey_def vaultSet_def vaultGet_def vaultDelete_def initialize_def
  have fresh: "opkeys_ok h (new_key_manager E, w)" for h and w :: 'c
    by (simp add: opkeys_ok_def new_key_manager_def)
  show ?thesis
  proof (cases op)
    case MRestart
    then show ?thesis by (auto simp: restart_def intro!: preserves_modify fresh)
  next
    case (MCreateOperational reply pair now i g)
    with assms show ?thesis by (auto simp: createOperationalKey_def intro!: preserves_intros record_keeps)
  next
    case (MRotate reply pair now i)
    with assms show ?thesis by (auto intro!: preserves_intros rotate_opkeys)
  next
    case (MTick replies pairs now)
    with assms show ?thesis
      by (auto simp: rotation_tick_def intro!: preserves_intros rotate_all_opkeys) (metis rangeI)
  qed (auto simp: defs intro!: preserves_intros elim: opkeys_same)
qed

text \<open>
  C19. In every state a manager reaches, an identity signs with the private key of the public key it
  publishes: whoever imports what \<open>getPublicKey\<close> returns verifies every signature. An identity that
  has no key neither signs nor publishes one, and the group of every listed key leads to a key.
\<close>

theorem operational_signatures_verify:
  assumes "\<forall>op \<in> set ops. \<forall>p. Inr p \<in> op_pairs op \<longrightarrow> pair_signs (me_host E) p"
    and x: "x = manager_run E ops (new_key_manager E, w)"
    and signer: "signer = createSignerProviderCompat E d1 d2 random i"
  shows "(\<forall>signature. fst (run_state (sp_sign signer data) x) = Returned (Inr signature) \<longrightarrow>
      (\<exists>pub k. fst (run_state (sp_getPublicKey signer) x) = Returned (Inr pub)
         \<and> jh_import (kh_jwt (me_host E)) pub = Some k
         \<and> jh_verify (kh_jwt (me_host E)) k signature data = Some True))
    \<and> (map_get (km_opKeys (fst x)) i = None \<longrightarrow>
         fst (run_state (sp_sign signer data) x) = Returned (Inl (NotFoundError ''operational-key'' i))
         \<and> fst (run_state (sp_getPublicKey signer) x) = Returned (Inl (NotFoundError ''operational-key'' i)))
    \<and> (\<forall>key g. key \<in> set (listOperationalKeys (fst x)) \<longrightarrow> ok_groupId key = Some g \<longrightarrow>
         (\<exists>key'. getOperationalKeyByGroupId (fst x) g = Inr key'))"
proof -
  obtain km w' where km: "x = (km, w')" by (cases x)
  have "opkeys_ok (me_host E) (new_key_manager E, w)" by (simp add: opkeys_ok_def new_key_manager_def)
  from manager_run_keeps [where I = "opkeys_ok (me_host E)" and ok = "\<lambda>op. \<forall>p. Inr p \<in> op_pairs op \<longrightarrow> pair_signs (me_host E) p",
      OF step_opkeys this assms(1)]
  have inv: "opkeys_ok (me_host E) (km, w')" by (simp add: x [symmetric] km)
  have "\<exists>pub k. fst (run_state (sp_getPublicKey signer) x) = Returned (Inr pub)
         \<and> jh_import (kh_jwt (me_host E)) pub = Some k
         \<and> jh_verify (kh_jwt (me_host E)) k signature data = Some True"
    if s: "fst (run_state (sp_sign signer data) x) = Returned (Inr signature)" for signature
  proof -
    from s obtain key sk where e: "map_get (km_opKeys km) i = Some (key, sk)"
      and sig: "su_sign (kh_ed25519 (me_host E)) sk data = Inr signature"
      by (auto simp: signer createSignerProviderCompat_def signWithOperationalKey_def state_run_simps km
          signEd25519_def wrapped_def split: option.splits sum.splits)
    from inv e obtain pk pub where "pair_signs (me_host E) (sk, pk)" "kh_export_public (me_host E) pk = Inr pub"
      "ok_publicKey key = bytes_to_hex pub" unfolding opkeys_ok_def prod.case by blast
    moreover from this sig obtain k where "jh_import (kh_jwt (me_host E)) pub = Some k"
      "jh_verify (kh_jwt (me_host E)) k signature data = Some True" by (auto simp: pair_signs_def)
    ultimately show ?thesis
      by (auto simp: signer createSignerProviderCompat_def state_run_simps km getOperationalKey_def e)
  qed
  moreover have "fst (run_state (sp_sign signer data) x) = Returned (Inl (NotFoundError ''operational-key'' i))
         \<and> fst (run_state (sp_getPublicKey signer) x) = Returned (Inl (NotFoundError ''operational-key'' i))"
    if "map_get (km_opKeys (fst x)) i = None"
    using that by (simp add: signer createSignerProviderCompat_def signWithOperationalKey_def state_run_simps km
        getOperationalKey_def)
  moreover have "\<exists>key'. getOperationalKeyByGroupId (fst x) g = Inr key'"
    if listed: "key \<in> set (listOperationalKeys (fst x))" and group: "ok_groupId key = Some g" for key g
  proof -
    obtain sk where "(key, sk) \<in> set (map_values (km_opKeys km))"
      using listed by (auto simp: listOperationalKeys_def km)
    moreover have "map_wf (km_opKeys km)" using inv by (simp add: opkeys_ok_def)
    ultimately have "\<exists>i sk. map_get (km_opKeys km) i = Some (key, sk)" by (auto simp: map_values_iff)
    with inv group obtain i' where "map_get (km_groupIdIndex km) g = Some i'" by (fastforce simp: opkeys_ok_def)
    moreover from this inv have "map_get (km_opKeys km) i' \<noteq> None" by (auto simp: opkeys_ok_def)
    ultimately show ?thesis by (auto simp: getOperationalKeyByGroupId_def getOperationalKey_def km)
  qed
  ultimately show ?thesis by blast
qed

section \<open>Credential keys\<close>

text \<open>The calls that end a credential key, and those that issue one under its id.\<close>

fun ends_key :: "string \<Rightarrow> int \<Rightarrow> ('sk, 'pk) manager_op \<Rightarrow> bool" where
  "ends_key keyId expiry (MRevoke k) \<longleftrightarrow> k = keyId"
| "ends_key keyId expiry (MSignCredential now k data) \<longleftrightarrow> k = keyId \<and> now \<ge> expiry"
| "ends_key keyId expiry MRestart \<longleftrightarrow> True"
| "ends_key keyId expiry _ \<longleftrightarrow> False"

fun issues_key :: "('sk, 'pk) key_host \<Rightarrow> string \<Rightarrow> ('sk, 'pk) manager_op \<Rightarrow> bool" where
  "issues_key h keyId (MIssue pair now c ttl) \<longleftrightarrow>
     (case pair of Inr (sk, pk) \<Rightarrow> (\<exists>fp. fingerprint h pk = Inr fp \<and> keyId = ''credkey-'' @ take 16 fp) | Inl e \<Rightarrow> False)"
| "issues_key h keyId _ \<longleftrightarrow> False"

definition key_is :: "string \<Rightarrow> (credential_key \<times> 'sk) option \<Rightarrow> 'sk key_manager \<times> 'w \<Rightarrow> bool" where
  "key_is keyId e = (\<lambda>(km, w). map_get (km_credentialKeys km) keyId = e)"

lemma key_is_same: "key_is k e (km, w) \<Longrightarrow> km_credentialKeys km' = km_credentialKeys km \<Longrightarrow> key_is k e (km', w')"
  by (simp add: key_is_def)

lemma key_is_world [preserves_intros]: "preserves (key_is k e) (on_vault m)"
  by (rule preserves_on_vault) (simp add: key_is_def)

lemma rotate_key_is: "preserves (key_is k e) (rotateOperationalKey E reply pair now i)"
  unfolding rotateOperationalKey_def createOperationalKeyRecord_def
  by (intro preserves_intros) (erule key_is_same, simp)

lemma rotate_all_key_is: "preserves (key_is k e) (rotate_all E replies pairs now ids)"
  by (induction ids) (auto intro!: preserves_intros rotate_key_is)

lemma issue_key_is:
  assumes "\<not> issues_key (me_host E) k (MIssue pair now c ttl)"
  shows "preserves (key_is k e) (issueCredentialKey E pair now c ttl)"
  using assms
  by (auto simp: issueCredentialKey_def generateEd25519KeyPair_def wrapped_def preserves_def wp_simps key_is_def Let_def
      split: sum.splits prod.splits completion.splits)

lemma step_key_is:
  assumes "\<not> issues_key (me_host E) k op"
    and "case e of None \<Rightarrow> True | Some (key, sk) \<Rightarrow> \<not> ends_key k (ck_expiresAt key) op"
  shows "preserves (key_is k e) (manager_step E op)"
proof -
  note defs = admin_signJwt_def createOperationalKey_def createOperationalKeyRecord_def rotation_tick_def readAdminInfo_def
    startAutoRotation_def stopAutoRotation_def signWithOperationalKey_def admin_create_def
    getOrCreateDbKey_def getOrCreateXmtpIdentityKey_def
    getOrCreateKey_def vaultSet_def vaultGet_def vaultDelete_def initialize_def
  show ?thesis
  proof (cases op)
    case MRestart
    with assms(2) show ?thesis
      by (auto simp: restart_def preserves_def wp_simps key_is_def new_key_manager_def split: option.splits)
  next
    case (MIssue pair now c ttl)
    with assms(1) show ?thesis by (auto intro!: preserves_intros issue_key_is)
  next
    case (MRevoke k')
    with assms(2) show ?thesis
      by (auto simp: revokeCredentialKey_def preserves_def wp_simps key_is_def split: option.splits)
  next
    case (MSignCredential now k' data)
    with assms(2) show ?thesis
      by (auto simp: signWithCredentialKey_def preserves_def wp_simps key_is_def split: option.splits)
  qed (auto simp: defs intro!: preserves_intros rotate_key_is rotate_all_key_is elim: key_is_same)
qed

lemma run_key_is:
  assumes "key_is k e x" and "\<forall>op \<in> set ops. \<not> issues_key (me_host E) k op"
    and "\<forall>op \<in> set ops. case e of None \<Rightarrow> True | Some (key, sk) \<Rightarrow> \<not> ends_key k (ck_expiresAt key) op"
  shows "key_is k e (manager_run E ops x)"
  by (rule manager_run_keeps [where I = "key_is k e" and ok = "\<lambda>op. \<not> issues_key (me_host E) k op
        \<and> (case e of None \<Rightarrow> True | Some (key, sk) \<Rightarrow> \<not> ends_key k (ck_expiresAt key) op)", OF _ assms(1)])
    (use assms(2,3) in \<open>auto intro: step_key_is\<close>)

lemma ended:
  assumes "key_is k (Some (key, sk)) x" and "ends_key k (ck_expiresAt key) op"
  shows "key_is k None (snd (run_state (manager_step E op) x))"
  using assms
  by (cases op; cases x)
    (auto simp: key_is_def revokeCredentialKey_def signWithCredentialKey_def restart_def ignore_def state_run_simps
      local_modify_def modify_def ok_unit_def new_key_manager_def)

lemma sign_answer_is:
  assumes "key_is k e x"
  shows "fst (run_state (signWithCredentialKey E now k data) x) =
    Returned (case e of None \<Rightarrow> Inl (NotFoundError ''credential-key'' k)
      | Some (key, sk) \<Rightarrow> if now \<ge> ck_expiresAt key then Inl (NotFoundError ''credential-key'' k)
                          else signEd25519 (me_host E) sk data)"
  using assms
  by (cases x) (auto simp: key_is_def signWithCredentialKey_def state_run_simps split: option.splits prod.splits)

text \<open>
  C21. A credential key signs until it ends and never after: while it is neither revoked, nor used
  at or after its expiry, nor lost in a restart, it signs with its own private key before its
  expiry; from then on every use is refused as not found, whatever the clock says and whatever
  else is called, until a key is issued under the same id.
\<close>

theorem credential_keys_end:
  assumes key: "map_get (km_credentialKeys (fst x)) keyId = Some (key, sk)"
    and ops: "\<forall>op \<in> set ops. \<not> issues_key (me_host E) keyId op"
  shows "(\<forall>op. ends_key keyId (ck_expiresAt key) op \<longrightarrow>
       fst (run_state (signWithCredentialKey E now keyId data) (manager_run E (op # ops) x))
         = Returned (Inl (NotFoundError ''credential-key'' keyId)))
    \<and> ((\<forall>op \<in> set ops. \<not> ends_key keyId (ck_expiresAt key) op) \<longrightarrow>
       fst (run_state (signWithCredentialKey E now keyId data) (manager_run E ops x))
         = Returned (if now \<ge> ck_expiresAt key then Inl (NotFoundError ''credential-key'' keyId)
                     else signEd25519 (me_host E) sk data))"
proof -
  have alive: "key_is keyId (Some (key, sk)) x" using key by (cases x) (simp add: key_is_def)
  have "fst (run_state (signWithCredentialKey E now keyId data) (manager_run E (op # ops) x))
         = Returned (Inl (NotFoundError ''credential-key'' keyId))" if "ends_key keyId (ck_expiresAt key) op" for op
    using sign_answer_is [OF run_key_is [OF ended [OF alive that] ops]] by simp
  moreover have "fst (run_state (signWithCredentialKey E now keyId data) (manager_run E ops x))
         = Returned (if now \<ge> ck_expiresAt key then Inl (NotFoundError ''credential-key'' keyId)
                     else signEd25519 (me_host E) sk data)"
    if "\<forall>op \<in> set ops. \<not> ends_key keyId (ck_expiresAt key) op"
    using sign_answer_is [OF run_key_is [OF alive ops], of E now data] that by (simp split: if_splits)
  ultimately show ?thesis by blast
qed

section \<open>Demonstrations\<close>

definition demo_key_host :: "(8 word list, 8 word list) key_host" where
  "demo_key_host =
     (let s = \<lparr>su_name = ''Ed25519'', su_sign = (\<lambda>k d. Inr (k @ d)), su_verify = (\<lambda>k sg d. Inr (sg = k @ d)), su_import = Inr\<rparr> in
      \<lparr>kh_ed25519 = s, kh_p256 = s, kh_export_public = Inr, kh_export_private = Inr, kh_digest = Inr,
       kh_jwt = \<lparr>jh_decode = vh_decode vault_demo_host, jh_parse = vh_parse vault_demo_host, jh_import = Some,
                 jh_verify = (\<lambda>k sg d. Some (sg = k @ d)), jh_sign = (\<lambda>k d. Inr (k @ d))\<rparr>\<rparr>)"

lemma demo_host_fields [simp]:
  "su_sign (kh_ed25519 demo_key_host) k d = Inr (k @ d)" "su_import (kh_ed25519 demo_key_host) = Inr"
  "kh_export_public demo_key_host = Inr" "kh_export_private demo_key_host = Inr" "kh_digest demo_key_host = Inr"
  "jh_import (kh_jwt demo_key_host) = Some" "jh_verify (kh_jwt demo_key_host) k sg d = Some (sg = k @ d)"
  by (simp_all add: demo_key_host_def Let_def)

lemma demo_host_ok: "pair_signs demo_key_host (k, k)" "key_kept demo_key_host k" "jwt_text_ok (kh_jwt demo_key_host)"
proof -
  show "pair_signs demo_key_host (k, k)" by (simp add: pair_signs_def)
  show "key_kept demo_key_host k" by (simp add: key_kept_def)
  show "jwt_text_ok (kh_jwt demo_key_host)"
    using host_okD(3,4) [OF vault_demo_ok] by (simp add: jwt_text_ok_def demo_key_host_def Let_def)
qed

definition demo_env :: "(8 word list, 8 word list, fs \<times> fs) manager_env" where
  "demo_env = \<lparr>me_host = demo_key_host,
     me_kv = createCompatSecretStore vault_demo_host ''/d'' (file_vault vault_demo_host ''/d'' [9]),
     me_config = \<lparr>kc_dataDir = ''/d'', kc_rootKeyPolicy = PolicyBiometric, kc_operationalKeyPolicy = PolicyOpen,
       kc_vaultKeyPolicy = PolicyOpen, kc_biometricGating = (\<lambda>_. False), kc_rotationIntervalSeconds = 86400\<rparr>,
     me_platform = SoftwareVault\<rparr>"

definition demo_map :: "string \<Rightarrow> 8 word list option" where
  "demo_map = legacy_map vault_demo_host ''/d'' demo_legacy ++ vv_secrets empty_view"

lemma demo_env_fields [simp]:
  "me_host demo_env = demo_key_host"
  "me_kv demo_env = createCompatSecretStore vault_demo_host ''/d'' (file_vault vault_demo_host ''/d'' [9])"
  by (simp_all add: demo_env_def)

lemma demo_rep: "compat_rep vault_demo_host ''/d'' (file_keeps vault_demo_host ''/d'' [9]) (demo_legacy, demo_disk) demo_map"
  using file_keeps_fresh [OF vault_demo_ok vault_demo_key demo_disk_fresh] demo_legacy_ok vault_demo_ok
  by (auto simp: compat_rep_def demo_map_def)

lemma demo_draws [simp]: "length (dr_iv demo_draw) = IV_BYTES"
  by (simp add: demo_draw_def IV_BYTES_def)



lemma operational_signatures_verify_witness:
  "\<exists>signature pub k.
     fst (run_state (sp_sign (createSignerProviderCompat demo_env demo_draw demo_draw [] ''i'') [5])
       (manager_run demo_env [MCreateOperational (Answered (Inr ())) (Inr ([3], [3])) 0 ''i'' (Some ''g'')]
         (new_key_manager demo_env, demo_legacy, demo_disk))) = Returned (Inr signature)
     \<and> fst (run_state (sp_getPublicKey (createSignerProviderCompat demo_env demo_draw demo_draw [] ''i''))
       (manager_run demo_env [MCreateOperational (Answered (Inr ())) (Inr ([3], [3])) 0 ''i'' (Some ''g'')]
         (new_key_manager demo_env, demo_legacy, demo_disk))) = Returned (Inr pub)
     \<and> jh_import (kh_jwt demo_key_host) pub = Some k \<and> jh_verify (kh_jwt demo_key_host) k signature [5] = Some True"
proof -
  let ?ops = "[MCreateOperational (Answered (Inr ())) (Inr ([3], [3])) 0 ''i'' (Some ''g'')] :: (8 word list, 8 word list) manager_op list"
  let ?x = "manager_run demo_env ?ops (new_key_manager demo_env, demo_legacy, demo_disk)"
  let ?s = "createSignerProviderCompat demo_env demo_draw demo_draw [] ''i''"
  have "fst (run_state (sp_sign ?s [5]) ?x) = Returned (Inr ([3] @ [5]))"
    by (simp add: createSignerProviderCompat_def signWithOperationalKey_def createOperationalKey_def gate_def
        createBiometricGate_def demo_env_def createOperationalKeyRecord_def generateEd25519KeyPair_def wrapped_def
        exportPublicKey_def fingerprint_def ignore_def then_ok_def state_run_simps succeeds_def local_modify_def modify_def
        Let_def signEd25519_def new_key_manager_def)
  with operational_signatures_verify [of ?ops demo_env ?x "(demo_legacy, demo_disk)" ?s demo_draw demo_draw "[]" "''i''" "[5]"]
    demo_host_ok(1) show ?thesis by fastforce
qed

lemma demo_issue:
  "key_is ''credkey-07'' (Some (\<lparr>ck_keyId = ''credkey-07'', ck_credentialId = ''c'', ck_fingerprint = ''07'',
        ck_expiresAt = 5000, ck_createdAt = 0\<rparr>, [7]))
     (manager_run demo_env [MIssue (Inr ([7], [7])) 0 ''c'' 5] (new_key_manager demo_env, demo_legacy, demo_disk))"
proof -
  have "bytes_to_hex [7] = ''07''" by code_simp
  then show ?thesis
    by (simp add: issueCredentialKey_def generateEd25519KeyPair_def wrapped_def exportPublicKey_def fingerprint_def
        ignore_def then_ok_def state_run_simps succeeds_def local_modify_def modify_def Let_def key_is_def to_iso_def
        max_date_ms_def new_key_manager_def)
qed

lemma credential_keys_end_witness:
  "\<exists>x. fst (run_state (signWithCredentialKey demo_env 4999 ''credkey-07'' [1]) (manager_run demo_env [MStartRotation] x))
         = Returned (Inr ([7] @ [1]))
     \<and> fst (run_state (signWithCredentialKey demo_env 4999 ''credkey-07'' [1])
           (manager_run demo_env [MSignCredential 5000 ''credkey-07'' [], MStartRotation] x))
         = Returned (Inl (NotFoundError ''credential-key'' ''credkey-07''))"
proof -
  let ?x = "manager_run demo_env [MIssue (Inr ([7], [7])) 0 ''c'' 5] (new_key_manager demo_env, demo_legacy, demo_disk)"
  let ?key = "\<lparr>ck_keyId = ''credkey-07'', ck_credentialId = ''c'', ck_fingerprint = ''07'', ck_expiresAt = 5000, ck_createdAt = 0\<rparr>"
  have "map_get (km_credentialKeys (fst ?x)) ''credkey-07'' = Some (?key, [7])"
    using demo_issue by (cases ?x) (simp add: key_is_def)
  from credential_keys_end [OF this, of "[MStartRotation]" demo_env 4999 "[1]"]
  have "(\<forall>op. ends_key ''credkey-07'' 5000 op \<longrightarrow>
       fst (run_state (signWithCredentialKey demo_env 4999 ''credkey-07'' [1]) (manager_run demo_env (op # [MStartRotation]) ?x))
         = Returned (Inl (NotFoundError ''credential-key'' ''credkey-07'')))
    \<and> fst (run_state (signWithCredentialKey demo_env 4999 ''credkey-07'' [1]) (manager_run demo_env [MStartRotation] ?x))
         = Returned (Inr ([7] @ [1]))"
    by (simp add: signEd25519_def wrapped_def)
  moreover have "ends_key ''credkey-07'' 5000 (MSignCredential 5000 ''credkey-07'' [])" by simp
  ultimately show ?thesis by blast
qed

text \<open>The group index is never cleaned: a group an identity has left still leads to its key.\<close>

lemma left_group_still_found:
  "\<exists>key. getOperationalKeyByGroupId (fst (manager_run demo_env
       [MCreateOperational (Answered (Inr ())) (Inr ([3], [3])) 0 ''i'' (Some ''g''),
        MCreateOperational (Answered (Inr ())) (Inr ([4], [4])) 0 ''i'' (Some ''h'')]
       (new_key_manager demo_env, demo_legacy, demo_disk))) ''g'' = Inr key \<and> ok_groupId key = Some ''h''"
  by (simp add: createOperationalKey_def gate_def createBiometricGate_def demo_env_def createOperationalKeyRecord_def
      generateEd25519KeyPair_def wrapped_def exportPublicKey_def fingerprint_def ignore_def then_ok_def state_run_simps
      succeeds_def local_modify_def modify_def Let_def new_key_manager_def getOperationalKeyByGroupId_def
      getOperationalKey_def)

end
