(* ===== verification/SdkHandler.thy ===== *)
theory SdkHandler
  imports Errors Json
begin

text \<open>
  The client side of the event connection (packages/sdk/src/handler.ts with event-stream.ts,
  request-tracker.ts, reconnection.ts and heartbeat-monitor.ts): a handler that authenticates over
  a WebSocket, hands events to its consumer in order, matches responses to requests, and connects
  again after a loss.

  The handler is a state machine over what happens outside: calls of the client, events of the
  sockets, and timers that fire. Sockets, monitors and pulls of the stream are numbered in the
  order they are made. What the handler sends, closes and reports is logged in the state. A
  listener that throws leaves the state as it is at that point. The fields the code casts to a
  type are taken to have it. Random jitter is an argument.
\<close>

section \<open>The event stream\<close>

text \<open>\<open>es_answers\<close> are the pulls that were answered, with an event or the end (\<open>None\<close>).\<close>

record event_stream =
  es_buffer :: "json list"
  es_done :: bool
  es_waiter :: "nat option"
  es_pulls :: nat
  es_answers :: "(nat \<times> json option) list"

definition createEventStream :: event_stream where
  "createEventStream = \<lparr>es_buffer = [], es_done = False, es_waiter = None, es_pulls = 0, es_answers = []\<rparr>"

definition stream_push :: "json \<Rightarrow> event_stream \<Rightarrow> event_stream" where
  "stream_push event s =
     (if es_done s then s
      else case es_waiter s of
        Some n \<Rightarrow> s\<lparr>es_waiter := None, es_answers := es_answers s @ [(n, Some event)]\<rparr>
      | None \<Rightarrow> s\<lparr>es_buffer := es_buffer s @ [event]\<rparr>)"

definition stream_complete :: "event_stream \<Rightarrow> event_stream" where
  "stream_complete s =
     (case es_waiter s of
        Some n \<Rightarrow> s\<lparr>es_done := True, es_waiter := None, es_answers := es_answers s @ [(n, None)]\<rparr>
      | None \<Rightarrow> s\<lparr>es_done := True\<rparr>)"

text \<open>\<open>next()\<close>. A pull that waits replaces the one that waited before it.\<close>

definition stream_next :: "event_stream \<Rightarrow> event_stream" where
  "stream_next s =
     (let n = es_pulls s; s = s\<lparr>es_pulls := n + 1\<rparr> in
      case es_buffer s of
        event # rest \<Rightarrow> s\<lparr>es_buffer := rest, es_answers := es_answers s @ [(n, Some event)]\<rparr>
      | [] \<Rightarrow> if es_done s then s\<lparr>es_answers := es_answers s @ [(n, None)]\<rparr>
              else s\<lparr>es_waiter := Some n\<rparr>)"

section \<open>The request tracker\<close>

text \<open>A context a response carries is passed on with its error.\<close>

type_synonym sdk_error = "signet_error \<times> json option"
type_synonym 'a sdk_result = "sdk_error + 'a"

record request_tracker =
  rt_pending :: "string list"
  rt_settled :: "(string \<times> json option sdk_result) list"

definition createRequestTracker :: request_tracker where
  "createRequestTracker = \<lparr>rt_pending = [], rt_settled = []\<rparr>"

text \<open>\<open>pending.set\<close>: an id that is pending keeps its place.\<close>

definition tracker_track :: "string \<Rightarrow> request_tracker \<Rightarrow> request_tracker" where
  "tracker_track i t = (if i \<in> set (rt_pending t) then t else t\<lparr>rt_pending := rt_pending t @ [i]\<rparr>)"

definition tracker_resolve :: "string \<Rightarrow> json option sdk_result \<Rightarrow> request_tracker \<Rightarrow> request_tracker" where
  "tracker_resolve i r t =
     (if i \<notin> set (rt_pending t) then t
      else t\<lparr>rt_pending := removeAll i (rt_pending t), rt_settled := rt_settled t @ [(i, r)]\<rparr>)"

definition tracker_timeout :: "int \<Rightarrow> string \<Rightarrow> request_tracker \<Rightarrow> request_tracker" where
  "tracker_timeout timeoutMs i t = tracker_resolve i (Inl (TimeoutError ''request'' timeoutMs, None)) t"

definition tracker_rejectAll :: "signet_error \<Rightarrow> request_tracker \<Rightarrow> request_tracker" where
  "tracker_rejectAll e t =
     t\<lparr>rt_pending := [], rt_settled := rt_settled t @ map (\<lambda>i. (i, Inl (e, None))) (rt_pending t)\<rparr>"

section \<open>Reconnection\<close>

definition NON_RETRYABLE_CODES :: "int list" where
  "NON_RETRYABLE_CODES = [4001, 4002, 4004, 4009]"

definition isRetryable :: "int \<Rightarrow> bool" where
  "isRetryable code \<longleftrightarrow> code \<notin> set NON_RETRYABLE_CODES"

record reconnect_config =
  rc_enabled :: bool
  rc_maxAttempts :: nat
  rc_baseDelayMs :: int
  rc_maxDelayMs :: int
  rc_jitter :: bool

text \<open>\<open>draw\<close> stands for the random fraction: the delay is any value up to the cap.\<close>

definition calculateDelay :: "nat \<Rightarrow> reconnect_config \<Rightarrow> int \<Rightarrow> int" where
  "calculateDelay attempt config draw =
     (let exponential = rc_baseDelayMs config * 2 ^ attempt;
          capped = min exponential (rc_maxDelayMs config) in
      if rc_jitter config then draw mod (capped + 1) else capped)"

definition tracker_exhausted :: "reconnect_config \<Rightarrow> nat \<Rightarrow> bool" where
  "tracker_exhausted config attempt \<longleftrightarrow> rc_maxAttempts config \<noteq> 0 \<and> attempt \<ge> rc_maxAttempts config"

section \<open>The heartbeat monitor\<close>

record heartbeat_monitor =
  hb_callback :: bool
  hb_timer :: bool

definition createHeartbeatMonitor :: heartbeat_monitor where
  "createHeartbeatMonitor = \<lparr>hb_callback = False, hb_timer = False\<rparr>"

definition monitor_resetTimer :: "heartbeat_monitor \<Rightarrow> heartbeat_monitor" where
  "monitor_resetTimer m = m\<lparr>hb_timer := hb_callback m\<rparr>"

definition monitor_start :: "heartbeat_monitor \<Rightarrow> heartbeat_monitor" where
  "monitor_start m = monitor_resetTimer (m\<lparr>hb_callback := True\<rparr>)"

definition monitor_stop :: "heartbeat_monitor \<Rightarrow> heartbeat_monitor" where
  "monitor_stop m = m\<lparr>hb_callback := False, hb_timer := False\<rparr>"

section \<open>State\<close>

datatype handler_state = Disconnected | Connecting | Authenticating | Connected | Reconnecting | Closed

record sdk_credential =
  ci_connectionId :: string
  ci_credentialId :: string
  ci_operatorId :: string
  ci_scopes :: json
  ci_expiresAt :: string

text \<open>The closure of one connection: whether the authentication was handled, whether its timer runs,
  the phase of the socket (no message arrives before it opens or once it is closing), and what the
  promise was resolved with.\<close>

datatype phase = Opening | Open | Closing | Gone

record socket =
  so_authHandled :: bool
  so_authTimer :: bool
  so_phase :: phase
  so_answer :: "unit sdk_result option"

text \<open>The last field is the host's: whether \<open>new WebSocket\<close> takes an address.\<close>

record sdk_config =
  sc_url :: string
  sc_token :: string
  sc_reconnect :: reconnect_config
  sc_requestTimeoutMs :: int
  sc_opens :: "string \<Rightarrow> bool"

text \<open>The schema of the configuration. \<open>is_url\<close> is zod's.\<close>

definition with_default :: "'a \<Rightarrow> (json \<Rightarrow> 'a option) \<Rightarrow> (string \<times> json) list \<Rightarrow> string \<Rightarrow> 'a option" where
  "with_default deflt parse fs key = (case map_of fs key of None \<Rightarrow> Some deflt | Some v \<Rightarrow> parse v)"

fun flag :: "json \<Rightarrow> bool option" where
  "flag (JBool b) = Some b"
| "flag _ = None"

fun number_from :: "int \<Rightarrow> json \<Rightarrow> int option" where
  "number_from least (JNum n) = (if n \<ge> least then Some n else None)"
| "number_from least _ = None"

fun text_where :: "(string \<Rightarrow> bool) \<Rightarrow> json option \<Rightarrow> string option" where
  "text_where ok (Some (JStr s)) = (if ok s then Some s else None)"
| "text_where ok _ = None"

fun parse_reconnect :: "json \<Rightarrow> reconnect_config option" where
  "parse_reconnect (JObj fs) =
     (case (with_default True flag fs ''enabled'', with_default 10 (number_from 0) fs ''maxAttempts'',
            with_default 1000 (number_from 1) fs ''baseDelayMs'', with_default 30000 (number_from 1) fs ''maxDelayMs'',
            with_default True flag fs ''jitter'') of
        (Some enabled, Some attempts, Some base, Some most, Some jitter) \<Rightarrow>
          Some \<lparr>rc_enabled = enabled, rc_maxAttempts = nat attempts, rc_baseDelayMs = base, rc_maxDelayMs = most,
            rc_jitter = jitter\<rparr>
      | _ \<Rightarrow> None)"
| "parse_reconnect _ = None"

fun parse_handler_config :: "(string \<Rightarrow> bool) \<Rightarrow> (string \<Rightarrow> bool) \<Rightarrow> json \<Rightarrow> sdk_config option" where
  "parse_handler_config is_url opens (JObj fs) =
     (case (text_where is_url (map_of fs ''url''), text_where (\<lambda>s. s \<noteq> []) (map_of fs ''token''),
            parse_reconnect (case map_of fs ''reconnect'' of None \<Rightarrow> JObj [] | Some v \<Rightarrow> v),
            with_default 30000 (number_from 1) fs ''requestTimeoutMs'') of
        (Some url, Some token, Some reconnect, Some timeoutMs) \<Rightarrow>
          Some \<lparr>sc_url = url, sc_token = token, sc_reconnect = reconnect, sc_requestTimeoutMs = timeoutMs,
            sc_opens = opens\<rparr>
      | _ \<Rightarrow> None)"
| "parse_handler_config is_url opens _ = None"

record sdk_handler =
  sh_state :: handler_state
  sh_ws :: "nat option"
  sh_sockets :: "socket list"
  sh_credential :: "sdk_credential option"
  sh_lastSeenSeq :: "int option"
  sh_stream :: event_stream
  sh_tracker :: request_tracker
  sh_monitors :: "heartbeat_monitor list"
  sh_attempt :: nat
  sh_timers :: "int list"
  sh_transitions :: "(handler_state \<times> handler_state) list"
  sh_errors :: "sdk_error list"
  sh_sent :: "(nat \<times> json) list"
  sh_closes :: "(nat \<times> int) list"

text \<open>A stream that a connect replaces is forgotten.\<close>

definition createSignetHandler :: sdk_handler where
  "createSignetHandler =
     \<lparr>sh_state = Disconnected, sh_ws = None, sh_sockets = [], sh_credential = None, sh_lastSeenSeq = None,
      sh_stream = createEventStream, sh_tracker = createRequestTracker, sh_monitors = [], sh_attempt = 0,
      sh_timers = [], sh_transitions = [], sh_errors = [], sh_sent = [], sh_closes = []\<rparr>"

definition setState :: "handler_state \<Rightarrow> sdk_handler \<Rightarrow> sdk_handler" where
  "setState new h =
     (if sh_state h = new then h
      else h\<lparr>sh_state := new, sh_transitions := sh_transitions h @ [(new, sh_state h)]\<rparr>)"

definition emitError :: "sdk_error \<Rightarrow> sdk_handler \<Rightarrow> sdk_handler" where
  "emitError e h = h\<lparr>sh_errors := sh_errors h @ [e]\<rparr>"

definition plain_error :: "signet_error \<Rightarrow> sdk_error" where
  "plain_error e = (e, None)"

text \<open>The monitor in use is the last one made.\<close>

definition on_monitor :: "(heartbeat_monitor \<Rightarrow> heartbeat_monitor) \<Rightarrow> sdk_handler \<Rightarrow> sdk_handler" where
  "on_monitor f h =
     (if sh_monitors h = [] then h
      else h\<lparr>sh_monitors := butlast (sh_monitors h) @ [f (List.last (sh_monitors h))]\<rparr>)"

definition on_socket :: "nat \<Rightarrow> (socket \<Rightarrow> socket) \<Rightarrow> sdk_handler \<Rightarrow> sdk_handler" where
  "on_socket n f h = h\<lparr>sh_sockets := (sh_sockets h)[n := f (sh_sockets h ! n)]\<rparr>"

text \<open>A promise is resolved once.\<close>

definition resolve :: "nat \<Rightarrow> unit sdk_result \<Rightarrow> sdk_handler \<Rightarrow> sdk_handler" where
  "resolve n r = on_socket n (\<lambda>c. c\<lparr>so_answer := (case so_answer c of None \<Rightarrow> Some r | Some a \<Rightarrow> Some a)\<rparr>)"

definition on_stream :: "(event_stream \<Rightarrow> event_stream) \<Rightarrow> sdk_handler \<Rightarrow> sdk_handler" where
  "on_stream f h = h\<lparr>sh_stream := f (sh_stream h)\<rparr>"

definition on_tracker :: "(request_tracker \<Rightarrow> request_tracker) \<Rightarrow> sdk_handler \<Rightarrow> sdk_handler" where
  "on_tracker f h = h\<lparr>sh_tracker := f (sh_tracker h)\<rparr>"

section \<open>Losing a connection\<close>

definition attemptReconnect :: "sdk_config \<Rightarrow> int \<Rightarrow> sdk_handler \<Rightarrow> sdk_handler" where
  "attemptReconnect config draw h =
     (let rc = sc_reconnect config in
      if \<not> rc_enabled rc then on_stream stream_complete (setState Disconnected h)
      else if tracker_exhausted rc (sh_attempt h)
      then on_stream stream_complete (setState Disconnected
             (emitError (plain_error (InternalError ''Max reconnection attempts exceeded'' None)) h))
      else let h = setState Reconnecting h in
           h\<lparr>sh_attempt := sh_attempt h + 1, sh_timers := sh_timers h @ [calculateDelay (sh_attempt h) rc draw]\<rparr>)"

text \<open>Closing a socket asks for it; its close event comes later.\<close>

definition close_socket :: "nat \<Rightarrow> int \<Rightarrow> sdk_handler \<Rightarrow> sdk_handler" where
  "close_socket n code h =
     on_socket n (\<lambda>c. c\<lparr>so_phase := (if so_phase c = Gone then Gone else Closing)\<rparr>)
       (h\<lparr>sh_closes := sh_closes h @ [(n, code)]\<rparr>)"

definition handleConnectionDead :: "sdk_config \<Rightarrow> int \<Rightarrow> sdk_handler \<Rightarrow> sdk_handler" where
  "handleConnectionDead config draw h =
     (let h = on_monitor monitor_stop h in
      case sh_ws h of
        Some n \<Rightarrow> close_socket n 1005 h
      | None \<Rightarrow> attemptReconnect config draw h)"

section \<open>Frames\<close>

definition str_of :: "json option \<Rightarrow> string" where
  "str_of v = (case v of Some (JStr s) \<Rightarrow> s | _ \<Rightarrow> [])"

definition num_of :: "json option \<Rightarrow> int" where
  "num_of v = (case v of Some (JNum n) \<Rightarrow> n | _ \<Rightarrow> 0)"

definition sub_fields :: "(string \<times> json) list \<Rightarrow> string \<Rightarrow> (string \<times> json) list" where
  "sub_fields fs key = (case map_of fs key of Some (JObj gs) \<Rightarrow> gs | _ \<Rightarrow> [])"

definition truthy :: "json option \<Rightarrow> bool" where
  "truthy v = (case v of None \<Rightarrow> False | Some JNull \<Rightarrow> False | Some (JBool b) \<Rightarrow> b | Some (JNum n) \<Rightarrow> n \<noteq> 0
     | Some (JStr s) \<Rightarrow> s \<noteq> [] | Some _ \<Rightarrow> True)"

text \<open>\<open>value ?? undefined\<close>.\<close>

definition present :: "json option \<Rightarrow> json option" where
  "present v = (if v = Some JNull then None else v)"

definition response_error :: "(string \<times> json) list \<Rightarrow> sdk_error" where
  "response_error fs =
     (let err = sub_fields fs ''error'';
          errMsg = (case present (map_of err ''message'') of None \<Rightarrow> ''Request failed'' | v \<Rightarrow> str_of v);
          errCtx = present (map_of err ''context'');
          category = map_of err ''category'' in
      if category = Some (JStr ''auth'') then (AuthError errMsg None, errCtx)
      else if category = Some (JStr ''validation'') then (ValidationError ''response'' errMsg [], None)
      else if category = Some (JStr ''not_found'') then (NotFoundError ''resource'' errMsg, None)
      else if category = Some (JStr ''permission'') then (PermissionError errMsg None, errCtx)
      else (InternalError errMsg None, errCtx))"

definition backpressure_error :: "(string \<times> json) list \<Rightarrow> sdk_error" where
  "backpressure_error fs =
     (let buffered = num_of (map_of fs ''buffered''); limit = num_of (map_of fs ''limit'') in
      (InternalError (''Backpressure: '' @ show_int buffered @ ''/'' @ show_int limit @ '' buffered'')
         (Some [(''buffered'', CtxNum buffered), (''limit'', CtxNum limit)]), None))"

definition has_field :: "(string \<times> json) list \<Rightarrow> string \<Rightarrow> bool" where
  "has_field fs key \<longleftrightarrow> map_of fs key \<noteq> None"

fun is_heartbeat :: "json \<Rightarrow> bool" where
  "is_heartbeat (JObj fs) \<longleftrightarrow> map_of fs ''type'' = Some (JStr ''heartbeat'')"
| "is_heartbeat _ \<longleftrightarrow> False"

text \<open>A frame that is no object: reading or testing a property of it throws, or finds nothing.\<close>

definition handleFrame :: "json option \<Rightarrow> sdk_handler \<Rightarrow> sdk_handler" where
  "handleFrame parsed h =
     (case parsed of
        None \<Rightarrow> emitError (plain_error (ValidationError ''frame'' ''Invalid JSON from signet'' [])) h
      | Some (JObj fs) \<Rightarrow>
          if map_of fs ''type'' = Some (JStr ''backpressure'') then emitError (backpressure_error fs) h
          else if has_field fs ''requestId'' \<and> has_field fs ''ok'' then
            on_tracker (tracker_resolve (str_of (map_of fs ''requestId''))
              (if truthy (map_of fs ''ok'') then Inr (map_of fs ''data'') else Inl (response_error fs))) h
          else if has_field fs ''seq'' \<and> has_field fs ''event'' then
            (let event = the (map_of fs ''event'');
                 h = h\<lparr>sh_lastSeenSeq := Some (num_of (map_of fs ''seq''))\<rparr>;
                 h = (if is_heartbeat event then on_monitor monitor_resetTimer h else h) in
             on_stream (stream_push event) h)
          else h
      | Some _ \<Rightarrow> h)"

section \<open>Connecting\<close>

text \<open>\<open>new WebSocket\<close> throws when the address is none of a socket; \<open>None\<close>.\<close>

definition connectInternal :: "sdk_config \<Rightarrow> sdk_handler \<Rightarrow> bool \<times> sdk_handler" where
  "connectInternal config h =
     (let h = setState Connecting h in
      if \<not> sc_opens config (sc_url config) then (False, h)
      else (True, h\<lparr>sh_ws := Some (length (sh_sockets h)),
        sh_sockets := sh_sockets h @ [\<lparr>so_authHandled = False, so_authTimer = True, so_phase = Opening, so_answer = None\<rparr>]\<rparr>))"

definition auth_handled :: "nat \<Rightarrow> sdk_handler \<Rightarrow> sdk_handler" where
  "auth_handled n = on_socket n (\<lambda>c. c\<lparr>so_authHandled := True\<rparr>)"

definition clear_auth_timer :: "nat \<Rightarrow> sdk_handler \<Rightarrow> sdk_handler" where
  "clear_auth_timer n = on_socket n (\<lambda>c. c\<lparr>so_authTimer := False\<rparr>)"

definition authTimeout_fires :: "sdk_config \<Rightarrow> nat \<Rightarrow> sdk_handler \<Rightarrow> sdk_handler" where
  "authTimeout_fires config n h =
     (let c = sh_sockets h ! n; h = clear_auth_timer n h in
      if so_authHandled c then h
      else resolve n (Inl (plain_error (InternalError
               (''Auth response not received within '' @ show_int (sc_requestTimeoutMs config) @ ''ms'') None)))
             (setState Closed (close_socket n 4000 (auth_handled n h))))"

definition sdk_auth_frame :: "sdk_config \<Rightarrow> int option \<Rightarrow> json" where
  "sdk_auth_frame config lastSeenSeq =
     JObj [(''type'', JStr ''auth''), (''token'', JStr (sc_token config)),
       (''lastSeenSeq'', (case lastSeenSeq of None \<Rightarrow> JNull | Some n \<Rightarrow> JNum n))]"

definition socket_open :: "sdk_config \<Rightarrow> nat \<Rightarrow> sdk_handler \<Rightarrow> sdk_handler" where
  "socket_open config n h =
     (let h = setState Authenticating (on_socket n (\<lambda>c. c\<lparr>so_phase := Open\<rparr>) h) in
      h\<lparr>sh_sent := sh_sent h @ [(n, sdk_auth_frame config (sh_lastSeenSeq h))]\<rparr>)"

definition credential_of_frame :: "(string \<times> json) list \<Rightarrow> sdk_credential" where
  "credential_of_frame fs =
     (let c = sub_fields fs ''credential'' in
      \<lparr>ci_connectionId = str_of (map_of fs ''connectionId''), ci_credentialId = str_of (map_of c ''credentialId''),
       ci_operatorId = str_of (map_of c ''operatorId''), ci_scopes = JObj (sub_fields fs ''effectiveScopes''),
       ci_expiresAt = str_of (map_of c ''expiresAt'')\<rparr>)"

text \<open>Without a credential the listener throws after it has stopped the timer.\<close>

definition authenticated :: "nat \<Rightarrow> (string \<times> json) list \<Rightarrow> sdk_handler \<Rightarrow> sdk_handler" where
  "authenticated n fs h =
     (let h = clear_auth_timer n (auth_handled n h) in
      if present (map_of fs ''credential'') = None then h
      else let h = h\<lparr>sh_credential := Some (credential_of_frame fs),
                      sh_monitors := sh_monitors h @ [monitor_start createHeartbeatMonitor],
                      sh_attempt := 0\<rparr> in
           resolve n (Inr ()) (setState Connected h))"

definition auth_refused :: "nat \<Rightarrow> (string \<times> json) list \<Rightarrow> sdk_handler \<Rightarrow> sdk_handler" where
  "auth_refused n fs h =
     resolve n (Inl (AuthError (str_of (map_of fs ''message'')) (Some [(''code'', CtxNum (num_of (map_of fs ''code'')))]), None))
       (setState Closed (clear_auth_timer n (auth_handled n h)))"

definition socket_message :: "nat \<Rightarrow> json option \<Rightarrow> sdk_handler \<Rightarrow> sdk_handler" where
  "socket_message n parsed h =
     (if so_authHandled (sh_sockets h ! n) then handleFrame parsed h
      else case parsed of
        None \<Rightarrow>
          resolve n (Inl (plain_error (AuthError ''Invalid auth response from signet'' None)))
            (setState Closed (clear_auth_timer n h))
      | Some (JObj fs) \<Rightarrow>
          if map_of fs ''type'' = Some (JStr ''authenticated'') then authenticated n fs h
          else if map_of fs ''type'' = Some (JStr ''auth_error'') then auth_refused n fs h
          else h
      | Some _ \<Rightarrow> h)"

definition close_during_auth :: "sdk_config \<Rightarrow> int \<Rightarrow> nat \<Rightarrow> int \<Rightarrow> string \<Rightarrow> sdk_handler \<Rightarrow> sdk_handler" where
  "close_during_auth config draw n code reason h =
     (let h = clear_auth_timer n (auth_handled n h) in
      if \<not> isRetryable code then
        resolve n (Inl (plain_error (AuthError (if reason = [] then ''Connection closed during auth'' else reason) None)))
          (setState Closed h)
      else
        resolve n (Inl (plain_error (InternalError ''Connection lost during auth'' None)))
          (attemptReconnect config draw (on_tracker (tracker_rejectAll (InternalError ''Connection lost'' None)) h)))"

definition socket_close :: "sdk_config \<Rightarrow> int \<Rightarrow> nat \<Rightarrow> int \<Rightarrow> string \<Rightarrow> sdk_handler \<Rightarrow> sdk_handler" where
  "socket_close config draw n code reason h =
     (let h = on_monitor monitor_stop (on_socket n (\<lambda>c. c\<lparr>so_phase := Gone\<rparr>) h) in
      if \<not> so_authHandled (sh_sockets h ! n) then close_during_auth config draw n code reason h
      else let h = on_tracker (tracker_rejectAll (InternalError ''Connection closed'' None)) (h\<lparr>sh_ws := None\<rparr>) in
           if \<not> isRetryable code then on_stream stream_complete (setState Closed h)
           else if sh_state h \<noteq> Closed then attemptReconnect config draw h
           else h)"

text \<open>A timer of a reconnection.\<close>

definition reconnect_fires :: "sdk_config \<Rightarrow> int \<Rightarrow> sdk_handler \<Rightarrow> sdk_handler" where
  "reconnect_fires config draw h =
     (if sh_state h \<noteq> Reconnecting then h
      else case connectInternal config h of
        (True, h) \<Rightarrow> h
      | (False, h) \<Rightarrow> attemptReconnect config draw h)"

section \<open>Calls of the client\<close>

text \<open>A call is answered, waits for its socket or its request, or rejects.\<close>

datatype 'a call_answer = Answer "'a sdk_result" | WaitsFor nat | WaitsForRequest string | Rejects

definition state_name :: "handler_state \<Rightarrow> string" where
  "state_name s = (case s of Disconnected \<Rightarrow> ''disconnected'' | Connecting \<Rightarrow> ''connecting''
     | Authenticating \<Rightarrow> ''authenticating'' | Connected \<Rightarrow> ''connected'' | Reconnecting \<Rightarrow> ''reconnecting''
     | Closed \<Rightarrow> ''closed'')"

definition handler_connect :: "sdk_config \<Rightarrow> sdk_handler \<Rightarrow> unit call_answer \<times> sdk_handler" where
  "handler_connect config h =
     (if sh_state h = Closed then
        (Answer (Inl (plain_error (ValidationError ''state'' ''Handler is closed and cannot be reused'' []))), h)
      else if sh_state h = Connected then (Answer (Inr ()), h)
      else if sh_state h \<in> {Connecting, Authenticating, Reconnecting} then
        (Answer (Inl (plain_error (ValidationError ''state''
           (''Connection already in progress (state: '' @ state_name (sh_state h) @ '')'') []))), h)
      else let h = h\<lparr>sh_stream := createEventStream\<rparr> in
           case connectInternal config h of
             (True, h') \<Rightarrow> (WaitsFor (length (sh_sockets h)), h')
           | (False, h') \<Rightarrow> (Rejects, h'))"

definition handler_disconnect :: "sdk_handler \<Rightarrow> sdk_handler" where
  "handler_disconnect h =
     (let h = on_monitor monitor_stop h;
          h = on_tracker (tracker_rejectAll (InternalError ''Disconnecting'' None)) h;
          h = (case sh_ws h of Some n \<Rightarrow> (close_socket n 1000 h)\<lparr>sh_ws := None\<rparr> | None \<Rightarrow> h) in
      on_stream stream_complete (setState Closed h))"

text \<open>\<open>requestId\<close> is drawn. A request is an object; its own \<open>requestId\<close> comes last.\<close>

definition sendRequest :: "string \<Rightarrow> (string \<times> json) list \<Rightarrow> sdk_handler \<Rightarrow> json option call_answer \<times> sdk_handler" where
  "sendRequest requestId request h =
     (case sh_ws h of
        Some n \<Rightarrow>
          if sh_state h = Connected then
            (WaitsForRequest requestId,
             (on_tracker (tracker_track requestId) h)
               \<lparr>sh_sent := sh_sent h @ [(n, JObj (AList.update ''requestId'' (JStr requestId) request))]\<rparr>)
          else (Answer (Inl (plain_error (ValidationError ''state'' ''Not connected to signet'' []))), h)
      | None \<Rightarrow> (Answer (Inl (plain_error (ValidationError ''state'' ''Not connected to signet'' []))), h))"

datatype message_content = TextMessage string | CustomMessage string json

definition message_request :: "string \<Rightarrow> message_content \<Rightarrow> (string \<times> json) list" where
  "message_request groupId content =
     [(''type'', JStr ''send_message''), (''groupId'', JStr groupId),
      (''contentType'', JStr (case content of TextMessage _ \<Rightarrow> ''xmtp.org/text:1.0'' | CustomMessage t _ \<Rightarrow> t)),
      (''content'', (case content of TextMessage s \<Rightarrow> JObj [(''text'', JStr s)] | CustomMessage _ c \<Rightarrow> c))]"

definition reaction_request :: "string \<Rightarrow> string \<Rightarrow> string \<Rightarrow> (string \<times> json) list" where
  "reaction_request groupId messageId reaction =
     [(''type'', JStr ''send_reaction''), (''groupId'', JStr groupId), (''messageId'', JStr messageId),
      (''action'', JStr ''added''), (''content'', JStr reaction)]"

definition list_request :: "(string \<times> json) list" where
  "list_request = [(''type'', JStr ''list_conversations'')]"

definition info_request :: "string \<Rightarrow> (string \<times> json) list" where
  "info_request groupId = [(''type'', JStr ''get_conversation_info''), (''groupId'', JStr groupId)]"

text \<open>An array is an object without the fields.\<close>

fun hasStringFields :: "json option \<Rightarrow> string list \<Rightarrow> (string \<times> json) list option" where
  "hasStringFields (Some (JObj fs)) keys =
     (if list_all (\<lambda>k. \<exists>s. map_of fs k = Some (JStr s)) keys then Some fs else None)"
| "hasStringFields _ keys = None"

record message_sent =
  ms_messageId :: string
  ms_groupId :: string
  ms_sentAt :: string

text \<open>What a sent message or reaction is answered with, once its request is.\<close>

definition sent_result :: "json option sdk_result \<Rightarrow> message_sent sdk_result" where
  "sent_result r =
     (case r of
        Inl e \<Rightarrow> Inl e
      | Inr v \<Rightarrow>
          (case hasStringFields v [''messageId'', ''groupId'', ''sentAt''] of
             None \<Rightarrow> Inl (plain_error (ValidationError ''response''
                       ''Missing required fields: messageId, groupId, sentAt'' []))
           | Some fs \<Rightarrow> Inr \<lparr>ms_messageId = str_of (map_of fs ''messageId''), ms_groupId = str_of (map_of fs ''groupId''),
                               ms_sentAt = str_of (map_of fs ''sentAt'')\<rparr>))"

definition list_result :: "json option sdk_result \<Rightarrow> json sdk_result" where
  "list_result r =
     (case r of
        Inl e \<Rightarrow> Inl e
      | Inr (Some (JArr vs)) \<Rightarrow> Inr (JArr vs)
      | Inr _ \<Rightarrow> Inl (plain_error (ValidationError ''response'' ''Expected array for list_conversations response'' [])))"

definition info_result :: "json option sdk_result \<Rightarrow> json sdk_result" where
  "info_result r =
     (case r of
        Inl e \<Rightarrow> Inl e
      | Inr (Some (JObj fs)) \<Rightarrow> Inr (JObj fs)
      | Inr (Some (JArr vs)) \<Rightarrow> Inr (JArr vs)
      | Inr _ \<Rightarrow> Inl (plain_error (ValidationError ''response''
           ''Expected object for get_conversation_info response'' [])))"

section \<open>What can happen\<close>

datatype sdk_event =
  ClientConnect | ClientDisconnect | ClientRequest string "(string \<times> json) list" | ClientPull
| SocketOpens nat | SocketMessage nat "json option" | SocketCloses nat int string int
| AuthTimer nat | ReconnectTimer nat int | MonitorTimer nat int | RequestTimer string

text \<open>A socket reports while it lives; a timer fires when it is set; a request id is drawn afresh.\<close>

definition in_phase :: "phase set \<Rightarrow> nat \<Rightarrow> sdk_handler \<Rightarrow> bool" where
  "in_phase ps n h \<longleftrightarrow> n < length (sh_sockets h) \<and> so_phase (sh_sockets h ! n) \<in> ps"

fun enabled :: "sdk_event \<Rightarrow> sdk_handler \<Rightarrow> bool" where
  "enabled (SocketOpens n) h \<longleftrightarrow> in_phase {Opening} n h"
| "enabled (SocketMessage n parsed) h \<longleftrightarrow> in_phase {Open} n h"
| "enabled (SocketCloses n code reason draw) h \<longleftrightarrow> in_phase {Opening, Open, Closing} n h"
| "enabled (AuthTimer n) h \<longleftrightarrow> n < length (sh_sockets h) \<and> so_authTimer (sh_sockets h ! n)"
| "enabled (ReconnectTimer i draw) h \<longleftrightarrow> i < length (sh_timers h)"
| "enabled (MonitorTimer m draw) h \<longleftrightarrow> m < length (sh_monitors h) \<and> hb_timer (sh_monitors h ! m)"
| "enabled (ClientRequest i request) h \<longleftrightarrow> i \<notin> set (rt_pending (sh_tracker h)) \<union> fst ` set (rt_settled (sh_tracker h))"
| "enabled _ h \<longleftrightarrow> True"

fun sdk_step :: "sdk_config \<Rightarrow> sdk_event \<Rightarrow> sdk_handler \<Rightarrow> sdk_handler" where
  "sdk_step config ClientConnect h = snd (handler_connect config h)"
| "sdk_step config ClientDisconnect h = handler_disconnect h"
| "sdk_step config (ClientRequest i request) h = snd (sendRequest i request h)"
| "sdk_step config ClientPull h = on_stream stream_next h"
| "sdk_step config (SocketOpens n) h = socket_open config n h"
| "sdk_step config (SocketMessage n parsed) h = socket_message n parsed h"
| "sdk_step config (SocketCloses n code reason draw) h = socket_close config draw n code reason h"
| "sdk_step config (AuthTimer n) h = authTimeout_fires config n h"
| "sdk_step config (ReconnectTimer i draw) h =
     reconnect_fires config draw (h\<lparr>sh_timers := take i (sh_timers h) @ drop (i + 1) (sh_timers h)\<rparr>)"
| "sdk_step config (MonitorTimer m draw) h =
     (let c = hb_callback (sh_monitors h ! m);
          h = h\<lparr>sh_monitors := (sh_monitors h)[m := (sh_monitors h ! m)\<lparr>hb_timer := False\<rparr>]\<rparr> in
      if c then handleConnectionDead config draw h else h)"
| "sdk_step config (RequestTimer i) h = on_tracker (tracker_timeout (sc_requestTimeoutMs config) i) h"

inductive sdk_reaches :: "sdk_config \<Rightarrow> sdk_handler \<Rightarrow> sdk_event list \<Rightarrow> sdk_handler \<Rightarrow> bool" for config where
  reaches_Nil: "sdk_reaches config h [] h"
| reaches_Cons: "enabled e h \<Longrightarrow> sdk_reaches config (sdk_step config e h) es h' \<Longrightarrow> sdk_reaches config h (e # es) h'"

fun sdk_run :: "sdk_config \<Rightarrow> sdk_handler \<Rightarrow> sdk_event list \<Rightarrow> sdk_handler option" where
  "sdk_run config h [] = Some h"
| "sdk_run config h (e # es) = (if enabled e h then sdk_run config (sdk_step config e h) es else None)"

lemma run_reaches: "sdk_run config h es = Some h' \<Longrightarrow> sdk_reaches config h es h'"
  by (induction es arbitrary: h) (auto intro: sdk_reaches.intros split: if_splits)

inductive_cases reaches_NilE: "sdk_reaches config h [] h'"
inductive_cases reaches_ConsE: "sdk_reaches config h (e # es) h'"

end
