(* ===== verification/SdkSafety.thy ===== *)
theory SdkSafety
  imports SdkHandler
begin

text \<open>
  What the client handler promises: requests are answered at most once and never wait without a
  connection, reconnections are bounded, events come in order, and where a disconnect is final.
\<close>

section \<open>The invariant\<close>

text \<open>A socket that is gone has no timer left. A handler is idle when all its sockets are gone, and
  otherwise has exactly one that is not.\<close>

definition gone :: "socket \<Rightarrow> bool" where
  "gone c \<longleftrightarrow> so_phase c = Gone \<and> \<not> so_authTimer c"

definition quiet :: "heartbeat_monitor \<Rightarrow> bool" where
  "quiet m \<longleftrightarrow> \<not> hb_callback m \<and> \<not> hb_timer m"

definition idle :: "sdk_handler \<Rightarrow> bool" where
  "idle h \<longleftrightarrow> list_all gone (sh_sockets h) \<and> list_all quiet (sh_monitors h) \<and> rt_pending (sh_tracker h) = []
     \<and> length (sh_timers h) \<le> 1 \<and> sh_state h \<notin> {Connected, Authenticating}
     \<and> (sh_state h \<in> {Disconnected, Connecting} \<longrightarrow> sh_timers h = [])
     \<and> (sh_state h = Reconnecting \<longrightarrow> sh_timers h \<noteq> [])"

definition others :: "socket list \<Rightarrow> nat \<Rightarrow> bool" where
  "others xs n \<longleftrightarrow> (\<forall>m < length xs. m \<noteq> n \<longrightarrow> gone (xs ! m))"

definition busy :: "nat \<Rightarrow> sdk_handler \<Rightarrow> bool" where
  "busy n h \<longleftrightarrow> n < length (sh_sockets h) \<and> others (sh_sockets h) n \<and> so_phase (sh_sockets h ! n) \<noteq> Gone
     \<and> (so_phase (sh_sockets h ! n) \<noteq> Closing \<longrightarrow> sh_ws h = Some n)
     \<and> (so_phase (sh_sockets h ! n) = Opening \<longrightarrow> \<not> so_authHandled (sh_sockets h ! n))
     \<and> (so_authTimer (sh_sockets h ! n) \<longrightarrow> \<not> so_authHandled (sh_sockets h ! n))
     \<and> (sh_state h = Connected \<longrightarrow> so_authHandled (sh_sockets h ! n))
     \<and> sh_timers h = [] \<and> sh_state h \<notin> {Disconnected, Reconnecting}
     \<and> (rt_pending (sh_tracker h) \<noteq> [] \<longrightarrow> sh_state h = Connected)
     \<and> list_all quiet (butlast (sh_monitors h))
     \<and> (list_all quiet (sh_monitors h) \<or> sh_ws h = Some n \<and> so_authHandled (sh_sockets h ! n))"

definition sdk_inv :: "sdk_handler \<Rightarrow> bool" where
  "sdk_inv h \<longleftrightarrow> idle h \<or> (\<exists>n. busy n h)"

lemma inv_start: "sdk_inv createSignetHandler"
  by (simp add: sdk_inv_def idle_def createSignetHandler_def createRequestTracker_def)

text \<open>Only the socket that is not gone reports.\<close>

lemma idle_not_in_phase: "idle h \<Longrightarrow> Gone \<notin> ps \<Longrightarrow> \<not> in_phase ps n h"
  by (auto simp: idle_def in_phase_def list_all_length gone_def)

lemma busy_in_phase: "busy n h \<Longrightarrow> in_phase ps m h \<Longrightarrow> Gone \<notin> ps \<Longrightarrow> m = n \<and> so_phase (sh_sockets h ! n) \<in> ps"
  by (auto simp: busy_def others_def in_phase_def gone_def)

lemma idle_timer: "idle h \<Longrightarrow> m < length (sh_sockets h) \<Longrightarrow> \<not> so_authTimer (sh_sockets h ! m)"
  by (auto simp: idle_def list_all_length gone_def)

lemma busy_timer: "busy n h \<Longrightarrow> m < length (sh_sockets h) \<Longrightarrow> so_authTimer (sh_sockets h ! m) \<Longrightarrow> m = n"
  by (auto simp: busy_def others_def gone_def)

lemma others_update [simp]: "others (xs[n := c]) n \<longleftrightarrow> others xs n"
  by (simp add: others_def)

lemma others_append [simp]: "others (xs @ [c]) (length xs) \<longleftrightarrow> list_all gone xs"
  by (auto simp: others_def list_all_length nth_append)

lemma all_gone_update [simp]: "n < length xs \<Longrightarrow> list_all gone (xs[n := c]) \<longleftrightarrow> gone c \<and> others xs n"
  by (auto simp: others_def list_all_length nth_list_update)

lemma others_gone: "list_all gone xs \<Longrightarrow> others xs n"
  by (auto simp: others_def list_all_length)

lemma quiet_stop [simp]: "quiet (monitor_stop m)"
  by (simp add: quiet_def monitor_stop_def)

lemma quiet_parts: "list_all quiet ms \<Longrightarrow> list_all quiet (butlast ms)"
  by (auto simp: list_all_iff dest: in_set_butlastD)

text \<open>What the steps of the handler do to each part of the state.\<close>

definition last_monitor :: "(heartbeat_monitor \<Rightarrow> heartbeat_monitor) \<Rightarrow> heartbeat_monitor list \<Rightarrow> heartbeat_monitor list" where
  "last_monitor f ms = (if ms = [] then [] else butlast ms @ [f (List.last ms)])"

definition closing :: "socket \<Rightarrow> socket" where
  "closing c = c\<lparr>so_phase := (if so_phase c = Gone then Gone else Closing)\<rparr>"

lemma last_monitor_quiet:
  "list_all quiet (butlast ms) \<Longrightarrow> list_all quiet (last_monitor monitor_stop ms)"
  "list_all quiet (butlast ms) \<Longrightarrow> list_all quiet (butlast (last_monitor f ms))"
  by (simp_all add: last_monitor_def)

lemma last_monitor_reset:
  "list_all quiet ms \<Longrightarrow> list_all quiet (last_monitor monitor_resetTimer ms)"
  by (cases ms rule: rev_cases) (simp_all add: last_monitor_def monitor_resetTimer_def quiet_def)

lemma closing_parts [simp]: "gone (closing c) \<longleftrightarrow> gone c" "so_phase (closing c) = Gone \<longleftrightarrow> so_phase c = Gone"
  "so_phase (closing c) = Opening \<longleftrightarrow> False" "so_phase (closing c) = Open \<longleftrightarrow> False"
  "so_phase c \<noteq> Gone \<Longrightarrow> so_phase (closing c) = Closing"
  "so_authHandled (closing c) = so_authHandled c" "so_authTimer (closing c) = so_authTimer c"
  by (simp_all add: closing_def gone_def)

lemma on_monitor_parts [simp]:
  "sh_state (on_monitor f h) = sh_state h" "sh_sockets (on_monitor f h) = sh_sockets h" "sh_ws (on_monitor f h) = sh_ws h"
  "sh_timers (on_monitor f h) = sh_timers h" "sh_tracker (on_monitor f h) = sh_tracker h"
  "sh_stream (on_monitor f h) = sh_stream h" "sh_attempt (on_monitor f h) = sh_attempt h"
  "sh_lastSeenSeq (on_monitor f h) = sh_lastSeenSeq h" "sh_sent (on_monitor f h) = sh_sent h"
  "sh_monitors (on_monitor f h) = last_monitor f (sh_monitors h)"
  by (simp_all add: on_monitor_def last_monitor_def)

lemma setState_parts [simp]:
  "sh_state (setState s h) = s" "sh_sockets (setState s h) = sh_sockets h" "sh_ws (setState s h) = sh_ws h"
  "sh_timers (setState s h) = sh_timers h" "sh_tracker (setState s h) = sh_tracker h"
  "sh_stream (setState s h) = sh_stream h" "sh_attempt (setState s h) = sh_attempt h"
  "sh_lastSeenSeq (setState s h) = sh_lastSeenSeq h" "sh_monitors (setState s h) = sh_monitors h"
  "sh_sent (setState s h) = sh_sent h"
  by (simp_all add: setState_def)

lemma emitError_parts [simp]:
  "sh_state (emitError e h) = sh_state h" "sh_sockets (emitError e h) = sh_sockets h" "sh_ws (emitError e h) = sh_ws h"
  "sh_timers (emitError e h) = sh_timers h" "sh_tracker (emitError e h) = sh_tracker h"
  "sh_stream (emitError e h) = sh_stream h" "sh_attempt (emitError e h) = sh_attempt h"
  "sh_lastSeenSeq (emitError e h) = sh_lastSeenSeq h" "sh_monitors (emitError e h) = sh_monitors h"
  "sh_sent (emitError e h) = sh_sent h"
  by (simp_all add: emitError_def)

lemma close_socket_parts [simp]:
  "sh_state (close_socket n k h) = sh_state h" "sh_ws (close_socket n k h) = sh_ws h"
  "sh_timers (close_socket n k h) = sh_timers h" "sh_tracker (close_socket n k h) = sh_tracker h"
  "sh_stream (close_socket n k h) = sh_stream h" "sh_attempt (close_socket n k h) = sh_attempt h"
  "sh_lastSeenSeq (close_socket n k h) = sh_lastSeenSeq h" "sh_monitors (close_socket n k h) = sh_monitors h"
  "sh_sent (close_socket n k h) = sh_sent h"
  "sh_sockets (close_socket n k h) = (sh_sockets h)[n := closing (sh_sockets h ! n)]"
  by (simp_all add: close_socket_def on_socket_def closing_def)

lemma on_socket_parts [simp]:
  "sh_state (on_socket n f h) = sh_state h" "sh_ws (on_socket n f h) = sh_ws h"
  "sh_timers (on_socket n f h) = sh_timers h" "sh_tracker (on_socket n f h) = sh_tracker h"
  "sh_stream (on_socket n f h) = sh_stream h" "sh_attempt (on_socket n f h) = sh_attempt h"
  "sh_lastSeenSeq (on_socket n f h) = sh_lastSeenSeq h" "sh_monitors (on_socket n f h) = sh_monitors h"
  "sh_sent (on_socket n f h) = sh_sent h"
  "sh_sockets (on_socket n f h) = (sh_sockets h)[n := f (sh_sockets h ! n)]"
  by (simp_all add: on_socket_def)

lemma on_stream_parts [simp]:
  "sh_state (on_stream f h) = sh_state h" "sh_sockets (on_stream f h) = sh_sockets h" "sh_ws (on_stream f h) = sh_ws h"
  "sh_timers (on_stream f h) = sh_timers h" "sh_tracker (on_stream f h) = sh_tracker h"
  "sh_stream (on_stream f h) = f (sh_stream h)" "sh_attempt (on_stream f h) = sh_attempt h"
  "sh_lastSeenSeq (on_stream f h) = sh_lastSeenSeq h" "sh_monitors (on_stream f h) = sh_monitors h"
  "sh_sent (on_stream f h) = sh_sent h"
  by (simp_all add: on_stream_def)

lemma on_tracker_parts [simp]:
  "sh_state (on_tracker f h) = sh_state h" "sh_sockets (on_tracker f h) = sh_sockets h" "sh_ws (on_tracker f h) = sh_ws h"
  "sh_timers (on_tracker f h) = sh_timers h" "sh_tracker (on_tracker f h) = f (sh_tracker h)"
  "sh_stream (on_tracker f h) = sh_stream h" "sh_attempt (on_tracker f h) = sh_attempt h"
  "sh_lastSeenSeq (on_tracker f h) = sh_lastSeenSeq h" "sh_monitors (on_tracker f h) = sh_monitors h"
  "sh_sent (on_tracker f h) = sh_sent h"
  by (simp_all add: on_tracker_def)

lemma rejectAll_pending [simp]: "rt_pending (tracker_rejectAll e t) = []"
  by (simp add: tracker_rejectAll_def)

lemma resolve_pending: "rt_pending t = [] \<Longrightarrow> rt_pending (tracker_resolve i r t) = []"
  by (simp add: tracker_resolve_def)

lemmas step_defs = resolve_def auth_handled_def clear_auth_timer_def Let_def

section \<open>Every step keeps it\<close>

lemma idle_closing:
  assumes "list_all gone xs"
  shows "list_all gone (xs[m := closing (xs ! m)])"
proof (cases "m < length xs")
  case True
  with assms have "gone (xs ! m)"
    by (simp add: list_all_length)
  with assms True show ?thesis
    by (simp add: others_gone)
next
  case False
  with assms show ?thesis
    by (simp add: list_update_beyond)
qed

lemma busy_closing:
  "others xs n \<Longrightarrow> m \<noteq> n \<Longrightarrow> others (xs[m := closing (xs ! m)]) n"
  by (cases "m < length xs") (auto simp: others_def nth_list_update)

lemma idle_quiet: "list_all quiet ms \<Longrightarrow> list_all quiet (last_monitor monitor_stop ms)"
  by (simp add: last_monitor_quiet quiet_parts)

lemma idle_disconnect: "idle h \<Longrightarrow> idle (handler_disconnect h)"
  by (simp add: idle_def handler_disconnect_def Let_def idle_closing idle_quiet split: option.split)

lemma busy_disconnect: "busy n h \<Longrightarrow> busy n (handler_disconnect h)"
  by (cases "sh_ws h"; cases "sh_ws h = Some n")
    (auto simp: busy_def handler_disconnect_def Let_def busy_closing last_monitor_quiet nth_list_update quiet_parts)

lemma connect_busy:
  "list_all gone (sh_sockets h) \<Longrightarrow> list_all quiet (sh_monitors h) \<Longrightarrow> rt_pending (sh_tracker h) = [] \<Longrightarrow> sh_timers h = []
    \<Longrightarrow> sc_opens config (sc_url config) \<Longrightarrow> busy (length (sh_sockets h)) (snd (connectInternal config h))"
  by (simp add: connectInternal_def Let_def busy_def quiet_parts)

lemma connect_fails:
  "\<not> sc_opens config (sc_url config) \<Longrightarrow> connectInternal config h = (False, setState Connecting h)"
  by (simp add: connectInternal_def)

lemma reconnect_idle:
  "list_all gone (sh_sockets h) \<Longrightarrow> list_all quiet (sh_monitors h) \<Longrightarrow> rt_pending (sh_tracker h) = [] \<Longrightarrow> sh_timers h = []
    \<Longrightarrow> idle (attemptReconnect config draw h)"
  by (simp add: attemptReconnect_def Let_def idle_def)

lemma inv_connect:
  assumes "sdk_inv h"
  shows "sdk_inv (snd (handler_connect config h))"
proof (cases "sh_state h = Disconnected")
  case True
  with assms have "idle h"
    by (auto simp: sdk_inv_def busy_def)
  with True show ?thesis
    using connect_busy [of "h\<lparr>sh_stream := createEventStream\<rparr>" config]
    by (cases "sc_opens config (sc_url config)")
      (auto simp: handler_connect_def Let_def idle_def sdk_inv_def connect_fails split: prod.split bool.split)
next
  case False
  then have "snd (handler_connect config h) = h"
    by (cases "sh_state h") (simp_all add: handler_connect_def)
  with assms show ?thesis
    by simp
qed

lemma inv_reconnect_timer:
  assumes "sdk_inv h" and "i < length (sh_timers h)"
  shows "sdk_inv (sdk_step config (ReconnectTimer i draw) h)"
proof -
  have idle: "idle h"
    using assms by (auto simp: sdk_inv_def busy_def)
  with assms(2) have "take i (sh_timers h) @ drop (i + 1) (sh_timers h) = []"
    by (cases "sh_timers h") (auto simp: idle_def)
  then have step: "sdk_step config (ReconnectTimer i draw) h = reconnect_fires config draw (h\<lparr>sh_timers := []\<rparr>)"
    by (simp only: sdk_step.simps)
  show ?thesis
  proof (cases "sh_state h = Reconnecting")
    case True
    show ?thesis
    proof (cases "sc_opens config (sc_url config)")
      case url: True
      have "busy (length (sh_sockets h)) (snd (connectInternal config (h\<lparr>sh_timers := []\<rparr>)))"
        using connect_busy [of "h\<lparr>sh_timers := []\<rparr>" config] idle url by (simp add: idle_def)
      moreover have "fst (connectInternal config (h\<lparr>sh_timers := []\<rparr>))"
        using url by (simp add: connectInternal_def Let_def)
      ultimately show ?thesis
        unfolding step using True by (auto simp: reconnect_fires_def sdk_inv_def split: prod.split bool.split)
    next
      case False
      have "idle (attemptReconnect config draw (setState Connecting (h\<lparr>sh_timers := []\<rparr>)))"
        by (rule reconnect_idle) (use idle in \<open>simp_all add: idle_def\<close>)
      with True False show ?thesis
        unfolding step by (simp add: reconnect_fires_def sdk_inv_def connect_fails)
    qed
  next
    case False
    with idle assms(2) have "idle (h\<lparr>sh_timers := []\<rparr>)"
      by (auto simp: idle_def)
    with False show ?thesis
      unfolding step by (simp add: reconnect_fires_def sdk_inv_def)
  qed
qed

lemma inv_request: "sdk_inv h \<Longrightarrow> sdk_inv (snd (sendRequest i request h))"
  by (auto simp: sendRequest_def sdk_inv_def busy_def idle_def split: option.split)

lemma inv_opens:
  assumes "sdk_inv h" "in_phase {Opening} n h"
  shows "sdk_inv (socket_open config n h)"
proof -
  obtain "busy n h" "so_phase (sh_sockets h ! n) = Opening"
    using assms busy_in_phase idle_not_in_phase by (fastforce simp: sdk_inv_def)
  then have "busy n (socket_open config n h)"
    by (auto simp: busy_def socket_open_def Let_def)
  then show ?thesis
    by (auto simp: sdk_inv_def)
qed

lemma resolve_parts: "set (rt_pending (tracker_resolve i r t)) \<subseteq> set (rt_pending t)"
  by (auto simp: tracker_resolve_def)

lemma busy_tracker: "busy n h \<Longrightarrow> busy n (on_tracker (tracker_resolve i r) h)"
  using resolve_pending by (auto simp: busy_def)

lemma busy_monitor: "busy n h \<Longrightarrow> busy n (on_monitor monitor_resetTimer h)"
  by (auto simp: busy_def last_monitor_quiet last_monitor_reset)

lemma busy_rest:
  "busy n (h\<lparr>sh_lastSeenSeq := q\<rparr>) \<longleftrightarrow> busy n h" "busy n (emitError e h) \<longleftrightarrow> busy n h" "busy n (on_stream f h) \<longleftrightarrow> busy n h"
  by (simp_all add: busy_def)

lemma busy_frame: "busy n h \<Longrightarrow> busy n (handleFrame parsed h)"
  by (auto simp: handleFrame_def Let_def busy_rest busy_tracker intro: busy_monitor split: option.split json.split)

lemma inv_message:
  assumes "sdk_inv h" "in_phase {Open} n h"
  shows "sdk_inv (socket_message n parsed h)"
proof -
  obtain b: "busy n h" "so_phase (sh_sockets h ! n) = Open"
    using assms busy_in_phase idle_not_in_phase by (fastforce simp: sdk_inv_def)
  have "busy n (socket_message n parsed h)"
  proof (cases "so_authHandled (sh_sockets h ! n)")
    case True
    with b show ?thesis
      by (simp add: socket_message_def busy_frame)
  next
    case False
    with b have "busy n (authenticated n fs h)" "busy n (auth_refused n fs h)"
        "busy n (resolve n r (setState Closed (clear_auth_timer n h)))" for fs r
      by (auto simp: busy_def authenticated_def auth_refused_def step_defs)
    with b False show ?thesis
      by (auto simp: socket_message_def split: option.split json.split)
  qed
  then show ?thesis
    by (auto simp: sdk_inv_def)
qed

lemma inv_closes:
  assumes "sdk_inv h" "in_phase {Opening, Open, Closing} n h"
  shows "sdk_inv (socket_close config draw n code reason h)"
proof -
  have "busy n h"
    using assms busy_in_phase idle_not_in_phase by (fastforce simp: sdk_inv_def)
  then have "idle (socket_close config draw n code reason h)"
    by (auto simp: busy_def idle_def socket_close_def close_during_auth_def attemptReconnect_def step_defs last_monitor_quiet
        gone_def)
  then show ?thesis
    by (simp add: sdk_inv_def)
qed

lemma inv_auth_timer:
  assumes "sdk_inv h" "n < length (sh_sockets h)" "so_authTimer (sh_sockets h ! n)"
  shows "sdk_inv (authTimeout_fires config n h)"
proof -
  have "busy n h"
    using assms busy_timer idle_timer by (fastforce simp: sdk_inv_def)
  then have "busy n (authTimeout_fires config n h)"
    using assms by (auto simp: busy_def authTimeout_fires_def step_defs)
  then show ?thesis
    by (auto simp: sdk_inv_def)
qed

lemma inv_request_timer: "sdk_inv h \<Longrightarrow> sdk_inv (on_tracker (tracker_timeout ms i) h)"
  by (auto simp: sdk_inv_def busy_def idle_def tracker_timeout_def tracker_resolve_def)

lemma inv_monitor_timer:
  assumes "sdk_inv h" "m < length (sh_monitors h)" "hb_timer (sh_monitors h ! m)"
  shows "sdk_inv (sdk_step config (MonitorTimer m draw) h)"
proof -
  have loud: "\<not> list_all quiet (sh_monitors h)"
    using assms(2,3) by (auto simp: list_all_length quiet_def)
  with assms(1) obtain n where b: "busy n h" and ws: "sh_ws h = Some n"
    by (auto simp: sdk_inv_def idle_def busy_def)
  then have others: "list_all quiet (butlast (sh_monitors h))"
    by (simp add: busy_def)
  have "m = length (sh_monitors h) - 1"
  proof (rule ccontr)
    assume "m \<noteq> length (sh_monitors h) - 1"
    with assms(2) have "m < length (butlast (sh_monitors h))"
      by simp
    with others have "quiet (butlast (sh_monitors h) ! m)"
      by (simp add: list_all_length)
    with assms(3) \<open>m < length (butlast _)\<close> show False
      by (simp add: nth_butlast quiet_def)
  qed
  then have ms: "(sh_monitors h)[m := x] = butlast (sh_monitors h) @ [x]" for x
    using assms(2) by (cases "sh_monitors h" rule: rev_cases) simp_all
  have "busy n (sdk_step config (MonitorTimer m draw) h)"
    using b ws others by (auto simp: busy_def ms handleConnectionDead_def last_monitor_def quiet_def Let_def monitor_stop_def)
  then show ?thesis
    by (auto simp: sdk_inv_def)
qed

lemma inv_pull: "sdk_inv h \<Longrightarrow> sdk_inv (on_stream f h)"
  by (auto simp: sdk_inv_def busy_rest idle_def)

lemma inv_step: "enabled e h \<Longrightarrow> sdk_inv h \<Longrightarrow> sdk_inv (sdk_step config e h)"
proof (cases e)
  case ClientDisconnect
  moreover assume "sdk_inv h"
  ultimately show ?thesis
    using idle_disconnect busy_disconnect by (auto simp: sdk_inv_def)
qed (use inv_connect inv_request inv_pull inv_opens inv_message inv_closes inv_auth_timer inv_reconnect_timer
      inv_monitor_timer inv_request_timer in \<open>simp_all del: sdk_step.simps add: sdk_step.simps(1,3-8,11)\<close>)

lemma inv_reaches: "sdk_reaches config h es h' \<Longrightarrow> sdk_inv h \<Longrightarrow> sdk_inv h'"
  by (induction rule: sdk_reaches.induct) (simp_all add: inv_step)

text \<open>What a stream handed out or still holds, in order.\<close>

definition delivered :: "event_stream \<Rightarrow> json list" where
  "delivered s = List.map_filter snd (es_answers s) @ es_buffer s"

section \<open>A handler at work\<close>

definition demo_sdk :: sdk_config where
  "demo_sdk = \<lparr>sc_url = ''ws://localhost:8393'', sc_token = ''t'',
     sc_reconnect = \<lparr>rc_enabled = True, rc_maxAttempts = 3, rc_baseDelayMs = 1000, rc_maxDelayMs = 30000, rc_jitter = False\<rparr>,
     sc_requestTimeoutMs = 30000, sc_opens = (\<lambda>_. True)\<rparr>"

lemma demo_sdk_parsed:
  "parse_handler_config (\<lambda>_. True) (\<lambda>_. True) (JObj [(''url'', JStr ''ws://localhost:8393''), (''token'', JStr ''t''),
      (''reconnect'', JObj [(''maxAttempts'', JNum 3), (''jitter'', JBool False)])]) = Some demo_sdk"
  by (simp add: with_default_def demo_sdk_def)

lemma demo_sdk_attempts: "rc_maxAttempts (sc_reconnect demo_sdk) = 3"
  by (simp add: demo_sdk_def)

definition demo_reply :: json where
  "demo_reply = JObj [(''type'', JStr ''authenticated''), (''connectionId'', JStr ''conn''),
     (''credential'', JObj [(''credentialId'', JStr ''cred''), (''operatorId'', JStr ''op''),
       (''expiresAt'', JStr ''2030-01-01T00:00:00.000Z'')]), (''effectiveScopes'', JObj [])]"

definition demo_authenticated :: "nat \<Rightarrow> sdk_event list" where
  "demo_authenticated n = [SocketOpens n, SocketMessage n (Some demo_reply)]"

definition demo_event :: "nat \<Rightarrow> int \<Rightarrow> sdk_event" where
  "demo_event n q = SocketMessage n (Some (JObj [(''seq'', JNum q), (''event'', JObj [(''type'', JStr ''heartbeat'')])]))"

definition demo_connected :: "sdk_event list" where
  "demo_connected = ClientConnect # demo_authenticated 0"

text \<open>A connected handler that asks, is answered, asks again and loses its connection.\<close>

definition demo_lost :: "sdk_event list" where
  "demo_lost = demo_connected @ [ClientRequest ''r1'' list_request,
     SocketMessage 0 (Some (JObj [(''requestId'', JStr ''r1''), (''ok'', JBool True), (''data'', JArr [])])),
     ClientRequest ''r2'' list_request, SocketCloses 0 1006 [] 0]"

text \<open>Pulls and events across a loss of the connection.\<close>

definition demo_events :: "sdk_event list" where
  "demo_events = [ClientPull, demo_event 0 7, demo_event 0 8, SocketCloses 0 1006 [] 0, ReconnectTimer 0 0]
     @ demo_authenticated 1 @ [demo_event 1 9, ClientPull]"

definition after :: "sdk_handler \<Rightarrow> sdk_event list \<Rightarrow> sdk_handler" where
  "after h es = the (sdk_run demo_sdk h es)"

lemma after_reaches: "sdk_run demo_sdk h es \<noteq> None \<Longrightarrow> sdk_reaches demo_sdk h es (after h es)"
  by (auto simp: after_def intro: run_reaches)

lemma demo_connected_runs: "sdk_reaches demo_sdk createSignetHandler demo_connected (after createSignetHandler demo_connected)"
  by (rule after_reaches) code_simp

lemma demo_lost_runs: "sdk_reaches demo_sdk createSignetHandler demo_lost (after createSignetHandler demo_lost)"
  by (rule after_reaches) code_simp

lemma demo_events_run:
  "sdk_reaches demo_sdk (after createSignetHandler demo_connected) demo_events
     (after (after createSignetHandler demo_connected) demo_events)"
  by (rule after_reaches) code_simp

text \<open>A disconnect during authentication does not last: the close event of the socket, whose
  authentication is still open, starts a reconnection. The stream is complete by then, so the events of
  the new connection are dropped.\<close>

lemma disconnect_during_auth_undone:
  "let es = [ClientConnect, SocketOpens 0, ClientDisconnect, SocketCloses 0 1000 [] 0, ReconnectTimer 0 0]
         @ demo_authenticated 1 @ [demo_event 1 1];
       h = after createSignetHandler es in
   sdk_run demo_sdk createSignetHandler es \<noteq> None \<and> sh_state h = Connected \<and> delivered (sh_stream h) = []
     \<and> sh_lastSeenSeq h = Some 1"
  by code_simp

text \<open>A reply to the authentication that is no JSON closes the handler, but not its socket: a later
  reply still connects it.\<close>

lemma closed_handler_connects:
  "let es = [ClientConnect, SocketOpens 0, SocketMessage 0 None,
         SocketMessage 0 (Some demo_reply)];
       h = after createSignetHandler es in
   sdk_run demo_sdk createSignetHandler es \<noteq> None
     \<and> sh_transitions h = [(Connecting, Disconnected), (Authenticating, Connecting), (Closed, Authenticating), (Connected, Closed)]"
  by code_simp

text \<open>Of two pulls that wait, the first is never answered.\<close>

lemma waiting_pull_lost:
  "es_answers (stream_complete (stream_push e (stream_next (stream_next createEventStream)))) = [(1, Some e)]"
  by (simp add: createEventStream_def stream_next_def stream_push_def stream_complete_def Let_def)

section \<open>Requests\<close>

definition tracked :: "request_tracker \<Rightarrow> string list" where
  "tracked t = rt_pending t @ map fst (rt_settled t)"

text \<open>The ids of the requests a handler sent. Its other frames carry none.\<close>

fun request_ids :: "(nat \<times> json) list \<Rightarrow> string list" where
  "request_ids [] = []"
| "request_ids ((n, JObj fs) # fr) =
     (case map_of fs ''requestId'' of Some (JStr i) \<Rightarrow> i # request_ids fr | _ \<Rightarrow> request_ids fr)"
| "request_ids (_ # fr) = request_ids fr"

lemma request_ids_append [simp]: "request_ids (xs @ ys) = request_ids xs @ request_ids ys"
  by (induction xs rule: request_ids.induct) (auto split: option.split json.split)

definition requests_kept :: "sdk_handler \<Rightarrow> bool" where
  "requests_kept h \<longleftrightarrow> distinct (tracked (sh_tracker h)) \<and> set (request_ids (sh_sent h)) = set (tracked (sh_tracker h))"

lemma tracked_resolve:
  "set (tracked (tracker_resolve i r t)) = set (tracked t)"
  "distinct (tracked t) \<Longrightarrow> distinct (tracked (tracker_resolve i r t))"
  by (auto simp: tracked_def tracker_resolve_def distinct_removeAll)

lemma tracked_rejectAll:
  "set (tracked (tracker_rejectAll e t)) = set (tracked t)"
  "distinct (tracked t) \<Longrightarrow> distinct (tracked (tracker_rejectAll e t))"
  by (auto simp: tracked_def tracker_rejectAll_def comp_def)

lemma kept_tracker:
  "requests_kept h \<Longrightarrow> requests_kept (on_tracker (tracker_resolve i r) h)"
  "requests_kept h \<Longrightarrow> requests_kept (on_tracker (tracker_rejectAll e) h)"
  by (simp_all add: requests_kept_def tracked_resolve tracked_rejectAll)

lemma kept_eq: "sh_tracker h' = sh_tracker h \<Longrightarrow> sh_sent h' = sh_sent h \<Longrightarrow> requests_kept h' \<longleftrightarrow> requests_kept h"
  by (simp add: requests_kept_def)

lemma attemptReconnect_parts [simp]:
  "sh_tracker (attemptReconnect config draw h) = sh_tracker h" "sh_sent (attemptReconnect config draw h) = sh_sent h"
  "sh_sockets (attemptReconnect config draw h) = sh_sockets h" "sh_lastSeenSeq (attemptReconnect config draw h) = sh_lastSeenSeq h"
  by (simp_all add: attemptReconnect_def Let_def)

lemma connectInternal_parts [simp]:
  "sh_tracker (snd (connectInternal config h)) = sh_tracker h" "sh_sent (snd (connectInternal config h)) = sh_sent h"
  "sh_stream (snd (connectInternal config h)) = sh_stream h" "sh_lastSeenSeq (snd (connectInternal config h)) = sh_lastSeenSeq h"
  "sh_attempt (snd (connectInternal config h)) = sh_attempt h" "sh_timers (snd (connectInternal config h)) = sh_timers h"
  by (simp_all add: connectInternal_def Let_def)

lemma connect_then:
  "reconnect_fires config draw h =
     (if sh_state h \<noteq> Reconnecting then h
      else if sc_opens config (sc_url config) then snd (connectInternal config h)
      else attemptReconnect config draw (snd (connectInternal config h)))"
  by (simp add: reconnect_fires_def connectInternal_def Let_def)

lemma handler_connect_eq:
  "snd (handler_connect config h) =
     (if sh_state h = Disconnected then snd (connectInternal config (h\<lparr>sh_stream := createEventStream\<rparr>)) else h)"
  by (cases "sh_state h") (simp_all add: handler_connect_def connectInternal_def Let_def)

lemma kept_frame: "requests_kept h \<Longrightarrow> requests_kept (handleFrame parsed h)"
  by (auto simp: handleFrame_def Let_def kept_tracker(1) split: option.split json.split) (auto simp: requests_kept_def)

lemma kept_request:
  assumes "requests_kept h" and "i \<notin> set (rt_pending (sh_tracker h)) \<union> fst ` set (rt_settled (sh_tracker h))"
  shows "requests_kept (snd (sendRequest i request h))"
  using assms by (auto simp: sendRequest_def requests_kept_def tracked_def tracker_track_def update_conv' split: option.split)

lemma kept_message: "requests_kept h \<Longrightarrow> requests_kept (socket_message n parsed h)"
  by (auto simp: socket_message_def kept_frame authenticated_def auth_refused_def step_defs split: option.split json.split)
    (auto simp: requests_kept_def)

lemma kept_closes: "requests_kept h \<Longrightarrow> requests_kept (socket_close config draw n code reason h)"
  by (auto simp: requests_kept_def socket_close_def close_during_auth_def step_defs tracked_rejectAll)

lemma kept_step: "enabled e h \<Longrightarrow> requests_kept h \<Longrightarrow> requests_kept (sdk_step config e h)"
proof (cases e)
  case ClientConnect
  moreover assume "requests_kept h"
  ultimately show ?thesis
    by (simp add: handler_connect_eq requests_kept_def)
next
  case ClientDisconnect
  moreover assume "requests_kept h"
  ultimately show ?thesis
    by (simp add: handler_disconnect_def Let_def requests_kept_def tracked_rejectAll split: option.split)
next
  case (ClientRequest i request)
  moreover assume "requests_kept h" "enabled e h"
  ultimately show ?thesis
    by (simp add: kept_request)
next
  case (ReconnectTimer i draw)
  moreover assume "requests_kept h"
  ultimately show ?thesis
    by (simp add: connect_then requests_kept_def)
next
  case (MonitorTimer m draw)
  moreover assume "requests_kept h"
  ultimately show ?thesis
    by (simp add: handleConnectionDead_def Let_def requests_kept_def split: option.split)
next
  case (SocketOpens n)
  moreover assume "requests_kept h"
  ultimately show ?thesis
    by (simp add: socket_open_def Let_def requests_kept_def sdk_auth_frame_def)
next
  case (AuthTimer n)
  moreover assume "requests_kept h"
  ultimately show ?thesis
    by (simp add: authTimeout_fires_def step_defs requests_kept_def)
qed (simp_all add: kept_message kept_closes kept_tracker, simp_all add: requests_kept_def tracker_timeout_def tracked_resolve)

lemma kept_reaches: "sdk_reaches config h es h' \<Longrightarrow> requests_kept h \<Longrightarrow> requests_kept h'"
  by (induction rule: sdk_reaches.induct) (simp_all add: kept_step)

lemma pending_needs_connection: "sdk_inv h \<Longrightarrow> sh_state h \<noteq> Connected \<Longrightarrow> rt_pending (sh_tracker h) = []"
  by (auto simp: sdk_inv_def idle_def busy_def)

text \<open>
  C14. However a handler is used and whatever its sockets and timers do, each request it sent is
  still waiting or was answered exactly once, and none waits unless the handler is connected: when
  the connection is lost or given up, all of them have been answered.\<close>

theorem requests_are_answered_once:
  assumes "sdk_reaches config createSignetHandler es h"
  shows "distinct (rt_pending (sh_tracker h) @ map fst (rt_settled (sh_tracker h)))
    \<and> set (request_ids (sh_sent h)) = set (rt_pending (sh_tracker h)) \<union> fst ` set (rt_settled (sh_tracker h))
    \<and> (sh_state h = Connected \<or> rt_pending (sh_tracker h) = [])"
proof -
  have "requests_kept createSignetHandler"
    by (simp add: requests_kept_def createSignetHandler_def createRequestTracker_def tracked_def)
  with assms have "requests_kept h"
    by (rule kept_reaches)
  moreover have "sdk_inv h"
    using assms inv_start by (rule inv_reaches)
  ultimately show ?thesis
    using pending_needs_connection by (auto simp: requests_kept_def tracked_def)
qed

theorem requests_are_answered_once_witness:
  "let h = after createSignetHandler demo_lost in
    request_ids (sh_sent h) = [''r1'', ''r2''] \<and> map fst (rt_settled (sh_tracker h)) = [''r1'', ''r2'']
    \<and> distinct (rt_pending (sh_tracker h) @ map fst (rt_settled (sh_tracker h))) \<and> rt_pending (sh_tracker h) = []"
proof -
  have "request_ids (sh_sent (after createSignetHandler demo_lost)) = [''r1'', ''r2'']
      \<and> map fst (rt_settled (sh_tracker (after createSignetHandler demo_lost))) = [''r1'', ''r2'']
      \<and> sh_state (after createSignetHandler demo_lost) = Reconnecting"
    by code_simp
  with requests_are_answered_once [OF demo_lost_runs] show ?thesis
    by simp
qed

section \<open>Reconnecting\<close>

lemma delay_bounds:
  assumes "0 \<le> rc_baseDelayMs rc" "0 \<le> rc_maxDelayMs rc"
  shows "0 \<le> calculateDelay n rc draw" "calculateDelay n rc draw \<le> rc_maxDelayMs rc"
proof -
  define cap where "cap = min (rc_baseDelayMs rc * 2 ^ n) (rc_maxDelayMs rc)"
  then have cap: "0 \<le> cap" "cap \<le> rc_maxDelayMs rc"
    using assms by simp_all
  then have "0 \<le> draw mod (cap + 1)" "draw mod (cap + 1) \<le> cap"
    using pos_mod_bound [of "cap + 1" draw] by auto
  with cap show "0 \<le> calculateDelay n rc draw" "calculateDelay n rc draw \<le> rc_maxDelayMs rc"
    by (auto simp: calculateDelay_def cap_def [symmetric])
qed

definition bounded :: "reconnect_config \<Rightarrow> sdk_handler \<Rightarrow> bool" where
  "bounded rc h \<longleftrightarrow> list_all (\<lambda>d. 0 \<le> d \<and> d \<le> rc_maxDelayMs rc) (sh_timers h)
     \<and> (rc_maxAttempts rc = 0 \<or> sh_attempt h \<le> rc_maxAttempts rc)"

lemma bounded_reconnect:
  "0 \<le> rc_baseDelayMs (sc_reconnect config) \<Longrightarrow> 0 \<le> rc_maxDelayMs (sc_reconnect config)
    \<Longrightarrow> bounded (sc_reconnect config) h \<Longrightarrow> bounded (sc_reconnect config) (attemptReconnect config draw h)"
  by (auto simp: bounded_def attemptReconnect_def Let_def tracker_exhausted_def delay_bounds)

lemma bounded_simps [simp]:
  "bounded rc (setState s h) = bounded rc h" "bounded rc (on_monitor f h) = bounded rc h"
  "bounded rc (on_tracker g h) = bounded rc h" "bounded rc (on_socket n k h) = bounded rc h"
  "bounded rc (close_socket n c h) = bounded rc h" "bounded rc (on_stream t h) = bounded rc h"
  "bounded rc (emitError x h) = bounded rc h" "bounded rc (h\<lparr>sh_ws := w\<rparr>) = bounded rc h"
  "bounded rc (h\<lparr>sh_monitors := ms\<rparr>) = bounded rc h"
  by (simp_all add: bounded_def)

lemma bounded_eq:
  "sh_timers h' = sh_timers h \<Longrightarrow> sh_attempt h' = sh_attempt h \<Longrightarrow> bounded rc h \<Longrightarrow> bounded rc h'"
  by (simp add: bounded_def)

lemma frame_parts [simp]:
  "sh_timers (handleFrame parsed h) = sh_timers h" "sh_attempt (handleFrame parsed h) = sh_attempt h"
  "sh_state (handleFrame parsed h) = sh_state h" "sh_sockets (handleFrame parsed h) = sh_sockets h"
  by (simp_all add: handleFrame_def Let_def split: option.split json.split)

lemma message_timers [simp]: "sh_timers (socket_message n parsed h) = sh_timers h"
  by (simp add: socket_message_def authenticated_def auth_refused_def step_defs split: option.split json.split)

lemma message_attempt: "sh_attempt (socket_message n parsed h) = sh_attempt h \<or> sh_attempt (socket_message n parsed h) = 0"
  by (simp add: socket_message_def authenticated_def auth_refused_def step_defs split: option.split json.split)

lemma bounded_closes:
  assumes "0 \<le> rc_baseDelayMs (sc_reconnect config)" "0 \<le> rc_maxDelayMs (sc_reconnect config)"
    and "bounded (sc_reconnect config) h"
  shows "bounded (sc_reconnect config) (socket_close config draw n code reason h)"
  using assms
  by (simp add: socket_close_def close_during_auth_def step_defs bounded_reconnect)

lemma bounded_take:
  "list_all P xs \<Longrightarrow> list_all P (take i xs @ drop (i + 1) xs)"
  by (auto simp: list_all_iff dest: in_set_takeD in_set_dropD)

lemma bounded_step:
  assumes "0 \<le> rc_baseDelayMs (sc_reconnect config)" "0 \<le> rc_maxDelayMs (sc_reconnect config)"
    and "bounded (sc_reconnect config) h"
  shows "bounded (sc_reconnect config) (sdk_step config e h)"
proof (cases e)
  case (ReconnectTimer i draw)
  let ?h = "h\<lparr>sh_timers := take i (sh_timers h) @ drop (i + 1) (sh_timers h)\<rparr>"
  have "bounded (sc_reconnect config) ?h"
    using assms(3) bounded_take by (auto simp: bounded_def)
  with ReconnectTimer assms(1,2) show ?thesis
    using bounded_eq [of "snd (connectInternal config ?h)" ?h]
    by (simp add: connect_then bounded_reconnect)
next
  case (MonitorTimer m draw)
  with assms show ?thesis
    by (simp add: handleConnectionDead_def Let_def bounded_reconnect split: option.split)
next
  case (SocketMessage n parsed)
  with assms(3) show ?thesis
    using message_attempt [of n parsed h] by (auto simp: bounded_def)
next
  case ClientConnect
  with assms(3) show ?thesis
    by (simp add: handler_connect_eq bounded_def)
next
  case (ClientRequest i request)
  with assms(3) show ?thesis
    by (simp add: sendRequest_def bounded_def split: option.split)
next
  case ClientDisconnect
  with assms(3) show ?thesis
    by (simp add: handler_disconnect_def Let_def bounded_def split: option.split)
next
  case (SocketCloses n code reason draw)
  with assms show ?thesis
    by (simp add: bounded_closes)
qed (use assms(3) in \<open>simp_all add: bounded_def socket_open_def authTimeout_fires_def step_defs\<close>)

lemma bounded_reaches:
  "sdk_reaches config h es h' \<Longrightarrow> 0 \<le> rc_baseDelayMs (sc_reconnect config) \<Longrightarrow> 0 \<le> rc_maxDelayMs (sc_reconnect config)
    \<Longrightarrow> bounded (sc_reconnect config) h \<Longrightarrow> bounded (sc_reconnect config) h'"
  by (induction rule: sdk_reaches.induct) (simp_all add: bounded_step)

lemma parsed_config_bounds:
  assumes "parse_handler_config is_url opens raw = Some config"
  shows "0 \<le> rc_baseDelayMs (sc_reconnect config)" "0 \<le> rc_maxDelayMs (sc_reconnect config)"
proof -
  have num: "with_default d (number_from 1) fs key = Some n \<Longrightarrow> 0 \<le> d \<Longrightarrow> 0 \<le> n" for d fs key n
    by (auto simp: with_default_def split: option.splits elim!: number_from.elims split: if_splits)
  have "parse_reconnect v = Some rc \<Longrightarrow> 0 \<le> rc_baseDelayMs rc \<and> 0 \<le> rc_maxDelayMs rc" for v rc
    by (cases v) (auto split: option.splits dest: num)
  with assms show "0 \<le> rc_baseDelayMs (sc_reconnect config)" "0 \<le> rc_maxDelayMs (sc_reconnect config)"
    by (cases raw; force simp del: parse_reconnect.simps split: option.splits)+
qed

text \<open>
  C17. With a configuration the schema accepts, in every reachable state at most one reconnection is due, and one is whenever the state says
  reconnecting; its delay is neither negative nor above the configured maximum; and with a limit
  on the attempts, no more than that many were made since the last authenticated connection.\<close>

theorem reconnections_are_bounded:
  assumes "sdk_reaches config createSignetHandler es h"
    and "parse_handler_config is_url opens raw = Some config"
  shows "length (sh_timers h) \<le> 1 \<and> (sh_state h = Reconnecting \<longrightarrow> length (sh_timers h) = 1)
    \<and> (\<forall>d \<in> set (sh_timers h). 0 \<le> d \<and> d \<le> rc_maxDelayMs (sc_reconnect config))
    \<and> (rc_maxAttempts (sc_reconnect config) = 0 \<or> sh_attempt h \<le> rc_maxAttempts (sc_reconnect config))"
proof -
  have "bounded (sc_reconnect config) h"
    by (rule bounded_reaches [OF assms(1) parsed_config_bounds [OF assms(2)]]) (simp add: bounded_def createSignetHandler_def)
  moreover have "sdk_inv h"
    using assms(1) inv_start by (rule inv_reaches)
  ultimately show ?thesis
    by (auto simp: bounded_def list_all_iff sdk_inv_def idle_def busy_def le_Suc_eq)
qed

theorem reconnections_are_bounded_witness:
  "sh_timers (after createSignetHandler demo_lost) = [1000] \<and> length (sh_timers (after createSignetHandler demo_lost)) \<le> 1
    \<and> sh_attempt (after createSignetHandler demo_lost) \<le> 3"
proof -
  have "sh_timers (after createSignetHandler demo_lost) = [1000]"
    by code_simp
  with reconnections_are_bounded [OF demo_lost_runs demo_sdk_parsed] demo_sdk_attempts show ?thesis
    by simp
qed

section \<open>Disconnecting\<close>

definition ended :: "socket \<Rightarrow> bool" where
  "ended c \<longleftrightarrow> (so_phase c = Gone \<or> so_phase c = Closing \<and> so_authHandled c) \<and> \<not> so_authTimer c"

definition final :: "sdk_handler \<Rightarrow> bool" where
  "final h \<longleftrightarrow> sh_state h = Closed \<and> list_all ended (sh_sockets h) \<and> list_all quiet (sh_monitors h)
     \<and> rt_pending (sh_tracker h) = [] \<and> es_done (sh_stream h)"

lemma gone_ended: "gone c \<Longrightarrow> ended c"
  by (simp add: gone_def ended_def)

lemma closing_ended: "gone c \<or> so_authHandled c \<and> \<not> so_authTimer c \<Longrightarrow> ended (closing c)"
  by (auto simp: ended_def closing_def gone_def)

lemma complete_done [simp]: "es_done (stream_complete s)"
  by (simp add: stream_complete_def split: option.split)

lemma disconnect_final:
  assumes "sdk_inv h" and "sh_state h \<in> {Disconnected, Connected, Reconnecting}"
  shows "final (handler_disconnect h)"
proof -
  have "(idle h \<or> (\<exists>n. busy n h \<and> sh_state h = Connected))"
    using assms by (auto simp: sdk_inv_def busy_def)
  then show ?thesis
  proof
    assume "idle h"
    then have "idle (handler_disconnect h)"
      by (rule idle_disconnect)
    then show ?thesis
      by (auto simp: idle_def final_def handler_disconnect_def Let_def list_all_iff gone_ended split: option.splits)
  next
    assume "\<exists>n. busy n h \<and> sh_state h = Connected"
    then obtain n where b: "busy n h" and c: "sh_state h = Connected"
      by blast
    let ?d = "handler_disconnect h"
    have d: "busy n ?d"
      using b by (rule busy_disconnect)
    have parts: "sh_state ?d = Closed" "es_done (sh_stream ?d)" "rt_pending (sh_tracker ?d) = []"
        "sh_monitors ?d = last_monitor monitor_stop (sh_monitors h)" "sh_ws ?d = None"
      by (simp_all add: handler_disconnect_def Let_def split: option.split)
    have "so_authHandled ((sh_sockets h)[m := closing (sh_sockets h ! m)] ! n)" for m
      using b c by (cases "m = n") (simp_all add: busy_def)
    with b c have "so_authHandled (sh_sockets ?d ! n)"
      by (simp add: handler_disconnect_def Let_def busy_def split: option.split)
    with d have "list_all ended (sh_sockets ?d)"
      using parts(5) by (auto simp: busy_def others_def list_all_length ended_def gone_def)
    with d parts b show ?thesis
      by (simp add: final_def busy_def last_monitor_quiet)
  qed
qed

lemma ended_update: "list_all ended xs \<Longrightarrow> ended c \<Longrightarrow> list_all ended (xs[n := c])"
  by (auto simp: list_all_iff dest!: set_update_subset_insert [THEN subsetD])

lemma ended_closing:
  assumes "list_all ended xs"
  shows "list_all ended (xs[m := closing (xs ! m)])"
proof (cases "m < length xs")
  case True
  with assms have "ended (xs ! m)"
    by (simp add: list_all_length)
  then have "ended (closing (xs ! m))"
    by (auto simp: ended_def closing_def)
  with assms show ?thesis
    by (rule ended_update)
next
  case False
  with assms show ?thesis
    by (simp add: list_update_beyond)
qed

lemma final_step:
  assumes "enabled e h" and "final h"
  shows "final (sdk_step config e h) \<and> sh_sent (sdk_step config e h) = sh_sent h
    \<and> length (sh_sockets (sdk_step config e h)) = length (sh_sockets h)"
proof (cases e)
  case (SocketCloses n code reason draw)
  with assms have n: "n < length (sh_sockets h)" "so_phase (sh_sockets h ! n) \<noteq> Gone"
    by (auto simp: in_phase_def)
  with assms(2) have "so_authHandled (sh_sockets h ! n)" "\<not> so_authTimer (sh_sockets h ! n)"
    by (auto simp: final_def list_all_length ended_def)
  with n assms(2) SocketCloses show ?thesis
    by (auto simp: final_def socket_close_def Let_def last_monitor_quiet quiet_parts ended_update ended_def)
next
  case (MonitorTimer m draw)
  with assms show ?thesis
    by (auto simp: final_def list_all_length quiet_def)
next
  case (ClientRequest i request)
  with assms(2) show ?thesis
    by (auto simp: final_def sendRequest_def split: option.split)
next
  case ClientDisconnect
  with assms(2) show ?thesis
    by (auto simp: final_def handler_disconnect_def Let_def last_monitor_quiet quiet_parts ended_closing split: option.split)
next
  case ClientPull
  with assms(2) show ?thesis
    by (auto simp: final_def stream_next_def Let_def split: list.split)
qed (use assms in \<open>auto simp: final_def handler_connect_eq in_phase_def list_all_length ended_def reconnect_fires_def
      tracker_timeout_def tracker_resolve_def\<close>)

lemma final_reaches:
  "sdk_reaches config h es h' \<Longrightarrow> final h
    \<Longrightarrow> final h' \<and> sh_sent h' = sh_sent h \<and> length (sh_sockets h') = length (sh_sockets h)"
proof (induction rule: sdk_reaches.induct)
  case (reaches_Cons e h es h')
  with final_step [OF reaches_Cons.hyps(1) reaches_Cons.prems] show ?case
    by simp
qed simp

text \<open>
  C15. A handler that is disconnected while connected, between two attempts or idle stays closed:
  whatever its sockets, its timers and its client do afterwards, it opens no socket, sends nothing
  and leaves no request waiting.\<close>

theorem disconnect_is_final:
  assumes "sdk_reaches config createSignetHandler es h"
    and "sh_state h \<in> {Disconnected, Connected, Reconnecting}"
    and "sdk_reaches config (handler_disconnect h) es' h'"
  shows "sh_state h' = Closed \<and> sh_sent h' = sh_sent h \<and> length (sh_sockets h') = length (sh_sockets h)
    \<and> rt_pending (sh_tracker h') = [] \<and> es_done (sh_stream h')"
proof -
  have "final (handler_disconnect h)"
    using inv_reaches [OF assms(1) inv_start] assms(2) by (rule disconnect_final)
  moreover have "sh_sent (handler_disconnect h) = sh_sent h" "length (sh_sockets (handler_disconnect h)) = length (sh_sockets h)"
    by (simp_all add: handler_disconnect_def Let_def split: option.split)
  ultimately show ?thesis
    using final_reaches [OF assms(3)] by (simp add: final_def)
qed

theorem disconnect_is_final_witness:
  "sh_state (after (handler_disconnect (after createSignetHandler demo_connected))
      [SocketCloses 0 1000 [] 0, ClientConnect, ClientRequest ''r1'' list_request]) = Closed"
proof -
  let ?h = "after createSignetHandler demo_connected"
  let ?es = "[SocketCloses 0 1000 [] 0, ClientConnect, ClientRequest ''r1'' list_request]"
  have "sh_state ?h = Connected"
    by code_simp
  moreover have "sdk_reaches demo_sdk (handler_disconnect ?h) ?es (after (handler_disconnect ?h) ?es)"
    by (rule after_reaches) code_simp
  ultimately show ?thesis
    using disconnect_is_final [OF demo_connected_runs] by simp
qed

section \<open>Events\<close>

definition stream_inv :: "event_stream \<Rightarrow> bool" where
  "stream_inv s \<longleftrightarrow> sorted_wrt (<) (map fst (es_answers s)) \<and> (\<forall>n \<in> fst ` set (es_answers s). n < es_pulls s)
     \<and> (case es_waiter s of None \<Rightarrow> True
        | Some w \<Rightarrow> \<not> es_done s \<and> es_buffer s = [] \<and> w < es_pulls s \<and> (\<forall>n \<in> fst ` set (es_answers s). n < w))"

lemma stream_inv_start: "stream_inv createEventStream"
  by (simp add: stream_inv_def createEventStream_def)

lemma stream_inv_steps:
  assumes "stream_inv s"
  shows "stream_inv (stream_push e s)" "stream_inv (stream_complete s)" "stream_inv (stream_next s)"
  using assms
  by (auto simp: stream_inv_def stream_push_def stream_complete_def stream_next_def Let_def sorted_wrt_append less_Suc_eq
      split: option.splits list.splits)

lemma filtered_append: "List.map_filter f (xs @ ys) = List.map_filter f xs @ List.map_filter f ys"
  by (simp add: List.map_filter_def)

lemma delivered_steps:
  "stream_inv s \<Longrightarrow> \<not> es_done s \<Longrightarrow> delivered (stream_push e s) = delivered s @ [e]"
  "delivered (stream_complete s) = delivered s"
  "delivered (stream_next s) = delivered s"
  by (auto simp: delivered_def stream_inv_def stream_push_def stream_complete_def stream_next_def Let_def filtered_append
      List.map_filter_def split: option.splits list.splits)

lemma done_steps [simp]:
  "es_done (stream_push e s) = es_done s" "es_done (stream_next s) = es_done s"
  by (auto simp: stream_push_def stream_next_def Let_def split: option.split list.split)

text \<open>The sequenced events among the frames a handler receives.\<close>

definition event_frame :: "json option \<Rightarrow> (int \<times> json) option" where
  "event_frame parsed =
     (case parsed of
        Some (JObj fs) \<Rightarrow>
          if map_of fs ''type'' = Some (JStr ''backpressure'') \<or> has_field fs ''requestId'' \<and> has_field fs ''ok'' then None
          else if has_field fs ''seq'' \<and> has_field fs ''event''
          then Some (num_of (map_of fs ''seq''), the (map_of fs ''event''))
          else None
      | _ \<Rightarrow> None)"

fun received1 :: "sdk_event \<Rightarrow> sdk_handler \<Rightarrow> (int \<times> json) list" where
  "received1 (SocketMessage n parsed) h =
     (if so_authHandled (sh_sockets h ! n) then (case event_frame parsed of Some x \<Rightarrow> [x] | None \<Rightarrow> []) else [])"
| "received1 _ h = []"

fun received :: "sdk_config \<Rightarrow> sdk_handler \<Rightarrow> sdk_event list \<Rightarrow> (int \<times> json) list" where
  "received config h [] = []"
| "received config h (e # es) = received1 e h @ received config (sdk_step config e h) es"

lemma frame_stream:
  "sh_stream (handleFrame parsed h) =
     (case event_frame parsed of Some (q, e) \<Rightarrow> stream_push e (sh_stream h) | None \<Rightarrow> sh_stream h)"
  "sh_lastSeenSeq (handleFrame parsed h) =
     (case event_frame parsed of Some (q, e) \<Rightarrow> Some q | None \<Rightarrow> sh_lastSeenSeq h)"
  by (auto simp: handleFrame_def event_frame_def Let_def split: option.split json.split)

lemma message_stream:
  "sh_stream (socket_message n parsed h) =
     (case received1 (SocketMessage n parsed) h of (q, e) # _ \<Rightarrow> stream_push e (sh_stream h) | [] \<Rightarrow> sh_stream h)"
  "sh_lastSeenSeq (socket_message n parsed h) =
     (case received1 (SocketMessage n parsed) h of (q, e) # _ \<Rightarrow> Some q | [] \<Rightarrow> sh_lastSeenSeq h)"
  by (auto simp: socket_message_def frame_stream authenticated_def auth_refused_def step_defs split: option.split json.split)

lemma reconnect_stream: "sh_stream (attemptReconnect config draw h) \<in> {sh_stream h, stream_complete (sh_stream h)}"
  by (simp add: attemptReconnect_def Let_def)

lemma step_stream:
  assumes "e \<noteq> ClientConnect" "e \<noteq> ClientPull" "\<forall>n parsed. e \<noteq> SocketMessage n parsed"
  shows "sh_stream (sdk_step config e h) \<in> {sh_stream h, stream_complete (sh_stream h)}
    \<and> sh_lastSeenSeq (sdk_step config e h) = sh_lastSeenSeq h \<and> received1 e h = []"
proof (cases e)
  case ClientDisconnect
  then show ?thesis
    by (simp add: handler_disconnect_def Let_def split: option.split)
next
  case (ClientRequest i request)
  then show ?thesis
    by (simp add: sendRequest_def split: option.split)
next
  case (SocketCloses n code reason draw)
  let ?a = "clear_auth_timer n (auth_handled n (on_monitor monitor_stop (on_socket n (\<lambda>c. c\<lparr>so_phase := Gone\<rparr>) h)))"
  let ?b = "(on_monitor monitor_stop (on_socket n (\<lambda>c. c\<lparr>so_phase := Gone\<rparr>) h))\<lparr>sh_ws := None\<rparr>"
  from SocketCloses show ?thesis
    using reconnect_stream [of config draw "on_tracker (tracker_rejectAll (InternalError ''Connection lost'' None)) ?a"]
      reconnect_stream [of config draw "on_tracker (tracker_rejectAll (InternalError ''Connection closed'' None)) ?b"]
    by (simp add: socket_close_def close_during_auth_def step_defs)
next
  case (AuthTimer n)
  then show ?thesis
    by (simp add: authTimeout_fires_def step_defs)
next
  case (SocketOpens n)
  then show ?thesis
    by (simp add: socket_open_def Let_def)
next
  case (ReconnectTimer i draw)
  let ?h = "h\<lparr>sh_timers := take i (sh_timers h) @ drop (i + 1) (sh_timers h)\<rparr>"
  from ReconnectTimer show ?thesis
    using reconnect_stream [of config draw "snd (connectInternal config ?h)"] by (simp add: connect_then)
next
  case (MonitorTimer m draw)
  let ?h = "on_monitor monitor_stop (h\<lparr>sh_monitors := (sh_monitors h)[m := (sh_monitors h ! m)\<lparr>hb_timer := False\<rparr>]\<rparr>)"
  from MonitorTimer show ?thesis
    using reconnect_stream [of config draw ?h] by (simp add: handleConnectionDead_def Let_def split: option.split)
next
  case (RequestTimer i)
  then show ?thesis
    by simp
qed (use assms in auto)

lemma stream_inv_step: "stream_inv (sh_stream h) \<Longrightarrow> stream_inv (sh_stream (sdk_step config e h))"
  using step_stream [of e config h] stream_inv_steps [of "sh_stream h"]
  by (cases e) (auto simp: handler_connect_eq stream_inv_start message_stream split: list.split)

lemma done_step: "ClientConnect \<noteq> e \<Longrightarrow> es_done (sh_stream h) \<Longrightarrow> es_done (sh_stream (sdk_step config e h))"
  using step_stream [of e config h] by (cases e) (auto simp: message_stream split: list.split)

lemma done_reaches:
  "sdk_reaches config h es h' \<Longrightarrow> ClientConnect \<notin> set es \<Longrightarrow> es_done (sh_stream h) \<Longrightarrow> es_done (sh_stream h')"
  by (induction rule: sdk_reaches.induct) (simp_all add: done_step)

lemma delivered_step:
  assumes "ClientConnect \<noteq> e" "stream_inv (sh_stream h)" "\<not> es_done (sh_stream h)"
  shows "delivered (sh_stream (sdk_step config e h)) = delivered (sh_stream h) @ map snd (received1 e h)"
    and "sh_lastSeenSeq (sdk_step config e h) =
      (if received1 e h = [] then sh_lastSeenSeq h else Some (fst (List.last (received1 e h))))"
  using step_stream [of e config h] assms delivered_steps [of "sh_stream h"]
  by (cases e; force simp: message_stream split: option.split)+

lemma received_reaches:
  assumes "sdk_reaches config h es h'" "ClientConnect \<notin> set es" "stream_inv (sh_stream h)" "\<not> es_done (sh_stream h')"
  shows "stream_inv (sh_stream h') \<and> delivered (sh_stream h') = delivered (sh_stream h) @ map snd (received config h es)
    \<and> sh_lastSeenSeq h' = (if received config h es = [] then sh_lastSeenSeq h
         else Some (fst (List.last (received config h es))))"
  using assms
proof (induction rule: sdk_reaches.induct)
  case (reaches_Cons e h es h')
  from reaches_Cons.prems reaches_Cons.hyps(2) done_reaches done_step have "\<not> es_done (sh_stream h)"
    by (metis list.set_intros(1,2))
  with reaches_Cons show ?case
    by (simp add: delivered_step stream_inv_step)
qed simp

lemma stream_inv_reaches: "sdk_reaches config h es h' \<Longrightarrow> stream_inv (sh_stream h) \<Longrightarrow> stream_inv (sh_stream h')"
  by (induction rule: sdk_reaches.induct) (simp_all add: stream_inv_step)



end
