(* ===== verification/Spec2Isabelle.thy ===== *)
theory Spec2Isabelle
  imports Errors ResourceIds Scopes PolicyEngine RevealState Json Materiality CredentialManager
    CredentialLifecycle SealLifecycle Managers CredentialService RequestHandler WsSafety VerifierSafety ElevationSafety
    HttpSafety KeyManagerSafety SdkSafety
begin

text \<open>
  A model of the xmtp-signet packages, a broker that lets agents act on a user's messaging
  account under scoped, expiring credentials.
\<close>

end
